(* ===== verification/Prelude.thy ===== *)
theory Prelude
  imports Main
begin

text \<open>
  Shared vocabulary of the development.

  A Go function that may fail and that reads or writes shared state is a function
  \<open>'w \<Rightarrow> (err + 'a) \<times> 'w\<close>: it returns an error or a value, and the state it leaves behind.
  As in Go, what was written before an error stays written.  An error is either an \<open>Err\<close>
  (a returned \<open>error\<close> value, told apart by its message) or a \<open>Panic\<close> (a run-time panic, which
  \<open>bindE\<close> propagates like an early return but which code that ignores an error value cannot
  ignore).
\<close>

datatype err = Err string | Panic string

type_synonym ('w, 'a) eff = "'w \<Rightarrow> (err + 'a) \<times> 'w"

named_theorems eff_simps \<open>evaluation of the effect combinators\<close>
named_theorems keeps_intros \<open>preservation of a state predicate by an effect\<close>

subsection \<open>Combinators\<close>

definition retE :: "'a \<Rightarrow> ('w, 'a) eff" where
  "retE x = (\<lambda>w. (Inr x, w))"

definition failE :: "err \<Rightarrow> ('w, 'a) eff" where
  "failE e = (\<lambda>w. (Inl e, w))"

definition bindE :: "('w, 'a) eff \<Rightarrow> ('a \<Rightarrow> ('w, 'b) eff) \<Rightarrow> ('w, 'b) eff" where
  "bindE m f = (\<lambda>w. case m w of (Inl e, w') \<Rightarrow> (Inl e, w') | (Inr x, w') \<Rightarrow> f x w')"

definition thenE :: "('w, 'a) eff \<Rightarrow> ('w, 'b) eff \<Rightarrow> ('w, 'b) eff" where
  "thenE m n = bindE m (\<lambda>_. n)"

text \<open>A pure computation that may fail.\<close>

definition liftE :: "err + 'a \<Rightarrow> ('w, 'a) eff" where
  "liftE r = (\<lambda>w. (r, w))"

definition getE :: "('w \<Rightarrow> 'a) \<Rightarrow> ('w, 'a) eff" where
  "getE f = (\<lambda>w. (Inr (f w), w))"

definition modE :: "('w \<Rightarrow> 'w) \<Rightarrow> ('w, unit) eff" where
  "modE f = (\<lambda>w. (Inr (), f w))"

text \<open>
  The code looks at the error value itself (\<open>x, err := f(); if err == nil \<dots>\<close>) or drops it
  (\<open>x, _ := f()\<close>): the result becomes a value.  A panic is not a value.
\<close>

definition tryE :: "('w, 'a) eff \<Rightarrow> ('w, string + 'a) eff" where
  "tryE m = (\<lambda>w. case m w of
      (Inr x, w') \<Rightarrow> (Inr (Inr x), w')
    | (Inl (Err e), w') \<Rightarrow> (Inr (Inl e), w')
    | (Inl (Panic p), w') \<Rightarrow> (Inl (Panic p), w'))"

definition whenE :: "bool \<Rightarrow> ('w, unit) eff \<Rightarrow> ('w, unit) eff" where
  "whenE b m = (if b then m else retE ())"

text \<open>A \<open>for \<dots> range\<close> loop whose body may return an error, which ends the loop.\<close>

fun forE :: "'a list \<Rightarrow> ('a \<Rightarrow> ('w, unit) eff) \<Rightarrow> ('w, unit) eff" where
  "forE [] f = retE ()"
| "forE (x # xs) f = thenE (f x) (forE xs f)"

text \<open>A loop that appends one result per element.\<close>

fun mapE :: "('a \<Rightarrow> ('w, 'b) eff) \<Rightarrow> 'a list \<Rightarrow> ('w, 'b list) eff" where
  "mapE f [] = retE []"
| "mapE f (x # xs) = bindE (f x) (\<lambda>y. bindE (mapE f xs) (\<lambda>ys. retE (y # ys)))"

text \<open>The conversion of an \<open>int\<close> to an \<open>int32\<close>, and the sums of \<open>int32\<close> values.\<close>

definition wrap32 :: "int \<Rightarrow> int" where
  "wrap32 i = (i + 2 ^ 31) mod 2 ^ 32 - 2 ^ 31"

lemma retE_apply [simp, eff_simps]: "retE x w = (Inr x, w)"
  by (simp add: retE_def)

lemma failE_apply [simp, eff_simps]: "failE e w = (Inl e, w)"
  by (simp add: failE_def)

lemma liftE_apply [simp, eff_simps]: "liftE r w = (r, w)"
  by (simp add: liftE_def)

lemma getE_apply [simp, eff_simps]: "getE f w = (Inr (f w), w)"
  by (simp add: getE_def)

lemma modE_apply [simp, eff_simps]: "modE f w = (Inr (), f w)"
  by (simp add: modE_def)

lemma bindE_apply [eff_simps]:
  "bindE m f w = (case m w of (Inl e, w') \<Rightarrow> (Inl e, w') | (Inr x, w') \<Rightarrow> f x w')"
  by (simp add: bindE_def)

lemma bindE_Inl [simp]: "m w = (Inl e, w') \<Longrightarrow> bindE m f w = (Inl e, w')"
  by (simp add: bindE_def)

lemma bindE_Inr [simp]: "m w = (Inr x, w') \<Longrightarrow> bindE m f w = f x w'"
  by (simp add: bindE_def)

lemma thenE_apply [eff_simps]:
  "thenE m n w = (case m w of (Inl e, w') \<Rightarrow> (Inl e, w') | (Inr x, w') \<Rightarrow> n w')"
  by (simp add: thenE_def bindE_def)

lemma thenE_Inl [simp]: "m w = (Inl e, w') \<Longrightarrow> thenE m n w = (Inl e, w')"
  by (simp add: thenE_def)

lemma thenE_Inr [simp]: "m w = (Inr x, w') \<Longrightarrow> thenE m n w = n w'"
  by (simp add: thenE_def)

lemma tryE_apply [eff_simps]:
  "tryE m w = (case m w of
      (Inr x, w') \<Rightarrow> (Inr (Inr x), w')
    | (Inl (Err e), w') \<Rightarrow> (Inr (Inl e), w')
    | (Inl (Panic p), w') \<Rightarrow> (Inl (Panic p), w'))"
  by (simp add: tryE_def)

lemma whenE_simps [simp, eff_simps]: "whenE True m = m" "whenE False m = retE ()"
  by (simp_all add: whenE_def)

lemma bindE_eq_Inr:
  "bindE m f w = (Inr y, w'') \<longleftrightarrow> (\<exists>x w'. m w = (Inr x, w') \<and> f x w' = (Inr y, w''))"
  by (auto simp: bindE_def split: prod.splits sum.splits)

lemma thenE_eq_Inr:
  "thenE m n w = (Inr y, w'') \<longleftrightarrow> (\<exists>x w'. m w = (Inr x, w') \<and> n w' = (Inr y, w''))"
  by (auto simp: thenE_def bindE_eq_Inr)

lemma bindE_eq_Inl:
  "bindE m f w = (Inl e, w'') \<longleftrightarrow>
     m w = (Inl e, w'') \<or> (\<exists>x w'. m w = (Inr x, w') \<and> f x w' = (Inl e, w''))"
  by (auto simp: bindE_def split: prod.splits sum.splits)

lemma thenE_eq_Inl:
  "thenE m n w = (Inl e, w'') \<longleftrightarrow>
     m w = (Inl e, w'') \<or> (\<exists>x w'. m w = (Inr x, w') \<and> n w' = (Inl e, w''))"
  by (auto simp: thenE_def bindE_eq_Inl)

text \<open>The same for a computation without state.\<close>

definition bindS :: "err + 'a \<Rightarrow> ('a \<Rightarrow> err + 'b) \<Rightarrow> err + 'b" where
  "bindS r f = (case r of Inl e \<Rightarrow> Inl e | Inr x \<Rightarrow> f x)"

lemma bindS_simps [simp]: "bindS (Inl e) f = Inl e" "bindS (Inr x) f = f x"
  by (simp_all add: bindS_def)

text \<open>The monad laws, and how a loop runs over two lists.\<close>

lemma bindE_retE [simp]: "bindE (retE x) f = f x" "bindE m retE = m"
  by (rule ext, simp add: bindE_def split: prod.splits sum.splits)+

lemma bindE_assoc: "bindE (bindE m f) g = bindE m (\<lambda>x. bindE (f x) g)"
  by (rule ext) (simp add: bindE_def split: prod.splits sum.splits)

lemma thenE_retE [simp]: "thenE (retE x) m = m"
  by (simp add: thenE_def)

lemma thenE_assoc: "thenE (thenE l m) n = thenE l (thenE m n)"
  by (simp add: thenE_def bindE_assoc)

lemma bindE_thenE: "bindE (thenE m n) f = thenE m (bindE n f)"
  by (simp add: thenE_def bindE_assoc)

lemma thenE_unit [simp]: "thenE m (retE ()) = (m :: ('w, unit) eff)"
  by (rule ext) (simp add: thenE_def bindE_def split: prod.splits sum.splits)

lemma forE_append: "forE (xs @ ys) f = thenE (forE xs f) (forE ys f)"
  by (induction xs) (simp_all add: thenE_assoc)

subsection \<open>State predicates an effect keeps\<close>

definition keeps :: "('w \<Rightarrow> bool) \<Rightarrow> ('w, 'a) eff \<Rightarrow> bool" where
  "keeps P m \<longleftrightarrow> (\<forall>w. P w \<longrightarrow> P (snd (m w)))"

lemma keepsI: "(\<And>w. P w \<Longrightarrow> P (snd (m w))) \<Longrightarrow> keeps P m"
  by (simp add: keeps_def)

lemma keepsD: "keeps P m \<Longrightarrow> P w \<Longrightarrow> P (snd (m w))"
  by (simp add: keeps_def)

lemma keepsD_eq: "keeps P m \<Longrightarrow> P w \<Longrightarrow> m w = (r, w') \<Longrightarrow> P w'"
  by (metis keepsD snd_conv)

lemma keeps_ret [keeps_intros]: "keeps P (retE x)"
  by (simp add: keeps_def)

lemma keeps_fail [keeps_intros]: "keeps P (failE e)"
  by (simp add: keeps_def)

lemma keeps_lift [keeps_intros]: "keeps P (liftE r)"
  by (simp add: keeps_def)

lemma keeps_get [keeps_intros]: "keeps P (getE f)"
  by (simp add: keeps_def)

lemma keeps_mod: "(\<And>w. P w \<Longrightarrow> P (f w)) \<Longrightarrow> keeps P (modE f)"
  by (simp add: keeps_def)

lemma keeps_bind [keeps_intros]:
  "keeps P m \<Longrightarrow> (\<And>x. keeps P (f x)) \<Longrightarrow> keeps P (bindE m f)"
  unfolding keeps_def bindE_def by (fastforce split: prod.splits sum.splits)

lemma keeps_then [keeps_intros]: "keeps P m \<Longrightarrow> keeps P n \<Longrightarrow> keeps P (thenE m n)"
  by (simp add: thenE_def keeps_bind)

lemma keeps_try [keeps_intros]: "keeps P m \<Longrightarrow> keeps P (tryE m)"
  unfolding keeps_def tryE_def by (fastforce split: prod.splits sum.splits err.splits)

lemma keeps_when [keeps_intros]: "(b \<Longrightarrow> keeps P m) \<Longrightarrow> keeps P (whenE b m)"
  by (simp add: whenE_def keeps_ret)

lemma keeps_if [keeps_intros]:
  "(b \<Longrightarrow> keeps P m) \<Longrightarrow> (\<not> b \<Longrightarrow> keeps P n) \<Longrightarrow> keeps P (if b then m else n)"
  by simp

lemma keeps_case_option [keeps_intros]:
  "(x = None \<Longrightarrow> keeps P m) \<Longrightarrow> (\<And>y. x = Some y \<Longrightarrow> keeps P (f y)) \<Longrightarrow>
   keeps P (case x of None \<Rightarrow> m | Some y \<Rightarrow> f y)"
  by (cases x) auto

lemma keeps_case_sum [keeps_intros]:
  "(\<And>e. x = Inl e \<Longrightarrow> keeps P (f e)) \<Longrightarrow> (\<And>y. x = Inr y \<Longrightarrow> keeps P (g y)) \<Longrightarrow>
   keeps P (case x of Inl e \<Rightarrow> f e | Inr y \<Rightarrow> g y)"
  by (cases x) auto

lemma keeps_case_prod [keeps_intros]:
  "(\<And>a b. x = (a, b) \<Longrightarrow> keeps P (f a b)) \<Longrightarrow> keeps P (case x of (a, b) \<Rightarrow> f a b)"
  by (cases x) auto

lemma keeps_for [keeps_intros]:
  "(\<And>x. x \<in> set xs \<Longrightarrow> keeps P (f x)) \<Longrightarrow> keeps P (forE xs f)"
  by (induction xs) (auto intro: keeps_intros)

lemma keeps_map [keeps_intros]:
  "(\<And>x. x \<in> set xs \<Longrightarrow> keeps P (f x)) \<Longrightarrow> keeps P (mapE f xs)"
  by (induction xs) (auto intro: keeps_intros)

subsection \<open>What an effect establishes\<close>

text \<open>
  \<open>ensures P m Q E\<close>: run from a state with \<open>P\<close>, \<open>m\<close> either returns a result \<open>x\<close> in a state with
  \<open>Q x\<close>, or fails in a state with \<open>E\<close>.
\<close>

definition ensures ::
  "('w \<Rightarrow> bool) \<Rightarrow> ('w, 'a) eff \<Rightarrow> ('a \<Rightarrow> 'w \<Rightarrow> bool) \<Rightarrow> ('w \<Rightarrow> bool) \<Rightarrow> bool" where
  "ensures P m Q E \<longleftrightarrow> (\<forall>w r w'. P w \<longrightarrow> m w = (r, w') \<longrightarrow>
     (case r of Inl _ \<Rightarrow> E w' | Inr x \<Rightarrow> Q x w'))"

named_theorems ensures_intros \<open>what an effect establishes\<close>

lemma ensuresI:
  "(\<And>w x w'. P w \<Longrightarrow> m w = (Inr x, w') \<Longrightarrow> Q x w') \<Longrightarrow>
   (\<And>w e w'. P w \<Longrightarrow> m w = (Inl e, w') \<Longrightarrow> E w') \<Longrightarrow> ensures P m Q E"
  by (auto simp: ensures_def split: sum.split)

lemma ensuresD: "ensures P m Q E \<Longrightarrow> P w \<Longrightarrow> m w = (Inr x, w') \<Longrightarrow> Q x w'"
  unfolding ensures_def by (metis sum.case(2))

lemma ensures_errD: "ensures P m Q E \<Longrightarrow> P w \<Longrightarrow> m w = (Inl e, w') \<Longrightarrow> E w'"
  unfolding ensures_def by (metis sum.case(1))

lemma ensures_weaken:
  assumes "ensures P m Q' E'" "\<And>x w. Q' x w \<Longrightarrow> Q x w" "\<And>w. E' w \<Longrightarrow> E w"
  shows "ensures P m Q E"
  by (rule ensuresI) (metis assms ensuresD, metis assms ensures_errD)

lemma ensures_pre: "ensures P' m Q E \<Longrightarrow> (\<And>w. P w \<Longrightarrow> P' w) \<Longrightarrow> ensures P m Q E"
  unfolding ensures_def by blast

lemma ensures_pure: "(b \<Longrightarrow> ensures P m Q E) \<Longrightarrow> ensures (\<lambda>s. b \<and> P s) m Q E"
  unfolding ensures_def by blast

lemma ensures_keeps: "keeps P m \<Longrightarrow> ensures P m (\<lambda>_. P) P"
  by (rule ensuresI) (metis keepsD_eq)+

lemma keeps_ensures: "ensures P m (\<lambda>_. P) P \<Longrightarrow> keeps P m"
  unfolding ensures_def keeps_def by (metis prod.collapse sum.case_eq_if)

lemma ensures_ret [ensures_intros]: "(\<And>w. P w \<Longrightarrow> Q x w) \<Longrightarrow> ensures P (retE x) Q E"
  by (rule ensuresI) auto

lemma ensures_fail [ensures_intros]: "(\<And>w. P w \<Longrightarrow> E w) \<Longrightarrow> ensures P (failE e) Q E"
  by (rule ensuresI) auto

lemma ensures_lift [ensures_intros]:
  "(\<And>x w. r = Inr x \<Longrightarrow> P w \<Longrightarrow> Q x w) \<Longrightarrow> (\<And>w. P w \<Longrightarrow> E w) \<Longrightarrow> ensures P (liftE r) Q E"
  by (rule ensuresI) auto

lemma ensures_bind:
  assumes "ensures P m R E" "\<And>x. ensures (R x) (f x) Q E"
  shows "ensures P (bindE m f) Q E"
  by (rule ensuresI)
    (auto simp: bindE_eq_Inr bindE_eq_Inl dest: ensuresD [OF assms(1)] ensures_errD [OF assms(1)]
      intro: ensuresD [OF assms(2)] ensures_errD [OF assms(2)])

lemma ensures_bind_eq:
  "ensures P m (\<lambda>x s. x = a \<and> R s) E \<Longrightarrow> ensures R (f a) Q E \<Longrightarrow> ensures P (bindE m f) Q E"
  by (erule ensures_bind) (auto intro: ensures_pure)

lemma ensures_bind_fact:
  assumes "ensures P m (\<lambda>x s. A x \<and> I s) E" "\<And>x. A x \<Longrightarrow> ensures I (f x) Q E"
  shows "ensures P (bindE m f) Q E"
  by (rule ensures_bind [OF assms(1)], rule ensures_pure, rule assms(2))

lemma ensures_then: "ensures P m (\<lambda>_. R) E \<Longrightarrow> ensures R n Q E \<Longrightarrow> ensures P (thenE m n) Q E"
  unfolding thenE_def by (rule ensures_bind)

lemma ensures_if [ensures_intros]:
  "(b \<Longrightarrow> ensures P m Q E) \<Longrightarrow> (\<not> b \<Longrightarrow> ensures P n Q E) \<Longrightarrow> ensures P (if b then m else n) Q E"
  by simp

lemma ensures_case_option [ensures_intros]:
  "(x = None \<Longrightarrow> ensures P m Q E) \<Longrightarrow> (\<And>y. x = Some y \<Longrightarrow> ensures P (f y) Q E) \<Longrightarrow>
   ensures P (case x of None \<Rightarrow> m | Some y \<Rightarrow> f y) Q E"
  by (cases x) auto

lemma ensures_case_sum [ensures_intros]:
  "(\<And>e. x = Inl e \<Longrightarrow> ensures P (f e) Q E) \<Longrightarrow> (\<And>y. x = Inr y \<Longrightarrow> ensures P (g y) Q E) \<Longrightarrow>
   ensures P (case x of Inl e \<Rightarrow> f e | Inr y \<Rightarrow> g y) Q E"
  by (cases x) auto

lemma ensures_case_prod [ensures_intros]:
  "(\<And>a b. x = (a, b) \<Longrightarrow> ensures P (f a b) Q E) \<Longrightarrow> ensures P (case x of (a, b) \<Rightarrow> f a b) Q E"
  by (cases x) auto

lemma ensures_bind_ctx:
  assumes "ensures P m (\<lambda>(a, b) s. b = d \<and> I s) E" "\<And>a. ensures I (g a d) Q E"
  shows "ensures P (bindE m (\<lambda>(a, b). g a b)) Q E"
  by (rule ensures_bind [OF assms(1)]) (use assms(2) in \<open>auto intro!: ensures_pure\<close>)

text \<open>The result of \<open>tryE\<close> says which way the effect went.\<close>

lemma ensures_try:
  assumes "ensures P m Q E"
  shows "ensures P (tryE m) (\<lambda>r s. case r of Inl _ \<Rightarrow> E s | Inr x \<Rightarrow> Q x s) E"
proof (rule ensuresI)
  fix w x w' assume w: "P w" "tryE m w = (Inr x, w')"
  obtain r s where r: "m w = (r, s)" by fastforce
  then show "case x of Inl _ \<Rightarrow> E w' | Inr x \<Rightarrow> Q x w'"
    using w ensuresD [OF assms w(1)] ensures_errD [OF assms w(1)]
    by (auto simp: tryE_apply split: sum.splits err.splits)
next
  fix w e w' assume w: "P w" "tryE m w = (Inl e, w')"
  obtain r s where r: "m w = (r, s)" by fastforce
  then show "E w'"
    using w ensures_errD [OF assms w(1)] by (auto simp: tryE_apply split: sum.splits err.splits)
qed

lemma ensures_try_keeps: "keeps P m \<Longrightarrow> ensures P (tryE m) (\<lambda>_. P) P"
  by (intro ensures_keeps keeps_try)

subsection \<open>Lists\<close>

text \<open>Reading an index as Go does: out of range is a panic.\<close>

definition idx :: "'a list \<Rightarrow> nat \<Rightarrow> err + 'a" where
  "idx xs i = (if i < length xs then Inr (xs ! i) else Inl (Panic ''index out of range''))"

lemma idx_simps [simp]:
  "idx (x # xs) 0 = Inr x"
  "idx (x # xs) (Suc i) = idx xs i"
  "idx [] i = Inl (Panic ''index out of range'')"
  by (simp_all add: idx_def)

lemma idx_numeral [simp]: "idx (x # xs) (numeral k) = idx xs (pred_numeral k)"
  by (simp add: numeral_eq_Suc)

lemma idx_lt [simp]: "i < length xs \<Longrightarrow> idx xs i = Inr (xs ! i)"
  by (simp add: idx_def)

end
