(* ===== verification/GoStrings.thy ===== *)
theory GoStrings
  imports Prelude
begin

text \<open>
  The parts of Go's standard library on strings and byte slices that the daemon uses:
  \<open>strings\<close> (Split, SplitN, Join, TrimPrefix, TrimSuffix, TrimRight, HasPrefix, HasSuffix, Contains,
  Replace, EqualFold), \<open>path/filepath\<close> on a slash-separated system (Split, Base, Dir, Ext, Clean,
  Join), \<open>encoding/hex\<close> and \<open>strconv\<close> on integers.  A Go string is a sequence of bytes and an
  Isabelle \<open>char\<close> is a byte, so \<open>string\<close> stands for Go's \<open>string\<close> and for \<open>[]byte\<close>.
\<close>

type_synonym bytes = string

named_theorems go_string_simps \<open>evaluation of the string library on concrete strings\<close>

subsection \<open>Prefixes, suffixes and cutting\<close>

fun hasPrefix :: "string \<Rightarrow> string \<Rightarrow> bool" where
  "hasPrefix s [] = True"
| "hasPrefix [] (p # ps) = False"
| "hasPrefix (c # s) (p # ps) = (c = p \<and> hasPrefix s ps)"

definition hasSuffix :: "string \<Rightarrow> string \<Rightarrow> bool" where
  "hasSuffix s p = hasPrefix (rev s) (rev p)"

definition trimPrefix :: "string \<Rightarrow> string \<Rightarrow> string" where
  "trimPrefix s p = (if hasPrefix s p then drop (length p) s else s)"

definition trimSuffix :: "string \<Rightarrow> string \<Rightarrow> string" where
  "trimSuffix s p = (if hasSuffix s p then take (length s - length p) s else s)"

text \<open>\<open>strings.TrimRight(s, cutset)\<close>.\<close>

definition trimRight :: "string \<Rightarrow> char list \<Rightarrow> string" where
  "trimRight s cs = rev (dropWhile (\<lambda>c. c \<in> set cs) (rev s))"

lemma hasPrefix_append [simp]: "hasPrefix (p @ s) p"
  by (induction p) auto

lemma hasPrefix_iff: "hasPrefix s p \<longleftrightarrow> (\<exists>r. s = p @ r)"
  by (induction s p rule: hasPrefix.induct) auto

lemma hasSuffix_iff: "hasSuffix s p \<longleftrightarrow> (\<exists>r. s = r @ p)"
  unfolding hasSuffix_def hasPrefix_iff
  by (metis rev_append rev_rev_ident)

lemma trimPrefix_append [simp]: "trimPrefix (p @ s) p = s"
  by (simp add: trimPrefix_def)

lemma trimPrefix_no: "\<not> hasPrefix s p \<Longrightarrow> trimPrefix s p = s"
  by (simp add: trimPrefix_def)

text \<open>
  The first occurrence of a separator, as the text before it and the text after it.
\<close>

fun cut :: "string \<Rightarrow> string \<Rightarrow> (string \<times> string) option" where
  "cut sep s =
     (if hasPrefix s sep then Some ([], drop (length sep) s)
      else (case s of [] \<Rightarrow> None
            | c # cs \<Rightarrow> map_option (\<lambda>(b, a). (c # b, a)) (cut sep cs)))"

declare cut.simps [simp del]

lemma cut_prefix [simp]: "cut sep (sep @ s) = Some ([], s)"
  by (simp add: cut.simps)

lemma cut_Some: "cut sep s = Some (b, a) \<Longrightarrow> s = b @ sep @ a"
proof (induction s arbitrary: b a)
  case Nil
  then show ?case by (cases sep) (auto simp: cut.simps)
next
  case (Cons c s)
  then show ?case
    by (subst (asm) (2) cut.simps) (auto simp: hasPrefix_iff split: if_splits)
qed

lemma cut_shorter: "cut sep s = Some (b, a) \<Longrightarrow> sep \<noteq> [] \<Longrightarrow> length a < length s"
  by (auto dest!: cut_Some)

lemma cut_char_None [simp]: "c \<notin> set s \<Longrightarrow> cut [c] s = None"
  by (induction s) (auto simp: cut.simps)

lemma cut_char_Some [simp]: "c \<notin> set b \<Longrightarrow> cut [c] (b @ c # a) = Some (b, a)"
  by (induction b) (auto simp: cut.simps)

definition strContains :: "string \<Rightarrow> string \<Rightarrow> bool" where
  "strContains s sub = (cut sub s \<noteq> None)"

text \<open>\<open>strings.Split\<close>; the daemon always passes a non-empty separator.\<close>

function strSplit :: "string \<Rightarrow> string \<Rightarrow> string list" where
  "strSplit s sep =
     (if sep = [] then map (\<lambda>c. [c]) s
      else (case cut sep s of None \<Rightarrow> [s] | Some (b, a) \<Rightarrow> b # strSplit a sep))"
  by pat_completeness auto
termination
  by (relation "measure (\<lambda>(s, sep). length s)") (auto dest: cut_shorter)

declare strSplit.simps [simp del]

text \<open>\<open>strings.SplitN(s, sep, 2)\<close>.\<close>

definition strSplit2 :: "string \<Rightarrow> string \<Rightarrow> string list" where
  "strSplit2 s sep = (case cut sep s of None \<Rightarrow> [s] | Some (b, a) \<Rightarrow> [b, a])"

fun strJoin :: "string list \<Rightarrow> string \<Rightarrow> string" where
  "strJoin [] sep = []"
| "strJoin [x] sep = x"
| "strJoin (x # y # ys) sep = x @ sep @ strJoin (y # ys) sep"

text \<open>\<open>strings.Replace(s, old, new, -1)\<close>.\<close>

definition strReplaceAll :: "string \<Rightarrow> string \<Rightarrow> string \<Rightarrow> string" where
  "strReplaceAll s old new = strJoin (strSplit s old) new"

lemma strSplit_ne [simp]: "sep \<noteq> [] \<Longrightarrow> strSplit s sep \<noteq> []"
  by (subst strSplit.simps) (auto split: option.splits)

lemma strJoin_Cons: "xs \<noteq> [] \<Longrightarrow> strJoin (x # xs) sep = x @ sep @ strJoin xs sep"
  by (cases xs) auto

lemma strJoin_strSplit: "sep \<noteq> [] \<Longrightarrow> strJoin (strSplit s sep) sep = s"
proof (induction s sep rule: strSplit.induct)
  case (1 s sep)
  then show ?case
    by (subst strSplit.simps) (auto split: option.splits simp: strJoin_Cons dest: cut_Some)
qed

lemma strSplit_char_none [simp]: "c \<notin> set s \<Longrightarrow> strSplit s [c] = [s]"
  by (subst strSplit.simps) simp

lemma strSplit_char_cons [simp]: "c \<notin> set b \<Longrightarrow> strSplit (b @ c # a) [c] = b # strSplit a [c]"
  by (subst strSplit.simps) simp

lemma strSplit_char_parts: "x \<in> set (strSplit s [c]) \<Longrightarrow> c \<notin> set x"
proof (induction s "[c]" rule: strSplit.induct)
  case (1 s)
  have none: "c \<notin> set s" if "cut [c] s = None"
    using that by (metis cut_char_Some option.distinct(1) split_list_first)
  have some: "c \<notin> set b" if "cut [c] s = Some (b, a)" for b a
  proof -
    from that have "c \<in> set s" by (auto dest: cut_Some)
    then obtain b' a' where "s = b' @ c # a'" "c \<notin> set b'" by (metis split_list_first)
    with that show ?thesis by auto
  qed
  from 1 show ?case
    by (subst (asm) (2) strSplit.simps) (auto split: option.splits dest: none some)
qed

lemma strSplit_strJoin:
  "xs \<noteq> [] \<Longrightarrow> \<forall>x \<in> set xs. c \<notin> set x \<Longrightarrow> strSplit (strJoin xs [c]) [c] = xs"
  by (induction xs "[c]" rule: strJoin.induct) auto

subsection \<open>Letter case\<close>

definition toLowerC :: "char \<Rightarrow> char" where
  "toLowerC c = (let n = of_char c :: nat in
     if 65 \<le> n \<and> n \<le> 90 then char_of (n + 32) else c)"

definition strToLower :: "string \<Rightarrow> string" where
  "strToLower s = map toLowerC s"

text \<open>\<open>strings.EqualFold\<close>, on ASCII strings.\<close>

definition equalFold :: "string \<Rightarrow> string \<Rightarrow> bool" where
  "equalFold s t = (strToLower s = strToLower t)"

subsection \<open>Paths\<close>

text \<open>\<open>filepath.Split\<close>: the directory (with its final slash) and the file name.\<close>

definition pathSplit :: "string \<Rightarrow> string \<times> string" where
  "pathSplit p = (rev (dropWhile (\<lambda>c. c \<noteq> CHR ''/'') (rev p)),
                  rev (takeWhile (\<lambda>c. c \<noteq> CHR ''/'') (rev p)))"

lemma pathSplit_append: "fst (pathSplit p) @ snd (pathSplit p) = p"
  by (simp add: pathSplit_def flip: rev_append)

lemma pathSplit_name [simp]: "CHR ''/'' \<notin> set (snd (pathSplit p))"
  by (auto simp: pathSplit_def dest: set_takeWhileD)

lemma pathSplit_dir_name:
  assumes "CHR ''/'' \<notin> set n"
  shows "pathSplit (d @ CHR ''/'' # n) = (d @ ''/'', n)"
proof -
  let ?P = "\<lambda>c. c \<noteq> CHR ''/''"
  have "takeWhile ?P (rev n @ CHR ''/'' # rev d) = rev n"
    using assms by (subst takeWhile_append2) auto
  moreover have "dropWhile ?P (rev n @ CHR ''/'' # rev d) = CHR ''/'' # rev d"
    using assms by (subst dropWhile_append2) auto
  ultimately show ?thesis by (simp add: pathSplit_def)
qed

definition pathBase :: "string \<Rightarrow> string" where
  "pathBase p =
     (if p = [] then ''.''
      else (let q = trimRight p ''/'' in if q = [] then ''/'' else snd (pathSplit q)))"

text \<open>\<open>filepath.Ext\<close>: from the last dot of the last element, or empty.\<close>

definition pathExt :: "string \<Rightarrow> string" where
  "pathExt p = (let n = snd (pathSplit p) in
     if CHR ''.'' \<in> set n
     then CHR ''.'' # rev (takeWhile (\<lambda>c. c \<noteq> CHR ''.'') (rev n)) else [])"

text \<open>The elements of a cleaned path, innermost first, as \<open>filepath.Clean\<close> keeps them.\<close>

fun cleanElems :: "bool \<Rightarrow> string list \<Rightarrow> string list \<Rightarrow> string list" where
  "cleanElems rooted acc [] = acc"
| "cleanElems rooted acc (e # es) =
     (if e = [] \<or> e = ''.'' then cleanElems rooted acc es
      else if e = ''..'' then
        (case acc of
           [] \<Rightarrow> cleanElems rooted (if rooted then [] else [''..'']) es
         | a # as \<Rightarrow> if a = ''..'' then cleanElems rooted (''..'' # acc) es
                    else cleanElems rooted as es)
      else cleanElems rooted (e # acc) es)"

definition pathClean :: "string \<Rightarrow> string" where
  "pathClean p =
     (let rooted = hasPrefix p ''/'';
          out = strJoin (rev (cleanElems rooted [] (strSplit p ''/''))) ''/'' in
      if rooted then CHR ''/'' # out else if out = [] then ''.'' else out)"

definition pathDir :: "string \<Rightarrow> string" where
  "pathDir p = pathClean (fst (pathSplit p))"

text \<open>\<open>filepath.Join\<close>: empty elements are left out, the rest joined and cleaned.\<close>

definition pathJoin :: "string list \<Rightarrow> string" where
  "pathJoin es = (let ne = filter (\<lambda>e. e \<noteq> []) es in
     if ne = [] then [] else pathClean (strJoin ne ''/''))"

subsection \<open>Decimal integers\<close>

definition digitC :: "nat \<Rightarrow> char" where
  "digitC n = char_of (48 + n)"

fun natStr :: "nat \<Rightarrow> string" where
  "natStr n = (if n < 10 then [digitC n] else natStr (n div 10) @ [digitC (n mod 10)])"

declare natStr.simps [simp del]

definition formatInt :: "int \<Rightarrow> string" where
  "formatInt i = (if i < 0 then CHR ''-'' # natStr (nat (- i)) else natStr (nat i))"

definition digitVal :: "char \<Rightarrow> nat option" where
  "digitVal c = (let n = of_char c :: nat in if 48 \<le> n \<and> n \<le> 57 then Some (n - 48) else None)"

fun parseNatAcc :: "nat \<Rightarrow> string \<Rightarrow> nat option" where
  "parseNatAcc acc [] = Some acc"
| "parseNatAcc acc (c # cs) =
     (case digitVal c of None \<Rightarrow> None | Some d \<Rightarrow> parseNatAcc (10 * acc + d) cs)"

definition parseNat :: "string \<Rightarrow> nat option" where
  "parseNat s = (if s = [] then None else parseNatAcc 0 s)"

text \<open>\<open>strconv.ParseInt(s, 10, 64)\<close>: an optional sign, digits, in the range of an \<open>int64\<close>.\<close>

definition parseInt64 :: "string \<Rightarrow> int option" where
  "parseInt64 s =
     (let (neg, ds) = (case s of [] \<Rightarrow> (False, [])
                       | c # cs \<Rightarrow> if c = CHR ''-'' then (True, cs)
                                  else if c = CHR ''+'' then (False, cs) else (False, s)) in
      case parseNat ds of None \<Rightarrow> None
      | Some n \<Rightarrow> let i = (if neg then - int n else int n) in
          if - (2 ^ 63) \<le> i \<and> i < 2 ^ 63 then Some i else None)"

text \<open>\<open>strconv.ParseUint(s, 10, 64)\<close>.\<close>

definition parseUint64 :: "string \<Rightarrow> nat option" where
  "parseUint64 s = (case parseNat s of None \<Rightarrow> None
     | Some n \<Rightarrow> if n < 2 ^ 64 then Some n else None)"

lemma digitVal_digitC [simp]: "d < 10 \<Longrightarrow> digitVal (digitC d) = Some d"
  by (simp add: digitVal_def digitC_def)

lemma digitC_neq [simp]:
  "d < 10 \<Longrightarrow> digitC d \<noteq> CHR ''-''" "d < 10 \<Longrightarrow> digitC d \<noteq> CHR ''+''"
  using digitVal_digitC [of d] by (auto simp: digitVal_def)

lemma natStr_ne [simp]: "natStr n \<noteq> []"
  by (subst natStr.simps) simp

lemma parseNatAcc_append:
  "parseNatAcc acc (s @ t) =
     (case parseNatAcc acc s of None \<Rightarrow> None | Some a \<Rightarrow> parseNatAcc a t)"
  by (induction acc s rule: parseNatAcc.induct) (auto split: option.splits)

lemma parseNatAcc_natStr: "parseNatAcc 0 (natStr n) = Some n"
proof (induction n rule: natStr.induct)
  case (1 n)
  show ?case
  proof (cases "n < 10")
    case True
    then show ?thesis by (subst natStr.simps) simp
  next
    case False
    with 1 show ?thesis by (subst natStr.simps) (simp add: parseNatAcc_append)
  qed
qed

lemma parseNat_natStr [simp]: "parseNat (natStr n) = Some n"
  by (simp add: parseNat_def parseNatAcc_natStr)

lemma natStr_digits: "c \<in> set (natStr n) \<Longrightarrow> \<exists>d<10. c = digitC d"
proof (induction n rule: natStr.induct)
  case (1 n)
  show ?case
  proof (cases "n < 10")
    case True
    with 1 show ?thesis by (subst (asm) natStr.simps) auto
  next
    case False
    then have "c \<in> set (natStr (n div 10)) \<or> c = digitC (n mod 10)"
      using 1(2) by (subst (asm) natStr.simps) (auto split: if_splits)
    then show ?thesis
    proof
      assume "c \<in> set (natStr (n div 10))"
      then show ?thesis using 1(1) False by blast
    next
      assume "c = digitC (n mod 10)"
      then show ?thesis by (intro exI [of _ "n mod 10"]) simp
    qed
  qed
qed

lemma natStr_hd: "natStr n = c # cs \<Longrightarrow> c \<noteq> CHR ''-'' \<and> c \<noteq> CHR ''+''"
  using natStr_digits [of c n] by auto

lemma natStr_lead: "hd (natStr n) = CHR ''0'' \<longleftrightarrow> n = 0"
proof (induction n rule: natStr.induct)
  case (1 n)
  show ?case
  proof (cases "n < 10")
    case True
    then have "n \<in> set [0..<10]" by simp
    moreover have "list_all (\<lambda>n. (digitC n = CHR ''0'') = (n = 0)) [0..<10]" by code_simp
    ultimately show ?thesis using True by (subst natStr.simps) (simp add: list_all_iff)
  next
    case False
    with 1 show ?thesis by (subst natStr.simps) (simp add: hd_append)
  qed
qed

lemma natStr_zero [simp]: "natStr 0 = ''0''"
proof -
  have "digitC 0 = CHR ''0''" by code_simp
  then show ?thesis by (simp add: natStr.simps)
qed

lemma parseInt64_formatInt:
  assumes "- (2 ^ 63) \<le> i" and "i < 2 ^ 63"
  shows "parseInt64 (formatInt i) = Some i"
proof -
  obtain c cs where c: "natStr (nat i) = c # cs"
    by (cases "natStr (nat i)") auto
  then have p: "parseNat (c # cs) = Some (nat i)"
    using parseNat_natStr [of "nat i"] by simp
  show ?thesis
    using assms c p natStr_hd [OF c]
    by (cases "i < 0") (simp_all add: parseInt64_def formatInt_def Let_def)
qed

subsection \<open>Hexadecimal\<close>

definition hexDigit :: "nat \<Rightarrow> char" where
  "hexDigit n = (if n < 10 then char_of (48 + n) else char_of (87 + n))"

definition hexVal :: "char \<Rightarrow> nat option" where
  "hexVal c = (let n = of_char c :: nat in
     if 48 \<le> n \<and> n \<le> 57 then Some (n - 48)
     else if 97 \<le> n \<and> n \<le> 102 then Some (n - 87)
     else if 65 \<le> n \<and> n \<le> 70 then Some (n - 55) else None)"

fun hexEncode :: "bytes \<Rightarrow> string" where
  "hexEncode [] = []"
| "hexEncode (c # cs) =
     hexDigit (of_char c div 16) # hexDigit (of_char c mod 16) # hexEncode cs"

text \<open>\<open>hex.DecodeString\<close>: an invalid digit or an odd length is an error.\<close>

fun hexDecode :: "string \<Rightarrow> err + bytes" where
  "hexDecode [] = Inr []"
| "hexDecode [c] = Inl (Err ''encoding/hex: odd length hex string'')"
| "hexDecode (a # b # cs) =
     (case (hexVal a, hexVal b) of
        (Some x, Some y) \<Rightarrow>
          (case hexDecode cs of Inl e \<Rightarrow> Inl e | Inr bs \<Rightarrow> Inr (char_of (16 * x + y) # bs))
      | _ \<Rightarrow> Inl (Err ''encoding/hex: invalid byte''))"

lemma hexVal_hexDigit [simp]: "n < 16 \<Longrightarrow> hexVal (hexDigit n) = Some n"
  by (auto simp: hexVal_def hexDigit_def)

lemma hexDecode_hexEncode [simp]: "hexDecode (hexEncode bs) = Inr bs"
  by (induction bs) (simp_all add: less_mult_imp_div_less)

lemma hexEncode_inj: "hexEncode a = hexEncode b \<longleftrightarrow> a = b"
  by (metis hexDecode_hexEncode sum.inject(2))

lemma length_hexEncode [simp]: "length (hexEncode bs) = 2 * length bs"
  by (induction bs) auto

definition hexChars :: "char list" where
  "hexChars = ''0123456789abcdef''"

lemma hexDigit_chars: "n < 16 \<Longrightarrow> hexDigit n \<in> set hexChars"
proof -
  assume "n < 16"
  then have "n \<in> set [0..<16]" by simp
  moreover have "list_all (\<lambda>n. hexDigit n \<in> set hexChars) [0..<16]"
    by code_simp
  ultimately show ?thesis by (simp add: list_all_iff)
qed

lemma set_hexEncode: "set (hexEncode bs) \<subseteq> set hexChars"
  by (induction bs) (auto intro!: hexDigit_chars simp: less_mult_imp_div_less)

lemma hexEncode_no_sep [simp]:
  "CHR ''_'' \<notin> set (hexEncode bs)" "CHR ''.'' \<notin> set (hexEncode bs)"
  using set_hexEncode [of bs] by (auto simp: hexChars_def)

end
