(* ===== verification/Json.thy ===== *)
theory Json
  imports GoStrings
begin

text \<open>
  Go's \<open>encoding/json\<close> as far as the daemon uses it: the text \<open>Marshal\<close> writes (compact, strings
  escaped for HTML, invalid UTF-8 replaced), the values \<open>Unmarshal\<close> reads, and the way it
  fills a struct (a field is found by its name up to letter case, the last one wins, an absent or
  null field keeps the zero value, a value of the wrong kind is an error).  The daemon stores its
  synchronizer queue, its key backups and its messages in this format.

  \<open>jparse_jprint\<close> is the round trip on documents whose strings are ASCII.
\<close>

text \<open>A number keeps the text of its literal.\<close>

datatype jvalue =
    JNull
  | JBool bool
  | JNum bytes
  | JStr bytes
  | JArr "jvalue list"
  | JObj "(bytes \<times> jvalue) list"

subsection \<open>UTF-8\<close>

abbreviation code_of :: "char \<Rightarrow> nat" where
  "code_of c \<equiv> of_char c"

definition contByte :: "char \<Rightarrow> bool" where
  "contByte c = (128 \<le> code_of c \<and> code_of c < 192)"

text \<open>The length of the valid multi-byte sequence at the front of a string, 0 if there is none.\<close>

fun utf8Len :: "bytes \<Rightarrow> nat" where
  "utf8Len (a # b # cs) =
     (let x = code_of a; y = code_of b in
      if 194 \<le> x \<and> x \<le> 223 then (if contByte b then 2 else 0)
      else case cs of [] \<Rightarrow> 0
        | c # ds \<Rightarrow>
          if 224 \<le> x \<and> x \<le> 239 then
            (if contByte b \<and> contByte c \<and> (x = 224 \<longrightarrow> 160 \<le> y) \<and> (x = 237 \<longrightarrow> y < 160)
             then 3 else 0)
          else case ds of [] \<Rightarrow> 0
            | d # _ \<Rightarrow>
              if 240 \<le> x \<and> x \<le> 244 \<and> contByte b \<and> contByte c \<and> contByte d \<and>
                 (x = 240 \<longrightarrow> 144 \<le> y) \<and> (x = 244 \<longrightarrow> y < 144)
              then 4 else 0)"
| "utf8Len cs = 0"

definition replacementChar :: bytes where
  "replacementChar = [char_of (239 :: nat), char_of (191 :: nat), char_of (189 :: nat)]"

definition utf8Encode :: "nat \<Rightarrow> bytes" where
  "utf8Encode r =
     (if r < 128 then [char_of r]
      else if r < 2048 then [char_of (192 + r div 64), char_of (128 + r mod 64)]
      else if r < 65536 then
        (if 55296 \<le> r \<and> r < 57344 then replacementChar
         else [char_of (224 + r div 4096), char_of (128 + r div 64 mod 64),
               char_of (128 + r mod 64)])
      else if r < 1114112 then
        [char_of (240 + r div 262144), char_of (128 + r div 4096 mod 64),
         char_of (128 + r div 64 mod 64), char_of (128 + r mod 64)]
      else replacementChar)"

subsection \<open>Writing\<close>

definition jEscape :: "char \<Rightarrow> bytes" where
  "jEscape c =
     (if c = CHR 0x22 then [CHR 0x5C, CHR 0x22]
      else if c = CHR 0x5C then [CHR 0x5C, CHR 0x5C]
      else if c = CHR 0x0A then [CHR 0x5C, CHR ''n'']
      else if c = CHR 0x0D then [CHR 0x5C, CHR ''r'']
      else if c = CHR 0x09 then [CHR 0x5C, CHR ''t'']
      else if code_of c < 32 \<or> c = CHR ''<'' \<or> c = CHR ''>'' \<or> c = CHR ''&''
        then CHR 0x5C # ''u00'' @ [hexDigit (code_of c div 16), hexDigit (code_of c mod 16)]
      else [c])"

function jEncStr :: "bytes \<Rightarrow> bytes" where
  "jEncStr [] = []"
| "jEncStr (c # cs) =
     (if code_of c < 128 then jEscape c @ jEncStr cs
      else let n = utf8Len (c # cs); u = take n (c # cs) in
        if n = 0 then CHR 0x5C # ''ufffd'' @ jEncStr cs
        else if u = utf8Encode 8232 then CHR 0x5C # ''u2028'' @ jEncStr (drop (n - 1) cs)
        else if u = utf8Encode 8233 then CHR 0x5C # ''u2029'' @ jEncStr (drop (n - 1) cs)
        else u @ jEncStr (drop (n - 1) cs))"
  by pat_completeness auto
termination by (relation "measure length") auto

definition jQuote :: "bytes \<Rightarrow> bytes" where
  "jQuote s = CHR 0x22 # jEncStr s @ [CHR 0x22]"

fun jprint :: "jvalue \<Rightarrow> bytes" where
  "jprint JNull = ''null''"
| "jprint (JBool b) = (if b then ''true'' else ''false'')"
| "jprint (JNum s) = s"
| "jprint (JStr s) = jQuote s"
| "jprint (JArr vs) = ''['' @ strJoin (map jprint vs) '','' @ '']''"
| "jprint (JObj kvs) =
     ''{'' @ strJoin (map (\<lambda>kv. jQuote (fst kv) @ '':'' @ jprint (snd kv)) kvs) '','' @ ''}''"

subsection \<open>Reading\<close>

definition jSpace :: "char \<Rightarrow> bool" where
  "jSpace c = (c \<in> {CHR '' '', CHR 0x09, CHR 0x0A, CHR 0x0D})"

definition jTrim :: "bytes \<Rightarrow> bytes" where
  "jTrim s = dropWhile jSpace s"

text \<open>Four hexadecimal digits.\<close>

definition jHex4 :: "bytes \<Rightarrow> nat option" where
  "jHex4 ds = (case map hexVal ds of
      [Some a, Some b, Some c, Some d] \<Rightarrow> Some (4096 * a + 256 * b + 16 * c + d)
    | _ \<Rightarrow> None)"

definition jUnescape :: "char \<Rightarrow> char option" where
  "jUnescape c =
     (if c = CHR 0x22 \<or> c = CHR 0x5C \<or> c = CHR ''/'' then Some c
      else if c = CHR ''n'' then Some (CHR 0x0A)
      else if c = CHR ''r'' then Some (CHR 0x0D)
      else if c = CHR ''t'' then Some (CHR 0x09)
      else if c = CHR ''b'' then Some (CHR 0x08)
      else if c = CHR ''f'' then Some (CHR 0x0C)
      else None)"

text \<open>The rune of a \<open>\u\<close> escape whose digits are at the front: a surrogate pair is one rune.\<close>

definition jRune :: "bytes \<Rightarrow> (bytes \<times> nat) option" where
  "jRune s =
     (case jHex4 (take 4 s) of
        None \<Rightarrow> None
      | Some r \<Rightarrow>
          if 55296 \<le> r \<and> r < 56320 \<and> take 2 (drop 4 s) = [CHR 0x5C, CHR ''u''] then
            (case jHex4 (take 4 (drop 6 s)) of
               Some q \<Rightarrow>
                 if 56320 \<le> q \<and> q < 57344
                 then Some (utf8Encode (65536 + 1024 * (r - 55296) + (q - 56320)), 10)
                 else Some (replacementChar, 4)
             | None \<Rightarrow> Some (replacementChar, 4))
          else Some (utf8Encode r, 4))"

text \<open>The string that starts after an opening quote, and the text after its closing quote.\<close>

function jDecStr :: "bytes \<Rightarrow> (bytes \<times> bytes) option" where
  "jDecStr [] = None"
| "jDecStr (c # cs) =
     (if c = CHR 0x22 then Some ([], cs)
      else if c = CHR 0x5C then
        (case cs of [] \<Rightarrow> None
         | e # es \<Rightarrow>
             if e = CHR ''u'' then
               (case jRune es of None \<Rightarrow> None
                | Some (u, n) \<Rightarrow> map_option (\<lambda>(s, r). (u @ s, r)) (jDecStr (drop n es)))
             else (case jUnescape e of None \<Rightarrow> None
                | Some x \<Rightarrow> map_option (\<lambda>(s, r). (x # s, r)) (jDecStr es)))
      else if code_of c < 32 then None
      else if code_of c < 128 then map_option (\<lambda>(s, r). (c # s, r)) (jDecStr cs)
      else let n = utf8Len (c # cs) in
        if n = 0 then map_option (\<lambda>(s, r). (replacementChar @ s, r)) (jDecStr cs)
        else map_option (\<lambda>(s, r). (take n (c # cs) @ s, r)) (jDecStr (drop (n - 1) cs)))"
  by pat_completeness auto
termination by (relation "measure length") auto

definition jDigit :: "char \<Rightarrow> bool" where
  "jDigit c = (digitVal c \<noteq> None)"

definition jNumChar :: "char \<Rightarrow> bool" where
  "jNumChar c = (jDigit c \<or> c \<in> {CHR ''-'', CHR ''+'', CHR ''.'', CHR ''e'', CHR ''E''})"

text \<open>The grammar of a number literal.\<close>

definition jExpOk :: "bytes \<Rightarrow> bool" where
  "jExpOk s = (case s of [] \<Rightarrow> True
     | c # cs \<Rightarrow> (c = CHR ''e'' \<or> c = CHR ''E'') \<and>
         (let ds = (case cs of d # ds \<Rightarrow> if d = CHR ''-'' \<or> d = CHR ''+'' then ds else cs | [] \<Rightarrow> [])
          in ds \<noteq> [] \<and> list_all jDigit ds))"

definition jFracOk :: "bytes \<Rightarrow> bool" where
  "jFracOk s = (case s of [] \<Rightarrow> True
     | c # cs \<Rightarrow> if c = CHR ''.'' then takeWhile jDigit cs \<noteq> [] \<and> jExpOk (dropWhile jDigit cs)
                else jExpOk s)"

definition jNumOk :: "bytes \<Rightarrow> bool" where
  "jNumOk s = (let t = trimPrefix s ''-''; ds = takeWhile jDigit t in
     ds \<noteq> [] \<and> (hd ds = CHR ''0'' \<longrightarrow> length ds = 1) \<and> jFracOk (dropWhile jDigit t))"

text \<open>
  Values, elements and members by recursive descent.  The fuel bounds the number of calls; the
  length of the text plus one is enough, since every call but the last reads a character.
\<close>

fun jValue :: "nat \<Rightarrow> bytes \<Rightarrow> (jvalue \<times> bytes) option"
and jElems :: "nat \<Rightarrow> bytes \<Rightarrow> (jvalue list \<times> bytes) option"
and jMembers :: "nat \<Rightarrow> bytes \<Rightarrow> ((bytes \<times> jvalue) list \<times> bytes) option" where
  "jValue 0 s = None"
| "jValue (Suc n) s =
     (case jTrim s of [] \<Rightarrow> None
      | c # cs \<Rightarrow>
        if c = CHR 0x22 then map_option (\<lambda>(t, r). (JStr t, r)) (jDecStr cs)
        else if c = CHR ''['' then
          (case jTrim cs of
             [] \<Rightarrow> None
           | d # ds \<Rightarrow> if d = CHR '']'' then Some (JArr [], ds)
                      else map_option (\<lambda>(vs, r). (JArr vs, r)) (jElems n (d # ds)))
        else if c = CHR ''{'' then
          (case jTrim cs of
             [] \<Rightarrow> None
           | d # ds \<Rightarrow> if d = CHR ''}'' then Some (JObj [], ds)
                      else map_option (\<lambda>(kvs, r). (JObj kvs, r)) (jMembers n (d # ds)))
        else if hasPrefix (c # cs) ''null'' then Some (JNull, drop 3 cs)
        else if hasPrefix (c # cs) ''true'' then Some (JBool True, drop 3 cs)
        else if hasPrefix (c # cs) ''false'' then Some (JBool False, drop 4 cs)
        else let w = takeWhile jNumChar (c # cs) in
          if jNumOk w then Some (JNum w, dropWhile jNumChar (c # cs)) else None)"
| "jElems 0 s = None"
| "jElems (Suc n) s =
     (case jValue n s of None \<Rightarrow> None
      | Some (v, r) \<Rightarrow>
          (case jTrim r of [] \<Rightarrow> None
           | c # cs \<Rightarrow> if c = CHR '']'' then Some ([v], cs)
                      else if c = CHR '','' then map_option (\<lambda>(vs, q). (v # vs, q)) (jElems n cs)
                      else None))"
| "jMembers 0 s = None"
| "jMembers (Suc n) s =
     (case jTrim s of [] \<Rightarrow> None
      | q # qs \<Rightarrow>
        if q \<noteq> CHR 0x22 then None
        else case jDecStr qs of None \<Rightarrow> None
        | Some (k, r) \<Rightarrow>
          (case jTrim r of [] \<Rightarrow> None
           | c # cs \<Rightarrow>
             if c \<noteq> CHR '':'' then None
             else case jValue n cs of None \<Rightarrow> None
             | Some (v, r') \<Rightarrow>
               (case jTrim r' of [] \<Rightarrow> None
                | e # es \<Rightarrow> if e = CHR ''}'' then Some ([(k, v)], es)
                           else if e = CHR '','' then
                             map_option (\<lambda>(kvs, q). ((k, v) # kvs, q)) (jMembers n es)
                           else None)))"

definition jparse :: "bytes \<Rightarrow> jvalue option" where
  "jparse s = (case jValue (Suc (length s)) s of
      Some (v, r) \<Rightarrow> if jTrim r = [] then Some v else None
    | None \<Rightarrow> None)"

subsection \<open>Filling a struct\<close>

definition jErr :: err where
  "jErr = Err ''json: cannot unmarshal''"

definition jField :: "bytes \<Rightarrow> (bytes \<times> jvalue) list \<Rightarrow> jvalue" where
  "jField n kvs =
     (case filter (\<lambda>(k, v). equalFold k n \<and> v \<noteq> JNull) (rev kvs) of [] \<Rightarrow> JNull | (k, v) # _ \<Rightarrow> v)"

definition jGetStr :: "jvalue \<Rightarrow> err + bytes" where
  "jGetStr v = (case v of JNull \<Rightarrow> Inr [] | JStr s \<Rightarrow> Inr s | _ \<Rightarrow> Inl jErr)"

definition jGetBool :: "jvalue \<Rightarrow> err + bool" where
  "jGetBool v = (case v of JNull \<Rightarrow> Inr False | JBool b \<Rightarrow> Inr b | _ \<Rightarrow> Inl jErr)"

definition jGetInt :: "jvalue \<Rightarrow> err + int" where
  "jGetInt v = (case v of JNull \<Rightarrow> Inr 0
     | JNum s \<Rightarrow> (case parseInt64 s of None \<Rightarrow> Inl jErr | Some i \<Rightarrow> Inr i)
     | _ \<Rightarrow> Inl jErr)"

definition jGetObj :: "jvalue \<Rightarrow> err + (bytes \<times> jvalue) list" where
  "jGetObj v = (case v of JNull \<Rightarrow> Inr [] | JObj kvs \<Rightarrow> Inr kvs | _ \<Rightarrow> Inl jErr)"

fun mapSum :: "('a \<Rightarrow> err + 'b) \<Rightarrow> 'a list \<Rightarrow> err + 'b list" where
  "mapSum f [] = Inr []"
| "mapSum f (x # xs) = (case f x of Inl e \<Rightarrow> Inl e
     | Inr y \<Rightarrow> (case mapSum f xs of Inl e \<Rightarrow> Inl e | Inr ys \<Rightarrow> Inr (y # ys)))"

definition jGetArr :: "(jvalue \<Rightarrow> err + 'a) \<Rightarrow> jvalue \<Rightarrow> err + 'a list" where
  "jGetArr f v = (case v of JNull \<Rightarrow> Inr [] | JArr vs \<Rightarrow> mapSum f vs | _ \<Rightarrow> Inl jErr)"

lemma mapSum_map: "\<forall>x \<in> set xs. f (g x) = Inr (h x) \<Longrightarrow> mapSum f (map g xs) = Inr (map h xs)"
  by (induction xs) auto

subsection \<open>The round trip\<close>

definition ascii :: "bytes \<Rightarrow> bool" where
  "ascii s = list_all (\<lambda>c. code_of c < 128) s"

lemma ascii_hexEncode [simp]: "ascii (hexEncode bs)"
proof -
  have "\<forall>c \<in> set hexChars. code_of c < 128" by code_simp
  then show ?thesis using set_hexEncode [of bs] by (auto simp: ascii_def list_all_iff)
qed

lemma ascii_simps [simp]:
  "ascii []" "ascii (c # s) \<longleftrightarrow> code_of c < 128 \<and> ascii s"
  "ascii (s @ t) \<longleftrightarrow> ascii s \<and> ascii t"
  by (auto simp: ascii_def)

text \<open>Documents whose strings are ASCII and whose number literals follow the grammar.\<close>

fun jOk :: "jvalue \<Rightarrow> bool" where
  "jOk JNull = True"
| "jOk (JBool b) = True"
| "jOk (JNum s) = (jNumOk s \<and> list_all jNumChar s)"
| "jOk (JStr s) = ascii s"
| "jOk (JArr vs) = list_all jOk vs"
| "jOk (JObj kvs) = list_all (\<lambda>kv. ascii (fst kv) \<and> jOk (snd kv)) kvs"


lemma jEscape_ne: "jEscape c \<noteq> []"
  by (simp add: jEscape_def)

lemma jHex4_low: "code_of c < 256 \<Longrightarrow>
  jHex4 [CHR ''0'', CHR ''0'', hexDigit (code_of c div 16), hexDigit (code_of c mod 16)] =
    Some (code_of c)"
proof -
  assume c: "code_of c < 256"
  have z: "hexVal (CHR ''0'') = Some 0" by code_simp
  from c show ?thesis by (simp add: jHex4_def z less_mult_imp_div_less)
qed

lemma jDecStr_jEscape:
  assumes "code_of c < 128"
  shows "jDecStr (jEscape c @ t) = map_option (\<lambda>(s, r). (c # s, r)) (jDecStr t)"
proof -
  have u: "jRune (CHR ''0'' # CHR ''0'' # hexDigit (code_of c div 16) #
              hexDigit (code_of c mod 16) # t) = Some ([c], 4)"
    using assms by (simp add: jRune_def jHex4_low utf8Encode_def)
  have ctl: "\<not> code_of c < 32" if "c = CHR ''<'' \<or> c = CHR ''>'' \<or> c = CHR ''&''"
    using that by auto
  show ?thesis
    using assms u by (auto simp: jEscape_def jUnescape_def split: option.splits)
qed

lemma jDecStr_jEncStr: "ascii s \<Longrightarrow> jDecStr (jEncStr s @ CHR 0x22 # r) = Some (s, r)"
  by (induction s) (simp_all add: jDecStr_jEscape)


declare jValue.simps [simp del] jElems.simps [simp del] jMembers.simps [simp del]

definition jStop :: "bytes \<Rightarrow> bool" where
  "jStop r = (case r of [] \<Rightarrow> True | c # _ \<Rightarrow> \<not> jNumChar c)"

lemma jNumChar_misc:
  "jNumChar c \<Longrightarrow> \<not> jSpace c \<and> c \<notin> {CHR 0x22, CHR ''['', CHR ''{'', CHR ''n'', CHR ''t'', CHR ''f''}"
  by (auto simp: jNumChar_def jDigit_def jSpace_def digitVal_def)

lemma jTrim_Cons: "\<not> jSpace c \<Longrightarrow> jTrim (c # cs) = c # cs"
  by (simp add: jTrim_def)

lemma jStop_simps [simp]:
  "jStop []" "jStop (CHR '','' # r)" "jStop (CHR '']'' # r)" "jStop (CHR ''}'' # r)"
  by (simp_all add: jStop_def jNumChar_def jDigit_def digitVal_def)

lemma jTrim_punct [simp]:
  "jTrim (CHR '','' # r) = CHR '','' # r" "jTrim (CHR '']'' # r) = CHR '']'' # r"
  "jTrim (CHR ''}'' # r) = CHR ''}'' # r" "jTrim (CHR '':'' # r) = CHR '':'' # r"
  "jTrim (CHR 0x22 # r) = CHR 0x22 # r" "jTrim (CHR ''['' # r) = CHR ''['' # r"
  "jTrim (CHR ''{'' # r) = CHR ''{'' # r" "jTrim (CHR ''n'' # r) = CHR ''n'' # r"
  "jTrim (CHR ''t'' # r) = CHR ''t'' # r" "jTrim (CHR ''f'' # r) = CHR ''f'' # r"
  "jTrim [] = []"
  by (simp_all add: jTrim_def jSpace_def)

lemma jNum_span:
  assumes "list_all jNumChar s" "jStop r"
  shows "takeWhile jNumChar (s @ r) = s" "dropWhile jNumChar (s @ r) = r"
proof -
  have "takeWhile jNumChar r = []" "dropWhile jNumChar r = r"
    using assms(2) by (cases r; simp add: jStop_def)+
  then show "takeWhile jNumChar (s @ r) = s" "dropWhile jNumChar (s @ r) = r"
    using assms(1) by (induction s) auto
qed

lemma jValue_num:
  assumes "jNumOk s" "list_all jNumChar s" "jStop r"
  shows "jValue (Suc n) (s @ r) = Some (JNum s, r)"
proof -
  obtain c cs where s: "s = c # cs"
    using assms(1) by (cases s) (auto simp: jNumOk_def trimPrefix_def)
  then have c: "\<not> jSpace c" "c \<noteq> CHR 0x22" "c \<noteq> CHR ''[''" "c \<noteq> CHR ''{''"
    "c \<noteq> CHR ''n''" "c \<noteq> CHR ''t''" "c \<noteq> CHR ''f''"
    using assms(2) jNumChar_misc [of c] by auto
  show ?thesis
    using c s jNum_span [OF assms(2,3)] assms(1)
    by (simp add: jValue.simps jTrim_Cons Let_def)
qed

text \<open>The first character of a printed value.\<close>

lemma jprint_hd:
  assumes "jOk v"
  obtains c cs where "jprint v = c # cs" "\<not> jSpace c" "c \<noteq> CHR '']''" "c \<noteq> CHR ''}''"
proof (cases v)
  case (JNum s)
  with assms obtain c cs where "s = c # cs" "jNumChar c"
    by (cases s) (auto simp: jNumOk_def trimPrefix_def)
  moreover from \<open>jNumChar c\<close> have "c \<noteq> CHR '']''" "c \<noteq> CHR ''}''"
    by (auto simp: jNumChar_def jDigit_def digitVal_def)
  ultimately show ?thesis
    using JNum that jNumChar_misc by auto
next
  case (JBool b)
  with that show ?thesis by (cases b) (auto simp: jSpace_def)
qed (use that in \<open>auto simp: jQuote_def jSpace_def\<close>)

definition jRound :: "jvalue \<Rightarrow> bool" where
  "jRound v = (\<forall>n r. length (jprint v) < n \<longrightarrow> jStop r \<longrightarrow> jValue n (jprint v @ r) = Some (v, r))"

lemma jRoundD:
  "jRound v \<Longrightarrow> length (jprint v) < n \<Longrightarrow> jStop r \<Longrightarrow> jValue n (jprint v @ r) = Some (v, r)"
  by (simp add: jRound_def)

lemma jElems_round:
  "vs \<noteq> [] \<Longrightarrow> \<forall>v \<in> set vs. jRound v \<Longrightarrow> length (strJoin (map jprint vs) '','') + 1 < n \<Longrightarrow>
   jElems n (strJoin (map jprint vs) '','' @ CHR '']'' # r) = Some (vs, r)"
proof (induction vs arbitrary: n)
  case (Cons v vs)
  then obtain m where n: "n = Suc m" by (cases n) auto
  show ?case
  proof (cases vs)
    case Nil
    then show ?thesis
      using Cons.prems n by (simp add: jElems.simps jRoundD)
  next
    case (Cons w ws)
    then have "strJoin (map jprint (v # vs)) '','' = jprint v @ CHR '','' # strJoin (map jprint vs) '',''"
      by (simp add: strJoin_Cons)
    then show ?thesis
      using Cons Cons.prems Cons.IH [of m] n by (simp add: jElems.simps jRoundD)
  qed
qed simp

abbreviation jMember :: "bytes \<times> jvalue \<Rightarrow> bytes" where
  "jMember kv \<equiv> jQuote (fst kv) @ '':'' @ jprint (snd kv)"

lemma jMembers_round:
  "kvs \<noteq> [] \<Longrightarrow> \<forall>kv \<in> set kvs. ascii (fst kv) \<and> jRound (snd kv) \<Longrightarrow>
   length (strJoin (map jMember kvs) '','') + 1 < n \<Longrightarrow>
   jMembers n (strJoin (map jMember kvs) '','' @ CHR ''}'' # r) = Some (kvs, r)"
proof (induction kvs arbitrary: n)
  case (Cons kv kvs)
  then obtain m where n: "n = Suc m" by (cases n) auto
  obtain k v where kv: "kv = (k, v)" by (cases kv)
  show ?case
  proof (cases kvs)
    case Nil
    then show ?thesis
      using Cons.prems n kv by (simp add: jMembers.simps jRoundD jQuote_def jDecStr_jEncStr)
  next
    case (Cons w ws)
    then have "strJoin (map jMember (kv # kvs)) '','' = jMember kv @ CHR '','' # strJoin (map jMember kvs) '',''"
      by (simp add: strJoin_Cons)
    then show ?thesis
      using Cons Cons.prems Cons.IH [of m] n kv
      by (simp add: jMembers.simps jRoundD jQuote_def jDecStr_jEncStr)
  qed
qed simp

lemma jValue_arr:
  assumes "s = c # cs" "\<not> jSpace c" "c \<noteq> CHR '']''" "jElems n s = Some (vs, r)"
  shows "jValue (Suc n) (CHR ''['' # s) = Some (JArr vs, r)"
  using assms by (simp add: jValue.simps jTrim_Cons)

lemma jValue_obj:
  assumes "s = CHR 0x22 # cs" "jMembers n s = Some (kvs, r)"
  shows "jValue (Suc n) (CHR ''{'' # s) = Some (JObj kvs, r)"
  using assms by (simp add: jValue.simps)

lemma jRound_print: "jOk v \<Longrightarrow> jRound v"
proof (induction v)
  case (JStr s)
  show ?case unfolding jRound_def
  proof (intro allI impI)
    fix n r assume "length (jprint (JStr s)) < n"
    then obtain m where "n = Suc m" by (cases n) auto
    then show "jValue n (jprint (JStr s) @ r) = Some (JStr s, r)"
      using JStr by (simp add: jValue.simps jQuote_def jDecStr_jEncStr)
  qed
next
  case (JArr vs)
  show ?case unfolding jRound_def
  proof (intro allI impI)
    fix n r assume l: "length (jprint (JArr vs)) < n"
    then obtain m where n: "n = Suc m" by (cases n) auto
    show "jValue n (jprint (JArr vs) @ r) = Some (JArr vs, r)"
    proof (cases vs)
      case Nil
      then show ?thesis using n by (simp add: jValue.simps)
    next
      case (Cons v ws)
      then obtain c cs where h: "jprint v = c # cs" "\<not> jSpace c" "c \<noteq> CHR '']''"
        using JArr.prems by (auto elim: jprint_hd)
      have "jElems m (strJoin (map jprint vs) '','' @ CHR '']'' # r) = Some (vs, r)"
        using JArr l n Cons by (intro jElems_round) (auto simp: list_all_iff)
      moreover obtain cs' where "strJoin (map jprint vs) '','' @ CHR '']'' # r = c # cs'"
        using Cons h by (cases ws) auto
      ultimately show ?thesis
        using h by (simp add: n jValue_arr)
    qed
  qed
next
  case (JObj kvs)
  have all: "\<forall>kv \<in> set kvs. ascii (fst kv) \<and> jRound (snd kv)"
  proof
    fix kv assume kv: "kv \<in> set kvs"
    then have "jOk (snd kv)" "ascii (fst kv)" using JObj.prems by (auto simp: list_all_iff)
    moreover have "snd kv \<in> Basic_BNFs.snds kv" by (simp add: snds.simps)
    ultimately show "ascii (fst kv) \<and> jRound (snd kv)" using JObj.IH kv by blast
  qed
  show ?case unfolding jRound_def
  proof (intro allI impI)
    fix n r assume l: "length (jprint (JObj kvs)) < n"
    then obtain m where n: "n = Suc m" by (cases n) auto
    show "jValue n (jprint (JObj kvs) @ r) = Some (JObj kvs, r)"
    proof (cases kvs)
      case Nil
      then show ?thesis using n by (simp add: jValue.simps)
    next
      case (Cons kv ws)
      have "jMembers m (strJoin (map jMember kvs) '','' @ CHR ''}'' # r) = Some (kvs, r)"
        using all l n Cons by (intro jMembers_round) auto
      moreover obtain cs where "strJoin (map jMember kvs) '','' @ CHR ''}'' # r = CHR 0x22 # cs"
        using Cons by (cases ws) (auto simp: jQuote_def)
      ultimately show ?thesis
        by (simp add: n jValue_obj)
    qed
  qed
next
  case (JNum s)
  then show ?case
    unfolding jRound_def by (metis jOk.simps(3) jprint.simps(3) jValue_num less_imp_Suc_add)
next
  case JNull
  show ?case unfolding jRound_def
  proof (intro allI impI)
    fix n :: nat and r assume "length (jprint JNull) < n"
    then obtain m where "n = Suc m" by (cases n) auto
    then show "jValue n (jprint JNull @ r) = Some (JNull, r)" by (simp add: jValue.simps)
  qed
next
  case (JBool b)
  show ?case unfolding jRound_def
  proof (intro allI impI)
    fix n :: nat and r assume "length (jprint (JBool b)) < n"
    then obtain m where "n = Suc m" by (cases n) auto
    then show "jValue n (jprint (JBool b) @ r) = Some (JBool b, r)"
      by (cases b) (simp_all add: jValue.simps)
  qed
qed

theorem jparse_jprint: "jOk v \<Longrightarrow> jparse (jprint v) = Some v"
  using jRoundD [OF jRound_print, of v "Suc (length (jprint v))" "[]"]
  by (simp add: jparse_def)

lemma formatInt_jNum:
  "jNumOk (formatInt i)" "list_all jNumChar (formatInt i)"
proof -
  have d: "list_all jDigit (natStr n)" for n
    by (auto simp: list_all_iff jDigit_def dest!: natStr_digits)
  have z: "hd (natStr n) = CHR ''0'' \<Longrightarrow> length (natStr n) = 1" for n
    using natStr_lead [of n] by auto
  have t: "takeWhile jDigit (natStr n) = natStr n" "dropWhile jDigit (natStr n) = []" for n
    using d [of n] by (simp_all add: list_all_iff)
  have m: "\<not> hasPrefix (natStr n) ''-''" for n
  proof (cases "natStr n")
    case (Cons c cs)
    then show ?thesis using natStr_hd [of n c cs] by simp
  qed simp
  show "jNumOk (formatInt i)"
  proof (cases "i < 0")
    case True
    then have "trimPrefix (formatInt i) ''-'' = natStr (nat (- i))"
      by (simp add: formatInt_def trimPrefix_def)
    then show ?thesis using z by (simp add: jNumOk_def Let_def jFracOk_def t)
  next
    case False
    then have "trimPrefix (formatInt i) ''-'' = natStr (nat i)"
      using m by (simp add: formatInt_def trimPrefix_no)
    then show ?thesis using z by (simp add: jNumOk_def Let_def jFracOk_def t)
  qed
  show "list_all jNumChar (formatInt i)"
    using d by (auto simp: formatInt_def list_all_iff jNumChar_def)
qed

end
