(* ===== verification/Base64.thy ===== *)
theory Base64
  imports Json
begin

text \<open>
  Go's \<open>encoding/base64\<close> with padding, over the standard and the URL alphabet (\<open>StdEncoding\<close>,
  \<open>URLEncoding\<close>): the alphabet is the list of its 64 characters.  The decoder skips line breaks,
  as Go's does.  \<open>b64Decode_b64Encode\<close> is the round trip; the raw encodings leave the padding out.
\<close>

definition alnum62 :: string where
  "alnum62 = ''ABCDEFGHIJKLMNOPQRSTUVWXYZabcdefghijklmnopqrstuvwxyz0123456789''"

definition stdAlphabet :: string where
  "stdAlphabet = alnum62 @ ''+/''"

definition urlAlphabet :: string where
  "urlAlphabet = alnum62 @ ''-_''"

definition b64Char :: "string \<Rightarrow> nat \<Rightarrow> char" where
  "b64Char al n = al ! n"

fun indexOf :: "'a list \<Rightarrow> 'a \<Rightarrow> nat option" where
  "indexOf [] x = None"
| "indexOf (y # ys) x = (if x = y then Some 0 else map_option Suc (indexOf ys x))"

fun b64Encode :: "string \<Rightarrow> bytes \<Rightarrow> string" where
  "b64Encode al [] = []"
| "b64Encode al [a] =
     (let n = of_char a * 16 :: nat in
      [b64Char al (n div 64), b64Char al (n mod 64), CHR ''='', CHR ''=''])"
| "b64Encode al [a, b] =
     (let n = of_char a * 1024 + of_char b * 4 :: nat in
      [b64Char al (n div 4096), b64Char al (n div 64 mod 64), b64Char al (n mod 64), CHR ''=''])"
| "b64Encode al (a # b # c # cs) =
     (let n = of_char a * 65536 + of_char b * 256 + of_char c :: nat in
      [b64Char al (n div 262144), b64Char al (n div 4096 mod 64), b64Char al (n div 64 mod 64),
       b64Char al (n mod 64)] @ b64Encode al cs)"

definition b64Err :: err where
  "b64Err = Err ''illegal base64 data''"

fun b64Groups :: "string \<Rightarrow> string \<Rightarrow> err + bytes" where
  "b64Groups al [] = Inr []"
| "b64Groups al (p # q # r # s # cs) =
     (case (indexOf al p, indexOf al q, indexOf al r, indexOf al s) of
        (Some w, Some x, Some y, Some z) \<Rightarrow>
          (let n = w * 262144 + x * 4096 + y * 64 + z in
           case b64Groups al cs of
             Inl e \<Rightarrow> Inl e
           | Inr bs \<Rightarrow> Inr (char_of (n div 65536) # char_of (n div 256 mod 256) #
                            char_of (n mod 256) # bs))
      | (Some w, Some x, Some y, None) \<Rightarrow>
          (if s = CHR ''='' \<and> cs = []
           then (let n = w * 4096 + x * 64 + y in
                 Inr [char_of (n div 1024), char_of (n div 4 mod 256)])
           else Inl b64Err)
      | (Some w, Some x, None, None) \<Rightarrow>
          (if r = CHR ''='' \<and> s = CHR ''='' \<and> cs = []
           then Inr [char_of ((w * 64 + x) div 16)] else Inl b64Err)
      | _ \<Rightarrow> Inl b64Err)"
| "b64Groups al _ = Inl b64Err"

definition b64Decode :: "string \<Rightarrow> string \<Rightarrow> err + bytes" where
  "b64Decode al s = b64Groups al (filter (\<lambda>c. c \<noteq> CHR 0x0A \<and> c \<noteq> CHR 0x0D) s)"

definition b64Alphabet :: "string \<Rightarrow> bool" where
  "b64Alphabet al \<longleftrightarrow> length al = 64 \<and> distinct al \<and>
     CHR ''='' \<notin> set al \<and> CHR 0x0A \<notin> set al \<and> CHR 0x0D \<notin> set al"

lemma std_url_alphabet [simp]: "b64Alphabet stdAlphabet" "b64Alphabet urlAlphabet"
  by code_simp+

lemma indexOf_nth: "distinct al \<Longrightarrow> i < length al \<Longrightarrow> indexOf al (al ! i) = Some i"
proof (induction al arbitrary: i)
  case (Cons a al)
  then show ?case by (cases i) auto
qed simp

lemma indexOf_None: "x \<notin> set al \<Longrightarrow> indexOf al x = None"
  by (induction al) auto

lemma indexOf_b64Char [simp]: "b64Alphabet al \<Longrightarrow> n < 64 \<Longrightarrow> indexOf al (b64Char al n) = Some n"
  by (simp add: b64Alphabet_def b64Char_def indexOf_nth)

lemma indexOf_pad [simp]: "b64Alphabet al \<Longrightarrow> indexOf al (CHR ''='') = None"
  by (simp add: b64Alphabet_def indexOf_None)

lemma sextets:
  "(n :: nat) = n div 262144 * 262144 + n div 4096 mod 64 * 4096 + n div 64 mod 64 * 64 + n mod 64"
proof -
  define a where "a = n div 64"
  define b where "b = a div 64"
  define c where "c = b div 64"
  have "n div 4096 = b" "n div 262144 = c"
    using div_mult2_eq [of n 64 64] div_mult2_eq [of n 4096 64] by (simp_all add: a_def b_def c_def)
  moreover have "n = a * 64 + n mod 64" "a = b * 64 + a mod 64" "b = c * 64 + b mod 64"
    by (simp_all add: a_def b_def c_def)
  then have "n = c * 262144 + b mod 64 * 4096 + a mod 64 * 64 + n mod 64" by linarith
  ultimately show ?thesis by (simp add: a_def)
qed

lemma code_bounds:
  "(of_char c :: nat) div 4 < 64" "(of_char c :: nat) * 16 div 64 < 64"
proof -
  have "(of_char c :: nat) < 256" by simp
  then show "(of_char c :: nat) div 4 < 64" "(of_char c :: nat) * 16 div 64 < 64" by linarith+
qed

lemma triple_bound:
  assumes "x < (256 :: nat)" "y < 256" "z < 256"
  shows "x * 65536 + y * 256 + z < 64 * 262144" "x * 1024 + y * 4 < 64 * 4096"
    and "(x * 1024 + y * 4) div 1024 = x" "(x * 1024 + y * 4) div 4 mod 256 = y"
    and "(x * 65536 + y * 256 + z) div 65536 = x" "(x * 65536 + y * 256 + z) div 256 mod 256 = y"
    and "(x * 65536 + y * 256 + z) mod 256 = z"
proof -
  show "x * 65536 + y * 256 + z < 64 * 262144" "x * 1024 + y * 4 < 64 * 4096"
    using assms by linarith+
  show "(x * 1024 + y * 4) div 1024 = x"
    using assms by (auto intro: div_nat_eqI)
  show "(x * 65536 + y * 256 + z) div 65536 = x"
    using assms by (auto intro: div_nat_eqI)
  have "(x * 1024 + y * 4) div 4 = x * 256 + y" by simp
  then show "(x * 1024 + y * 4) div 4 mod 256 = y" using assms by simp
  have e: "x * 65536 + y * 256 + z = (x * 256 + y) * 256 + z" by simp
  show "(x * 65536 + y * 256 + z) mod 256 = z"
    unfolding e mod_mult_self3 using assms(3) by simp
  have "(x * 65536 + y * 256 + z) div 256 = x * 256 + y"
    using assms by (auto intro: div_nat_eqI)
  then show "(x * 65536 + y * 256 + z) div 256 mod 256 = y" using assms by simp
qed

lemma char_of_mod: "m mod 256 = of_char c \<Longrightarrow> char_of (m :: nat) = c"
  by (metis char_of_mod_256 char_of_char)

lemma b64Groups_b64Encode: "b64Alphabet al \<Longrightarrow> b64Groups al (b64Encode al bs) = Inr bs"
proof (induction al bs rule: b64Encode.induct)
  case (1 al)
  show ?case by simp
next
  case (2 al a)
  define n :: nat where "n = of_char a * 16"
  have a: "(of_char a :: nat) < 256" by simp
  have "n div 64 < 64" unfolding n_def by (rule code_bounds)
  moreover have "(n div 64 * 64 + n mod 64) div 16 = of_char a"
    by (simp only: div_mult_mod_eq) (simp add: n_def)
  ultimately show ?case using 2 by (simp add: Let_def flip: n_def)
next
  case (3 al a b)
  define n :: nat where "n = of_char a * 1024 + of_char b * 4"
  have a: "(of_char a :: nat) < 256" "(of_char b :: nat) < 256" by simp_all
  have "n < 64 * 4096" using a a(1) unfolding n_def by (rule triple_bound)
  then have l: "n div 4096 < 64" by (rule less_mult_imp_div_less)
  have s: "n div 4096 * 4096 + n div 64 mod 64 * 64 + n mod 64 = n"
    using sextets [of n] l by (simp add: div_mult2_eq)
  have "n div 4 mod 256 = of_char b" using a a(1) unfolding n_def by (rule triple_bound)
  then have "char_of (n div 4) = b" by (rule char_of_mod)
  moreover have "n div 1024 = of_char a" using a a(1) unfolding n_def by (rule triple_bound)
  moreover have e: "b64Encode al [a, b] =
      [b64Char al (n div 4096), b64Char al (n div 64 mod 64), b64Char al (n mod 64), CHR ''='']"
    by (simp only: b64Encode.simps Let_def n_def)
  ultimately show ?case using 3 l s by (simp add: e Let_def)
next
  case (4 al a b c cs)
  define n :: nat where "n = of_char a * 65536 + of_char b * 256 + of_char c"
  have a: "(of_char a :: nat) < 256" "(of_char b :: nat) < 256" "(of_char c :: nat) < 256"
    by simp_all
  have "n < 64 * 262144" using a unfolding n_def by (rule triple_bound)
  then have l: "n div 262144 < 64" by (rule less_mult_imp_div_less)
  have "n div 65536 = of_char a" "char_of (n div 256) = b" "char_of n = c"
    unfolding n_def using triple_bound(5-7) [OF a] by (auto intro: char_of_mod)
  then show ?case
    using 4 l sextets [of n] by (simp add: Let_def flip: n_def)
qed

lemma b64Char_in: "b64Alphabet al \<Longrightarrow> n < 64 \<Longrightarrow> b64Char al n \<in> set al"
  by (simp add: b64Alphabet_def b64Char_def)

lemma set_b64Encode: "b64Alphabet al \<Longrightarrow> set (b64Encode al bs) \<subseteq> set al \<union> {CHR ''=''}"
proof (induction al bs rule: b64Encode.induct)
  case (2 al a)
  define n :: nat where "n = of_char a * 16"
  have "n div 64 < 64" unfolding n_def by (rule code_bounds)
  with 2 show ?case by (simp add: Let_def b64Char_in flip: n_def)
next
  case (3 al a b)
  define n :: nat where "n = of_char a * 1024 + of_char b * 4"
  have "(of_char a :: nat) < 256" "(of_char b :: nat) < 256" "(of_char a :: nat) < 256" by simp_all
  then have "n < 64 * 4096" unfolding n_def by (rule triple_bound)
  then have "n div 4096 < 64" by (rule less_mult_imp_div_less)
  moreover have e: "b64Encode al [a, b] =
      [b64Char al (n div 4096), b64Char al (n div 64 mod 64), b64Char al (n mod 64), CHR ''='']"
    by (simp only: b64Encode.simps Let_def n_def)
  ultimately show ?case using 3 by (simp add: e b64Char_in)
next
  case (4 al a b c cs)
  define n :: nat where "n = of_char a * 65536 + of_char b * 256 + of_char c"
  have "(of_char a :: nat) < 256" "(of_char b :: nat) < 256" "(of_char c :: nat) < 256"
    by simp_all
  then have "n < 64 * 262144" unfolding n_def by (rule triple_bound)
  then have "n div 262144 < 64" by (rule less_mult_imp_div_less)
  with 4 show ?case by (simp add: Let_def b64Char_in flip: n_def)
qed simp

theorem b64Decode_b64Encode: "b64Alphabet al \<Longrightarrow> b64Decode al (b64Encode al bs) = Inr bs"
proof -
  assume al: "b64Alphabet al"
  then have "\<forall>c \<in> set (b64Encode al bs). c \<noteq> CHR 0x0A \<and> c \<noteq> CHR 0x0D"
    using set_b64Encode [OF al, of bs] by (auto simp: b64Alphabet_def)
  then show ?thesis
    using al by (simp add: b64Decode_def b64Groups_b64Encode)
qed

lemma b64Encode_eq_Nil: "b64Encode al bs = [] \<longleftrightarrow> bs = []"
  by (induction al bs rule: b64Encode.induct) (simp_all add: Let_def)

lemma url_no_slash: "CHR ''/'' \<notin> set (b64Encode urlAlphabet bs)"
proof -
  have "CHR ''/'' \<notin> set urlAlphabet" by code_simp
  then show ?thesis using set_b64Encode [of urlAlphabet bs] by auto
qed

subsection \<open>Without padding\<close>

text \<open>\<open>RawStdEncoding\<close> and \<open>RawURLEncoding\<close>: the padding is left out, and is an error when read.\<close>

definition b64EncodeRaw :: "string \<Rightarrow> bytes \<Rightarrow> string" where
  "b64EncodeRaw al bs = filter (\<lambda>c. c \<noteq> CHR ''='') (b64Encode al bs)"

definition b64Pad :: "string \<Rightarrow> string" where
  "b64Pad s = replicate ((4 - length s mod 4) mod 4) (CHR ''='')"

definition b64DecodeRaw :: "string \<Rightarrow> string \<Rightarrow> err + bytes" where
  "b64DecodeRaw al s =
     (let t = filter (\<lambda>c. c \<noteq> CHR 0x0A \<and> c \<noteq> CHR 0x0D) s in
      if CHR ''='' \<in> set t then Inl b64Err else b64Groups al (t @ b64Pad t))"

lemma b64Char_no_pad: "b64Alphabet al \<Longrightarrow> n < 64 \<Longrightarrow> b64Char al n \<noteq> CHR ''=''"
  using b64Char_in [of al n] by (auto simp: b64Alphabet_def)

lemma b64EncodeRaw_pad: "b64Alphabet al \<Longrightarrow> b64EncodeRaw al bs @ b64Pad (b64EncodeRaw al bs) = b64Encode al bs"
proof (induction al bs rule: b64Encode.induct)
  case (2 al a)
  define n :: nat where "n = of_char a * 16"
  have "n div 64 < 64" unfolding n_def by (rule code_bounds)
  with 2 show ?case
    by (simp add: b64EncodeRaw_def b64Pad_def Let_def b64Char_no_pad numeral_2_eq_2 flip: n_def)
next
  case (3 al a b)
  define n :: nat where "n = of_char a * 1024 + of_char b * 4"
  have "(of_char a :: nat) < 256" "(of_char b :: nat) < 256" "(of_char a :: nat) < 256" by simp_all
  then have "n < 64 * 4096" unfolding n_def by (rule triple_bound)
  then have "n div 4096 < 64" by (rule less_mult_imp_div_less)
  moreover have e: "b64Encode al [a, b] =
      [b64Char al (n div 4096), b64Char al (n div 64 mod 64), b64Char al (n mod 64), CHR ''='']"
    by (simp only: b64Encode.simps Let_def n_def)
  ultimately show ?case using 3 by (simp add: b64EncodeRaw_def b64Pad_def e b64Char_no_pad)
next
  case (4 al a b c cs)
  define n :: nat where "n = of_char a * 65536 + of_char b * 256 + of_char c"
  have "(of_char a :: nat) < 256" "(of_char b :: nat) < 256" "(of_char c :: nat) < 256"
    by simp_all
  then have "n < 64 * 262144" unfolding n_def by (rule triple_bound)
  then have "n div 262144 < 64" by (rule less_mult_imp_div_less)
  with 4 show ?case
    by (simp add: b64EncodeRaw_def b64Pad_def Let_def b64Char_no_pad flip: n_def)
qed (simp add: b64EncodeRaw_def b64Pad_def)

lemma set_b64EncodeRaw: "b64Alphabet al \<Longrightarrow> set (b64EncodeRaw al bs) \<subseteq> set al"
  using set_b64Encode [of al bs] by (auto simp: b64EncodeRaw_def)

lemma b64DecodeRaw_b64EncodeRaw:
  assumes "b64Alphabet al"
  shows "b64DecodeRaw al (b64EncodeRaw al bs) = Inr bs"
proof -
  have "CHR ''='' \<notin> set (b64EncodeRaw al bs)" by (simp add: b64EncodeRaw_def)
  moreover have "\<forall>c \<in> set (b64EncodeRaw al bs). c \<noteq> CHR 0x0A \<and> c \<noteq> CHR 0x0D"
    using set_b64EncodeRaw [OF assms] assms by (auto simp: b64Alphabet_def)
  then have "filter (\<lambda>c. c \<noteq> CHR 0x0A \<and> c \<noteq> CHR 0x0D) (b64EncodeRaw al bs) = b64EncodeRaw al bs"
    by (simp add: filter_id_conv)
  ultimately show ?thesis
    using assms by (simp add: b64DecodeRaw_def b64EncodeRaw_pad b64Groups_b64Encode)
qed

lemma url_no_dot: "CHR ''.'' \<notin> set (b64EncodeRaw urlAlphabet bs)"
proof -
  have "CHR ''.'' \<notin> set urlAlphabet" by code_simp
  then show ?thesis using set_b64EncodeRaw [of urlAlphabet bs] by auto
qed

subsection \<open>Byte slices in JSON\<close>

text \<open>A byte slice is read from a base64 string, and from an array of numbers.\<close>

definition jGetByte :: "jvalue \<Rightarrow> err + char" where
  "jGetByte v = (case v of JNull \<Rightarrow> Inr (CHR 0x00)
     | JNum s \<Rightarrow> (case parseUint64 s of
          Some n \<Rightarrow> if n < 256 then Inr (char_of n) else Inl jErr
        | None \<Rightarrow> Inl jErr)
     | _ \<Rightarrow> Inl jErr)"

definition jGetBytes :: "jvalue \<Rightarrow> err + bytes" where
  "jGetBytes v = (case v of JStr s \<Rightarrow> b64Decode stdAlphabet s | _ \<Rightarrow> jGetArr jGetByte v)"

end
