(* ===== verification/BucketCrypto.thy ===== *)
theory BucketCrypto
  imports Base64 "HOL-Library.Word"
begin

unbundle bit_operations_syntax

text \<open>
  The encryption of bucket paths and contents: \<open>core/textile/bucket/crypto\<close>.

  The AES block cipher and SHA-512 are parameters (\<open>prims\<close>); what Go builds from them is
  written out: counter mode, HMAC, the encrypting reader (cipher text followed by its MAC) and the
  decrypting reader, which peeks 16 KB at a time so as to hold back the last 64 bytes.  A reader
  is the bytes it yields.
\<close>

subsection \<open>Bytes\<close>

definition byteXor :: "char \<Rightarrow> char \<Rightarrow> char" where
  "byteXor a b = char_of ((of_char a :: nat) XOR of_char b)"

definition xorBytes :: "bytes \<Rightarrow> bytes \<Rightarrow> bytes" where
  "xorBytes xs ys = map2 byteXor xs ys"

text \<open>A block as a big-endian number and back.\<close>

definition beWord :: "bytes \<Rightarrow> 128 word" where
  "beWord bs = foldl (\<lambda>n c. n * 256 + word_of_nat (of_char c)) 0 bs"

definition wordBytes :: "128 word \<Rightarrow> bytes" where
  "wordBytes w = map (\<lambda>i. char_of (unat (drop_bit (8 * i) w) mod 256)) (rev [0..<16])"

subsection \<open>Counter mode and HMAC\<close>

record prims =
  aesBlock :: "bytes \<Rightarrow> bytes \<Rightarrow> bytes"
  sha512 :: "bytes \<Rightarrow> bytes"

text \<open>The block length of AES and the output length of SHA-512.\<close>

definition prims_ok :: "prims \<Rightarrow> bool" where
  "prims_ok p \<longleftrightarrow> (\<forall>k b. length (aesBlock p k b) = 16) \<and> (\<forall>x. length (sha512 p x) = 64)"

text \<open>\<open>cipher.NewCTR\<close>: the key stream is the encryption of iv, iv + 1, \<dots>, the counter wrapping.\<close>

function ctrStream :: "prims \<Rightarrow> bytes \<Rightarrow> 128 word \<Rightarrow> bytes \<Rightarrow> bytes" where
  "ctrStream p k c [] = []"
| "ctrStream p k c (x # xs) =
     xorBytes (take 16 (x # xs)) (aesBlock p k (wordBytes c)) @ ctrStream p k (c + 1) (drop 15 xs)"
  by pat_completeness auto
termination by (relation "measure (\<lambda>(p, k, c, xs). length xs)") auto

definition ctr :: "prims \<Rightarrow> bytes \<Rightarrow> bytes \<Rightarrow> bytes \<Rightarrow> bytes" where
  "ctr p k iv xs = ctrStream p k (beWord iv) xs"

text \<open>\<open>crypto/hmac\<close> over SHA-512, whose block is 128 bytes.\<close>

definition hmacPad :: "prims \<Rightarrow> bytes \<Rightarrow> bytes" where
  "hmacPad p key = (let k = (if length key > 128 then sha512 p key else key) in
     k @ replicate (128 - length k) (CHR 0x00))"

definition hmac :: "prims \<Rightarrow> bytes \<Rightarrow> bytes \<Rightarrow> bytes" where
  "hmac p key msg =
     sha512 p (map (byteXor (CHR 0x5C)) (hmacPad p key) @
       sha512 p (map (byteXor (CHR 0x36)) (hmacPad p key) @ msg))"

subsection \<open>encrypter.go\<close>

definition aesKeySize :: nat where "aesKeySize = 32"
definition ivKeySize :: nat where "ivKeySize = 16"
definition hmacKeySize :: nat where "hmacKeySize = 32"
definition hmacSize :: nat where "hmacSize = 64"

lemmas keySize_defs = aesKeySize_def ivKeySize_def hmacKeySize_def hmacSize_def

definition newEncryptReader :: "prims \<Rightarrow> bytes \<Rightarrow> bytes \<Rightarrow> bytes \<Rightarrow> bytes \<Rightarrow> bytes" where
  "newEncryptReader p r aesKey iv hmacKey =
     (let sr = ctr p aesKey iv r in sr @ hmac p hmacKey sr)"

definition NewEncryptReader :: "prims \<Rightarrow> bytes \<Rightarrow> bytes \<Rightarrow> bytes \<Rightarrow> bytes \<Rightarrow> err + bytes" where
  "NewEncryptReader p r aesKey iv hmacKey =
     (if length aesKey \<noteq> aesKeySize
        then Inl (Err ''encryption key has incorrect length'')
      else if length iv \<noteq> ivKeySize
        then Inl (Err ''encryption initialization vector size has incorrect length'')
      else if length hmacKey \<noteq> hmacKeySize
        then Inl (Err ''encryption hmac key has incorrect length'')
      else Inr (newEncryptReader p r aesKey iv hmacKey))"

subsection \<open>decrypter.go\<close>

definition chunk16KB :: nat where
  "chunk16KB = 16 * 1024"

definition decryptErr :: err where
  "decryptErr = Err ''message corrupt or incorrect keys''"

text \<open>
  The loop over the buffered reader: what is left to read, and what has been copied to the hash
  and the temporary file.  It returns the copied bytes and the last 64.
\<close>

function splitLoop :: "bytes \<Rightarrow> bytes \<Rightarrow> err + (bytes \<times> bytes)" where
  "splitLoop rest acc =
     (if length rest < chunk16KB then
        (if length rest < hmacSize then Inl decryptErr
         else Inr (acc @ take (length rest - hmacSize) rest, drop (length rest - hmacSize) rest))
      else splitLoop (drop (chunk16KB - hmacSize) rest) (acc @ take (chunk16KB - hmacSize) rest))"
  by pat_completeness auto
termination
  by (relation "measure (\<lambda>(rest, acc). length rest)") (auto simp: chunk16KB_def hmacSize_def)

declare splitLoop.simps [simp del]

definition validAesKey :: "bytes \<Rightarrow> bool" where
  "validAesKey k = (length k = 16 \<or> length k = 24 \<or> length k = 32)"

definition NewDecryptReader :: "prims \<Rightarrow> bytes \<Rightarrow> bytes \<Rightarrow> bytes \<Rightarrow> bytes \<Rightarrow> err + bytes" where
  "NewDecryptReader p r aesKey iv hmacKey =
     (if \<not> validAesKey aesKey then Inl (Err ''crypto/aes: invalid key size'')
      else if length iv \<noteq> 16 then Inl (Panic ''cipher.NewCTR: IV length must equal block size'')
      else case splitLoop r [] of
        Inl e \<Rightarrow> Inl e
      | Inr (body, mac) \<Rightarrow>
          if mac \<noteq> hmac p hmacKey body then Inl decryptErr
          else Inr (ctr p aesKey iv body))"

subsection \<open>crypto.go\<close>

definition parseKeys :: "bytes \<Rightarrow> err + (bytes \<times> bytes \<times> bytes)" where
  "parseKeys key =
     (if length key \<noteq> aesKeySize + ivKeySize + hmacKeySize
      then Inl (Err ''unsupported encryption keys provided.'')
      else Inr (take aesKeySize key, take ivKeySize (drop aesKeySize key),
                drop (aesKeySize + ivKeySize) key))"

definition readAsBase64Strings :: "bytes \<Rightarrow> bytes" where
  "readAsBase64Strings data = b64Encode urlAlphabet data"

definition bytesFromBase64Strings :: "bytes \<Rightarrow> err + bytes" where
  "bytesFromBase64Strings s = b64Decode urlAlphabet s"

text \<open>
  The loop over the parts of a path, shared in shape by encryption and decryption: an empty part
  is skipped with its slash, and every other part but the one at the last index is followed by a
  slash.
\<close>

fun encParts :: "(bytes \<Rightarrow> err + bytes) \<Rightarrow> bytes list \<Rightarrow> err + bytes" where
  "encParts f [] = Inr []"
| "encParts f (x # xs) =
     (if x = [] then encParts f xs
      else case f x of
        Inl e \<Rightarrow> Inl e
      | Inr y \<Rightarrow> (case encParts f xs of
            Inl e \<Rightarrow> Inl e
          | Inr r \<Rightarrow> Inr (y @ (if xs \<noteq> [] then ''/'' else []) @ r)))"

definition encItem :: "prims \<Rightarrow> bytes \<Rightarrow> bytes \<Rightarrow> bytes \<Rightarrow> bytes \<Rightarrow> err + bytes" where
  "encItem p aesKey iv hmacKey x =
     (case NewEncryptReader p x aesKey iv hmacKey of
        Inl e \<Rightarrow> Inl e | Inr r \<Rightarrow> Inr (readAsBase64Strings r))"

definition decItem :: "prims \<Rightarrow> bytes \<Rightarrow> bytes \<Rightarrow> bytes \<Rightarrow> bytes \<Rightarrow> err + bytes" where
  "decItem p aesKey iv hmacKey x =
     (case bytesFromBase64Strings x of
        Inl e \<Rightarrow> Inl e | Inr b \<Rightarrow> NewDecryptReader p b aesKey iv hmacKey)"

text \<open>A nil reader is \<open>None\<close>.\<close>

definition EncryptPathItems ::
  "prims \<Rightarrow> bytes \<Rightarrow> bytes \<Rightarrow> bytes option \<Rightarrow> err + (bytes \<times> bytes option)" where
  "EncryptPathItems p key path plainReader =
     (case parseKeys key of
        Inl e \<Rightarrow> Inl e
      | Inr (aesKey, iv, hmacKey) \<Rightarrow>
          (case encParts (encItem p aesKey iv hmacKey) (strSplit path ''/'') of
             Inl e \<Rightarrow> Inl e
           | Inr encryptedPath \<Rightarrow>
               (case plainReader of
                  None \<Rightarrow> Inr (encryptedPath, None)
                | Some r \<Rightarrow>
                    (case NewEncryptReader p r aesKey iv hmacKey of
                       Inl e \<Rightarrow> Inl e
                     | Inr c \<Rightarrow> Inr (encryptedPath, Some c)))))"

definition DecryptPathItems ::
  "prims \<Rightarrow> bytes \<Rightarrow> bytes \<Rightarrow> bytes option \<Rightarrow> err + (bytes \<times> bytes option)" where
  "DecryptPathItems p key path encryptedReader =
     (case parseKeys key of
        Inl e \<Rightarrow> Inl e
      | Inr (aesKey, iv, hmacKey) \<Rightarrow>
          (case encParts (decItem p aesKey iv hmacKey) (strSplit path ''/'') of
             Inl e \<Rightarrow> Inl e
           | Inr decryptedPath \<Rightarrow>
               (case encryptedReader of
                  None \<Rightarrow> Inr (decryptedPath, None)
                | Some r \<Rightarrow>
                    (case NewDecryptReader p r aesKey iv hmacKey of
                       Inl e \<Rightarrow> Inl e
                     | Inr d \<Rightarrow> Inr (decryptedPath, Some d)))))"

subsection \<open>Counter mode undoes itself\<close>

lemma take_bit_code [simp]: "take_bit 8 (of_char c :: nat) = of_char c"
  by (simp add: take_bit_eq_mod)

lemma byteXor_twice [simp]: "byteXor (byteXor a b) b = a"
proof -
  have "(of_char (byteXor a b) :: nat) = take_bit 8 (of_char a XOR of_char b)"
    by (simp add: byteXor_def take_bit_eq_mod)
  also have "\<dots> = of_char a XOR of_char b"
    by simp
  finally have e: "(of_char (byteXor a b) :: nat) = of_char a XOR of_char b" .
  have "byteXor (byteXor a b) b = char_of ((of_char (byteXor a b) :: nat) XOR of_char b)"
    by (simp only: byteXor_def)
  also have "\<dots> = char_of ((of_char a :: nat) XOR (of_char b XOR of_char b))"
    by (simp only: e xor.assoc)
  also have "\<dots> = a" by simp
  finally show ?thesis .
qed

lemma length_xorBytes [simp]: "length (xorBytes xs ys) = min (length xs) (length ys)"
  by (simp add: xorBytes_def)

lemma xorBytes_twice: "length xs \<le> length ks \<Longrightarrow> xorBytes (xorBytes xs ks) ks = xs"
proof (induction xs arbitrary: ks)
  case (Cons x xs)
  then show ?case by (cases ks) (auto simp: xorBytes_def)
qed (simp add: xorBytes_def)

lemma ctrStream_step:
  "xs \<noteq> [] \<Longrightarrow> ctrStream p k c xs =
     xorBytes (take 16 xs) (aesBlock p k (wordBytes c)) @ ctrStream p k (c + 1) (drop 16 xs)"
  by (cases xs) auto

lemma length_ctrStream [simp]: "prims_ok p \<Longrightarrow> length (ctrStream p k c xs) = length xs"
  by (induction p k c xs rule: ctrStream.induct) (auto simp: prims_ok_def)

lemma ctrStream_twice: "prims_ok p \<Longrightarrow> ctrStream p k c (ctrStream p k c xs) = xs"
proof (induction p k c xs rule: ctrStream.induct)
  case (2 p k c x xs)
  let ?ks = "aesBlock p k (wordBytes c)" and ?h = "take 16 (x # xs)" and ?t = "drop 15 xs"
  have l: "length ?ks = 16" using 2(2) by (simp add: prims_ok_def)
  have c: "ctrStream p k c (x # xs) = xorBytes ?h ?ks @ ctrStream p k (c + 1) ?t" by simp
  have lh: "length (xorBytes ?h ?ks) = length ?h" using l by simp
  have ne: "xorBytes ?h ?ks \<noteq> []"
  proof
    assume "xorBytes ?h ?ks = []"
    then have "length ?h = 0" using lh by (metis list.size(3))
    then show False by simp
  qed
  show ?case
  proof (cases "?t = []")
    case True
    then have s: "length (xorBytes ?h ?ks) \<le> 16" "?h = x # xs" using lh by auto
    then show ?thesis
      unfolding c True using ne lh l
      by (simp add: ctrStream_step xorBytes_twice)
  next
    case False
    then have "length (xorBytes ?h ?ks) = 16" using lh by simp
    then show ?thesis
      unfolding c using ne 2 lh l
      by (simp add: ctrStream_step xorBytes_twice)
  qed
qed simp

lemma ctr_twice: "prims_ok p \<Longrightarrow> ctr p k iv (ctr p k iv xs) = xs"
  by (simp add: ctr_def ctrStream_twice)

lemma length_ctr [simp]: "prims_ok p \<Longrightarrow> length (ctr p k iv xs) = length xs"
  by (simp add: ctr_def)

lemma length_hmac [simp]: "prims_ok p \<Longrightarrow> length (hmac p k m) = 64"
  by (simp add: hmac_def prims_ok_def)

subsection \<open>The reading loop holds back the last 64 bytes\<close>

lemma splitLoop_eq:
  "splitLoop rest acc =
     (if length rest < hmacSize then Inl decryptErr
      else Inr (acc @ take (length rest - hmacSize) rest, drop (length rest - hmacSize) rest))"
proof (induction rest acc rule: splitLoop.induct)
  case (1 rest acc)
  show ?case
  proof (cases "length rest < chunk16KB")
    case True
    then show ?thesis by (subst splitLoop.simps) simp
  next
    case False
    let ?n = "chunk16KB - hmacSize"
    have n: "?n \<le> length rest" "\<not> length (drop ?n rest) < hmacSize" "\<not> length rest < hmacSize"
      using False by (auto simp: chunk16KB_def hmacSize_def)
    have t: "take ?n rest @ take (length rest - ?n - hmacSize) (drop ?n rest) =
        take (length rest - hmacSize) rest"
      using n by (simp add: take_add [symmetric] hmacSize_def chunk16KB_def)
    have "splitLoop rest acc = splitLoop (drop ?n rest) (acc @ take ?n rest)"
      using False by (subst splitLoop.simps) simp
    also have "\<dots> = Inr (acc @ take (length rest - hmacSize) rest,
        drop (length (drop ?n rest) - hmacSize) (drop ?n rest))"
      using 1 [OF False] n t by simp
    finally show ?thesis
      using n by (simp add: hmacSize_def chunk16KB_def)
  qed
qed

lemma decrypt_encrypt:
  assumes "prims_ok p" "NewEncryptReader p r k iv hk = Inr c"
  shows "NewDecryptReader p c k iv hk = Inr r"
proof -
  let ?s = "ctr p k iv r"
  have len: "length k = 32" "length iv = 16" and c: "c = ?s @ hmac p hk ?s"
    using assms(2) by (auto simp: NewEncryptReader_def newEncryptReader_def Let_def keySize_defs
        split: if_splits)
  have "splitLoop c [] = Inr (?s, hmac p hk ?s)"
    using assms(1) by (simp add: splitLoop_eq c hmacSize_def)
  then show ?thesis
    using len assms(1) by (simp add: NewDecryptReader_def validAesKey_def ctr_twice)
qed

lemma length_encrypt:
  "prims_ok p \<Longrightarrow> NewEncryptReader p r k iv hk = Inr c \<Longrightarrow> length c = length r + 64"
  by (auto simp: NewEncryptReader_def newEncryptReader_def Let_def split: if_splits)

text \<open>Whatever decrypts was written under the same HMAC key: the last 64 bytes are its MAC.\<close>

lemma decrypt_authentic:
  assumes "NewDecryptReader p c k iv hk = Inr r"
  shows "\<exists>body. c = body @ hmac p hk body \<and> r = ctr p k iv body"
proof -
  from assms have s: "\<not> length c < hmacSize"
    by (auto simp: NewDecryptReader_def splitLoop_eq split: if_splits)
  let ?b = "take (length c - hmacSize) c"
  from assms s have "drop (length c - hmacSize) c = hmac p hk ?b" "r = ctr p k iv ?b"
    by (auto simp: NewDecryptReader_def splitLoop_eq split: if_splits)
  then have "c = ?b @ hmac p hk ?b" by (metis append_take_drop_id)
  with \<open>r = _\<close> show ?thesis by blast
qed


subsection \<open>Paths\<close>

definition pathElems :: "bytes \<Rightarrow> bytes list" where
  "pathElems p = filter (\<lambda>e. e \<noteq> []) (strSplit p ''/'')"

definition joinElems :: "bytes list \<Rightarrow> bool \<Rightarrow> bytes" where
  "joinElems es slash = strJoin es ''/'' @ (if es \<noteq> [] \<and> slash then ''/'' else [])"

definition endsSlash :: "bytes \<Rightarrow> bool" where
  "endsSlash p = (last (strSplit p ''/'') = [])"

text \<open>The path without leading and repeated slashes, which is what encryption keeps of it.\<close>

definition normPath :: "bytes \<Rightarrow> bytes" where
  "normPath p = joinElems (pathElems p) (endsSlash p)"

lemma encParts_spec:
  "\<forall>x \<in> set xs. x \<noteq> [] \<longrightarrow> f x = Inr (g x) \<Longrightarrow>
   encParts f xs = Inr (joinElems (map g (filter (\<lambda>e. e \<noteq> []) xs)) (xs \<noteq> [] \<and> last xs = []))"
proof (induction xs)
  case (Cons x xs)
  have all: "last xs = []" if "filter (\<lambda>e. e \<noteq> []) xs = []" "xs \<noteq> []"
    using that by (metis (mono_tags, lifting) filter_empty_conv last_in_set)
  show ?case
  proof (cases "filter (\<lambda>e. e \<noteq> []) xs = []")
    case True
    then show ?thesis using Cons all by (auto simp: joinElems_def)
  next
    case False
    then have "xs \<noteq> []" "map g (filter (\<lambda>e. e \<noteq> []) xs) \<noteq> []" by auto
    then show ?thesis using Cons False by (simp add: joinElems_def strJoin_Cons)
  qed
qed (simp add: joinElems_def)

lemma strSplit_joinElems:
  assumes "\<forall>e \<in> set es. e \<noteq> [] \<and> CHR ''/'' \<notin> set e"
  shows "strSplit (joinElems es s) ''/'' =
    (if es = [] then [[]] else es @ (if s then [[]] else []))"
proof (cases "es = []")
  case False
  have "joinElems es s = strJoin (es @ (if s then [[]] else [])) ''/''"
    using False by (induction es rule: induct_list012) (auto simp: joinElems_def)
  moreover have "strSplit (strJoin (es @ (if s then [[]] else [])) ''/'') ''/'' =
      es @ (if s then [[]] else [])"
    using assms False by (intro strSplit_strJoin) auto
  ultimately show ?thesis using False by simp
qed (simp add: joinElems_def)

lemma pathElems_parts: "e \<in> set (pathElems p) \<Longrightarrow> e \<noteq> [] \<and> CHR ''/'' \<notin> set e"
  unfolding pathElems_def using strSplit_char_parts by auto

lemma joinElems_parts:
  assumes "\<forall>e \<in> set es. e \<noteq> [] \<and> CHR ''/'' \<notin> set e"
  shows "pathElems (joinElems es s) = es" "es \<noteq> [] \<Longrightarrow> endsSlash (joinElems es s) = s"
proof -
  have "filter (\<lambda>e. e \<noteq> []) es = es" using assms by (simp add: filter_id_conv)
  then show "pathElems (joinElems es s) = es"
    using assms by (simp add: pathElems_def strSplit_joinElems)
  assume "es \<noteq> []"
  then have "last es \<noteq> []" using assms last_in_set by blast
  with \<open>es \<noteq> []\<close> show "endsSlash (joinElems es s) = s"
    using assms by (simp add: endsSlash_def strSplit_joinElems)
qed

lemma normPath_idem [simp]: "normPath (normPath p) = normPath p"
  using joinElems_parts [of "pathElems p" "endsSlash p"] pathElems_parts [of _ p]
  by (cases "pathElems p = []") (auto simp: normPath_def joinElems_def)

lemma normPath_eq_iff:
  "normPath p = normPath q \<longleftrightarrow>
     pathElems p = pathElems q \<and> (pathElems p \<noteq> [] \<longrightarrow> endsSlash p = endsSlash q)"
proof -
  have e: "pathElems (normPath r) = pathElems r" for r
    using joinElems_parts(1) [of "pathElems r"] pathElems_parts [of _ r] by (auto simp: normPath_def)
  have l: "endsSlash (normPath r) = endsSlash r" if "pathElems r \<noteq> []" for r
    using joinElems_parts(2) [of "pathElems r"] pathElems_parts [of _ r] that
    by (auto simp: normPath_def)
  show ?thesis
  proof
    assume n: "normPath p = normPath q"
    then have "pathElems p = pathElems q" using e [of p] e [of q] by simp
    moreover have "endsSlash p = endsSlash q" if "pathElems p \<noteq> []"
      using that l [of p] l [of q] n calculation by simp
    ultimately show "pathElems p = pathElems q \<and> (pathElems p \<noteq> [] \<longrightarrow> endsSlash p = endsSlash q)"
      by blast
  qed (cases "pathElems p = []"; simp add: normPath_def joinElems_def)
qed

text \<open>A path with no empty element but, possibly, the last is kept as it is.\<close>

lemma normPath_id:
  assumes "\<forall>e \<in> set (butlast (strSplit p ''/'')). e \<noteq> []"
  shows "normPath p = p"
proof -
  obtain b l where ps: "strSplit p ''/'' = b @ [l]"
    by (metis append_butlast_last_id list.distinct(1) strSplit_ne)
  then have f: "filter (\<lambda>e. e \<noteq> []) b = b"
    using assms by (simp add: filter_id_conv)
  have j: "strJoin (xs @ [[]]) ''/'' = strJoin xs ''/'' @ (if xs = [] then [] else ''/'')" for xs
    by (induction xs rule: induct_list012) auto
  have "normPath p = strJoin (strSplit p ''/'') ''/''"
    using f j [of b] by (simp add: ps normPath_def joinElems_def pathElems_def endsSlash_def)
  then show ?thesis by (simp add: strJoin_strSplit)
qed

subsection \<open>Paths and contents survive encryption\<close>

lemma parseKeys_ok: "length key = 80 \<Longrightarrow>
  parseKeys key = Inr (take 32 key, take 16 (drop 32 key), drop 48 key)"
  by (simp add: parseKeys_def keySize_defs)

abbreviation keyLenOk :: "bytes \<Rightarrow> bytes \<Rightarrow> bytes \<Rightarrow> bool" where
  "keyLenOk k iv hk \<equiv> length k = 32 \<and> length iv = 16 \<and> length hk = 32"

definition encName :: "prims \<Rightarrow> bytes \<Rightarrow> bytes \<Rightarrow> bytes \<Rightarrow> bytes \<Rightarrow> bytes" where
  "encName p k iv hk x = readAsBase64Strings (newEncryptReader p x k iv hk)"

lemma encItem_ok: "keyLenOk k iv hk \<Longrightarrow> encItem p k iv hk x = Inr (encName p k iv hk x)"
  by (simp add: encItem_def NewEncryptReader_def encName_def keySize_defs)

lemma decItem_encName:
  "prims_ok p \<Longrightarrow> keyLenOk k iv hk \<Longrightarrow> decItem p k iv hk (encName p k iv hk x) = Inr x"
  using decrypt_encrypt [of p x k iv hk "newEncryptReader p x k iv hk"]
  by (simp add: decItem_def encName_def readAsBase64Strings_def bytesFromBase64Strings_def
      b64Decode_b64Encode NewEncryptReader_def keySize_defs)

lemma encName_part:
  assumes "prims_ok p"
  shows "encName p k iv hk x \<noteq> [] \<and> CHR ''/'' \<notin> set (encName p k iv hk x)"
proof -
  have "length (newEncryptReader p x k iv hk) = length x + 64"
    using assms by (simp add: newEncryptReader_def Let_def)
  then have "newEncryptReader p x k iv hk \<noteq> []" by auto
  then show ?thesis
    by (simp add: encName_def readAsBase64Strings_def b64Encode_eq_Nil url_no_slash)
qed

definition encPath :: "prims \<Rightarrow> bytes \<Rightarrow> bytes \<Rightarrow> bytes \<Rightarrow> bytes \<Rightarrow> bytes" where
  "encPath p k iv hk path = joinElems (map (encName p k iv hk) (pathElems path)) (endsSlash path)"

lemma encParts_enc:
  "keyLenOk k iv hk \<Longrightarrow>
   encParts (encItem p k iv hk) (strSplit path ''/'') = Inr (encPath p k iv hk path)"
  by (simp add: encParts_spec [of _ _ "encName p k iv hk"] encItem_ok encPath_def pathElems_def
      endsSlash_def)

lemma encParts_dec:
  assumes "prims_ok p" "keyLenOk k iv hk"
  shows "encParts (decItem p k iv hk) (strSplit (encPath p k iv hk path) ''/'') = Inr (normPath path)"
proof -
  let ?g = "encName p k iv hk" and ?es = "pathElems path"
  define h where "h y = (case decItem p k iv hk y of Inr r \<Rightarrow> r | Inl _ \<Rightarrow> [])" for y
  have h: "h (?g x) = x" for x using assms by (simp add: h_def decItem_encName)
  have parts: "\<forall>e \<in> set (map ?g ?es). e \<noteq> [] \<and> CHR ''/'' \<notin> set e"
    using encName_part [OF assms(1)] by auto
  let ?ys = "strSplit (encPath p k iv hk path) ''/''"
  have ys: "?ys = (if ?es = [] then [[]] else map ?g ?es @ (if endsSlash path then [[]] else []))"
    using strSplit_joinElems [OF parts] by (simp add: encPath_def)
  have f: "filter (\<lambda>e. e \<noteq> []) ?ys = map ?g ?es"
    using parts by (auto simp: ys filter_id_conv)
  have "decItem p k iv hk y = Inr (h y)" if "y \<in> set ?ys" "y \<noteq> []" for y
    using that ys assms by (auto simp: h decItem_encName split: if_splits)
  then have "encParts (decItem p k iv hk) ?ys =
      Inr (joinElems (map h (map ?g ?es)) (?ys \<noteq> [] \<and> last ?ys = []))"
    using encParts_spec [of ?ys "decItem p k iv hk" h] f by simp
  moreover have "last ?ys = [] \<longleftrightarrow> endsSlash path" if "?es \<noteq> []"
    using that joinElems_parts(2) [OF parts] by (simp add: encPath_def endsSlash_def)
  ultimately show ?thesis
    by (cases "?es = []") (simp_all add: h normPath_def joinElems_def o_def)
qed


definition keyParts :: "bytes \<Rightarrow> bytes \<times> bytes \<times> bytes" where
  "keyParts key = (take 32 key, take 16 (drop 32 key), drop 48 key)"

definition encPathK :: "prims \<Rightarrow> bytes \<Rightarrow> bytes \<Rightarrow> bytes" where
  "encPathK p key path = (case keyParts key of (k, iv, hk) \<Rightarrow> encPath p k iv hk path)"

definition encDataK :: "prims \<Rightarrow> bytes \<Rightarrow> bytes \<Rightarrow> bytes" where
  "encDataK p key x = (case keyParts key of (k, iv, hk) \<Rightarrow> newEncryptReader p x k iv hk)"

lemma EncryptPathItems_ok:
  "length key = 80 \<Longrightarrow> EncryptPathItems p key path r =
     Inr (encPathK p key path, map_option (encDataK p key) r)"
  by (simp add: EncryptPathItems_def parseKeys_ok encParts_enc encPathK_def encDataK_def
      keyParts_def NewEncryptReader_def keySize_defs split: option.splits)

lemma EncryptPathItems_err:
  "length key \<noteq> 80 \<Longrightarrow> EncryptPathItems p key path r =
     Inl (Err ''unsupported encryption keys provided.'')"
  by (simp add: EncryptPathItems_def parseKeys_def keySize_defs)

lemma NewDecryptReader_encDataK:
  "prims_ok p \<Longrightarrow> length key = 80 \<Longrightarrow>
   NewDecryptReader p (encDataK p key x) (take 32 key) (take 16 (drop 32 key)) (drop 48 key) = Inr x"
  by (rule decrypt_encrypt) (simp_all add: encDataK_def keyParts_def NewEncryptReader_def keySize_defs)

lemma DecryptPathItems_encPathK:
  "prims_ok p \<Longrightarrow> length key = 80 \<Longrightarrow>
   DecryptPathItems p key (encPathK p key path) (map_option (encDataK p key) r) = Inr (normPath path, r)"
  by (cases r) (simp_all add: DecryptPathItems_def parseKeys_ok encParts_dec encPathK_def
      keyParts_def NewDecryptReader_encDataK)

lemma DecryptPathItems_data:
  "prims_ok p \<Longrightarrow> length key = 80 \<Longrightarrow>
   DecryptPathItems p key [] (Some (encDataK p key x)) = Inr ([], Some x)"
  by (simp add: DecryptPathItems_def parseKeys_ok NewDecryptReader_encDataK)

lemma encPathK_eq_iff:
  assumes "prims_ok p" "length key = 80"
  shows "encPathK p key a = encPathK p key b \<longleftrightarrow> normPath a = normPath b"
proof
  assume "encPathK p key a = encPathK p key b"
  then show "normPath a = normPath b"
    using DecryptPathItems_encPathK [OF assms, of a None] DecryptPathItems_encPathK [OF assms, of b None]
    by simp
next
  assume "normPath a = normPath b"
  then show "encPathK p key a = encPathK p key b"
    by (auto simp: normPath_eq_iff encPathK_def encPath_def joinElems_def keyParts_def)
qed

text \<open>
  \<open>q\<close> is \<open>p\<close> or lies in the directory \<open>p\<close>.  The encryption of paths goes element by element, so it
  keeps this.
\<close>

definition under :: "bytes \<Rightarrow> bytes \<Rightarrow> bool" where
  "under p q \<longleftrightarrow> take (length (pathElems p)) (pathElems q) = pathElems p"

lemma pathElems_normPath [simp]: "pathElems (normPath p) = pathElems p"
  using normPath_eq_iff [of "normPath p" p] by simp

lemma under_normPath [simp]: "under (normPath p) q = under p q" "under p (normPath q) = under p q"
  by (simp_all add: under_def)

lemma encPathK_elems:
  assumes "prims_ok p" "length key = 80"
  shows "\<exists>f. inj f \<and> (\<forall>a. pathElems (encPathK p key a) = map f (pathElems a))"
proof -
  obtain k iv hk where k: "keyParts key = (k, iv, hk)" by (cases "keyParts key") auto
  have "keyLenOk k iv hk" using k assms(2) by (auto simp: keyParts_def)
  then have "inj (encName p k iv hk)"
    using decItem_encName [OF assms(1)] by (intro injI) (metis sum.inject(2))
  moreover have "pathElems (encPathK p key a) = map (encName p k iv hk) (pathElems a)" for a
    using encName_part [OF assms(1)] by (simp add: encPathK_def k encPath_def joinElems_parts)
  ultimately show ?thesis by blast
qed

lemma under_encPathK:
  assumes "prims_ok p" "length key = 80"
  shows "under (encPathK p key a) (encPathK p key b) = under a b"
    and "pathElems (encPathK p key a) = [] \<longleftrightarrow> pathElems a = []"
proof -
  obtain f where f: "inj f" "\<And>a. pathElems (encPathK p key a) = map f (pathElems a)"
    using encPathK_elems [OF assms] by blast
  show "under (encPathK p key a) (encPathK p key b) = under a b"
    using f(1) by (simp add: under_def f(2) take_map)
  show "pathElems (encPathK p key a) = [] \<longleftrightarrow> pathElems a = []" by (simp add: f(2))
qed

subsection \<open>Properties\<close>

text \<open>Concrete primitives of the right lengths.\<close>

definition toyPrims :: prims where
  "toyPrims = \<lparr> aesBlock = \<lambda>k b. take 16 (b @ k @ replicate 16 (CHR ''a'')),
     sha512 = \<lambda>x. take 64 (rev x @ replicate 64 (CHR ''s'')) \<rparr>"

lemma toyPrims_ok: "prims_ok toyPrims"
  by (simp add: prims_ok_def toyPrims_def) linarith

definition toyKey :: bytes where
  "toyKey = replicate 80 (CHR ''k'')"

lemma length_toyKey: "length toyKey = 80"
  by (simp add: toyKey_def)

text \<open>
  C5. Encrypting a path and its content with an 80 byte key succeeds, and decrypting the result
  with the same key gives the content back and the path without its leading and repeated slashes;
  the encrypted content is 64 bytes longer.
\<close>

theorem encrypt_decrypt:
  assumes "prims_ok p" "length key = 80"
  shows "\<exists>ep er. EncryptPathItems p key path r = Inr (ep, er) \<and>
    DecryptPathItems p key ep er = Inr (normPath path, r) \<and>
    map_option length er = map_option (\<lambda>x. length x + 64) r"
proof -
  have "map_option length (map_option (encDataK p key) r) = map_option (\<lambda>x. length x + 64) r"
    using assms(1) by (cases r)
      (simp_all add: encDataK_def keyParts_def newEncryptReader_def Let_def)
  then show ?thesis
    using EncryptPathItems_ok [OF assms(2)] DecryptPathItems_encPathK [OF assms] by blast
qed

theorem encrypt_decrypt_witness:
  "\<exists>ep er. EncryptPathItems toyPrims toyKey ''a/b'' (Some ''hi'') = Inr (ep, er) \<and>
    DecryptPathItems toyPrims toyKey ep er = Inr (normPath ''a/b'', Some ''hi'') \<and>
    map_option length er = Some 66"
  using encrypt_decrypt [OF toyPrims_ok length_toyKey, of "''a/b''" "Some ''hi''"] by simp

text \<open>
  C6. The decrypting reader accepts exactly the messages that end with the MAC of what precedes,
  under the given HMAC key, and then yields the plain text: a message that has been changed, cut or
  extended without the key is an error and no byte of it is returned.
\<close>

theorem decrypt_accepts_iff:
  assumes "prims_ok p" "validAesKey k" "length iv = 16"
  shows "NewDecryptReader p c k iv hk =
    (if \<exists>body. c = body @ hmac p hk body
     then Inr (ctr p k iv (take (length c - 64) c)) else Inl decryptErr)"
proof (cases "\<exists>body. c = body @ hmac p hk body")
  case True
  then obtain body where c: "c = body @ hmac p hk body" by blast
  then have "splitLoop c [] = Inr (body, hmac p hk body)"
    using assms(1) by (simp add: splitLoop_eq hmacSize_def)
  then show ?thesis using True assms c by (simp add: NewDecryptReader_def)
next
  case False
  then have "drop (length c - 64) c \<noteq> hmac p hk (take (length c - 64) c)"
    by (metis append_take_drop_id)
  then have "NewDecryptReader p c k iv hk = Inl decryptErr"
    using assms(2,3) by (simp add: NewDecryptReader_def splitLoop_eq hmacSize_def)
  then show ?thesis using False by simp
qed

theorem decrypt_accepts_iff_witness:
  "NewDecryptReader toyPrims ''short'' (replicate 32 (CHR ''k'')) (replicate 16 (CHR ''i'')) [] =
     Inl decryptErr"
proof -
  have "\<not> (\<exists>body. ''short'' = body @ hmac toyPrims [] body)"
  proof
    assume "\<exists>body. ''short'' = body @ hmac toyPrims [] body"
    then obtain body where "''short'' = body @ hmac toyPrims [] body" by blast
    from arg_cong [OF this, of length] show False using toyPrims_ok by simp
  qed
  then show ?thesis
    using decrypt_accepts_iff [OF toyPrims_ok, of "replicate 32 (CHR ''k'')" "replicate 16 (CHR ''i'')"]
    by (simp add: validAesKey_def)
qed

text \<open>
  C27. The loop that peeks 16 KB at a time separates a message of any length into everything but
  its last 64 bytes and the last 64 bytes, in order; only a message shorter than that is an error.
\<close>

theorem splitLoop_splits:
  "splitLoop msg [] =
    (if length msg < 64 then Inl decryptErr
     else Inr (take (length msg - 64) msg, drop (length msg - 64) msg))"
  by (simp add: splitLoop_eq hmacSize_def)

text \<open>
  Two paths get the same encrypted path exactly when they have the same elements and both or
  neither end with a slash; an element of an encrypted path is never empty and has no slash.
\<close>

theorem encrypted_paths:
  assumes "prims_ok p" "length key = 80"
    and "EncryptPathItems p key a None = Inr (ea, ra)" "EncryptPathItems p key b None = Inr (eb, rb)"
  shows "(ea = eb \<longleftrightarrow> pathElems a = pathElems b \<and> (pathElems a \<noteq> [] \<longrightarrow> endsSlash a = endsSlash b)) \<and>
    length (pathElems ea) = length (pathElems a)"
proof -
  have e: "ea = encPathK p key a" "eb = encPathK p key b"
    using assms(3,4) EncryptPathItems_ok [OF assms(2)] by simp_all
  obtain k iv hk where k: "keyParts key = (k, iv, hk)" by (cases "keyParts key") auto
  have "length (pathElems ea) = length (pathElems a)"
    using encName_part [OF assms(1)] by (simp add: e encPathK_def k encPath_def joinElems_parts)
  then show ?thesis using encPathK_eq_iff [OF assms(1,2)] normPath_eq_iff by (simp add: e)
qed

theorem encrypted_paths_witness:
  "encPathK toyPrims toyKey ''/a//b'' = encPathK toyPrims toyKey ''a/b'' \<and>
   length (pathElems (encPathK toyPrims toyKey ''/a//b'')) = 2"
proof -
  have "pathElems ''/a//b'' = [''a'', ''b'']" "pathElems ''a/b'' = [''a'', ''b'']"
    "endsSlash ''/a//b'' = endsSlash ''a/b''"
    by code_simp+
  then show ?thesis
    using encrypted_paths [OF toyPrims_ok length_toyKey EncryptPathItems_ok [OF length_toyKey]
        EncryptPathItems_ok [OF length_toyKey], of "''/a//b''" "''a/b''"] by auto
qed

end
