(* ===== verification/Domain.thy ===== *)
theory Domain
  imports GoStrings
begin

text \<open>
  The data the daemon passes between its layers: \<open>core/space/domain/domain.go\<close>,
  \<open>core/events/events.go\<close>, \<open>core/search/model.go\<close> and the row types of
  \<open>core/textile/model\<close>.  A Go struct is a record with the struct's fields in its order; an
  embedded struct is a record extension; a Go \<open>string\<close> or \<open>[]byte\<close> is \<open>bytes\<close>; \<open>int\<close> and
  \<open>int64\<close> are \<open>int\<close> (none of the fields is computed with near its bounds); a named integer
  type with \<open>const\<close> values is \<open>int\<close> with constants.  Field names carry a prefix, since record
  fields share one name space.
\<close>

subsection \<open>\<open>core/space/domain\<close>\<close>

record member =
  mAddress :: bytes
  mPublicKey :: bytes

record dirEntry =
  dePath :: bytes
  deIsDir :: bool
  deName :: bytes
  deSizeInBytes :: bytes
  deCreated :: bytes
  deUpdated :: bytes
  deFileExtension :: bytes
  deMembers :: "member list"

record fileInfo = dirEntry +
  fiIpfsHash :: bytes
  fiBackedUp :: bool
  fiLocallyAvailable :: bool
  fiBackupInProgress :: bool
  fiRestoreInProgress :: bool

record sharedDirEntry = fileInfo +
  sdDbID :: bytes
  sdBucket :: bytes
  sdIsPublicLink :: bool
  sdMembers :: "member list"
  sdSharedBy :: bytes

record searchFileEntry = fileInfo +
  sfBucket :: bytes
  sfDbID :: bytes

record keyPair =
  kpPublicKey :: bytes
  kpPrivateKey :: bytes

record addItemResult =
  arSourcePath :: bytes
  arBucketPath :: bytes
  arBytes :: int
  arError :: "string option"

record addItemsResponse =
  aiTotalFiles :: int
  aiTotalBytes :: int
  aiError :: "string option"

record addWatchFile =
  awDbId :: bytes
  awLocalPath :: bytes
  awBucketPath :: bytes
  awBucketKey :: bytes
  awBucketSlug :: bytes
  awIsRemote :: bool
  awCid :: bytes

record fullPath =
  fpDbId :: bytes
  fpBucketKey :: bytes
  fpBucket :: bytes
  fpPath :: bytes

type_synonym notificationTypes = int

definition nUNKNOWN :: notificationTypes where "nUNKNOWN = 0"
definition nINVITATION :: notificationTypes where "nINVITATION = 1"
definition nUSAGEALERT :: notificationTypes where "nUSAGEALERT = 2"
definition nINVITATION_REPLY :: notificationTypes where "nINVITATION_REPLY = 3"
definition nREVOKED_INVITATION :: notificationTypes where "nREVOKED_INVITATION = 4"

lemmas notificationTypes_defs =
  nUNKNOWN_def nINVITATION_def nUSAGEALERT_def nINVITATION_REPLY_def nREVOKED_INVITATION_def

type_synonym invitationStatus = int

definition sPENDING :: invitationStatus where "sPENDING = 0"
definition sACCEPTED :: invitationStatus where "sACCEPTED = 1"
definition sREJECTED :: invitationStatus where "sREJECTED = 2"

record invitation =
  ivInviterPublicKey :: bytes
  ivInviteePublicKey :: bytes
  ivInvitationID :: bytes
  ivStatus :: invitationStatus
  ivItemPaths :: "fullPath list"
  ivKeys :: "bytes list"

record invitationReply =
  irInvitationID :: bytes

record revokedInvitation =
  rvInviterPublicKey :: bytes
  rvInviteePublicKey :: bytes
  rvItemPaths :: "fullPath list"
  rvKeys :: "bytes list"

record usageAlert =
  uaUsed :: int
  uaLimit :: int
  uaMessage :: bytes

record messageBody =
  mbType :: notificationTypes
  mbBody :: bytes

text \<open>\<open>RelatedObject interface{}\<close>: nil, or one of the four message values.\<close>

datatype relatedObject =
    RelNil
  | RelInvitation invitation
  | RelUsageAlert usageAlert
  | RelReply invitationReply
  | RelRevoked revokedInvitation

record notification =
  ntID :: bytes
  ntSubject :: bytes
  ntBody :: bytes
  ntNotificationType :: notificationTypes
  ntCreatedAt :: int
  ntReadAt :: int
  ntInvitationValue :: invitation
  ntUsageAlertValue :: usageAlert
  ntInvitationAcceptValue :: invitationReply
  ntRevokedInvitationValue :: revokedInvitation
  ntRelatedObject :: relatedObject

record mirrorFile =
  mfPath :: bytes
  mfBucketSlug :: bytes
  mfBackup :: bool
  mfShared :: bool
  mfBackupInProgress :: bool
  mfRestoreInProgress :: bool

type_synonym keyBackupType = int

definition kPASSWORD :: keyBackupType where "kPASSWORD = 0"
definition kGOOGLE :: keyBackupType where "kGOOGLE = 1"
definition kTWITTER :: keyBackupType where "kTWITTER = 2"
definition kEMAIL :: keyBackupType where "kEMAIL = 3"

definition keyBackupType_String :: "keyBackupType \<Rightarrow> bytes" where
  "keyBackupType_String b =
     (if b = 0 then ''password''
      else if b = 1 then ''google''
      else if b = 2 then ''twitter''
      else if b = 3 then ''email''
      else formatInt b)"

lemma keyBackupType_String_consts:
  "keyBackupType_String kPASSWORD = ''password''"
  "keyBackupType_String kGOOGLE = ''google''"
  "keyBackupType_String kTWITTER = ''twitter''"
  "keyBackupType_String kEMAIL = ''email''"
  by (simp_all add: keyBackupType_String_def kPASSWORD_def kGOOGLE_def kTWITTER_def kEMAIL_def)

subsection \<open>\<open>core/events\<close>\<close>

type_synonym fileEventType = bytes

record fileEvent =
  feInfo :: fileInfo
  feType :: fileEventType
  feBucket :: bytes
  feDbID :: bytes

definition NewFileEvent :: "fileInfo \<Rightarrow> fileEventType \<Rightarrow> bytes \<Rightarrow> bytes \<Rightarrow> fileEvent" where
  "NewFileEvent info eventType bucket dbID =
     \<lparr> feInfo = info, feType = eventType, feBucket = bucket, feDbID = dbID \<rparr>"

subsection \<open>\<open>core/search\<close>\<close>

record indexRecord =
  ixId :: bytes
  ixItemName :: bytes
  ixItemExtension :: bytes
  ixItemPath :: bytes
  ixItemType :: bytes
  ixBucketSlug :: bytes
  ixDbId :: bytes

record insertIndexRecord =
  iiItemName :: bytes
  iiItemExtension :: bytes
  iiItemPath :: bytes
  iiItemType :: bytes
  iiBucketSlug :: bytes
  iiDbId :: bytes

record deleteIndexRecord =
  diItemName :: bytes
  diItemPath :: bytes
  diBucketSlug :: bytes
  diDbId :: bytes

subsection \<open>Rows of \<open>core/textile/model\<close>\<close>

record mirrorBucketSchema =
  mbRemoteDbID :: bytes
  mbRemoteBucketKey :: bytes
  mbHubAddr :: bytes
  mbRemoteBucketSlug :: bytes

text \<open>\<open>BucketSchema\<close> embeds a pointer to the mirror data: \<open>None\<close> is nil.\<close>

record bucketSchema =
  bsID :: bytes
  bsSlug :: bytes
  bsBackup :: bool
  bsEncryptionKey :: bytes
  bsDbID :: bytes
  bsMirror :: "mirrorBucketSchema option"

record mirrorFileSchema =
  msID :: bytes
  msPath :: bytes
  msBucketSlug :: bytes
  msBackup :: bool
  msShared :: bool
  msBackupInProgress :: bool
  msRestoreInProgress :: bool
  msDbID :: bytes

record receivedFileSchema =
  rfID :: bytes
  rfDbID :: bytes
  rfBucket :: bytes
  rfPath :: bytes
  rfInvitationId :: bytes
  rfBucketKey :: bytes
  rfEncryptionKey :: bytes
  rfSharedBy :: bytes
  rfPublicIpfsHash :: bytes
  rfFilePassword :: bytes
  rfFileName :: bytes
  rfFileSize :: bytes
  rfAccepted :: bool
  rfCreatedAt :: int

record sentFileSchema =
  stID :: bytes
  stCreatedAt :: int
  stDbID :: bytes
  stBucket :: bytes
  stPath :: bytes
  stInvitationId :: bytes
  stBucketKey :: bytes
  stEncryptionKey :: bytes

record sharedPublicKeySchema =
  spID :: bytes
  spDbID :: bytes
  spPublicKey :: bytes
  spUpdatedAt :: int
  spCreatedAt :: int

end
