(* ===== verification/Bucket.thy ===== *)
theory Bucket
  imports Domain
begin

text \<open>
  A bucket (\<open>core/textile/bucket/bucket.go\<close>, \<open>bucket_file.go\<close>, \<open>bucket_dir.go\<close>) over a buckets
  client, and the directory walks \<open>ItemsCount\<close> and \<open>Each\<close>.

  The client (\<open>BucketsClient\<close>) is an interface: a record of functions over the state \<open>'w\<close> of
  whatever is behind it.  \<open>PullPath\<close> writes to a writer before it may fail, so it returns what it
  wrote and the error.  The read-write lock of a bucket orders whole operations; one operation at
  a time is what the definitions describe.

  \<open>ItemsCount\<close> and \<open>Each\<close> recurse into the directories the client lists, which nothing bounds in
  the code: they take fuel, one unit per level, and \<open>Each_walks\<close> shows that the depth of the
  listed tree is enough.
\<close>

subsection \<open>Contexts and listings\<close>

text \<open>What the daemon puts in a \<open>context.Context\<close>.\<close>

record ctx =
  cxEncKey :: "bytes option"
  cxThreadName :: "bytes option"
  cxThreadID :: "bytes option"
  cxToken :: "bytes option"
  cxSession :: "bytes option"
  cxAPIKey :: "bytes option"
  cxAPISig :: "(bytes \<times> bytes) option"

definition background :: ctx where
  "background = \<lparr> cxEncKey = None, cxThreadName = None, cxThreadID = None, cxToken = None,
                  cxSession = None, cxAPIKey = None, cxAPISig = None \<rparr>"

definition NewBucketEncryptionKeyContext :: "ctx \<Rightarrow> bytes \<Rightarrow> ctx" where
  "NewBucketEncryptionKeyContext c key = (if key = [] then c else c\<lparr>cxEncKey := Some key\<rparr>)"

definition BucketEncryptionKeyFromContext :: "ctx \<Rightarrow> bytes option" where
  "BucketEncryptionKeyFromContext c = cxEncKey c"

record pathItem =
  piName :: bytes
  piPath :: bytes
  piCid :: bytes
  piIsDir :: bool
  piSize :: int
  piUpdatedAt :: int
  piItemsCount :: int

record bucketRoot =
  rtKey :: bytes
  rtName :: bytes
  rtPath :: bytes
  rtCreatedAt :: int
  rtUpdatedAt :: int

text \<open>A \<open>ListPathResponse\<close>: the bucket, the item itself and the items directly under it.\<close>

record dirEntries =
  dlRoot :: bucketRoot
  dlItem :: pathItem
  dlItems :: "pathItem list"

record 'w bclient =
  cPushPath :: "ctx \<Rightarrow> bytes \<Rightarrow> bytes \<Rightarrow> bytes \<Rightarrow> ('w, bytes \<times> bytes) eff"
  cPullPath :: "ctx \<Rightarrow> bytes \<Rightarrow> bytes \<Rightarrow> ('w, bytes \<times> string option) eff"
  cListPath :: "ctx \<Rightarrow> bytes \<Rightarrow> bytes \<Rightarrow> ('w, dirEntries) eff"
  cRemovePath :: "ctx \<Rightarrow> bytes \<Rightarrow> bytes \<Rightarrow> ('w, bytes) eff"
  cListIpfsPath :: "ctx \<Rightarrow> bytes \<Rightarrow> ('w, dirEntries) eff"
  cPushPathAccessRoles :: "ctx \<Rightarrow> bytes \<Rightarrow> bytes \<Rightarrow> (bytes \<times> bytes) list \<Rightarrow> ('w, unit) eff"

record bucketData =
  bdKey :: bytes
  bdName :: bytes
  bdPath :: bytes
  bdDNSRecord :: bytes
  bdCreatedAt :: int
  bdUpdatedAt :: int

text \<open>\<open>bNotifier\<close> is nil or the \<open>OnUploadFile\<close> callback.\<close>

record 'w bucket =
  bRoot :: bucketRoot
  bClient :: "'w bclient"
  bGetContext :: "bytes \<Rightarrow> ('w, ctx \<times> bytes) eff"
  bNotifier :: "(bytes \<Rightarrow> bytes \<Rightarrow> ('w, unit) eff) option"

definition bucket_New ::
  "bucketRoot \<Rightarrow> (bytes \<Rightarrow> ('w, ctx \<times> bytes) eff) \<Rightarrow> 'w bclient \<Rightarrow> 'w bucket" where
  "bucket_New root getCtx client =
     \<lparr> bRoot = root, bClient = client, bGetContext = getCtx, bNotifier = None \<rparr>"

definition AttachBucketNotifier ::
  "(bytes \<Rightarrow> bytes \<Rightarrow> ('w, unit) eff) \<Rightarrow> 'w bucket \<Rightarrow> 'w bucket" where
  "AttachBucketNotifier n b = b\<lparr>bNotifier := Some n\<rparr>"

definition GetData :: "'w bucket \<Rightarrow> bucketData" where
  "GetData b =
     \<lparr> bdKey = rtKey (bRoot b), bdName = rtName (bRoot b), bdPath = rtPath (bRoot b),
       bdDNSRecord = [], bdCreatedAt = rtCreatedAt (bRoot b), bdUpdatedAt = rtUpdatedAt (bRoot b) \<rparr>"

definition bucket_Slug :: "'w bucket \<Rightarrow> bytes" where
  "bucket_Slug b = bdName (GetData b)"

definition bucket_Key :: "'w bucket \<Rightarrow> bytes" where
  "bucket_Key b = bdKey (GetData b)"

definition GetContext :: "'w bucket \<Rightarrow> ('w, ctx \<times> bytes) eff" where
  "GetContext b = bGetContext b (rtName (bRoot b))"

definition GetThreadID :: "'w bucket \<Rightarrow> ('w, bytes) eff" where
  "GetThreadID b = bindE (GetContext b) (\<lambda>(c, tid). retE tid)"

subsection \<open>Files and directories\<close>

text \<open>The regular expression \<open>.*no link named.*under.*\<close>, which does not match across lines.\<close>

definition noLinkErr :: "string \<Rightarrow> bool" where
  "noLinkErr e = list_ex (\<lambda>line. case cut ''no link named'' line of
       None \<Rightarrow> False | Some (_, a) \<Rightarrow> strContains a ''under'') (strSplit e [CHR 0x0A])"

definition FileExists :: "'w bucket \<Rightarrow> bytes \<Rightarrow> ('w, bool) eff" where
  "FileExists b pth =
     bindE (GetContext b) (\<lambda>(c, _).
     bindE (cListPath (bClient b) c (bdKey (GetData b)) pth) (\<lambda>res.
     bindE (tryE (cListIpfsPath (bClient b) c (piCid (dlItem res)))) (\<lambda>r.
       case r of
         Inl e \<Rightarrow> if noLinkErr e then retE False else failE (Err e)
       | Inr _ \<Rightarrow> retE True)))"

definition UpdatedAt :: "'w bucket \<Rightarrow> bytes \<Rightarrow> ('w, int) eff" where
  "UpdatedAt b pth =
     bindE (GetContext b) (\<lambda>(c, _).
     bindE (cListPath (bClient b) c (bdKey (GetData b)) pth) (\<lambda>res.
       retE (piUpdatedAt (dlItem res))))"

definition UploadFile :: "'w bucket \<Rightarrow> bytes \<Rightarrow> bytes \<Rightarrow> ('w, bytes \<times> bytes) eff" where
  "UploadFile b path content =
     bindE (GetContext b) (\<lambda>(c, _).
     bindE (cPushPath (bClient b) c (bucket_Key b) path content) (\<lambda>rr.
       case bNotifier b of
         None \<Rightarrow> retE rr
       | Some onUpload \<Rightarrow> thenE (onUpload (bucket_Slug b) path) (retE rr)))"

definition DownloadFile :: "'w bucket \<Rightarrow> bytes \<Rightarrow> bytes \<Rightarrow> ('w, bytes \<times> bytes) eff" where
  "DownloadFile b path content =
     bindE (GetContext b) (\<lambda>(c, _).
       cPushPath (bClient b) c (bucket_Key b) path content)"

definition GetFile :: "'w bucket \<Rightarrow> bytes \<Rightarrow> ('w, bytes \<times> string option) eff" where
  "GetFile b path =
     bindE (tryE (GetContext b)) (\<lambda>r.
       case r of
         Inl e \<Rightarrow> retE ([], Some e)
       | Inr (c, _) \<Rightarrow> cPullPath (bClient b) c (bucket_Key b) path)"

definition ListDirectory :: "'w bucket \<Rightarrow> bytes \<Rightarrow> ('w, dirEntries) eff" where
  "ListDirectory b path =
     bindE (GetContext b) (\<lambda>(c, _). cListPath (bClient b) c (bucket_Key b) path)"

definition DirExists :: "'w bucket \<Rightarrow> bytes \<Rightarrow> ('w, bool) eff" where
  "DirExists b path =
     bindE (tryE (ListDirectory b path)) (\<lambda>r.
       case r of
         Inl e \<Rightarrow> if noLinkErr e then retE False else failE (Err e)
       | Inr _ \<Rightarrow> retE True)"

definition keepFileName :: bytes where
  "keepFileName = ''.keep''"

definition CreateDirectory :: "'w bucket \<Rightarrow> bytes \<Rightarrow> ('w, bytes \<times> bytes) eff" where
  "CreateDirectory b path =
     bindE (GetContext b) (\<lambda>(c, _).
       cPushPath (bClient b) c (bucket_Key b) (trimRight path ''/'' @ ''/'' @ keepFileName) [])"

definition DeleteDirOrFile :: "'w bucket \<Rightarrow> bytes \<Rightarrow> ('w, bytes) eff" where
  "DeleteDirOrFile b path =
     bindE (GetContext b) (\<lambda>(c, _). cRemovePath (bClient b) c (bucket_Key b) path)"

subsection \<open>Directory walks\<close>

definition metaFileNames :: "bytes list" where
  "metaFileNames = [''.textileseed'', ''.textile'', ''.DS_Store'', ''.Trashes'', ''.localized'']"

definition IsMetaFileName :: "bytes \<Rightarrow> bool" where
  "IsMetaFileName pathOrName = (snd (pathSplit pathOrName) \<in> set metaFileNames)"

definition outOfFuel :: err where
  "outOfFuel = Panic ''stack overflow''"

text \<open>The counter of \<open>ItemsCount\<close> is an \<open>int32\<close>.  Both walks call \<open>b.ListDirectory\<close> only, so they take it as an argument.\<close>

fun ItemsCount ::
  "(bytes \<Rightarrow> ('w, dirEntries) eff) \<Rightarrow> nat \<Rightarrow> bytes \<Rightarrow> bool \<Rightarrow> ('w, int) eff" where
  "ItemsCount list 0 path rec = failE outOfFuel"
| "ItemsCount list (Suc n) path rec =
     bindE (list path) (\<lambda>dir.
       if rec then
         bindE (mapE (\<lambda>item.
             if IsMetaFileName (piName item) then retE 0
             else if piIsDir item then ItemsCount list n (piPath item) rec else retE 0)
           (dlItems dir))
         (\<lambda>ns. retE (wrap32 (piItemsCount (dlItem dir) + sum_list ns)))
       else retE (piItemsCount (dlItem dir)))"

definition childPath :: "bytes \<Rightarrow> bytes \<Rightarrow> bytes" where
  "childPath path name = (if path \<noteq> [] then path @ ''/'' @ name else name)"

text \<open>
  \<open>n\<close> is declared in the loop body, and is only assigned for a directory: what is added to
  \<open>count\<close> for a file is its zero value.
\<close>

fun Each ::
  "(bytes \<Rightarrow> ('w, dirEntries) eff) \<Rightarrow> nat \<Rightarrow> bytes \<Rightarrow> (bytes \<Rightarrow> ('w, unit) eff) \<Rightarrow> bool \<Rightarrow>
   ('w, int) eff" where
  "Each list 0 path iterator rec = failE outOfFuel"
| "Each list (Suc n) path iterator rec =
     bindE (list path) (\<lambda>dir.
     bindE (mapE (\<lambda>item.
         if IsMetaFileName (piName item) then retE 0
         else let curr = childPath path (piName item) in
           if rec \<and> piIsDir item then Each list n curr iterator rec
           else thenE (iterator curr) (retE 0))
       (dlItems dir))
     (\<lambda>ns. retE (sum_list ns)))"

subsection \<open>What a walk visits\<close>

text \<open>A tree of files and directories, the paths a walk visits in it, and its depth.\<close>

datatype fnode = FFile bytes | FDir bytes "fnode list"

fun visitedPaths :: "bytes \<Rightarrow> fnode list \<Rightarrow> bytes list" where
  "visitedPaths p [] = []"
| "visitedPaths p (FFile n # ts) =
     (if IsMetaFileName n then [] else [childPath p n]) @ visitedPaths p ts"
| "visitedPaths p (FDir n cs # ts) =
     (if IsMetaFileName n then [] else visitedPaths (childPath p n) cs) @ visitedPaths p ts"

fun fdepth :: "fnode list \<Rightarrow> nat" where
  "fdepth [] = 0"
| "fdepth (FFile n # ts) = fdepth ts"
| "fdepth (FDir n cs # ts) = max (Suc (fdepth cs)) (fdepth ts)"

text \<open>The listings \<open>d\<close> show the tree: the items of a directory are its nodes, in their order.\<close>

fun showsTree :: "(bytes \<Rightarrow> dirEntries) \<Rightarrow> bytes \<Rightarrow> fnode list \<Rightarrow> pathItem list \<Rightarrow> bool" where
  "showsTree d p [] its = (its = [])"
| "showsTree d p (FFile n # ts) its = (case its of [] \<Rightarrow> False
     | it # its' \<Rightarrow> piName it = n \<and> \<not> piIsDir it \<and> showsTree d p ts its')"
| "showsTree d p (FDir n cs # ts) its = (case its of [] \<Rightarrow> False
     | it # its' \<Rightarrow> piName it = n \<and> piIsDir it \<and> showsTree d p ts its' \<and>
         (IsMetaFileName n \<or> showsTree d (childPath p n) cs (dlItems (d (childPath p n)))))"

text \<open>The loop body of \<open>Each\<close>.\<close>

abbreviation eachItem where
  "eachItem list n path iterator item \<equiv>
     (if IsMetaFileName (piName item) then retE 0
      else let curr = childPath path (piName item) in
        if piIsDir item then Each list n curr iterator True
        else thenE (iterator curr) (retE 0))"

lemma mapE_eachItem:
  assumes IH: "\<And>p cs. showsTree d p cs (dlItems (d p)) \<Longrightarrow> fdepth cs < n \<Longrightarrow>
      Each (\<lambda>p. retE (d p)) n p it True = thenE (forE (visitedPaths p cs) it) (retE 0)"
  shows "showsTree d p ts its \<Longrightarrow> fdepth ts \<le> n \<Longrightarrow>
    mapE (eachItem (\<lambda>p. retE (d p)) n p it) its =
      thenE (forE (visitedPaths p ts) it) (retE (replicate (length its) 0))"
proof (induction ts arbitrary: its)
  case (Cons t ts)
  obtain i its' where its: "its = i # its'" using Cons.prems(1) by (cases t; cases its) auto
  have rest: "mapE (eachItem (\<lambda>p. retE (d p)) n p it) its' =
      thenE (forE (visitedPaths p ts) it) (retE (replicate (length its') 0))"
    using Cons.prems its by (intro Cons.IH; cases t) auto
  show ?case
  proof (cases t)
    case (FFile nm)
    then show ?thesis
      using Cons.prems its rest by (auto simp: Let_def bindE_thenE thenE_assoc)
  next
    case (FDir nm cs)
    have "Each (\<lambda>p. retE (d p)) n (childPath p nm) it True =
        thenE (forE (visitedPaths (childPath p nm) cs) it) (retE 0)" if "\<not> IsMetaFileName nm"
      using Cons.prems its FDir that by (intro IH) auto
    then show ?thesis
      using Cons.prems its rest FDir by (auto simp: Let_def bindE_thenE thenE_assoc forE_append)
  qed
qed simp

lemma sum_list_zeros [simp]: "sum_list (replicate n (0 :: int)) = 0"
  by (induction n) simp_all

text \<open>
  C34. A recursive walk calls its callback once on every file that is not a meta file and is in no
  meta directory, in listing order, and stops at the first error of the callback; it ends when the
  fuel exceeds the depth of the tree, and the count it returns is always 0.
\<close>

theorem Each_walks:
  assumes "showsTree d path ts (dlItems (d path))" "fdepth ts < n"
  shows "Each (\<lambda>p. retE (d p)) n path iterator True =
    thenE (forE (visitedPaths path ts) iterator) (retE 0)"
  using assms
proof (induction n arbitrary: path ts)
  case (Suc n)
  have "fdepth ts \<le> n" using Suc.prems(2) by simp
  from mapE_eachItem [OF Suc.IH Suc.prems(1) this] show ?case
    by (simp add: bindE_thenE Let_def del: retE_apply cong: if_cong)
qed simp

definition demoItem :: "bytes \<Rightarrow> bool \<Rightarrow> pathItem" where
  "demoItem nm dir = \<lparr> piName = nm, piPath = nm, piCid = [], piIsDir = dir, piSize = 0,
     piUpdatedAt = 0, piItemsCount = 0 \<rparr>"

definition demoRoot :: bucketRoot where
  "demoRoot = \<lparr> rtKey = ''key'', rtName = ''personal'', rtPath = [], rtCreatedAt = 0, rtUpdatedAt = 0 \<rparr>"

definition demoDir :: "bytes \<Rightarrow> dirEntries" where
  "demoDir p = \<lparr> dlRoot = demoRoot, dlItem = demoItem p True, dlItems =
     (if p = [] then [demoItem ''d'' True, demoItem ''.textile'' True, demoItem ''b'' False]
      else [demoItem ''a'' False]) \<rparr>"

theorem Each_walks_witness:
  "Each (\<lambda>p. retE (demoDir p)) 2 [] (\<lambda>p. modE (\<lambda>ps. ps @ [p])) True [] = (Inr 0, [''d/a'', ''b''])"
proof -
  have s: "showsTree demoDir [] [FDir ''d'' [FFile ''a''], FDir ''.textile'' [], FFile ''b'']
      (dlItems (demoDir []))"
    by code_simp
  have "visitedPaths [] [FDir ''d'' [FFile ''a''], FDir ''.textile'' [], FFile ''b''] = [''d/a'', ''b'']"
    by code_simp
  then have "Each (\<lambda>p. retE (demoDir p)) 2 [] (\<lambda>p. modE (\<lambda>ps. ps @ [p])) True =
      thenE (forE [''d/a'', ''b''] (\<lambda>p. modE (\<lambda>ps. ps @ [p]))) (retE 0)"
    using Each_walks [OF s, of 2] by (simp del: retE_apply)
  then show ?thesis by (simp add: thenE_apply)
qed

end
