(* ===== verification/Store.thy ===== *)
theory Store
  imports GoStrings "HOL-Library.Char_ord" "HOL-Library.List_Lexorder"
begin

text \<open>
  The key-value store (\<open>core/store/store.go\<close>) and the \<open>Store\<close> interface its clients use.

  The badger database is third-party code: it is the parameter \<open>'d badger\<close>, one function per
  transaction the store runs.  What badger documents (a committed write is read back, a failed
  transaction changes nothing, an iterator walks the keys in byte order) is \<open>badger_ok\<close>.

  \<open>storeI\<close> is the Go interface \<open>Store\<close> as a record of functions over a client's state; the locale
  \<open>kv_store\<close> states what its clients rely on, and is interpreted on \<open>store.go\<close>'s own functions.
\<close>

subsection \<open>The Store interface\<close>

record 's storeI =
  sGet :: "bytes \<Rightarrow> ('s, bytes) eff"
  sSet :: "bytes \<Rightarrow> bytes \<Rightarrow> ('s, unit) eff"
  sRemove :: "bytes \<Rightarrow> ('s, unit) eff"
  sDropAll :: "('s, unit) eff"
  sKeysWithPrefix :: "string \<Rightarrow> ('s, string list) eff"

definition errKeyNotFound :: err where
  "errKeyNotFound = Err ''Key not found''"

definition lookupRes :: "'v option \<Rightarrow> err + 'v" where
  "lookupRes r = (case r of None \<Rightarrow> Inl errKeyNotFound | Some v \<Rightarrow> Inr v)"

lemma lookupRes_simps [simp]:
  "lookupRes None = Inl errKeyNotFound" "lookupRes (Some v) = Inr v"
  by (simp_all add: lookupRes_def)

lemma lookupRes_eq [simp]:
  "lookupRes r = Inr v \<longleftrightarrow> r = Some v" "lookupRes r = Inl e \<longleftrightarrow> r = None \<and> e = errKeyNotFound"
  by (auto simp: lookupRes_def split: option.splits)

locale kv_store =
  fixes S :: "'s storeI"
    and ok :: "'s \<Rightarrow> bool"
    and view :: "'s \<Rightarrow> bytes \<rightharpoonup> bytes"
  assumes get_view: "ok s \<Longrightarrow> sGet S k s = (lookupRes (view s k), s)"
    and set_Inr: "ok s \<Longrightarrow> sSet S k v s = (Inr u, s') \<Longrightarrow> ok s' \<and> view s' = (view s)(k \<mapsto> v)"
    and set_Inl: "ok s \<Longrightarrow> sSet S k v s = (Inl e, s') \<Longrightarrow> ok s' \<and> view s' = view s"
    and remove_Inr:
      "ok s \<Longrightarrow> sRemove S k s = (Inr u, s') \<Longrightarrow> ok s' \<and> view s' = (view s)(k := None)"
    and remove_Inl: "ok s \<Longrightarrow> sRemove S k s = (Inl e, s') \<Longrightarrow> ok s' \<and> view s' = view s"
    and drop_Inr: "ok s \<Longrightarrow> sDropAll S s = (Inr u, s') \<Longrightarrow> ok s' \<and> view s' = Map.empty"
    and keys_Inr: "ok s \<Longrightarrow> sKeysWithPrefix S p s = (Inr ks, s') \<Longrightarrow>
      s' = s \<and> distinct ks \<and> set ks = {k \<in> dom (view s). hasPrefix k p}"
begin

lemma get_after_set:
  assumes "ok s" and "sSet S k v s = (Inr u, s')"
  shows "sGet S k s' = (Inr v, s')"
  using set_Inr [OF assms] get_view [of s' k] by simp

lemma get_other_after_set:
  assumes "ok s" and "sSet S k v s = (r, s')" and "k' \<noteq> k"
  shows "fst (sGet S k' s') = fst (sGet S k' s)"
proof (cases r)
  case (Inl e)
  then show ?thesis
    using set_Inl [of s k v e s'] get_view [of s k'] get_view [of s' k'] assms by simp
next
  case (Inr u)
  then show ?thesis
    using set_Inr [of s k v u s'] get_view [of s k'] get_view [of s' k'] assms by simp
qed

lemma get_after_remove:
  assumes "ok s" and "sRemove S k s = (Inr u, s')"
  shows "sGet S k s' = (Inl errKeyNotFound, s')"
  using remove_Inr [OF assms] get_view [of s' k] by simp

lemma keeps_ok_get: "keeps ok (sGet S k)"
  by (rule keepsI) (simp add: get_view)

lemma keeps_ok_set: "keeps ok (sSet S k v)"
proof (rule keepsI)
  fix w assume w: "ok w"
  obtain r w' where e: "sSet S k v w = (r, w')" by fastforce
  show "ok (snd (sSet S k v w))"
    using set_Inr [OF w, of k v _ w'] set_Inl [OF w, of k v _ w'] e by (cases r) auto
qed

lemma keeps_ok_remove: "keeps ok (sRemove S k)"
proof (rule keepsI)
  fix w assume w: "ok w"
  obtain r w' where e: "sRemove S k w = (r, w')" by fastforce
  show "ok (snd (sRemove S k w))"
    using remove_Inr [OF w, of k _ w'] remove_Inl [OF w, of k _ w'] e by (cases r) auto
qed

end

subsection \<open>store.go over badger\<close>

record 'd badger =
  bOpen :: "string \<Rightarrow> ('d, unit) eff"
  bClose :: "('d, unit) eff"
  txnSet :: "bytes \<Rightarrow> bytes \<Rightarrow> ('d, unit) eff"
  txnDelete :: "bytes \<Rightarrow> ('d, unit) eff"
  txnGet :: "bytes \<Rightarrow> 'd \<Rightarrow> err + bytes"
  iterFrom :: "bytes \<Rightarrow> 'd \<Rightarrow> bytes list"
  bDropAll :: "('d, unit) eff"

record 'd store =
  rootDir :: string
  db :: 'd
  isOpen :: bool

text \<open>What the operating system provides to \<open>Open\<close>.\<close>

record osEnv =
  homeDir :: "err + string"
  mkdirAll :: "string \<Rightarrow> err + unit"

definition badgerFileName :: string where
  "badgerFileName = ''db''"

definition resolvePath :: "osEnv \<Rightarrow> string \<Rightarrow> err + string" where
  "resolvePath os path =
     (case homeDir os of
        Inr home \<Rightarrow> Inr (strReplaceAll path ''~'' home)
      | Inl e \<Rightarrow> Inl e)"

definition store_new :: "string \<Rightarrow> 'd \<Rightarrow> 'd store" where
  "store_new dir d = \<lparr>rootDir = dir, db = d, isOpen = False\<rparr>"

text \<open>Running a badger call on the store's database.\<close>

definition onDb :: "('d, 'a) eff \<Rightarrow> ('d store, 'a) eff" where
  "onDb m s = (let (r, d) = m (db s) in (r, s\<lparr>db := d\<rparr>))"

definition store_Open :: "'d badger \<Rightarrow> osEnv \<Rightarrow> ('d store, unit) eff" where
  "store_Open B os s =
     (if isOpen s then (Inr (), s)
      else case resolvePath os (strJoin [rootDir s, badgerFileName] ''/'') of
        Inl e \<Rightarrow> (Inl e, s)
      | Inr dir \<Rightarrow> (case mkdirAll os dir of
          Inl e \<Rightarrow> (Inl e, s)
        | Inr _ \<Rightarrow> (case bOpen B dir (db s) of
            (Inl e, d) \<Rightarrow> (Inl e, s\<lparr>db := d\<rparr>)
          | (Inr _, d) \<Rightarrow> (Inr (), s\<lparr>db := d, isOpen := True\<rparr>))))"

definition store_Close :: "'d badger \<Rightarrow> ('d store, unit) eff" where
  "store_Close B s =
     (if \<not> isOpen s then (Inr (), s)
      else case bClose B (db s) of
        (Inl e, d) \<Rightarrow> (Inl e, s\<lparr>db := d\<rparr>)
      | (Inr _, d) \<Rightarrow> (Inr (), s\<lparr>db := d, isOpen := False\<rparr>))"

definition store_getDb :: "('d store, unit) eff" where
  "store_getDb s =
     (if \<not> isOpen s then (Inl (Err ''Database has not been opened yet''), s) else (Inr (), s))"

definition store_Set :: "'d badger \<Rightarrow> bytes \<Rightarrow> bytes \<Rightarrow> ('d store, unit) eff" where
  "store_Set B key value = thenE store_getDb (onDb (txnSet B key value))"

definition store_Remove :: "'d badger \<Rightarrow> bytes \<Rightarrow> ('d store, unit) eff" where
  "store_Remove B key = thenE store_getDb (onDb (txnDelete B key))"

definition store_Get :: "'d badger \<Rightarrow> bytes \<Rightarrow> ('d store, bytes) eff" where
  "store_Get B key = thenE store_getDb (\<lambda>s. (txnGet B key (db s), s))"

text \<open>\<open>for it.Seek(prefix); it.ValidForPrefix(prefix); it.Next()\<close>.\<close>

definition store_KeysWithPrefix :: "'d badger \<Rightarrow> string \<Rightarrow> ('d store, string list) eff" where
  "store_KeysWithPrefix B prefix =
     thenE store_getDb
       (getE (\<lambda>s. takeWhile (\<lambda>k. hasPrefix k prefix) (iterFrom B prefix (db s))))"

definition store_DropAll :: "'d badger \<Rightarrow> ('d store, unit) eff" where
  "store_DropAll B = thenE store_getDb (onDb (bDropAll B))"

definition badgerStore :: "'d badger \<Rightarrow> 'd store storeI" where
  "badgerStore B = \<lparr>sGet = store_Get B, sSet = store_Set B, sRemove = store_Remove B,
     sDropAll = store_DropAll B, sKeysWithPrefix = store_KeysWithPrefix B\<rparr>"

subsection \<open>What badger documents\<close>

definition badger_ok :: "'d badger \<Rightarrow> ('d \<Rightarrow> bytes \<rightharpoonup> bytes) \<Rightarrow> bool" where
  "badger_ok B con \<longleftrightarrow>
     (\<forall>k d. txnGet B k d = lookupRes (con d k)) \<and>
     (\<forall>k v d u d'. txnSet B k v d = (Inr u, d') \<longrightarrow> con d' = (con d)(k \<mapsto> v)) \<and>
     (\<forall>k v d e d'. txnSet B k v d = (Inl e, d') \<longrightarrow> con d' = con d) \<and>
     (\<forall>k d u d'. txnDelete B k d = (Inr u, d') \<longrightarrow> con d' = (con d)(k := None)) \<and>
     (\<forall>k d e d'. txnDelete B k d = (Inl e, d') \<longrightarrow> con d' = con d) \<and>
     (\<forall>d u d'. bDropAll B d = (Inr u, d') \<longrightarrow> con d' = Map.empty) \<and>
     (\<forall>p d. sorted (iterFrom B p d) \<and> distinct (iterFrom B p d) \<and>
        set (iterFrom B p d) = {k \<in> dom (con d). p \<le> k})"

lemma badger_ok_simps:
  assumes "badger_ok B con"
  shows "txnGet B k d = lookupRes (con d k)"
    and "txnSet B k v d = (Inr u, d') \<Longrightarrow> con d' = (con d)(k \<mapsto> v)"
    and "txnSet B k v d = (Inl e, d') \<Longrightarrow> con d' = con d"
    and "txnDelete B k d = (Inr u, d') \<Longrightarrow> con d' = (con d)(k := None)"
    and "txnDelete B k d = (Inl e, d') \<Longrightarrow> con d' = con d"
    and "bDropAll B d = (Inr u, d') \<Longrightarrow> con d' = Map.empty"
    and "sorted (iterFrom B p d)"
    and "distinct (iterFrom B p d)"
    and "set (iterFrom B p d) = {k \<in> dom (con d). p \<le> k}"
  using assms unfolding badger_ok_def by simp_all

text \<open>
  The keys with a given prefix are an initial stretch of the keys from the prefix on, in byte
  order: what the iterator loop relies on.
\<close>

lemma hasPrefix_ge: "hasPrefix k p \<Longrightarrow> p \<le> k"
  by (induction k p rule: hasPrefix.induct) auto

lemma hasPrefix_between: "p \<le> j \<Longrightarrow> j \<le> k \<Longrightarrow> hasPrefix k p \<Longrightarrow> hasPrefix j p"
proof (induction j p arbitrary: k rule: hasPrefix.induct)
  case (3 c s p ps)
  then show ?case by (cases k) (auto split: if_splits)
qed auto

lemma takeWhile_sorted_prefix:
  assumes "sorted xs" and "\<forall>x \<in> set xs. p \<le> x"
  shows "takeWhile (\<lambda>k. hasPrefix k p) xs = filter (\<lambda>k. hasPrefix k p) xs"
  using assms
proof (induction xs)
  case (Cons x xs)
  show ?case
  proof (cases "hasPrefix x p")
    case False
    have "\<not> hasPrefix y p" if "y \<in> set xs" for y
      using that False Cons.prems hasPrefix_between [of p x y] by auto
    with False show ?thesis by (auto simp: filter_empty_conv)
  qed (use Cons in auto)
qed simp

lemma keysWithPrefix_eq:
  assumes "badger_ok B con"
  shows "takeWhile (\<lambda>k. hasPrefix k p) (iterFrom B p d) =
    filter (\<lambda>k. hasPrefix k p) (iterFrom B p d)"
  using badger_ok_simps(7,9) [OF assms] by (intro takeWhile_sorted_prefix) auto

lemma set_keysWithPrefix:
  assumes "badger_ok B con"
  shows "set (takeWhile (\<lambda>k. hasPrefix k p) (iterFrom B p d)) = {k \<in> dom (con d). hasPrefix k p}"
  using badger_ok_simps(9) [OF assms] hasPrefix_ge by (auto simp: keysWithPrefix_eq [OF assms])

lemma distinct_keysWithPrefix:
  "badger_ok B con \<Longrightarrow> distinct (takeWhile (\<lambda>k. hasPrefix k p) (iterFrom B p d))"
  by (simp add: distinct_takeWhile badger_ok_simps(8))

lemmas store_defs = store_Set_def store_Get_def store_Remove_def store_DropAll_def
  store_KeysWithPrefix_def store_getDb_def onDb_def

interpretation badger_store: kv_store "badgerStore B"
    "\<lambda>s. isOpen s \<and> badger_ok B con" "\<lambda>s. con (db s)" for B con
proof (unfold_locales, goal_cases)
  case (1 s k)
  then show ?case by (simp add: badgerStore_def store_defs thenE_apply badger_ok_simps(1))
next
  case (2 s k v u s')
  then show ?case
    by (auto simp: badgerStore_def store_defs thenE_apply badger_ok_simps(2) split: prod.splits)
next
  case (3 s k v e s')
  then show ?case
    by (auto simp: badgerStore_def store_defs thenE_apply badger_ok_simps(3) split: prod.splits)
next
  case (4 s k u s')
  then show ?case
    by (auto simp: badgerStore_def store_defs thenE_apply badger_ok_simps(4) split: prod.splits)
next
  case (5 s k e s')
  then show ?case
    by (auto simp: badgerStore_def store_defs thenE_apply badger_ok_simps(5) split: prod.splits)
next
  case (6 s u s')
  then show ?case
    by (auto simp: badgerStore_def store_defs thenE_apply badger_ok_simps(6) split: prod.splits)
next
  case (7 s p ks s')
  then show ?case
    by (auto simp: badgerStore_def store_defs thenE_apply set_keysWithPrefix
        distinct_keysWithPrefix)
qed

text \<open>A concrete database, to show that the documented behaviour can be met.\<close>

definition listBadger :: "(bytes \<times> bytes) list badger" where
  "listBadger = \<lparr>
     bOpen = (\<lambda>dir d. (Inr (), d)),
     bClose = (\<lambda>d. (Inr (), d)),
     txnSet = (\<lambda>k v d. (Inr (), (k, v) # d)),
     txnDelete = (\<lambda>k d. (Inr (), filter (\<lambda>e. fst e \<noteq> k) d)),
     txnGet = (\<lambda>k d. lookupRes (map_of d k)),
     iterFrom = (\<lambda>p d. sort (filter (\<lambda>k. p \<le> k) (remdups (map fst d)))),
     bDropAll = (\<lambda>d. (Inr (), []))\<rparr>"

lemma map_of_filter_key: "map_of (filter (\<lambda>e. fst e \<noteq> k) d) = (map_of d)(k := None)"
  by (induction d) auto

lemma listBadger_ok: "badger_ok listBadger map_of"
  by (auto simp: badger_ok_def listBadger_def map_of_filter_key dom_map_of_conv_image_fst)

subsection \<open>Properties\<close>

lemma set_was_open: "store_Set B k v s = (Inr u, s') \<Longrightarrow> isOpen s"
  by (auto simp: store_Set_def store_getDb_def thenE_apply split: if_splits)

text \<open>
  After a successful \<open>Set\<close> the value is read back under its key, and every other key reads as
  before, whatever the path of the store.
\<close>

theorem store_get_after_set:
  assumes "badger_ok B con" "store_Set B k v s = (Inr u, s')"
  shows "store_Get B k' s' = (if k' = k then Inr v else fst (store_Get B k' s), s')"
proof -
  have o: "isOpen s \<and> badger_ok B con" using assms set_was_open by blast
  have m: "sSet (badgerStore B) k v s = (Inr u, s')" "sGet (badgerStore B) = store_Get B"
    using assms(2) by (simp_all add: badgerStore_def)
  have "fst (store_Get B k' s') = (if k' = k then Inr v else fst (store_Get B k' s))"
    using badger_store.get_after_set [OF o m(1)] badger_store.get_other_after_set [OF o m(1), of k']
    by (simp add: m(2))
  moreover have "snd (store_Get B k' s') = s'"
    by (simp add: store_Get_def store_getDb_def thenE_apply)
  ultimately show ?thesis by (simp add: prod_eq_iff)
qed

theorem store_get_after_set_witness:
  "\<exists>s'. store_Set listBadger ''a'' ''1'' \<lparr>rootDir = ''/'', db = [], isOpen = True\<rparr> = (Inr (), s') \<and>
     store_Get listBadger ''a'' s' = (Inr ''1'', s')"
proof -
  obtain s' where s: "store_Set listBadger ''a'' ''1'' \<lparr>rootDir = ''/'', db = [], isOpen = True\<rparr> = (Inr (), s')"
    by (simp add: store_defs thenE_apply listBadger_def)
  show ?thesis using s store_get_after_set [OF listBadger_ok s, of "''a''"] by simp
qed

text \<open>
  C35. The iteration that starts at the prefix and stops at the first key without it finds every
  key with the prefix, once, in byte order, and no other.
\<close>

theorem store_keys_with_prefix:
  assumes "badger_ok B con" "isOpen s"
  shows "\<exists>ks. store_KeysWithPrefix B p s = (Inr ks, s) \<and> sorted ks \<and> distinct ks \<and>
    set ks = {k \<in> dom (con (db s)). hasPrefix k p}"
proof -
  let ?ks = "takeWhile (\<lambda>k. hasPrefix k p) (iterFrom B p (db s))"
  have "store_KeysWithPrefix B p s = (Inr ?ks, s)"
    using assms(2) by (simp add: store_defs thenE_apply)
  moreover have "sorted ?ks"
    using badger_ok_simps(7) [OF assms(1)] by (simp add: sorted_wrt_takeWhile)
  ultimately show ?thesis
    using set_keysWithPrefix [OF assms(1)] distinct_keysWithPrefix [OF assms(1)] by blast
qed

definition abcStore :: "(bytes \<times> bytes) list store" where
  "abcStore = \<lparr>rootDir = ''/'', db = [(''c'', []), (''b2'', []), (''a'', []), (''b'', [])], isOpen = True\<rparr>"

theorem store_keys_with_prefix_witness:
  "\<exists>ks. store_KeysWithPrefix listBadger ''b'' abcStore = (Inr ks, abcStore) \<and> set ks = {''b'', ''b2''}"
proof -
  have o: "isOpen abcStore" by (simp add: abcStore_def)
  have "{k \<in> dom (map_of (db abcStore)). hasPrefix k ''b''} = {''b'', ''b2''}"
    by (auto simp: abcStore_def dom_map_of_conv_image_fst)
  then have e: "{k \<in> dom (map_of (db abcStore)). hasPrefix k ''b''} = {''b'', ''b2''}" .
  from store_keys_with_prefix [OF listBadger_ok o, of "''b''"]
  obtain ks where "store_KeysWithPrefix listBadger ''b'' abcStore = (Inr ks, abcStore)"
    "set ks = {k \<in> dom (map_of (db abcStore)). hasPrefix k ''b''}"
    by (elim exE conjE)
  then show ?thesis unfolding e by (intro exI conjI)
qed

end
