(* ===== verification/SecureBucket.thy ===== *)
theory SecureBucket
  imports BucketCrypto Bucket Store
begin

text \<open>
  The encrypting buckets client: \<open>core/textile/secure_bucket_client.go\<close>.

  Below it are the textile client, the IPFS node and the HTTP download of a content identifier:
  the record \<open>secDeps\<close>.  The three pullers of \<open>racePullFile\<close> run concurrently and the first to
  succeed wins; here the order in which they finish is an argument, so a statement for every order
  is a statement about every race that ends.  Its channels and mutex are not modelled: in the code a second
  puller that succeeds before the others are cancelled can block on its send while it holds the mutex,
  and the race then never returns.

  The locale \<open>buckets_client\<close> is what a bucket relies on; the client of this file satisfies it over
  any textile client that stores what it is given.
\<close>

subsection \<open>The contract of a buckets client\<close>

text \<open>
  For one context: what a client holds is a map from bucket key and path, where paths with the
  same normal form \<open>np\<close> are the same path.  A push writes one entry; what it does to paths above
  and below it, where a file takes the place of a directory or the other way round, is left open.
  Removing a path removes everything below it.
\<close>

definition written ::
  "bytes \<Rightarrow> bytes \<Rightarrow> bytes \<Rightarrow> (bytes \<times> bytes \<rightharpoonup> bytes) \<Rightarrow> (bytes \<times> bytes \<rightharpoonup> bytes) \<Rightarrow> bool" where
  "written k p x v v' \<longleftrightarrow> v' (k, p) = Some x \<and>
     (\<forall>k' q. k' = k \<and> (under p q \<or> under q p) \<or> v' (k', q) = v (k', q))"

definition cleared :: "bytes \<Rightarrow> bytes \<Rightarrow> (bytes \<times> bytes \<rightharpoonup> bytes) \<Rightarrow> (bytes \<times> bytes \<rightharpoonup> bytes)" where
  "cleared k p v = (\<lambda>(k', q). if k' = k \<and> under p q then None else v (k', q))"

lemma written_update [simp]: "written k p x v (v((k, p) \<mapsto> x))"
  by (auto simp: written_def under_def)

locale buckets_client =
  fixes C :: "'w bclient"
    and cx :: ctx
    and np :: "bytes \<Rightarrow> bytes"
    and ok :: "'w \<Rightarrow> bool"
    and view :: "'w \<Rightarrow> bytes \<times> bytes \<rightharpoonup> bytes"
  assumes push_Inr: "ok w \<Longrightarrow> cPushPath C cx k p x w = (Inr r, w') \<Longrightarrow>
      ok w' \<and> written k (np p) x (view w) (view w')"
    and push_Inl: "ok w \<Longrightarrow> cPushPath C cx k p x w = (Inl e, w') \<Longrightarrow> ok w' \<and> view w' = view w"
    and pull_Inr: "ok w \<Longrightarrow> cPullPath C cx k p w = (Inr (y, m), w') \<Longrightarrow>
      ok w' \<and> view w' = view w \<and> (\<forall>x. view w (k, np p) = Some x \<longrightarrow> m = None \<longrightarrow> y = x)"
    and remove_Inr: "ok w \<Longrightarrow> cRemovePath C cx k p w = (Inr q, w') \<Longrightarrow>
      ok w' \<and> (pathElems p \<noteq> [] \<longrightarrow> view w' = cleared k p (view w))"
    and remove_Inl: "ok w \<Longrightarrow> cRemovePath C cx k p w = (Inl e, w') \<Longrightarrow> ok w' \<and> view w' = view w"
begin

text \<open>A bucket whose context is the fixed one.\<close>

definition over :: "'w bucket \<Rightarrow> bool" where
  "over b \<longleftrightarrow> bClient b = C \<and> bNotifier b = None \<and> (\<forall>n w. \<exists>t. bGetContext b n w = (Inr (cx, t), w))"

lemma getContext_over: "over b \<Longrightarrow> \<exists>t. GetContext b w = (Inr (cx, t), w)"
  by (simp add: over_def GetContext_def)

lemma upload_download:
  assumes "over b" "ok w" "UploadFile b p x w = (Inr r, w1)"
    and "GetFile b q w1 = (Inr (y, None), w2)" "np q = np p"
  shows "y = x"
proof -
  obtain t where t: "GetContext b w = (Inr (cx, t), w)" using getContext_over [OF assms(1)] by blast
  obtain t' where t': "GetContext b w1 = (Inr (cx, t'), w1)"
    using getContext_over [OF assms(1)] by blast
  have "cPushPath C cx (bucket_Key b) p x w = (Inr r, w1)"
    using assms(1,3) t by (auto simp: UploadFile_def bindE_apply over_def split: prod.splits sum.splits)
  then have w1: "ok w1" "view w1 (bucket_Key b, np p) = Some x"
    using push_Inr [OF assms(2)] unfolding written_def by blast+
  have "cPullPath C cx (bucket_Key b) q w1 = (Inr (y, None), w2)"
    using assms(1,4) t' by (auto simp: GetFile_def bindE_apply tryE_apply over_def)
  then show "y = x" using pull_Inr [OF w1(1)] w1(2) assms(5) by auto
qed

lemma upload_view:
  assumes "over b" "ok w" "UploadFile b p x w = (r, w1)"
  shows "ok w1 \<and>
    (case r of Inl _ \<Rightarrow> view w1 = view w | Inr _ \<Rightarrow> written (bucket_Key b) (np p) x (view w) (view w1))"
proof -
  obtain t where t: "GetContext b w = (Inr (cx, t), w)" using getContext_over [OF assms(1)] by blast
  then have "cPushPath C cx (bucket_Key b) p x w = (r, w1)"
    using assms(1,3) by (auto simp: UploadFile_def bindE_apply over_def split: prod.splits sum.splits)
  then show ?thesis using push_Inr [OF assms(2)] push_Inl [OF assms(2)] by (cases r) auto
qed

lemma delete_view:
  assumes "over b" "ok w" "DeleteDirOrFile b p w = (r, w1)" "pathElems p \<noteq> []"
  shows "ok w1 \<and> view w1 =
    (case r of Inl _ \<Rightarrow> view w | Inr _ \<Rightarrow> cleared (bucket_Key b) p (view w))"
proof -
  obtain t where t: "GetContext b w = (Inr (cx, t), w)" using getContext_over [OF assms(1)] by blast
  then have "cRemovePath C cx (bucket_Key b) p w = (r, w1)"
    using assms(1,3) by (simp add: DeleteDirOrFile_def bindE_apply over_def)
  then show ?thesis using remove_Inr [OF assms(2)] remove_Inl [OF assms(2)] assms(4) by (cases r) auto
qed

end

subsection \<open>The client\<close>

record 'w secDeps =
  sdClient :: "'w bclient"
  sdPullRoles :: "ctx \<Rightarrow> bytes \<Rightarrow> bytes \<Rightarrow> ('w, (bytes \<times> bytes) list) eff"
  sdStore :: "'w storeI"
  sdIpfsAdd :: "bytes \<Rightarrow> ('w, bytes) eff"
  sdIpfsGet :: "bytes \<Rightarrow> ('w, bytes option) eff"
  sdDownload :: "bytes \<Rightarrow> bytes \<Rightarrow> ('w, bytes) eff"
  sdCidFromBytes :: "bytes \<Rightarrow> err + bytes"
  sdCidDecode :: "bytes \<Rightarrow> err + bytes"
  sdDialArgs :: "bytes \<Rightarrow> err + bytes"
  sdIpfsAddr :: bytes
  sdIsRemote :: bool
  sdPrims :: prims

definition cleanBucketPath :: "bytes \<Rightarrow> bytes" where
  "cleanBucketPath path = trimPrefix path ''/''"

definition getBucketEncryptionKey :: "ctx \<Rightarrow> ('w, bytes) eff" where
  "getBucketEncryptionKey c =
     (case BucketEncryptionKeyFromContext c of
        Some key \<Rightarrow> retE key
      | None \<Rightarrow> failE (Err ''bucket encryption key missing''))"

definition encryptPathData ::
  "'w secDeps \<Rightarrow> bytes \<Rightarrow> bytes \<Rightarrow> bytes option \<Rightarrow> ('w, bytes \<times> bytes option) eff" where
  "encryptPathData D key path r = liftE (EncryptPathItems (sdPrims D) key path r)"

definition decryptPathData ::
  "'w secDeps \<Rightarrow> bytes \<Rightarrow> bytes \<Rightarrow> bytes option \<Rightarrow> ('w, bytes \<times> bytes option) eff" where
  "decryptPathData D key path r = liftE (DecryptPathItems (sdPrims D) key path r)"

definition orEmpty :: "bytes option \<Rightarrow> bytes" where
  "orEmpty r = (case r of None \<Rightarrow> [] | Some x \<Rightarrow> x)"

lemma orEmpty_Some [simp]: "orEmpty (Some x) = x"
  by (simp add: orEmpty_def)

definition secPushPath ::
  "'w secDeps \<Rightarrow> ctx \<Rightarrow> bytes \<Rightarrow> bytes \<Rightarrow> bytes \<Rightarrow> ('w, bytes \<times> bytes) eff" where
  "secPushPath D c key path content =
     bindE (getBucketEncryptionKey c) (\<lambda>ek.
     bindE (encryptPathData D ek (cleanBucketPath path) (Some content)) (\<lambda>(ep, er).
       cPushPath (sdClient D) c key ep (orEmpty er)))"

definition secPushPathAccessRoles ::
  "'w secDeps \<Rightarrow> ctx \<Rightarrow> bytes \<Rightarrow> bytes \<Rightarrow> (bytes \<times> bytes) list \<Rightarrow> ('w, unit) eff" where
  "secPushPathAccessRoles D c key path roles =
     bindE (getBucketEncryptionKey c) (\<lambda>ek.
     bindE (encryptPathData D ek path None) (\<lambda>(ep, _).
       cPushPathAccessRoles (sdClient D) c key ep roles))"

definition secPullPathAccessRoles ::
  "'w secDeps \<Rightarrow> ctx \<Rightarrow> bytes \<Rightarrow> bytes \<Rightarrow> ('w, (bytes \<times> bytes) list) eff" where
  "secPullPathAccessRoles D c key path =
     bindE (getBucketEncryptionKey c) (\<lambda>ek.
     bindE (encryptPathData D ek path None) (\<lambda>(ep, _). sdPullRoles D c key ep))"

definition secRemovePath :: "'w secDeps \<Rightarrow> ctx \<Rightarrow> bytes \<Rightarrow> bytes \<Rightarrow> ('w, bytes) eff" where
  "secRemovePath D c key path =
     bindE (getBucketEncryptionKey c) (\<lambda>ek.
     bindE (encryptPathData D ek (cleanBucketPath path) None) (\<lambda>(ep, _).
       cRemovePath (sdClient D) c key ep))"

subsection \<open>Pulling a file\<close>

definition FileCachePrefix :: bytes where
  "FileCachePrefix = ''file_cache''"

definition getFileCacheKey :: "bytes \<Rightarrow> bytes" where
  "getFileCacheKey encCid = FileCachePrefix @ '':'' @ encCid"

definition pullFileFromClient ::
  "'w secDeps \<Rightarrow> ctx \<Rightarrow> bytes \<Rightarrow> bytes \<Rightarrow> ('w, bool \<times> bytes) eff" where
  "pullFileFromClient D c key ep =
     bindE (cPullPath (sdClient D) c key ep) (\<lambda>(y, e).
       case e of Some m \<Rightarrow> failE (Err m) | None \<Rightarrow> retE (sdIsRemote D, y))"

definition pullFileFromLocal ::
  "'w secDeps \<Rightarrow> ctx \<Rightarrow> bytes \<Rightarrow> bytes \<Rightarrow> ('w, bool \<times> bytes) eff" where
  "pullFileFromLocal D c key ep =
     bindE (cListPath (sdClient D) c key ep) (\<lambda>bp.
     bindE (tryE (sGet (sdStore D) (getFileCacheKey (piCid (dlItem bp))))) (\<lambda>r.
       case r of
         Inl _ \<Rightarrow> failE (Err ''CID not stored in local cache'')
       | Inr cidBinary \<Rightarrow>
           bindE (liftE (sdCidFromBytes D cidBinary)) (\<lambda>cid.
           bindE (sdIpfsGet D cid) (\<lambda>node.
             case node of
               None \<Rightarrow> failE (Err ''File is a directory'')
             | Some file \<Rightarrow> retE (False, file)))))"

definition pullFileFromDHT ::
  "'w secDeps \<Rightarrow> ctx \<Rightarrow> bytes \<Rightarrow> bytes \<Rightarrow> ('w, bool \<times> bytes) eff" where
  "pullFileFromDHT D c key ep =
     bindE (cListPath (sdClient D) c key ep) (\<lambda>bp.
     bindE (liftE (sdCidDecode D (piCid (dlItem bp)))) (\<lambda>cid.
     bindE (liftE (sdDialArgs D (sdIpfsAddr D))) (\<lambda>host.
     bindE (sdDownload D host cid) (\<lambda>y. retE (False, y)))))"

datatype puller = FromLocal | FromDHT | FromClient

definition runPuller ::
  "'w secDeps \<Rightarrow> puller \<Rightarrow> ctx \<Rightarrow> bytes \<Rightarrow> bytes \<Rightarrow> ('w, bool \<times> bytes) eff" where
  "runPuller D pl = (case pl of
      FromLocal \<Rightarrow> pullFileFromLocal D | FromDHT \<Rightarrow> pullFileFromDHT D
    | FromClient \<Rightarrow> pullFileFromClient D)"

text \<open>The pullers in the order they finish: the first success, or the last error.\<close>

fun firstPull ::
  "'w secDeps \<Rightarrow> puller list \<Rightarrow> err \<Rightarrow> ctx \<Rightarrow> bytes \<Rightarrow> bytes \<Rightarrow> ('w, bool \<times> bytes) eff" where
  "firstPull D [] e c key ep = failE e"
| "firstPull D (pl # pls) e c key ep =
     bindE (tryE (runPuller D pl c key ep)) (\<lambda>r.
       case r of Inl m \<Rightarrow> firstPull D pls (Err m) c key ep | Inr res \<Rightarrow> retE res)"

definition cachePulled ::
  "'w secDeps \<Rightarrow> ctx \<Rightarrow> bytes \<Rightarrow> bytes \<Rightarrow> bytes \<Rightarrow> ('w, unit) eff" where
  "cachePulled D c key ep content =
     bindE (sdIpfsAdd D content) (\<lambda>cidBinary.
     bindE (cListPath (sdClient D) c key ep) (\<lambda>bp.
       sSet (sdStore D) (getFileCacheKey (piCid (dlItem bp))) cidBinary))"

definition racePullFile ::
  "'w secDeps \<Rightarrow> puller list \<Rightarrow> ctx \<Rightarrow> bytes \<Rightarrow> bytes \<Rightarrow> ('w, bytes) eff" where
  "racePullFile D order c key ep =
     bindE (firstPull D order (Err []) c key ep) (\<lambda>(shouldCache, content).
     thenE (whenE shouldCache (cachePulled D c key ep content)) (retE content))"

text \<open>
  \<open>PullPath\<close> returns the first error its two goroutines send.  When the race fails it sends before
  it closes the pipe, so its error comes first; otherwise the decryption has all the data.
\<close>

definition secPullPath ::
  "'w secDeps \<Rightarrow> puller list \<Rightarrow> ctx \<Rightarrow> bytes \<Rightarrow> bytes \<Rightarrow> ('w, bytes \<times> string option) eff" where
  "secPullPath D order c key path =
     bindE (tryE (bindE (getBucketEncryptionKey c) (\<lambda>ek.
       bindE (encryptPathData D ek path None) (\<lambda>(ep, _).
       bindE (racePullFile D order c key ep) (\<lambda>content.
       bindE (decryptPathData D ek [] (Some content)) (\<lambda>(_, r). retE (orEmpty r)))))))
     (\<lambda>res. case res of Inl m \<Rightarrow> retE ([], Some m) | Inr y \<Rightarrow> retE (y, None))"

subsection \<open>Listing\<close>

text \<open>
  The regular expression \<open>/ip[f|n]s/[^/]*(?P<relPath>/.*)\<close>: the leftmost match's group.
\<close>

definition ipnsPrefix :: "bytes \<Rightarrow> bytes option" where
  "ipnsPrefix s =
     (if hasPrefix s ''/ipfs/'' \<or> hasPrefix s ''/ip|s/'' \<or> hasPrefix s ''/ipns/''
      then Some (drop 6 s) else None)"

fun textileRelPath :: "bytes \<Rightarrow> bytes option" where
  "textileRelPath [] = None"
| "textileRelPath (c # cs) =
     (case ipnsPrefix (c # cs) of
        None \<Rightarrow> textileRelPath cs
      | Some t \<Rightarrow>
          (let rel = dropWhile (\<lambda>x. x \<noteq> CHR ''/'') t in
           if rel = [] then textileRelPath cs
           else Some (takeWhile (\<lambda>x. x \<noteq> CHR 0x0A) rel)))"

text \<open>
  The assignments \<open>item.Name, _, err = \<dots>\<close> and \<open>item.Path, _, err = \<dots>\<close> overwrite the field with
  the empty string when they fail.  The error itself is only logged.
\<close>

definition overwriteDecryptedItem :: "'w secDeps \<Rightarrow> ctx \<Rightarrow> pathItem \<Rightarrow> pathItem" where
  "overwriteDecryptedItem D c it =
     (case BucketEncryptionKeyFromContext c of
        None \<Rightarrow> it
      | Some ek \<Rightarrow>
          if IsMetaFileName (piName it) then it
          else (case DecryptPathItems (sdPrims D) ek (piName it) None of
                  Inl _ \<Rightarrow> it\<lparr>piName := []\<rparr>
                | Inr (nm, _) \<Rightarrow>
                    (let it1 = it\<lparr>piName := nm\<rparr>;
                         sized = (\<lambda>i. if 64 \<le> piSize i then i\<lparr>piSize := piSize i - 64\<rparr> else i) in
                     case textileRelPath (piPath it) of
                       None \<Rightarrow> sized it1
                     | Some rel \<Rightarrow>
                         (case DecryptPathItems (sdPrims D) ek rel None of
                            Inl _ \<Rightarrow> it1\<lparr>piPath := []\<rparr>
                          | Inr (pth, _) \<Rightarrow> sized (it1\<lparr>piPath := pth\<rparr>)))))"

definition secListPath :: "'w secDeps \<Rightarrow> ctx \<Rightarrow> bytes \<Rightarrow> bytes \<Rightarrow> ('w, dirEntries) eff" where
  "secListPath D c key path =
     bindE (getBucketEncryptionKey c) (\<lambda>ek.
     bindE (encryptPathData D ek (cleanBucketPath path) None) (\<lambda>(ep, _).
     bindE (cListPath (sdClient D) c key ep) (\<lambda>res.
       retE (res\<lparr>dlItem := overwriteDecryptedItem D c (dlItem res),
                 dlItems := map (overwriteDecryptedItem D c) (dlItems res)\<rparr>))))"

definition secListIpfsPath :: "'w secDeps \<Rightarrow> ctx \<Rightarrow> bytes \<Rightarrow> ('w, dirEntries) eff" where
  "secListIpfsPath D c pth = cListIpfsPath (sdClient D) c pth"

definition secureClient :: "'w secDeps \<Rightarrow> puller list \<Rightarrow> 'w bclient" where
  "secureClient D order =
     \<lparr> cPushPath = secPushPath D, cPullPath = secPullPath D order, cListPath = secListPath D,
       cRemovePath = secRemovePath D, cListIpfsPath = secListIpfsPath D,
       cPushPathAccessRoles = secPushPathAccessRoles D \<rparr>"


subsection \<open>The client keeps the contract\<close>

text \<open>
  What the layers below document, for one context: the textile client stores what it is pushed
  and lists an item under a content identifier of its content (\<open>content\<close> is the relation of IPFS
  between identifiers and contents); pulling, adding to IPFS and downloading by identifier
  deliver that content; the key-value store is a \<open>kv_store\<close> apart from the buckets.
\<close>

definition quiet ::
  "('w \<Rightarrow> bool) \<Rightarrow> ('w \<Rightarrow> bytes \<times> bytes \<rightharpoonup> bytes) \<Rightarrow> ('w \<Rightarrow> bytes \<rightharpoonup> bytes) \<Rightarrow>
   ('w \<Rightarrow> 'a \<Rightarrow> bool) \<Rightarrow> ('w, 'a) eff \<Rightarrow> bool" where
  "quiet ok view kview Q m \<longleftrightarrow>
     (\<forall>w r w'. ok w \<longrightarrow> m w = (r, w') \<longrightarrow>
        ok w' \<and> kview w' = kview w \<and> view w' = view w \<and> (\<forall>x. r = Inr x \<longrightarrow> Q w x))"

text \<open>An operation that changes the contents when it succeeds, and only them.\<close>

definition changes ::
  "('w \<Rightarrow> bool) \<Rightarrow> ('w \<Rightarrow> bytes \<times> bytes \<rightharpoonup> bytes) \<Rightarrow> ('w \<Rightarrow> bytes \<rightharpoonup> bytes) \<Rightarrow>
   ((bytes \<times> bytes \<rightharpoonup> bytes) \<Rightarrow> (bytes \<times> bytes \<rightharpoonup> bytes) \<Rightarrow> bool) \<Rightarrow> ('w, 'a) eff \<Rightarrow> bool" where
  "changes ok view kview R m \<longleftrightarrow>
     (\<forall>w r w'. ok w \<longrightarrow> m w = (r, w') \<longrightarrow>
        ok w' \<and> kview w' = kview w \<and>
        (case r of Inl _ \<Rightarrow> view w' = view w | Inr _ \<Rightarrow> R (view w) (view w')))"

definition setQuiet ::
  "('w \<Rightarrow> bool) \<Rightarrow> ('w \<Rightarrow> bytes \<times> bytes \<rightharpoonup> bytes) \<Rightarrow> 'w storeI \<Rightarrow> bool" where
  "setQuiet ok view S \<longleftrightarrow>
     (\<forall>w k v r w'. ok w \<longrightarrow> sSet S k v w = (r, w') \<longrightarrow> view w' = view w)"

definition sec_ok ::
  "'w secDeps \<Rightarrow> ctx \<Rightarrow> ('w \<Rightarrow> bool) \<Rightarrow> ('w \<Rightarrow> bytes \<times> bytes \<rightharpoonup> bytes) \<Rightarrow> ('w \<Rightarrow> bytes \<rightharpoonup> bytes) \<Rightarrow>
   (bytes \<rightharpoonup> bytes) \<Rightarrow> bool" where
  "sec_ok D c ok view kview content \<longleftrightarrow>
     prims_ok (sdPrims D) \<and> kv_store (sdStore D) ok kview \<and> setQuiet ok view (sdStore D) \<and>
     (\<forall>k p x. changes ok view kview (written k p x) (cPushPath (sdClient D) c k p x)) \<and>
     (\<forall>k p. changes ok view kview (\<lambda>v v'. pathElems p \<noteq> [] \<longrightarrow> v' = cleared k p v) (cRemovePath (sdClient D) c k p)) \<and>
     (\<forall>k p. quiet ok view kview (\<lambda>w (y, e). e = None \<longrightarrow> view w (k, p) = Some y)
        (cPullPath (sdClient D) c k p)) \<and>
     (\<forall>k p. quiet ok view kview (\<lambda>w d. view w (k, p) = content (piCid (dlItem d)))
        (cListPath (sdClient D) c k p)) \<and>
     (\<forall>x. quiet ok view kview (\<lambda>w b. \<exists>s. sdCidFromBytes D b = Inr s \<and> content s = Some x)
        (sdIpfsAdd D x)) \<and>
     (\<forall>s. quiet ok view kview (\<lambda>w r. \<forall>y. r = Some y \<longrightarrow> content s = Some y) (sdIpfsGet D s)) \<and>
     (\<forall>h e s. sdCidDecode D e = Inr s \<longrightarrow>
        quiet ok view kview (\<lambda>w y. content e = Some y) (sdDownload D h s))"

text \<open>What the file cache holds for an identifier is an identifier of the same content.\<close>

definition cacheOk :: "'w secDeps \<Rightarrow> ('w \<Rightarrow> bytes \<rightharpoonup> bytes) \<Rightarrow> (bytes \<rightharpoonup> bytes) \<Rightarrow> 'w \<Rightarrow> bool" where
  "cacheOk D kview content w \<longleftrightarrow>
     (\<forall>e b s. kview w (getFileCacheKey e) = Some b \<longrightarrow> sdCidFromBytes D b = Inr s \<longrightarrow>
        content s = content e)"

definition secView ::
  "prims \<Rightarrow> bytes \<Rightarrow> ('w \<Rightarrow> bytes \<times> bytes \<rightharpoonup> bytes) \<Rightarrow> 'w \<Rightarrow> bytes \<times> bytes \<rightharpoonup> bytes" where
  "secView p ek view w =
     (\<lambda>(k, path). if normPath path \<noteq> path then None
      else case view w (k, encPathK p ek path) of
        None \<Rightarrow> None
      | Some ct \<Rightarrow> (case DecryptPathItems p ek [] (Some ct) of
            Inr (_, Some x) \<Rightarrow> Some x | _ \<Rightarrow> None))"


lemma normPath_clean [simp]: "normPath (cleanBucketPath p) = normPath p"
proof (cases "hasPrefix p ''/''")
  case True
  then obtain r where p: "p = CHR ''/'' # r" by (auto simp: hasPrefix_iff)
  then have "strSplit p ''/'' = [] # strSplit r ''/''"
    using strSplit_char_cons [of "CHR ''/''" "[]" r] by simp
  then show ?thesis
    using p by (simp add: cleanBucketPath_def trimPrefix_def normPath_def pathElems_def endsSlash_def)
qed (simp add: cleanBucketPath_def trimPrefix_def)

lemma clean_elems [simp]: "pathElems (cleanBucketPath p) = pathElems p"
  using normPath_clean [of p] normPath_eq_iff by blast

lemma sec_okD:
  assumes "sec_ok D c ok view kview content"
  shows "prims_ok (sdPrims D)" "kv_store (sdStore D) ok kview" "setQuiet ok view (sdStore D)"
    and "changes ok view kview (written k p x) (cPushPath (sdClient D) c k p x)"
    and "changes ok view kview (\<lambda>v v'. pathElems p \<noteq> [] \<longrightarrow> v' = cleared k p v) (cRemovePath (sdClient D) c k p)"
    and "quiet ok view kview (\<lambda>w (y, e). e = None \<longrightarrow> view w (k, p) = Some y)
        (cPullPath (sdClient D) c k p)"
    and "quiet ok view kview (\<lambda>w d. view w (k, p) = content (piCid (dlItem d)))
        (cListPath (sdClient D) c k p)"
    and "quiet ok view kview (\<lambda>w b. \<exists>s. sdCidFromBytes D b = Inr s \<and> content s = Some x)
        (sdIpfsAdd D x)"
    and "quiet ok view kview (\<lambda>w r. \<forall>y. r = Some y \<longrightarrow> content s = Some y) (sdIpfsGet D s)"
    and "sdCidDecode D e = Inr s \<Longrightarrow>
        quiet ok view kview (\<lambda>w y. content e = Some y) (sdDownload D h s)"
  using assms by (simp_all add: sec_ok_def)

text \<open>The state a pull leaves: the same contents, and a cache that is still right.\<close>

definition secInv ::
  "'w secDeps \<Rightarrow> ('w \<Rightarrow> bool) \<Rightarrow> ('w \<Rightarrow> bytes \<times> bytes \<rightharpoonup> bytes) \<Rightarrow> ('w \<Rightarrow> bytes \<rightharpoonup> bytes) \<Rightarrow>
   (bytes \<rightharpoonup> bytes) \<Rightarrow> (bytes \<times> bytes \<rightharpoonup> bytes) \<Rightarrow> 'w \<Rightarrow> bool" where
  "secInv D ok view kview content v w \<longleftrightarrow> ok w \<and> cacheOk D kview content w \<and> view w = v"

lemma cacheOk_cong: "kview w' = kview w \<Longrightarrow> cacheOk D kview content w' = cacheOk D kview content w"
  by (simp add: cacheOk_def)

lemma getFileCacheKey_inj [simp]: "getFileCacheKey a = getFileCacheKey b \<longleftrightarrow> a = b"
  by (simp add: getFileCacheKey_def)

text \<open>
  A computation over the layers below that leaves contents and cache right, and whose results
  satisfy \<open>Q\<close>.
\<close>

definition sound ::
  "('w \<Rightarrow> bool) \<Rightarrow> ('a \<Rightarrow> bool) \<Rightarrow> ('w, 'a) eff \<Rightarrow> bool" where
  "sound P Q m \<longleftrightarrow> (\<forall>w. P w \<longrightarrow> P (snd (m w)) \<and> (\<forall>x. fst (m w) = Inr x \<longrightarrow> Q x))"

lemma soundI:
  "(\<And>w r w'. P w \<Longrightarrow> m w = (r, w') \<Longrightarrow> P w' \<and> (\<forall>x. r = Inr x \<longrightarrow> Q x)) \<Longrightarrow> sound P Q m"
  unfolding sound_def by (metis prod.collapse)

lemma soundD: "sound P Q m \<Longrightarrow> P w \<Longrightarrow> m w = (r, w') \<Longrightarrow> P w' \<and> (\<forall>x. r = Inr x \<longrightarrow> Q x)"
  unfolding sound_def by (metis fst_conv snd_conv)

lemma sound_bind:
  "sound P Q m \<Longrightarrow> (\<And>x. Q x \<Longrightarrow> sound P R (f x)) \<Longrightarrow> sound P R (bindE m f)"
  unfolding sound_def bindE_def by (fastforce split: prod.splits sum.splits)

lemma sound_ret: "Q x \<Longrightarrow> sound P Q (retE x)"
  by (simp add: sound_def)

lemma sound_fail: "sound P Q (failE e)"
  by (simp add: sound_def)

lemma sound_lift: "(\<And>x. r = Inr x \<Longrightarrow> Q x) \<Longrightarrow> sound P Q (liftE r)"
  by (simp add: sound_def)

lemma sound_try:
  "sound P Q m \<Longrightarrow> sound P (\<lambda>r. case r of Inl _ \<Rightarrow> True | Inr x \<Rightarrow> Q x) (tryE m)"
  unfolding sound_def tryE_def by (auto split: prod.splits sum.splits err.splits)

lemma sound_weaken: "sound P Q m \<Longrightarrow> (\<And>x. Q x \<Longrightarrow> R x) \<Longrightarrow> sound P R m"
  unfolding sound_def by blast

lemma quiet_sound:
  assumes "quiet ok view kview Q m" "\<And>w x. view w = v \<Longrightarrow> Q w x \<Longrightarrow> R x"
  shows "sound (secInv D ok view kview content v) R m"
proof (rule soundI)
  fix w r w'
  assume "secInv D ok view kview content v w" "m w = (r, w')"
  moreover from this have "ok w' \<and> kview w' = kview w \<and> view w' = view w \<and> (\<forall>x. r = Inr x \<longrightarrow> Q w x)"
    using assms(1) unfolding quiet_def secInv_def by blast
  ultimately show "secInv D ok view kview content v w' \<and> (\<forall>x. r = Inr x \<longrightarrow> R x)"
    using assms(2) by (auto simp: secInv_def cacheOk_def)
qed

lemma sound_list:
  assumes "sec_ok D c ok view kview content"
  shows "sound (secInv D ok view kview content v) (\<lambda>d. v (k, p) = content (piCid (dlItem d)))
     (cListPath (sdClient D) c k p)"
  by (rule quiet_sound [OF sec_okD(7) [OF assms]]) simp

lemma sound_store_get:
  assumes "sec_ok D c ok view kview content"
  shows "sound (secInv D ok view kview content v)
     (\<lambda>b. \<forall>s. sdCidFromBytes D b = Inr s \<longrightarrow> content s = content e)
     (sGet (sdStore D) (getFileCacheKey e))"
proof (rule soundI)
  fix w r w'
  assume w: "secInv D ok view kview content v w" and g: "sGet (sdStore D) (getFileCacheKey e) w = (r, w')"
  then have "sGet (sdStore D) (getFileCacheKey e) w = (lookupRes (kview w (getFileCacheKey e)), w)"
    using kv_store.get_view [OF sec_okD(2) [OF assms]] by (simp add: secInv_def)
  with g have "w' = w" "r = lookupRes (kview w (getFileCacheKey e))" by auto
  then show "secInv D ok view kview content v w' \<and>
      (\<forall>b. r = Inr b \<longrightarrow> (\<forall>s. sdCidFromBytes D b = Inr s \<longrightarrow> content s = content e))"
    using w by (auto simp: secInv_def cacheOk_def)
qed

lemma sound_fromClient:
  assumes "sec_ok D c ok view kview content"
  shows "sound (secInv D ok view kview content v) (\<lambda>(sc, y). v (k, p) = Some y)
    (pullFileFromClient D c k p)"
proof -
  have "sound (secInv D ok view kview content v) (\<lambda>(y, e). e = None \<longrightarrow> v (k, p) = Some y)
      (cPullPath (sdClient D) c k p)"
    by (rule quiet_sound [OF sec_okD(6) [OF assms]]) auto
  then show ?thesis
    unfolding pullFileFromClient_def
    by (rule sound_bind) (auto intro: sound_ret sound_fail split: option.split)
qed

lemma sound_fromLocal:
  assumes "sec_ok D c ok view kview content"
  shows "sound (secInv D ok view kview content v) (\<lambda>(sc, y). v (k, p) = Some y)
    (pullFileFromLocal D c k p)"
proof -
  let ?S = "\<lambda>Q m. sound (secInv D ok view kview content v) Q m"
  have get: "?S (\<lambda>node. \<forall>y. node = Some y \<longrightarrow> content s = Some y) (sdIpfsGet D s)" for s
    by (rule quiet_sound [OF sec_okD(9) [OF assms]]) simp
  have node: "?S (\<lambda>(sc, y). v (k, p) = Some y) (bindE (sdIpfsGet D s) (\<lambda>node.
       case node of None \<Rightarrow> failE (Err ''File is a directory'') | Some file \<Rightarrow> retE (False, file)))"
    if "content s = v (k, p)" for s
    by (rule sound_bind [OF get]) (auto intro: sound_ret sound_fail simp: that split: option.split)
  have cid: "?S (\<lambda>s. content s = v (k, p)) (liftE (sdCidFromBytes D b))"
    if "\<forall>s. sdCidFromBytes D b = Inr s \<longrightarrow> content s = v (k, p)" for b
    using that by (auto intro: sound_lift)
  show ?thesis
    unfolding pullFileFromLocal_def
  proof (rule sound_bind [OF sound_list [OF assms, where k = k and p = p]],
      rule sound_bind [OF sound_try [OF sound_store_get [OF assms]]])
    fix bp r
    assume "v (k, p) = content (piCid (dlItem bp))"
      and "case r of Inl _ \<Rightarrow> True
        | Inr b \<Rightarrow> \<forall>s. sdCidFromBytes D b = Inr s \<longrightarrow> content s = content (piCid (dlItem bp))"
    then show "?S (\<lambda>(sc, y). v (k, p) = Some y) (case r of
         Inl _ \<Rightarrow> failE (Err ''CID not stored in local cache'')
       | Inr cidBinary \<Rightarrow> bindE (liftE (sdCidFromBytes D cidBinary)) (\<lambda>cid.
           bindE (sdIpfsGet D cid) (\<lambda>node. case node of
               None \<Rightarrow> failE (Err ''File is a directory'')
             | Some file \<Rightarrow> retE (False, file))))"
      using sound_bind [OF cid node] by (cases r) (simp_all add: sound_fail)
  qed
qed

lemma sound_fromDHT:
  assumes "sec_ok D c ok view kview content"
  shows "sound (secInv D ok view kview content v) (\<lambda>(sc, y). v (k, p) = Some y)
    (pullFileFromDHT D c k p)"
proof -
  let ?S = "\<lambda>Q m. sound (secInv D ok view kview content v) Q m"
  have dl: "?S (\<lambda>y. content e = Some y) (sdDownload D h s)" if "sdCidDecode D e = Inr s" for e h s
    by (rule quiet_sound [OF sec_okD(10) [OF assms that]])
  have host: "?S (\<lambda>(sc, y). v (k, p) = Some y) (bindE (liftE (sdDialArgs D (sdIpfsAddr D))) (\<lambda>host.
       bindE (sdDownload D host s) (\<lambda>y. retE (False, y))))"
    if "sdCidDecode D e = Inr s" "v (k, p) = content e" for e s
    by (rule sound_bind [OF sound_lift [where Q = "\<lambda>_. True"]], simp, rule sound_bind [OF dl [OF that(1)]])
      (auto intro: sound_ret simp: that)
  show ?thesis
    unfolding pullFileFromDHT_def
  proof (rule sound_bind [OF sound_list [OF assms, where k = k and p = p]])
    fix bp assume v: "v (k, p) = content (piCid (dlItem bp))"
    show "?S (\<lambda>(sc, y). v (k, p) = Some y) (bindE (liftE (sdCidDecode D (piCid (dlItem bp)))) (\<lambda>cid.
       bindE (liftE (sdDialArgs D (sdIpfsAddr D))) (\<lambda>host.
       bindE (sdDownload D host cid) (\<lambda>y. retE (False, y)))))"
      by (rule sound_bind [OF sound_lift [where Q = "\<lambda>s. sdCidDecode D (piCid (dlItem bp)) = Inr s"]])
        (assumption, rule host [OF _ v])
  qed
qed

lemma sound_puller:
  "sec_ok D c ok view kview content \<Longrightarrow>
   sound (secInv D ok view kview content v) (\<lambda>(sc, y). v (k, p) = Some y) (runPuller D pl c k p)"
  by (cases pl) (simp_all add: runPuller_def sound_fromClient sound_fromLocal sound_fromDHT)

lemma sound_firstPull:
  "sec_ok D c ok view kview content \<Longrightarrow>
   sound (secInv D ok view kview content v) (\<lambda>(sc, y). v (k, p) = Some y) (firstPull D order e c k p)"
proof (induction order arbitrary: e)
  case (Cons pl order)
  show ?case
    unfolding firstPull.simps
    by (rule sound_bind [OF sound_try [OF sound_puller [OF Cons.prems]]])
      (auto intro: sound_ret Cons split: sum.split)
qed (simp add: sound_fail)


lemma sound_cacheSet:
  assumes "sec_ok D c ok view kview content" "\<forall>s. sdCidFromBytes D b = Inr s \<longrightarrow> content s = content e"
  shows "sound (secInv D ok view kview content v) (\<lambda>_. True) (sSet (sdStore D) (getFileCacheKey e) b)"
proof (rule soundI)
  fix w r w'
  assume w: "secInv D ok view kview content v w" and st: "sSet (sdStore D) (getFileCacheKey e) b w = (r, w')"
  then have ok: "ok w" by (simp add: secInv_def)
  note kv = sec_okD(2) [OF assms(1)]
  have "view w' = view w" using sec_okD(3) [OF assms(1)] ok st unfolding setQuiet_def by blast
  moreover have "ok w' \<and> cacheOk D kview content w'"
  proof (cases r)
    case (Inl m)
    then have "ok w'" "kview w' = kview w" using kv_store.set_Inl [OF kv ok] st by auto
    then show ?thesis using w by (simp add: secInv_def cacheOk_def)
  next
    case (Inr u)
    then have "ok w'" "kview w' = (kview w)(getFileCacheKey e \<mapsto> b)"
      using kv_store.set_Inr [OF kv ok] st by auto
    then show ?thesis using w assms(2) by (simp add: secInv_def cacheOk_def)
  qed
  ultimately show "secInv D ok view kview content v w' \<and> (\<forall>x. r = Inr x \<longrightarrow> True)"
    using w by (simp add: secInv_def)
qed

lemma sound_cachePulled:
  assumes "sec_ok D c ok view kview content" "v (k, p) = Some x"
  shows "sound (secInv D ok view kview content v) (\<lambda>_. True) (cachePulled D c k p x)"
proof -
  let ?S = "\<lambda>Q m. sound (secInv D ok view kview content v) Q m"
  have add: "?S (\<lambda>b. \<exists>s. sdCidFromBytes D b = Inr s \<and> content s = Some x) (sdIpfsAdd D x)"
    by (rule quiet_sound [OF sec_okD(8) [OF assms(1)]])
  show ?thesis
    unfolding cachePulled_def
  proof (rule sound_bind [OF add], rule sound_bind [OF sound_list [OF assms(1), where k = k and p = p]])
    fix b bp
    assume "\<exists>s. sdCidFromBytes D b = Inr s \<and> content s = Some x"
      and "v (k, p) = content (piCid (dlItem bp))"
    then show "?S (\<lambda>_. True) (sSet (sdStore D) (getFileCacheKey (piCid (dlItem bp))) b)"
      using assms(2) by (intro sound_cacheSet [OF assms(1)]) auto
  qed
qed

lemma sound_then: "sound P (\<lambda>_. True) m \<Longrightarrow> sound P Q n \<Longrightarrow> sound P Q (thenE m n)"
  unfolding thenE_def by (rule sound_bind)

lemma sound_race:
  assumes "sec_ok D c ok view kview content"
  shows "sound (secInv D ok view kview content v) (\<lambda>y. v (k, p) = Some y) (racePullFile D order c k p)"
  unfolding racePullFile_def
proof (rule sound_bind [OF sound_firstPull [OF assms]])
  fix r :: "bool \<times> bytes" assume r: "case r of (sc, y) \<Rightarrow> v (k, p) = Some y"
  obtain sc y where "r = (sc, y)" by (cases r)
  with r show "sound (secInv D ok view kview content v) (\<lambda>y. v (k, p) = Some y)
      (case r of (sc, y) \<Rightarrow> thenE (whenE sc (cachePulled D c k p y)) (retE y))"
    using sound_cachePulled [OF assms, of v k p y]
    by (cases sc) (auto intro!: sound_then sound_ret)
qed

lemma encryptPathData_ok:
  "length ek = 80 \<Longrightarrow> encryptPathData D ek p r =
     retE (encPathK (sdPrims D) ek p, map_option (encDataK (sdPrims D) ek) r)"
  by (rule ext) (simp add: encryptPathData_def EncryptPathItems_ok)

lemma secPull_sound:
  assumes "sec_ok D c ok view kview content" "secInv D ok view kview content v w"
    and "cxEncKey c = Some ek" "length ek = 80" "secPullPath D order c k p w = (Inr (y, m), w')"
  shows "secInv D ok view kview content v w' \<and>
     (m = None \<longrightarrow> (\<exists>ct q. v (k, encPathK (sdPrims D) ek p) = Some ct \<and>
        DecryptPathItems (sdPrims D) ek [] (Some ct) = Inr q \<and> y = orEmpty (snd q)))"
proof -
  let ?ep = "encPathK (sdPrims D) ek p"
  let ?m = "bindE (racePullFile D order c k ?ep) (\<lambda>ct.
       bindE (decryptPathData D ek [] (Some ct)) (\<lambda>(_, r). retE (orEmpty r)))"
  have "sound (secInv D ok view kview content v)
      (\<lambda>y. \<exists>ct q. v (k, ?ep) = Some ct \<and> DecryptPathItems (sdPrims D) ek [] (Some ct) = Inr q \<and>
         y = orEmpty (snd q)) ?m"
  proof (rule sound_bind [OF sound_race [OF assms(1)]], unfold decryptPathData_def,
      rule sound_bind [OF sound_lift])
    fix ct q assume "v (k, ?ep) = Some ct" "DecryptPathItems (sdPrims D) ek [] (Some ct) = Inr q"
    then show "sound (secInv D ok view kview content v)
      (\<lambda>y. \<exists>ct q. v (k, ?ep) = Some ct \<and> DecryptPathItems (sdPrims D) ek [] (Some ct) = Inr q \<and>
         y = orEmpty (snd q)) (case q of (_, r) \<Rightarrow> retE (orEmpty r))"
      by (cases q) (auto intro!: sound_ret)
  qed simp
  from sound_try [OF this]
  have t: "sound (secInv D ok view kview content v)
      (\<lambda>r. case r of Inl _ \<Rightarrow> True | Inr y \<Rightarrow> \<exists>ct q. v (k, ?ep) = Some ct \<and>
         DecryptPathItems (sdPrims D) ek [] (Some ct) = Inr q \<and> y = orEmpty (snd q)) (tryE ?m)" .
  obtain r w1 where r: "tryE ?m w = (r, w1)" by fastforce
  from assms(5) have "bindE (tryE ?m) (\<lambda>res. case res of Inl m \<Rightarrow> retE ([], Some m) | Inr y \<Rightarrow> retE (y, None)) w =
      (Inr (y, m), w')"
    using assms(3,4) by (simp add: secPullPath_def getBucketEncryptionKey_def
        BucketEncryptionKeyFromContext_def encryptPathData_ok)
  with r soundD [OF t assms(2) r] show ?thesis
    by (cases r) (auto simp: bindE_apply split: sum.splits)
qed


definition secOk ::
  "'w secDeps \<Rightarrow> ctx \<Rightarrow> bytes \<Rightarrow> ('w \<Rightarrow> bool) \<Rightarrow> ('w \<Rightarrow> bytes \<times> bytes \<rightharpoonup> bytes) \<Rightarrow>
   ('w \<Rightarrow> bytes \<rightharpoonup> bytes) \<Rightarrow> (bytes \<rightharpoonup> bytes) \<Rightarrow> 'w \<Rightarrow> bool" where
  "secOk D c ek ok view kview content w \<longleftrightarrow>
     sec_ok D c ok view kview content \<and> cxEncKey c = Some ek \<and> length ek = 80 \<and>
     ok w \<and> cacheOk D kview content w"

lemma secPushPath_eq:
  "cxEncKey c = Some ek \<Longrightarrow> length ek = 80 \<Longrightarrow> secPushPath D c k p x =
     cPushPath (sdClient D) c k (encPathK (sdPrims D) ek (cleanBucketPath p)) (encDataK (sdPrims D) ek x)"
  by (simp add: secPushPath_def getBucketEncryptionKey_def BucketEncryptionKeyFromContext_def
      encryptPathData_ok)

lemma secRemovePath_eq:
  "cxEncKey c = Some ek \<Longrightarrow> length ek = 80 \<Longrightarrow> secRemovePath D c k p =
     cRemovePath (sdClient D) c k (encPathK (sdPrims D) ek (cleanBucketPath p))"
  by (simp add: secRemovePath_def getBucketEncryptionKey_def BucketEncryptionKeyFromContext_def
      encryptPathData_ok)

lemma changesD:
  "changes ok view kview R m \<Longrightarrow> ok w \<Longrightarrow> m w = (r, w') \<Longrightarrow>
     ok w' \<and> kview w' = kview w \<and> (case r of Inl _ \<Rightarrow> view w' = view w | Inr _ \<Rightarrow> R (view w) (view w'))"
  unfolding changes_def by blast

lemma secView_written:
  assumes "prims_ok p" "length ek = 80"
    and "written k (encPathK p ek (cleanBucketPath path)) (encDataK p ek x) (view w) (view w')"
  shows "written k (normPath path) x (secView p ek view w) (secView p ek view w')"
proof -
  have e: "encPathK p ek (normPath path) = encPathK p ek (cleanBucketPath path)"
    by (simp add: encPathK_eq_iff assms(1,2))
  have "secView p ek view w' (k, normPath path) = Some x"
    using assms by (simp add: secView_def written_def e DecryptPathItems_data)
  moreover have "secView p ek view w' (k', q) = secView p ek view w (k', q)"
    if "\<not> (k' = k \<and> (under (normPath path) q \<or> under q (normPath path)))" for k' q
  proof -
    have "\<not> (k' = k \<and> (under (encPathK p ek (normPath path)) (encPathK p ek q) \<or>
        under (encPathK p ek q) (encPathK p ek (normPath path))))"
      using that by (simp only: under_encPathK [OF assms(1,2)] not_False_eq_True)
    then have "view w' (k', encPathK p ek q) = view w (k', encPathK p ek q)"
      using assms(3) unfolding written_def e by blast
    then show ?thesis by (simp add: secView_def)
  qed
  ultimately show ?thesis unfolding written_def by blast
qed

lemma secView_cleared:
  assumes "prims_ok p" "length ek = 80"
    and "view w' = cleared k (encPathK p ek (cleanBucketPath path)) (view w)"
  shows "secView p ek view w' = cleared k path (secView p ek view w)"
proof (rule ext)
  fix kq :: "bytes \<times> bytes"
  obtain k' q where kq: "kq = (k', q)" by (cases kq)
  have e: "encPathK p ek path = encPathK p ek (cleanBucketPath path)"
    by (simp add: encPathK_eq_iff assms(1,2))
  have "under (encPathK p ek (cleanBucketPath path)) (encPathK p ek q) = under path q"
    using under_encPathK(1) [OF assms(1,2), of path q] unfolding e .
  then show "secView p ek view w' kq = cleared k path (secView p ek view w) kq"
    using assms(3) by (simp add: secView_def kq cleared_def)
qed

interpretation secure: buckets_client "secureClient D order" c normPath
    "secOk D c ek ok view kview content" "secView (sdPrims D) ek view"
  for D :: "'w secDeps" and order c ek ok view kview content
proof unfold_locales
  fix w k p x r w'
  assume w: "secOk D c ek ok view kview content w"
    and m: "cPushPath (secureClient D order) c k p x w = (Inr r, w')"
  then have s: "sec_ok D c ok view kview content" "prims_ok (sdPrims D)" "length ek = 80" "ok w"
    by (auto simp: secOk_def dest: sec_okD(1))
  have "cPushPath (sdClient D) c k (encPathK (sdPrims D) ek (cleanBucketPath p))
      (encDataK (sdPrims D) ek x) w = (Inr r, w')"
    using m w by (simp add: secureClient_def secPushPath_eq secOk_def)
  from changesD [OF sec_okD(4) [OF s(1)] s(4) this]
  show "secOk D c ek ok view kview content w' \<and>
      written k (normPath p) x (secView (sdPrims D) ek view w) (secView (sdPrims D) ek view w')"
    using w secView_written [OF s(2,3), of k p x view w w'] by (simp add: secOk_def cacheOk_def)
next
  fix w k p x e w'
  assume w: "secOk D c ek ok view kview content w"
    and m: "cPushPath (secureClient D order) c k p x w = (Inl e, w')"
  then have s: "sec_ok D c ok view kview content" "ok w" by (auto simp: secOk_def)
  have "cPushPath (sdClient D) c k (encPathK (sdPrims D) ek (cleanBucketPath p))
      (encDataK (sdPrims D) ek x) w = (Inl e, w')"
    using m w by (simp add: secureClient_def secPushPath_eq secOk_def)
  from changesD [OF sec_okD(4) [OF s(1)] s(2) this]
  show "secOk D c ek ok view kview content w' \<and>
      secView (sdPrims D) ek view w' = secView (sdPrims D) ek view w"
    using w by (auto simp: secOk_def cacheOk_def secView_def fun_eq_iff)
next
  fix w k p y m w'
  assume w: "secOk D c ek ok view kview content w"
    and e: "cPullPath (secureClient D order) c k p w = (Inr (y, m), w')"
  then have s: "sec_ok D c ok view kview content" "prims_ok (sdPrims D)" "length ek = 80"
    "cxEncKey c = Some ek"
    by (auto simp: secOk_def dest: sec_okD(1))
  have i: "secInv D ok view kview content (view w) w" using w by (simp add: secOk_def secInv_def)
  have "secPullPath D order c k p w = (Inr (y, m), w')" using e by (simp add: secureClient_def)
  note p = secPull_sound [OF s(1) i s(4,3) this]
  have n: "encPathK (sdPrims D) ek (normPath p) = encPathK (sdPrims D) ek p"
    by (simp add: encPathK_eq_iff s)
  show "secOk D c ek ok view kview content w' \<and>
      secView (sdPrims D) ek view w' = secView (sdPrims D) ek view w \<and>
      (\<forall>x. secView (sdPrims D) ek view w (k, normPath p) = Some x \<longrightarrow> m = None \<longrightarrow> y = x)"
    using p w n by (auto simp: secOk_def secInv_def secView_def fun_eq_iff split: option.splits sum.splits)
next
  fix w k p q w'
  assume w: "secOk D c ek ok view kview content w"
    and m: "cRemovePath (secureClient D order) c k p w = (Inr q, w')"
  then have s: "sec_ok D c ok view kview content" "prims_ok (sdPrims D)" "length ek = 80" "ok w"
    by (auto simp: secOk_def dest: sec_okD(1))
  have "cRemovePath (sdClient D) c k (encPathK (sdPrims D) ek (cleanBucketPath p)) w = (Inr q, w')"
    using m w by (simp add: secureClient_def secRemovePath_eq secOk_def)
  from changesD [OF sec_okD(5) [OF s(1)] s(4) this]
  show "secOk D c ek ok view kview content w' \<and>
      (pathElems p \<noteq> [] \<longrightarrow> secView (sdPrims D) ek view w' = cleared k p (secView (sdPrims D) ek view w))"
    using w secView_cleared [OF s(2,3), of view w' k p w] under_encPathK(2) [OF s(2,3), of "cleanBucketPath p"]
      clean_elems by (simp add: secOk_def cacheOk_def)
next
  fix w k p e w'
  assume w: "secOk D c ek ok view kview content w"
    and m: "cRemovePath (secureClient D order) c k p w = (Inl e, w')"
  then have s: "sec_ok D c ok view kview content" "ok w" by (auto simp: secOk_def)
  have "cRemovePath (sdClient D) c k (encPathK (sdPrims D) ek (cleanBucketPath p)) w = (Inl e, w')"
    using m w by (simp add: secureClient_def secRemovePath_eq secOk_def)
  from changesD [OF sec_okD(5) [OF s(1)] s(2) this]
  show "secOk D c ek ok view kview content w' \<and>
      secView (sdPrims D) ek view w' = secView (sdPrims D) ek view w"
    using w by (auto simp: secOk_def cacheOk_def secView_def fun_eq_iff)
qed

subsection \<open>A world in memory\<close>

text \<open>
  Contents and the file cache as two maps; an identifier is the content itself.  It shows that the
  hypotheses on the layers below can hold.
\<close>

type_synonym mem = "(bytes \<times> bytes \<rightharpoonup> bytes) \<times> (bytes \<rightharpoonup> bytes)"

definition memItem :: "bytes \<Rightarrow> bytes \<Rightarrow> dirEntries" where
  "memItem p x = \<lparr> dlRoot = demoRoot, dlItem = \<lparr> piName = p, piPath = p, piCid = x, piIsDir = False,
     piSize = int (length x), piUpdatedAt = 0, piItemsCount = 0 \<rparr>, dlItems = [] \<rparr>"

definition memClient :: "mem bclient" where
  "memClient =
     \<lparr> cPushPath = \<lambda>_ k p x (f, g). (Inr (p, x), (f((k, p) \<mapsto> x), g)),
       cPullPath = \<lambda>_ k p (f, g). (Inr (case f (k, p) of Some x \<Rightarrow> (x, None) | None \<Rightarrow> ([], Some ''no link'')), (f, g)),
       cListPath = \<lambda>_ k p (f, g). (case f (k, p) of Some x \<Rightarrow> Inr (memItem p x) | None \<Rightarrow> Inl (Err ''no link''), (f, g)),
       cRemovePath = \<lambda>_ k p (f, g). (Inr [], (cleared k p f, g)),
       cListIpfsPath = \<lambda>_ _. failE (Err ''offline''),
       cPushPathAccessRoles = \<lambda>_ _ _ _. retE () \<rparr>"

definition memStore :: "mem storeI" where
  "memStore =
     \<lparr> sGet = \<lambda>k (f, g). (lookupRes (g k), (f, g)),
       sSet = \<lambda>k v (f, g). (Inr (), (f, g(k \<mapsto> v))),
       sRemove = \<lambda>k (f, g). (Inr (), (f, g(k := None))),
       sDropAll = \<lambda>(f, g). (Inr (), (f, Map.empty)),
       sKeysWithPrefix = \<lambda>_. failE (Err ''unsupported'') \<rparr>"

definition memDeps :: "mem secDeps" where
  "memDeps =
     \<lparr> sdClient = memClient, sdPullRoles = \<lambda>_ _ _. retE [], sdStore = memStore,
       sdIpfsAdd = retE, sdIpfsGet = \<lambda>s. retE (Some s), sdDownload = \<lambda>_. retE,
       sdCidFromBytes = Inr, sdCidDecode = Inr, sdDialArgs = Inr, sdIpfsAddr = ''local'',
       sdIsRemote = False, sdPrims = toyPrims \<rparr>"

definition memCtx :: ctx where
  "memCtx = NewBucketEncryptionKeyContext background toyKey"

abbreviation memOk :: "mem \<Rightarrow> bool" where
  "memOk \<equiv> secOk memDeps memCtx toyKey (\<lambda>_. True) fst snd Some"

lemmas mem_defs = memClient_def memStore_def memDeps_def

lemma mem_store: "kv_store memStore (\<lambda>_. True) snd"
  by unfold_locales (auto simp: memStore_def lookupRes_def split: prod.splits)

lemma mem_ok: "sec_ok memDeps memCtx (\<lambda>_. True) fst snd Some"
  using mem_store toyPrims_ok
  by (auto simp: sec_ok_def changes_def quiet_def setQuiet_def mem_defs memItem_def
      split: option.splits prod.splits)

lemma memCtx_key: "cxEncKey memCtx = Some toyKey"
  by (simp add: memCtx_def NewBucketEncryptionKeyContext_def toyKey_def)

lemma mem_state: "memOk (f, Map.empty)"
  using mem_ok memCtx_key length_toyKey by (simp add: secOk_def cacheOk_def)

lemma mem_start: "memOk (Map.empty, Map.empty)"
  using mem_ok memCtx_key length_toyKey by (simp add: secOk_def cacheOk_def)

subsection \<open>Properties\<close>

text \<open>A bucket over the encrypting client, whose context is \<open>c\<close>.\<close>

definition secBucket ::
  "'w secDeps \<Rightarrow> puller list \<Rightarrow> ctx \<Rightarrow> bytes \<Rightarrow> bucketRoot \<Rightarrow> 'w bucket" where
  "secBucket D order c tid root = bucket_New root (\<lambda>_. retE (c, tid)) (secureClient D order)"

lemma secBucket_over:
  "buckets_client.over (secureClient D order) c (secBucket D order c tid root)"
  unfolding buckets_client.over_def [OF secure.buckets_client_axioms]
  by (simp add: secBucket_def bucket_New_def)

text \<open>What the properties assume of the layers below, and a bucket's state in memory.\<close>

definition memBucket :: "puller list \<Rightarrow> mem bucket" where
  "memBucket order = secBucket memDeps order memCtx [] \<lparr> rtKey = ''K'', rtName = ''personal'',
     rtPath = [], rtCreatedAt = 0, rtUpdatedAt = 0 \<rparr>"

lemma memBucket_key: "bucket_Key (memBucket order) = ''K''"
  by (simp add: memBucket_def secBucket_def bucket_New_def bucket_Key_def GetData_def)

lemma memBucket_upload:
  "\<exists>r. UploadFile (memBucket order) p x w =
    (Inr r, (fst w)((''K'', encPathK toyPrims toyKey (cleanBucketPath p)) \<mapsto> encDataK toyPrims toyKey x), snd w)"
  using secPushPath_eq [OF memCtx_key length_toyKey, of memDeps]
  by (cases w) (simp add: UploadFile_def memBucket_def secBucket_def bucket_New_def GetContext_def
      secureClient_def bucket_Key_def GetData_def bindE_apply mem_defs)

lemma memBucket_delete: "\<exists>r w'. DeleteDirOrFile (memBucket order) p w = (Inr r, w')"
  using secRemovePath_eq [OF memCtx_key length_toyKey, of memDeps]
  by (cases w) (simp add: DeleteDirOrFile_def memBucket_def secBucket_def bucket_New_def GetContext_def
      secureClient_def bucket_Key_def GetData_def bindE_apply mem_defs)

text \<open>A pull finds the content as soon as one of its pullers does.\<close>

lemma not_remote: "\<not> sdIsRemote D \<Longrightarrow> runPuller D pl c k p w = (Inr (sc, y), w') \<Longrightarrow> \<not> sc"
  by (cases pl) (auto simp: runPuller_def pullFileFromLocal_def pullFileFromDHT_def
      pullFileFromClient_def bindE_eq_Inr split: option.splits sum.splits prod.splits,
      metis sum.exhaust)

lemma firstPull_succeeds:
  assumes "sec_ok D c ok view kview content" "\<not> sdIsRemote D"
    and np: "\<And>pl' w' q w''. runPuller D pl' c k p w' \<noteq> (Inl (Panic q), w'')"
    and r: "\<And>w'. ok w' \<Longrightarrow> view w' = v \<Longrightarrow> \<exists>y w''. runPuller D pl c k p w' = (Inr y, w'')"
  shows "pl \<in> set order \<Longrightarrow> secInv D ok view kview content v w \<Longrightarrow>
    \<exists>y w'. firstPull D order e c k p w = (Inr (False, y), w') \<and> v (k, p) = Some y"
proof (induction order arbitrary: e w)
  case (Cons a order)
  obtain res w' where a: "runPuller D a c k p w = (res, w')" by fastforce
  note snd = soundD [OF sound_puller [OF assms(1)] Cons.prems(2) a]
  show ?case
  proof (cases res)
    case (Inr q)
    obtain sc y where q: "q = (sc, y)" by (cases q)
    have "\<not> sc" using not_remote [OF assms(2)] a Inr q by blast
    then show ?thesis using a Inr q snd by (simp add: bindE_apply tryE_apply)
  next
    case (Inl m)
    with a np obtain e' where m: "m = Err e'" by (cases m) auto
    have "a \<noteq> pl"
    proof
      assume "a = pl"
      then show False using r [of w] a Inl Cons.prems(2) by (auto simp: secInv_def)
    qed
    then have "pl \<in> set order" using Cons.prems(1) by simp
    from Cons.IH [OF this, of w' "Err e'"] show ?thesis
      using a Inl m snd by (simp add: bindE_apply tryE_apply)
  qed
qed simp

lemma secPullPath_run:
  assumes "cxEncKey c = Some ek" "length ek = 80" "prims_ok (sdPrims D)"
    and "firstPull D order (Err []) c k (encPathK (sdPrims D) ek p) w =
      (Inr (False, encDataK (sdPrims D) ek x), w')"
  shows "secPullPath D order c k p w = (Inr (x, None), w')"
proof -
  have "racePullFile D order c k (encPathK (sdPrims D) ek p) w =
      (Inr (encDataK (sdPrims D) ek x), w')"
    using assms(4) by (simp add: racePullFile_def)
  then show ?thesis
    by (simp add: secPullPath_def getBucketEncryptionKey_def BucketEncryptionKeyFromContext_def assms
        encryptPathData_ok decryptPathData_def bindE_apply tryE_apply DecryptPathItems_data)
qed

lemma mem_puller: "fst w (k, p) = Some x \<Longrightarrow>
    runPuller memDeps FromClient memCtx k p w = (Inr (False, x), w)"
  by (cases w) (simp add: runPuller_def pullFileFromClient_def bindE_apply mem_defs)

lemma mem_getFile:
  assumes "fst w (''K'', encPathK toyPrims toyKey q) = Some (encDataK toyPrims toyKey x)"
  shows "GetFile (memBucket [FromClient]) q w = (Inr (x, None), w)"
proof -
  have p: "sdPrims memDeps = toyPrims" by (simp add: memDeps_def)
  have "firstPull memDeps [FromClient] (Err []) memCtx ''K'' (encPathK toyPrims toyKey q) w =
      (Inr (False, encDataK toyPrims toyKey x), w)"
    using mem_puller [OF assms] by (simp add: bindE_apply tryE_apply)
  then have "secPullPath memDeps [FromClient] memCtx ''K'' q w = (Inr (x, None), w)"
    using secPullPath_run [OF memCtx_key length_toyKey, of memDeps] toyPrims_ok by (simp add: p)
  then show ?thesis
    by (simp add: GetFile_def memBucket_def secBucket_def bucket_New_def GetContext_def secureClient_def
        bucket_Key_def GetData_def bindE_apply tryE_apply)
qed

lemma mem_no_panic: "runPuller memDeps pl memCtx k p w \<noteq> (Inl (Panic q), w')"
proof (cases w)
  case (Pair f g)
  then show ?thesis
    by (cases pl; cases "f (k, p)"; cases "g (getFileCacheKey (the (f (k, p))))")
      (auto simp: runPuller_def pullFileFromClient_def pullFileFromLocal_def pullFileFromDHT_def
        bindE_apply tryE_apply mem_defs memItem_def lookupRes_def errKeyNotFound_def)
qed

text \<open>
  On a local daemon a read succeeds, with the content that was uploaded, as soon as one puller
  of the race can get it, whatever happens to the others and in whatever order they finish.
\<close>

theorem secure_pull_succeeds:
  assumes "secOk D c ek ok view kview content w" "\<not> sdIsRemote D" "pl \<in> set order"
    and "view w (k, encPathK (sdPrims D) ek p) = Some (encDataK (sdPrims D) ek x)"
    and "\<And>pl' w' q w''. runPuller D pl' c k (encPathK (sdPrims D) ek p) w' \<noteq> (Inl (Panic q), w'')"
    and "\<And>w'. ok w' \<Longrightarrow> view w' = view w \<Longrightarrow>
      \<exists>y w''. runPuller D pl c k (encPathK (sdPrims D) ek p) w' = (Inr y, w'')"
  shows "\<exists>w'. secPullPath D order c k p w = (Inr (x, None), w')"
proof -
  have s: "sec_ok D c ok view kview content" "cxEncKey c = Some ek" "length ek = 80" "prims_ok (sdPrims D)"
    and i: "secInv D ok view kview content (view w) w"
    using assms(1) by (auto simp: secOk_def secInv_def dest: sec_okD(1))
  obtain w' where "firstPull D order (Err []) c k (encPathK (sdPrims D) ek p) w =
      (Inr (False, encDataK (sdPrims D) ek x), w')"
    using firstPull_succeeds [OF s(1) assms(2,5,6,3) i, of "Err []"] assms(4) by auto
  from secPullPath_run [OF s(2-4) this] show ?thesis by blast
qed

theorem secure_pull_succeeds_witness:
  "\<exists>w'. secPullPath memDeps [FromLocal, FromClient] memCtx ''K'' ''a''
     ([(''K'', encPathK toyPrims toyKey ''a'') \<mapsto> encDataK toyPrims toyKey ''hi''], Map.empty) =
     (Inr (''hi'', None), w')" (is "\<exists>w'. secPullPath _ _ _ _ _ ?w = _")
proof -
  have d: "sdPrims memDeps = toyPrims" "\<not> sdIsRemote memDeps" by (simp_all add: memDeps_def)
  have ok: "memOk ?w" using mem_start by (simp add: secOk_def cacheOk_def)
  have v: "fst ?w (''K'', encPathK (sdPrims memDeps) toyKey ''a'') =
      Some (encDataK (sdPrims memDeps) toyKey ''hi'')"
    by (simp add: d)
  show ?thesis
  proof (rule secure_pull_succeeds [OF ok d(2) _ v mem_no_panic])
    fix w' :: mem assume "fst w' = fst ?w"
    then show "\<exists>y w''. runPuller memDeps FromClient memCtx ''K''
        (encPathK (sdPrims memDeps) toyKey ''a'') w' = (Inr y, w'')"
      using mem_puller [of w'] v by metis
  qed simp
qed

text \<open>
  C2. What a bucket's client uploads is what it reads back: if a file read from the encrypting
  client is returned without an error, it is the content last uploaded to that path, whichever of
  the three pullers wins the race and whatever slashes the two paths repeat.
\<close>

theorem secure_upload_download:
  assumes "secOk D c ek ok view kview content w"
    and "UploadFile (secBucket D order c tid root) p x w = (Inr r, w1)"
    and "GetFile (secBucket D order c tid root) q w1 = (Inr (y, None), w2)"
    and "normPath q = normPath p"
  shows "y = x"
  by (rule secure.upload_download [OF secBucket_over assms])

theorem secure_upload_download_witness:
  "\<exists>w1 w2 r y. UploadFile (memBucket [FromClient]) ''/a'' ''hi'' (Map.empty, Map.empty) = (Inr r, w1) \<and>
     GetFile (memBucket [FromClient]) ''a'' w1 = (Inr (y, None), w2) \<and> y = ''hi''"
proof -
  obtain r where u: "UploadFile (memBucket [FromClient]) ''/a'' ''hi'' (Map.empty, Map.empty) =
      (Inr r, [(''K'', encPathK toyPrims toyKey (cleanBucketPath ''/a'')) \<mapsto> encDataK toyPrims toyKey ''hi''], Map.empty)"
    (is "_ = (_, ?w1)") using memBucket_upload by (metis fst_conv snd_conv)
  have c: "cleanBucketPath ''/a'' = ''a''" by code_simp
  have g: "GetFile (memBucket [FromClient]) ''a'' ?w1 = (Inr (''hi'', None), ?w1)"
    by (rule mem_getFile) (simp add: c)
  have "normPath ''a'' = normPath ''/a''" by code_simp
  from secure_upload_download [OF mem_start u [unfolded memBucket_def] g [unfolded memBucket_def] this]
  show ?thesis using u g by blast
qed

text \<open>
  C12. Uploading and deleting refine the update of a map from bucket and path to plain content.  A
  successful upload sets the entry of its path and changes no entry of another bucket or of a path that
  is neither above nor below it; a successful deletion below the root removes the entries of the path
  and of everything below it, and no other; a failure changes nothing.
\<close>

theorem secure_upload_refines:
  assumes "secOk D c ek ok view kview content w"
    and "UploadFile (secBucket D order c tid root) p x w = (r, w1)"
    and "DeleteDirOrFile (secBucket D order c tid root) q w1 = (r', w2)" "pathElems q \<noteq> []"
  shows "(case r of Inl _ \<Rightarrow> secView (sdPrims D) ek view w1 = secView (sdPrims D) ek view w
       | Inr _ \<Rightarrow> secView (sdPrims D) ek view w1 (rtKey root, normPath p) = Some x \<and>
           (\<forall>k' p'. k' = rtKey root \<and> (under p p' \<or> under p' p) \<or>
              secView (sdPrims D) ek view w1 (k', p') = secView (sdPrims D) ek view w (k', p'))) \<and>
    (case r' of Inl _ \<Rightarrow> secView (sdPrims D) ek view w2 = secView (sdPrims D) ek view w1
       | Inr _ \<Rightarrow> (\<forall>k' p'. secView (sdPrims D) ek view w2 (k', p') =
           (if k' = rtKey root \<and> under q p' then None else secView (sdPrims D) ek view w1 (k', p')))) \<and>
    secOk D c ek ok view kview content w2"
proof -
  have k: "bucket_Key (secBucket D order c tid root) = rtKey root"
    by (simp add: secBucket_def bucket_New_def bucket_Key_def GetData_def)
  note u = secure.upload_view [OF secBucket_over assms(1,2), unfolded k]
  note d = secure.delete_view [OF secBucket_over conjunct1 [OF u] assms(3,4), unfolded k]
  show ?thesis using u d by (simp add: written_def cleared_def split: sum.splits)
qed

theorem secure_upload_refines_witness:
  "\<exists>r w1 r' w2. UploadFile (memBucket [FromClient]) ''a/b'' ''hi'' (Map.empty, Map.empty) = (Inr r, w1) \<and>
     secView toyPrims toyKey fst w1 (''K'', normPath ''a/b'') = Some ''hi'' \<and>
     DeleteDirOrFile (memBucket [FromClient]) ''a'' w1 = (Inr r', w2) \<and>
     secView toyPrims toyKey fst w2 (''K'', normPath ''a/b'') = None"
proof -
  obtain r w1 where u: "UploadFile (memBucket [FromClient]) ''a/b'' ''hi'' (Map.empty, Map.empty) = (Inr r, w1)"
    using memBucket_upload by blast
  obtain r' w2 where d: "DeleteDirOrFile (memBucket [FromClient]) ''a'' w1 = (Inr r', w2)"
    using memBucket_delete by blast
  have "pathElems ''a'' \<noteq> []" "under ''a'' ''a/b''" by code_simp+
  with secure_upload_refines [OF mem_start u [unfolded memBucket_def] d [unfolded memBucket_def]]
  have "secView toyPrims toyKey fst w1 (''K'', normPath ''a/b'') = Some ''hi''"
    "secView toyPrims toyKey fst w2 (''K'', normPath ''a/b'') = None"
    by (simp_all add: memDeps_def)
  with u d show ?thesis by blast
qed

text \<open>
  Two reads of the same encrypted content agree, whatever the order in which the pullers
  finish and whichever of them fail: cache, DHT and textile client are interchangeable.
\<close>

theorem race_order_irrelevant:
  assumes "secOk D c ek ok view kview content w"
    and "secPullPath D order c k p w = (Inr (y, None), w1)"
    and "secPullPath D order' c k p w = (Inr (y', None), w2)"
  shows "y = y' \<and> view w1 = view w2"
proof -
  have s: "sec_ok D c ok view kview content" "cxEncKey c = Some ek" "length ek = 80"
    and i: "secInv D ok view kview content (view w) w"
    using assms(1) by (auto simp: secOk_def secInv_def)
  note a = secPull_sound [OF s(1) i s(2,3) assms(2)] and b = secPull_sound [OF s(1) i s(2,3) assms(3)]
  have "view w1 = view w2" using a b by (simp add: secInv_def)
  moreover have "y = y'" using a b by auto
  ultimately show ?thesis by blast
qed

theorem race_order_irrelevant_witness:
  "\<exists>y. secPullPath memDeps [FromClient] memCtx ''K'' ''a''
      ([(''K'', encPathK toyPrims toyKey ''a'') \<mapsto> encDataK toyPrims toyKey ''hi''], Map.empty) =
      (Inr (y, None), ([(''K'', encPathK toyPrims toyKey ''a'') \<mapsto> encDataK toyPrims toyKey ''hi''], Map.empty))
    \<and> y = ''hi''" (is "\<exists>y. ?e y \<and> _")
proof -
  have p: "sdPrims memDeps = toyPrims" by (simp add: memDeps_def)
  have "?e ''hi''"
    using secPullPath_run [OF memCtx_key length_toyKey, of memDeps] toyPrims_ok
    by (simp add: p mem_puller bindE_apply tryE_apply)
  with race_order_irrelevant [OF mem_state this this] show ?thesis by blast
qed

end
