(* ===== verification/TaskQueue.thy ===== *)
theory TaskQueue
  imports Json Store Domain
begin

text \<open>
  The synchronizer's tasks and queues: \<open>core/textile/sync/task.go\<close>, \<open>queue.go\<close> and the state and
  notification functions of \<open>synchronizer.go\<close>.

  A queue element and the values of \<open>queueHashMap\<close> are pointers to tasks, and the same task is
  reached through both, so the tasks live in a heap: \<open>tasks\<close> lists every task allocated, and a
  pointer is its position.  \<open>ext\<close> is everything behind the interfaces the synchronizer calls
  (the store, the model, the buckets, the hub).

  The two named string types of \<open>task.go\<close> stay strings: a restored queue can hold any value.
\<close>

subsection \<open>Tasks\<close>

type_synonym taskType = bytes

definition addItemTask :: taskType where "addItemTask = ''ADD_ITEM''"
definition removeItemTask :: taskType where "removeItemTask = ''REMOVE_ITEM''"
definition createBucketTask :: taskType where "createBucketTask = ''CREATE_BUCKET''"
definition pinFileTask :: taskType where "pinFileTask = ''PIN_FILE''"
definition unpinFileTask :: taskType where "unpinFileTask = ''UNPIN_FILE''"
definition bucketBackupOnTask :: taskType where "bucketBackupOnTask = ''TOGGLE_BACKUP_ON''"
definition bucketBackupOffTask :: taskType where "bucketBackupOffTask = ''TOGGLE_BACKUP_OFF''"
definition bucketRestoreTask :: taskType where "bucketRestoreTask = ''BUCKET_RESTORE''"
definition restoreFileTask :: taskType where "restoreFileTask = ''RESTORE_FILE''"
definition addIndexItemTask :: taskType where "addIndexItemTask = ''ADD_INDEX_ITEM''"
definition removeIndexItemTask :: taskType where "removeIndexItemTask = ''REMOVE_INDEX_ITEM''"

lemmas taskType_defs = addItemTask_def removeItemTask_def createBucketTask_def pinFileTask_def
  unpinFileTask_def bucketBackupOnTask_def bucketBackupOffTask_def bucketRestoreTask_def
  restoreFileTask_def addIndexItemTask_def removeIndexItemTask_def

type_synonym taskState = bytes

definition taskQueued :: taskState where "taskQueued = ''QUEUED''"
definition taskPending :: taskState where "taskPending = ''PENDING''"
definition taskSucceeded :: taskState where "taskSucceeded = ''SUCCESS''"
definition taskFailed :: taskState where "taskFailed = ''FAILED''"
definition taskDequeued :: taskState where "taskDequeued = ''DEQUEUED''"

lemmas taskState_defs =
  taskQueued_def taskPending_def taskSucceeded_def taskFailed_def taskDequeued_def

lemma taskState_distinct [simp]:
  "taskQueued \<noteq> taskPending" "taskQueued \<noteq> taskSucceeded" "taskQueued \<noteq> taskFailed"
  "taskQueued \<noteq> taskDequeued" "taskPending \<noteq> taskQueued" "taskPending \<noteq> taskSucceeded"
  "taskPending \<noteq> taskFailed" "taskPending \<noteq> taskDequeued" "taskSucceeded \<noteq> taskQueued"
  "taskSucceeded \<noteq> taskPending" "taskSucceeded \<noteq> taskFailed" "taskSucceeded \<noteq> taskDequeued"
  "taskFailed \<noteq> taskQueued" "taskFailed \<noteq> taskPending" "taskFailed \<noteq> taskSucceeded"
  "taskFailed \<noteq> taskDequeued" "taskDequeued \<noteq> taskQueued" "taskDequeued \<noteq> taskPending"
  "taskDequeued \<noteq> taskSucceeded" "taskDequeued \<noteq> taskFailed"
  by (simp_all add: taskState_defs)

record task =
  tID :: bytes
  tState :: taskState
  tType :: taskType
  tArgs :: "bytes list"
  tParallelizable :: bool
  tMaxRetries :: int
  tRetries :: int

definition newTask :: "taskType \<Rightarrow> bytes list \<Rightarrow> task" where
  "newTask t args =
     \<lparr> tID = t @ ''_'' @ strJoin args ''_'', tState = taskQueued, tType = t, tArgs = args,
       tParallelizable = False, tMaxRetries = -1, tRetries = 0 \<rparr>"

lemma newTask_simps [simp]:
  "tID (newTask t args) = t @ ''_'' @ strJoin args ''_''"
  "tState (newTask t args) = taskQueued" "tType (newTask t args) = t"
  "tArgs (newTask t args) = args" "tParallelizable (newTask t args) = False"
  "tMaxRetries (newTask t args) = -1" "tRetries (newTask t args) = 0"
  by (simp_all add: newTask_def)

subsection \<open>The synchronizer's state\<close>

datatype queueId = TaskQ | PinQ

text \<open>
  \<open>waiting\<close> counts the loops blocked in a receive on the unbuffered \<open>syncNeeded\<close>, \<open>woken\<close> those
  that a send has released and that have not run yet.
\<close>

record 'x syncr =
  tasks :: "task list"
  taskQueue :: "nat list"
  filePinningQueue :: "nat list"
  queueHashMap :: "bytes \<rightharpoonup> nat"
  isRunning :: bool
  syncClosed :: bool
  waiting :: nat
  woken :: nat
  notifierAttached :: bool
  sentEvents :: "fileEvent list"
  ext :: 'x

definition syncr_New :: "'x \<Rightarrow> 'x syncr" where
  "syncr_New x =
     \<lparr> tasks = [], taskQueue = [], filePinningQueue = [], queueHashMap = Map.empty,
       isRunning = False, syncClosed = False, waiting = 0, woken = 0,
       notifierAttached = False, sentEvents = [], ext = x \<rparr>"

definition queueOf :: "queueId \<Rightarrow> 'x syncr \<Rightarrow> nat list" where
  "queueOf q s = (case q of TaskQ \<Rightarrow> taskQueue s | PinQ \<Rightarrow> filePinningQueue s)"

definition setQueue :: "queueId \<Rightarrow> nat list \<Rightarrow> 'x syncr \<Rightarrow> 'x syncr" where
  "setQueue q as s =
     (case q of TaskQ \<Rightarrow> s\<lparr>taskQueue := as\<rparr> | PinQ \<Rightarrow> s\<lparr>filePinningQueue := as\<rparr>)"

definition taskAt :: "'x syncr \<Rightarrow> nat \<Rightarrow> task" where
  "taskAt s a = tasks s ! a"

definition setTask :: "nat \<Rightarrow> task \<Rightarrow> 'x syncr \<Rightarrow> 'x syncr" where
  "setTask a t s = s\<lparr>tasks := (tasks s)[a := t]\<rparr>"

definition allocTask :: "task \<Rightarrow> 'x syncr \<Rightarrow> 'x syncr" where
  "allocTask t s = s\<lparr>tasks := tasks s @ [t]\<rparr>"

text \<open>A call on a dependency of the synchronizer.\<close>

definition extE :: "('x, 'a) eff \<Rightarrow> ('x syncr, 'a) eff" where
  "extE m = (\<lambda>s. let (r, x) = m (ext s) in (r, s\<lparr>ext := x\<rparr>))"

lemma extE_apply [eff_simps]: "extE m s = (fst (m (ext s)), s\<lparr>ext := snd (m (ext s))\<rparr>)"
  by (simp add: extE_def split: prod.splits)

lemma queueOf_simps [simp]:
  "queueOf TaskQ s = taskQueue s" "queueOf PinQ s = filePinningQueue s"
  by (simp_all add: queueOf_def)

lemma setQueue_simps [simp]:
  "tasks (setQueue q as s) = tasks s" "queueHashMap (setQueue q as s) = queueHashMap s"
  "isRunning (setQueue q as s) = isRunning s" "ext (setQueue q as s) = ext s"
  "syncClosed (setQueue q as s) = syncClosed s" "waiting (setQueue q as s) = waiting s"
  "woken (setQueue q as s) = woken s" "sentEvents (setQueue q as s) = sentEvents s"
  "notifierAttached (setQueue q as s) = notifierAttached s"
  "queueOf q (setQueue q as s) = as" "q' \<noteq> q \<Longrightarrow> queueOf q' (setQueue q as s) = queueOf q' s"
  by (cases q; cases q'; simp add: setQueue_def queueOf_def)+

lemma queueOf_update [simp]:
  "queueOf q (s\<lparr>tasks := ts\<rparr>) = queueOf q s" "queueOf q (s\<lparr>queueHashMap := m\<rparr>) = queueOf q s"
  "queueOf q (s\<lparr>isRunning := b\<rparr>) = queueOf q s" "queueOf q (s\<lparr>ext := x\<rparr>) = queueOf q s"
  "queueOf q (s\<lparr>waiting := n\<rparr>) = queueOf q s" "queueOf q (s\<lparr>woken := n\<rparr>) = queueOf q s"
  "queueOf q (s\<lparr>sentEvents := es\<rparr>) = queueOf q s"
  "queueOf q (s\<lparr>syncClosed := b\<rparr>) = queueOf q s"
  "queueOf q (s\<lparr>waiting := n, woken := k\<rparr>) = queueOf q s"
  by (cases q; simp add: queueOf_def)+

lemma taskAt_update [simp]:
  "taskAt (s\<lparr>queueHashMap := m\<rparr>) a = taskAt s a" "taskAt (s\<lparr>isRunning := b\<rparr>) a = taskAt s a"
  "taskAt (s\<lparr>ext := x\<rparr>) a = taskAt s a" "taskAt (s\<lparr>waiting := n\<rparr>) a = taskAt s a"
  "taskAt (s\<lparr>woken := n\<rparr>) a = taskAt s a" "taskAt (s\<lparr>sentEvents := es\<rparr>) a = taskAt s a"
  "taskAt (s\<lparr>syncClosed := b\<rparr>) a = taskAt s a" "taskAt (setQueue q as s) a = taskAt s a"
  "taskAt (s\<lparr>waiting := n, woken := k\<rparr>) a = taskAt s a"
  by (simp_all add: taskAt_def)

subsection \<open>queue.go: enqueueing\<close>

definition isTaskEnqueued :: "task \<Rightarrow> 'x syncr \<Rightarrow> bool" where
  "isTaskEnqueued t s =
     (case queueHashMap s (tID t) of
        None \<Rightarrow> False
      | Some a \<Rightarrow> (let st = tState (taskAt s a) in st = taskQueued \<or> st = taskPending))"

text \<open>
  \<open>enqueueTask\<close> takes no lock, and it is called by the gRPC handlers, the listeners and the tasks at the
  same time: the test and what follows it are two accesses.  Here it is the sequential function; where
  calls overlap (\<open>SyncPass\<close>), the test and \<open>pushTask\<close> are two steps.
\<close>

definition pushTask :: "nat \<Rightarrow> queueId \<Rightarrow> 'x syncr \<Rightarrow> 'x syncr" where
  "pushTask a q s =
     (setQueue q (queueOf q s @ [a]) s)\<lparr>queueHashMap := (queueHashMap s)(tID (taskAt s a) \<mapsto> a)\<rparr>"

definition enqueueTask :: "nat \<Rightarrow> queueId \<Rightarrow> 'x syncr \<Rightarrow> 'x syncr" where
  "enqueueTask a q s = (if \<not> isTaskEnqueued (taskAt s a) s then pushTask a q s else s)"

definition enqueueTaskAtFront :: "nat \<Rightarrow> queueId \<Rightarrow> 'x syncr \<Rightarrow> 'x syncr" where
  "enqueueTaskAtFront a q s =
     (if \<not> isTaskEnqueued (taskAt s a) s
      then (setQueue q (a # queueOf q s) s)
             \<lparr>queueHashMap := (queueHashMap s)(tID (taskAt s a) \<mapsto> a)\<rparr>
      else s)"

text \<open>
  \<open>dequeueTask\<close> removes the element from \<open>s.taskQueue\<close> whatever queue it was given; \<open>list.Remove\<close>
  ignores an element of another list, and dereferences it.
\<close>

definition dequeueTask :: "queueId \<Rightarrow> ('x syncr, nat) eff" where
  "dequeueTask q = (\<lambda>s.
     case queueOf q s of
       [] \<Rightarrow> (Inl (Panic ''nil pointer dereference''), s)
     | a # as \<Rightarrow>
         (let s1 = (if q = TaskQ then s\<lparr>taskQueue := as\<rparr> else s) in
          (Inr a, s1\<lparr>queueHashMap := (queueHashMap s1)(tID (taskAt s a) := None)\<rparr>)))"

text \<open>\<open>t := newTask(\<dots>); s.enqueueTask(t, q)\<close>: a fresh task.\<close>

definition enqueueNew :: "task \<Rightarrow> queueId \<Rightarrow> 'x syncr \<Rightarrow> 'x syncr" where
  "enqueueNew t q s = enqueueTask (length (tasks s)) q (allocTask t s)"

text \<open>What is left of it once its test has passed: nobody else has the new task until it is pushed.\<close>

definition pushNew :: "task \<Rightarrow> queueId \<Rightarrow> 'x syncr \<Rightarrow> 'x syncr" where
  "pushNew t q s = pushTask (length (tasks s)) q (allocTask t s)"

definition enqueueNewAtFront :: "task \<Rightarrow> queueId \<Rightarrow> 'x syncr \<Rightarrow> 'x syncr" where
  "enqueueNewAtFront t q s = enqueueTaskAtFront (length (tasks s)) q (allocTask t s)"

subsection \<open>synchronizer.go: notifications\<close>

text \<open>
  The non-blocking send: a loop waiting in its \<open>select\<close> takes it, otherwise it is dropped; a send
  on a closed channel panics.
\<close>

definition notifySyncNeeded :: "('x syncr, unit) eff" where
  "notifySyncNeeded = (\<lambda>s.
     if \<not> isRunning s then (Inr (), s)
     else if syncClosed s then (Inl (Panic ''send on closed channel''), s)
     else if waiting s > 0 then (Inr (), s\<lparr>waiting := waiting s - 1, woken := woken s + 1\<rparr>)
     else (Inr (), s))"

definition notifyTask :: "task \<Rightarrow> queueId \<Rightarrow> ('x syncr, unit) eff" where
  "notifyTask t q = thenE (modE (enqueueNew t q)) notifySyncNeeded"

definition NotifyItemAdded :: "bytes \<Rightarrow> bytes \<Rightarrow> ('x syncr, unit) eff" where
  "NotifyItemAdded bucket path = notifyTask (newTask addItemTask [bucket, path]) TaskQ"

definition NotifyItemRemoved :: "bytes \<Rightarrow> bytes \<Rightarrow> ('x syncr, unit) eff" where
  "NotifyItemRemoved bucket path = notifyTask (newTask removeItemTask [bucket, path]) TaskQ"

definition NotifyBucketCreated :: "bytes \<Rightarrow> bytes \<Rightarrow> ('x syncr, unit) eff" where
  "NotifyBucketCreated bucket enckey =
     notifyTask (newTask createBucketTask [bucket, hexEncode enckey]) TaskQ"

definition NotifyBucketBackupOn :: "bytes \<Rightarrow> ('x syncr, unit) eff" where
  "NotifyBucketBackupOn bucket =
     notifyTask (newTask bucketBackupOnTask [bucket]\<lparr>tParallelizable := True\<rparr>) TaskQ"

definition NotifyBucketBackupOff :: "bytes \<Rightarrow> ('x syncr, unit) eff" where
  "NotifyBucketBackupOff bucket = notifyTask (newTask bucketBackupOffTask [bucket]) TaskQ"

definition NotifyBucketRestore :: "bytes \<Rightarrow> ('x syncr, unit) eff" where
  "NotifyBucketRestore bucket = notifyTask (newTask bucketRestoreTask [bucket]) TaskQ"

definition NotifyFileRestore :: "bytes \<Rightarrow> bytes \<Rightarrow> ('x syncr, unit) eff" where
  "NotifyFileRestore bucket path = notifyTask (newTask restoreFileTask [bucket, path]) TaskQ"

definition NotifyBucketStartup :: "bytes \<Rightarrow> ('x syncr, unit) eff" where
  "NotifyBucketStartup bucket =
     thenE (NotifyBucketRestore bucket) (thenE (NotifyBucketBackupOn bucket) notifySyncNeeded)"

definition NotifyIndexItemAdded :: "bytes \<Rightarrow> bytes \<Rightarrow> bytes \<Rightarrow> ('x syncr, unit) eff" where
  "NotifyIndexItemAdded bucket path dbId =
     notifyTask (newTask addIndexItemTask [bucket, path, dbId]
                   \<lparr>tParallelizable := True, tMaxRetries := 2\<rparr>) TaskQ"

definition AttachNotifier :: "'x syncr \<Rightarrow> 'x syncr" where
  "AttachNotifier s = s\<lparr>notifierAttached := True\<rparr>"

subsection \<open>queue.go: reporting\<close>

definition countState :: "taskState \<Rightarrow> queueId \<Rightarrow> 'x syncr \<Rightarrow> nat" where
  "countState st q s = length (filter (\<lambda>a. tState (taskAt s a) = st) (queueOf q s))"

definition queueName :: "queueId \<Rightarrow> bytes" where
  "queueName q = (case q of TaskQ \<Rightarrow> ''buckets'' | PinQ \<Rightarrow> ''file pinning'')"

definition queueString :: "queueId \<Rightarrow> 'x syncr \<Rightarrow> bytes" where
  "queueString q s =
     ''Textile sync ['' @ queueName q @ '']: Total: '' @ natStr (length (queueOf q s)) @
     '', Queued: '' @ natStr (countState taskQueued q s) @
     '', Pending: '' @ natStr (countState taskPending q s) @
     '', Failed: '' @ natStr (countState taskFailed q s)"

definition synchronizer_String :: "'x syncr \<Rightarrow> bytes" where
  "synchronizer_String s =
     queueString PinQ s @ [CHR 0x0A] @ queueString TaskQ s @ [CHR 0x0A]"

subsection \<open>queue.go: the stored queue\<close>

definition QueueStoreKey :: bytes where
  "QueueStoreKey = ''TextileSyncTaskQueue''"

definition taskJson :: "task \<Rightarrow> jvalue" where
  "taskJson t = JObj [
     (''id'', JStr (tID t)), (''state'', JStr (tState t)), (''type'', JStr (tType t)),
     (''args'', JArr (map JStr (tArgs t))), (''parallelizable'', JBool (tParallelizable t)),
     (''maxRetries'', JNum (formatInt (tMaxRetries t))),
     (''retries'', JNum (formatInt (tRetries t)))]"

definition marshalQueue :: "task list \<Rightarrow> task list \<Rightarrow> bytes" where
  "marshalQueue qs fs = jprint (JObj [
     (''queueAsSlice'', JArr (map taskJson qs)), (''fileQueueAsSlice'', JArr (map taskJson fs))])"

definition jTask :: "jvalue \<Rightarrow> err + task" where
  "jTask v = bindS (jGetObj v) (\<lambda>kvs.
     bindS (jGetStr (jField ''id'' kvs)) (\<lambda>i.
     bindS (jGetStr (jField ''state'' kvs)) (\<lambda>st.
     bindS (jGetStr (jField ''type'' kvs)) (\<lambda>ty.
     bindS (jGetArr jGetStr (jField ''args'' kvs)) (\<lambda>as.
     bindS (jGetBool (jField ''parallelizable'' kvs)) (\<lambda>p.
     bindS (jGetInt (jField ''maxRetries'' kvs)) (\<lambda>mr.
     bindS (jGetInt (jField ''retries'' kvs)) (\<lambda>r.
     Inr \<lparr> tID = i, tState = st, tType = ty, tArgs = as, tParallelizable = p,
           tMaxRetries = mr, tRetries = r \<rparr>))))))))"

definition unmarshalQueue :: "bytes \<Rightarrow> err + (task list \<times> task list)" where
  "unmarshalQueue data =
     (case jparse data of None \<Rightarrow> Inl (Err ''json: invalid syntax'')
      | Some v \<Rightarrow> bindS (jGetObj v) (\<lambda>kvs.
          bindS (jGetArr jTask (jField ''queueAsSlice'' kvs)) (\<lambda>qs.
          bindS (jGetArr jTask (jField ''fileQueueAsSlice'' kvs)) (\<lambda>fs. Inr (qs, fs)))))"

definition storeQueue :: "'x storeI \<Rightarrow> ('x syncr, unit) eff" where
  "storeQueue S = (\<lambda>s.
     extE (sSet S QueueStoreKey
       (marshalQueue (map (taskAt s) (taskQueue s)) (map (taskAt s) (filePinningQueue s)))) s)"

text \<open>
  \<open>for _, el := range slice { s.enqueueTask(&el, q) }\<close>: in Go 1.14 \<open>el\<close> is one variable for the
  whole loop, so every pointer enqueued is the same address, overwritten by each iteration.
\<close>

fun enqueueAll :: "nat \<Rightarrow> queueId \<Rightarrow> task list \<Rightarrow> 'x syncr \<Rightarrow> 'x syncr" where
  "enqueueAll el q [] s = s"
| "enqueueAll el q (t # ts) s = enqueueAll el q ts (enqueueTask el q (setTask el t s))"

definition zeroTask :: task where
  "zeroTask = \<lparr> tID = [], tState = [], tType = [], tArgs = [], tParallelizable = False,
                tMaxRetries = 0, tRetries = 0 \<rparr>"

definition enqueueSlice :: "queueId \<Rightarrow> task list \<Rightarrow> 'x syncr \<Rightarrow> 'x syncr" where
  "enqueueSlice q ts s = enqueueAll (length (tasks s)) q ts (allocTask zeroTask s)"

definition restoreQueue :: "'x storeI \<Rightarrow> ('x syncr, unit) eff" where
  "restoreQueue S =
     bindE (extE (sGet S QueueStoreKey)) (\<lambda>data.
     bindE (liftE (unmarshalQueue data)) (\<lambda>(qs, fs).
     thenE (modE (enqueueSlice TaskQ qs)) (modE (enqueueSlice PinQ fs))))"

definition RestoreQueue :: "'x storeI \<Rightarrow> ('x syncr, unit) eff" where
  "RestoreQueue S = restoreQueue S"


subsection \<open>The round trip of a task through JSON\<close>

text \<open>Tasks a stored queue brings back: ASCII strings, counters that fit in an \<open>int64\<close>.\<close>

definition storable :: "task \<Rightarrow> bool" where
  "storable t \<longleftrightarrow> ascii (tID t) \<and> ascii (tState t) \<and> ascii (tType t) \<and> list_all ascii (tArgs t) \<and>
     - (2 ^ 63) \<le> tMaxRetries t \<and> tMaxRetries t < 2 ^ 63 \<and>
     - (2 ^ 63) \<le> tRetries t \<and> tRetries t < 2 ^ 63"

lemma ascii_lit: "list_all (\<lambda>c. code_of c < 128) s \<Longrightarrow> ascii s"
  by (simp add: ascii_def)

lemma taskJson_ok: "storable t \<Longrightarrow> jOk (taskJson t)"
  using formatInt_jNum by (auto simp: taskJson_def storable_def list_all_iff)

lemma jTask_taskJson: "storable t \<Longrightarrow> jTask (taskJson t) = Inr t"
  by (simp add: jTask_def taskJson_def storable_def jGetObj_def jField_def equalFold_def
      strToLower_def toLowerC_def jGetStr_def jGetBool_def jGetInt_def jGetArr_def
      parseInt64_formatInt mapSum_map [of _ _ _ "\<lambda>x. x", simplified])

lemma unmarshal_marshal:
  assumes "list_all storable qs" "list_all storable fs"
  shows "unmarshalQueue (marshalQueue qs fs) = Inr (qs, fs)"
proof -
  have "mapSum jTask (map taskJson ts) = Inr ts" if "list_all storable ts" for ts
    using that mapSum_map [of ts jTask taskJson "\<lambda>x. x"]
    by (simp add: list_all_iff jTask_taskJson)
  moreover have "jOk (JObj [(''queueAsSlice'', JArr (map taskJson qs)),
      (''fileQueueAsSlice'', JArr (map taskJson fs))])"
    using assms by (simp add: list_all_iff taskJson_ok)
  then have "jparse (marshalQueue qs fs) = Some (JObj [(''queueAsSlice'', JArr (map taskJson qs)),
      (''fileQueueAsSlice'', JArr (map taskJson fs))])"
    unfolding marshalQueue_def by (rule jparse_jprint)
  ultimately show ?thesis
    using assms
    by (simp add: unmarshalQueue_def jGetObj_def jGetArr_def jField_def equalFold_def
        strToLower_def toLowerC_def)
qed


subsection \<open>The invariant of the queues\<close>

abbreviation live :: "task \<Rightarrow> bool" where
  "live t \<equiv> tState t = taskQueued \<or> tState t = taskPending"

text \<open>
  Every pointer is to an allocated task; the map finds a task under its own ID; and a task that
  is queued or being processed is the one the map knows for its ID, and is in its queue once.
\<close>

definition queue_ok :: "'x syncr \<Rightarrow> bool" where
  "queue_ok s \<longleftrightarrow>
     (\<forall>q. \<forall>a \<in> set (queueOf q s). a < length (tasks s)) \<and>
     (\<forall>i a. queueHashMap s i = Some a \<longrightarrow> a < length (tasks s) \<and> tID (taskAt s a) = i) \<and>
     (\<forall>q. \<forall>a \<in> set (queueOf q s). live (taskAt s a) \<longrightarrow>
            queueHashMap s (tID (taskAt s a)) = Some a) \<and>
     distinct (taskQueue s @ filePinningQueue s)"

lemma queue_okD:
  assumes "queue_ok s"
  shows "a \<in> set (queueOf q s) \<Longrightarrow> a < length (tasks s)"
    and "queueHashMap s i = Some a \<Longrightarrow> a < length (tasks s)"
    and "queueHashMap s i = Some a \<Longrightarrow> tID (taskAt s a) = i"
    and "a \<in> set (queueOf q s) \<Longrightarrow> live (taskAt s a) \<Longrightarrow>
         queueHashMap s (tID (taskAt s a)) = Some a"
    and "distinct (taskQueue s @ filePinningQueue s)"
  using assms unfolding queue_ok_def by blast+

text \<open>The part of it that holds however the calls of \<open>enqueueTask\<close> overlap.\<close>

definition queue_wf :: "'x syncr \<Rightarrow> bool" where
  "queue_wf s \<longleftrightarrow>
     (\<forall>q. \<forall>a \<in> set (queueOf q s). a < length (tasks s)) \<and> distinct (taskQueue s @ filePinningQueue s)"

lemma queue_wfD:
  assumes "queue_wf s"
  shows "a \<in> set (queueOf q s) \<Longrightarrow> a < length (tasks s)"
    and "distinct (taskQueue s @ filePinningQueue s)"
  using assms unfolding queue_wf_def by blast+

lemma queue_ok_wf: "queue_ok s \<Longrightarrow> queue_wf s"
  by (simp add: queue_ok_def queue_wf_def)

lemma queue_wf_frame [simp]:
  "queue_wf (s\<lparr>ext := x\<rparr>) = queue_wf s" "queue_wf (s\<lparr>isRunning := b\<rparr>) = queue_wf s"
  "queue_wf (s\<lparr>sentEvents := es\<rparr>) = queue_wf s" "queue_wf (s\<lparr>waiting := n, woken := m\<rparr>) = queue_wf s"
  by (simp_all add: queue_wf_def)

lemma queue_ok_New: "queue_ok (syncr_New x)"
  by (simp add: queue_ok_def syncr_New_def queueOf_def split: queueId.split)

text \<open>The fields the invariant does not look at.\<close>

lemma queue_ok_frame [simp]:
  "queue_ok (s\<lparr>ext := x\<rparr>) = queue_ok s" "queue_ok (s\<lparr>isRunning := b\<rparr>) = queue_ok s"
  "queue_ok (s\<lparr>syncClosed := b\<rparr>) = queue_ok s" "queue_ok (s\<lparr>waiting := n\<rparr>) = queue_ok s"
  "queue_ok (s\<lparr>woken := n\<rparr>) = queue_ok s" "queue_ok (s\<lparr>sentEvents := es\<rparr>) = queue_ok s"
  "queue_ok (s\<lparr>waiting := n, woken := m\<rparr>) = queue_ok s"
  by (simp_all add: queue_ok_def)

lemma taskAt_alloc [simp]:
  "a < length (tasks s) \<Longrightarrow> taskAt (allocTask t s) a = taskAt s a"
  "taskAt (allocTask t s) (length (tasks s)) = t"
  by (simp_all add: taskAt_def allocTask_def nth_append)

lemma alloc_simps [simp]:
  "queueOf q (allocTask t s) = queueOf q s" "queueHashMap (allocTask t s) = queueHashMap s"
  "taskQueue (allocTask t s) = taskQueue s" "filePinningQueue (allocTask t s) = filePinningQueue s"
  "length (tasks (allocTask t s)) = Suc (length (tasks s))"
  "ext (allocTask t s) = ext s" "isRunning (allocTask t s) = isRunning s"
  "waiting (allocTask t s) = waiting s" "woken (allocTask t s) = woken s"
  "syncClosed (allocTask t s) = syncClosed s"
  by (simp_all add: allocTask_def queueOf_def split: queueId.split)

lemma queue_ok_alloc: "queue_ok s \<Longrightarrow> queue_ok (allocTask t s)"
  unfolding queue_ok_def by (fastforce simp: less_Suc_eq)

lemma isTaskEnqueued_alloc:
  "queue_ok s \<Longrightarrow> isTaskEnqueued t' (allocTask t s) = isTaskEnqueued t' s"
  by (auto simp: isTaskEnqueued_def split: option.splits dest: queue_okD)

lemma taskAt_enqueue [simp]: "taskAt (enqueueTask a q s) b = taskAt s b"
  by (simp add: taskAt_def enqueueTask_def pushTask_def)

lemma taskAt_enqueueFront [simp]: "taskAt (enqueueTaskAtFront a q s) b = taskAt s b"
  by (simp add: taskAt_def enqueueTaskAtFront_def)

lemma not_enqueued_dead:
  assumes "queue_ok s" "\<not> isTaskEnqueued t s" "a \<in> set (queueOf q s)" "tID (taskAt s a) = tID t"
  shows "\<not> live (taskAt s a)"
  using assms queue_okD(4) [OF assms(1,3)] by (auto simp: isTaskEnqueued_def Let_def)

text \<open>A pointer that is in no queue yet is put in one, at either end.\<close>

lemma queue_ok_insert:
  assumes "queue_ok s" "a < length (tasks s)" "a \<notin> set (taskQueue s @ filePinningQueue s)"
    "\<not> isTaskEnqueued (taskAt s a) s" "as = queueOf q s @ [a] \<or> as = a # queueOf q s"
    "s' = (setQueue q as s)\<lparr>queueHashMap := (queueHashMap s)(tID (taskAt s a) \<mapsto> a)\<rparr>"
  shows "queue_ok s'"
proof -
  have t: "taskAt s' b = taskAt s b" for b
    using assms(6) by (simp add: taskAt_def)
  have q: "set (queueOf q' s') = (if q' = q then insert a (set (queueOf q s)) else set (queueOf q' s))" for q'
    using assms(5,6) by auto
  have d: "distinct (taskQueue s' @ filePinningQueue s')"
    using assms(3,5,6) queue_okD(5) [OF assms(1)] by (cases q) (auto simp: setQueue_def)
  have live: "queueHashMap s' (tID (taskAt s' b)) = Some b"
    if "b \<in> set (queueOf q' s')" "live (taskAt s' b)" for q' b
  proof (cases "b = a")
    case True
    then show ?thesis using assms(6) t by simp
  next
    case False
    then have b: "b \<in> set (queueOf q' s)" using that q by (auto split: if_splits)
    then have "tID (taskAt s b) \<noteq> tID (taskAt s a)"
      using not_enqueued_dead [OF assms(1,4) b] that t by auto
    then show ?thesis using queue_okD(4) [OF assms(1) b] that t assms(6) by simp
  qed
  show ?thesis
    unfolding queue_ok_def
    using assms(2) d live queue_okD(1,2,3) [OF assms(1)] t q assms(6)
    by (auto split: if_splits)
qed

lemma fresh_not_in_wf: "queue_wf s \<Longrightarrow> length (tasks s) \<notin> set (taskQueue s @ filePinningQueue s)"
  using queue_wfD(1) [of s _ TaskQ] queue_wfD(1) [of s _ PinQ] by fastforce

lemmas fresh_not_in = fresh_not_in_wf [OF queue_ok_wf]

lemma queue_wf_alloc: "queue_wf s \<Longrightarrow> queue_wf (allocTask t s)"
  unfolding queue_wf_def by (fastforce simp: less_Suc_eq)

lemma queue_wf_insert:
  assumes "queue_wf s" "a < length (tasks s)" "a \<notin> set (taskQueue s @ filePinningQueue s)"
    "as = queueOf q s @ [a] \<or> as = a # queueOf q s"
  shows "queue_wf ((setQueue q as s)\<lparr>queueHashMap := m\<rparr>)"
proof -
  have "set (queueOf q' (setQueue q as s)) = (if q' = q then insert a (set (queueOf q s)) else set (queueOf q' s))" for q'
    using assms(4) by auto
  moreover have "distinct (taskQueue (setQueue q as s) @ filePinningQueue (setQueue q as s))"
    using assms(3,4) queue_wfD(2) [OF assms(1)] by (cases q) (auto simp: setQueue_def)
  ultimately show ?thesis
    unfolding queue_wf_def using assms(2) queue_wfD(1) [OF assms(1)] by (auto split: if_splits)
qed

lemma queue_wf_pushNew: "queue_wf s \<Longrightarrow> queue_wf (pushNew t q s)"
  unfolding pushNew_def pushTask_def
  by (rule queue_wf_insert) (use fresh_not_in_wf [of s] in \<open>auto simp: queue_wf_alloc\<close>)

lemma queue_wf_enqueueNew: "queue_wf s \<Longrightarrow> queue_wf (enqueueNew t q s)"
  using queue_wf_pushNew [of s t q] by (simp add: enqueueNew_def enqueueTask_def pushNew_def queue_wf_alloc)

lemma queue_wf_enqueueNewAtFront: "queue_wf s \<Longrightarrow> queue_wf (enqueueNewAtFront t q s)"
  unfolding enqueueNewAtFront_def enqueueTaskAtFront_def
  using queue_wf_insert [of "allocTask t s" "length (tasks s)" "length (tasks s) # queueOf q s" q]
    fresh_not_in_wf [of s] by (auto simp: queue_wf_alloc)

lemma queue_ok_enqueueNew: "queue_ok s \<Longrightarrow> queue_ok (enqueueNew t q s)"
  using fresh_not_in [of s] unfolding enqueueNew_def enqueueTask_def pushTask_def
  by (auto intro!: queue_ok_alloc
      queue_ok_insert [of "allocTask t s" "length (tasks s)" "queueOf q s @ [length (tasks s)]" q])

lemma queue_ok_enqueueNewAtFront: "queue_ok s \<Longrightarrow> queue_ok (enqueueNewAtFront t q s)"
  using fresh_not_in [of s] unfolding enqueueNewAtFront_def enqueueTaskAtFront_def
  by (auto intro!: queue_ok_alloc
      queue_ok_insert [of "allocTask t s" "length (tasks s)" "length (tasks s) # queueOf q s" q])

text \<open>
  What every operation that can run between two steps of a pass does to the synchronizer: it adds
  fresh tasks at the ends of the queues, moves the waiting loops, reports events and calls
  dependencies.  A predicate these keep is kept by every notification and every task.
\<close>

locale queue_stable =
  fixes P :: "'x syncr \<Rightarrow> bool"
  assumes stable_back: "P s \<Longrightarrow> P (enqueueNew t q s)"
    and stable_front: "P s \<Longrightarrow> P (enqueueNewAtFront t q s)"
    and stable_ext: "P s \<Longrightarrow> P (s\<lparr>ext := x\<rparr>)"
    and stable_events: "P s \<Longrightarrow> P (s\<lparr>sentEvents := es\<rparr>)"
    and stable_wake: "P s \<Longrightarrow> P (s\<lparr>waiting := m, woken := n\<rparr>)"
begin

lemma keeps_notify [keeps_intros]: "keeps P notifySyncNeeded"
  by (rule keepsI) (auto simp: notifySyncNeeded_def stable_wake)

lemma keeps_enqueueNew [keeps_intros]: "keeps P (modE (enqueueNew t q))"
  by (rule keeps_mod) (rule stable_back)

lemma keeps_enqueueNewAtFront [keeps_intros]: "keeps P (modE (enqueueNewAtFront t q))"
  by (rule keeps_mod) (rule stable_front)

lemma keeps_notifyTask [keeps_intros]: "keeps P (notifyTask t q)"
  unfolding notifyTask_def by (intro keeps_intros)

lemma keeps_ext [keeps_intros]: "keeps P (extE m)"
  by (rule keepsI) (simp add: extE_apply stable_ext)

lemma keeps_Notify [keeps_intros]:
  "keeps P (NotifyItemAdded b p)" "keeps P (NotifyItemRemoved b p)"
  "keeps P (NotifyBucketCreated b k)" "keeps P (NotifyBucketBackupOn b)"
  "keeps P (NotifyBucketBackupOff b)" "keeps P (NotifyBucketRestore b)"
  "keeps P (NotifyFileRestore b p)" "keeps P (NotifyBucketStartup b)"
  "keeps P (NotifyIndexItemAdded b p d)"
  by (auto simp: NotifyItemAdded_def NotifyItemRemoved_def NotifyBucketCreated_def
      NotifyBucketBackupOn_def NotifyBucketBackupOff_def NotifyBucketRestore_def
      NotifyFileRestore_def NotifyBucketStartup_def NotifyIndexItemAdded_def intro!: keeps_intros)

end

interpretation queue_ok: queue_stable queue_ok
  by unfold_locales (simp_all add: queue_ok_enqueueNew queue_ok_enqueueNewAtFront)

text \<open>
  How such operations change one queue: fresh elements appear at its ends, and the tasks in it are
  what they were.
\<close>

definition padded :: "nat \<Rightarrow> nat list \<Rightarrow> nat list \<Rightarrow> bool" where
  "padded n xs ys \<longleftrightarrow> (\<exists>fs bs. ys = fs @ xs @ bs \<and> (\<forall>b \<in> set fs \<union> set bs. n \<le> b))"

lemma padded_refl [simp]: "padded n xs xs"
  unfolding padded_def by (auto intro!: exI [of _ "[]"])

lemma padded_snoc: "n \<le> b \<Longrightarrow> padded n xs (xs @ [b])"
  unfolding padded_def by (rule exI [of _ "[]"], rule exI [of _ "[b]"]) simp

lemma padded_cons: "n \<le> b \<Longrightarrow> padded n xs (b # xs)"
  unfolding padded_def by (rule exI [of _ "[b]"], rule exI [of _ "[]"]) simp

lemma padded_trans:
  assumes "padded n xs ys" "padded m ys zs" "n \<le> m"
  shows "padded n xs zs"
proof -
  obtain fs bs where y: "ys = fs @ xs @ bs" "\<forall>b \<in> set fs \<union> set bs. n \<le> b"
    using assms(1) unfolding padded_def by blast
  obtain fs' bs' where z: "zs = fs' @ ys @ bs'" "\<forall>b \<in> set fs' \<union> set bs'. m \<le> b"
    using assms(2) unfolding padded_def by blast
  have "zs = (fs' @ fs) @ xs @ (bs @ bs')" using y z by simp
  moreover have "\<forall>b \<in> set (fs' @ fs) \<union> set (bs @ bs'). n \<le> b"
    using y(2) z(2) assms(3) by (auto dest: order_trans)
  ultimately show ?thesis unfolding padded_def by blast
qed

lemma padded_set: "padded n xs ys \<Longrightarrow> set xs \<subseteq> set ys"
  unfolding padded_def by auto

definition grows :: "queueId \<Rightarrow> 'x syncr \<Rightarrow> 'x syncr \<Rightarrow> bool" where
  "grows q s s' \<longleftrightarrow> queue_wf s' \<and> length (tasks s) \<le> length (tasks s') \<and>
     padded (length (tasks s)) (queueOf q s) (queueOf q s') \<and>
     (\<forall>a < length (tasks s). taskAt s' a = taskAt s a)"

lemma grows_refl: "queue_wf s \<Longrightarrow> grows q s s"
  unfolding grows_def by simp

lemma growsD:
  assumes "grows q s s'"
  shows "queue_wf s'" "length (tasks s) \<le> length (tasks s')"
    "padded (length (tasks s)) (queueOf q s) (queueOf q s')"
    "a < length (tasks s) \<Longrightarrow> taskAt s' a = taskAt s a"
    "a \<in> set (queueOf q s) \<Longrightarrow> a \<in> set (queueOf q s')"
  using assms padded_set unfolding grows_def by blast+

lemma queueOf_enqueueNew:
  "queueOf q' (enqueueNew t q s) = queueOf q' s \<or>
   q' = q \<and> queueOf q' (enqueueNew t q s) = queueOf q' s @ [length (tasks s)]"
  by (cases "q' = q") (auto simp: enqueueNew_def enqueueTask_def pushTask_def)

lemma queueOf_enqueueNewAtFront:
  "queueOf q' (enqueueNewAtFront t q s) = queueOf q' s \<or>
   q' = q \<and> queueOf q' (enqueueNewAtFront t q s) = length (tasks s) # queueOf q' s"
  by (cases "q' = q") (auto simp: enqueueNewAtFront_def enqueueTaskAtFront_def)

lemma taskAt_enqueueNew [simp]: "a < length (tasks s) \<Longrightarrow> taskAt (enqueueNew t q s) a = taskAt s a"
  by (simp add: enqueueNew_def)

lemma taskAt_enqueueNewAtFront [simp]:
  "a < length (tasks s) \<Longrightarrow> taskAt (enqueueNewAtFront t q s) a = taskAt s a"
  by (simp add: enqueueNewAtFront_def)

lemma length_enqueueNew [simp]:
  "length (tasks (enqueueNew t q s)) = Suc (length (tasks s))"
  "length (tasks (enqueueNewAtFront t q s)) = Suc (length (tasks s))"
  by (simp_all add: enqueueNew_def enqueueTask_def pushTask_def enqueueNewAtFront_def enqueueTaskAtFront_def)

lemma grows_append:
  assumes "grows q s s1" "queue_wf s2" "length (tasks s1) \<le> length (tasks s2)"
    "\<forall>a < length (tasks s1). taskAt s2 a = taskAt s1 a"
    "queueOf q s2 = queueOf q s1 \<or> queueOf q s2 = queueOf q s1 @ [length (tasks s1)] \<or>
     queueOf q s2 = length (tasks s1) # queueOf q s1"
  shows "grows q s s2"
proof -
  have l: "length (tasks s) \<le> length (tasks s1)" using assms(1) by (rule growsD)
  have "padded (length (tasks s1)) (queueOf q s1) (queueOf q s2)"
    using assms(5) padded_snoc [of _ "length (tasks s1)"] padded_cons [of _ "length (tasks s1)"] by auto
  then have "padded (length (tasks s)) (queueOf q s) (queueOf q s2)"
    using padded_trans growsD(3) [OF assms(1)] l by blast
  then show ?thesis
    using assms growsD(4) [OF assms(1)] l unfolding grows_def by auto
qed

interpretation grows: queue_stable "grows q s" for q s
proof unfold_locales
  fix s1 t q'
  assume g: "grows q s s1"
  show "grows q s (enqueueNew t q' s1)"
    using queueOf_enqueueNew [of q t q' s1] growsD(1) [OF g]
    by (intro grows_append [OF g]) (auto simp: queue_wf_enqueueNew)
  show "grows q s (enqueueNewAtFront t q' s1)"
    using queueOf_enqueueNewAtFront [of q t q' s1] growsD(1) [OF g]
    by (intro grows_append [OF g])
      (auto simp: queue_wf_enqueueNewAtFront)
qed (simp_all add: grows_def)

subsection \<open>Restoring a stored queue\<close>

lemma enqueueAll_fresh:
  "el < length (tasks s) \<Longrightarrow> distinct (map tID ts) \<Longrightarrow>
   \<forall>t \<in> set ts. queueHashMap s (tID t) = None \<Longrightarrow>
   s' = enqueueAll el q ts s \<Longrightarrow>
     tasks s' = (if ts = [] then tasks s else (tasks s)[el := last ts]) \<and>
     queueOf q s' = queueOf q s @ replicate (length ts) el \<and>
     (\<forall>q'. q' \<noteq> q \<longrightarrow> queueOf q' s' = queueOf q' s) \<and>
     queueHashMap s' = (\<lambda>i. if i \<in> tID ` set ts then Some el else queueHashMap s i) \<and>
     ext s' = ext s"
proof (induction ts arbitrary: s)
  case (Cons t ts)
  let ?s = "setTask el t s"
  let ?e = "enqueueTask el q ?s"
  have t: "taskAt ?s el = t" using Cons.prems by (simp add: taskAt_def setTask_def)
  have "\<not> isTaskEnqueued t ?s"
    using Cons.prems by (simp add: isTaskEnqueued_def setTask_def)
  then have e: "?e = (setQueue q (queueOf q s @ [el]) ?s)\<lparr>queueHashMap := (queueHashMap s)(tID t \<mapsto> el)\<rparr>"
    using t by (simp add: enqueueTask_def pushTask_def setTask_def)
  have p: "tasks ?e = (tasks s)[el := t]" "queueOf q ?e = queueOf q s @ [el]"
    "\<forall>q'. q' \<noteq> q \<longrightarrow> queueOf q' ?e = queueOf q' s"
    "queueHashMap ?e = (queueHashMap s)(tID t \<mapsto> el)" "ext ?e = ext s"
    unfolding e by (simp_all add: setTask_def)
  have "\<forall>t' \<in> set ts. queueHashMap ?e (tID t') = None" "distinct (map tID ts)"
    using Cons.prems(2,3) p(4) by (auto simp: image_iff)
  moreover have "el < length (tasks ?e)" "s' = enqueueAll el q ts ?e"
    using Cons.prems(1,4) p(1) by simp_all
  ultimately show ?case
    using Cons.IH [of ?e] p by (auto simp: fun_eq_iff)
qed auto

lemma enqueueSlice_fresh:
  assumes "distinct (map tID ts)" "\<forall>t \<in> set ts. queueHashMap s (tID t) = None"
  shows "tasks (enqueueSlice q ts s) = tasks s @ [if ts = [] then zeroTask else last ts]"
    and "queueOf q (enqueueSlice q ts s) = queueOf q s @ replicate (length ts) (length (tasks s))"
    and "\<forall>q'. q' \<noteq> q \<longrightarrow> queueOf q' (enqueueSlice q ts s) = queueOf q' s"
    and "queueHashMap (enqueueSlice q ts s) =
           (\<lambda>i. if i \<in> tID ` set ts then Some (length (tasks s)) else queueHashMap s i)"
    and "ext (enqueueSlice q ts s) = ext s"
proof -
  note e = enqueueAll_fresh [of "length (tasks s)" "allocTask zeroTask s" ts, OF _ assms(1) _ refl, of q]
  then show "tasks (enqueueSlice q ts s) = tasks s @ [if ts = [] then zeroTask else last ts]"
    using assms(2) by (simp add: enqueueSlice_def) (simp add: allocTask_def)
  show "queueOf q (enqueueSlice q ts s) = queueOf q s @ replicate (length ts) (length (tasks s))"
    "\<forall>q'. q' \<noteq> q \<longrightarrow> queueOf q' (enqueueSlice q ts s) = queueOf q' s"
    "queueHashMap (enqueueSlice q ts s) =
       (\<lambda>i. if i \<in> tID ` set ts then Some (length (tasks s)) else queueHashMap s i)"
    "ext (enqueueSlice q ts s) = ext s"
    using e assms(2) by (simp_all add: enqueueSlice_def cong: if_cong)
qed

text \<open>What restoring leaves in an empty synchronizer.\<close>

definition restored :: "task list \<Rightarrow> task list" where
  "restored ts = replicate (length ts) (last ts)"

lemma restored_exact: "distinct (map tID ts) \<Longrightarrow> restored ts = ts \<longleftrightarrow> length ts \<le> 1"
proof -
  assume d: "distinct (map tID ts)"
  have "length ts \<le> 1" if "restored ts = ts"
  proof (rule ccontr)
    assume "\<not> length ts \<le> 1"
    then have l: "0 < length ts" "1 < length ts" by auto
    have "ts ! i = last ts" if "i < length ts" for i
      using \<open>restored ts = ts\<close> that by (metis restored_def nth_replicate)
    then have "ts ! 0 = ts ! 1" using l by simp
    then have "map tID ts ! 0 = map tID ts ! 1" using l by simp
    then show False using d l nth_eq_iff_index_eq [of "map tID ts" 0 1] by simp
  qed
  moreover have "restored ts = ts" if "length ts \<le> 1"
    using that by (cases ts) (auto simp: restored_def)
  ultimately show ?thesis by blast
qed

definition emptyQueues :: "'x syncr \<Rightarrow> bool" where
  "emptyQueues s \<longleftrightarrow> tasks s = [] \<and> taskQueue s = [] \<and> filePinningQueue s = [] \<and>
     queueHashMap s = Map.empty"

lemma enqueue_both_slices:
  assumes "emptyQueues s" "distinct (map tID (qs @ fs))"
  defines "s' \<equiv> enqueueSlice PinQ fs (enqueueSlice TaskQ qs s)"
  shows "map (taskAt s') (taskQueue s') = restored qs"
    and "map (taskAt s') (filePinningQueue s') = restored fs"
    and "ext s' = ext s"
proof -
  have p: "distinct (map tID qs)" "distinct (map tID fs)" "\<forall>t \<in> set fs. tID t \<notin> tID ` set qs"
    using assms(2) by auto
  have "\<forall>t \<in> set qs. queueHashMap s (tID t) = None" using assms(1) by (simp add: emptyQueues_def)
  note a = enqueueSlice_fresh [of qs s TaskQ, OF p(1) this]
  then have a': "tasks (enqueueSlice TaskQ qs s) = [if qs = [] then zeroTask else last qs]"
    "queueOf TaskQ (enqueueSlice TaskQ qs s) = replicate (length qs) 0"
    "queueOf PinQ (enqueueSlice TaskQ qs s) = []" "ext (enqueueSlice TaskQ qs s) = ext s"
    using a(3) [THEN spec, of PinQ] assms(1) by (simp_all add: emptyQueues_def)
  have "\<forall>t \<in> set fs. queueHashMap (enqueueSlice TaskQ qs s) (tID t) = None"
    using a(4) p(3) assms(1) by (simp add: emptyQueues_def)
  note b = enqueueSlice_fresh [of fs "enqueueSlice TaskQ qs s" PinQ, OF p(2) this]
  have b': "tasks s' = [if qs = [] then zeroTask else last qs, if fs = [] then zeroTask else last fs]"
    "queueOf TaskQ s' = replicate (length qs) 0" "queueOf PinQ s' = replicate (length fs) 1"
    "ext s' = ext s"
    using b b(3) [THEN spec, of TaskQ] a' by (simp_all add: s'_def)
  show "map (taskAt s') (taskQueue s') = restored qs"
    "map (taskAt s') (filePinningQueue s') = restored fs" "ext s' = ext s"
    using b' by (auto simp: taskAt_def restored_def)
qed

context kv_store
begin

lemma restore_after_store:
  assumes "ok (ext s)" "storeQueue S s = (Inr u, s1)"
    and "qs = map (taskAt s) (taskQueue s)" "fs = map (taskAt s) (filePinningQueue s)"
    and "list_all storable (qs @ fs)" "ext s0 = ext s1"
  shows "restoreQueue S s0 = (Inr (), enqueueSlice PinQ fs (enqueueSlice TaskQ qs s0))"
proof -
  have "sSet S QueueStoreKey (marshalQueue qs fs) (ext s) = (Inr u, ext s1)"
    using assms(2-4) by (auto simp: storeQueue_def extE_apply prod_eq_iff)
  from get_after_set [OF assms(1) this]
  have g: "extE (sGet S QueueStoreKey) s0 = (Inr (marshalQueue qs fs), s0)"
    using assms(6) by (simp add: extE_apply)
  have "unmarshalQueue (marshalQueue qs fs) = Inr (qs, fs)"
    using assms(5) by (intro unmarshal_marshal) auto
  with g show ?thesis
    by (simp add: restoreQueue_def bindE_apply thenE_apply)
qed

end

subsection \<open>Properties\<close>

text \<open>
  C26. Storing the queue and reading it back: the bytes written are JSON from which both queues are
  read back, task by task and field by field, when the strings are ASCII and the counters are
  64-bit integers.
\<close>

theorem stored_queue_reads_back:
  assumes "list_all storable qs" "list_all storable fs"
  shows "unmarshalQueue (marshalQueue qs fs) = Inr (qs, fs)"
  by (rule unmarshal_marshal [OF assms])

definition demoTasks :: "task list" where
  "demoTasks = [newTask addItemTask [''personal'', ''/a b''], newTask removeItemTask [''personal'', ''c'']]"

lemma demoTasks_storable: "list_all storable demoTasks"
  by (simp add: demoTasks_def storable_def ascii_lit addItemTask_def removeItemTask_def taskQueued_def)

theorem stored_queue_reads_back_witness:
  "unmarshalQueue (marshalQueue demoTasks []) = Inr (demoTasks, [])"
  by (rule stored_queue_reads_back [OF demoTasks_storable]) simp


definition demoStore :: "(bytes \<times> bytes) list store" where
  "demoStore = \<lparr> rootDir = ''/'', db = [], isOpen = True \<rparr>"

definition demoQueue :: "(bytes \<times> bytes) list store syncr" where
  "demoQueue = (syncr_New demoStore)\<lparr>tasks := demoTasks, taskQueue := [0, 1]\<rparr>"


text \<open>
  Enqueueing a new task: if a live task with the same ID is known, no queue changes and the new
  one is dropped; otherwise it is appended to its queue, with everything ahead of it as it was, and
  is reported as enqueued from then on.  The invariant of the queues holds afterwards.
\<close>

theorem enqueueNew_effect:
  assumes "queue_ok s" "tState t = taskQueued"
  shows "queueOf q' (enqueueNew t q s) =
      (if q' = q \<and> \<not> isTaskEnqueued t s then queueOf q' s @ [length (tasks s)] else queueOf q' s) \<and>
    taskAt (enqueueNew t q s) (length (tasks s)) = t \<and>
    isTaskEnqueued t (enqueueNew t q s) \<and> queue_ok (enqueueNew t q s)"
proof -
  have d: "isTaskEnqueued t (allocTask t s) = isTaskEnqueued t s"
    by (rule isTaskEnqueued_alloc [OF assms(1)])
  have "isTaskEnqueued t (enqueueNew t q s)"
  proof (cases "isTaskEnqueued t s")
    case True
    then have "enqueueNew t q s = allocTask t s" using d by (simp add: enqueueNew_def enqueueTask_def pushTask_def)
    then show ?thesis using d True by simp
  next
    case False
    then have "queueHashMap (enqueueNew t q s) (tID t) = Some (length (tasks s))"
      using d by (simp add: enqueueNew_def enqueueTask_def pushTask_def)
    then show ?thesis using assms(2) by (simp add: isTaskEnqueued_def enqueueNew_def)
  qed
  moreover have "queueOf q' (enqueueNew t q s) =
      (if q' = q \<and> \<not> isTaskEnqueued t s then queueOf q' s @ [length (tasks s)] else queueOf q' s)"
    "taskAt (enqueueNew t q s) (length (tasks s)) = t"
    using d by (cases "q' = q"; simp add: enqueueNew_def enqueueTask_def pushTask_def)+
  ultimately show ?thesis using queue_ok_enqueueNew [OF assms(1)] by blast
qed

theorem enqueueNew_effect_witness:
  "queueOf TaskQ (enqueueNew (newTask addItemTask [''b'', ''p'']) TaskQ (syncr_New ())) = [0]"
  using enqueueNew_effect [OF queue_ok_New [of "()"], of "newTask addItemTask [''b'', ''p'']" TaskQ TaskQ]
  by (simp add: syncr_New_def isTaskEnqueued_def)

text \<open>
  Two tasks of one type get the same ID exactly when their arguments are the same, provided no
  argument holds an underscore.
\<close>

theorem task_ids_distinct:
  assumes "as \<noteq> []" "bs \<noteq> []" "\<forall>a \<in> set (as @ bs). CHR ''_'' \<notin> set a"
  shows "tID (newTask ty as) = tID (newTask ty bs) \<longleftrightarrow> as = bs"
proof
  assume "tID (newTask ty as) = tID (newTask ty bs)"
  then have "strSplit (strJoin as ''_'') ''_'' = strSplit (strJoin bs ''_'') ''_''" by simp
  then show "as = bs"
    using assms strSplit_strJoin [of as "CHR ''_''"] strSplit_strJoin [of bs "CHR ''_''"] by auto
qed simp

theorem task_ids_distinct_witness:
  "tID (newTask addItemTask [''b'', ''p'']) \<noteq> tID (newTask addItemTask [''b'', ''q''])"
  using task_ids_distinct [of "[''b'', ''p'']" "[''b'', ''q'']" addItemTask] by simp

text \<open>
  C28. With an underscore they can collide: whatever the names \<open>a\<close>, \<open>b\<close> and \<open>c\<close>, the file \<open>c\<close> of bucket
  \<open>a_b\<close> and the file \<open>b_c\<close> of bucket \<open>a\<close> get one ID.  While a task for the first is queued, a notification of
  the second enqueues nothing, and every live task with its ID is the one for the first.
\<close>

theorem task_ids_collide:
  assumes "queue_ok s" "\<not> isTaskEnqueued (newTask addItemTask [a @ ''_'' @ b, c]) s"
    and "s1 = snd (NotifyItemAdded (a @ ''_'' @ b) c s)" "s2 = snd (NotifyItemAdded a (b @ ''_'' @ c) s1)"
  shows "queueOf TaskQ s1 = queueOf TaskQ s @ [length (tasks s)] \<and> queueOf q s2 = queueOf q s1 \<and>
    (x \<in> set (queueOf q s2) \<and> live (taskAt s2 x) \<and>
       tID (taskAt s2 x) = tID (newTask addItemTask [a, b @ ''_'' @ c]) \<longrightarrow>
     tArgs (taskAt s2 x) = [a @ ''_'' @ b, c] \<and> tArgs (taskAt s2 x) \<noteq> [a, b @ ''_'' @ c])"
proof -
  let ?t = "newTask addItemTask [a @ ''_'' @ b, c]" and ?u = "newTask addItemTask [a, b @ ''_'' @ c]"
  have notify: "queueOf q' (snd (notifyTask t TaskQ s')) = queueOf q' (enqueueNew t TaskQ s')"
    "taskAt (snd (notifyTask t TaskQ s')) = taskAt (enqueueNew t TaskQ s')"
    "isTaskEnqueued t' (snd (notifyTask t TaskQ s')) = isTaskEnqueued t' (enqueueNew t TaskQ s')"
    "queueHashMap (snd (notifyTask t TaskQ s')) = queueHashMap (enqueueNew t TaskQ s')" for q' t t' s'
    by (auto simp: notifyTask_def thenE_apply notifySyncNeeded_def isTaskEnqueued_def fun_eq_iff split: option.splits)
  have id: "tID ?u = tID ?t" by simp
  note e1 = enqueueNew_effect [OF assms(1), of ?t _ TaskQ]
  have s1: "queue_ok s1" "isTaskEnqueued ?u s1" "queueOf TaskQ s1 = queueOf TaskQ s @ [length (tasks s)]"
    "taskAt s1 (length (tasks s)) = ?t"
    using e1 assms(2) keepsD [OF queue_ok.keeps_Notify(1) assms(1)]
    unfolding assms(3) NotifyItemAdded_def notify by (simp_all add: isTaskEnqueued_def)
  note e2 = enqueueNew_effect [OF s1(1), of ?u _ TaskQ]
  have s2: "queueOf q s2 = queueOf q s1" "queue_ok s2"
    using e2 s1(2) keepsD [OF queue_ok.keeps_Notify(1) s1(1)]
    unfolding assms(4) NotifyItemAdded_def notify by (simp_all split: if_splits)
  have l: "length (tasks s) < length (tasks s1)"
    using queue_okD(1) [OF s1(1), of "length (tasks s)" TaskQ] s1(3) by simp
  have t2: "taskAt s2 y = taskAt s1 y" if "y < length (tasks s1)" for y
    using that unfolding assms(4) NotifyItemAdded_def notify by simp
  have first: "length (tasks s) \<in> set (queueOf TaskQ s2)" "taskAt s2 (length (tasks s)) = ?t"
    using s1(3,4) t2 [OF l] e2 s1(2) unfolding assms(4) NotifyItemAdded_def notify by simp_all
  have "x = length (tasks s)"
    if x: "x \<in> set (queueOf q s2)" "live (taskAt s2 x)" "tID (taskAt s2 x) = tID ?u"
    using queue_okD(4) [OF s2(2) x(1,2)] queue_okD(4) [OF s2(2) first(1)] x(3) first(2) by simp
  then show ?thesis using s1(3) s2(1) first(2) by auto
qed

theorem task_ids_collide_witness:
  "taskQueue (snd (NotifyItemAdded ''a'' ''b_c'' (snd (NotifyItemAdded ''a_b'' ''c'' (syncr_New ()))))) = [0]"
proof -
  have "\<not> isTaskEnqueued (newTask addItemTask [''a'' @ ''_'' @ ''b'', ''c'']) (syncr_New ())"
    by (simp add: isTaskEnqueued_def syncr_New_def)
  from task_ids_collide [OF queue_ok_New this refl refl, of TaskQ 0] show ?thesis
    by (simp add: syncr_New_def)
qed

end
