(* ===== verification/SyncTasks.thy ===== *)
theory SyncTasks
  imports TaskQueue Bucket
begin

text \<open>
  What the synchronizer's tasks do: \<open>core/textile/sync/task-executors.go\<close>, \<open>pinning.go\<close>,
  \<open>mirror.go\<close>, \<open>restore.go\<close> and \<open>threads.go\<close>.

  \<open>syncDeps\<close> holds the interfaces a task calls: the model, the keychain, the local and mirror
  buckets, the hub.  They act on \<open>'x\<close>, the \<open>ext\<close> part of the synchronizer's state, so none of them
  can touch the queues; a task itself runs on the whole state.  \<open>uploadFileToBucket\<close> and
  \<open>downloadFile\<close> copy through a pipe: the reader sees the bytes the source wrote before it failed,
  then the end of the file.
\<close>

record 'x syncDeps =
  dFindBucket :: "bytes \<Rightarrow> ('x, bucketSchema) eff"
  dFindMirrorFile :: "bytes \<Rightarrow> bytes \<Rightarrow> ('x, mirrorFileSchema option) eff"
  dUpdateMirrorFile :: "mirrorFileSchema \<Rightarrow> ('x, mirrorFileSchema) eff"
  dCreateMirrorFile :: "mirrorFile \<Rightarrow> ('x, mirrorFileSchema) eff"
  dModelCreateMirrorBucket :: "bytes \<Rightarrow> mirrorBucketSchema \<Rightarrow> ('x, bucketSchema) eff"
  dFindReceivedFile :: "bytes \<Rightarrow> bytes \<Rightarrow> bytes \<Rightarrow> ('x, receivedFileSchema) eff"
  dUpdateSearchIndexRecord ::
    "bytes \<Rightarrow> bytes \<Rightarrow> bytes \<Rightarrow> bytes \<Rightarrow> bytes \<Rightarrow> ('x, indexRecord) eff"
  dDeleteSearchIndexRecord :: "bytes \<Rightarrow> bytes \<Rightarrow> bytes \<Rightarrow> bytes \<Rightarrow> ('x, unit) eff"
  dGetBucket :: "bytes \<Rightarrow> ('x, 'x bucket) eff"
  dGetMirrorBucket :: "bytes \<Rightarrow> ('x, 'x bucket) eff"
  dGetBucketCtx :: "bytes \<Rightarrow> bytes \<Rightarrow> bool \<Rightarrow> bytes \<Rightarrow> ('x, ctx) eff"
  dAddBucketListener :: "bytes \<Rightarrow> ('x, unit) eff"
  dUserPubKey :: "('x, bytes) eff"
  dParseDbID :: "bytes \<Rightarrow> err + bytes"
  dDbIDString :: "bytes \<Rightarrow> bytes"
  dHubMa :: bytes
  dHubTarget :: bytes
  dAddReplicator :: "bytes \<Rightarrow> bytes \<Rightarrow> ('x, unit) eff"
  dGetHubContext :: "('x, ctx) eff"
  dNewDeterministicThreadID :: "bytes \<Rightarrow> ('x, bytes) eff"
  dGetManagedThreadKey :: "bytes \<Rightarrow> ('x, bytes) eff"
  dHubGetDBInfo :: "ctx \<Rightarrow> bytes \<Rightarrow> ('x, bytes) eff"
  dHubNewDB :: "ctx \<Rightarrow> bytes \<Rightarrow> bytes \<Rightarrow> ('x, unit) eff"
  dHubBucketsList :: "ctx \<Rightarrow> ('x, bucketRoot list) eff"
  dHubBucketsCreate :: "ctx \<Rightarrow> bytes \<Rightarrow> ('x, bucketRoot) eff"
  dFormatTime :: "int \<Rightarrow> bytes"
  dFuel :: nat

definition errorE :: "string \<Rightarrow> ('w, 'a) eff" where
  "errorE m = failE (Err m)"

definition argE :: "task \<Rightarrow> nat \<Rightarrow> ('w, bytes) eff" where
  "argE t i = liftE (idx (tArgs t) i)"

definition checkTaskType :: "task \<Rightarrow> taskType \<Rightarrow> ('w, unit) eff" where
  "checkTaskType t tp =
     (if tp \<noteq> tType t then errorE ''expected different task type at Textile synchronizer''
      else retE ())"

subsection \<open>mirror.go\<close>

definition setMirrorFileBackup :: "'x syncDeps \<Rightarrow> bytes \<Rightarrow> bytes \<Rightarrow> bool \<Rightarrow> ('x, unit) eff" where
  "setMirrorFileBackup D path bucketSlug isInProgress =
     bindE (dFindMirrorFile D path bucketSlug) (\<lambda>mf.
       case mf of
         Some m \<Rightarrow>
           bindE (dUpdateMirrorFile D
             (m\<lparr>msBackup := \<not> isInProgress, msBackupInProgress := isInProgress\<rparr>)) (\<lambda>_. retE ())
       | None \<Rightarrow>
           bindE (dCreateMirrorFile D
             \<lparr> mfPath = path, mfBucketSlug = bucketSlug, mfBackup = \<not> isInProgress,
               mfShared = False, mfBackupInProgress = isInProgress,
               mfRestoreInProgress = False \<rparr>) (\<lambda>_. retE ()))"

definition unsetMirrorFileBackup :: "'x syncDeps \<Rightarrow> bytes \<Rightarrow> bytes \<Rightarrow> ('x, unit) eff" where
  "unsetMirrorFileBackup D path bucketSlug =
     bindE (dFindMirrorFile D path bucketSlug) (\<lambda>mf.
       case mf of
         None \<Rightarrow> retE ()
       | Some m \<Rightarrow>
           bindE (dUpdateMirrorFile D (m\<lparr>msBackup := False, msBackupInProgress := False\<rparr>))
             (\<lambda>_. retE ()))"

text \<open>The role \<open>buckets.Admin\<close> is the string \<open>admin\<close>.\<close>

definition addCurrentUserAsFileOwner :: "'x syncDeps \<Rightarrow> bytes \<Rightarrow> bytes \<Rightarrow> ('x, unit) eff" where
  "addCurrentUserAsFileOwner D bucket path =
     bindE (dFindBucket D bucket) (\<lambda>bm.
     bindE (dUserPubKey D) (\<lambda>tpk.
     bindE (dGetMirrorBucket D bucket) (\<lambda>mirror.
       case bsMirror bm of
         None \<Rightarrow> failE (Panic ''nil pointer dereference'')
       | Some mb \<Rightarrow>
           bindE (dGetBucketCtx D (mbRemoteDbID mb) (mbRemoteBucketSlug mb) True (bsEncryptionKey bm))
             (\<lambda>c. cPushPathAccessRoles (bClient mirror) c (bdKey (GetData mirror)) path
                    [(tpk, ''admin'')]))))"

definition mirrorThreadKeyName :: bytes where
  "mirrorThreadKeyName = ''mirrorV1''"

definition MirrorBucketVariantGen :: "bytes \<Rightarrow> bytes" where
  "MirrorBucketVariantGen mirrorBucketSlug = ''mirror_bucket'' @ '':'' @ mirrorBucketSlug"

definition createMirrorThread :: "'x syncDeps \<Rightarrow> bytes \<Rightarrow> ('x, bytes) eff" where
  "createMirrorThread D slug =
     bindE (dGetHubContext D) (\<lambda>c.
     bindE (dNewDeterministicThreadID D (MirrorBucketVariantGen slug)) (\<lambda>dbID.
     bindE (dGetManagedThreadKey D (mirrorThreadKeyName @ ''_'' @ slug)) (\<lambda>managedKey.
     bindE (tryE (dHubGetDBInfo D c dbID)) (\<lambda>info.
       case info of
         Inr _ \<Rightarrow> retE dbID
       | Inl _ \<Rightarrow> thenE (dHubNewDB D c dbID managedKey) (retE dbID)))))"

definition createMirrorBucket :: "'x syncDeps \<Rightarrow> bytes \<Rightarrow> bytes \<Rightarrow> ('x, mirrorBucketSchema) eff" where
  "createMirrorBucket D slug enckey =
     (let newSlug = slug @ ''_mirror'' in
      bindE (createMirrorThread D newSlug) (\<lambda>dbID.
      bindE (dGetBucketCtx D (dDbIDString D dbID) newSlug True enckey) (\<lambda>hubCtx.
      bindE (dHubBucketsList D hubCtx) (\<lambda>roots.
      bindE (case filter (\<lambda>b. rtName b = newSlug) roots of
               b # _ \<Rightarrow> retE b
             | [] \<Rightarrow> dHubBucketsCreate D hubCtx newSlug) (\<lambda>root.
        retE \<lparr> mbRemoteDbID = dDbIDString D dbID, mbRemoteBucketKey = rtKey root,
               mbHubAddr = dHubTarget D, mbRemoteBucketSlug = newSlug \<rparr>)))))"

subsection \<open>threads.go\<close>

definition replicateThreadToHub :: "'x syncDeps \<Rightarrow> bytes \<Rightarrow> ('x, unit) eff" where
  "replicateThreadToHub D dbID =
     (if dHubMa D = [] then errorE ''no textile hub set'' else dAddReplicator D dbID (dHubMa D))"

definition dereplicateThreadFromHub :: "'x syncDeps \<Rightarrow> bytes \<Rightarrow> ('x, unit) eff" where
  "dereplicateThreadFromHub D dbID = retE ()"

subsection \<open>pinning.go\<close>

text \<open>
  The copy through a pipe: an error of the writing side, or else of the goroutine that reads the
  source, which is looked at only after the write.
\<close>

definition copyThrough ::
  "'x syncDeps \<Rightarrow> (bytes \<Rightarrow> ('x, bytes \<times> bytes) eff) \<Rightarrow> 'x bucket \<Rightarrow> bytes \<Rightarrow> bytes \<Rightarrow> ('x, unit) eff" where
  "copyThrough D push src targetSlug path =
     bindE (GetFile src path) (\<lambda>(content, e).
     bindE (push content) (\<lambda>_.
       case e of
         Some m \<Rightarrow> errorE m
       | None \<Rightarrow> bindE (tryE (addCurrentUserAsFileOwner D targetSlug path)) (\<lambda>_. retE ())))"

definition uploadFileToBucket ::
  "'x syncDeps \<Rightarrow> 'x bucket \<Rightarrow> 'x bucket \<Rightarrow> bytes \<Rightarrow> ('x, unit) eff" where
  "uploadFileToBucket D source target path =
     copyThrough D (UploadFile target path) source (bucket_Slug target) path"

definition downloadFile ::
  "'x syncDeps \<Rightarrow> 'x bucket \<Rightarrow> 'x bucket \<Rightarrow> bytes \<Rightarrow> ('x, unit) eff" where
  "downloadFile D source target path =
     copyThrough D (DownloadFile target path) source (bucket_Slug target) path"

definition uploadFileToRemote :: "'x syncDeps \<Rightarrow> bytes \<Rightarrow> bytes \<Rightarrow> ('x, unit) eff" where
  "uploadFileToRemote D bucket path =
     bindE (dGetMirrorBucket D bucket) (\<lambda>mirrorBucket.
     bindE (dGetBucket D bucket) (\<lambda>localBucket.
       uploadFileToBucket D localBucket mirrorBucket path))"

definition deleteFileFromRemote :: "'x syncDeps \<Rightarrow> bytes \<Rightarrow> bytes \<Rightarrow> ('x, unit) eff" where
  "deleteFileFromRemote D bucket path =
     bindE (dGetMirrorBucket D bucket) (\<lambda>mirrorBucket.
     bindE (DeleteDirOrFile mirrorBucket path) (\<lambda>_. retE ()))"

text \<open>
  The two recursive walks over a local bucket; the fuel bounds the depth of the directories.
\<close>

fun notifyAllFiles ::
  "'x syncDeps \<Rightarrow> (bytes \<Rightarrow> ('x syncr, unit) eff) \<Rightarrow> nat \<Rightarrow> bytes \<Rightarrow> bytes \<Rightarrow> ('x syncr, unit) eff" where
  "notifyAllFiles D notify 0 bucket path = failE outOfFuel"
| "notifyAllFiles D notify (Suc n) bucket path =
     bindE (extE (dGetBucket D bucket)) (\<lambda>localBucket.
     bindE (extE (ListDirectory localBucket path)) (\<lambda>dir.
       forE (dlItems dir) (\<lambda>item.
         if IsMetaFileName (piName item) then retE ()
         else if piIsDir item then notifyAllFiles D notify n bucket (piPath item)
         else notify (piPath item))))"

definition uploadAllFilesInPath :: "'x syncDeps \<Rightarrow> bytes \<Rightarrow> bytes \<Rightarrow> ('x syncr, unit) eff" where
  "uploadAllFilesInPath D bucket path =
     notifyAllFiles D (NotifyItemAdded bucket) (dFuel D) bucket path"

definition deleteAllFilesInPath :: "'x syncDeps \<Rightarrow> bytes \<Rightarrow> bytes \<Rightarrow> ('x syncr, unit) eff" where
  "deleteAllFilesInPath D bucket path =
     notifyAllFiles D (NotifyItemRemoved bucket) (dFuel D) bucket path"


subsection \<open>restore.go\<close>

datatype which = SrcBucket | TargetBucket

text \<open>\<open>newerBucketPath\<close> returns one of its two arguments; here, which one.\<close>

definition newerBucketPath :: "'x bucket \<Rightarrow> 'x bucket \<Rightarrow> bytes \<Rightarrow> ('x, which) eff" where
  "newerBucketPath src target path =
     bindE (UpdatedAt target path) (\<lambda>targetUpdatedAt.
     bindE (tryE (UpdatedAt src path)) (\<lambda>r.
       case r of
         Inl _ \<Rightarrow> retE TargetBucket
       | Inr srcUpdatedAt \<Rightarrow>
           if srcUpdatedAt \<ge> targetUpdatedAt then retE SrcBucket else retE TargetBucket))"

definition MapDirEntryToFileInfo :: "'x syncDeps \<Rightarrow> dirEntries \<Rightarrow> bytes \<Rightarrow> fileInfo" where
  "MapDirEntryToFileInfo D entry itemPath = (let it = dlItem entry in
     \<lparr> dePath = itemPath, deIsDir = piIsDir it, deName = piName it,
       deSizeInBytes = formatInt (piSize it), deCreated = dFormatTime D (piUpdatedAt it),
       deUpdated = dFormatTime D (piUpdatedAt it),
       deFileExtension = strReplaceAll (pathExt (piName it)) ''.'' [], deMembers = [],
       fiIpfsHash = piCid it, fiBackedUp = False, fiLocallyAvailable = False,
       fiBackupInProgress = False, fiRestoreInProgress = False \<rparr>)"

text \<open>
  \<open>item, err := b.ListDirectory(\<dots>); if s.eventNotifier != nil && err == nil { \<dots> }\<close>, with the flags
  set on the info as the argument.  The last component is the value \<open>err\<close> is left with.
\<close>

definition listAndNotify ::
  "'x syncDeps \<Rightarrow> 'x bucket \<Rightarrow> bytes \<Rightarrow> (fileInfo \<Rightarrow> fileInfo) \<Rightarrow> fileEventType \<Rightarrow> bytes \<Rightarrow> bytes \<Rightarrow>
   ('x syncr, string option) eff" where
  "listAndNotify D b path flags ty bucket dbID =
     bindE (tryE (extE (ListDirectory b path))) (\<lambda>r.
       case r of
         Inl e \<Rightarrow> retE (Some e)
       | Inr item \<Rightarrow>
           thenE (modE (\<lambda>s. if notifierAttached s
             then s\<lparr>sentEvents := sentEvents s @
                 [NewFileEvent (flags (MapDirEntryToFileInfo D item path)) ty bucket dbID]\<rparr>
             else s))
           (retE None))"

definition restoreIterator ::
  "'x syncDeps \<Rightarrow> 'x bucket \<Rightarrow> 'x bucket \<Rightarrow> bytes \<Rightarrow> bytes \<Rightarrow> ('x syncr, unit) eff" where
  "restoreIterator D localBucket mirrorBucket bucketSlug itemPath =
     bindE (tryE (extE (FileExists localBucket itemPath))) (\<lambda>r.
       let exists = (case r of Inl _ \<Rightarrow> False | Inr b \<Rightarrow> b) in
       bindE (if exists then extE (newerBucketPath localBucket mirrorBucket itemPath)
              else retE TargetBucket) (\<lambda>newer.
         if exists \<and> newer = SrcBucket then retE ()
         else
           bindE (extE (dFindBucket D bucketSlug)) (\<lambda>bm.
           bindE (listAndNotify D mirrorBucket itemPath
             (\<lambda>i. i\<lparr>fiBackedUp := True, fiLocallyAvailable := exists, fiRestoreInProgress := True\<rparr>)
             ''FileRestoring'' bucketSlug (bsDbID bm)) (\<lambda>_.
             NotifyFileRestore bucketSlug itemPath))))"

definition restoreBucket :: "'x syncDeps \<Rightarrow> bytes \<Rightarrow> ('x syncr, unit) eff" where
  "restoreBucket D bucketSlug =
     bindE (extE (dGetBucket D bucketSlug)) (\<lambda>localBucket.
     bindE (extE (dGetMirrorBucket D bucketSlug)) (\<lambda>mirrorBucket.
     bindE (Each (\<lambda>p. extE (ListDirectory mirrorBucket p)) (dFuel D) []
         (restoreIterator D localBucket mirrorBucket bucketSlug) True) (\<lambda>_. retE ())))"

subsection \<open>task-executors.go\<close>

definition processAddItem :: "'x syncDeps \<Rightarrow> task \<Rightarrow> ('x syncr, unit) eff" where
  "processAddItem D t =
     thenE (checkTaskType t addItemTask) (
     bindE (argE t 0) (\<lambda>bucket.
     bindE (argE t 1) (\<lambda>path.
     bindE (extE (dFindBucket D bucket)) (\<lambda>bm.
     bindE (tryE (extE (dFindMirrorFile D path bucket))) (\<lambda>mf.
     thenE (whenE (bsBackup bm \<and> (case mf of Inr (Some _) \<Rightarrow> False | _ \<Rightarrow> True))
              (extE (setMirrorFileBackup D path bucket True))) (
     bindE (extE (dGetBucket D bucket)) (\<lambda>localBucket.
     bindE (listAndNotify D localBucket path
         (\<lambda>i. i\<lparr>fiLocallyAvailable := True, fiBackupInProgress := True\<rparr>)
         ''FileBackupInProgress'' bucket (bsDbID bm)) (\<lambda>_.
     thenE (notifyTask (newTask pinFileTask [bucket, path]) PinQ)
       (NotifyIndexItemAdded bucket path [])))))))))"

definition processRemoveItem :: "'x syncDeps \<Rightarrow> task \<Rightarrow> ('x syncr, unit) eff" where
  "processRemoveItem D t =
     thenE (checkTaskType t removeItemTask) (
     bindE (argE t 0) (\<lambda>bucket.
     bindE (argE t 1) (\<lambda>path.
     thenE (modE (enqueueNew (newTask unpinFileTask [bucket, path]) PinQ)) (
     thenE (modE (enqueueNew (newTask removeIndexItemTask [bucket, path, []]) TaskQ)) (
     thenE notifySyncNeeded (
     thenE (extE (unsetMirrorFileBackup D path bucket))
       (extE (deleteFileFromRemote D bucket path))))))))"

definition processPinFile :: "'x syncDeps \<Rightarrow> task \<Rightarrow> ('x syncr, unit) eff" where
  "processPinFile D t =
     thenE (checkTaskType t pinFileTask) (
     bindE (argE t 0) (\<lambda>bucket.
     bindE (argE t 1) (\<lambda>path.
     thenE (extE (uploadFileToRemote D bucket path)) (
     bindE (tryE (extE (setMirrorFileBackup D path bucket False))) (\<lambda>_.
     bindE (extE (dGetBucket D bucket)) (\<lambda>localBucket.
     bindE (extE (dFindBucket D bucket)) (\<lambda>bm.
     bindE (listAndNotify D localBucket path
         (\<lambda>i. i\<lparr>fiLocallyAvailable := True, fiBackedUp := True\<rparr>)
         ''FileBackupReady'' bucket (bsDbID bm)) (\<lambda>_. retE ()))))))))"

definition processUnpinFile :: "'x syncDeps \<Rightarrow> task \<Rightarrow> ('x syncr, unit) eff" where
  "processUnpinFile D t =
     thenE (checkTaskType t unpinFileTask) (
     bindE (argE t 0) (\<lambda>bucket.
     bindE (argE t 1) (\<lambda>path. extE (deleteFileFromRemote D bucket path))))"

text \<open>The error of \<open>createMirrorBucket\<close> is only looked at through its nil result.\<close>

definition processCreateBucket :: "'x syncDeps \<Rightarrow> task \<Rightarrow> ('x syncr, unit) eff" where
  "processCreateBucket D t =
     thenE (checkTaskType t createBucketTask) (
     bindE (argE t 0) (\<lambda>bucket.
     bindE (argE t 1) (\<lambda>hex.
     bindE (liftE (hexDecode hex)) (\<lambda>enckey.
     bindE (tryE (extE (createMirrorBucket D bucket enckey))) (\<lambda>mirror.
     thenE (case mirror of
              Inl _ \<Rightarrow> retE ()
            | Inr m \<Rightarrow> bindE (extE (dModelCreateMirrorBucket D bucket m)) (\<lambda>_. retE ()))
       (extE (dAddBucketListener D bucket)))))))"

definition processBucketBackupOn :: "'x syncDeps \<Rightarrow> task \<Rightarrow> ('x syncr, unit) eff" where
  "processBucketBackupOn D t =
     thenE (checkTaskType t bucketBackupOnTask) (
     bindE (argE t 0) (\<lambda>bucket.
     bindE (extE (dFindBucket D bucket)) (\<lambda>bm.
       if \<not> bsBackup bm then retE ()
       else
         bindE (liftE (dParseDbID D (bsDbID bm))) (\<lambda>dbID.
         thenE (extE (replicateThreadToHub D dbID)) (uploadAllFilesInPath D bucket [])))))"

definition processBucketBackupOff :: "'x syncDeps \<Rightarrow> task \<Rightarrow> ('x syncr, unit) eff" where
  "processBucketBackupOff D t =
     thenE (checkTaskType t bucketBackupOffTask) (
     bindE (argE t 0) (\<lambda>bucket.
     bindE (extE (dFindBucket D bucket)) (\<lambda>bm.
       if bsBackup bm then retE ()
       else
         bindE (liftE (dParseDbID D (bsDbID bm))) (\<lambda>dbID.
         thenE (extE (dereplicateThreadFromHub D dbID)) (deleteAllFilesInPath D bucket [])))))"

definition processBucketRestoreTask :: "'x syncDeps \<Rightarrow> task \<Rightarrow> ('x syncr, unit) eff" where
  "processBucketRestoreTask D t =
     thenE (checkTaskType t bucketRestoreTask) (
     bindE (argE t 0) (\<lambda>bucket.
     bindE (extE (dFindBucket D bucket)) (\<lambda>bm.
       case bsMirror bm of
         None \<Rightarrow> failE (Panic ''nil pointer dereference'')
       | Some mb \<Rightarrow>
           if mbRemoteDbID mb = [] then
             thenE (modE (enqueueNewAtFront
                 (newTask createBucketTask [bucket, hexEncode (bsEncryptionKey bm)]) TaskQ))
               (errorE ''trying to restore a bucket that has not been replicated. Recreating mirror bucket.'')
           else restoreBucket D bucket)))"

definition processRestoreFile :: "'x syncDeps \<Rightarrow> task \<Rightarrow> ('x syncr, unit) eff" where
  "processRestoreFile D t =
     thenE (checkTaskType t restoreFileTask) (
     bindE (argE t 0) (\<lambda>bucket.
     bindE (argE t 1) (\<lambda>path.
     bindE (extE (dGetBucket D bucket)) (\<lambda>localBucket.
     bindE (extE (dGetMirrorBucket D bucket)) (\<lambda>mirrorBucket.
     bindE (extE (newerBucketPath localBucket mirrorBucket path)) (\<lambda>newer.
       if newer = SrcBucket then retE ()
       else
         thenE (extE (downloadFile D mirrorBucket localBucket path)) (
         bindE (extE (dFindBucket D bucket)) (\<lambda>bm.
         bindE (listAndNotify D mirrorBucket path
             (\<lambda>i. i\<lparr>fiLocallyAvailable := True, fiBackedUp := True\<rparr>)
             ''FileRestored'' bucket (bsDbID bm)) (\<lambda>e.
           case e of None \<Rightarrow> retE () | Some m \<Rightarrow> errorE m)))))))))"

text \<open>
  Both goroutines of the error group run, and the first error is returned; the two calls are on
  different records, here the file's before the directory's.  \<open>FindReceivedFile\<close> is given its
  arguments in the order the code gives them.
\<close>

definition processAddIndexItemTask :: "'x syncDeps \<Rightarrow> task \<Rightarrow> ('x syncr, unit) eff" where
  "processAddIndexItemTask D t =
     thenE (checkTaskType t addIndexItemTask) (
     bindE (argE t 0) (\<lambda>bucket.
     bindE (argE t 1) (\<lambda>itemPath.
     bindE (argE t 2) (\<lambda>dbId.
       if dbId \<noteq> [] then
         bindE (extE (dFindReceivedFile D dbId itemPath bucket)) (\<lambda>file.
         bindE (extE (dUpdateSearchIndexRecord D (rfFileName file) (rfPath file) ''FILE''
             (rfBucket file) dbId)) (\<lambda>_. retE ()))
       else
         bindE (tryE (extE (dUpdateSearchIndexRecord D (pathBase itemPath) itemPath ''FILE''
             bucket []))) (\<lambda>r1.
         bindE (tryE (let parentPath = pathDir itemPath in
             if parentPath = ''/'' then retE ()
             else bindE (extE (dUpdateSearchIndexRecord D (pathBase parentPath) parentPath
                 ''DIRECTORY'' bucket [])) (\<lambda>_. retE ()))) (\<lambda>r2.
           case r1 of
             Inl e \<Rightarrow> errorE e
           | Inr _ \<Rightarrow> (case r2 of Inl e \<Rightarrow> errorE e | Inr _ \<Rightarrow> retE ())))))))"

definition processRemoveIndexItemTask :: "'x syncDeps \<Rightarrow> task \<Rightarrow> ('x syncr, unit) eff" where
  "processRemoveIndexItemTask D t =
     thenE (checkTaskType t removeIndexItemTask) (
     bindE (argE t 0) (\<lambda>bucket.
     bindE (argE t 1) (\<lambda>itemPath.
     bindE (argE t 2) (\<lambda>dbId.
       extE (dDeleteSearchIndexRecord D (pathBase itemPath) itemPath bucket dbId)))))"

subsection \<open>synchronizer.go: dispatch\<close>

text \<open>The \<open>switch\<close> of \<open>executeTask\<close>; an unexpected type is only logged.\<close>

definition processTask :: "'x syncDeps \<Rightarrow> task \<Rightarrow> ('x syncr, unit) eff" where
  "processTask D t =
     (if tType t = addItemTask then processAddItem D t
      else if tType t = removeItemTask then processRemoveItem D t
      else if tType t = pinFileTask then processPinFile D t
      else if tType t = unpinFileTask then processUnpinFile D t
      else if tType t = createBucketTask then processCreateBucket D t
      else if tType t = bucketBackupOnTask then processBucketBackupOn D t
      else if tType t = bucketBackupOffTask then processBucketBackupOff D t
      else if tType t = bucketRestoreTask then processBucketRestoreTask D t
      else if tType t = restoreFileTask then processRestoreFile D t
      else if tType t = addIndexItemTask then processAddIndexItemTask D t
      else if tType t = removeIndexItemTask then processRemoveIndexItemTask D t
      else retE ())"

lemmas process_defs = processAddItem_def processRemoveItem_def processPinFile_def
  processUnpinFile_def processCreateBucket_def processBucketBackupOn_def
  processBucketBackupOff_def processBucketRestoreTask_def processRestoreFile_def
  processAddIndexItemTask_def processRemoveIndexItemTask_def

subsection \<open>Tasks keep the queues well formed\<close>

lemma keeps_errorE [keeps_intros]: "keeps P (errorE m)"
  by (simp add: errorE_def keeps_fail)

lemma keeps_argE [keeps_intros]: "keeps P (argE t i)"
  by (simp add: argE_def keeps_lift)

lemma keeps_checkTaskType [keeps_intros]: "keeps P (checkTaskType t tp)"
  by (simp add: checkTaskType_def keeps_errorE keeps_ret)

lemma keeps_Each [keeps_intros]:
  "(\<And>p. keeps P (list p)) \<Longrightarrow> (\<And>p. keeps P (it p)) \<Longrightarrow> keeps P (Each list n path it rec)"
  by (induction n arbitrary: path) (auto intro!: keeps_intros simp: Let_def)

context queue_stable
begin

lemma keeps_listAndNotify [keeps_intros]: "keeps P (listAndNotify D b p f ty bk di)"
  unfolding listAndNotify_def by (intro keeps_intros keeps_mod) (simp add: stable_events)

lemma keeps_notifyAllFiles [keeps_intros]:
  "(\<And>p. keeps P (notify p)) \<Longrightarrow> keeps P (notifyAllFiles D notify n bucket path)"
  by (induction n arbitrary: path) (auto intro!: keeps_intros)

lemma keeps_restoreBucket [keeps_intros]: "keeps P (restoreBucket D slug)"
  unfolding restoreBucket_def restoreIterator_def Let_def by (intro keeps_intros)

lemma keeps_processTask [keeps_intros]: "keeps P (processTask D t)"
  unfolding processTask_def process_defs uploadAllFilesInPath_def deleteAllFilesInPath_def Let_def
  by (intro keeps_intros)

end

text \<open>Dependencies that are all out of reach, to evaluate the synchronizer's own steps with.\<close>

definition offline :: "'x syncDeps" where
  "offline =
     \<lparr> dFindBucket = \<lambda>_. errorE ''offline'', dFindMirrorFile = \<lambda>_ _. errorE ''offline'',
       dUpdateMirrorFile = \<lambda>_. errorE ''offline'', dCreateMirrorFile = \<lambda>_. errorE ''offline'',
       dModelCreateMirrorBucket = \<lambda>_ _. errorE ''offline'',
       dFindReceivedFile = \<lambda>_ _ _. errorE ''offline'',
       dUpdateSearchIndexRecord = \<lambda>_ _ _ _ _. errorE ''offline'',
       dDeleteSearchIndexRecord = \<lambda>_ _ _ _. errorE ''offline'',
       dGetBucket = \<lambda>_. errorE ''offline'', dGetMirrorBucket = \<lambda>_. errorE ''offline'',
       dGetBucketCtx = \<lambda>_ _ _ _. errorE ''offline'', dAddBucketListener = \<lambda>_. errorE ''offline'',
       dUserPubKey = errorE ''offline'', dParseDbID = Inr, dDbIDString = (\<lambda>d. d),
       dHubMa = [], dHubTarget = [], dAddReplicator = \<lambda>_ _. errorE ''offline'',
       dGetHubContext = errorE ''offline'', dNewDeterministicThreadID = \<lambda>_. errorE ''offline'',
       dGetManagedThreadKey = \<lambda>_. errorE ''offline'', dHubGetDBInfo = \<lambda>_ _. errorE ''offline'',
       dHubNewDB = \<lambda>_ _ _. errorE ''offline'', dHubBucketsList = \<lambda>_. errorE ''offline'',
       dHubBucketsCreate = \<lambda>_ _. errorE ''offline'', dFormatTime = formatInt, dFuel = 8 \<rparr>"

end
