(* ===== verification/SyncPass.thy ===== *)
theory SyncPass
  imports SyncTasks
begin

text \<open>
  One pass of the synchronizer over a queue: \<open>executeTask\<close> and \<open>sync\<close> of
  \<open>core/textile/sync/synchronizer.go\<close>.

  \<open>sync\<close> walks the queue while it grows, runs a parallelizable task in a goroutine of its own (at
  most \<open>maxParallelTasks\<close> in a pass) and any other in place, stops at the first one that fails,
  and otherwise waits for the goroutines and removes what is finished.  The pass is an inductive
  step relation: a step is one iteration of the walk, the execution of one task, or what a client
  does in between.  A list element is named by the pointer it holds, which occurs once (\<open>queue_wf\<close>).

  Two pieces of state are shared without a lock, and their accesses are steps of their own.  The
  count of running goroutines is loaded and stored, by the pass and by each goroutine, in separate
  steps.  The test of \<open>enqueueTask\<close> changes nothing, so what is left of it in a pass is \<open>pushNew\<close>, at
  any time, whatever a test said before; in the histories at the end both are steps.
\<close>

definition maxParallelTasks :: nat where
  "maxParallelTasks = 16"

definition errMaxRetriesSurpassed :: err where
  "errMaxRetriesSurpassed = Err ''max retries surpassed''"

text \<open>What \<open>executeTask\<close> does to the task when its function has returned.\<close>

definition failTask :: "task \<Rightarrow> task" where
  "failTask t = (let t1 = t\<lparr>tState := taskFailed, tRetries := tRetries t + 1\<rparr> in
     if tMaxRetries t1 \<noteq> -1 \<and> tRetries t1 > tMaxRetries t1
     then t1\<lparr>tState := taskDequeued\<rparr> else t1\<lparr>tState := taskQueued\<rparr>)"

definition failResult :: "task \<Rightarrow> string \<Rightarrow> err" where
  "failResult t e =
     (if tMaxRetries t \<noteq> -1 \<and> tRetries t + 1 > tMaxRetries t
      then errMaxRetriesSurpassed else Err e)"

definition executeTask :: "'x syncDeps \<Rightarrow> nat \<Rightarrow> ('x syncr, unit) eff" where
  "executeTask D a = (\<lambda>s.
     case processTask D (taskAt s a) s of
       (Inl (Panic p), s') \<Rightarrow> (Inl (Panic p), s')
     | (Inl (Err e), s') \<Rightarrow>
         (Inl (failResult (taskAt s' a) e), setTask a (failTask (taskAt s' a)) s')
     | (Inr _, s') \<Rightarrow>
         (Inr (), setTask a (taskAt s' a\<lparr>tState := taskSucceeded\<rparr>) s'))"

subsection \<open>The walk\<close>

fun nextAfter :: "nat \<Rightarrow> nat list \<Rightarrow> nat option" where
  "nextAfter a [] = None"
| "nextAfter a (b # bs) =
     (if b = a then (case bs of [] \<Rightarrow> None | c # _ \<Rightarrow> Some c) else nextAfter a bs)"

definition front :: "nat list \<Rightarrow> nat option" where
  "front as = (case as of [] \<Rightarrow> None | a # _ \<Rightarrow> Some a)"

text \<open>Removing what is finished, at the end of a pass.\<close>

definition finished :: "task \<Rightarrow> bool" where
  "finished t \<longleftrightarrow> tState t = taskDequeued \<or> tState t = taskSucceeded"

definition cleanup :: "queueId \<Rightarrow> 'x syncr \<Rightarrow> 'x syncr" where
  "cleanup q s = setQueue q (filter (\<lambda>a. \<not> finished (taskAt s a)) (queueOf q s)) s"

text \<open>
  Where the pass is: at an element (\<open>None\<close>: past the last), or returned, with its error; and where it is
  in \<open>parallelTaskCount++\<close>, which it executes for the element it is at.
\<close>

datatype passPc = At "nat option" | Returned "err option"

datatype incPc = NoInc | IncLoad | IncStore int

text \<open>
  \<open>pRunning\<close> holds the tasks given to a goroutine that have not been executed.  A goroutine that has
  executed its task is about to load the count (\<open>pToLoad\<close> of them) or about to store it (\<open>pLoaded\<close> holds
  what they loaded).
\<close>

record 'x pass =
  pQueue :: queueId
  pPc :: passPc
  pInc :: incPc
  pCount :: int
  pRunning :: "nat set"
  pToLoad :: nat
  pLoaded :: "int list"
  pState :: "'x syncr"

definition startPass :: "queueId \<Rightarrow> 'x syncr \<Rightarrow> 'x pass" where
  "startPass q s = \<lparr> pQueue = q, pPc = At (front (queueOf q s)), pInc = NoInc, pCount = 0, pRunning = {},
                    pToLoad = 0, pLoaded = [], pState = s \<rparr>"

definition setPending :: "nat \<Rightarrow> 'x syncr \<Rightarrow> 'x syncr" where
  "setPending a s = setTask a (taskAt s a\<lparr>tState := taskPending\<rparr>) s"

definition spawns :: "nat \<Rightarrow> 'x pass \<Rightarrow> bool" where
  "spawns a c \<longleftrightarrow> tParallelizable (taskAt (pState c) a) \<and> pCount c < int maxParallelTasks"

definition otherQ :: "queueId \<Rightarrow> queueId" where
  "otherQ q = (case q of TaskQ \<Rightarrow> PinQ | PinQ \<Rightarrow> TaskQ)"

text \<open>
  A step of the pass.  The \<open>client\<close> rules are the ends of a notification from outside, \<open>leftover\<close> is a
  goroutine of an earlier pass that returned with an error, and the \<open>other\<close> rules are the steps of the
  pass over the other queue, which its own loop runs at the same time.  A task that panics takes the
  daemon down, so it has no step.
\<close>

inductive pass_step :: "'x syncDeps \<Rightarrow> 'x pass \<Rightarrow> 'x pass \<Rightarrow> bool" for D where
  skip: "pPc c = At (Some a) \<Longrightarrow> pInc c = NoInc \<Longrightarrow> tState (taskAt (pState c) a) \<noteq> taskQueued \<Longrightarrow>
    pass_step D c (c\<lparr>pPc := At (nextAfter a (queueOf (pQueue c) (pState c)))\<rparr>)"
| spawn: "pPc c = At (Some a) \<Longrightarrow> pInc c = NoInc \<Longrightarrow> tState (taskAt (pState c) a) = taskQueued \<Longrightarrow>
    spawns a c \<Longrightarrow>
    pass_step D c (c\<lparr>pState := setPending a (pState c), pInc := IncLoad, pRunning := insert a (pRunning c)\<rparr>)"
| inc_load: "pInc c = IncLoad \<Longrightarrow> pass_step D c (c\<lparr>pInc := IncStore (pCount c)\<rparr>)"
| inc_store: "pPc c = At (Some a) \<Longrightarrow> pInc c = IncStore v \<Longrightarrow>
    pass_step D c (c\<lparr>pCount := v + 1, pInc := NoInc, pPc := At (nextAfter a (queueOf (pQueue c) (pState c)))\<rparr>)"
| run_ok: "pPc c = At (Some a) \<Longrightarrow> pInc c = NoInc \<Longrightarrow> tState (taskAt (pState c) a) = taskQueued \<Longrightarrow>
    \<not> spawns a c \<Longrightarrow> executeTask D a (setPending a (pState c)) = (Inr (), s') \<Longrightarrow>
    pass_step D c (c\<lparr>pState := s', pPc := At (nextAfter a (queueOf (pQueue c) s'))\<rparr>)"
| run_err: "pPc c = At (Some a) \<Longrightarrow> pInc c = NoInc \<Longrightarrow> tState (taskAt (pState c) a) = taskQueued \<Longrightarrow>
    \<not> spawns a c \<Longrightarrow> executeTask D a (setPending a (pState c)) = (Inl (Err e), s') \<Longrightarrow>
    pass_step D c (c\<lparr>pState := s', pPc := Returned (Some (Err e))\<rparr>)"
| goroutine: "a \<in> pRunning c \<Longrightarrow> pInc c = NoInc \<or> pPc c \<noteq> At (Some a) \<Longrightarrow>
    executeTask D a (pState c) = (r, s') \<Longrightarrow> (\<forall>p. r \<noteq> Inl (Panic p)) \<Longrightarrow>
    pass_step D c (c\<lparr>pState := s', pRunning := pRunning c - {a}, pToLoad := pToLoad c + 1\<rparr>)"
| dec_load: "pToLoad c > 0 \<Longrightarrow>
    pass_step D c (c\<lparr>pToLoad := pToLoad c - 1, pLoaded := pCount c # pLoaded c\<rparr>)"
| dec_store: "v \<in> set (pLoaded c) \<Longrightarrow>
    pass_step D c (c\<lparr>pCount := v - 1, pLoaded := remove1 v (pLoaded c)\<rparr>)"
| finish: "pPc c = At None \<Longrightarrow> pRunning c = {} \<Longrightarrow> pToLoad c = 0 \<Longrightarrow> pLoaded c = [] \<Longrightarrow>
    pass_step D c (c\<lparr>pState := cleanup (pQueue c) (pState c), pPc := Returned None\<rparr>)"
| client_push: "pass_step D c (c\<lparr>pState := pushNew t q (pState c)\<rparr>)"
| client_signal: "pass_step D c (c\<lparr>pState := snd (notifySyncNeeded (pState c))\<rparr>)"
| leftover: "b \<in> set (queueOf (pQueue c) (pState c)) \<Longrightarrow> tState (taskAt (pState c) b) = taskPending \<Longrightarrow>
    b \<notin> pRunning c \<Longrightarrow> executeTask D b (pState c) = (r, s') \<Longrightarrow> (\<forall>p. r \<noteq> Inl (Panic p)) \<Longrightarrow>
    pass_step D c (c\<lparr>pState := s'\<rparr>)"
| other_pending: "b \<in> set (queueOf (otherQ (pQueue c)) (pState c)) \<Longrightarrow>
    tState (taskAt (pState c) b) = taskQueued \<Longrightarrow>
    pass_step D c (c\<lparr>pState := setPending b (pState c)\<rparr>)"
| other_exec: "b \<in> set (queueOf (otherQ (pQueue c)) (pState c)) \<Longrightarrow>
    tState (taskAt (pState c) b) = taskPending \<Longrightarrow>
    executeTask D b (pState c) = (r, s') \<Longrightarrow> (\<forall>p. r \<noteq> Inl (Panic p)) \<Longrightarrow>
    pass_step D c (c\<lparr>pState := s'\<rparr>)"
| other_cleanup: "pass_step D c (c\<lparr>pState := cleanup (otherQ (pQueue c)) (pState c)\<rparr>)"

inductive_cases pass_stepE: "pass_step D c c'"

inductive passes :: "'x syncDeps \<Rightarrow> 'x pass \<Rightarrow> 'x pass \<Rightarrow> bool" for D where
  refl: "passes D c c"
| step: "passes D c c' \<Longrightarrow> pass_step D c' c'' \<Longrightarrow> passes D c c''"

subsection \<open>What a step does to the tasks\<close>

text \<open>
  Two kinds of change to a queued task keep the invariant: a change of state between two live
  states, and one to a state that is not live.
\<close>

lemma queue_ok_setTask:
  assumes "queue_ok s" "a \<in> set (queueOf q s)" "tID t = tID (taskAt s a)" "live (taskAt s a)"
  shows "queue_ok (setTask a t s)"
proof -
  have l: "a < length (tasks s)" using assms by (auto dest: queue_okD)
  have t: "taskAt (setTask a t s) b = (if b = a then t else taskAt s b)" for b
    using l by (simp add: taskAt_def setTask_def)
  have q: "queueOf q' (setTask a t s) = queueOf q' s" for q' by (simp add: setTask_def)
  have m: "queueHashMap (setTask a t s) = queueHashMap s"
    "length (tasks (setTask a t s)) = length (tasks s)"
    "taskQueue (setTask a t s) = taskQueue s" "filePinningQueue (setTask a t s) = filePinningQueue s"
    by (simp_all add: setTask_def)
  have h: "queueHashMap s (tID (taskAt s a)) = Some a"
    using queue_okD(4) [OF assms(1,2,4)] .
  note ok = queue_okD [OF assms(1)]
  have "\<forall>q'. \<forall>b \<in> set (queueOf q' s). b < length (tasks s)" using ok(1) by blast
  moreover have "\<forall>i b. queueHashMap s i = Some b \<longrightarrow>
      b < length (tasks s) \<and> tID (if b = a then t else taskAt s b) = i"
    using ok(2,3) assms(3) by auto
  moreover have "\<forall>q'. \<forall>b \<in> set (queueOf q' s). live (if b = a then t else taskAt s b) \<longrightarrow>
      queueHashMap s (tID (if b = a then t else taskAt s b)) = Some b"
    using ok(4) assms(3) h by simp
  ultimately show ?thesis
    unfolding queue_ok_def q m t using ok(5) by blast
qed

lemma queue_wf_setTask [simp]: "queue_wf (setTask a t s) = queue_wf s"
  by (simp add: queue_wf_def setTask_def)

lemma taskAt_setTask [simp]:
  "a < length (tasks s) \<Longrightarrow> taskAt (setTask a t s) b = (if b = a then t else taskAt s b)"
  by (simp add: taskAt_def setTask_def)

lemma queueOf_setTask [simp]: "queueOf q (setTask a t s) = queueOf q s"
  by (simp add: setTask_def)

lemma length_setTask [simp]: "length (tasks (setTask a t s)) = length (tasks s)"
  by (simp add: setTask_def)

lemma failTask_simps [simp]:
  "tID (failTask t) = tID t" "tArgs (failTask t) = tArgs t" "tType (failTask t) = tType t"
  "tRetries (failTask t) = tRetries t + 1" "tMaxRetries (failTask t) = tMaxRetries t"
  "tParallelizable (failTask t) = tParallelizable t"
  by (simp_all add: failTask_def Let_def)

text \<open>The same growth of the queue, with one task changed.\<close>

definition runs :: "queueId \<Rightarrow> nat \<Rightarrow> task \<Rightarrow> 'x syncr \<Rightarrow> 'x syncr \<Rightarrow> bool" where
  "runs q a t s s' \<longleftrightarrow> queue_wf s' \<and> length (tasks s) \<le> length (tasks s') \<and>
     padded (length (tasks s)) (queueOf q s) (queueOf q s') \<and>
     (\<forall>b < length (tasks s). taskAt s' b = (if b = a then t else taskAt s b))"

lemma runsD:
  assumes "runs q a t s s'"
  shows "queue_wf s'" "length (tasks s) \<le> length (tasks s')"
    "padded (length (tasks s)) (queueOf q s) (queueOf q s')"
    "b < length (tasks s) \<Longrightarrow> taskAt s' b = (if b = a then t else taskAt s b)"
    "b \<in> set (queueOf q s) \<Longrightarrow> b \<in> set (queueOf q s')"
  using assms padded_set unfolding runs_def by blast+

lemma runs_setTask:
  assumes "queue_wf s" "a \<in> set (queueOf q s)"
  shows "runs q a t s (setTask a t s)"
proof -
  have "a < length (tasks s)" using assms by (auto dest: queue_wfD)
  then show ?thesis
    unfolding runs_def using assms(1) by auto
qed

lemma runs_trans:
  assumes "runs q a t s s1" "runs q a t' s1 s2"
  shows "runs q a t' s s2"
proof -
  have l: "length (tasks s) \<le> length (tasks s1)" "length (tasks s1) \<le> length (tasks s2)"
    using runsD(2) assms by blast+
  have "padded (length (tasks s)) (queueOf q s) (queueOf q s2)"
    using padded_trans [OF runsD(3) [OF assms(1)] runsD(3) [OF assms(2)] l(1)] .
  then show ?thesis
    unfolding runs_def using l runsD(1) [OF assms(2)] runsD(4) [OF assms(1)] runsD(4) [OF assms(2)]
    by simp
qed

lemma grows_runs:
  assumes "grows q s s1" "runs q a t s1 s2"
  shows "runs q a t s s2"
proof -
  have l: "length (tasks s) \<le> length (tasks s1)" "length (tasks s1) \<le> length (tasks s2)"
    using runsD(2) growsD(2) assms by blast+
  have "padded (length (tasks s)) (queueOf q s) (queueOf q s2)"
    using padded_trans [OF growsD(3) [OF assms(1)] runsD(3) [OF assms(2)] l(1)] .
  then show ?thesis
    unfolding runs_def using l runsD(1) [OF assms(2)] growsD(4) [OF assms(1)] runsD(4) [OF assms(2)]
    by simp
qed

text \<open>
  The outcomes of \<open>executeTask\<close> on a pending task of a queue: it succeeded, or it failed and is
  queued again or dequeued; nothing else of the queue changes but for new elements at its ends.
\<close>

lemma executeTask_spec:
  assumes "queue_wf s" "a \<in> set (queueOf q s)"
    and "executeTask D a s = (r, s')" "\<forall>p. r \<noteq> Inl (Panic p)"
  shows "case r of
       Inr _ \<Rightarrow> runs q a (taskAt s a\<lparr>tState := taskSucceeded\<rparr>) s s'
     | Inl _ \<Rightarrow> runs q a (failTask (taskAt s a)) s s'"
proof -
  obtain r1 s1 where p: "processTask D (taskAt s a) s = (r1, s1)" by fastforce
  have g: "grows q s s1"
    using keepsD_eq [OF grows.keeps_processTask grows_refl [OF assms(1)] p] .
  have l: "a < length (tasks s)" using assms by (auto dest: queue_wfD)
  then have s1: "queue_wf s1" "a \<in> set (queueOf q s1)" "taskAt s1 a = taskAt s a"
    using growsD [OF g] assms(2) by auto
  have run: "runs q a t s (setTask a t s1)" for t
    using grows_runs [OF g runs_setTask [OF s1(1,2)]] .
  show ?thesis
  proof (cases r1)
    case (Inr u)
    then have "r = Inr ()" "s' = setTask a (taskAt s a\<lparr>tState := taskSucceeded\<rparr>) s1"
      using assms(3) p s1(3) by (auto simp: executeTask_def)
    then show ?thesis using run by simp
  next
    case (Inl e)
    then obtain m where "e = Err m"
      using assms(3,4) p by (cases e) (auto simp: executeTask_def)
    then have "\<exists>x. r = Inl x" "s' = setTask a (failTask (taskAt s a)) s1"
      using assms(3) p s1(3) Inl by (auto simp: executeTask_def)
    then show ?thesis using run by auto
  qed
qed

subsection \<open>The walk visits the elements in order\<close>

lemma nextAfter_append:
  "a \<notin> set pre \<Longrightarrow> nextAfter a (pre @ a # post) = (case post of [] \<Rightarrow> None | c # _ \<Rightarrow> Some c)"
  by (induction pre) auto

lemma nextAfter_cases:
  assumes "distinct as" "a \<in> set as"
  shows "case nextAfter a as of
      None \<Rightarrow> set as = insert a (set (takeWhile (\<lambda>y. y \<noteq> a) as))
    | Some b \<Rightarrow> b \<in> set as \<and>
        set (takeWhile (\<lambda>y. y \<noteq> b) as) = insert a (set (takeWhile (\<lambda>y. y \<noteq> a) as))"
proof -
  obtain pre post where as: "as = pre @ a # post" "a \<notin> set pre"
    using assms(2) by (metis split_list_first)
  have t: "takeWhile (\<lambda>y. y \<noteq> a) as = pre" using as by (simp add: takeWhile_append)
  show ?thesis
  proof (cases post)
    case Nil
    then show ?thesis using as t by (simp add: nextAfter_append)
  next
    case (Cons b bs)
    then have "takeWhile (\<lambda>y. y \<noteq> b) as = pre @ [a]"
      using as assms(1) by (auto simp: takeWhile_append)
    then show ?thesis using as t Cons by (simp add: nextAfter_append)
  qed
qed

lemma takeWhile_grow:
  assumes "x \<in> set as" "a \<in> set as" "distinct as'" "padded n as as'"
  shows "a \<in> set (takeWhile (\<lambda>y. y \<noteq> x) as') \<longleftrightarrow> a \<in> set (takeWhile (\<lambda>y. y \<noteq> x) as)"
proof -
  obtain fs bs where as': "as' = fs @ as @ bs" using assms(4) unfolding padded_def by blast
  obtain pre post where as: "as = pre @ x # post" "x \<notin> set pre"
    using assms(1) by (metis split_list_first)
  then have "x \<notin> set fs" using assms(3) as' by auto
  then have "takeWhile (\<lambda>y. y \<noteq> x) as' = fs @ pre" "takeWhile (\<lambda>y. y \<noteq> x) as = pre"
    using as as' by (auto simp: takeWhile_append)
  then show ?thesis using assms(2,3) as' by auto
qed


subsection \<open>The invariant of a pass\<close>

definition visited :: "'x pass \<Rightarrow> nat \<Rightarrow> bool" where
  "visited c a = (case pPc c of
      At (Some x) \<Rightarrow> a \<in> set (takeWhile (\<lambda>y. y \<noteq> x) (queueOf (pQueue c) (pState c))) \<or>
        a = x \<and> pInc c \<noteq> NoInc
    | _ \<Rightarrow> True)"

text \<open>What has become of a task that was queued as \<open>t0\<close> when the pass started.\<close>

definition executed :: "task \<Rightarrow> task \<Rightarrow> bool" where
  "executed t0 t \<longleftrightarrow> t = t0\<lparr>tState := taskSucceeded\<rparr> \<or> t = failTask t0"

definition outcome :: "'x pass \<Rightarrow> nat \<Rightarrow> task \<Rightarrow> bool" where
  "outcome c a t0 \<longleftrightarrow> (let t = taskAt (pState c) a in
     if a \<in> pRunning c then t = t0\<lparr>tState := taskPending\<rparr> else executed t0 t)"

definition progress :: "'x syncr \<Rightarrow> 'x pass \<Rightarrow> nat \<Rightarrow> bool" where
  "progress s0 c a \<longleftrightarrow>
     (case pPc c of
        At _ \<Rightarrow> a \<in> set (queueOf (pQueue c) (pState c)) \<and>
          (if visited c a then outcome c a (taskAt s0 a)
           else a \<notin> pRunning c \<and> taskAt (pState c) a = taskAt s0 a)
      | Returned None \<Rightarrow> executed (taskAt s0 a) (taskAt (pState c) a) \<and>
          a \<notin> set (queueOf (otherQ (pQueue c)) (pState c)) \<and>
          (a \<in> set (queueOf (pQueue c) (pState c)) \<longrightarrow> \<not> finished (taskAt (pState c) a))
      | Returned (Some _) \<Rightarrow> True)"

definition goroutines_ok :: "'x pass \<Rightarrow> bool" where
  "goroutines_ok c \<longleftrightarrow> finite (pRunning c) \<and>
     (\<forall>a \<in> pRunning c. a \<in> set (queueOf (pQueue c) (pState c)) \<and>
        tState (taskAt (pState c) a) = taskPending) \<and>
     (pInc c \<noteq> NoInc \<longrightarrow> (\<exists>a \<in> pRunning c. pPc c = At (Some a)))"

definition pass_inv :: "'x syncr \<Rightarrow> 'x pass \<Rightarrow> bool" where
  "pass_inv s0 c \<longleftrightarrow>
     queue_wf (pState c) \<and> length (tasks s0) \<le> length (tasks (pState c)) \<and> goroutines_ok c \<and>
     (\<forall>a. pPc c = At (Some a) \<longrightarrow> a \<in> set (queueOf (pQueue c) (pState c))) \<and>
     (pPc c = Returned None \<longrightarrow> pRunning c = {}) \<and>
     (\<forall>a \<in> set (queueOf (pQueue c) s0). tState (taskAt s0 a) = taskQueued \<longrightarrow> progress s0 c a)"

lemma pass_invD:
  assumes "pass_inv s0 c"
  shows "queue_wf (pState c)" "length (tasks s0) \<le> length (tasks (pState c))" "goroutines_ok c"
    "pPc c = At (Some a) \<Longrightarrow> a \<in> set (queueOf (pQueue c) (pState c))"
    "pPc c = Returned None \<Longrightarrow> pRunning c = {}"
    "a \<in> set (queueOf (pQueue c) s0) \<Longrightarrow> tState (taskAt s0 a) = taskQueued \<Longrightarrow> progress s0 c a"
  using assms unfolding pass_inv_def by blast+

lemma pass_invI:
  assumes "queue_wf (pState c)" "length (tasks s0) \<le> length (tasks (pState c))" "goroutines_ok c"
    "\<And>a. pPc c = At (Some a) \<Longrightarrow> a \<in> set (queueOf (pQueue c) (pState c))"
    "pPc c = Returned None \<Longrightarrow> pRunning c = {}"
    "\<And>a. a \<in> set (queueOf (pQueue c) s0) \<Longrightarrow> tState (taskAt s0 a) = taskQueued \<Longrightarrow> progress s0 c a"
  shows "pass_inv s0 c"
  using assms unfolding pass_inv_def by blast

text \<open>The invariant does not look at the count.\<close>

lemma progress_cong:
  assumes "pQueue c' = pQueue c" "pPc c' = pPc c" "pState c' = pState c" "pRunning c' = pRunning c"
    "visited c' = visited c"
  shows "progress s0 c' = progress s0 c"
proof
  fix a
  have "outcome c' a (taskAt s0 a) = outcome c a (taskAt s0 a)" using assms by (simp add: outcome_def)
  then show "progress s0 c' a = progress s0 c a" unfolding progress_def assms by (simp only:)
qed

lemma inv_frame [simp]:
  "pass_inv s0 (c\<lparr>pCount := n\<rparr>) = pass_inv s0 c" "pass_inv s0 (c\<lparr>pToLoad := m\<rparr>) = pass_inv s0 c"
  "pass_inv s0 (c\<lparr>pLoaded := vs\<rparr>) = pass_inv s0 c"
proof -
  have "visited (c\<lparr>pCount := n\<rparr>) = visited c" "visited (c\<lparr>pToLoad := m\<rparr>) = visited c"
    "visited (c\<lparr>pLoaded := vs\<rparr>) = visited c"
    by (simp_all add: visited_def fun_eq_iff split: passPc.split option.split)
  then have "progress s0 (c\<lparr>pCount := n\<rparr>) = progress s0 c" "progress s0 (c\<lparr>pToLoad := m\<rparr>) = progress s0 c"
    "progress s0 (c\<lparr>pLoaded := vs\<rparr>) = progress s0 c"
    by (intro progress_cong; simp)+
  then show "pass_inv s0 (c\<lparr>pCount := n\<rparr>) = pass_inv s0 c" "pass_inv s0 (c\<lparr>pToLoad := m\<rparr>) = pass_inv s0 c"
    "pass_inv s0 (c\<lparr>pLoaded := vs\<rparr>) = pass_inv s0 c"
    by (simp_all add: pass_inv_def goroutines_ok_def)
qed

lemma goroutines_okD:
  assumes "goroutines_ok c"
  shows "finite (pRunning c)"
    "a \<in> pRunning c \<Longrightarrow> a \<in> set (queueOf (pQueue c) (pState c))"
    "a \<in> pRunning c \<Longrightarrow> tState (taskAt (pState c) a) = taskPending"
    "pInc c \<noteq> NoInc \<Longrightarrow> \<exists>a \<in> pRunning c. pPc c = At (Some a)"
  using assms unfolding goroutines_ok_def by blast+

lemma queue_distinct: "queue_wf s \<Longrightarrow> distinct (queueOf q s)"
  by (cases q) (auto dest: queue_wfD(2))

lemma executed_failTask: "executed (t\<lparr>tState := st\<rparr>) t' = executed t t'"
  by (simp add: executed_def failTask_def Let_def)

lemma executed_not_pending: "executed t t' \<Longrightarrow> tState t' \<noteq> taskPending"
  by (auto simp: executed_def failTask_def Let_def split: if_splits)

lemma start_inv:
  assumes "queue_wf s0"
  shows "pass_inv s0 (startPass q s0)"
proof -
  have "progress s0 (startPass q s0) a" if "a \<in> set (queueOf q s0)" for a
    using that by (cases "queueOf q s0")
      (auto simp: progress_def startPass_def visited_def front_def)
  then show ?thesis
    using assms unfolding pass_inv_def
    by (auto simp: startPass_def goroutines_ok_def front_def split: list.splits)
qed

text \<open>
  A step that runs one task \<open>a\<close>: the program counter stays, or moves from \<open>a\<close> to the next element.
\<close>

lemma visited_grow:
  assumes "pass_inv s0 c" "queue_wf s'" "padded n (queueOf (pQueue c) (pState c)) (queueOf (pQueue c) s')"
    and "b \<in> set (queueOf (pQueue c) (pState c))"
  shows "visited (c\<lparr>pState := s'\<rparr>) b = visited c b"
  using takeWhile_grow [OF _ assms(4) queue_distinct [OF assms(2)] assms(3)] pass_invD(4) [OF assms(1)]
  by (auto simp: visited_def split: passPc.splits option.splits)

lemma visited_frame [simp]:
  "visited (c\<lparr>pRunning := R\<rparr>) = visited c" "visited (c\<lparr>pState := s, pRunning := R\<rparr>) = visited (c\<lparr>pState := s\<rparr>)"
  by (simp_all add: visited_def fun_eq_iff split: passPc.split option.split)

lemma inv_runs_stay:
  assumes i: "pass_inv s0 c" and r: "runs (pQueue c) a t (pState c) s'" and a: "a \<in> pRunning c"
    and t: "executed (taskAt (pState c) a) t" and pc: "pInc c = NoInc \<or> pPc c \<noteq> At (Some a)"
  shows "pass_inv s0 (c\<lparr>pState := s', pRunning := pRunning c - {a}\<rparr>)"
    (is "pass_inv s0 ?c")
proof -
  let ?q = "pQueue c" and ?s = "pState c"
  note g = goroutines_okD [OF pass_invD(3) [OF i]]
  have len: "b < length (tasks ?s)" if "b \<in> set (queueOf ?q ?s)" for b
    using queue_wfD(1) [OF pass_invD(1) [OF i] that] .
  have grow: "set (queueOf ?q ?s) \<subseteq> set (queueOf ?q s')" using runsD(5) [OF r] by blast
  have gor: "goroutines_ok ?c"
    using g a grow runsD(4) [OF r] len pc unfolding goroutines_ok_def by auto
  have vis: "visited ?c b = visited c b" if "b \<in> set (queueOf ?q ?s)" for b
    using visited_grow [OF i runsD(1) [OF r] runsD(3) [OF r] that] by simp
  have prog: "progress s0 ?c b"
    if b: "b \<in> set (queueOf ?q s0)" "tState (taskAt s0 b) = taskQueued" for b
  proof -
    have p: "progress s0 c b" using pass_invD(6) [OF i b] .
    show ?thesis
    proof (cases "pPc c")
      case (At x)
      then have bq: "b \<in> set (queueOf ?q ?s)" using p by (simp add: progress_def)
      have "taskAt s' b = (if b = a then t else taskAt ?s b)"
        using runsD(4) [OF r] len [OF bq] by blast
      moreover have "visited c b" if "b = a"
        using p At that a by (simp add: progress_def split: if_splits)
      moreover have "b \<in> set (queueOf ?q s')" using bq grow by blast
      ultimately show ?thesis
        using p At vis [OF bq] t a
        by (cases "b = a"; cases "visited c b")
          (simp_all add: progress_def outcome_def Let_def executed_failTask)
    next
      case (Returned e)
      then show ?thesis using pass_invD(5) [OF i] a by (cases e) (auto simp: progress_def)
    qed
  qed
  show ?thesis
  proof (rule pass_invI)
    show "queue_wf (pState ?c)" using runsD(1) [OF r] by simp
    show "length (tasks s0) \<le> length (tasks (pState ?c))"
      using runsD(2) [OF r] pass_invD(2) [OF i] by simp
    show "goroutines_ok ?c" by (rule gor)
    show "b \<in> set (queueOf (pQueue ?c) (pState ?c))" if "pPc ?c = At (Some b)" for b
      using pass_invD(4) [OF i, of b] that grow by auto
    show "pRunning ?c = {}" if "pPc ?c = Returned None"
      using pass_invD(5) [OF i] that by simp
    show "progress s0 ?c b"
      if "b \<in> set (queueOf (pQueue ?c) s0)" "tState (taskAt s0 b) = taskQueued" for b
      using prog [of b] that by simp
  qed
qed

text \<open>
  A step after which \<open>a\<close>, where the pass is, counts as visited: it is given to a goroutine (the pass
  stays), or it has been skipped or executed in place (the pass moves on).
\<close>

lemma inv_visit:
  assumes i: "pass_inv s0 c" and pc: "pPc c = At (Some a)" "pInc c = NoInc"
    and r: "runs (pQueue c) a t (pState c) s'" and q: "pQueue c' = pQueue c" "pState c' = s'"
    and c': "pInc c' = IncLoad \<and> pPc c' = At (Some a) \<and> pRunning c' = insert a (pRunning c) \<or>
      pPc c' = At (nextAfter a (queueOf (pQueue c) s')) \<and> pInc c' = NoInc \<and> pRunning c' = pRunning c"
    and gor: "goroutines_ok c'"
    and out: "tState (taskAt s0 a) = taskQueued \<Longrightarrow> taskAt (pState c) a = taskAt s0 a \<Longrightarrow>
        a \<notin> pRunning c \<Longrightarrow>
        (if a \<in> pRunning c' then t = taskAt (pState c) a\<lparr>tState := taskPending\<rparr>
         else executed (taskAt (pState c) a) t)"
  shows "pass_inv s0 c'"
proof -
  let ?q = "pQueue c" and ?s = "pState c"
  have aq: "a \<in> set (queueOf ?q ?s)" using pass_invD(4) [OF i pc(1)] .
  have len: "b < length (tasks ?s)" if "b \<in> set (queueOf ?q ?s)" for b
    using queue_wfD(1) [OF pass_invD(1) [OF i] that] .
  have grow: "set (queueOf ?q ?s) \<subseteq> set (queueOf ?q s')" using runsD(5) [OF r] by blast
  have d: "distinct (queueOf ?q s')" using queue_distinct [OF runsD(1) [OF r]] .
  note nx = nextAfter_cases [OF d, of a]
  have at: "\<exists>x. pPc c' = At x" using c' by blast
  have vis: "visited c' b \<longleftrightarrow> b = a \<or> visited c b" if b: "b \<in> set (queueOf ?q ?s)" for b
  proof -
    have t: "b \<in> set (takeWhile (\<lambda>y. y \<noteq> a) (queueOf ?q s')) \<longleftrightarrow> visited c b"
      using takeWhile_grow [OF aq b d runsD(3) [OF r]] pc by (simp add: visited_def)
    have bs: "b \<in> set (queueOf ?q s')" using b grow by blast
    show ?thesis
      using c'
    proof
      assume "pPc c' = At (nextAfter a (queueOf ?q s')) \<and> pInc c' = NoInc \<and> pRunning c' = pRunning c"
      then show ?thesis
        using nx aq grow t bs
        by (cases "nextAfter a (queueOf ?q s')") (auto simp: visited_def q)
    qed (use t in \<open>auto simp: visited_def q\<close>)
  qed
  have prog: "progress s0 c' b"
    if b: "b \<in> set (queueOf ?q s0)" "tState (taskAt s0 b) = taskQueued" for b
  proof -
    have p: "progress s0 c b" using pass_invD(6) [OF i b] .
    then have bq: "b \<in> set (queueOf ?q ?s)" using pc by (simp add: progress_def)
    then have bs: "b \<in> set (queueOf ?q s')" using grow by blast
    have tb: "taskAt s' b = (if b = a then t else taskAt ?s b)"
      using runsD(4) [OF r] len [OF bq] by blast
    show ?thesis
    proof (cases "b = a")
      case True
      then have nv: "\<not> visited c a" using pc by (auto simp: visited_def dest: set_takeWhileD)
      then have e: "a \<notin> pRunning c" "taskAt ?s a = taskAt s0 a"
        using p pc True by (simp_all add: progress_def)
      then show ?thesis
        using out b(2) True q at bs tb vis [OF bq]
        by (auto simp: progress_def outcome_def Let_def)
    next
      case False
      then have "b \<in> pRunning c' \<longleftrightarrow> b \<in> pRunning c" using c' by blast
      then show ?thesis
        using p pc q at bs tb vis [OF bq] False by (auto simp: progress_def outcome_def Let_def)
    qed
  qed
  show ?thesis
  proof (rule pass_invI)
    show "queue_wf (pState c')" using runsD(1) [OF r] by (simp add: q)
    show "length (tasks s0) \<le> length (tasks (pState c'))"
      using runsD(2) [OF r] pass_invD(2) [OF i] by (simp add: q)
    show "goroutines_ok c'" by (rule gor)
    show "b \<in> set (queueOf (pQueue c') (pState c'))" if "pPc c' = At (Some b)" for b
      using that c'
    proof (elim disjE conjE)
      assume "pPc c' = At (nextAfter a (queueOf ?q s'))"
      then have "nextAfter a (queueOf ?q s') = Some b" using that by simp
      then show ?thesis using nx aq grow by (auto simp: q)
    qed (use aq grow in \<open>auto simp: q\<close>)
    show "pRunning c' = {}" if "pPc c' = Returned None"
      using that at by simp
    show "progress s0 c' b"
      if "b \<in> set (queueOf (pQueue c') s0)" "tState (taskAt s0 b) = taskQueued" for b
      using prog [of b] that by (simp add: q)
  qed
qed

text \<open>The increment of the count: its load changes nothing else, and with its store the pass moves on.\<close>

lemma inv_inc_load:
  assumes "pass_inv s0 c" "pInc c = IncLoad"
  shows "pass_inv s0 (c\<lparr>pInc := IncStore v\<rparr>)"
proof -
  have "visited (c\<lparr>pInc := IncStore v\<rparr>) = visited c"
    using assms(2) by (simp add: visited_def fun_eq_iff split: passPc.split option.split)
  then have "progress s0 (c\<lparr>pInc := IncStore v\<rparr>) = progress s0 c" by (intro progress_cong) simp_all
  then show ?thesis using assms by (simp add: pass_inv_def goroutines_ok_def)
qed

lemma inv_inc_store:
  assumes i: "pass_inv s0 c" and pc: "pPc c = At (Some a)" "pInc c = IncStore v"
  shows "pass_inv s0 (c\<lparr>pInc := NoInc, pPc := At (nextAfter a (queueOf (pQueue c) (pState c)))\<rparr>)"
    (is "pass_inv s0 ?c")
proof -
  let ?q = "queueOf (pQueue c) (pState c)"
  note nx = nextAfter_cases [OF queue_distinct [OF pass_invD(1) [OF i]] pass_invD(4) [OF i pc(1)]]
  have vis: "visited ?c b = visited c b" if "b \<in> set ?q" for b
    using nx pc that by (cases "nextAfter a ?q") (auto simp: visited_def)
  have "progress s0 ?c b" if "progress s0 c b" for b
    using that pc vis [of b] by (auto simp: progress_def outcome_def Let_def)
  then show ?thesis
    using i pc nx unfolding pass_inv_def goroutines_ok_def by auto
qed

text \<open>
  What the rest of the daemon does to the state of a pass: the queue grows, and only tasks of the
  other queue, and pending ones the pass has not given to a goroutine (\<open>X\<close>), change.
\<close>

definition envs :: "queueId \<Rightarrow> nat set \<Rightarrow> 'x syncr \<Rightarrow> 'x syncr \<Rightarrow> bool" where
  "envs q X s s' \<longleftrightarrow> queue_wf s' \<and> length (tasks s) \<le> length (tasks s') \<and>
     padded (length (tasks s)) (queueOf q s) (queueOf q s') \<and>
     (\<forall>b \<in> set (queueOf (otherQ q) s'). b \<in> set (queueOf (otherQ q) s) \<or> length (tasks s) \<le> b) \<and>
     (\<forall>a < length (tasks s). a \<notin> set (queueOf (otherQ q) s) \<longrightarrow> a \<notin> X \<longrightarrow> taskAt s' a = taskAt s a)"

lemma envsD:
  assumes "envs q X s s'"
  shows "queue_wf s'" "length (tasks s) \<le> length (tasks s')"
    "padded (length (tasks s)) (queueOf q s) (queueOf q s')"
    "a < length (tasks s) \<Longrightarrow> a \<notin> set (queueOf (otherQ q) s) \<Longrightarrow> a \<notin> X \<Longrightarrow> taskAt s' a = taskAt s a"
    "a \<in> set (queueOf q s) \<Longrightarrow> a \<in> set (queueOf q s')"
    "b \<in> set (queueOf (otherQ q) s') \<Longrightarrow> b \<in> set (queueOf (otherQ q) s) \<or> length (tasks s) \<le> b"
  using assms padded_set unfolding envs_def by blast+

lemma queues_disjoint:
  "queue_wf s \<Longrightarrow> a \<in> set (queueOf q s) \<Longrightarrow> a \<notin> set (queueOf (otherQ q) s)"
  using queue_wfD(2) [of s] by (cases q) (auto simp: otherQ_def)

lemma grows_envs: "grows q s s' \<Longrightarrow> grows (otherQ q) s s' \<Longrightarrow> envs q X s s'"
  unfolding grows_def envs_def padded_def by auto

lemma setTask_envs:
  assumes "envs q X s s1" "b \<in> set (queueOf (otherQ q) s) \<union> X"
  shows "envs q X s (setTask b t s1)"
proof -
  have "taskAt (setTask b t s1) a = taskAt s1 a" if "a \<noteq> b" for a
    using that by (simp add: taskAt_def setTask_def)
  moreover have "a \<noteq> b" if "a \<notin> set (queueOf (otherQ q) s)" "a \<notin> X" for a
    using that assms(2) by blast
  ultimately show ?thesis using assms unfolding envs_def by simp
qed

lemma executeTask_envs:
  assumes "queue_wf s" "executeTask D b s = (r, s')" "\<forall>p. r \<noteq> Inl (Panic p)"
    and "b \<in> set (queueOf (otherQ q) s) \<union> X"
  shows "envs q X s s'"
proof -
  obtain r1 s1 where p: "processTask D (taskAt s b) s = (r1, s1)" by fastforce
  have g: "grows q' s s1" for q'
    using keepsD_eq [OF grows.keeps_processTask grows_refl [OF assms(1)] p] .
  have "\<exists>t. s' = setTask b t s1"
    using assms(2,3) p by (auto simp: executeTask_def split: sum.splits err.splits)
  then show ?thesis using setTask_envs [OF grows_envs [OF g g] assms(4)] by blast
qed

lemma inv_envs:
  assumes i: "pass_inv s0 c" and g: "envs (pQueue c) X (pState c) s'" and ok: "queue_wf s0"
    and X: "\<And>b. b \<in> X \<Longrightarrow> b \<in> set (queueOf (pQueue c) (pState c)) \<and>
      tState (taskAt (pState c) b) = taskPending \<and> b \<notin> pRunning c"
  shows "pass_inv s0 (c\<lparr>pState := s'\<rparr>)" (is "pass_inv s0 ?c")
proof -
  let ?q = "pQueue c" and ?s = "pState c"
  have len: "b < length (tasks ?s)" if "b \<in> set (queueOf ?q ?s)" for b
    using queue_wfD(1) [OF pass_invD(1) [OF i] that] .
  have gr: "set (queueOf ?q ?s) \<subseteq> set (queueOf ?q s')" using envsD(5) [OF g] by blast
  have vis: "visited ?c b = visited c b" if "b \<in> set (queueOf ?q ?s)" for b
    using visited_grow [OF i envsD(1) [OF g] envsD(3) [OF g] that] .
  note gr1 = goroutines_okD [OF pass_invD(3) [OF i]]
  have new: "b \<notin> set (queueOf ?q ?s) \<Longrightarrow> b \<in> set (queueOf ?q s') \<Longrightarrow> length (tasks ?s) \<le> b" for b
    using envsD(3) [OF g] unfolding padded_def by auto
  have prog: "progress s0 ?c b"
    if b: "b \<in> set (queueOf ?q s0)" "tState (taskAt s0 b) = taskQueued" for b
  proof -
    have "b < length (tasks s0)" using queue_wfD(1) [OF ok b(1)] .
    then have l: "b < length (tasks ?s)" using pass_invD(2) [OF i] by simp
    have p: "progress s0 c b" using pass_invD(6) [OF i b(1,2)] .
    have tb: "taskAt s' b = taskAt ?s b" if "b \<notin> set (queueOf (otherQ ?q) ?s)" "b \<notin> X"
      using l that envsD(4) [OF g] by blast
    show ?thesis
    proof (cases "pPc c")
      case (At x)
      then have bq: "b \<in> set (queueOf ?q ?s)" using p by (simp add: progress_def)
      have "b \<notin> X"
      proof
        assume x: "b \<in> X"
        then have "tState (taskAt ?s b) = taskPending" "b \<notin> pRunning c" using X by blast+
        then show False
          using p At b(2) executed_not_pending [of "taskAt s0 b" "taskAt ?s b"]
          by (auto simp: progress_def outcome_def Let_def split: if_splits)
      qed
      note tb = tb [OF queues_disjoint [OF pass_invD(1) [OF i] bq] this]
      have "b \<in> set (queueOf ?q s')" using bq gr by blast
      then show ?thesis
        using p At tb vis [OF bq] by (simp add: progress_def outcome_def Let_def split: if_splits)
    next
      case (Returned e)
      show ?thesis
      proof (cases e)
        case None
        then have "b \<notin> X" using p Returned X [of b] executed_not_pending by (auto simp: progress_def)
        then show ?thesis using p tb new [of b] l envsD(6) [OF g, of b] Returned None by (auto simp: progress_def)
      qed (use Returned in \<open>simp add: progress_def\<close>)
    qed
  qed
  have "taskAt s' b = taskAt ?s b" if "b \<in> pRunning c" for b
    using envsD(4) [OF g len] gr1(2) [OF that] queues_disjoint [OF pass_invD(1) [OF i]] X that by blast
  then have gor: "goroutines_ok ?c"
    using gr1 gr unfolding goroutines_ok_def by auto
  show ?thesis
  proof (rule pass_invI)
    show "queue_wf (pState ?c)" using envsD(1) [OF g] by simp
    show "length (tasks s0) \<le> length (tasks (pState ?c))"
      using envsD(2) [OF g] pass_invD(2) [OF i] by simp
    show "goroutines_ok ?c" by (rule gor)
    show "b \<in> set (queueOf (pQueue ?c) (pState ?c))" if "pPc ?c = At (Some b)" for b
      using pass_invD(4) [OF i, of b] that gr by auto
    show "pRunning ?c = {}" if "pPc ?c = Returned None"
      using pass_invD(5) [OF i] that by simp
    show "progress s0 ?c b"
      if "b \<in> set (queueOf (pQueue ?c) s0)" "tState (taskAt s0 b) = taskQueued" for b
      using prog [of b] that by simp
  qed
qed

lemma goroutines_runs:
  assumes "pass_inv s0 c" "runs (pQueue c) a t (pState c) s'" "a \<notin> pRunning c" "pInc c = NoInc"
  shows "goroutines_ok (c\<lparr>pState := s', pPc := x\<rparr>)"
proof -
  have "b < length (tasks (pState c))" if "b \<in> set (queueOf (pQueue c) (pState c))" for b
    using queue_wfD(1) [OF pass_invD(1) [OF assms(1)] that] .
  then show ?thesis
    using goroutines_okD [OF pass_invD(3) [OF assms(1)]] runsD(4,5) [OF assms(2)] assms(3,4)
    unfolding goroutines_ok_def by auto
qed

lemma inv_return_err:
  assumes "pass_inv s0 c" "runs (pQueue c) a t (pState c) s'" "a \<notin> pRunning c" "pInc c = NoInc"
  shows "pass_inv s0 (c\<lparr>pState := s', pPc := Returned (Some e)\<rparr>)" (is "pass_inv s0 ?c")
proof (rule pass_invI)
  note r = runsD [OF assms(2)]
  show "queue_wf (pState ?c)" using r(1) by simp
  show "length (tasks s0) \<le> length (tasks (pState ?c))" using r(2) pass_invD(2) [OF assms(1)] by simp
  show "goroutines_ok ?c" by (rule goroutines_runs [OF assms])
qed (simp_all add: progress_def)

lemma cleanup_simps [simp]:
  "taskAt (cleanup q s) b = taskAt s b" "tasks (cleanup q s) = tasks s"
  "queueHashMap (cleanup q s) = queueHashMap s"
  by (simp_all add: cleanup_def)

lemma otherQ_neq [simp]: "otherQ q \<noteq> q" "q \<noteq> otherQ q"
  by (cases q; simp add: otherQ_def)+

lemma queueOf_cleanup:
  "queueOf q' (cleanup q s) =
     (if q' = q then filter (\<lambda>a. \<not> finished (taskAt s a)) (queueOf q s) else queueOf q' s)"
  by (simp add: cleanup_def)

lemma cleanup_distinct:
  "distinct (taskQueue s @ filePinningQueue s) \<Longrightarrow>
   distinct (taskQueue (cleanup q s) @ filePinningQueue (cleanup q s))"
  by (cases q) (auto simp: cleanup_def setQueue_def)

lemma queue_wf_cleanup: "queue_wf s \<Longrightarrow> queue_wf (cleanup q s)"
  using cleanup_distinct [of s q] unfolding queue_wf_def by (auto simp: queueOf_cleanup)

lemma queue_ok_cleanup:
  assumes "queue_ok s" shows "queue_ok (cleanup q s)"
proof -
  note ok = queue_okD [OF assms]
  have sub: "b \<in> set (queueOf q' (cleanup q s)) \<Longrightarrow> b \<in> set (queueOf q' s)" for b q'
    by (cases "q' = q") (auto simp: cleanup_def)
  show ?thesis
    unfolding queue_ok_def cleanup_simps using ok(1-4) cleanup_distinct [OF ok(5)] sub by blast
qed

lemma inv_finish:
  assumes i: "pass_inv s0 c" and pc: "pPc c = At None" "pRunning c = {}"
  shows "pass_inv s0 (c\<lparr>pState := cleanup (pQueue c) (pState c), pPc := Returned None\<rparr>)"
    (is "pass_inv s0 ?c")
proof (rule pass_invI)
  show "queue_wf (pState ?c)" using pass_invD(1) [OF i] by (simp add: queue_wf_cleanup)
  show "length (tasks s0) \<le> length (tasks (pState ?c))" using pass_invD(2) [OF i] by simp
  show "goroutines_ok ?c"
    using goroutines_okD [OF pass_invD(3) [OF i]] pc(2) unfolding goroutines_ok_def by auto
  fix b
  assume "b \<in> set (queueOf (pQueue ?c) s0)" "tState (taskAt s0 b) = taskQueued"
  then have "progress s0 c b" using pass_invD(6) [OF i] by simp
  then have "executed (taskAt s0 b) (taskAt (pState c) b)" "b \<in> set (queueOf (pQueue c) (pState c))"
    using pc by (simp_all add: progress_def visited_def outcome_def)
  moreover from this(2) have "b \<notin> set (queueOf (otherQ (pQueue c)) (cleanup (pQueue c) (pState c)))"
    using queues_disjoint [OF pass_invD(1) [OF i], of b "pQueue c"] by (simp add: queueOf_cleanup)
  ultimately show "progress s0 ?c b"
    by (simp add: progress_def) (simp add: cleanup_def)
qed (use pc in simp_all)

lemma setPending_runs:
  assumes "queue_wf s" "a \<in> set (queueOf q s)"
  shows "runs q a (taskAt s a\<lparr>tState := taskPending\<rparr>) s (setPending a s)"
  unfolding setPending_def using assms by (intro runs_setTask)

lemma run_in_place:
  assumes "queue_wf s" "a \<in> set (queueOf q s)"
    and "executeTask D a (setPending a s) = (r, s')" "\<forall>p. r \<noteq> Inl (Panic p)"
  shows "\<exists>t. executed (taskAt s a) t \<and> runs q a t s s'"
proof -
  note r1 = setPending_runs [OF assms(1,2)]
  have a: "taskAt (setPending a s) a = taskAt s a\<lparr>tState := taskPending\<rparr>"
    using runsD(4) [OF r1, of a] queue_wfD(1) [OF assms(1,2)] by simp
  note e = executeTask_spec [OF runsD(1) [OF r1] runsD(5) [OF r1 assms(2)] assms(3,4)]
  show ?thesis
  proof (cases r)
    case (Inr u)
    then have "runs q a (taskAt s a\<lparr>tState := taskSucceeded\<rparr>) s s'"
      using e a runs_trans [OF r1] by simp
    then show ?thesis unfolding executed_def by blast
  next
    case (Inl x)
    have "failTask (taskAt s a\<lparr>tState := taskPending\<rparr>) = failTask (taskAt s a)"
      by (simp add: failTask_def Let_def)
    then have "runs q a (failTask (taskAt s a)) s s'"
      using e a runs_trans [OF r1] Inl by simp
    then show ?thesis unfolding executed_def by blast
  qed
qed

lemma runs_self: "queue_wf s \<Longrightarrow> runs q a (taskAt s a) s s"
  unfolding runs_def by simp

lemma grows_pushNew: "queue_wf s \<Longrightarrow> grows q' s (pushNew t q s)"
  by (rule grows_append [OF grows_refl])
    (auto simp: queue_wf_pushNew, auto simp: pushNew_def pushTask_def, cases "q' = q", auto)

lemma pass_step_inv:
  assumes "pass_step D c c'" "pass_inv s0 c" "queue_wf s0"
  shows "pass_inv s0 c'"
  using assms(1)
proof cases
  case (skip a)
  have "goroutines_ok c'"
    using pass_invD(3) [OF assms(2)] skip(3) unfolding skip(1) goroutines_ok_def by simp
  then show ?thesis
    using skip by (intro inv_visit [OF assms(2) skip(2,3) runs_self [OF pass_invD(1) [OF assms(2)]]]) simp_all
next
  case (spawn a)
  note ok = pass_invD(1) [OF assms(2)] and a = pass_invD(4) [OF assms(2) spawn(2)]
  note g = goroutines_okD [OF pass_invD(3) [OF assms(2)]]
  have n: "a \<notin> pRunning c" using g(3) [of a] spawn(4) by auto
  note r = setPending_runs [OF ok a]
  have l: "b < length (tasks (pState c))" if "b \<in> set (queueOf (pQueue c) (pState c))" for b
    using queue_wfD(1) [OF ok that] .
  have t: "taskAt (setPending a (pState c)) b =
      (if b = a then taskAt (pState c) a\<lparr>tState := taskPending\<rparr> else taskAt (pState c) b)"
    if "b \<in> set (queueOf (pQueue c) (pState c))" for b
    using runsD(4) [OF r l [OF that]] .
  have q: "queueOf (pQueue c) (setPending a (pState c)) = queueOf (pQueue c) (pState c)"
    by (simp add: setPending_def)
  have "goroutines_ok c'"
    using g n a t spawn(2) q unfolding spawn(1) goroutines_ok_def by auto
  then show ?thesis
    using spawn n by (intro inv_visit [OF assms(2) spawn(2,3) r]) simp_all
next
  case inc_load
  then show ?thesis using inv_inc_load [OF assms(2)] by simp
next
  case (inc_store a v)
  have "c' = (c\<lparr>pInc := NoInc, pPc := At (nextAfter a (queueOf (pQueue c) (pState c)))\<rparr>)\<lparr>pCount := v + 1\<rparr>"
    unfolding inc_store(1) by simp
  then show ?thesis using inv_inc_store [OF assms(2) inc_store(2,3)] by (simp only: inv_frame)
next
  case (run_ok a s')
  note ok = pass_invD(1) [OF assms(2)] and a = pass_invD(4) [OF assms(2) run_ok(2)]
  obtain t where t: "executed (taskAt (pState c) a) t" "runs (pQueue c) a t (pState c) s'"
    using run_in_place [OF ok a run_ok(6)] by auto
  have n: "a \<notin> pRunning c"
    using goroutines_okD(3) [OF pass_invD(3) [OF assms(2)], of a] run_ok(4) by auto
  have "goroutines_ok c'"
    unfolding run_ok(1) using goroutines_runs [OF assms(2) t(2) n run_ok(3)] .
  then show ?thesis
    using run_ok t n by (intro inv_visit [OF assms(2) run_ok(2,3) t(2)]) simp_all
next
  case (run_err a e s')
  note ok = pass_invD(1) [OF assms(2)] and a = pass_invD(4) [OF assms(2) run_err(2)]
  obtain t where t: "runs (pQueue c) a t (pState c) s'"
    using run_in_place [OF ok a run_err(6)] by auto
  have "a \<notin> pRunning c"
    using goroutines_okD(3) [OF pass_invD(3) [OF assms(2)], of a] run_err(4) by auto
  then show ?thesis
    unfolding run_err(1) using inv_return_err [OF assms(2) t _ run_err(3)] by blast
next
  case (goroutine a r s')
  note ok = pass_invD(1) [OF assms(2)]
  note g = goroutines_okD(2) [OF pass_invD(3) [OF assms(2)] goroutine(2)]
  note e = executeTask_spec [OF ok g goroutine(4,5)]
  obtain t where "executed (taskAt (pState c) a) t" "runs (pQueue c) a t (pState c) s'"
    using e unfolding executed_def by (cases r) auto
  then have "pass_inv s0 (c\<lparr>pState := s', pRunning := pRunning c - {a}\<rparr>)"
    using inv_runs_stay [OF assms(2) _ goroutine(2) _ goroutine(3)] by blast
  then have "pass_inv s0 ((c\<lparr>pState := s', pRunning := pRunning c - {a}\<rparr>)\<lparr>pToLoad := pToLoad c + 1\<rparr>)"
    by (simp only: inv_frame)
  then show ?thesis unfolding goroutine(1) by simp
next
  case dec_load
  have "pass_inv s0 ((c\<lparr>pToLoad := pToLoad c - 1\<rparr>)\<lparr>pLoaded := pCount c # pLoaded c\<rparr>)"
    using assms(2) by (simp only: inv_frame)
  then show ?thesis unfolding dec_load by simp
next
  case (dec_store v)
  have "pass_inv s0 ((c\<lparr>pCount := v - 1\<rparr>)\<lparr>pLoaded := remove1 v (pLoaded c)\<rparr>)"
    using assms(2) by (simp only: inv_frame)
  then show ?thesis unfolding dec_store by simp
next
  case finish
  then show ?thesis using inv_finish [OF assms(2)] by simp
next
  case (client_push t q)
  have "envs (pQueue c) {} (pState c) (pushNew t q (pState c))"
    using grows_pushNew [OF pass_invD(1) [OF assms(2)]] by (intro grows_envs)
  from inv_envs [OF assms(2) this assms(3)] show ?thesis unfolding client_push by blast
next
  case client_signal
  have "grows q' (pState c) (snd (notifySyncNeeded (pState c)))" for q'
    using keepsD [OF grows.keeps_notify grows_refl [OF pass_invD(1) [OF assms(2)]]] .
  then have "envs (pQueue c) {} (pState c) (snd (notifySyncNeeded (pState c)))" by (intro grows_envs)
  from inv_envs [OF assms(2) this assms(3)] show ?thesis unfolding client_signal by blast
next
  case (leftover b r s')
  have "envs (pQueue c) {b} (pState c) s'"
    by (rule executeTask_envs [OF pass_invD(1) [OF assms(2)] leftover(5,6)]) simp
  from inv_envs [OF assms(2) this assms(3)] leftover(2-4) show ?thesis unfolding leftover(1) by blast
next
  case (other_pending b)
  note ok = pass_invD(1) [OF assms(2)]
  have "envs (pQueue c) {} (pState c) (setPending b (pState c))"
    unfolding setPending_def
    by (rule setTask_envs [OF grows_envs [OF grows_refl [OF ok] grows_refl [OF ok]]]) (use other_pending(2) in simp)
  from inv_envs [OF assms(2) this assms(3)] show ?thesis unfolding other_pending(1) by blast
next
  case (other_exec b r s')
  have "envs (pQueue c) {} (pState c) s'"
    by (rule executeTask_envs [OF pass_invD(1) [OF assms(2)] other_exec(4,5)]) (use other_exec(2) in simp)
  from inv_envs [OF assms(2) this assms(3)] show ?thesis unfolding other_exec(1) by blast
next
  case other_cleanup
  note ok = pass_invD(1) [OF assms(2)]
  have "envs (pQueue c) {} (pState c) (cleanup (otherQ (pQueue c)) (pState c))"
    unfolding envs_def using queue_wf_cleanup [OF ok] by (auto simp: queueOf_cleanup)
  from inv_envs [OF assms(2) this assms(3)] show ?thesis unfolding other_cleanup by blast
qed

lemma passes_inv: "passes D c c' \<Longrightarrow> pass_inv s0 c \<Longrightarrow> queue_wf s0 \<Longrightarrow> pass_inv s0 c'"
  by (induction rule: passes.induct) (auto intro: pass_step_inv)

lemma passes_queue: "passes D c c' \<Longrightarrow> pQueue c' = pQueue c"
  by (induction rule: passes.induct) (auto elim: pass_stepE)


subsection \<open>Histories of a synchronizer\<close>

text \<open>
  What can happen to a synchronizer from \<open>New\<close> on: the stored queue is restored, the loops are
  started, clients call \<open>enqueueTask\<close> and the passes over the two queues run, in any order.  The test
  of \<open>enqueueTask\<close> and its push are two steps; a new task whose test has passed and that is not
  pushed yet is in \<open>E\<close>; the calls a task makes itself are within its step.  The steps of a pass are those it makes on the queues: a task becomes pending,
  is executed, what is finished is removed.  Accesses to the hash map that the Go runtime catches at
  the same time end the daemon and have no step.

  The flag says that a push was made on a test that no longer held (an entry with that ID had been
  enqueued in between), or that more than one task was restored to a queue, which \<open>restoreQueue\<close> does not
  do right (\<open>TaskQueue\<close>).
\<close>

definition restoresMany :: "'x storeI \<Rightarrow> 'x \<Rightarrow> bool" where
  "restoresMany S x =
     (case fst (sGet S QueueStoreKey x) of
        Inl _ \<Rightarrow> False
      | Inr data \<Rightarrow> (case unmarshalQueue data of
            Inl _ \<Rightarrow> False
          | Inr (qs, fs) \<Rightarrow> length qs > 1 \<or> length fs > 1))"

inductive history ::
  "'x syncDeps \<Rightarrow> 'x storeI \<Rightarrow> 'x \<Rightarrow> bool \<Rightarrow> 'x syncr \<Rightarrow> (task \<times> queueId) list \<Rightarrow> bool" for D S x where
  new: "history D S x False (syncr_New x) []"
| restored: "RestoreQueue S (syncr_New x) = (r, s) \<Longrightarrow> history D S x (restoresMany S x) s []"
| started: "history D S x st s E \<Longrightarrow> history D S x st (s\<lparr>isRunning := True\<rparr>) E"
| outside: "history D S x st s E \<Longrightarrow> history D S x st (s\<lparr>ext := y\<rparr>) E"
| checked: "history D S x st s E \<Longrightarrow> \<not> isTaskEnqueued t s \<Longrightarrow> history D S x st s ((t, q) # E)"
| pushed: "history D S x st s E \<Longrightarrow> (t, q) \<in> set E \<Longrightarrow>
    history D S x (st \<or> isTaskEnqueued t s) (pushNew t q s) (remove1 (t, q) E)"
| signalled: "history D S x st s E \<Longrightarrow> history D S x st (snd (notifySyncNeeded s)) E"
| waits: "history D S x st s E \<Longrightarrow> history D S x st (s\<lparr>waiting := m, woken := n\<rparr>) E"
| pending: "history D S x st s E \<Longrightarrow> a \<in> set (queueOf q s) \<Longrightarrow> tState (taskAt s a) = taskQueued \<Longrightarrow>
    history D S x st (setPending a s) E"
| executed: "history D S x st s E \<Longrightarrow> a \<in> set (queueOf q s) \<Longrightarrow> tState (taskAt s a) = taskPending \<Longrightarrow>
    executeTask D a s = (r, s') \<Longrightarrow> (\<forall>p. r \<noteq> Inl (Panic p)) \<Longrightarrow> history D S x st s' E"
| cleaned: "history D S x st s E \<Longrightarrow> history D S x st (cleanup q s) E"

lemma setTask_alloc: "setTask (length (tasks s)) t (allocTask t' s) = allocTask t s"
  by (simp add: setTask_def allocTask_def)

lemma queue_ok_enqueueSlice: "queue_ok s \<Longrightarrow> length ts \<le> 1 \<Longrightarrow> queue_ok (enqueueSlice q ts s)"
  using queue_ok_enqueueNew [of s _ q]
  by (cases ts) (auto simp: enqueueSlice_def setTask_alloc queue_ok_alloc enqueueNew_def)

lemma queue_ok_restored:
  assumes "RestoreQueue S (syncr_New x) = (r, s)" "\<not> restoresMany S x"
  shows "queue_ok s"
proof -
  obtain g x' where g: "sGet S QueueStoreKey x = (g, x')" by fastforce
  have "queue_ok ((syncr_New x :: 'a syncr)\<lparr>ext := x'\<rparr>)" by (simp add: queue_ok_New)
  moreover have "ext (syncr_New x) = x" by (simp add: syncr_New_def)
  ultimately show ?thesis
    using assms g
    by (auto simp: RestoreQueue_def restoreQueue_def bindE_apply thenE_apply extE_apply restoresMany_def
        queue_ok_enqueueSlice split: sum.splits prod.splits)
qed

lemma queue_ok_executed:
  assumes "queue_ok s" "a \<in> set (queueOf q s)" "tState (taskAt s a) = taskPending"
    and "executeTask D a s = (r, s')" "\<forall>p. r \<noteq> Inl (Panic p)"
  shows "queue_ok s'"
proof -
  obtain r1 s1 where p: "processTask D (taskAt s a) s = (r1, s1)" by fastforce
  note g = growsD [OF keepsD_eq [OF grows.keeps_processTask grows_refl [OF queue_ok_wf [OF assms(1)]] p]]
  have 1: "queue_ok s1" using keepsD_eq [OF queue_ok.keeps_processTask assms(1) p] .
  have t: "taskAt s1 a = taskAt s a" using g(4) queue_okD(1) [OF assms(1,2)] .
  have "\<exists>t. s' = setTask a t s1 \<and> tID t = tID (taskAt s1 a)"
    using assms(4,5) p by (auto simp: executeTask_def split: sum.splits err.splits)
  then show ?thesis using queue_ok_setTask [OF 1 g(5) [OF assms(2)]] t assms(3) by auto
qed

lemma history_ok: "history D S x st s E \<Longrightarrow> \<not> st \<Longrightarrow> queue_ok s"
proof (induction rule: history.induct)
  case (restored r s)
  then show ?case by (rule queue_ok_restored)
next
  case (pushed st s E t q)
  then show ?case
    using queue_ok_enqueueNew [of s t q] isTaskEnqueued_alloc [of s t t]
    by (simp add: enqueueNew_def enqueueTask_def pushNew_def)
next
  case (signalled st s E)
  then show ?case using keepsD [OF queue_ok.keeps_notify] by blast
next
  case (pending st s E a q)
  then show ?case unfolding setPending_def by (intro queue_ok_setTask) auto
next
  case (executed st s E a q r s')
  then show ?case using queue_ok_executed by blast
qed (simp_all add: queue_ok_New queue_ok_cleanup)

lemma live_unique:
  assumes "queue_ok s" "a \<in> set (queueOf q s)" "b \<in> set (queueOf q' s)"
    and "live (taskAt s a)" "live (taskAt s b)" "tID (taskAt s a) = tID (taskAt s b)"
  shows "a = b \<and> q = q' \<and> isTaskEnqueued (taskAt s a) s"
proof -
  have h: "queueHashMap s (tID (taskAt s a)) = Some a" "queueHashMap s (tID (taskAt s b)) = Some b"
    using queue_okD(4) [OF assms(1,2,4)] queue_okD(4) [OF assms(1,3,5)] .
  have "Some a = Some b" using h(1) h(2) unfolding assms(6) by (rule trans [OF sym])
  then have ab: "a = b" by (rule option.inject [THEN iffD1])
  moreover have "q = q'"
    using queues_disjoint [OF queue_ok_wf [OF assms(1)], of a q] assms(2,3) ab
    by (cases q; cases q') (simp_all add: otherQ_def)
  moreover have "isTaskEnqueued (taskAt s a) s"
    using assms(4) unfolding isTaskEnqueued_def h(1) by (simp add: Let_def)
  ultimately show ?thesis by blast
qed

lemma pushNew_simps:
  "queueOf q' (pushNew t q s) = (if q' = q then queueOf q s @ [length (tasks s)] else queueOf q' s)"
  "taskAt (pushNew t q s) (length (tasks s)) = t" "a < length (tasks s) \<Longrightarrow> taskAt (pushNew t q s) a = taskAt s a"
  "length (tasks (pushNew t q s)) = Suc (length (tasks s))"
  "queueHashMap (pushNew t q s) = (queueHashMap s)(tID t \<mapsto> length (tasks s))"
  by (auto simp: pushNew_def pushTask_def)

text \<open>Two calls for one task whose tests both come first.\<close>

lemma overlapping_pushes:
  assumes "history D S x st s E" "\<not> isTaskEnqueued t s" "tState t = taskQueued"
  shows "\<exists>s' a b. history D S x True s' E \<and> a \<noteq> b \<and> a \<in> set (queueOf q s') \<and> b \<in> set (queueOf q' s') \<and>
    taskAt s' a = t \<and> taskAt s' b = t"
proof -
  let ?s1 = "pushNew t q s" let ?s2 = "pushNew t q' ?s1" and ?n = "length (tasks s)"
  have "history D S x st s ((t, q') # (t, q) # E)"
    using history.checked [OF history.checked [OF assms(1,2)] assms(2)] .
  from history.pushed [OF this, of t q]
  have 1: "history D S x (st \<or> isTaskEnqueued t s) ?s1 ((t, q') # E)" by (cases "q = q'") simp_all
  have "isTaskEnqueued t ?s1" using assms(3) by (simp add: isTaskEnqueued_def pushNew_simps)
  then have "history D S x True ?s2 E" using history.pushed [OF 1, of t q'] by simp
  moreover have "?n \<in> set (queueOf q ?s2)" "Suc ?n \<in> set (queueOf q' ?s2)"
    "taskAt ?s2 ?n = t" "taskAt ?s2 (Suc ?n) = t"
    using pushNew_simps(2) [of t q' ?s1] by (simp_all add: pushNew_simps)
  ultimately show ?thesis by (metis n_not_Suc_n)
qed

text \<open>A store that holds nothing.\<close>

definition memNone :: "'x storeI" where
  "memNone = \<lparr> sGet = \<lambda>_. failE errKeyNotFound, sSet = \<lambda>_ _. retE (), sRemove = \<lambda>_. retE (),
     sDropAll = retE (), sKeysWithPrefix = \<lambda>_. retE [] \<rparr>"



subsection \<open>A run\<close>

text \<open>One parallelizable task, which fails: it is spawned, runs, and is queued again.\<close>

definition demoTask :: task where
  "demoTask = (newTask pinFileTask [''b'', ''p''])\<lparr>tParallelizable := True\<rparr>"

definition demo0 :: "unit syncr" where
  "demo0 = snd (notifyTask demoTask TaskQ (syncr_New ()))"

definition demo1 :: "unit pass" where
  "demo1 = (startPass TaskQ demo0)\<lparr>pState := setPending 0 demo0, pCount := 1, pRunning := {0},
     pPc := At None\<rparr>"

definition demo2 :: "unit pass" where
  "demo2 = demo1\<lparr>pState := snd (executeTask offline 0 (pState demo1)), pRunning := {}, pCount := 0,
     pPc := Returned None\<rparr>"

lemma demo0_ok: "queue_wf demo0"
  unfolding demo0_def by (intro queue_ok_wf keepsD [OF queue_ok.keeps_notifyTask] queue_ok_New)

lemma demo0_facts: "taskQueue demo0 = [0]" "taskAt demo0 0 = demoTask"
  unfolding demo0_def demoTask_def by code_simp+

lemma demoTask_state: "tState demoTask = taskQueued" "tParallelizable demoTask" "tRetries demoTask = 0"
  unfolding demoTask_def by code_simp+

lemma setPending_queue [simp]: "queueOf q (setPending a s) = queueOf q s"
  by (simp add: setPending_def)

lemma demo_run1: "passes offline (startPass TaskQ demo0) demo1"
proof -
  let ?c = "startPass TaskQ demo0"
  let ?c1 = "?c\<lparr>pState := setPending 0 demo0, pInc := IncLoad, pRunning := {0}\<rparr>"
  have q: "taskQueue (setPending 0 demo0) = [0]" using demo0_facts(1) by (simp add: setPending_def setTask_def)
  have "pass_step offline ?c ?c1"
    using pass_step.spawn [of ?c 0 offline] demo0_facts
    by (simp add: startPass_def front_def demoTask_state spawns_def maxParallelTasks_def)
  moreover have "pass_step offline ?c1 (?c1\<lparr>pInc := IncStore 0\<rparr>)"
    using pass_step.inc_load [of ?c1 offline] by (simp add: startPass_def)
  moreover have "pass_step offline (?c1\<lparr>pInc := IncStore 0\<rparr>) demo1"
    using pass_step.inc_store [of "?c1\<lparr>pInc := IncStore 0\<rparr>" 0 0 offline] demo0_facts(1) q
    by (simp add: demo1_def startPass_def front_def)
  ultimately show ?thesis using passes.intros by metis
qed

lemma demo_exec:
  "executeTask offline 0 (pState demo1) = (Inl (Err ''offline''), pState demo2)"
proof (rule prod_eqI)
  show "fst (executeTask offline 0 (pState demo1)) = fst (Inl (Err ''offline''), pState demo2)"
    unfolding demo1_def demo0_def demoTask_def by code_simp
qed (simp add: demo2_def)

lemma demo2_facts: "taskQueue (pState demo2) = [0]" "\<not> finished (taskAt (pState demo2) 0)"
  unfolding demo2_def demo1_def demo0_def demoTask_def by code_simp+

lemma demo2_cleanup: "cleanup TaskQ (pState demo2) = pState demo2"
  by (simp add: cleanup_def demo2_facts setQueue_def)

lemma demo_run2: "passes offline (startPass TaskQ demo0) demo2"
proof -
  have d: "pQueue demo1 = TaskQ" "pPc demo1 = At None" "pInc demo1 = NoInc" "pToLoad demo1 = 0"
    "pLoaded demo1 = []" "pCount demo1 = 1" "pRunning demo1 = {0}"
    by (simp_all add: demo1_def startPass_def)
  let ?c = "demo1\<lparr>pState := pState demo2, pRunning := {}, pToLoad := 1\<rparr>"
  let ?c1 = "demo1\<lparr>pState := pState demo2, pRunning := {}, pToLoad := 0, pLoaded := [1]\<rparr>"
  let ?c2 = "demo1\<lparr>pState := pState demo2, pRunning := {}, pToLoad := 0, pCount := 0, pLoaded := []\<rparr>"
  have "pass_step offline demo1 ?c"
    using pass_step.goroutine [OF _ _ demo_exec] by (simp add: d)
  moreover have "pass_step offline ?c ?c1"
    using pass_step.dec_load [of ?c offline] d by simp
  moreover have "pass_step offline ?c1 ?c2"
    using pass_step.dec_store [of 1 ?c1 offline] d by simp
  moreover have "pass_step offline ?c2 demo2"
    using pass_step.finish [of ?c2 offline] d demo2_cleanup
    by (simp add: demo2_def) (simp add: demo1_def startPass_def)
  ultimately show ?thesis using demo_run1 passes.step by metis
qed



subsection \<open>The count of goroutines\<close>

text \<open>
  No access to the count comes between the load and the store of another: of the pass and its
  goroutines at most one has loaded it and not stored it.
\<close>

definition exclusive :: "'x pass \<Rightarrow> bool" where
  "exclusive c \<longleftrightarrow> (case pInc c of IncStore _ \<Rightarrow> pLoaded c = [] | _ \<Rightarrow> length (pLoaded c) \<le> 1)"

inductive exclusive_passes :: "'x syncDeps \<Rightarrow> 'x pass \<Rightarrow> 'x pass \<Rightarrow> bool" for D where
  refl: "exclusive_passes D c c"
| step: "exclusive_passes D c c' \<Longrightarrow> pass_step D c' c'' \<Longrightarrow> exclusive c'' \<Longrightarrow> exclusive_passes D c c''"

lemma exclusive_passes_passes: "exclusive_passes D c c' \<Longrightarrow> passes D c c'"
  by (induction rule: exclusive_passes.induct) (auto intro: passes.intros)

text \<open>The count is then the number of goroutines, but for one being spawned.\<close>

definition goroutines :: "'x pass \<Rightarrow> nat" where
  "goroutines c = card (pRunning c) + pToLoad c + length (pLoaded c)"

definition count_ok :: "'x pass \<Rightarrow> bool" where
  "count_ok c \<longleftrightarrow> pCount c = int (goroutines c) - (if pInc c = NoInc then 0 else 1) \<and>
     (\<forall>v. pInc c = IncStore v \<longrightarrow> v = pCount c) \<and> (\<forall>v \<in> set (pLoaded c). v = pCount c) \<and>
     goroutines c \<le> maxParallelTasks \<and> exclusive c"

lemma count_step:
  assumes "pass_step D c c'" "pass_inv s0 c" "count_ok c" "exclusive c'"
  shows "count_ok c'"
  using assms(1)
proof cases
  case (spawn a)
  have "a \<notin> pRunning c" "finite (pRunning c)"
    using goroutines_okD(1,3) [OF pass_invD(3) [OF assms(2)]] spawn(4) by auto
  then show ?thesis using spawn assms(3,4) by (auto simp: count_ok_def goroutines_def spawns_def)
next
  case inc_load
  then show ?thesis using assms(3,4) by (auto simp: count_ok_def goroutines_def exclusive_def)
next
  case (inc_store a v)
  then show ?thesis using assms(3,4) by (auto simp: count_ok_def goroutines_def exclusive_def)
next
  case (goroutine a r s')
  have "card (pRunning c) = Suc (card (pRunning c - {a}))"
    using goroutine(2) goroutines_okD(1) [OF pass_invD(3) [OF assms(2)]] by (metis card.remove)
  then show ?thesis using goroutine assms(3,4) by (auto simp: count_ok_def goroutines_def)
next
  case dec_load
  then show ?thesis using assms(3,4) by (auto simp: count_ok_def goroutines_def)
next
  case (dec_store v)
  have "pLoaded c = [v]" "pInc c = NoInc \<or> pInc c = IncLoad"
    using dec_store(2) assms(3) by (cases "pLoaded c"; cases "pInc c"; auto simp: count_ok_def exclusive_def)+
  then show ?thesis using dec_store assms(3,4) by (auto simp: count_ok_def goroutines_def)
qed (use assms(3,4) in \<open>auto simp: count_ok_def goroutines_def exclusive_def\<close>)

lemma exclusive_count:
  "exclusive_passes D c c' \<Longrightarrow> pass_inv s0 c \<Longrightarrow> queue_wf s0 \<Longrightarrow> count_ok c \<Longrightarrow> count_ok c'"
proof (induction rule: exclusive_passes.induct)
  case (step c c' c'')
  then show ?case
    using count_step passes_inv [OF exclusive_passes_passes [OF step.hyps(1)]] by blast
qed

text \<open>A pass that has still to walk over \<open>r\<close>, whose tasks are all queued and parallelizable.\<close>

definition ready :: "nat list \<Rightarrow> 'x pass \<Rightarrow> bool" where
  "ready r c \<longleftrightarrow> pInc c = NoInc \<and> (r \<noteq> [] \<longrightarrow> pPc c = At (Some (hd r))) \<and>
     queue_wf (pState c) \<and> (\<exists>pre post. queueOf (pQueue c) (pState c) = pre @ r @ post) \<and>
     finite (pRunning c) \<and> (\<forall>b \<in> set r. tState (taskAt (pState c) b) = taskQueued \<and>
       tParallelizable (taskAt (pState c) b) \<and> b \<notin> pRunning c)"

lemma passes_trans: "passes D b c \<Longrightarrow> passes D a b \<Longrightarrow> passes D a c"
  by (induction rule: passes.induct) (auto intro: passes.step)

lemma ready_spawn:
  assumes "ready (b # r) c" "pCount c < 16"
  shows "\<exists>c'. passes D c c' \<and> ready r c' \<and> pCount c' = pCount c + 1 \<and> pRunning c' = insert b (pRunning c) \<and>
    pToLoad c' = pToLoad c \<and> pLoaded c' = pLoaded c \<and> pState c' = setPending b (pState c) \<and> pQueue c' = pQueue c"
proof -
  obtain pre post where q: "queueOf (pQueue c) (pState c) = pre @ (b # r) @ post"
    using assms(1) unfolding ready_def by blast
  have f: "pInc c = NoInc" "pPc c = At (Some b)" "queue_wf (pState c)" "finite (pRunning c)"
    and t: "\<And>x. x \<in> set (b # r) \<Longrightarrow> tState (taskAt (pState c) x) = taskQueued \<and>
      tParallelizable (taskAt (pState c) x) \<and> x \<notin> pRunning c"
    using assms(1) unfolding ready_def by auto
  have d: "distinct (pre @ (b # r) @ post)" using queue_distinct [OF f(3)] q by metis
  have l: "b < length (tasks (pState c))" using queue_wfD(1) [OF f(3), of b "pQueue c"] q by simp
  let ?s = "setPending b (pState c)"
  let ?c1 = "c\<lparr>pState := ?s, pInc := IncLoad, pRunning := insert b (pRunning c)\<rparr>"
  let ?c2 = "?c1\<lparr>pInc := IncStore (pCount c)\<rparr>"
  let ?c3 = "?c2\<lparr>pCount := pCount c + 1, pInc := NoInc, pPc := At (nextAfter b (pre @ (b # r) @ post))\<rparr>"
  have 1: "pass_step D c ?c1"
    using pass_step.spawn [OF f(2,1)] t [of b] assms(2) by (simp add: spawns_def maxParallelTasks_def)
  have 2: "pass_step D ?c1 ?c2" using pass_step.inc_load [of ?c1 D] by simp
  have 3: "pass_step D ?c2 ?c3" using pass_step.inc_store [of ?c2 b "pCount c" D] f(2) by (simp add: q)
  have n: "nextAfter b (pre @ (b # r) @ post) = (case r @ post of [] \<Rightarrow> None | x # _ \<Rightarrow> Some x)"
    using nextAfter_append [of b pre "r @ post"] d by simp
  have s: "taskAt ?s x = taskAt (pState c) x" if "x \<in> set r" for x
    using that d l by (auto simp: setPending_def)
  have w: "queue_wf ?s" using f(3) by (simp add: setPending_def)
  have "\<exists>pre' post'. queueOf (pQueue ?c3) (pState ?c3) = pre' @ r @ post'"
    using q by (intro exI [of _ "pre @ [b]"] exI [of _ post]) simp
  moreover have "pPc ?c3 = At (Some (hd r))" if "r \<noteq> []" using that n by (cases r) simp_all
  moreover have "\<forall>x \<in> set r. tState (taskAt (pState ?c3) x) = taskQueued \<and>
      tParallelizable (taskAt (pState ?c3) x) \<and> x \<notin> pRunning ?c3"
    using s t d by auto
  ultimately have "ready r ?c3" using f(4) w unfolding ready_def by simp
  then show ?thesis
    using passes.step [OF passes.step [OF passes.step [OF passes.refl 1] 2] 3] by (intro exI [of _ ?c3]) simp
qed

lemma ready_spawns:
  "ready (xs @ r) c \<Longrightarrow> pCount c + int (length xs) \<le> 16 \<Longrightarrow>
   \<exists>c'. passes D c c' \<and> ready r c' \<and> pCount c' = pCount c + int (length xs) \<and>
     card (pRunning c') = card (pRunning c) + length xs \<and> pToLoad c' = pToLoad c \<and> pLoaded c' = pLoaded c"
proof (induction xs arbitrary: c)
  case Nil
  then show ?case by (auto intro!: exI [of _ c] passes.refl)
next
  case (Cons b xs)
  have "ready (b # xs @ r) c" "pCount c < 16" using Cons.prems by simp_all
  from ready_spawn [OF this, of D] obtain c1 where 1: "passes D c c1" "ready (xs @ r) c1"
    "pCount c1 = pCount c + 1" "pRunning c1 = insert b (pRunning c)" "pToLoad c1 = pToLoad c" "pLoaded c1 = pLoaded c"
    by blast
  have "card (pRunning c1) = Suc (card (pRunning c))"
    using Cons.prems(1) unfolding 1(4) ready_def by simp
  moreover obtain c2 where "passes D c1 c2" "ready r c2" "pCount c2 = pCount c1 + int (length xs)"
    "card (pRunning c2) = card (pRunning c1) + length xs" "pToLoad c2 = pToLoad c1" "pLoaded c2 = pLoaded c1"
    using Cons.IH [OF 1(2)] Cons.prems(2) 1(3) by auto
  ultimately show ?case using 1 passes_trans by (intro exI [of _ c2]) auto
qed

text \<open>The fields \<open>ready\<close> does not look at, and a goroutine that ends.\<close>

lemma ready_frame [simp]:
  "ready r (c\<lparr>pToLoad := n\<rparr>) = ready r c" "ready r (c\<lparr>pLoaded := l\<rparr>) = ready r c"
  "ready r (c\<lparr>pCount := k\<rparr>) = ready r c"
  by (simp_all add: ready_def)

lemma ready_goroutine:
  assumes "ready r c" "a \<in> pRunning c" "queueOf (pQueue c) (pState c) = a # r"
    and "\<forall>p. fst (executeTask D a (pState c)) \<noteq> Inl (Panic p)"
  shows "\<exists>s'. pass_step D c (c\<lparr>pState := s', pRunning := pRunning c - {a}, pToLoad := pToLoad c + 1\<rparr>) \<and>
    ready r (c\<lparr>pState := s', pRunning := pRunning c - {a}\<rparr>)"
proof -
  obtain e s' where e: "executeTask D a (pState c) = (e, s')" by fastforce
  have f: "pInc c = NoInc" "queue_wf (pState c)" using assms(1) by (simp_all add: ready_def)
  have 1: "pass_step D c (c\<lparr>pState := s', pRunning := pRunning c - {a}, pToLoad := pToLoad c + 1\<rparr>)"
    using pass_step.goroutine [OF assms(2) _ e] f assms(4) e by simp
  have "\<exists>t. runs (pQueue c) a t (pState c) s'"
    using executeTask_spec [OF f(2) _ e, of "pQueue c"] assms(3,4) e by (cases e) auto
  then obtain t where t: "runs (pQueue c) a t (pState c) s'" ..
  obtain fs bs where "queueOf (pQueue c) s' = fs @ (a # r) @ bs"
    using runsD(3) [OF t] assms(3) unfolding padded_def by metis
  then have "\<exists>pre post. queueOf (pQueue c) s' = pre @ r @ post" by (metis append_Cons append_assoc append_Nil)
  moreover have "taskAt s' b = taskAt (pState c) b" if "b \<in> set r" for b
  proof -
    have "b < length (tasks (pState c))" using queue_wfD(1) [OF f(2), of b "pQueue c"] assms(3) that by simp
    moreover have "b \<noteq> a" using queue_distinct [OF f(2), of "pQueue c"] assms(3) that by auto
    ultimately show ?thesis using runsD(4) [OF t] by simp
  qed
  ultimately have "ready r (c\<lparr>pState := s', pRunning := pRunning c - {a}\<rparr>)"
    using assms(1) runsD(1) [OF t] unfolding ready_def by simp
  with 1 show ?thesis by blast
qed

text \<open>
  A goroutine loads the count, 1, before fifteen more are started and stores 0 after: the count has
  lost them, and two more are started.
\<close>

lemma lost_increments:
  assumes "queue_wf s0" "queueOf q s0 = a # as" "17 \<le> length as"
    and "\<forall>b \<in> set (a # as). tState (taskAt s0 b) = taskQueued \<and> tParallelizable (taskAt s0 b)"
    and "\<forall>p. fst (executeTask D a (setPending a s0)) \<noteq> Inl (Panic p)"
  shows "\<exists>c. passes D (startPass q s0) c \<and> card (pRunning c) = 17"
proof -
  have q: "\<exists>pre post. queueOf q s0 = pre @ (a # as) @ post"
    unfolding assms(2) by (intro exI [of _ "[]"]) simp
  have "ready (a # as) (startPass q s0)"
    using assms(1,4) q unfolding ready_def by (simp add: startPass_def front_def assms(2))
  from ready_spawn [OF this, of D] obtain c1 where 1: "passes D (startPass q s0) c1" "ready as c1"
    "pCount c1 = 1" "pRunning c1 = {a}" "pToLoad c1 = 0" "pLoaded c1 = []" "pState c1 = setPending a s0" "pQueue c1 = q"
    by (auto simp: startPass_def)
  obtain s' where s': "pass_step D c1 (c1\<lparr>pState := s', pRunning := {}, pToLoad := 1\<rparr>)"
    "ready as (c1\<lparr>pState := s', pRunning := {}\<rparr>)"
    using ready_goroutine [OF 1(2), of a D] 1 assms(2,5) by auto
  let ?c2 = "c1\<lparr>pState := s', pRunning := {}, pToLoad := 1\<rparr>"
  let ?c3 = "?c2\<lparr>pToLoad := 0, pLoaded := [1]\<rparr>"
  have "pass_step D ?c2 ?c3" using pass_step.dec_load [of ?c2 D] 1(3,6) by simp
  then have 3: "passes D (startPass q s0) ?c3" using passes.step [OF passes.step [OF 1(1) s'(1)]] by blast
  have r3: "ready (take 15 as @ drop 15 as) ?c3" using s'(2) unfolding ready_def by simp
  have n: "length (take 15 as) = 15" "length (take 2 (drop 15 as)) = 2" using assms(3) by auto
  obtain c4 where 4: "passes D ?c3 c4" "ready (drop 15 as) c4" "pCount c4 = 16" "card (pRunning c4) = 15" "pLoaded c4 = [1]"
    using ready_spawns [OF r3, of D] n(1) 1(3) by auto
  let ?c5 = "c4\<lparr>pCount := 0, pLoaded := []\<rparr>"
  have 5: "pass_step D c4 ?c5" using pass_step.dec_store [of 1 c4 D] 4(5) by simp
  have "ready (take 2 (drop 15 as) @ drop 2 (drop 15 as)) ?c5" using 4(2) unfolding append_take_drop_id by simp
  from ready_spawns [OF this, of D] obtain c6 where "passes D ?c5 c6" "card (pRunning c6) = 17"
    using n(2) 4(4) by auto
  then show ?thesis using passes_trans [OF _ passes.step [OF passes_trans [OF 4(1) 3] 5]] by blast
qed

text \<open>Eighteen files to pin.\<close>

definition batchTask :: "nat \<Rightarrow> task" where
  "batchTask i = (newTask pinFileTask [''b'', [char_of i]])\<lparr>tParallelizable := True\<rparr>"

definition demoBatch :: "unit syncr" where
  "demoBatch = (syncr_New ())\<lparr>tasks := map batchTask [0 ..< 18], taskQueue := [0 ..< 18]\<rparr>"

lemma demoBatch_ok: "queue_wf demoBatch"
proof -
  have "a < 18" if "a \<in> set (queueOf q demoBatch)" for a q
    using that by (cases q) (auto simp: demoBatch_def syncr_New_def)
  then show ?thesis by (simp add: queue_wf_def demoBatch_def syncr_New_def)
qed

lemma demoBatch_task: "b < 18 \<Longrightarrow> taskAt demoBatch b = batchTask b"
  by (simp add: demoBatch_def taskAt_def)

lemma demoBatch_facts:
  "taskQueue demoBatch = 0 # [1 ..< 18]"
  "\<forall>b \<in> set (0 # [1 ..< 18]). tState (taskAt demoBatch b) = taskQueued \<and> tParallelizable (taskAt demoBatch b)"
proof -
  show "taskQueue demoBatch = 0 # [1 ..< 18]"
    using upt_conv_Cons [of 0 18] by (simp add: demoBatch_def)
  have "tState (taskAt demoBatch b) = taskQueued \<and> tParallelizable (taskAt demoBatch b)" if "b < 18" for b
    using demoBatch_task [OF that] by (simp add: batchTask_def newTask_def)
  then show "\<forall>b \<in> set (0 # [1 ..< 18]). tState (taskAt demoBatch b) = taskQueued \<and> tParallelizable (taskAt demoBatch b)"
    by auto
qed

lemma demoBatch_exec: "fst (executeTask offline 0 (setPending 0 demoBatch)) = Inl (Err ''offline'')"
  unfolding demoBatch_def batchTask_def by code_simp

text \<open>
  C25. While no access to the count of goroutines comes between the load and the store of another,
  at most \<open>maxParallelTasks\<close> goroutines of a pass run at a time. The code does not exclude it, the
  count being a plain integer: over a queue of eighteen or more parallelizable tasks, of which the
  first returns, a pass can have seventeen of them running. However the accesses fall, each
  goroutine is on a pending task, and no queue gets a task twice.
\<close>

theorem pass_parallel_bound:
  assumes "queue_wf s0"
  shows "(exclusive_passes D (startPass q s0) c \<longrightarrow> card (pRunning c) \<le> 16) \<and>
    (passes D (startPass q s0) c \<longrightarrow>
       queue_wf (pState c) \<and> (\<forall>a \<in> pRunning c. tState (taskAt (pState c) a) = taskPending)) \<and>
    (queueOf q s0 = a # as \<longrightarrow> 17 \<le> length as \<longrightarrow>
       (\<forall>b \<in> set (a # as). tState (taskAt s0 b) = taskQueued \<and> tParallelizable (taskAt s0 b)) \<longrightarrow>
       (\<forall>p. fst (executeTask D a (setPending a s0)) \<noteq> Inl (Panic p)) \<longrightarrow>
       (\<exists>c'. passes D (startPass q s0) c' \<and> card (pRunning c') = 17))"
proof (intro conjI impI)
  have i: "pass_inv s0 (startPass q s0)" using start_inv [OF assms] .
  show "card (pRunning c) \<le> 16" if "exclusive_passes D (startPass q s0) c"
  proof -
    have "count_ok (startPass q s0)"
      by (simp add: count_ok_def goroutines_def exclusive_def startPass_def)
    from exclusive_count [OF that i assms this] show ?thesis
      by (simp add: count_ok_def goroutines_def maxParallelTasks_def)
  qed
  assume "passes D (startPass q s0) c"
  note p = passes_inv [OF this i assms]
  show "queue_wf (pState c)" "\<forall>a \<in> pRunning c. tState (taskAt (pState c) a) = taskPending"
    using pass_invD(1) [OF p] goroutines_okD(3) [OF pass_invD(3) [OF p]] by blast+
qed (use lost_increments [OF assms] in blast)

theorem pass_parallel_bound_witness:
  "(\<exists>c. passes offline (startPass TaskQ demoBatch) c \<and> card (pRunning c) = 17) \<and>
   card (pRunning (startPass TaskQ demoBatch)) \<le> 16 \<and> queue_wf (pState demo2)"
proof (intro conjI)
  have "queueOf TaskQ demoBatch = 0 # [1 ..< 18]" using demoBatch_facts(1) by simp
  moreover have "17 \<le> length [1 ..< 18]" by simp
  moreover have "\<forall>p. fst (executeTask offline 0 (setPending 0 demoBatch)) \<noteq> Inl (Panic p)"
    by (simp add: demoBatch_exec)
  ultimately show "\<exists>c. passes offline (startPass TaskQ demoBatch) c \<and> card (pRunning c) = 17"
    using pass_parallel_bound [OF demoBatch_ok] demoBatch_facts(2) by blast
  show "card (pRunning (startPass TaskQ demoBatch)) \<le> 16"
    using pass_parallel_bound [OF demoBatch_ok] exclusive_passes.refl by blast
  show "queue_wf (pState demo2)" using pass_parallel_bound [OF demo0_ok] demo_run2 by blast
qed

primrec failTimes :: "nat \<Rightarrow> task \<Rightarrow> task" where
  "failTimes 0 t = t"
| "failTimes (Suc n) t = failTask (failTimes n t)"

text \<open>
  What a failure costs: a task that may be retried without end is queued again whatever its
  count; any other is queued again while it has retries left and then dequeued, so with
  \<open>MaxRetries = m\<close> it is dequeued at its failure number \<open>m + 1\<close>.
\<close>

theorem retries_bound:
  "tRetries (failTimes n (newTask ty args\<lparr>tMaxRetries := int m\<rparr>)) = int n \<and>
   (tState (failTimes (Suc n) (newTask ty args\<lparr>tMaxRetries := int m\<rparr>)) = taskDequeued \<longleftrightarrow> n \<ge> m) \<and>
   tState (failTimes n (newTask ty args)) = taskQueued"
proof -
  have "tRetries (failTimes n (newTask ty args\<lparr>tMaxRetries := int m\<rparr>)) = int n \<and>
      tMaxRetries (failTimes n (newTask ty args\<lparr>tMaxRetries := int m\<rparr>)) = int m" for n
    by (induction n) simp_all
  then have "tRetries (failTimes n (newTask ty args\<lparr>tMaxRetries := int m\<rparr>)) = int n"
    "tState (failTimes (Suc n) (newTask ty args\<lparr>tMaxRetries := int m\<rparr>)) = taskDequeued \<longleftrightarrow> n \<ge> m"
    by (auto simp: failTask_def Let_def)
  moreover have "tState (failTimes n (newTask ty args)) = taskQueued \<and>
      tMaxRetries (failTimes n (newTask ty args)) = -1"
    by (induction n) (simp_all add: failTask_def Let_def)
  ultimately show ?thesis by simp
qed

end
