(* ===== verification/SyncLoop.thy ===== *)
theory SyncLoop
  imports SyncPass
begin

text \<open>
  The two loops of the synchronizer and its shutdown: \<open>Start\<close>, \<open>startSyncLoop\<close> and \<open>Shutdown\<close> of
  \<open>core/textile/sync/synchronizer.go\<close>.

  Each loop is a goroutine over its queue.  \<open>Shutdown\<close> is run by whoever calls it: a client, or a
  loop whose context is done.  It sends on the unbuffered shutdown channel of each queue in turn (a
  rendezvous with that queue's loop in its \<open>select\<close>), waits for both loops to return, stores the
  queue and closes the channels.  What a pass does is in \<open>SyncPass\<close>; here it is one state.
\<close>

datatype loopPc = Starting | Selecting | Passing | InShutdown | Exited

datatype shutPc = Idle | SendTask | SendPin | WaitLoops | Storing | Closed

datatype caller = Client | LoopOf queueId

record loops =
  lpPc :: "queueId \<Rightarrow> loopPc"
  shPc :: "caller \<Rightarrow> shutPc"
  cancelled :: bool
  chanClosed :: bool
  storedTimes :: nat

definition loops_Start :: loops where
  "loops_Start = \<lparr> lpPc = \<lambda>_. Starting, shPc = \<lambda>_. Idle, cancelled = False, chanClosed = False,
                   storedTimes = 0 \<rparr>"

definition setLoop :: "queueId \<Rightarrow> loopPc \<Rightarrow> loops \<Rightarrow> loops" where
  "setLoop q p c = c\<lparr>lpPc := (lpPc c)(q := p)\<rparr>"

definition setShut :: "caller \<Rightarrow> shutPc \<Rightarrow> loops \<Rightarrow> loops" where
  "setShut k p c = c\<lparr>shPc := (shPc c)(k := p)\<rparr>"

text \<open>
  \<open>initial\<close> is the first pass; \<open>tick\<close> the timer or a send on \<open>syncNeeded\<close>; \<open>done\<close> the end of a pass.
  A send on a closed channel panics, so it has no step.
\<close>

inductive loop_step :: "loops \<Rightarrow> loops \<Rightarrow> bool" where
  initial: "lpPc c q = Starting \<Longrightarrow> loop_step c (setLoop q Selecting c)"
| tick: "lpPc c q = Selecting \<Longrightarrow> loop_step c (setLoop q Passing c)"
| pass_end: "lpPc c q = Passing \<Longrightarrow> loop_step c (setLoop q Selecting c)"
| ctx_done: "lpPc c q = Selecting \<Longrightarrow> cancelled c \<Longrightarrow>
    loop_step c (setShut (LoopOf q) SendTask (setLoop q InShutdown c))"
| cancel: "loop_step c (c\<lparr>cancelled := True\<rparr>)"
| call: "shPc c Client = Idle \<Longrightarrow> loop_step c (setShut Client SendTask c)"
| send_task: "shPc c k = SendTask \<Longrightarrow> lpPc c TaskQ = Selecting \<Longrightarrow> \<not> chanClosed c \<Longrightarrow>
    loop_step c (setShut k SendPin (setLoop TaskQ Exited c))"
| send_pin: "shPc c k = SendPin \<Longrightarrow> lpPc c PinQ = Selecting \<Longrightarrow> \<not> chanClosed c \<Longrightarrow>
    loop_step c (setShut k WaitLoops (setLoop PinQ Exited c))"
| wait: "shPc c k = WaitLoops \<Longrightarrow> (\<forall>q. lpPc c q = Exited) \<Longrightarrow> loop_step c (setShut k Storing c)"
| store: "shPc c k = Storing \<Longrightarrow>
    loop_step c (setShut k Closed c\<lparr>storedTimes := storedTimes c + 1, chanClosed := True\<rparr>)"
| loop_returns: "lpPc c q = InShutdown \<Longrightarrow> shPc c (LoopOf q) = Closed \<Longrightarrow>
    loop_step c (setLoop q Exited c)"

inductive loops_reach :: "loops \<Rightarrow> loops \<Rightarrow> bool" where
  refl: "loops_reach c c"
| step: "loops_reach c c' \<Longrightarrow> loop_step c' c'' \<Longrightarrow> loops_reach c c''"

lemma loops_reach_step: "loop_step c c' \<Longrightarrow> loops_reach c c'"
  by (rule loops_reach.step [OF loops_reach.refl])

lemma loops_reach_trans: "loops_reach b c \<Longrightarrow> loops_reach a b \<Longrightarrow> loops_reach a c"
  by (induction rule: loops_reach.induct) (auto intro: loops_reach.step)

lemma setLoop_simps [simp]:
  "lpPc (setLoop q p c) = (lpPc c)(q := p)" "shPc (setLoop q p c) = shPc c"
  "cancelled (setLoop q p c) = cancelled c" "chanClosed (setLoop q p c) = chanClosed c"
  "storedTimes (setLoop q p c) = storedTimes c"
  by (simp_all add: setLoop_def)

lemma setShut_simps [simp]:
  "shPc (setShut k p c) = (shPc c)(k := p)" "lpPc (setShut k p c) = lpPc c"
  "cancelled (setShut k p c) = cancelled c" "chanClosed (setShut k p c) = chanClosed c"
  "storedTimes (setShut k p c) = storedTimes c"
  by (simp_all add: setShut_def)

subsection \<open>The invariant\<close>

text \<open>How far a caller of \<open>Shutdown\<close> has got.\<close>

fun stage :: "shutPc \<Rightarrow> nat" where
  "stage Idle = 0" | "stage SendTask = 1" | "stage SendPin = 2" | "stage WaitLoops = 3"
| "stage Storing = 4" | "stage Closed = 5"

text \<open>
  A loop has returned exactly when a caller is past its channel, and only one caller is.  A loop
  runs \<open>Shutdown\<close> only after its context was done, and then it is the one that cannot get past its
  own channel.
\<close>

definition loops_ok :: "loops \<Rightarrow> bool" where
  "loops_ok c \<longleftrightarrow>
     (lpPc c TaskQ = Exited \<longleftrightarrow> (\<exists>k. 2 \<le> stage (shPc c k))) \<and>
     (lpPc c PinQ = Exited \<longleftrightarrow> (\<exists>k. 3 \<le> stage (shPc c k))) \<and>
     (\<forall>k k'. 2 \<le> stage (shPc c k) \<longrightarrow> 2 \<le> stage (shPc c k') \<longrightarrow> k = k') \<and>
     (\<forall>q. 1 \<le> stage (shPc c (LoopOf q)) \<longleftrightarrow> lpPc c q = InShutdown) \<and>
     (\<forall>q. stage (shPc c (LoopOf q)) \<le> 2) \<and>
     (\<forall>q. lpPc c q = InShutdown \<longrightarrow> cancelled c) \<and>
     storedTimes c = (if shPc c Client = Closed then 1 else 0) \<and>
     (chanClosed c \<longleftrightarrow> shPc c Client = Closed)"

lemma loops_okD:
  assumes "loops_ok c"
  shows "lpPc c TaskQ = Exited \<longleftrightarrow> (\<exists>k. 2 \<le> stage (shPc c k))"
    "lpPc c PinQ = Exited \<longleftrightarrow> (\<exists>k. 3 \<le> stage (shPc c k))"
    "2 \<le> stage (shPc c k) \<Longrightarrow> 2 \<le> stage (shPc c k') \<Longrightarrow> k = k'"
    "1 \<le> stage (shPc c (LoopOf q)) \<longleftrightarrow> lpPc c q = InShutdown"
    "stage (shPc c (LoopOf q)) \<le> 2"
    "lpPc c q = InShutdown \<Longrightarrow> cancelled c"
    "storedTimes c = (if shPc c Client = Closed then 1 else 0)"
    "chanClosed c \<longleftrightarrow> shPc c Client = Closed"
  using assms unfolding loops_ok_def by blast+

lemma loops_ok_start: "loops_ok loops_Start"
  by (simp add: loops_ok_def loops_Start_def)

lemma stage_eq:
  "stage p = 0 \<longleftrightarrow> p = Idle" "stage p = 5 \<longleftrightarrow> p = Closed"
  by (cases p; simp)+

text \<open>A step of a loop that is not a send: no caller moves.\<close>

lemma ok_loop_move:
  assumes "loops_ok c" "lpPc c q \<noteq> Exited" "lpPc c q \<noteq> InShutdown" "p \<noteq> Exited" "p \<noteq> InShutdown"
  shows "loops_ok (setLoop q p c)"
proof -
  note d = loops_okD [OF assms(1)]
  have "lpPc (setLoop q p c) q' = Exited \<longleftrightarrow> lpPc c q' = Exited"
    "lpPc (setLoop q p c) q' = InShutdown \<longleftrightarrow> lpPc c q' = InShutdown" for q'
    using assms(2-5) by auto
  then show ?thesis using assms(1) unfolding loops_ok_def by simp
qed

lemma ok_send_task:
  assumes ok: "loops_ok c" and s: "shPc c k = SendTask" "lpPc c TaskQ = Selecting"
  shows "loops_ok (setShut k SendPin (setLoop TaskQ Exited c))" (is "loops_ok ?c")
proof -
  note d = loops_okD [OF ok]
  have none: "stage (shPc c k') < 2" for k' using d(1) s(2) by (auto simp: not_le [symmetric])
  have k: "k \<noteq> LoopOf TaskQ" using d(4) [of TaskQ] s by auto
  have st: "stage (shPc ?c k') = (if k' = k then 2 else stage (shPc c k'))" for k' by simp
  have lt3: "\<not> 3 \<le> stage (shPc c k')" for k' using none [of k'] by simp
  then have "lpPc c PinQ \<noteq> Exited" using d(2) by blast
  moreover have "\<not> (\<exists>k'. 3 \<le> stage (shPc ?c k'))" unfolding st using lt3 by auto
  moreover have "\<exists>k'. 2 \<le> stage (shPc ?c k')" unfolding st by (intro exI [of _ k]) simp
  moreover have "2 \<le> stage (shPc ?c k') \<longleftrightarrow> k' = k" for k' unfolding st using none by (auto simp: not_le)
  moreover have "1 \<le> stage (shPc ?c (LoopOf q)) \<longleftrightarrow> lpPc ?c q = InShutdown" for q
    using d(4) [of q] s k unfolding st by (cases q) auto
  moreover have "stage (shPc ?c (LoopOf q)) \<le> 2" for q unfolding st using d(5) [of q] by simp
  moreover have "lpPc ?c q = InShutdown \<Longrightarrow> cancelled ?c" for q using d(6) [of q] by (auto split: if_splits)
  moreover have "storedTimes ?c = (if shPc ?c Client = Closed then 1 else 0)"
    "chanClosed ?c \<longleftrightarrow> shPc ?c Client = Closed" using d(7,8) s by auto
  ultimately show ?thesis unfolding loops_ok_def by auto
qed


lemma ok_send_pin:
  assumes ok: "loops_ok c" and s: "shPc c k = SendPin" "lpPc c PinQ = Selecting"
  shows "k = Client" "loops_ok (setShut k WaitLoops (setLoop PinQ Exited c))"
proof -
  note d = loops_okD [OF ok]
  have t: "lpPc c TaskQ = Exited" using d(1) s(1) by (metis stage.simps(3) order_refl)
  have one: "2 \<le> stage (shPc c k') \<longleftrightarrow> k' = k" for k' using d(3) [of k' k] s(1) by auto
  show k: "k = Client"
  proof (cases k)
    case (LoopOf q)
    then have "lpPc c q = InShutdown" using d(4) [of q] s(1) by simp
    then show ?thesis using s(2) t by (cases q) auto
  qed
  let ?c = "setShut k WaitLoops (setLoop PinQ Exited c)"
  have st: "stage (shPc ?c k') = (if k' = k then 3 else stage (shPc c k'))" for k' by simp
  have "2 \<le> stage (shPc ?c k') \<longleftrightarrow> k' = k" for k' unfolding st using one by auto
  moreover have "\<exists>k'. 3 \<le> stage (shPc ?c k')" unfolding st by (intro exI [of _ k]) simp
  moreover have "stage (shPc ?c (LoopOf q)) = stage (shPc c (LoopOf q))" for q unfolding st k by simp
  moreover have "lpPc ?c q = InShutdown \<longleftrightarrow> lpPc c q = InShutdown" for q using s(2) by auto
  ultimately show "loops_ok ?c" unfolding loops_ok_def using d s(1) t k by auto
qed

lemma ok_wait:
  assumes ok: "loops_ok c" and s: "shPc c k = WaitLoops"
  shows "k = Client" "loops_ok (setShut k Storing c)"
proof -
  note d = loops_okD [OF ok]
  show k: "k = Client"
  proof (cases k)
    case (LoopOf q)
    then show ?thesis using d(5) [of q] s by simp
  qed
  let ?c = "setShut k Storing c"
  have "stage (shPc c k) = 3" using s by simp
  then have "2 \<le> stage (shPc ?c k') \<longleftrightarrow> 2 \<le> stage (shPc c k')" "3 \<le> stage (shPc ?c k') \<longleftrightarrow> 3 \<le> stage (shPc c k')" for k'
    by auto
  moreover have "stage (shPc ?c (LoopOf q)) = stage (shPc c (LoopOf q))" for q using k by simp
  ultimately show "loops_ok ?c" unfolding loops_ok_def using d s k by auto
qed

lemma ok_store:
  assumes ok: "loops_ok c" and s: "shPc c k = Storing"
  shows "k = Client"
    "loops_ok (setShut k Closed c\<lparr>storedTimes := storedTimes c + 1, chanClosed := True\<rparr>)"
proof -
  note d = loops_okD [OF ok]
  show k: "k = Client"
  proof (cases k)
    case (LoopOf q)
    then show ?thesis using d(5) [of q] s by simp
  qed
  let ?c = "setShut k Closed c\<lparr>storedTimes := storedTimes c + 1, chanClosed := True\<rparr>"
  have "stage (shPc c k) = 4" using s by simp
  then have "2 \<le> stage (shPc ?c k') \<longleftrightarrow> 2 \<le> stage (shPc c k')" "3 \<le> stage (shPc ?c k') \<longleftrightarrow> 3 \<le> stage (shPc c k')" for k'
    by auto
  moreover have "stage (shPc ?c (LoopOf q)) = stage (shPc c (LoopOf q))" for q using k by simp
  ultimately show "loops_ok ?c" unfolding loops_ok_def using d s k by auto
qed

lemma ok_ctx_done:
  assumes ok: "loops_ok c" and s: "lpPc c q = Selecting" "cancelled c"
  shows "loops_ok (setShut (LoopOf q) SendTask (setLoop q InShutdown c))" (is "loops_ok ?c")
proof -
  note d = loops_okD [OF ok]
  have z: "stage (shPc c (LoopOf q)) = 0" using d(4) [of q] s(1) by (auto simp: not_le)
  have st: "stage (shPc ?c k') = (if k' = LoopOf q then 1 else stage (shPc c k'))" for k' by simp
  have "2 \<le> stage (shPc ?c k') \<longleftrightarrow> 2 \<le> stage (shPc c k')" "3 \<le> stage (shPc ?c k') \<longleftrightarrow> 3 \<le> stage (shPc c k')" for k'
    unfolding st using z by auto
  moreover have "1 \<le> stage (shPc ?c (LoopOf q')) \<longleftrightarrow> lpPc ?c q' = InShutdown" for q'
    unfolding st using d(4) [of q'] by auto
  moreover have "stage (shPc ?c (LoopOf q')) \<le> 2" for q' unfolding st using d(5) [of q'] by auto
  moreover have "lpPc ?c q' = Exited \<longleftrightarrow> lpPc c q' = Exited" for q' using s(1) by auto
  ultimately show ?thesis unfolding loops_ok_def using d s by auto
qed

lemma loop_step_ok: "loop_step c c' \<Longrightarrow> loops_ok c \<Longrightarrow> loops_ok c'"
proof (induction rule: loop_step.induct)
  case (send_task c k)
  then show ?case using ok_send_task by blast
next
  case (send_pin c k)
  then show ?case using ok_send_pin by blast
next
  case (wait c k)
  then show ?case using ok_wait by blast
next
  case (store c k)
  then show ?case using ok_store by blast
next
  case (ctx_done c q)
  then show ?case using ok_ctx_done by blast
next
  case (cancel c)
  then show ?case unfolding loops_ok_def by simp
next
  case (call c)
  have st: "stage (shPc (setShut Client SendTask c) k') = (if k' = Client then 1 else stage (shPc c k'))" for k'
    by simp
  have "2 \<le> stage (shPc (setShut Client SendTask c) k') \<longleftrightarrow> 2 \<le> stage (shPc c k')"
    "3 \<le> stage (shPc (setShut Client SendTask c) k') \<longleftrightarrow> 3 \<le> stage (shPc c k')" for k'
    unfolding st using call(1) by auto
  then show ?case using call unfolding loops_ok_def by auto
next
  case (loop_returns c q)
  then show ?case using loops_okD(5) [OF loop_returns(3), of q] by simp
qed (auto intro!: ok_loop_move)

lemma loops_reach_ok: "loops_reach c c' \<Longrightarrow> loops_ok c \<Longrightarrow> loops_ok c'"
  by (induction rule: loops_reach.induct) (auto intro: loop_step_ok)


subsection \<open>What shutting down does\<close>

lemma stored_exited:
  assumes "loops_ok c" "storedTimes c \<noteq> 0"
  shows "storedTimes c = 1" "lpPc c q = Exited"
proof -
  note d = loops_okD [OF assms(1)]
  have cl: "shPc c Client = Closed" using assms(2) d(7) by (auto split: if_splits)
  then show "storedTimes c = 1" using d(7) by simp
  have "3 \<le> stage (shPc c Client)" "2 \<le> stage (shPc c Client)" unfolding cl by simp_all
  then have "lpPc c TaskQ = Exited" "lpPc c PinQ = Exited" using d(1,2) by blast+
  then show "lpPc c q = Exited" by (cases q) simp_all
qed

text \<open>
  The queue is stored at most once, and only when both loops have returned: no pass can change
  what has been stored.
\<close>

theorem stored_after_loops:
  assumes "loops_reach loops_Start c"
  shows "storedTimes c \<le> 1 \<and> (storedTimes c = 1 \<longrightarrow> lpPc c TaskQ = Exited \<and> lpPc c PinQ = Exited)"
proof -
  have "loops_ok c" using loops_reach_ok [OF assms loops_ok_start] .
  from stored_exited [OF this] show ?thesis by (cases "storedTimes c = 0") simp_all
qed

text \<open>The client's shutdown can complete, without the context being done on the way.\<close>

definition goal :: "loops \<Rightarrow> bool" where
  "goal c \<longleftrightarrow> (\<exists>c'. loops_reach c c' \<and> shPc c' Client = Closed \<and> cancelled c' = cancelled c)"

lemma goal_step: "loop_step c c' \<Longrightarrow> cancelled c' = cancelled c \<Longrightarrow> goal c' \<Longrightarrow> goal c"
  unfolding goal_def using loops_reach_trans loops_reach_step by metis

text \<open>A loop that is not in \<open>Shutdown\<close> and has not returned can get to its \<open>select\<close>.\<close>

lemma goal_select:
  assumes "lpPc c q \<noteq> InShutdown" "lpPc c q \<noteq> Exited"
    and "\<And>c' :: loops. lpPc c' = (lpPc c)(q := Selecting) \<Longrightarrow> shPc c' = shPc c \<Longrightarrow>
      cancelled c' = cancelled c \<Longrightarrow> chanClosed c' = chanClosed c \<Longrightarrow> goal c'"
  shows "goal c"
proof (cases "lpPc c q = Selecting")
  case True
  then show ?thesis using assms(3) [of c] by (simp add: fun_upd_idem)
next
  case False
  then have "loop_step c (setLoop q Selecting c)"
    using assms(1,2) by (cases "lpPc c q") (auto intro: loop_step.intros)
  then show ?thesis using assms(3) [of "setLoop q Selecting c"] by (auto intro: goal_step)
qed

lemma goal_storing: "shPc c Client = Storing \<Longrightarrow> goal c"
  unfolding goal_def using loops_reach_step [OF loop_step.store] by fastforce

lemma goal_waiting:
  assumes "shPc c Client = WaitLoops" "\<forall>q. lpPc c q = Exited"
  shows "goal c"
  using goal_step [OF loop_step.wait [OF assms] _ goal_storing] by simp

lemma goal_pin:
  assumes "shPc c Client = SendPin" "lpPc c TaskQ = Exited" "lpPc c PinQ \<noteq> Exited"
    "lpPc c PinQ \<noteq> InShutdown" "\<not> chanClosed c"
  shows "goal c"
proof (rule goal_select [OF assms(4,3)])
  fix c' :: loops assume c': "lpPc c' = (lpPc c)(PinQ := Selecting)" "shPc c' = shPc c"
    "chanClosed c' = chanClosed c"
  have "goal (setShut Client WaitLoops (setLoop PinQ Exited c'))"
  proof (rule goal_waiting)
    show "\<forall>q. lpPc (setShut Client WaitLoops (setLoop PinQ Exited c')) q = Exited"
    proof
      fix q show "lpPc (setShut Client WaitLoops (setLoop PinQ Exited c')) q = Exited"
        using c' assms(2) by (cases q) simp_all
    qed
  qed simp
  then show "goal c'"
    using loop_step.send_pin [of c' Client] c' assms(1,5) by (auto intro: goal_step)
qed

lemma goal_task:
  assumes "shPc c Client = SendTask" "lpPc c TaskQ \<noteq> Exited" "lpPc c TaskQ \<noteq> InShutdown"
    "lpPc c PinQ \<noteq> Exited" "lpPc c PinQ \<noteq> InShutdown" "\<not> chanClosed c"
  shows "goal c"
proof (rule goal_select [OF assms(3,2)])
  fix c' :: loops assume c': "lpPc c' = (lpPc c)(TaskQ := Selecting)" "shPc c' = shPc c"
    "chanClosed c' = chanClosed c"
  have "goal (setShut Client SendPin (setLoop TaskQ Exited c'))"
    using c' assms by (intro goal_pin) simp_all
  then show "goal c'"
    using loop_step.send_task [of c' Client] c' assms(1,6) by (auto intro: goal_step)
qed

lemma goal_called_client:
  assumes "loops_reach loops_Start c" "shPc c Client \<noteq> Idle" "\<And>q. lpPc c q \<noteq> InShutdown"
  shows "goal c"
proof -
  have ok: "loops_ok c" using loops_reach_ok [OF assms(1) loops_ok_start] .
  note d = loops_okD [OF ok]
  note ns = assms(3)
  have z: "stage (shPc c (LoopOf q)) = 0" for q using d(4) [of q] ns by (simp add: not_le)
  have only: "k = Client" if "1 \<le> stage (shPc c k)" for k using z that by (cases k) auto
  have t: "lpPc c TaskQ = Exited \<longleftrightarrow> 2 \<le> stage (shPc c Client)"
    "lpPc c PinQ = Exited \<longleftrightarrow> 3 \<le> stage (shPc c Client)"
    using d(1,2) only by (metis le_trans one_le_numeral)+
  show "goal c"
  proof (cases "shPc c Client")
    case Idle
    then show ?thesis using assms(2) by simp
  next
    case SendTask
    then show ?thesis using t ns d(8) by (intro goal_task) simp_all
  next
    case SendPin
    then show ?thesis using t ns d(8) by (intro goal_pin) simp_all
  next
    case WaitLoops
    then have "lpPc c q = Exited" for q using t by (cases q) simp_all
    then show ?thesis using WaitLoops by (intro goal_waiting) simp_all
  next
    case Storing
    then show ?thesis by (rule goal_storing)
  next
    case Closed
    then show ?thesis unfolding goal_def using loops_reach.refl by blast
  qed
qed

text \<open>A loop that runs \<open>Shutdown\<close> itself does so for ever, and no client's shutdown completes.\<close>

lemma inShutdown_step:
  assumes "loop_step c c'" "loops_ok c" "lpPc c q = InShutdown"
  shows "lpPc c' q = InShutdown"
  using assms(1)
proof cases
  case (loop_returns q')
  then show ?thesis using loops_okD(5) [OF assms(2), of q'] by simp
qed (use assms(3) in \<open>auto split: if_splits\<close>)

lemma inShutdown_not_closed:
  assumes "loops_ok c" "lpPc c q = InShutdown"
  shows "shPc c Client \<noteq> Closed"
proof
  assume "shPc c Client = Closed"
  then have "lpPc c TaskQ = Exited" "lpPc c PinQ = Exited"
    using loops_okD(1,2) [OF assms(1)] by (metis stage.simps(6) numeral_le_iff semiring_norm(68,72,73))+
  then show False using assms(2) by (cases q) simp_all
qed

lemma cancelled_reach: "loops_reach c c' \<Longrightarrow> cancelled c \<Longrightarrow> cancelled c'"
proof (induction rule: loops_reach.induct)
  case (step c c' c'')
  from step.hyps(2) show ?case by cases (use step in auto)
qed simp

text \<open>A client that calls \<open>Shutdown\<close> right after \<open>Start\<close>.\<close>

definition called :: loops where
  "called = setShut Client SendTask loops_Start"

lemma reach_called: "loops_reach loops_Start called"
  unfolding called_def by (intro loops_reach_step loop_step.call) (simp add: loops_Start_def)

lemma called_simps: "shPc called Client = SendTask" "\<not> cancelled called"
  by (simp_all add: called_def loops_Start_def)

lemma goal_called: "goal called"
  by (rule goal_task) (simp_all add: called_def loops_Start_def)

theorem stored_after_loops_witness:
  "\<exists>c :: loops. storedTimes c = 1 \<and> lpPc c TaskQ = Exited \<and> lpPc c PinQ = Exited"
proof -
  obtain c where c: "loops_reach called c" "shPc c Client = Closed"
    using goal_called unfolding goal_def by blast
  have r: "loops_reach loops_Start c" using loops_reach_trans [OF c(1) reach_called] .
  have "storedTimes c = 1" using loops_okD(7) [OF loops_reach_ok [OF r loops_ok_start]] c(2) by simp
  with stored_after_loops [OF r] show ?thesis by (intro exI [of _ c]) simp
qed

text \<open>
  C15. A shutdown that a client has called can always complete, as long as the context is not done:
  from every reachable state there are steps that store the queue and close the channels.
\<close>

theorem shutdown_completes:
  assumes "loops_reach loops_Start c" "shPc c Client \<noteq> Idle" "\<not> cancelled c"
  shows "\<exists>c'. loops_reach c c' \<and> shPc c' Client = Closed \<and> storedTimes c' = 1"
proof -
  have ok: "loops_ok c" using loops_reach_ok [OF assms(1) loops_ok_start] .
  have "lpPc c q \<noteq> InShutdown" for q using loops_okD(6) [OF ok, of q] assms(3) by blast
  then obtain c' where c': "loops_reach c c'" "shPc c' Client = Closed"
    using goal_called_client [OF assms(1,2)] unfolding goal_def by blast
  then show ?thesis using loops_okD(7) [OF loops_reach_ok [OF c'(1) ok]] by auto
qed

theorem shutdown_completes_witness:
  "\<exists>c c'. shPc c Client = SendTask \<and> loops_reach c c' \<and> storedTimes c' = 1"
proof -
  have "shPc called Client \<noteq> Idle" by (simp add: called_simps)
  then obtain c' where "loops_reach called c'" "storedTimes c' = 1"
    using shutdown_completes [OF reach_called _ called_simps(2)] by blast
  then show ?thesis using called_simps(1) by blast
qed

text \<open>
  C22. A loop that leaves its \<open>select\<close> because its context is done calls \<open>Shutdown\<close> itself, and then
  nothing is ever stored: it would have to receive the shutdown signal that it sends.
\<close>

theorem context_done_never_stores:
  assumes "loops_reach loops_Start c" "lpPc c q = InShutdown" "loops_reach c c'"
  shows "lpPc c' q = InShutdown \<and> storedTimes c' = 0"
proof -
  have "loops_ok c" using loops_reach_ok [OF assms(1) loops_ok_start] .
  have stuck: "lpPc c' q = InShutdown" using assms(3,2) \<open>loops_ok c\<close>
  proof (induction rule: loops_reach.induct)
    case (step c c' c'')
    then show ?case using inShutdown_step loops_reach_ok by blast
  qed
  moreover have "storedTimes c' = 0"
    using stored_exited(2) [OF loops_reach_ok [OF assms(3) \<open>loops_ok c\<close>], of q] stuck by auto
  ultimately show ?thesis ..
qed

text \<open>A run in which it happens: the context is done before either loop gets a shutdown signal.\<close>

theorem context_done_never_stores_witness:
  "\<exists>c. loops_reach loops_Start c \<and> lpPc c TaskQ = InShutdown \<and>
     (\<forall>c'. loops_reach c c' \<longrightarrow> storedTimes c' = 0)"
proof -
  let ?a = "setLoop TaskQ Selecting loops_Start"
  let ?b = "?a\<lparr>cancelled := True\<rparr>"
  let ?c = "setShut (LoopOf TaskQ) SendTask (setLoop TaskQ InShutdown ?b)"
  have "loops_reach loops_Start ?a"
    by (intro loops_reach_step loop_step.initial) (simp add: loops_Start_def)
  then have "loops_reach loops_Start ?b" by (rule loops_reach.step [OF _ loop_step.cancel])
  then have "loops_reach loops_Start ?c" by (rule loops_reach.step) (rule loop_step.ctx_done; simp)
  moreover have "lpPc ?c TaskQ = InShutdown" by simp
  ultimately show ?thesis using context_done_never_stores [of ?c TaskQ] by blast
qed

end
