(* ===== verification/Permissions.thy ===== *)
theory Permissions
  imports Base64 Json
begin

text \<open>
  App tokens: \<open>core/permissions/app_token.go\<close>.  A token is kept as JSON and handed to a client as
  its key and secret joined by a dot.  The random source is a parameter.
\<close>

record appToken =
  atKey :: bytes
  atSecret :: bytes
  atIsMaster :: bool
  atPermissions :: "bytes list"

definition tokenJson :: "appToken \<Rightarrow> jvalue" where
  "tokenJson t = JObj [(''key'', JStr (atKey t)), (''secret'', JStr (atSecret t)),
     (''isMaster'', JBool (atIsMaster t)), (''permissions'', JArr (map JStr (atPermissions t)))]"

definition MarshalToken :: "appToken \<Rightarrow> err + bytes" where
  "MarshalToken t = Inr (jprint (tokenJson t))"

definition UnmarshalToken :: "bytes \<Rightarrow> err + appToken" where
  "UnmarshalToken data =
     (case jparse data of None \<Rightarrow> Inl (Err ''json: invalid syntax'')
      | Some v \<Rightarrow> bindS (jGetObj v) (\<lambda>kvs.
          bindS (jGetStr (jField ''key'' kvs)) (\<lambda>k.
          bindS (jGetStr (jField ''secret'' kvs)) (\<lambda>s.
          bindS (jGetBool (jField ''isMaster'' kvs)) (\<lambda>m.
          bindS (jGetArr jGetStr (jField ''permissions'' kvs)) (\<lambda>ps.
            Inr \<lparr> atKey = k, atSecret = s, atIsMaster = m, atPermissions = ps \<rparr>))))))"

definition tokenKeyLength :: nat where "tokenKeyLength = 20"
definition tokenSecretLength :: nat where "tokenSecretLength = 30"

definition GenerateRandomToken ::
  "(nat \<Rightarrow> ('w, bytes) eff) \<Rightarrow> bool \<Rightarrow> bytes list \<Rightarrow> ('w, appToken) eff" where
  "GenerateRandomToken rand isMaster perms =
     bindE (rand tokenKeyLength) (\<lambda>k.
     bindE (rand tokenSecretLength) (\<lambda>s.
       retE \<lparr> atKey = b64EncodeRaw urlAlphabet k, atSecret = b64EncodeRaw urlAlphabet s,
              atIsMaster = isMaster, atPermissions = perms \<rparr>))"

definition GetAccessToken :: "appToken \<Rightarrow> bytes" where
  "GetAccessToken t = atKey t @ ''.'' @ atSecret t"

definition GetKeyAndSecretFromAccessToken :: "bytes \<Rightarrow> err + (bytes \<times> bytes)" where
  "GetKeyAndSecretFromAccessToken accessToken =
     (let tp = strSplit accessToken ''.'' in
      if length tp < 2 then Inl (Err ''invalid token format'') else Inr (tp ! 0, tp ! 1))"

subsection \<open>Round trips\<close>

text \<open>What \<open>GenerateRandomToken\<close> makes, for permissions in ASCII.\<close>

definition tokenOk :: "appToken \<Rightarrow> bool" where
  "tokenOk t \<longleftrightarrow> ascii (atKey t) \<and> ascii (atSecret t) \<and> list_all ascii (atPermissions t) \<and>
     CHR ''.'' \<notin> set (atKey t) \<and> CHR ''.'' \<notin> set (atSecret t)"

lemma tokenJson_ok: "tokenOk t \<Longrightarrow> jOk (tokenJson t)"
  by (auto simp: tokenJson_def tokenOk_def list_all_iff)

lemma unmarshal_marshal_token:
  assumes "tokenOk t"
  shows "UnmarshalToken (jprint (tokenJson t)) = Inr t"
  unfolding UnmarshalToken_def jparse_jprint [OF tokenJson_ok [OF assms]]
  by (simp add: tokenJson_def jGetObj_def jField_def equalFold_def strToLower_def toLowerC_def
      jGetStr_def jGetBool_def jGetArr_def mapSum_map [of _ _ _ "\<lambda>x. x", simplified])

lemma access_token_parts:
  "tokenOk t \<Longrightarrow> GetKeyAndSecretFromAccessToken (GetAccessToken t) = Inr (atKey t, atSecret t)"
  by (simp add: tokenOk_def GetKeyAndSecretFromAccessToken_def GetAccessToken_def)

lemma ascii_alphabet: "set s \<subseteq> set urlAlphabet \<Longrightarrow> ascii s"
proof -
  have "\<forall>c \<in> set urlAlphabet. code_of c < 128" by code_simp
  then show "set s \<subseteq> set urlAlphabet \<Longrightarrow> ascii s" by (auto simp: ascii_def list_all_iff)
qed

lemma generated_tokenOk:
  assumes "GenerateRandomToken rand isMaster perms w = (Inr t, w')" "list_all ascii perms"
  shows "tokenOk t \<and> atIsMaster t = isMaster \<and> atPermissions t = perms"
  using assms url_no_dot ascii_alphabet [OF set_b64EncodeRaw [OF std_url_alphabet(2)]]
  by (auto simp: GenerateRandomToken_def bindE_eq_Inr tokenOk_def)

subsection \<open>Properties\<close>

text \<open>
  A generated token survives being stored and being presented: unmarshalling what was
  marshalled gives the token, and splitting its access token gives its key and its secret.
\<close>

theorem generated_token_roundtrip:
  assumes "GenerateRandomToken rand isMaster perms w = (Inr t, w')" "list_all ascii perms"
  shows "bindS (MarshalToken t) UnmarshalToken = Inr t \<and>
    GetKeyAndSecretFromAccessToken (GetAccessToken t) = Inr (atKey t, atSecret t)"
  using generated_tokenOk [OF assms] unmarshal_marshal_token access_token_parts
  by (simp add: MarshalToken_def)

definition zeroRand :: "nat \<Rightarrow> (unit, bytes) eff" where
  "zeroRand n = retE (replicate n (CHR 0x00))"

theorem generated_token_roundtrip_witness:
  "\<exists>t. GenerateRandomToken zeroRand False [''OpenFile''] () = (Inr t, ()) \<and>
     bindS (MarshalToken t) UnmarshalToken = Inr t"
proof -
  obtain t where t: "GenerateRandomToken zeroRand False [''OpenFile''] () = (Inr t, ())"
    by (simp add: GenerateRandomToken_def zeroRand_def)
  have "list_all ascii [''OpenFile'']" by (simp add: ascii_def)
  from generated_token_roundtrip [OF t this] t show ?thesis by blast
qed

end
