(* ===== verification/Keychain.thy ===== *)
theory Keychain
  imports Store Permissions
begin

text \<open>
  The keychain: \<open>core/keychain\<close> (\<open>keychain.go\<close>, \<open>mnemonic.go\<close>, \<open>app_token.go\<close>).

  The private key is kept with its mnemonic in the key ring of the operating system and in a cache,
  the public key in the store.  The key ring, the ed25519 and key derivation functions and BIP39
  are parameters (\<open>kcDeps\<close>); the ring and the store live in the state \<open>'w\<close>.  A key is its raw
  bytes.  \<open>kc_ok\<close> is what ring, store and cryptography document.
\<close>

subsection \<open>What the keychain stands on\<close>

record ringItem =
  riKey :: bytes
  riData :: bytes
  riLabel :: bytes

record 'w keyring =
  rgSet :: "ringItem \<Rightarrow> ('w, unit) eff"
  rgGet :: "bytes \<Rightarrow> ('w, ringItem) eff"
  rgRemove :: "bytes \<Rightarrow> ('w, unit) eff"
  rgGetMetadata :: "bytes \<Rightarrow> ('w, unit) eff"

record keyLib =
  klNewKeyFromSeed :: "bytes \<Rightarrow> bytes"
  klPublic :: "bytes \<Rightarrow> bytes"
  klSign :: "bytes \<Rightarrow> bytes \<Rightarrow> bytes"
  klUnmarshalPriv :: "bytes \<Rightarrow> err + bytes"
  klUnmarshalPub :: "bytes \<Rightarrow> err + bytes"
  klPbkdf2 :: "bytes \<Rightarrow> bytes \<Rightarrow> nat \<Rightarrow> nat \<Rightarrow> bytes"
  klNewMnemonic :: "bytes \<Rightarrow> err + bytes"
  klNewSeed :: "bytes \<Rightarrow> bytes \<Rightarrow> err + bytes"
  klKeyFromBytes :: "bytes \<Rightarrow> err + bytes"

record 'w kcDeps =
  kdFileDir :: bytes
  kdRing :: "'w keyring option"
  kdUserConfigDir :: "err + bytes"
  kdOpenRing :: "bytes \<Rightarrow> bytes \<Rightarrow> err + 'w keyring"
  kdStore :: "'w storeI"
  kdLib :: keyLib
  kdRand :: "nat \<Rightarrow> ('w, bytes) eff"

text \<open>The cache \<open>kc.privKey\<close>, and everything below.\<close>

record 'w kcState =
  kcPriv :: "bytes option"
  kcEnv :: 'w

definition envE :: "('w, 'a) eff \<Rightarrow> ('w kcState, 'a) eff" where
  "envE m = (\<lambda>s. let (r, w) = m (kcEnv s) in (r, s\<lparr>kcEnv := w\<rparr>))"

lemma envE_apply: "envE m s = (fst (m (kcEnv s)), s\<lparr>kcEnv := snd (m (kcEnv s))\<rparr>)"
  by (simp add: envE_def split: prod.splits)

definition PrivateKeyStoreKey :: bytes where "PrivateKeyStoreKey = ''key''"
definition PublicKeyStoreKey :: bytes where "PublicKeyStoreKey = ''pub''"
definition privKeyMnemonicSeparator :: bytes where "privKeyMnemonicSeparator = ''___''"

definition ErrKeyPairNotFound :: string where
  "ErrKeyPairNotFound = ''No key pair found in the local db.''"

definition errRingKeyNotFound :: string where
  "errRingKeyNotFound = ''The specified item could not be found in the keyring''"

subsection \<open>keychain.go\<close>

definition getKeyRing :: "'w kcDeps \<Rightarrow> err + 'w keyring" where
  "getKeyRing D =
     (case kdRing D of
        Some ring \<Rightarrow> Inr ring
      | None \<Rightarrow> bindS (kdUserConfigDir D) (\<lambda>ucd.
          kdOpenRing D (kdFileDir D @ ''/kcpw'') (pathJoin [ucd, ''space'', ''keyring''])))"

text \<open>
  An error of \<open>GetMetadata\<close> other than not found is dropped.  The store never
  returns a nil slice without an error, so the code's branch for one does not occur.
\<close>

definition GetStoredPublicKey :: "'w kcDeps \<Rightarrow> ('w kcState, bytes) eff" where
  "GetStoredPublicKey D =
     bindE (liftE (getKeyRing D)) (\<lambda>ring.
     bindE (tryE (envE (rgGetMetadata ring PrivateKeyStoreKey))) (\<lambda>m.
       if m = Inl errRingKeyNotFound then failE (Err ErrKeyPairNotFound)
       else bindE (envE (sGet (kdStore D) PublicKeyStoreKey)) (\<lambda>pubInBytes.
         liftE (klUnmarshalPub (kdLib D) pubInBytes))))"

definition retrieveKeyPair :: "'w kcDeps \<Rightarrow> ('w kcState, bytes \<times> bytes) eff" where
  "retrieveKeyPair D =
     bindE (liftE (getKeyRing D)) (\<lambda>ring.
     bindE (envE (rgGet ring PrivateKeyStoreKey)) (\<lambda>item.
       let parts = strSplit (riData item) privKeyMnemonicSeparator in
       bindE (liftE (idx parts 1)) (\<lambda>mnemonic.
       bindE (liftE (idx parts 0)) (\<lambda>privHex.
       bindE (liftE (hexDecode privHex)) (\<lambda>privKey. retE (privKey, mnemonic))))))"

definition storeKeyPair :: "'w kcDeps \<Rightarrow> bytes \<Rightarrow> bytes \<Rightarrow> bytes \<Rightarrow> ('w kcState, unit) eff" where
  "storeKeyPair D privKey pubKey mnemonic =
     bindE (liftE (getKeyRing D)) (\<lambda>ring.
     thenE (envE (rgSet ring \<lparr> riKey = PrivateKeyStoreKey,
              riData = hexEncode privKey @ privKeyMnemonicSeparator @ mnemonic,
              riLabel = ''Space App'' \<rparr>))
       (envE (sSet (kdStore D) PublicKeyStoreKey pubKey)))"

definition generateKeyPair :: "'w kcDeps \<Rightarrow> bytes option \<Rightarrow> ('w kcState, bytes \<times> bytes) eff" where
  "generateKeyPair D seed =
     (case seed of
        Some s \<Rightarrow> (let priv = klNewKeyFromSeed (kdLib D) s in retE (klPublic (kdLib D) priv, priv))
      | None \<Rightarrow> bindE (envE (kdRand D 32)) (\<lambda>s.
          let priv = klNewKeyFromSeed (kdLib D) s in retE (klPublic (kdLib D) priv, priv)))"

text \<open>A key that cannot be unmarshalled would be cached as a nil key; the error is only logged.\<close>

definition generateAndStoreKeyPair ::
  "'w kcDeps \<Rightarrow> bytes option \<Rightarrow> bytes \<Rightarrow> ('w kcState, bytes \<times> bytes) eff" where
  "generateAndStoreKeyPair D seed mnemonic =
     bindE (generateKeyPair D seed) (\<lambda>(pub, priv).
     thenE (storeKeyPair D priv pub mnemonic)
     (thenE (modE (\<lambda>s. s\<lparr>kcPriv := (case klUnmarshalPriv (kdLib D) priv of
              Inr k \<Rightarrow> Some k | Inl _ \<Rightarrow> Some [])\<rparr>))
       (retE (pub, priv))))"

definition GenerateKeyPair :: "'w kcDeps \<Rightarrow> ('w kcState, bytes \<times> bytes) eff" where
  "GenerateKeyPair D =
     bindE (tryE (GetStoredPublicKey D)) (\<lambda>r.
       case r of
         Inr _ \<Rightarrow> failE (Err ''Error while executing GenerateKeyPair. Key pair already exists. Use GenerateKeyPairWithForce if you want to override it.'')
       | Inl _ \<Rightarrow> generateAndStoreKeyPair D None [])"

definition GenerateKeyPairWithForce :: "'w kcDeps \<Rightarrow> ('w kcState, bytes \<times> bytes) eff" where
  "GenerateKeyPairWithForce D = generateAndStoreKeyPair D None []"

text \<open>The private and the public key.\<close>

definition GetStoredKeyPairInLibP2PFormat :: "'w kcDeps \<Rightarrow> ('w kcState, bytes \<times> bytes) eff" where
  "GetStoredKeyPairInLibP2PFormat D =
     bindE (GetStoredPublicKey D) (\<lambda>_.
     bindE (getE kcPriv) (\<lambda>cached.
       case cached of
         Some k \<Rightarrow> retE (k, klPublic (kdLib D) k)
       | None \<Rightarrow>
           bindE (tryE (retrieveKeyPair D)) (\<lambda>r.
             case r of
               Inl _ \<Rightarrow> failE (Err ErrKeyPairNotFound)
             | Inr (priv, _) \<Rightarrow>
                 bindE (liftE (klUnmarshalPriv (kdLib D) priv)) (\<lambda>k.
                 thenE (modE (\<lambda>s. s\<lparr>kcPriv := Some k\<rparr>)) (retE (k, klPublic (kdLib D) k))))))"

definition GetStoredMnemonic :: "'w kcDeps \<Rightarrow> ('w kcState, bytes) eff" where
  "GetStoredMnemonic D = bindE (retrieveKeyPair D) (\<lambda>(_, mnemonic). retE mnemonic)"

definition ImportExistingKeyPair :: "'w kcDeps \<Rightarrow> bytes \<Rightarrow> bytes \<Rightarrow> ('w kcState, unit) eff" where
  "ImportExistingKeyPair D priv mnemonic =
     thenE (storeKeyPair D priv (klPublic (kdLib D) priv) mnemonic)
       (modE (\<lambda>s. s\<lparr>kcPriv := Some priv\<rparr>))"

definition DeleteKeypair :: "'w kcDeps \<Rightarrow> ('w kcState, unit) eff" where
  "DeleteKeypair D =
     bindE (liftE (getKeyRing D)) (\<lambda>ring.
     bindE (tryE (envE (rgRemove ring PrivateKeyStoreKey))) (\<lambda>_.
     thenE (envE (sRemove (kdStore D) PublicKeyStoreKey)) (modE (\<lambda>s. s\<lparr>kcPriv := None\<rparr>))))"

definition Sign :: "'w kcDeps \<Rightarrow> bytes \<Rightarrow> ('w kcState, bytes) eff" where
  "Sign D message =
     bindE (retrieveKeyPair D) (\<lambda>(priv, _). retE (klSign (kdLib D) priv message))"

definition GetManagedThreadKey :: "'w kcDeps \<Rightarrow> bytes \<Rightarrow> ('w kcState, bytes) eff" where
  "GetManagedThreadKey D threadKeyName =
     bindE (GetStoredPublicKey D) (\<lambda>_.
     bindE (GetStoredKeyPairInLibP2PFormat D) (\<lambda>(priv, _).
       liftE (klKeyFromBytes (kdLib D)
         (take 64 (klPbkdf2 (kdLib D) priv (''threadKey'' @ threadKeyName) 256 32)))))"

subsection \<open>mnemonic.go\<close>

text \<open>The options: a blank mnemonic or password leaves the default.\<close>

record mnemonicOpts =
  moOverride :: bool
  moMnemonic :: bytes
  moPassword :: bytes

definition defaultMnemonicOpts :: mnemonicOpts where
  "defaultMnemonicOpts = \<lparr> moOverride = False, moMnemonic = [], moPassword = [] \<rparr>"

definition WithMnemonic :: "bytes \<Rightarrow> mnemonicOpts \<Rightarrow> mnemonicOpts" where
  "WithMnemonic m o' = (if m \<noteq> [] then o'\<lparr>moMnemonic := m\<rparr> else o')"

definition WithPassword :: "bytes \<Rightarrow> mnemonicOpts \<Rightarrow> mnemonicOpts" where
  "WithPassword p o' = (if p \<noteq> [] then o'\<lparr>moPassword := p\<rparr> else o')"

definition WithOverride :: "mnemonicOpts \<Rightarrow> mnemonicOpts" where
  "WithOverride o' = o'\<lparr>moOverride := True\<rparr>"

definition GenerateKeyFromMnemonic ::
  "'w kcDeps \<Rightarrow> (mnemonicOpts \<Rightarrow> mnemonicOpts) list \<Rightarrow> ('w kcState, bytes) eff" where
  "GenerateKeyFromMnemonic D opts =
     (let o' = fold (\<lambda>opt o'. opt o') opts defaultMnemonicOpts in
      bindE (tryE (GetStoredPublicKey D)) (\<lambda>r.
        if \<not> isl r \<and> \<not> moOverride o'
        then failE (Err ''Error while executing GenerateKeyFromMnemonic. Key pair already exists.'')
        else
          bindE (if moMnemonic o' = []
                 then bindE (envE (kdRand D 16)) (\<lambda>entropy. liftE (klNewMnemonic (kdLib D) entropy))
                 else retE (moMnemonic o'))
          (\<lambda>mnemonic.
          bindE (liftE (klNewSeed (kdLib D) mnemonic (moPassword o'))) (\<lambda>seed.
          bindE (generateAndStoreKeyPair D
                  (Some (klPbkdf2 (kdLib D) seed (''iter2'' @ moPassword o') 512 32)) mnemonic)
          (\<lambda>_. retE mnemonic)))))"

subsection \<open>app_token.go\<close>

definition AppTokenStoreKey :: bytes where "AppTokenStoreKey = ''appToken''"
definition MasterAppTokenStoreKey :: bytes where "MasterAppTokenStoreKey = ''masterAppToken''"

definition ErrMasterTokenAlreadyExists :: err where
  "ErrMasterTokenAlreadyExists = Err ''master app token already exists''"

definition getMasterTokenStKey :: bytes where
  "getMasterTokenStKey = AppTokenStoreKey @ ''_'' @ MasterAppTokenStoreKey"

definition StoreAppToken :: "'w kcDeps \<Rightarrow> appToken \<Rightarrow> ('w kcState, unit) eff" where
  "StoreAppToken D tok =
     bindE (liftE (getKeyRing D)) (\<lambda>ring.
     bindE (tryE (envE (sGet (kdStore D) getMasterTokenStKey))) (\<lambda>key.
       if \<not> isl key \<and> atIsMaster tok then failE ErrMasterTokenAlreadyExists
       else bindE (tryE (envE (rgGet ring getMasterTokenStKey))) (\<lambda>r.
         if \<not> isl r \<and> atIsMaster tok then failE ErrMasterTokenAlreadyExists
         else bindE (liftE (MarshalToken tok)) (\<lambda>marshalled.
           thenE (envE (rgSet ring \<lparr> riKey = AppTokenStoreKey @ ''_'' @ atKey tok,
                     riData = marshalled, riLabel = ''Space App - App Token'' \<rparr>))
           (whenE (atIsMaster tok)
             (thenE (envE (sSet (kdStore D) getMasterTokenStKey (atKey tok)))
               (envE (rgSet ring \<lparr> riKey = getMasterTokenStKey, riData = marshalled,
                   riLabel = ''Space App - Master App Token'' \<rparr>))))))))"

definition GetAppToken :: "'w kcDeps \<Rightarrow> bytes \<Rightarrow> ('w kcState, appToken) eff" where
  "GetAppToken D key =
     bindE (liftE (getKeyRing D)) (\<lambda>ring.
     bindE (envE (rgGet ring (AppTokenStoreKey @ ''_'' @ key))) (\<lambda>token.
       liftE (UnmarshalToken (riData token))))"

subsection \<open>What ring, store and cryptography document\<close>

text \<open>
  \<open>rv\<close> and \<open>sv\<close> are what the ring and the store hold.  A failed write may not have happened; reads
  change nothing; each of the two leaves the other alone.
\<close>

definition ring_ok :: "'w keyring \<Rightarrow> ('w \<Rightarrow> bool) \<Rightarrow> ('w \<Rightarrow> bytes \<rightharpoonup> ringItem) \<Rightarrow>
    ('w \<Rightarrow> bytes \<rightharpoonup> bytes) \<Rightarrow> bool" where
  "ring_ok R ok rv sv \<longleftrightarrow>
     (\<forall>k w. ok w \<longrightarrow> rgGet R k w =
        (case rv w k of Some it \<Rightarrow> Inr it | None \<Rightarrow> Inl (Err errRingKeyNotFound), w)) \<and>
     (\<forall>k w. ok w \<longrightarrow> rgGetMetadata R k w =
        (case rv w k of Some it \<Rightarrow> Inr () | None \<Rightarrow> Inl (Err errRingKeyNotFound), w)) \<and>
     (\<forall>it w r w'. ok w \<longrightarrow> rgSet R it w = (r, w') \<longrightarrow> ok w' \<and> sv w' = sv w \<and>
        rv w' = (case r of Inl _ \<Rightarrow> rv w | Inr _ \<Rightarrow> (rv w)(riKey it \<mapsto> it))) \<and>
     (\<forall>k w r w'. ok w \<longrightarrow> rgRemove R k w = (r, w') \<longrightarrow> ok w' \<and> sv w' = sv w \<and>
        rv w' = (case r of Inl _ \<Rightarrow> rv w | Inr _ \<Rightarrow> (rv w)(k := None)))"

definition lib_ok :: "keyLib \<Rightarrow> bool" where
  "lib_ok L \<longleftrightarrow>
     (\<forall>s. length s = 32 \<longrightarrow> klUnmarshalPriv L (klNewKeyFromSeed L s) = Inr (klNewKeyFromSeed L s)) \<and>
     (\<forall>k p. klUnmarshalPriv L k = Inr p \<longrightarrow> klUnmarshalPub L (klPublic L p) = Inr (klPublic L p)) \<and>
     (\<forall>p s n. length (klPbkdf2 L p s n 32) = 32)"

definition kc_ok :: "'w kcDeps \<Rightarrow> 'w keyring \<Rightarrow> ('w \<Rightarrow> bool) \<Rightarrow> ('w \<Rightarrow> bytes \<rightharpoonup> ringItem) \<Rightarrow>
    ('w \<Rightarrow> bytes \<rightharpoonup> bytes) \<Rightarrow> bool" where
  "kc_ok D R ok rv sv \<longleftrightarrow>
     getKeyRing D = Inr R \<and> ring_ok R ok rv sv \<and> lib_ok (kdLib D) \<and> kv_store (kdStore D) ok sv \<and>
     (\<forall>k v w r w'. ok w \<longrightarrow> sSet (kdStore D) k v w = (r, w') \<longrightarrow> rv w' = rv w) \<and>
     (\<forall>k w r w'. ok w \<longrightarrow> sRemove (kdStore D) k w = (r, w') \<longrightarrow> rv w' = rv w) \<and>
     (\<forall>n w r w'. ok w \<longrightarrow> kdRand D n w = (r, w') \<longrightarrow> ok w' \<and> rv w' = rv w \<and> sv w' = sv w \<and>
        (\<forall>x. r = Inr x \<longrightarrow> length x = n))"

lemma kc_okD:
  assumes "kc_ok D R ok rv sv"
  shows "getKeyRing D = Inr R" "ring_ok R ok rv sv" "lib_ok (kdLib D)" "kv_store (kdStore D) ok sv"
    "ok w \<Longrightarrow> sSet (kdStore D) k v w = (r, w') \<Longrightarrow> rv w' = rv w"
    "ok w \<Longrightarrow> sRemove (kdStore D) k w = (r, w') \<Longrightarrow> rv w' = rv w"
    "ok w \<Longrightarrow> kdRand D n w = (q, w') \<Longrightarrow> ok w' \<and> rv w' = rv w \<and> sv w' = sv w \<and>
        (\<forall>x. q = Inr x \<longrightarrow> length x = n)"
proof -
  show "getKeyRing D = Inr R" "ring_ok R ok rv sv" "lib_ok (kdLib D)" "kv_store (kdStore D) ok sv"
    using assms unfolding kc_ok_def by simp_all
  show "ok w \<Longrightarrow> sSet (kdStore D) k v w = (r, w') \<Longrightarrow> rv w' = rv w"
    by (rule assms [unfolded kc_ok_def, THEN conjunct2, THEN conjunct2, THEN conjunct2, THEN conjunct2,
        THEN conjunct1, rule_format])
  show "ok w \<Longrightarrow> sRemove (kdStore D) k w = (r, w') \<Longrightarrow> rv w' = rv w"
    by (rule assms [unfolded kc_ok_def, THEN conjunct2, THEN conjunct2, THEN conjunct2, THEN conjunct2,
        THEN conjunct2, THEN conjunct1, rule_format])
  show "ok w \<Longrightarrow> kdRand D n w = (q, w') \<Longrightarrow> ok w' \<and> rv w' = rv w \<and> sv w' = sv w \<and>
        (\<forall>x. q = Inr x \<longrightarrow> length x = n)"
    by (rule assms [unfolded kc_ok_def, THEN conjunct2, THEN conjunct2, THEN conjunct2, THEN conjunct2,
        THEN conjunct2, THEN conjunct2, THEN spec, THEN spec, THEN spec, THEN spec, THEN mp, THEN mp])
qed

lemma ring_okD:
  assumes "ring_ok R ok rv sv" "ok w"
  shows "rgGet R k w = (case rv w k of Some it \<Rightarrow> Inr it | None \<Rightarrow> Inl (Err errRingKeyNotFound), w)"
    "rgGetMetadata R k w = (case rv w k of Some it \<Rightarrow> Inr () | None \<Rightarrow> Inl (Err errRingKeyNotFound), w)"
    "rgSet R it w = (r, w') \<Longrightarrow> ok w' \<and> sv w' = sv w \<and>
        rv w' = (case r of Inl _ \<Rightarrow> rv w | Inr _ \<Rightarrow> (rv w)(riKey it \<mapsto> it))"
    "rgRemove R k w = (q, w') \<Longrightarrow> ok w' \<and> sv w' = sv w \<and>
        rv w' = (case q of Inl _ \<Rightarrow> rv w | Inr _ \<Rightarrow> (rv w)(k := None))"
proof -
  note c = assms(1) [unfolded ring_ok_def]
  note c1 = c [THEN conjunct1] and c2 = c [THEN conjunct2, THEN conjunct1]
    and c3 = c [THEN conjunct2, THEN conjunct2, THEN conjunct1]
    and c4 = c [THEN conjunct2, THEN conjunct2, THEN conjunct2]
  show "rgGet R k w = (case rv w k of Some it \<Rightarrow> Inr it | None \<Rightarrow> Inl (Err errRingKeyNotFound), w)"
    by (rule c1 [THEN spec, THEN spec, THEN mp, OF assms(2)])
  show "rgGetMetadata R k w = (case rv w k of Some it \<Rightarrow> Inr () | None \<Rightarrow> Inl (Err errRingKeyNotFound), w)"
    by (rule c2 [THEN spec, THEN spec, THEN mp, OF assms(2)])
  show "rgSet R it w = (r, w') \<Longrightarrow> ok w' \<and> sv w' = sv w \<and>
        rv w' = (case r of Inl _ \<Rightarrow> rv w | Inr _ \<Rightarrow> (rv w)(riKey it \<mapsto> it))"
    by (rule c3 [THEN spec, THEN spec, THEN spec, THEN spec, THEN mp, OF assms(2), THEN mp])
  show "rgRemove R k w = (q, w') \<Longrightarrow> ok w' \<and> sv w' = sv w \<and>
        rv w' = (case q of Inl _ \<Rightarrow> rv w | Inr _ \<Rightarrow> (rv w)(k := None))"
    by (rule c4 [THEN spec, THEN spec, THEN spec, THEN spec, THEN mp, OF assms(2), THEN mp])
qed

subsection \<open>Storing and reading a key pair\<close>

lemma storeKeyPair_Inr:
  assumes "kc_ok D R ok rv sv" "ok (kcEnv s)" "storeKeyPair D priv pub m s = (Inr u, s')"
  shows "ok (kcEnv s')" "kcPriv s' = kcPriv s"
    "rv (kcEnv s') = (rv (kcEnv s))(PrivateKeyStoreKey \<mapsto> \<lparr> riKey = PrivateKeyStoreKey,
       riData = hexEncode priv @ privKeyMnemonicSeparator @ m, riLabel = ''Space App'' \<rparr>)"
    "sv (kcEnv s') = (sv (kcEnv s))(PublicKeyStoreKey \<mapsto> pub)"
proof -
  let ?it = "\<lparr> riKey = PrivateKeyStoreKey,
       riData = hexEncode priv @ privKeyMnemonicSeparator @ m, riLabel = ''Space App'' \<rparr>"
  note k = kc_okD [OF assms(1)]
  obtain r w where r: "rgSet R ?it (kcEnv s) = (r, w)" by fastforce
  then obtain u' where r': "r = Inr u'"
    using assms(3) by (auto simp: storeKeyPair_def k(1) bindE_apply thenE_apply envE_apply split: sum.splits)
  note a = ring_okD(3) [OF k(2) assms(2) r]
  obtain q w2 where q: "sSet (kdStore D) PublicKeyStoreKey pub w = (q, w2)" by fastforce
  have s': "q = Inr u" "s' = s\<lparr>kcEnv := w2\<rparr>"
    using assms(3) r r' q
    by (auto simp: storeKeyPair_def k(1) bindE_apply thenE_apply envE_apply split: sum.splits)
  note b = kv_store.set_Inr [OF k(4), of w PublicKeyStoreKey pub u w2] kc_okD(5) [OF assms(1) _ q]
  show "ok (kcEnv s')" "kcPriv s' = kcPriv s" "rv (kcEnv s') = (rv (kcEnv s))(PrivateKeyStoreKey \<mapsto> ?it)"
    "sv (kcEnv s') = (sv (kcEnv s))(PublicKeyStoreKey \<mapsto> pub)"
    using a b q s' r' by simp_all
qed

text \<open>The separator has no hexadecimal digit, so the key ends where the mnemonic's separator starts.\<close>

lemma cut_no_char: "CHR ''_'' \<notin> set b \<Longrightarrow> cut ''___'' (b @ ''___'' @ m) = Some (b, m)"
proof (induction b)
  case (Cons c b)
  then show ?case by (subst cut.simps) auto
qed (subst cut.simps, simp)

lemma strSplit_stored:
  "strSplit (hexEncode priv @ privKeyMnemonicSeparator @ m) privKeyMnemonicSeparator =
     hexEncode priv # strSplit m privKeyMnemonicSeparator"
  using cut_no_char [of "hexEncode priv" m]
  by (subst strSplit.simps) (simp add: privKeyMnemonicSeparator_def)

lemma retrieveKeyPair_stored:
  assumes "kc_ok D R ok rv sv" "ok (kcEnv s)"
    and "rv (kcEnv s) PrivateKeyStoreKey = Some it"
    and "riData it = hexEncode priv @ privKeyMnemonicSeparator @ m"
  shows "retrieveKeyPair D s = (Inr (priv, hd (strSplit m privKeyMnemonicSeparator)), s)"
proof -
  note k = kc_okD [OF assms(1)]
  obtain x xs where x: "strSplit m privKeyMnemonicSeparator = x # xs"
    by (cases "strSplit m privKeyMnemonicSeparator") (auto simp: privKeyMnemonicSeparator_def)
  show ?thesis
    using ring_okD(1) [OF k(2) assms(2)] assms(3,4)
    by (simp add: retrieveKeyPair_def k(1) bindE_apply envE_apply strSplit_stored x Let_def)
qed

lemma strSplit_no_sep: "\<not> strContains m privKeyMnemonicSeparator \<Longrightarrow> strSplit m privKeyMnemonicSeparator = [m]"
  by (subst strSplit.simps)
    (auto simp: strContains_def privKeyMnemonicSeparator_def split: option.splits)

text \<open>What a state in which a key pair has just been stored gives its readers.\<close>

definition holdsKey :: "'w kcDeps \<Rightarrow> ('w \<Rightarrow> bytes \<rightharpoonup> ringItem) \<Rightarrow> ('w \<Rightarrow> bytes \<rightharpoonup> bytes) \<Rightarrow>
    bytes \<Rightarrow> bytes \<Rightarrow> 'w kcState \<Rightarrow> bool" where
  "holdsKey D rv sv priv m s \<longleftrightarrow>
     (\<exists>it. rv (kcEnv s) PrivateKeyStoreKey = Some it \<and>
        riData it = hexEncode priv @ privKeyMnemonicSeparator @ m) \<and>
     sv (kcEnv s) PublicKeyStoreKey = Some (klPublic (kdLib D) priv)"

lemma GetStoredPublicKey_eq:
  assumes "kc_ok D R ok rv sv" "ok (kcEnv s)"
  shows "GetStoredPublicKey D s =
    (case rv (kcEnv s) PrivateKeyStoreKey of
       None \<Rightarrow> Inl (Err ErrKeyPairNotFound)
     | Some _ \<Rightarrow> (case sv (kcEnv s) PublicKeyStoreKey of
         None \<Rightarrow> Inl errKeyNotFound | Some p \<Rightarrow> klUnmarshalPub (kdLib D) p), s)"
  using ring_okD(2) [OF kc_okD(2) [OF assms(1)] assms(2), of PrivateKeyStoreKey]
    kv_store.get_view [OF kc_okD(4) [OF assms(1)] assms(2), of PublicKeyStoreKey] kc_okD(1) [OF assms(1)]
  by (simp add: GetStoredPublicKey_def bindE_apply tryE_apply envE_apply lookupRes_def
      errRingKeyNotFound_def split: option.split)

lemma holdsKey_reads:
  assumes "kc_ok D R ok rv sv" "ok (kcEnv s)" "holdsKey D rv sv priv m s"
    and "klUnmarshalPriv (kdLib D) priv = Inr priv" "kcPriv s = None \<or> kcPriv s = Some priv"
  shows "retrieveKeyPair D s = (Inr (priv, hd (strSplit m privKeyMnemonicSeparator)), s)"
    "GetStoredPublicKey D s = (Inr (klPublic (kdLib D) priv), s)"
    "fst (GetStoredKeyPairInLibP2PFormat D s) = Inr (priv, klPublic (kdLib D) priv)"
    "fst (Sign D msg s) = Inr (klSign (kdLib D) priv msg)"
proof -
  obtain it where it: "rv (kcEnv s) PrivateKeyStoreKey = Some it"
      "riData it = hexEncode priv @ privKeyMnemonicSeparator @ m"
    and pub: "sv (kcEnv s) PublicKeyStoreKey = Some (klPublic (kdLib D) priv)"
    using assms(3) unfolding holdsKey_def by blast
  show r: "retrieveKeyPair D s = (Inr (priv, hd (strSplit m privKeyMnemonicSeparator)), s)"
    by (rule retrieveKeyPair_stored [OF assms(1,2) it])
  show g: "GetStoredPublicKey D s = (Inr (klPublic (kdLib D) priv), s)"
    using it pub assms(4) kc_okD(3) [OF assms(1)]
    by (simp add: GetStoredPublicKey_eq [OF assms(1,2)] lib_ok_def)
  show "fst (GetStoredKeyPairInLibP2PFormat D s) = Inr (priv, klPublic (kdLib D) priv)"
    using assms(4,5) by (auto simp: GetStoredKeyPairInLibP2PFormat_def bindE_apply thenE_apply
        tryE_apply g r)
  show "fst (Sign D msg s) = Inr (klSign (kdLib D) priv msg)"
    by (simp add: Sign_def bindE_apply r)
qed

lemma generateAndStore_Inr:
  assumes "kc_ok D R ok rv sv" "ok (kcEnv s)"
    and "generateAndStoreKeyPair D (Some seed) m s = (Inr (pub, priv), s')" "length seed = 32"
  shows "priv = klNewKeyFromSeed (kdLib D) seed" "pub = klPublic (kdLib D) priv" "ok (kcEnv s')"
    "holdsKey D rv sv priv m s'" "kcPriv s' = Some priv" "klUnmarshalPriv (kdLib D) priv = Inr priv"
proof -
  let ?p = "klNewKeyFromSeed (kdLib D) seed"
  have u: "klUnmarshalPriv (kdLib D) ?p = Inr ?p"
    using kc_okD(3) [OF assms(1)] assms(4) by (simp add: lib_ok_def)
  obtain s1 where s1: "storeKeyPair D ?p (klPublic (kdLib D) ?p) m s = (Inr (), s1)"
    and e: "priv = ?p" "pub = klPublic (kdLib D) ?p" "s' = s1\<lparr>kcPriv := Some ?p\<rparr>"
    using assms(3) by (auto simp: generateAndStoreKeyPair_def generateKeyPair_def bindE_eq_Inr
        thenE_eq_Inr Let_def u)
  note st = storeKeyPair_Inr [OF assms(1,2) s1]
  show "priv = klNewKeyFromSeed (kdLib D) seed" "pub = klPublic (kdLib D) priv" "ok (kcEnv s')"
    "kcPriv s' = Some priv" "klUnmarshalPriv (kdLib D) priv = Inr priv"
    using st e u by simp_all
  show "holdsKey D rv sv priv m s'" using st e by (simp add: holdsKey_def)
qed

text \<open>The key a mnemonic and a password stand for.\<close>

definition mnemonicKey :: "keyLib \<Rightarrow> bytes \<Rightarrow> bytes \<Rightarrow> bytes \<Rightarrow> bytes" where
  "mnemonicKey L seed pw m = klNewKeyFromSeed L (klPbkdf2 L seed (''iter2'' @ pw) 512 32)"

lemma GenerateKeyFromMnemonic_Inr:
  assumes "kc_ok D R ok rv sv" "ok (kcEnv s)" "m \<noteq> []"
    and "GenerateKeyFromMnemonic D [WithMnemonic m, WithOverride] s = (Inr m', s')"
  shows "\<exists>seed priv. m' = m \<and> klNewSeed (kdLib D) m [] = Inr seed \<and>
    priv = mnemonicKey (kdLib D) seed [] m \<and> ok (kcEnv s') \<and> holdsKey D rv sv priv m s' \<and>
    kcPriv s' = Some priv \<and> klUnmarshalPriv (kdLib D) priv = Inr priv"
proof -
  have g: "GetStoredPublicKey D s = (fst (GetStoredPublicKey D s), s)"
    using GetStoredPublicKey_eq [OF assms(1,2)] by simp
  let ?o = "\<lparr> moOverride = True, moMnemonic = m, moPassword = [] \<rparr>"
  have o: "fold (\<lambda>opt o'. opt o') [WithMnemonic m, WithOverride] defaultMnemonicOpts = ?o"
    using assms(3) by (simp add: WithMnemonic_def WithOverride_def defaultMnemonicOpts_def)
  let ?rest = "bindE (retE m) (\<lambda>mnemonic. bindE (liftE (klNewSeed (kdLib D) mnemonic [])) (\<lambda>seed.
      bindE (generateAndStoreKeyPair D (Some (klPbkdf2 (kdLib D) seed (''iter2'' @ []) 512 32)) mnemonic)
        (\<lambda>_. retE mnemonic)))"
  have run: "bindE (tryE (GetStoredPublicKey D)) (\<lambda>_. ?rest) s = (Inr m', s')"
    using assms(3,4) unfolding GenerateKeyFromMnemonic_def Let_def o by (simp del: bindE_retE)
  obtain r where r: "GetStoredPublicKey D s = (r, s)" using g by blast
  have "?rest s = (Inr m', s')"
  proof (cases "\<exists>q. r = Inl (Panic q)")
    case True
    then show ?thesis using run r by (auto simp: bindE_apply tryE_apply)
  next
    case False
    then obtain x where "tryE (GetStoredPublicKey D) s = (Inr x, s)"
      using r by (cases r; cases "projl r") (auto simp: tryE_apply)
    then show ?thesis using run by simp
  qed
  then obtain seed kp where k: "klNewSeed (kdLib D) m [] = Inr seed" "m' = m"
    "generateAndStoreKeyPair D (Some (klPbkdf2 (kdLib D) seed ''iter2'' 512 32)) m s = (Inr kp, s')"
    by (auto simp: bindE_eq_Inr)
  obtain pub priv where kp: "kp = (pub, priv)" by (cases kp)
  have "length (klPbkdf2 (kdLib D) seed ''iter2'' 512 32) = 32"
    using kc_okD(3) [OF assms(1)] by (simp add: lib_ok_def)
  note st = generateAndStore_Inr [OF assms(1,2) k(3) [unfolded kp] this]
  show ?thesis
    using k(1,2) st by (intro exI [of _ seed] exI [of _ priv]) (simp add: mnemonicKey_def)
qed

subsection \<open>App tokens\<close>

definition tokenItem :: "appToken \<Rightarrow> ringItem" where
  "tokenItem tok = \<lparr> riKey = AppTokenStoreKey @ ''_'' @ atKey tok, riData = jprint (tokenJson tok),
     riLabel = ''Space App - App Token'' \<rparr>"

definition masterItem :: "appToken \<Rightarrow> ringItem" where
  "masterItem tok = \<lparr> riKey = getMasterTokenStKey, riData = jprint (tokenJson tok),
     riLabel = ''Space App - Master App Token'' \<rparr>"

lemma StoreAppToken_eq:
  assumes "kc_ok D R ok rv sv" "ok (kcEnv s)"
  shows "StoreAppToken D tok s =
    (if (sv (kcEnv s) getMasterTokenStKey \<noteq> None \<or> rv (kcEnv s) getMasterTokenStKey \<noteq> None) \<and> atIsMaster tok
     then (Inl ErrMasterTokenAlreadyExists, s)
     else thenE (envE (rgSet R (tokenItem tok))) (whenE (atIsMaster tok)
       (thenE (envE (sSet (kdStore D) getMasterTokenStKey (atKey tok)))
         (envE (rgSet R (masterItem tok))))) s)"
proof -
  have g: "tryE (envE (sGet (kdStore D) getMasterTokenStKey)) s =
      (Inr (case sv (kcEnv s) getMasterTokenStKey of None \<Rightarrow> Inl ''Key not found'' | Some v \<Rightarrow> Inr v), s)"
    using kv_store.get_view [OF kc_okD(4) [OF assms(1)] assms(2), of getMasterTokenStKey]
    by (simp add: tryE_apply envE_apply lookupRes_def errKeyNotFound_def split: option.split)
  have r: "tryE (envE (rgGet R getMasterTokenStKey)) s =
      (Inr (case rv (kcEnv s) getMasterTokenStKey of None \<Rightarrow> Inl errRingKeyNotFound | Some i \<Rightarrow> Inr i), s)"
    using ring_okD(1) [OF kc_okD(2) [OF assms(1)] assms(2), of getMasterTokenStKey]
    by (simp add: tryE_apply envE_apply split: option.split)
  show ?thesis
    unfolding StoreAppToken_def kc_okD(1) [OF assms(1)]
    using g r by (auto simp: MarshalToken_def tokenItem_def masterItem_def split: option.splits)
qed

lemma ringSet_env:
  assumes "kc_ok D R ok rv sv" "ok (kcEnv s)" "envE (rgSet R it) s = (Inr u, s')"
  shows "ok (kcEnv s')" "rv (kcEnv s') = (rv (kcEnv s))(riKey it \<mapsto> it)" "sv (kcEnv s') = sv (kcEnv s)"
proof -
  have "rgSet R it (kcEnv s) = (Inr u, kcEnv s')" using assms(3) by (auto simp: envE_apply prod_eq_iff)
  from ring_okD(3) [OF kc_okD(2) [OF assms(1)] assms(2) this]
  show "ok (kcEnv s')" "rv (kcEnv s') = (rv (kcEnv s))(riKey it \<mapsto> it)" "sv (kcEnv s') = sv (kcEnv s)"
    by simp_all
qed

lemma storeSet_env:
  assumes "kc_ok D R ok rv sv" "ok (kcEnv s)" "envE (sSet (kdStore D) k v) s = (Inr u, s')"
  shows "ok (kcEnv s')" "rv (kcEnv s') = rv (kcEnv s)" "sv (kcEnv s') = (sv (kcEnv s))(k \<mapsto> v)"
proof -
  have e: "sSet (kdStore D) k v (kcEnv s) = (Inr u, kcEnv s')" using assms(3) by (auto simp: envE_apply prod_eq_iff)
  show "ok (kcEnv s')" "rv (kcEnv s') = rv (kcEnv s)" "sv (kcEnv s') = (sv (kcEnv s))(k \<mapsto> v)"
    using kv_store.set_Inr [OF kc_okD(4) [OF assms(1)] assms(2) e] kc_okD(5) [OF assms(1,2) e] by simp_all
qed

lemma StoreAppToken_Inr:
  assumes "kc_ok D R ok rv sv" "ok (kcEnv s)" "StoreAppToken D tok s = (Inr u, s')"
  shows "ok (kcEnv s')"
    "rv (kcEnv s') = (if atIsMaster tok
       then (rv (kcEnv s))(AppTokenStoreKey @ ''_'' @ atKey tok \<mapsto> tokenItem tok,
              getMasterTokenStKey \<mapsto> masterItem tok)
       else (rv (kcEnv s))(AppTokenStoreKey @ ''_'' @ atKey tok \<mapsto> tokenItem tok))"
    "atIsMaster tok \<Longrightarrow> sv (kcEnv s) getMasterTokenStKey = None \<and> rv (kcEnv s) getMasterTokenStKey = None"
proof -
  note e = assms(3) [unfolded StoreAppToken_eq [OF assms(1,2)]]
  then have run: "thenE (envE (rgSet R (tokenItem tok))) (whenE (atIsMaster tok)
       (thenE (envE (sSet (kdStore D) getMasterTokenStKey (atKey tok)))
         (envE (rgSet R (masterItem tok))))) s = (Inr u, s')"
    by (simp split: if_splits)
  show "atIsMaster tok \<Longrightarrow> sv (kcEnv s) getMasterTokenStKey = None \<and> rv (kcEnv s) getMasterTokenStKey = None"
    using e by (auto split: if_splits)
  obtain u1 s1 where s1: "envE (rgSet R (tokenItem tok)) s = (Inr u1, s1)"
    and r: "whenE (atIsMaster tok) (thenE (envE (sSet (kdStore D) getMasterTokenStKey (atKey tok)))
         (envE (rgSet R (masterItem tok)))) s1 = (Inr u, s')"
    using run by (auto simp: thenE_eq_Inr)
  note a = ringSet_env [OF assms(1,2) s1]
  have k: "riKey (tokenItem tok) = AppTokenStoreKey @ ''_'' @ atKey tok"
    "riKey (masterItem tok) = getMasterTokenStKey"
    by (simp_all add: tokenItem_def masterItem_def)
  have "ok (kcEnv s') \<and> rv (kcEnv s') = (if atIsMaster tok
       then (rv (kcEnv s))(AppTokenStoreKey @ ''_'' @ atKey tok \<mapsto> tokenItem tok,
              getMasterTokenStKey \<mapsto> masterItem tok)
       else (rv (kcEnv s))(AppTokenStoreKey @ ''_'' @ atKey tok \<mapsto> tokenItem tok))"
  proof (cases "atIsMaster tok")
    case True
    then obtain u2 s2 where s2: "envE (sSet (kdStore D) getMasterTokenStKey (atKey tok)) s1 = (Inr u2, s2)"
      and s3: "envE (rgSet R (masterItem tok)) s2 = (Inr u, s')"
      using r by (auto simp: thenE_eq_Inr)
    note b = storeSet_env [OF assms(1) a(1) s2]
    note c = ringSet_env [OF assms(1) b(1) s3]
    show ?thesis using True a(2) b(2) c(1,2) k by simp
  next
    case False
    then show ?thesis using r a k by simp
  qed
  then show "ok (kcEnv s')"
    "rv (kcEnv s') = (if atIsMaster tok
       then (rv (kcEnv s))(AppTokenStoreKey @ ''_'' @ atKey tok \<mapsto> tokenItem tok,
              getMasterTokenStKey \<mapsto> masterItem tok)
       else (rv (kcEnv s))(AppTokenStoreKey @ ''_'' @ atKey tok \<mapsto> tokenItem tok))"
    by blast+
qed

lemma GetAppToken_eq:
  assumes "kc_ok D R ok rv sv" "ok (kcEnv s)"
  shows "GetAppToken D key s =
    (case rv (kcEnv s) (AppTokenStoreKey @ ''_'' @ key) of
       None \<Rightarrow> Inl (Err errRingKeyNotFound) | Some it \<Rightarrow> UnmarshalToken (riData it), s)"
  using ring_okD(1) [OF kc_okD(2) [OF assms(1)] assms(2)]
  by (simp add: GetAppToken_def kc_okD(1) [OF assms(1)] bindE_apply envE_apply split: option.split)

lemma get_stored_token:
  assumes "kc_ok D R ok rv sv" "ok (kcEnv s)" "StoreAppToken D tok s = (Inr u, s')" "tokenOk tok"
  shows "GetAppToken D (atKey tok) s' = (Inr tok, s')"
  using StoreAppToken_Inr [OF assms(1-3)] unmarshal_marshal_token [OF assms(4)]
  by (simp add: GetAppToken_eq [OF assms(1)] tokenItem_def masterItem_def)

lemma get_other_token:
  assumes "kc_ok D R ok rv sv" "ok (kcEnv s)" "StoreAppToken D tok s = (Inr u, s')"
    and "key \<noteq> atKey tok" "key \<noteq> MasterAppTokenStoreKey"
  shows "fst (GetAppToken D key s') = fst (GetAppToken D key s)"
  using StoreAppToken_Inr [OF assms(1-3)] assms(4,5)
  by (simp add: GetAppToken_eq [OF assms(1)] GetAppToken_eq [OF assms(1,2)] getMasterTokenStKey_def)

subsection \<open>What a client of app tokens relies on\<close>

locale token_keeper =
  fixes store :: "appToken \<Rightarrow> ('s, unit) eff"
    and get :: "bytes \<Rightarrow> ('s, appToken) eff"
    and ok :: "'s \<Rightarrow> bool"
  assumes get_stored: "ok s \<Longrightarrow> tokenOk t \<Longrightarrow> store t s = (Inr u, s') \<Longrightarrow>
      ok s' \<and> get (atKey t) s' = (Inr t, s')"
    and get_keeps: "ok s \<Longrightarrow> snd (get k s) = s"
    and store_master: "ok s \<Longrightarrow> atIsMaster t \<Longrightarrow> store t s = (Inr u, s') \<Longrightarrow> atIsMaster t' \<Longrightarrow>
      store t' s' = (Inl ErrMasterTokenAlreadyExists, s')"

interpretation app_tokens: token_keeper "StoreAppToken D" "GetAppToken D"
    "\<lambda>s. kc_ok D R ok rv sv \<and> ok (kcEnv s)" for D :: "'w kcDeps" and R ok rv sv
proof unfold_locales
  fix s :: "'w kcState" and t :: appToken and u s'
  assume "kc_ok D R ok rv sv \<and> ok (kcEnv s)" "tokenOk t" "StoreAppToken D t s = (Inr u, s')"
  then show "(kc_ok D R ok rv sv \<and> ok (kcEnv s')) \<and> GetAppToken D (atKey t) s' = (Inr t, s')"
    using StoreAppToken_Inr(1) get_stored_token by blast
next
  fix s :: "'w kcState" and k assume "kc_ok D R ok rv sv \<and> ok (kcEnv s)"
  then have k: "kc_ok D R ok rv sv" "ok (kcEnv s)" by simp_all
  show "snd (GetAppToken D k s) = s" by (simp add: GetAppToken_eq [OF k])
next
  fix s :: "'w kcState" and t t' :: appToken and u s'
  assume a: "kc_ok D R ok rv sv \<and> ok (kcEnv s)" "atIsMaster t" "StoreAppToken D t s = (Inr u, s')"
    "atIsMaster t'"
  then have k: "kc_ok D R ok rv sv" "ok (kcEnv s)" by simp_all
  note i = StoreAppToken_Inr [OF k a(3)]
  have "rv (kcEnv s') getMasterTokenStKey \<noteq> None" using i(2) a(2) by simp
  then show "StoreAppToken D t' s' = (Inl ErrMasterTokenAlreadyExists, s')"
    using a(4) by (simp add: StoreAppToken_eq [OF k(1) i(1)])
qed

subsection \<open>A keychain in memory\<close>

type_synonym kcMem = "(bytes \<rightharpoonup> ringItem) \<times> (bytes \<rightharpoonup> bytes)"

definition memRing :: "kcMem keyring" where
  "memRing =
     \<lparr> rgSet = \<lambda>it (r, s). (Inr (), (r(riKey it \<mapsto> it), s)),
       rgGet = \<lambda>k (r, s). (case r k of Some it \<Rightarrow> Inr it | None \<Rightarrow> Inl (Err errRingKeyNotFound), (r, s)),
       rgRemove = \<lambda>k (r, s). (Inr (), (r(k := None), s)),
       rgGetMetadata = \<lambda>k (r, s). (case r k of Some it \<Rightarrow> Inr () | None \<Rightarrow> Inl (Err errRingKeyNotFound), (r, s)) \<rparr>"

definition memKcStore :: "kcMem storeI" where
  "memKcStore =
     \<lparr> sGet = \<lambda>k (r, s). (lookupRes (s k), (r, s)),
       sSet = \<lambda>k v (r, s). (Inr (), (r, s(k \<mapsto> v))),
       sRemove = \<lambda>k (r, s). (Inr (), (r, s(k := None))),
       sDropAll = \<lambda>(r, s). (Inr (), (r, Map.empty)),
       sKeysWithPrefix = \<lambda>_. failE (Err ''unsupported'') \<rparr>"

definition toyLib :: keyLib where
  "toyLib =
     \<lparr> klNewKeyFromSeed = \<lambda>s. s, klPublic = rev, klSign = \<lambda>k m. k @ m,
       klUnmarshalPriv = Inr, klUnmarshalPub = Inr,
       klPbkdf2 = \<lambda>p s n l. take l (p @ s @ replicate l (CHR ''k'')),
       klNewMnemonic = Inr, klNewSeed = \<lambda>m p. Inr (m @ p), klKeyFromBytes = Inr \<rparr>"

definition memKc :: "kcMem kcDeps" where
  "memKc =
     \<lparr> kdFileDir = ''/'', kdRing = Some memRing, kdUserConfigDir = Inr ''/'',
       kdOpenRing = \<lambda>_ _. Inl (Err ''no keyring''), kdStore = memKcStore, kdLib = toyLib,
       kdRand = \<lambda>n. retE (replicate n (CHR ''r'')) \<rparr>"

definition kcStart :: "kcMem kcState" where
  "kcStart = \<lparr> kcPriv = None, kcEnv = (Map.empty, Map.empty) \<rparr>"

lemma memKc_ok: "kc_ok memKc memRing (\<lambda>_. True) fst snd"
proof -
  have "kv_store memKcStore (\<lambda>_. True) snd"
    by unfold_locales (auto simp: memKcStore_def lookupRes_def split: prod.splits)
  moreover have "ring_ok memRing (\<lambda>_. True) fst snd"
    by (auto simp: ring_ok_def memRing_def split: prod.splits option.splits)
  moreover have "lib_ok toyLib" by (simp add: lib_ok_def toyLib_def) linarith
  ultimately show ?thesis
    by (auto simp: kc_ok_def memKc_def getKeyRing_def memKcStore_def)
qed

subsection \<open>Properties\<close>

text \<open>
  C19. A key pair restored from a mnemonic is a function of the mnemonic: on any two keychains with
  the same cryptography the restored private key, public key and signatures are the same, whatever
  was stored before, and they are what every later read returns.
\<close>

theorem mnemonic_restores_key:
  assumes "kc_ok D R ok rv sv" "ok (kcEnv s)" "m \<noteq> []"
    and "GenerateKeyFromMnemonic D [WithMnemonic m, WithOverride] s = (Inr m', s')"
  shows "\<exists>seed. klNewSeed (kdLib D) m [] = Inr seed \<and> m' = m \<and>
    (let priv = klNewKeyFromSeed (kdLib D) (klPbkdf2 (kdLib D) seed ''iter2'' 512 32) in
     fst (GetStoredKeyPairInLibP2PFormat D s') = Inr (priv, klPublic (kdLib D) priv) \<and>
     fst (GetStoredPublicKey D s') = Inr (klPublic (kdLib D) priv) \<and>
     fst (Sign D msg s') = Inr (klSign (kdLib D) priv msg) \<and>
     (\<not> strContains m ''___'' \<longrightarrow> fst (GetStoredMnemonic D s') = Inr m))"
proof -
  obtain seed priv where g: "m' = m" "klNewSeed (kdLib D) m [] = Inr seed"
    "priv = mnemonicKey (kdLib D) seed [] m" "ok (kcEnv s')" "holdsKey D rv sv priv m s'"
    "kcPriv s' = Some priv" "klUnmarshalPriv (kdLib D) priv = Inr priv"
    using GenerateKeyFromMnemonic_Inr [OF assms] by blast
  note h = holdsKey_reads [OF assms(1) g(4,5,7)]
  have "fst (GetStoredMnemonic D s') = Inr m" if "\<not> strContains m ''___''"
    using h(1) that g(6) strSplit_no_sep [of m]
    by (simp add: GetStoredMnemonic_def bindE_apply privKeyMnemonicSeparator_def)
  then show ?thesis
    using g h(2-4) by (intro exI [of _ seed]) (simp add: mnemonicKey_def Let_def)
qed

theorem mnemonic_restores_key_witness:
  "\<exists>s'. GenerateKeyFromMnemonic memKc [WithMnemonic ''abandon'', WithOverride] kcStart = (Inr ''abandon'', s') \<and>
     fst (GetStoredMnemonic memKc s') = Inr ''abandon''"
proof -
  let ?r = "GenerateKeyFromMnemonic memKc [WithMnemonic ''abandon'', WithOverride] kcStart"
  have "fst ?r = Inr ''abandon''" by code_simp
  then have r: "?r = (Inr ''abandon'', snd ?r)" by (simp add: prod_eq_iff)
  have "\<not> strContains ''abandon'' ''___''" by code_simp
  with mnemonic_restores_key [OF memKc_ok TrueI _ r] show ?thesis using r by (auto simp: Let_def)
qed

text \<open>
  C36. A stored app token is found under its key with its secret, its permissions and its master
  flag; no other token is lost by storing it; and once a master token is stored every later attempt
  to store one is refused and changes nothing.
\<close>

theorem app_token_stored:
  assumes "kc_ok D R ok rv sv" "ok (kcEnv s)" "tokenOk t" "StoreAppToken D t s = (Inr u, s')"
  shows "GetAppToken D (atKey t) s' = (Inr t, s') \<and>
    (\<forall>key. key \<noteq> atKey t \<longrightarrow> key \<noteq> MasterAppTokenStoreKey \<longrightarrow>
       fst (GetAppToken D key s') = fst (GetAppToken D key s)) \<and>
    (atIsMaster t \<longrightarrow> (\<forall>t'. atIsMaster t' \<longrightarrow>
       StoreAppToken D t' s' = (Inl ErrMasterTokenAlreadyExists, s')))"
  using app_tokens.get_stored [OF conjI [OF assms(1,2)] assms(3,4)]
    get_other_token [OF assms(1,2,4)] app_tokens.store_master [OF conjI [OF assms(1,2)] _ assms(4)]
  by blast

definition demoMaster :: appToken where
  "demoMaster = \<lparr> atKey = ''k'', atSecret = ''s'', atIsMaster = True, atPermissions = [] \<rparr>"

lemma demoMaster_ok: "tokenOk demoMaster"
  by (simp add: tokenOk_def demoMaster_def ascii_def)

theorem app_token_stored_witness:
  "\<exists>s'. StoreAppToken memKc demoMaster kcStart = (Inr (), s') \<and>
     GetAppToken memKc ''k'' s' = (Inr demoMaster, s') \<and>
     StoreAppToken memKc demoMaster s' = (Inl ErrMasterTokenAlreadyExists, s')"
proof -
  let ?r = "StoreAppToken memKc demoMaster kcStart"
  have "fst ?r = Inr ()" by code_simp
  then have r: "?r = (Inr (), snd ?r)" by (simp add: prod_eq_iff)
  have "atKey demoMaster = ''k''" "atIsMaster demoMaster" by (simp_all add: demoMaster_def)
  with app_token_stored [OF memKc_ok TrueI demoMaster_ok r] show ?thesis using r by metis
qed

text \<open>
  Without the override option an existing key pair is never replaced: generating one is an error
  and leaves ring, store and cache as they were.
\<close>

theorem existing_key_kept:
  assumes "kc_ok D R ok rv sv" "ok (kcEnv s)" "fst (GetStoredPublicKey D s) = Inr pub"
  shows "(\<exists>e. GenerateKeyPair D s = (Inl e, s)) \<and>
    (\<exists>e. GenerateKeyFromMnemonic D [WithMnemonic m, WithPassword pw] s = (Inl e, s))"
proof -
  have g: "tryE (GetStoredPublicKey D) s = (Inr (Inr pub), s)"
    using GetStoredPublicKey_eq [OF assms(1,2)] assms(3) by (simp add: tryE_apply)
  have o: "\<not> moOverride (fold (\<lambda>opt o'. opt o') [WithMnemonic m, WithPassword pw] defaultMnemonicOpts)"
    by (simp add: WithMnemonic_def WithPassword_def defaultMnemonicOpts_def)
  show ?thesis
    using o by (simp add: GenerateKeyPair_def GenerateKeyFromMnemonic_def Let_def bindE_apply g)
qed

definition kcHeld :: "kcMem kcState" where
  "kcHeld = snd (GenerateKeyPairWithForce memKc kcStart)"

theorem existing_key_kept_witness: "\<exists>e. GenerateKeyPair memKc kcHeld = (Inl e, kcHeld)"
proof -
  have "fst (GetStoredPublicKey memKc kcHeld) = Inr (replicate 32 (CHR ''r''))" by code_simp
  from existing_key_kept [OF memKc_ok TrueI this] show ?thesis by blast
qed

text \<open>
  The check looks in the store only: when the ring holds a private key and the store has lost
  the public key, generating without override succeeds and the private key in the ring is replaced.
\<close>

theorem unlisted_key_replaced:
  "let s = kcHeld\<lparr>kcEnv := (fst (kcEnv kcHeld), Map.empty)\<rparr>;
       r = GenerateKeyFromMnemonic memKc [WithMnemonic ''other''] s in
   fst r = Inr ''other'' \<and> fst (retrieveKeyPair memKc s) \<noteq> fst (retrieveKeyPair memKc (snd r))"
  by code_simp

end
