(* ===== verification/TokenAuth.thy ===== *)
theory TokenAuth
  imports Keychain
begin

text \<open>
  Who may call the gRPC API: \<open>grpc/auth\<close> (the header, the check of a token, the two interceptors)
  and \<open>InitializeMasterAppToken\<close> of \<open>core/space/services/services_app_token.go\<close>.

  The authorization header of a request (the empty string when there is none) is an argument.  The
  lookup of a token is a parameter \<open>get\<close>, so that the check can be proved over the contract
  \<open>token_keeper\<close> and then used with the keychain.
\<close>

subsection \<open>auth_from_md.go\<close>

definition unauthenticated :: "string \<Rightarrow> err" where
  "unauthenticated m = Err (''rpc error: code = Unauthenticated desc = '' @ m)"

definition AuthFromMD :: "bytes \<Rightarrow> bytes \<Rightarrow> err + bytes" where
  "AuthFromMD header expectedScheme =
     (if header = [] then Inl (unauthenticated (''Request unauthenticated with '' @ expectedScheme))
      else
        (case strSplit2 header '' '' of
           [scheme, tok] \<Rightarrow>
             if \<not> equalFold scheme expectedScheme
             then Inl (unauthenticated (''Request unauthenticated with '' @ expectedScheme))
             else Inr tok
         | _ \<Rightarrow> Inl (unauthenticated ''Bad authorization string'')))"

subsection \<open>app_token_auth.go\<close>

definition apiMethod :: "bytes \<Rightarrow> bytes" where
  "apiMethod p = ''/space.SpaceApi/'' @ p"

definition publicMethods :: "bytes list" where
  "publicMethods = [''InitializeMasterAppToken'']"

definition canSkipAuth :: "bytes \<Rightarrow> bool" where
  "canSkipAuth fullMethodName = list_ex (\<lambda>pm. apiMethod pm = fullMethodName) publicMethods"

definition validateToken ::
  "(bytes \<Rightarrow> ('s, appToken) eff) \<Rightarrow> bytes \<Rightarrow> bytes \<Rightarrow> ('s, appToken) eff" where
  "validateToken get tok fullMethodName =
     bindE (liftE (GetKeyAndSecretFromAccessToken tok)) (\<lambda>(key, sec).
     bindE (get key) (\<lambda>appTok.
       if atSecret appTok \<noteq> sec then failE (Err ''app token secret does not match'')
       else
         (let authorized = atIsMaster appTok \<or>
                list_ex (\<lambda>p. apiMethod p = fullMethodName) (atPermissions appTok) in
          if \<not> authorized
          then failE (Err (''app token does not grant access to '' @ fullMethodName))
          else retE appTok)))"

text \<open>The context with which a handler runs: the token it carries, if any.\<close>

definition Authorize ::
  "(bytes \<Rightarrow> ('s, appToken) eff) \<Rightarrow> bytes \<Rightarrow> bytes \<Rightarrow> ('s, appToken option) eff" where
  "Authorize get header fullMethodName =
     (if canSkipAuth fullMethodName then retE None
      else bindE (liftE (AuthFromMD header ''AppToken'')) (\<lambda>token.
           bindE (tryE (validateToken get token fullMethodName)) (\<lambda>r.
             case r of
               Inl e \<Rightarrow> failE (unauthenticated (''invalid auth token: '' @ e))
             | Inr tokenInfo \<Rightarrow> retE (Some tokenInfo))))"

subsection \<open>grpc_auth.go\<close>

definition UnaryServerInterceptor ::
  "(bytes \<Rightarrow> bytes \<Rightarrow> ('s, 'c) eff) \<Rightarrow> bytes \<Rightarrow> bytes \<Rightarrow> ('c \<Rightarrow> ('s, 'r) eff) \<Rightarrow> ('s, 'r) eff" where
  "UnaryServerInterceptor authFunc header fullMethod handler =
     bindE (authFunc header fullMethod) (\<lambda>newCtx. handler newCtx)"

definition StreamServerInterceptor ::
  "(bytes \<Rightarrow> bytes \<Rightarrow> ('s, 'c) eff) \<Rightarrow> bytes \<Rightarrow> bytes \<Rightarrow> ('c \<Rightarrow> ('s, unit) eff) \<Rightarrow> ('s, unit) eff" where
  "StreamServerInterceptor authFunc header fullMethod handler =
     bindE (authFunc header fullMethod) (\<lambda>newCtx. handler newCtx)"

subsection \<open>services_app_token.go\<close>

text \<open>The token is returned along with the error of storing it.\<close>

definition InitializeMasterAppToken :: "'w kcDeps \<Rightarrow> ('w kcState, appToken \<times> string option) eff" where
  "InitializeMasterAppToken D =
     bindE (GenerateRandomToken (\<lambda>n. envE (kdRand D n)) True []) (\<lambda>newAppToken.
     bindE (tryE (StoreAppToken D newAppToken)) (\<lambda>r.
       retE (newAppToken, case r of Inl e \<Rightarrow> Some e | Inr _ \<Rightarrow> None)))"

text \<open>The handler in \<open>handlers_app_token.go\<close> gives out the access token only when it was stored.\<close>

definition handleInitializeMasterAppToken :: "'w kcDeps \<Rightarrow> ('w kcState, bytes) eff" where
  "handleInitializeMasterAppToken D =
     bindE (InitializeMasterAppToken D) (\<lambda>(appToken, e).
       case e of Some m \<Rightarrow> failE (Err m) | None \<Rightarrow> retE (GetAccessToken appToken))"

subsection \<open>The check over any keeper of tokens\<close>

definition granted :: "appToken \<Rightarrow> bytes \<Rightarrow> bool" where
  "granted t m \<longleftrightarrow> atIsMaster t \<or> (\<exists>p \<in> set (atPermissions t). apiMethod p = m)"

definition bearer :: "appToken \<Rightarrow> bytes" where
  "bearer t = ''AppToken '' @ GetAccessToken t"

lemma AuthFromMD_bearer: "AuthFromMD (bearer t) ''AppToken'' = Inr (GetAccessToken t)"
proof -
  have "bearer t = ''AppToken'' @ CHR '' '' # GetAccessToken t" by (simp add: bearer_def)
  then have "strSplit2 (bearer t) '' '' = [''AppToken'', GetAccessToken t]"
    using cut_char_Some [of "CHR '' ''" "''AppToken''" "GetAccessToken t"] by (simp add: strSplit2_def)
  then show ?thesis by (simp add: AuthFromMD_def bearer_def equalFold_def)
qed

text \<open>Whoever is let in presented the key and the secret of a token that grants the method.\<close>

lemma validateToken_Inr:
  "validateToken get tok m s = (Inr t, s') \<Longrightarrow>
   \<exists>k. GetKeyAndSecretFromAccessToken tok = Inr (k, atSecret t) \<and> get k s = (Inr t, s') \<and> granted t m"
  by (auto simp: validateToken_def bindE_eq_Inr granted_def list_ex_iff Let_def split: if_splits)

context token_keeper
begin

lemma stored_authorized:
  assumes "ok s" "tokenOk t" "store t s = (Inr u, s')" "\<not> canSkipAuth m"
  shows "fst (Authorize get (bearer t) m s') =
    (if granted t m then Inr (Some t)
     else Inl (unauthenticated (''invalid auth token: app token does not grant access to '' @ m)))"
proof -
  have g: "get (atKey t) s' = (Inr t, s')" using get_stored [OF assms(1-3)] by simp
  have v: "validateToken get (GetAccessToken t) m s' =
      (if granted t m then Inr t else Inl (Err (''app token does not grant access to '' @ m)), s')"
    by (simp add: validateToken_def bindE_apply g access_token_parts [OF assms(2)] granted_def
        list_ex_iff Let_def)
  show ?thesis
    using assms(4) by (simp add: Authorize_def bindE_apply AuthFromMD_bearer tryE_apply v)
qed

lemma wrong_secret_refused:
  assumes "ok s" "tokenOk t" "store t s = (Inr u, s')" "\<not> canSkipAuth m"
    and "GetKeyAndSecretFromAccessToken tok = Inr (atKey t, sec)" "sec \<noteq> atSecret t"
    and "AuthFromMD h ''AppToken'' = Inr tok"
  shows "\<exists>e. fst (Authorize get h m s') = Inl e"
proof -
  have g: "get (atKey t) s' = (Inr t, s')" using get_stored [OF assms(1-3)] by simp
  show ?thesis
    using assms(4-7) by (simp add: Authorize_def bindE_apply tryE_apply validateToken_def g)
qed

end

subsection \<open>Properties\<close>

text \<open>
  A request that presents the access token of a stored app token is let in exactly when the
  token is a master token or lists the method, and then runs with that token; with the same key and
  another secret it is refused.
\<close>

theorem stored_token_authorizes:
  assumes "kc_ok D R ok rv sv" "ok (kcEnv s)" "tokenOk t" "StoreAppToken D t s = (Inr u, s')"
    and "\<not> canSkipAuth m"
  shows "fst (Authorize (GetAppToken D) (bearer t) m s') =
      (if atIsMaster t \<or> (\<exists>p \<in> set (atPermissions t). m = ''/space.SpaceApi/'' @ p) then Inr (Some t)
       else Inl (unauthenticated (''invalid auth token: app token does not grant access to '' @ m))) \<and>
    (\<forall>sec. CHR ''.'' \<notin> set sec \<longrightarrow> sec \<noteq> atSecret t \<longrightarrow>
       (\<exists>e. fst (Authorize (GetAppToken D) (bearer (t\<lparr>atSecret := sec\<rparr>)) m s') = Inl e))"
proof -
  have k: "kc_ok D R ok rv sv \<and> ok (kcEnv s)" using assms(1,2) by simp
  have "granted t m \<longleftrightarrow> atIsMaster t \<or> (\<exists>p \<in> set (atPermissions t). m = ''/space.SpaceApi/'' @ p)"
    by (auto simp: granted_def apiMethod_def)
  moreover have "\<exists>e. fst (Authorize (GetAppToken D) (bearer (t\<lparr>atSecret := sec\<rparr>)) m s') = Inl e"
    if "CHR ''.'' \<notin> set sec" "sec \<noteq> atSecret t" for sec
  proof (rule app_tokens.wrong_secret_refused [OF k assms(3-5) _ that(2) AuthFromMD_bearer])
    show "GetKeyAndSecretFromAccessToken (GetAccessToken (t\<lparr>atSecret := sec\<rparr>)) = Inr (atKey t, sec)"
      using assms(3) that(1)
      by (simp add: GetKeyAndSecretFromAccessToken_def GetAccessToken_def tokenOk_def)
  qed
  ultimately show ?thesis using app_tokens.stored_authorized [OF k assms(3-5)] by auto
qed

theorem stored_token_authorizes_witness:
  "\<exists>s'. StoreAppToken memKc demoMaster kcStart = (Inr (), s') \<and>
     fst (Authorize (GetAppToken memKc) (bearer demoMaster) ''/space.SpaceApi/OpenFile'' s') =
       Inr (Some demoMaster)"
proof -
  let ?r = "StoreAppToken memKc demoMaster kcStart"
  have "fst ?r = Inr ()" by code_simp
  then have r: "?r = (Inr (), snd ?r)" by (simp add: prod_eq_iff)
  have "\<not> canSkipAuth ''/space.SpaceApi/OpenFile''" by code_simp
  moreover have "atIsMaster demoMaster" by (simp add: demoMaster_def)
  ultimately show ?thesis
    using stored_token_authorizes [OF memKc_ok TrueI demoMaster_ok r] r by metis
qed

text \<open>The ways through the check of a method that is not public.\<close>

lemma Authorize_request:
  fixes get :: "bytes \<Rightarrow> ('s, appToken) eff"
  assumes "\<not> canSkipAuth m"
  shows "Authorize get h m s =
    (case AuthFromMD h ''AppToken'' of
       Inl e \<Rightarrow> (Inl e, s)
     | Inr tok \<Rightarrow> (case GetKeyAndSecretFromAccessToken tok of
         Inl (Err e) \<Rightarrow> (Inl (unauthenticated (''invalid auth token: '' @ e)), s)
       | Inl (Panic p) \<Rightarrow> (Inl (Panic p), s)
       | Inr (k, sec) \<Rightarrow> (case get k s of
           (Inl (Err e), s') \<Rightarrow> (Inl (unauthenticated (''invalid auth token: '' @ e)), s')
         | (Inl (Panic p), s') \<Rightarrow> (Inl (Panic p), s')
         | (Inr t, s') \<Rightarrow>
             if atSecret t \<noteq> sec
             then (Inl (unauthenticated (''invalid auth token: '' @ ''app token secret does not match'')), s')
             else if \<not> granted t m
             then (Inl (unauthenticated (''invalid auth token: '' @ ''app token does not grant access to '' @ m)), s')
             else (Inr (Some t), s'))))"
proof (cases "AuthFromMD h ''AppToken''")
  case (Inl e)
  then show ?thesis using assms by (simp add: Authorize_def)
next
  case (Inr tok)
  have l: "bindE (liftE (Inr x)) f = f x" for x :: bytes and f :: "bytes \<Rightarrow> ('s, appToken option) eff"
    by (simp add: fun_eq_iff)
  have *: "Authorize get h m s =
      bindE (tryE (validateToken get tok m)) (\<lambda>r. case r of
        Inl e \<Rightarrow> failE (unauthenticated (''invalid auth token: '' @ e)) | Inr t \<Rightarrow> retE (Some t)) s"
    unfolding Authorize_def using assms Inr by (simp only: if_False l)
  show ?thesis
  proof (cases "GetKeyAndSecretFromAccessToken tok")
    case (Inl e)
    then show ?thesis unfolding * using Inr
      by (cases e) (simp_all add: validateToken_def bindE_apply tryE_apply)
  next
    case ks: (Inr ks)
    obtain k sec r s' where k: "ks = (k, sec)" and g: "get k s = (r, s')" by (cases ks) fastforce
    have v: "validateToken get tok m s = (case r of
        Inl e \<Rightarrow> (Inl e, s')
      | Inr t \<Rightarrow> (if atSecret t \<noteq> sec then Inl (Err ''app token secret does not match'')
          else if \<not> granted t m then Inl (Err (''app token does not grant access to '' @ m)) else Inr t, s'))"
      using ks k g by (auto simp: validateToken_def bindE_apply granted_def list_ex_iff Let_def split: sum.split)
    show ?thesis unfolding * bindE_apply tryE_apply v using Inr ks k g
      by (simp split: sum.split err.split)
  qed
qed

text \<open>The request carries the key and the secret of a token that the keychain holds and that grants the method.\<close>

definition presents :: "'w kcDeps \<Rightarrow> bytes \<Rightarrow> bytes \<Rightarrow> 'w kcState \<Rightarrow> appToken \<Rightarrow> 'w kcState \<Rightarrow> bool" where
  "presents D h m s t s' \<longleftrightarrow> (\<exists>tok k. AuthFromMD h ''AppToken'' = Inr tok \<and>
     GetKeyAndSecretFromAccessToken tok = Inr (k, atSecret t) \<and>
     GetAppToken D k s = (Inr t, s') \<and> granted t m)"

lemma presents_authorized:
  "\<not> canSkipAuth m \<Longrightarrow> presents D h m s t s' \<Longrightarrow> Authorize (GetAppToken D) h m s = (Inr (Some t), s')"
  by (auto simp: presents_def Authorize_request)

lemma not_presents_refused:
  "\<not> canSkipAuth m \<Longrightarrow> \<forall>t s'. \<not> presents D h m s t s' \<Longrightarrow>
   \<exists>e s'. Authorize (GetAppToken D) h m s = (Inl e, s') \<and> (s' = s \<or> (\<exists>k. s' = snd (GetAppToken D k s)))"
proof (cases "\<exists>tok k sec. AuthFromMD h ''AppToken'' = Inr tok \<and> GetKeyAndSecretFromAccessToken tok = Inr (k, sec)")
  case True
  then obtain tok k sec where k: "AuthFromMD h ''AppToken'' = Inr tok" "GetKeyAndSecretFromAccessToken tok = Inr (k, sec)"
    by blast
  assume m: "\<not> canSkipAuth m" and n: "\<forall>t s'. \<not> presents D h m s t s'"
  obtain r s' where g: "GetAppToken D k s = (r, s')" by fastforce
  have "r = Inr t \<Longrightarrow> atSecret t \<noteq> sec \<or> \<not> granted t m" for t using n k g by (auto simp: presents_def)
  then have "\<exists>e. Authorize (GetAppToken D) h m s = (Inl e, s')"
    using k g by (auto simp: Authorize_request [OF m] split: sum.split err.split)
  moreover have "s' = snd (GetAppToken D k s)" by (simp add: g)
  ultimately show ?thesis by blast
next
  case False
  assume m: "\<not> canSkipAuth m"
  have "\<exists>e. Authorize (GetAppToken D) h m s = (Inl e, s)"
    using False by (auto simp: Authorize_request [OF m] split: sum.split err.split)
  then show ?thesis by blast
qed

text \<open>
  C9. Behind the interceptors a handler of a method that is not public runs exactly for the requests whose
  header carries the key and the secret of a token the keychain holds, and that grants the method; it
  runs with that token, and its result is the answer.  For any other request the answer is the same
  error whatever the handler is, and nothing but the look-up of a token has happened.
\<close>

theorem handler_runs_authorized:
  assumes "\<not> canSkipAuth m"
  shows "if \<exists>t s'. presents D h m s t s'
    then \<exists>t s'. presents D h m s t s' \<and>
      (\<forall>handler :: _ \<Rightarrow> (_, 'r) eff.
         UnaryServerInterceptor (Authorize (GetAppToken D)) h m handler s = handler (Some t) s') \<and>
      (\<forall>handler. StreamServerInterceptor (Authorize (GetAppToken D)) h m handler s = handler (Some t) s')
    else \<exists>e s'. (s' = s \<or> (\<exists>k. s' = snd (GetAppToken D k s))) \<and>
      (\<forall>handler :: _ \<Rightarrow> (_, 'r) eff.
         UnaryServerInterceptor (Authorize (GetAppToken D)) h m handler s = (Inl e, s')) \<and>
      (\<forall>handler. StreamServerInterceptor (Authorize (GetAppToken D)) h m handler s = (Inl e, s'))"
proof (cases "\<exists>t s'. presents D h m s t s'")
  case True
  then obtain t s' where t: "presents D h m s t s'" by blast
  from True t presents_authorized [OF assms t] show ?thesis
    unfolding UnaryServerInterceptor_def StreamServerInterceptor_def by (metis bindE_Inr)
next
  case False
  with not_presents_refused [OF assms] obtain e s' where
    "Authorize (GetAppToken D) h m s = (Inl e, s')" "s' = s \<or> (\<exists>k. s' = snd (GetAppToken D k s))" by blast
  with False show ?thesis
    unfolding UnaryServerInterceptor_def StreamServerInterceptor_def by (metis bindE_Inl)
qed

theorem handler_runs_authorized_witness:
  "\<exists>s1. StoreAppToken memKc demoMaster kcStart = (Inr (), s1) \<and>
     fst (UnaryServerInterceptor (Authorize (GetAppToken memKc)) (bearer demoMaster) ''/space.SpaceApi/OpenFile'' retE s1) =
       Inr (Some demoMaster) \<and>
     (\<exists>e. \<forall>handler. fst (StreamServerInterceptor (Authorize (GetAppToken memKc)) [] ''/space.SpaceApi/OpenFile'' handler s1) = Inl e)"
proof -
  let ?r = "StoreAppToken memKc demoMaster kcStart"
  have "fst ?r = Inr ()" by code_simp
  then have r: "?r = (Inr (), snd ?r)" by (simp add: prod_eq_iff)
  have m: "\<not> canSkipAuth ''/space.SpaceApi/OpenFile''" by code_simp
  have g: "GetAppToken memKc (atKey demoMaster) (snd ?r) = (Inr demoMaster, snd ?r)"
    using app_tokens.get_stored [OF conjI [OF memKc_ok TrueI] demoMaster_ok r] by simp
  have p: "presents memKc (bearer demoMaster) ''/space.SpaceApi/OpenFile'' (snd ?r) t s' \<longleftrightarrow>
      t = demoMaster \<and> s' = snd ?r" for t s'
    using g access_token_parts [OF demoMaster_ok]
    by (auto simp: presents_def AuthFromMD_bearer granted_def demoMaster_def)
  have "\<not> presents memKc [] ''/space.SpaceApi/OpenFile'' (snd ?r) t s'" for t s'
    by (simp add: presents_def AuthFromMD_def)
  with handler_runs_authorized [OF m, of memKc "[]" "snd ?r"]
  have "\<exists>e s'. \<forall>handler. StreamServerInterceptor (Authorize (GetAppToken memKc)) []
      ''/space.SpaceApi/OpenFile'' handler (snd ?r) = (Inl e, s')" by simp blast
  then have 2: "\<exists>e. \<forall>handler. fst (StreamServerInterceptor (Authorize (GetAppToken memKc)) []
      ''/space.SpaceApi/OpenFile'' handler (snd ?r)) = Inl e" by fastforce
  have "UnaryServerInterceptor (Authorize (GetAppToken memKc)) (bearer demoMaster) ''/space.SpaceApi/OpenFile'' retE (snd ?r) =
      retE (Some demoMaster) (snd ?r)"
    using handler_runs_authorized [OF m, of memKc "bearer demoMaster" "snd ?r", where 'r = "appToken option"] p by simp
  then have 1: "fst (UnaryServerInterceptor (Authorize (GetAppToken memKc)) (bearer demoMaster)
      ''/space.SpaceApi/OpenFile'' retE (snd ?r)) = Inr (Some demoMaster)" by simp
  from r 1 2 show ?thesis by blast
qed

end
