(* ===== verification/Base32.thy ===== *)
theory Base32
  imports Base64
begin

text \<open>
  Go's \<open>encoding/base32\<close> with padding over the standard alphabet (\<open>StdEncoding\<close>).  A group of up to
  five bytes is a number, written in as many digits to the base 32 as its bits need.  The decoder
  drops line breaks, takes padding in the last group only, and ignores the bits that fill up the
  last digit.
\<close>

subsection \<open>Digits\<close>

fun toDigits :: "nat \<Rightarrow> nat \<Rightarrow> nat \<Rightarrow> nat list" where
  "toDigits b 0 n = []"
| "toDigits b (Suc m) n = toDigits b m (n div b) @ [n mod b]"

definition ofDigits :: "nat \<Rightarrow> nat list \<Rightarrow> nat" where
  "ofDigits b ds = foldl (\<lambda>n d. n * b + d) 0 ds"

lemma ofDigits_snoc [simp]: "ofDigits b (ds @ [d]) = ofDigits b ds * b + d"
  by (simp add: ofDigits_def)

lemma ofDigits_Nil [simp]: "ofDigits b [] = 0"
  by (simp add: ofDigits_def)

lemma length_toDigits [simp]: "length (toDigits b m n) = m"
  by (induction m arbitrary: n) auto

lemma set_toDigits: "0 < b \<Longrightarrow> d \<in> set (toDigits b m n) \<Longrightarrow> d < b"
  by (induction m arbitrary: n) auto

lemma ofDigits_lt: "0 < b \<Longrightarrow> (\<And>d. d \<in> set ds \<Longrightarrow> d < b) \<Longrightarrow> ofDigits b ds < b ^ length ds"
proof (induction ds rule: rev_induct)
  case (snoc d ds)
  then have "ofDigits b ds + 1 \<le> b ^ length ds" "d < b" by auto
  then have "(ofDigits b ds + 1) * b \<le> b ^ length ds * b" by (intro mult_le_mono1)
  then show ?case using \<open>d < b\<close> by (simp add: algebra_simps)
qed simp

lemma ofDigits_toDigits: "n < b ^ m \<Longrightarrow> ofDigits b (toDigits b m n) = n"
proof (induction m arbitrary: n)
  case (Suc m)
  then have "n div b < b ^ m" by (simp add: less_mult_imp_div_less mult.commute)
  then show ?case using Suc.IH by simp
qed simp

lemma toDigits_ofDigits:
  "0 < b \<Longrightarrow> (\<And>d. d \<in> set ds \<Longrightarrow> d < b) \<Longrightarrow> toDigits b (length ds) (ofDigits b ds) = ds"
  by (induction ds rule: rev_induct) auto

subsection \<open>Encoding and decoding\<close>

definition b32Alphabet :: string where
  "b32Alphabet = ''ABCDEFGHIJKLMNOPQRSTUVWXYZ234567''"

definition b32EncGroup :: "bytes \<Rightarrow> string" where
  "b32EncGroup g =
     (let m = (8 * length g + 4) div 5;
          n = ofDigits 256 (map of_char g) * 2 ^ (5 * m - 8 * length g) in
      map (\<lambda>d. b32Alphabet ! d) (toDigits 32 m n) @ replicate (8 - m) (CHR ''=''))"

fun b32Encode :: "bytes \<Rightarrow> string" where
  "b32Encode bs = (if bs = [] then [] else b32EncGroup (take 5 bs) @ b32Encode (drop 5 bs))"

declare b32Encode.simps [simp del]

definition b32Err :: err where
  "b32Err = Err ''illegal base32 data''"

definition b32DecGroup :: "string \<Rightarrow> bool \<Rightarrow> err + bytes" where
  "b32DecGroup g isLast =
     (let ds = takeWhile (\<lambda>c. c \<noteq> CHR ''='') g; m = length ds in
      if length g < 8 \<or> (m < 8 \<and> (\<not> isLast \<or> m \<notin> {2, 4, 5, 7} \<or> (\<exists>c \<in> set (drop m g). c \<noteq> CHR ''='')))
      then Inl b32Err
      else case those (map (indexOf b32Alphabet) ds) of
        None \<Rightarrow> Inl b32Err
      | Some vs \<Rightarrow>
          (let k = 5 * m div 8 in
           Inr (map char_of (toDigits 256 k (ofDigits 32 vs div 2 ^ (5 * m - 8 * k))))))"

fun b32Groups :: "string \<Rightarrow> err + bytes" where
  "b32Groups s =
     (if s = [] then Inr []
      else bindS (b32DecGroup (take 8 s) (drop 8 s = [])) (\<lambda>bs.
           bindS (b32Groups (drop 8 s)) (\<lambda>cs. Inr (bs @ cs))))"

declare b32Groups.simps [simp del]

definition b32Decode :: "string \<Rightarrow> err + bytes" where
  "b32Decode s = b32Groups (filter (\<lambda>c. c \<noteq> CHR 0x0A \<and> c \<noteq> CHR 0x0D) s)"

subsection \<open>Round trip\<close>

lemma b32Alphabet_props:
  "length b32Alphabet = 32" "distinct b32Alphabet" "CHR ''='' \<notin> set b32Alphabet"
  "CHR 0x0A \<notin> set b32Alphabet" "CHR 0x0D \<notin> set b32Alphabet"
  by code_simp+

lemma b32Alphabet_in: "d < 32 \<Longrightarrow> b32Alphabet ! d \<in> set b32Alphabet"
  by (simp add: b32Alphabet_props)

lemma indexOf_b32: "d < 32 \<Longrightarrow> indexOf b32Alphabet (b32Alphabet ! d) = Some d"
  by (simp add: indexOf_nth b32Alphabet_props)

lemma those_map_Some: "(\<And>x. x \<in> set xs \<Longrightarrow> f x = Some x) \<Longrightarrow> those (map f xs) = Some xs"
  by (induction xs) auto

lemma group_sizes:
  assumes "0 < k" "k \<le> (5 :: nat)"
  shows "5 * ((8 * k + 4) div 5) div 8 = k" "(8 * k + 4) div 5 \<le> 8" "8 * k \<le> 5 * ((8 * k + 4) div 5)"
    "(8 * k + 4) div 5 = 8 \<longleftrightarrow> k = 5" "k < 5 \<Longrightarrow> (8 * k + 4) div 5 \<in> {2, 4, 5, 7}"
proof -
  from assms have "k \<in> {1, 2, 3, 4, 5}" by auto
  then show "5 * ((8 * k + 4) div 5) div 8 = k" "(8 * k + 4) div 5 \<le> 8"
    "8 * k \<le> 5 * ((8 * k + 4) div 5)" "(8 * k + 4) div 5 = 8 \<longleftrightarrow> k = 5"
    "k < 5 \<Longrightarrow> (8 * k + 4) div 5 \<in> {2, 4, 5, 7}"
    by auto
qed

lemma b32EncGroup_set: "set (b32EncGroup g) \<subseteq> set b32Alphabet \<union> {CHR ''=''}"
  using set_toDigits [of 32] by (auto simp: b32EncGroup_def Let_def intro!: b32Alphabet_in)

lemma b32DecGroup_b32EncGroup:
  assumes "g \<noteq> []" "length g \<le> 5" "isLast \<or> length g = 5"
  shows "b32DecGroup (b32EncGroup g) isLast = Inr g \<and> length (b32EncGroup g) = 8"
proof -
  let ?k = "length g"
  let ?m = "(8 * ?k + 4) div 5"
  let ?v = "ofDigits 256 (map of_char g)"
  let ?n = "?v * 2 ^ (5 * ?m - 8 * ?k)"
  let ?ds = "map (\<lambda>d. b32Alphabet ! d) (toDigits 32 ?m ?n)"
  have k: "0 < ?k" "?k \<le> 5" using assms by auto
  note gs = group_sizes [OF k]
  have e: "b32EncGroup g = ?ds @ replicate (8 - ?m) (CHR ''='')"
    by (simp add: b32EncGroup_def Let_def)
  have nopad: "c \<noteq> CHR ''=''" if "c \<in> set ?ds" for c
    using that b32Alphabet_in b32Alphabet_props(3) set_toDigits [of 32 _ ?m ?n] by fastforce
  have tw: "takeWhile (\<lambda>c. c \<noteq> CHR ''='') (b32EncGroup g) = ?ds"
    unfolding e using nopad by (subst takeWhile_append2) (auto simp: takeWhile_replicate)
  have l: "length (b32EncGroup g) = 8" using gs(2) by (simp add: e)
  have idx: "those (map (indexOf b32Alphabet) ?ds) = Some (toDigits 32 ?m ?n)"
  proof -
    have "map (indexOf b32Alphabet) ?ds = map Some (toDigits 32 ?m ?n)"
      using set_toDigits [of 32 _ ?m ?n] by (simp add: indexOf_b32)
    then show ?thesis by (simp only: those_map_Some [of "toDigits 32 ?m ?n" Some])
  qed
  have "?v < 256 ^ length (map of_char g :: nat list)" by (rule ofDigits_lt) auto
  then have v: "?v < 2 ^ (8 * ?k)" by (simp add: power_mult)
  have "?n < 2 ^ (8 * ?k) * 2 ^ (5 * ?m - 8 * ?k)" using v by simp
  also have "\<dots> = (2 :: nat) ^ (5 * ?m)" using gs(3) by (simp flip: power_add)
  also have "\<dots> = 32 ^ ?m" by (simp add: power_mult)
  finally have n: "ofDigits 32 (toDigits 32 ?m ?n) = ?n" by (rule ofDigits_toDigits)
  have d: "toDigits 256 ?k ?v = map of_char g"
    using toDigits_ofDigits [of 256 "map of_char g"] by fastforce
  have c: "map char_of (map of_char g :: nat list) = g" by (simp add: comp_def)
  have ok: "\<not> (?m < 8 \<and> (\<not> isLast \<or> ?m \<notin> {2, 4, 5, 7} \<or>
      (\<exists>c \<in> set (drop ?m (b32EncGroup g)). c \<noteq> CHR ''='')))"
    using gs(4,5) assms(3) k by (auto simp: e)
  have "b32DecGroup (b32EncGroup g) isLast =
      Inr (map char_of (toDigits 256 ?k (?n div 2 ^ (5 * ?m - 8 * ?k))))"
    unfolding b32DecGroup_def Let_def tw idx
    using ok l n gs(1) by (simp add: idx)
  then show ?thesis using l d c by simp
qed

lemma b32Groups_b32Encode: "b32Groups (b32Encode bs) = Inr bs"
proof (induction bs rule: b32Encode.induct)
  case (1 bs)
  show ?case
  proof (cases "bs = []")
    case False
    let ?g = "take 5 bs" and ?r = "drop 5 bs"
    have last: "b32Encode ?r = [] \<or> length ?g = 5"
      by (cases "?r = []") (simp_all add: b32Encode.simps)
    have g: "?g \<noteq> []" "length ?g \<le> 5" using False by auto
    note dg = b32DecGroup_b32EncGroup [OF g last]
    have e: "b32Encode bs = b32EncGroup ?g @ b32Encode ?r"
      by (subst b32Encode.simps) (simp add: False)
    have "b32Groups (b32Encode bs) =
        bindS (b32DecGroup (b32EncGroup ?g) (b32Encode ?r = [])) (\<lambda>bs.
        bindS (b32Groups (b32Encode ?r)) (\<lambda>cs. Inr (bs @ cs)))"
      unfolding e using dg by (subst b32Groups.simps) auto
    then show ?thesis using dg 1 [OF False] by simp
  qed (simp add: b32Encode.simps b32Groups.simps)
qed

lemma set_b32Encode: "set (b32Encode bs) \<subseteq> set b32Alphabet \<union> {CHR ''=''}"
proof (induction bs rule: b32Encode.induct)
  case (1 bs)
  then show ?case using b32EncGroup_set [of "take 5 bs"] by (subst b32Encode.simps) auto
qed

lemma b32Decode_b32Encode: "b32Decode (b32Encode bs) = Inr bs"
proof -
  have "\<forall>c \<in> set (b32Encode bs). c \<noteq> CHR 0x0A \<and> c \<noteq> CHR 0x0D"
    using set_b32Encode [of bs] b32Alphabet_props(4,5) by auto
  then have "filter (\<lambda>c. c \<noteq> CHR 0x0A \<and> c \<noteq> CHR 0x0D) (b32Encode bs) = b32Encode bs"
    by (simp add: filter_id_conv)
  then show ?thesis by (simp add: b32Decode_def b32Groups_b32Encode)
qed

end
