(* ===== verification/Threads.thy ===== *)
theory Threads
  imports Keychain Bucket Base32
begin

text \<open>
  The deterministic threads of \<open>core/textile/utils/utils.go\<close>, and the \<open>Keychain\<close> interface
  (\<open>core/keychain/keychain.go\<close>) its clients use.

  A thread ID is its bytes.  The threads client, the network clients and the hub authentication are
  parameters (\<open>threadDeps\<close>) over a client's state \<open>'s\<close>; \<open>thread_env\<close> is what the theorems need of
  them: none touches the key pair or the store entries of other components.  The contract
  \<open>key_holder\<close> is what a client relies on when a key pair is stored; the keychain provides it.
\<close>

subsection \<open>The Keychain interface\<close>

record 's keychainI =
  kiGenerateKeyPair :: "('s, bytes \<times> bytes) eff"
  kiGenerateKeyFromMnemonic :: "(mnemonicOpts \<Rightarrow> mnemonicOpts) list \<Rightarrow> ('s, bytes) eff"
  kiKeyPair :: "('s, bytes \<times> bytes) eff"
  kiPublicKey :: "('s, bytes) eff"
  kiMnemonic :: "('s, bytes) eff"
  kiThreadKey :: "bytes \<Rightarrow> ('s, bytes) eff"
  kiGenerateKeyPairWithForce :: "('s, bytes \<times> bytes) eff"
  kiSign :: "bytes \<Rightarrow> ('s, bytes) eff"
  kiImport :: "bytes \<Rightarrow> bytes \<Rightarrow> ('s, unit) eff"
  kiDelete :: "('s, unit) eff"
  kiStoreAppToken :: "appToken \<Rightarrow> ('s, unit) eff"
  kiGetAppToken :: "bytes \<Rightarrow> ('s, appToken) eff"

definition keychainOf :: "'w kcDeps \<Rightarrow> 'w kcState keychainI" where
  "keychainOf D =
     \<lparr> kiGenerateKeyPair = GenerateKeyPair D,
       kiGenerateKeyFromMnemonic = GenerateKeyFromMnemonic D,
       kiKeyPair = GetStoredKeyPairInLibP2PFormat D, kiPublicKey = GetStoredPublicKey D,
       kiMnemonic = GetStoredMnemonic D, kiThreadKey = GetManagedThreadKey D,
       kiGenerateKeyPairWithForce = GenerateKeyPairWithForce D, kiSign = Sign D,
       kiImport = ImportExistingKeyPair D, kiDelete = DeleteKeypair D,
       kiStoreAppToken = StoreAppToken D, kiGetAppToken = GetAppToken D \<rparr>"

text \<open>A keychain that always holds one pair, for concrete inputs.\<close>

definition fixedKeychain :: "'s keychainI" where
  "fixedKeychain =
     \<lparr> kiGenerateKeyPair = failE (Err ''key pair exists''),
       kiGenerateKeyFromMnemonic = \<lambda>_. failE (Err ''key pair exists''),
       kiKeyPair = retE (''priv'', ''pub''), kiPublicKey = retE ''pub'', kiMnemonic = retE [],
       kiThreadKey = retE, kiGenerateKeyPairWithForce = failE (Err ''unsupported''),
       kiSign = \<lambda>m. retE (''priv'' @ m), kiImport = \<lambda>_ _. failE (Err ''unsupported''),
       kiDelete = failE (Err ''unsupported''), kiStoreAppToken = \<lambda>_. retE (),
       kiGetAppToken = \<lambda>_. failE (Err ''no token'') \<rparr>"

text \<open>
  While \<open>ok\<close> holds the pair \<open>(priv, pub)\<close> is stored; reading it changes nothing a client sees
  through \<open>fr\<close>.
\<close>

locale key_holder =
  fixes K :: "'s keychainI"
    and ok :: "'s \<Rightarrow> bool"
    and fr :: "'s \<Rightarrow> 'f"
    and priv :: bytes
    and pub :: bytes
    and tkey :: "bytes \<Rightarrow> err + bytes"
  assumes pair: "ok s \<Longrightarrow> \<exists>s'. kiKeyPair K s = (Inr (priv, pub), s') \<and> ok s' \<and> fr s' = fr s"
    and public: "ok s \<Longrightarrow> kiPublicKey K s = (Inr pub, s)"
    and thread_key: "ok s \<Longrightarrow> \<exists>s'. kiThreadKey K n s = (tkey n, s') \<and> ok s' \<and> fr s' = fr s"

definition keyStored :: "'w kcDeps \<Rightarrow> 'w keyring \<Rightarrow> ('w \<Rightarrow> bool) \<Rightarrow> ('w \<Rightarrow> bytes \<rightharpoonup> ringItem) \<Rightarrow>
    ('w \<Rightarrow> bytes \<rightharpoonup> bytes) \<Rightarrow> bytes \<Rightarrow> 'w kcState \<Rightarrow> bool" where
  "keyStored D R ok rv sv priv s \<longleftrightarrow>
     kc_ok D R ok rv sv \<and> ok (kcEnv s) \<and> klUnmarshalPriv (kdLib D) priv = Inr priv \<and>
     (\<exists>m. holdsKey D rv sv priv m s) \<and> (kcPriv s = None \<or> kcPriv s = Some priv)"

definition managedThreadKey :: "keyLib \<Rightarrow> bytes \<Rightarrow> bytes \<Rightarrow> err + bytes" where
  "managedThreadKey L priv n = klKeyFromBytes L (take 64 (klPbkdf2 L priv (''threadKey'' @ n) 256 32))"

lemma keyStored_reads:
  assumes "keyStored D R ok rv sv priv s"
  shows "GetStoredPublicKey D s = (Inr (klPublic (kdLib D) priv), s)"
    "GetStoredKeyPairInLibP2PFormat D s =
       (Inr (priv, klPublic (kdLib D) priv), s\<lparr>kcPriv := Some priv\<rparr>)"
    "keyStored D R ok rv sv priv (s\<lparr>kcPriv := Some priv\<rparr>)"
proof -
  obtain m where k: "kc_ok D R ok rv sv" "ok (kcEnv s)" "holdsKey D rv sv priv m s"
    "klUnmarshalPriv (kdLib D) priv = Inr priv" "kcPriv s = None \<or> kcPriv s = Some priv"
    using assms unfolding keyStored_def by blast
  note h = holdsKey_reads [OF k]
  show g: "GetStoredPublicKey D s = (Inr (klPublic (kdLib D) priv), s)" by (rule h)
  show "GetStoredKeyPairInLibP2PFormat D s =
       (Inr (priv, klPublic (kdLib D) priv), s\<lparr>kcPriv := Some priv\<rparr>)"
    using k(4,5) by (auto simp: GetStoredKeyPairInLibP2PFormat_def bindE_apply thenE_apply
        tryE_apply g h(1))
  have "holdsKey D rv sv priv m (s\<lparr>kcPriv := Some priv\<rparr>)" using k(3) by (simp add: holdsKey_def)
  then show "keyStored D R ok rv sv priv (s\<lparr>kcPriv := Some priv\<rparr>)"
    using k(1,2,4) unfolding keyStored_def by auto
qed

interpretation stored_key: key_holder "keychainOf D" "keyStored D R ok rv sv priv"
    "\<lambda>s. h (kcEnv s)" priv "klPublic (kdLib D) priv" "managedThreadKey (kdLib D) priv"
  for D :: "'w kcDeps" and R ok rv sv h priv
proof unfold_locales
  fix s :: "'w kcState" and n
  assume k: "keyStored D R ok rv sv priv s"
  note r = keyStored_reads [OF k]
  show "\<exists>s'. kiKeyPair (keychainOf D) s = (Inr (priv, klPublic (kdLib D) priv), s') \<and>
      keyStored D R ok rv sv priv s' \<and> h (kcEnv s') = h (kcEnv s)"
    using r by (simp add: keychainOf_def)
  show "kiPublicKey (keychainOf D) s = (Inr (klPublic (kdLib D) priv), s)"
    using r by (simp add: keychainOf_def)
  show "\<exists>s'. kiThreadKey (keychainOf D) n s = (managedThreadKey (kdLib D) priv n, s') \<and>
      keyStored D R ok rv sv priv s' \<and> h (kcEnv s') = h (kcEnv s)"
    using r by (simp add: keychainOf_def GetManagedThreadKey_def managedThreadKey_def bindE_apply)
qed

subsection \<open>Thread IDs as text\<close>

text \<open>\<open>cast\<close> is \<open>thread.Cast\<close>, which checks the version and the variant of an ID.\<close>

definition CastDbIDToString :: "bytes \<Rightarrow> bytes" where
  "CastDbIDToString dbID = b32Encode dbID"

definition ParseDbIDFromString :: "(bytes \<Rightarrow> err + bytes) \<Rightarrow> bytes \<Rightarrow> err + bytes" where
  "ParseDbIDFromString cast dbID = bindS (b32Decode dbID) cast"

lemma ParseDbID_CastDbID: "ParseDbIDFromString cast (CastDbIDToString dbID) = cast dbID"
  by (simp add: ParseDbIDFromString_def CastDbIDToString_def b32Decode_b32Encode)

subsection \<open>Deterministic threads\<close>

record collConfig =
  ccName :: bytes
  ccIndexes :: "(bytes \<times> bool) list"

text \<open>The options of a new thread database; a field is \<open>None\<close>, \<open>False\<close> or empty when it is not given.\<close>

record dbOpts =
  doBackfillBlock :: bool
  doThreadKey :: "bytes option"
  doName :: "bytes option"
  doLogKey :: "bytes option"
  doCollections :: "collConfig list"

definition noDbOpts :: dbOpts where
  "noDbOpts = \<lparr> doBackfillBlock = False, doThreadKey = None, doName = None, doLogKey = None,
     doCollections = [] \<rparr>"

record 's threadDeps =
  tdKc :: "'s keychainI"
  tdStore :: "'s storeI"
  tdPbkdf2 :: "bytes \<Rightarrow> bytes \<Rightarrow> nat \<Rightarrow> nat \<Rightarrow> bytes"
  tdV1 :: nat
  tdRaw :: nat
  tdCast :: "bytes \<Rightarrow> err + bytes"
  tdIDString :: "bytes \<Rightarrow> bytes"
  tdPubBytes :: "bytes \<Rightarrow> err + bytes"
  tdHubMa :: bytes
  tdAddrFromStr :: "bytes \<Rightarrow> err + bytes"
  tdGetToken :: "ctx \<Rightarrow> bytes \<Rightarrow> ('s, bytes) eff"
  tdGetHubContext :: "ctx \<Rightarrow> ('s, ctx) eff"
  tdHubGetThread :: "ctx \<Rightarrow> bytes \<Rightarrow> ('s, unit) eff"
  tdNewDBFromAddr :: "ctx \<Rightarrow> bytes \<Rightarrow> bytes \<Rightarrow> dbOpts \<Rightarrow> ('s, unit) eff"
  tdNewDB :: "ctx \<Rightarrow> bytes \<Rightarrow> dbOpts \<Rightarrow> ('s, unit) eff"
  tdAddReplicator :: "ctx \<Rightarrow> bytes \<Rightarrow> bytes \<Rightarrow> ('s, unit) eff"

definition MetathreadThreadVariant :: bytes where
  "MetathreadThreadVariant = ''metathread''"

text \<open>\<open>binary.PutUvarint\<close>, and the copy into a buffer of \<open>2 * MaxVarintLen64 + numlen\<close> bytes.\<close>

fun putUvarint :: "nat \<Rightarrow> bytes" where
  "putUvarint x = (if x < 128 then [char_of x] else char_of (x mod 128 + 128) # putUvarint (x div 128))"

declare putUvarint.simps [simp del]

definition NewDeterministicThreadID :: "'s threadDeps \<Rightarrow> bytes \<Rightarrow> ('s, bytes) eff" where
  "NewDeterministicThreadID T threadVariant =
     bindE (kiKeyPair (tdKc T)) (\<lambda>(priv, _).
       let num = tdPbkdf2 T priv (''threadID'' @ threadVariant) 256 32;
           numlen = length num;
           hdr = putUvarint (tdV1 T) @ putUvarint (tdRaw T);
           cn = min (2 * 10 + numlen - length hdr) numlen in
       if cn \<noteq> numlen then failE (Panic ''copy length is inconsistent'')
       else retE (hdr @ num))"

definition getThreadName :: "bytes \<Rightarrow> bytes \<Rightarrow> bytes" where
  "getThreadName userPubKey bucketSlug = hexEncode userPubKey @ ''-'' @ bucketSlug"

text \<open>\<open>threadsClient\<close> is nil (\<open>None\<close>) or gives tokens.\<close>

definition GetThreadContext :: "'s threadDeps \<Rightarrow> (ctx \<Rightarrow> bytes \<Rightarrow> ('s, bytes) eff) option \<Rightarrow>
    ctx \<Rightarrow> bytes \<Rightarrow> bytes \<Rightarrow> bool \<Rightarrow> ('s, ctx) eff" where
  "GetThreadContext T threadsClient parentCtx threadName dbID isHub =
     bindE (if isHub then tdGetHubContext T parentCtx else retE parentCtx) (\<lambda>c.
     bindE (kiKeyPair (tdKc T)) (\<lambda>(privKey, publicKey).
     bindE (liftE (tdPubBytes T publicKey)) (\<lambda>pubKeyInBytes.
     bindE (case threadsClient of
              None \<Rightarrow> retE c
            | Some getToken \<Rightarrow> bindE (getToken c privKey) (\<lambda>tok. retE (c\<lparr>cxToken := Some tok\<rparr>)))
     (\<lambda>c. retE (c\<lparr>cxThreadName := Some (getThreadName pubKeyInBytes threadName),
                  cxThreadID := Some dbID\<rparr>)))))"

definition threadIDStoreKey :: bytes where
  "threadIDStoreKey = ''thread_id''"

definition threadStoreKey :: "bytes \<Rightarrow> bytes \<Rightarrow> bytes" where
  "threadStoreKey variant pub = threadIDStoreKey @ ''_'' @ variant @ pub"

definition getDeterministicthreadStoreKey :: "'s threadDeps \<Rightarrow> bytes \<Rightarrow> ('s, bytes) eff" where
  "getDeterministicthreadStoreKey T variant =
     bindE (kiPublicKey (tdKc T)) (\<lambda>pub. retE (threadStoreKey variant pub))"

definition successfulThreadCreation :: "'s threadDeps \<Rightarrow> bytes \<Rightarrow> bytes \<Rightarrow> ('s, bytes) eff" where
  "successfulThreadCreation T dbID storeKey =
     bindE (tryE (sSet (tdStore T) storeKey dbID)) (\<lambda>r.
       case r of
         Inl _ \<Rightarrow> failE (Err ''error while storing thread id: check your local space db accessibility'')
       | Inr _ \<Rightarrow> retE dbID)"

definition dbExistsErr :: string where
  "dbExistsErr = ''rpc error: code = Unknown desc = db already exists''"

definition logExistsErr :: string where
  "logExistsErr = ''rpc error: code = Unknown desc = log already exists''"

text \<open>The last part: the thread is created locally and replicated to the hub.\<close>

definition newReplicatedThread ::
  "'s threadDeps \<Rightarrow> ctx \<Rightarrow> bytes \<Rightarrow> bytes \<Rightarrow> dbOpts \<Rightarrow> bytes \<Rightarrow> ('s, bytes) eff" where
  "newReplicatedThread T threadCtx dbID storeKey opts hubma =
     bindE (tryE (tdNewDB T threadCtx dbID opts)) (\<lambda>r.
       if isl r \<and> projl r \<noteq> dbExistsErr then failE (Err (projl r))
       else
         bindE (tryE (tdAddReplicator T threadCtx dbID hubma)) (\<lambda>q.
           case q of
             Inr _ \<Rightarrow> successfulThreadCreation T dbID storeKey
           | Inl _ \<Rightarrow> retE dbID))"

text \<open>What the store returns for a key it has is never nil, not even an empty value, which is then cast.\<close>

definition FindOrCreateDeterministicThread ::
  "'s threadDeps \<Rightarrow> ctx \<Rightarrow> bytes \<Rightarrow> bytes \<Rightarrow> bool \<Rightarrow> collConfig list \<Rightarrow> ('s, bytes) eff" where
  "FindOrCreateDeterministicThread T c variant threadName shouldForceRestore dbCollectionConfigs =
     bindE (getDeterministicthreadStoreKey T variant) (\<lambda>storeKey.
     bindE (kiKeyPair (tdKc T)) (\<lambda>(pk, _).
     bindE (tryE (sGet (tdStore T) storeKey)) (\<lambda>val.
       if \<not> isl val then liftE (tdCast T (projr val))
       else
         bindE (NewDeterministicThreadID T variant) (\<lambda>dbID.
         bindE (kiThreadKey (tdKc T) threadName) (\<lambda>managedKey.
         bindE (GetThreadContext T (Some (tdGetToken T)) c threadName dbID False) (\<lambda>threadCtx.
         bindE (liftE (tdAddrFromStr T (tdHubMa T))) (\<lambda>hubma.
         bindE (tdGetHubContext T c) (\<lambda>hubCtx.
         bindE (tryE (tdHubGetThread T hubCtx dbID)) (\<lambda>repl.
           let opts = noDbOpts\<lparr>doThreadKey := Some managedKey, doName := Some threadName,
                 doLogKey := Some pk\<rparr>;
               create = newReplicatedThread T threadCtx dbID storeKey opts hubma in
           if isl repl \<and> shouldForceRestore then failE (Err (projl repl))
           else if isl repl then create
           else
             bindE (liftE (tdAddrFromStr T (tdHubMa T @ ''/thread/'' @ tdIDString T dbID))) (\<lambda>addr.
             bindE (tryE (tdNewDBFromAddr T threadCtx addr managedKey
                     (opts\<lparr>doBackfillBlock := True, doCollections := dbCollectionConfigs\<rparr>))) (\<lambda>r.
               if \<not> isl r \<or> projl r = dbExistsErr \<or> projl r = logExistsErr
               then successfulThreadCreation T dbID storeKey
               else if shouldForceRestore then failE (Err (projl r))
               else create)))))))))))"

subsection \<open>What holds of them\<close>

text \<open>An effect keeps \<open>ok\<close> and what is seen through \<open>view\<close>.\<close>

definition stable :: "('s \<Rightarrow> bool) \<Rightarrow> ('s \<Rightarrow> 'v) \<Rightarrow> ('s, 'a) eff \<Rightarrow> bool" where
  "stable ok view m \<longleftrightarrow> (\<forall>s r s'. ok s \<longrightarrow> m s = (r, s') \<longrightarrow> ok s' \<and> view s' = view s)"

lemma stable_keeps: "stable ok view m \<Longrightarrow> keeps (\<lambda>s. ok s \<and> Q (view s)) m"
  unfolding stable_def keeps_def by (metis surjective_pairing)

text \<open>
  The threads services leave the key pair and the store alone, and the entries that hold thread IDs
  behave as a store's.
\<close>

definition thread_env :: "'s threadDeps \<Rightarrow> ('s \<Rightarrow> bool) \<Rightarrow> ('s \<Rightarrow> bytes \<rightharpoonup> bytes) \<Rightarrow> bool" where
  "thread_env T ok view \<longleftrightarrow>
     (\<forall>k s. ok s \<longrightarrow> hasPrefix k threadIDStoreKey \<longrightarrow> sGet (tdStore T) k s = (lookupRes (view s k), s)) \<and>
     (\<forall>k v s r s'. ok s \<longrightarrow> hasPrefix k threadIDStoreKey \<longrightarrow> sSet (tdStore T) k v s = (r, s') \<longrightarrow>
        ok s' \<and> view s' = (case r of Inl _ \<Rightarrow> view s | Inr _ \<Rightarrow> (view s)(k \<mapsto> v))) \<and>
     (\<forall>c p. stable ok view (tdGetToken T c p)) \<and> (\<forall>c. stable ok view (tdGetHubContext T c)) \<and>
     (\<forall>c i. stable ok view (tdHubGetThread T c i)) \<and>
     (\<forall>c a k p. stable ok view (tdNewDBFromAddr T c a k p)) \<and>
     (\<forall>c i p. stable ok view (tdNewDB T c i p)) \<and>
     (\<forall>c i a. stable ok view (tdAddReplicator T c i a)) \<and>
     tdV1 T < 2 ^ 64 \<and> tdRaw T < 2 ^ 64"

definition detThreadID :: "'s threadDeps \<Rightarrow> bytes \<Rightarrow> bytes \<Rightarrow> bytes" where
  "detThreadID T priv variant =
     putUvarint (tdV1 T) @ putUvarint (tdRaw T) @ tdPbkdf2 T priv (''threadID'' @ variant) 256 32"

lemma length_putUvarint: "x < 128 ^ Suc n \<Longrightarrow> length (putUvarint x) \<le> Suc n"
proof (induction n arbitrary: x)
  case (Suc n)
  then have "x div 128 < 128 ^ Suc n" by (simp add: less_mult_imp_div_less mult.commute)
  from Suc.IH [OF this] show ?case by (subst putUvarint.simps) simp
qed (simp add: putUvarint.simps)

lemma length_putUvarint64: "x < 2 ^ 64 \<Longrightarrow> length (putUvarint x) \<le> 10"
  using length_putUvarint [of x 9] by simp

lemma threadStoreKey_prefix: "hasPrefix (threadStoreKey v p) threadIDStoreKey"
  by (simp add: threadStoreKey_def threadIDStoreKey_def)

lemma putUvarint_ne [simp]: "putUvarint x \<noteq> []"
  by (subst putUvarint.simps) simp

lemma detThreadID_ne [simp]: "detThreadID T priv v \<noteq> []"
  by (simp add: detThreadID_def)

context key_holder
begin

lemma keeps_pair: "keeps (\<lambda>s. ok s \<and> Q (fr s)) (kiKeyPair K)"
proof (rule keepsI)
  fix s assume "ok s \<and> Q (fr s)"
  then show "ok (snd (kiKeyPair K s)) \<and> Q (fr (snd (kiKeyPair K s)))" using pair [of s] by auto
qed

lemma keeps_thread_key: "keeps (\<lambda>s. ok s \<and> Q (fr s)) (kiThreadKey K n)"
proof (rule keepsI)
  fix s assume "ok s \<and> Q (fr s)"
  then show "ok (snd (kiThreadKey K n s)) \<and> Q (fr (snd (kiThreadKey K n s)))"
    using thread_key [of s n] by auto
qed

lemma new_thread_id:
  assumes "tdKc T = K" "tdV1 T < 2 ^ 64" "tdRaw T < 2 ^ 64" "ok s"
  shows "\<exists>s'. NewDeterministicThreadID T v s = (Inr (detThreadID T priv v), s') \<and> ok s' \<and> fr s' = fr s"
proof -
  obtain s' where s': "kiKeyPair K s = (Inr (priv, pub), s')" "ok s'" "fr s' = fr s"
    using pair [OF assms(4)] by blast
  have "length (putUvarint (tdV1 T)) + length (putUvarint (tdRaw T)) \<le> 20"
    using length_putUvarint64 [OF assms(2)] length_putUvarint64 [OF assms(3)] by simp
  then show ?thesis
    using s' assms(1) by (simp add: NewDeterministicThreadID_def bindE_apply Let_def detThreadID_def)
qed

lemma keeps_thread_context:
  assumes "tdKc T = K" "\<And>c. stable ok fr (tdGetHubContext T c)"
    "\<And>f c p. tc = Some f \<Longrightarrow> stable ok fr (f c p)"
  shows "keeps (\<lambda>s. ok s \<and> Q (fr s)) (GetThreadContext T tc c n dbID isHub)"
  unfolding GetThreadContext_def assms(1)
  by (intro keeps_intros keeps_pair stable_keeps assms(2)) (use assms(3) in \<open>auto intro: stable_keeps\<close>)

end

text \<open>The ID stored for a variant is the deterministic one, if any.\<close>

definition storedDet :: "bytes \<Rightarrow> bytes \<Rightarrow> (bytes \<rightharpoonup> bytes) \<Rightarrow> bool" where
  "storedDet k det m \<longleftrightarrow> m k = None \<or> m k = Some det"

lemma thread_env_stable:
  assumes "thread_env T ok view"
  shows "stable ok view (tdGetToken T c p)" "stable ok view (tdGetHubContext T c)"
    "stable ok view (tdHubGetThread T c i)" "stable ok view (tdNewDBFromAddr T c a p' q)"
    "stable ok view (tdNewDB T c i q)" "stable ok view (tdAddReplicator T c i a)"
    "tdV1 T < 2 ^ 64" "tdRaw T < 2 ^ 64"
  using assms unfolding thread_env_def by blast+

context key_holder
begin

lemma keeps_env:
  assumes "thread_env T ok view" "\<And>s s'. fr s' = fr s \<Longrightarrow> view s' = view s"
  shows "keeps (\<lambda>s. ok s \<and> Q (view s)) (kiKeyPair K)"
    "keeps (\<lambda>s. ok s \<and> Q (view s)) (kiThreadKey K n)"
    "keeps (\<lambda>s. ok s \<and> Q (view s)) (tdGetToken T c p)"
    "keeps (\<lambda>s. ok s \<and> Q (view s)) (tdGetHubContext T c)"
    "keeps (\<lambda>s. ok s \<and> Q (view s)) (tdHubGetThread T c i)"
    "keeps (\<lambda>s. ok s \<and> Q (view s)) (tdNewDBFromAddr T c a p q)"
    "keeps (\<lambda>s. ok s \<and> Q (view s)) (tdNewDB T c i q)"
    "keeps (\<lambda>s. ok s \<and> Q (view s)) (tdAddReplicator T c i a)"
proof -
  note e = assms(1) [unfolded thread_env_def]
  show "keeps (\<lambda>s. ok s \<and> Q (view s)) (kiKeyPair K)"
  proof (rule keepsI)
    fix s assume "ok s \<and> Q (view s)"
    then show "ok (snd (kiKeyPair K s)) \<and> Q (view (snd (kiKeyPair K s)))"
      using pair [of s] assms(2) by (metis snd_conv)
  qed
  show "keeps (\<lambda>s. ok s \<and> Q (view s)) (kiThreadKey K n)"
  proof (rule keepsI)
    fix s assume "ok s \<and> Q (view s)"
    then show "ok (snd (kiThreadKey K n s)) \<and> Q (view (snd (kiThreadKey K n s)))"
      using thread_key [of s n] assms(2) by (metis snd_conv)
  qed
qed (rule stable_keeps [OF thread_env_stable(1) [OF assms(1)]] stable_keeps [OF thread_env_stable(2) [OF assms(1)]]
    stable_keeps [OF thread_env_stable(3) [OF assms(1)]] stable_keeps [OF thread_env_stable(4) [OF assms(1)]]
    stable_keeps [OF thread_env_stable(5) [OF assms(1)]] stable_keeps [OF thread_env_stable(6) [OF assms(1)]])+

end

lemma thread_envD:
  assumes "thread_env T ok view" "ok s" "hasPrefix k threadIDStoreKey"
  shows "sGet (tdStore T) k s = (lookupRes (view s k), s)"
    "sSet (tdStore T) k v s = (r, s') \<Longrightarrow>
       ok s' \<and> view s' = (case r of Inl _ \<Rightarrow> view s | Inr _ \<Rightarrow> (view s)(k \<mapsto> v))"
  subgoal by (rule assms(1) [unfolded thread_env_def, THEN conjunct1, rule_format, OF assms(2,3)])
  subgoal by (rule assms(1) [unfolded thread_env_def, THEN conjunct2, THEN conjunct1, THEN spec, THEN spec,
      THEN spec, THEN spec, THEN spec, THEN mp, OF assms(2), THEN mp, OF assms(3), THEN mp])
  done

lemma ensures_success:
  assumes "thread_env T ok view" "hasPrefix k threadIDStoreKey"
  shows "ensures (\<lambda>s. ok s \<and> storedDet k det (view s)) (successfulThreadCreation T det k)
    (\<lambda>x s. x = det \<and> ok s \<and> storedDet k det (view s)) (\<lambda>s. ok s \<and> storedDet k det (view s))"
proof (rule ensuresI)
  fix s x s' assume s: "ok s \<and> storedDet k det (view s)" "successfulThreadCreation T det k s = (Inr x, s')"
  obtain r w where w: "sSet (tdStore T) k det s = (r, w)" by fastforce
  show "x = det \<and> ok s' \<and> storedDet k det (view s')"
    using s(2) thread_envD(2) [OF assms(1) conjunct1 [OF s(1)] assms(2) w]
    by (cases r; cases "projl r") (auto simp: successfulThreadCreation_def bindE_apply tryE_apply w storedDet_def)
next
  fix s e s' assume s: "ok s \<and> storedDet k det (view s)" "successfulThreadCreation T det k s = (Inl e, s')"
  obtain r w where w: "sSet (tdStore T) k det s = (r, w)" by fastforce
  show "ok s' \<and> storedDet k det (view s')"
    using s thread_envD(2) [OF assms(1) conjunct1 [OF s(1)] assms(2) w]
    by (cases r; cases "projl r") (auto simp: successfulThreadCreation_def bindE_apply tryE_apply w)
qed

context key_holder
begin

lemma ensures_new_thread:
  assumes "thread_env T ok view" "\<And>s s'. fr s' = fr s \<Longrightarrow> view s' = view s" "hasPrefix k threadIDStoreKey"
  shows "ensures (\<lambda>s. ok s \<and> storedDet k det (view s)) (newReplicatedThread T c det k opts a)
    (\<lambda>x s. x = det \<and> ok s \<and> storedDet k det (view s)) (\<lambda>s. ok s \<and> storedDet k det (view s))"
proof -
  note [ensures_intros] = ensures_bind [OF ensures_try_keeps [OF keeps_env(7) [OF assms(1,2)]]]
    ensures_bind [OF ensures_try_keeps [OF keeps_env(8) [OF assms(1,2)]]] ensures_success [OF assms(1,3)]
  show ?thesis unfolding newReplicatedThread_def by (intro ensures_intros) auto
qed

lemma keeps_token_context:
  assumes "thread_env T ok view" "\<And>s s'. fr s' = fr s \<Longrightarrow> view s' = view s" "tdKc T = K"
  shows "keeps (\<lambda>s. ok s \<and> Q (view s)) (GetThreadContext T (Some (tdGetToken T)) c n d False)"
  unfolding GetThreadContext_def assms(3)
  by (intro keeps_intros keeps_env [OF assms(1,2)]) (auto intro: keeps_env(3) [OF assms(1,2)])

lemma ensures_det:
  assumes "thread_env T ok view" "\<And>s s'. fr s' = fr s \<Longrightarrow> view s' = view s" "tdKc T = K"
    "k = threadStoreKey v pub" "det = detThreadID T priv v"
  shows "ensures (\<lambda>s. ok s \<and> storedDet k det (view s))
    (FindOrCreateDeterministicThread T c v n force cfgs)
    (\<lambda>x s. (x = det \<or> tdCast T det = Inr x) \<and> ok s \<and> storedDet k det (view s))
    (\<lambda>s. ok s \<and> storedDet k det (view s))"
proof -
  let ?I = "\<lambda>s. ok s \<and> storedDet k det (view s)"
  have pre: "hasPrefix k threadIDStoreKey" using assms(4) threadStoreKey_prefix by simp
  have key: "ensures ?I (getDeterministicthreadStoreKey T v) (\<lambda>x s. x = k \<and> ?I s) ?I"
    using public by (auto simp: getDeterministicthreadStoreKey_def assms(3,4) bindE_eq_Inr bindE_eq_Inl
        intro!: ensuresI)
  have get: "ensures ?I (tryE (sGet (tdStore T) k))
      (\<lambda>x s. (\<not> isl x \<longrightarrow> projr x = det) \<and> ?I s) ?I"
  proof -
    have g: "sGet (tdStore T) k s = (lookupRes (view s k), s)" if "?I s" for s
      by (rule thread_envD(1) [OF assms(1) conjunct1 [OF that] pre])
    show ?thesis
      using g by (auto simp: tryE_apply lookupRes_def errKeyNotFound_def storedDet_def intro!: ensuresI)
  qed
  have new: "ensures ?I (NewDeterministicThreadID T v) (\<lambda>x s. x = det \<and> ?I s) ?I"
  proof -
    have g: "\<exists>s1. NewDeterministicThreadID T v s = (Inr det, s1) \<and> ?I s1" if "?I s" for s
      using new_thread_id [OF assms(3) thread_env_stable(7,8) [OF assms(1)] conjunct1 [OF that], of v]
        assms(2,5) that by metis
    show ?thesis by (rule ensuresI) (use g in fastforce)+
  qed
  note ks = keeps_env [OF assms(1,2), where Q = "storedDet k det"]
  note ctx = keeps_token_context [OF assms(1,2,3), where Q = "storedDet k det"]
  have fin: "ensures ?I (successfulThreadCreation T det k)
      (\<lambda>x s. (x = det \<or> tdCast T det = Inr x) \<and> ?I s) ?I"
    using ensures_success [OF assms(1) pre] by (rule ensures_weaken) auto
  have create: "ensures ?I (newReplicatedThread T c' det k opts a)
      (\<lambda>x s. (x = det \<or> tdCast T det = Inr x) \<and> ?I s) ?I" for c' opts a
    using ensures_new_thread [OF assms(1,2) pre] by (rule ensures_weaken) auto
  show ?thesis
    unfolding FindOrCreateDeterministicThread_def assms(3) Let_def
    by (rule ensures_bind_eq [OF key] ensures_bind [OF ensures_keeps [OF ks(1)]] ensures_case_prod
        ensures_bind [OF get] ensures_pure ensures_if ensures_lift ensures_bind_eq [OF new]
        ensures_bind [OF ensures_keeps [OF ks(2)]] ensures_bind [OF ensures_keeps [OF ctx]]
        ensures_bind [OF ensures_keeps [OF keeps_lift]] ensures_bind [OF ensures_keeps [OF ks(4)]]
        ensures_bind [OF ensures_try_keeps [OF ks(5)]] ensures_bind [OF ensures_try_keeps [OF ks(6)]]
        ensures_fail fin create | force)+
qed

end

lemma find_stored_thread:
  assumes "key_holder K ok fr priv pub tkey" "thread_env T ok view" "tdKc T = K"
    and "\<And>s s'. fr s' = fr s \<Longrightarrow> view s' = view s"
    and "ok s" "view s (threadStoreKey v pub) = Some i" "i \<noteq> []"
  shows "\<exists>s'. FindOrCreateDeterministicThread T c v n force cfgs s = (tdCast T i, s') \<and> ok s' \<and>
    view s' = view s"
proof -
  obtain s1 where s1: "kiKeyPair K s = (Inr (priv, pub), s1)" "ok s1" "fr s1 = fr s"
    using key_holder.pair [OF assms(1,5)] by blast
  have "view s1 = view s" using s1(3) by (rule assms(4))
  then show ?thesis
    using s1 key_holder.public [OF assms(1,5)] assms(6,7)
      thread_envD(1) [OF assms(2) s1(2) threadStoreKey_prefix, of v pub]
    by (simp add: FindOrCreateDeterministicThread_def getDeterministicthreadStoreKey_def assms(3)
        bindE_apply tryE_apply)
qed

subsection \<open>Properties\<close>

text \<open>
  C18. The ID of a deterministic thread is a function of the private key and the variant alone: when
  none is stored, whatever the hub, the threads daemon and the store answer, a call that succeeds
  returns that ID (so another device with the same key gets the same thread), every later call
  returns it again, and once it is stored a call cannot fail.  The ID survives being written as text.
\<close>

theorem thread_id_deterministic:
  assumes "key_holder K ok view priv pub tkey" "thread_env T ok view" "tdKc T = K"
    and "tdCast T (detThreadID T priv v) = Inr (detThreadID T priv v)"
    and "ok s" "view s (''thread_id_'' @ v @ pub) = None"
    and "FindOrCreateDeterministicThread T c v n force cfgs s = (Inr i, s')"
  shows "i = putUvarint (tdV1 T) @ putUvarint (tdRaw T) @ tdPbkdf2 T priv (''threadID'' @ v) 256 32 \<and>
    (\<forall>c' n' force' cfgs' i' s''.
       FindOrCreateDeterministicThread T c' v n' force' cfgs' s' = (Inr i', s'') \<longrightarrow> i' = i) \<and>
    (view s' (''thread_id_'' @ v @ pub) \<noteq> None \<longrightarrow>
       (\<forall>c' n' force' cfgs'. fst (FindOrCreateDeterministicThread T c' v n' force' cfgs' s') = Inr i)) \<and>
    ParseDbIDFromString (tdCast T) (CastDbIDToString i) = Inr i"
proof -
  let ?k = "threadStoreKey v pub" and ?d = "detThreadID T priv v"
  have k: "''thread_id_'' @ v @ pub = ?k" by (simp add: threadStoreKey_def threadIDStoreKey_def)
  note y = key_holder.ensures_det [OF assms(1,2) _ assms(3) refl refl, of v, THEN ensuresD]
  have "ok s \<and> storedDet ?k ?d (view s)" using assms(5) assms(6) [unfolded k] by (simp add: storedDet_def)
  from y [OF _ this assms(7)] have r: "i = ?d" "ok s' \<and> storedDet ?k ?d (view s')"
    using assms(4) by auto
  have later: "i' = i" if "FindOrCreateDeterministicThread T c' v n' force' cfgs' s' = (Inr i', s'')"
    for c' n' force' cfgs' i' s''
    using y [OF _ r(2) that] r(1) assms(4) by auto
  have stored: "fst (FindOrCreateDeterministicThread T c' v n' force' cfgs' s') = Inr i"
    if "view s' ?k \<noteq> None" for c' n' force' cfgs'
  proof -
    have "view s' ?k = Some ?d" using that r(2) by (auto simp: storedDet_def)
    from find_stored_thread [OF assms(1-3) _ conjunct1 [OF r(2)] this detThreadID_ne, of c' n' force' cfgs']
    show ?thesis using r(1) assms(4) by auto
  qed
  show ?thesis
    unfolding k using r(1) later stored assms(4) ParseDbID_CastDbID [of "tdCast T" i]
    by (auto simp: detThreadID_def)
qed

text \<open>Services that answer at once, over the keychain in memory.\<close>

definition memStoreK :: "kcMem kcState storeI" where
  "memStoreK =
     \<lparr> sGet = \<lambda>k. envE (sGet memKcStore k), sSet = \<lambda>k v. envE (sSet memKcStore k v),
       sRemove = \<lambda>k. envE (sRemove memKcStore k), sDropAll = envE (sDropAll memKcStore),
       sKeysWithPrefix = \<lambda>p. envE (sKeysWithPrefix memKcStore p) \<rparr>"

definition memThreads :: "kcMem kcState threadDeps" where
  "memThreads =
     \<lparr> tdKc = keychainOf memKc, tdStore = memStoreK, tdPbkdf2 = klPbkdf2 toyLib, tdV1 = 1,
       tdRaw = 85, tdCast = Inr, tdIDString = CastDbIDToString, tdPubBytes = Inr,
       tdHubMa = ''/dns4/hub'', tdAddrFromStr = Inr, tdGetToken = \<lambda>_ p. retE p,
       tdGetHubContext = retE, tdHubGetThread = \<lambda>_ _. failE (Err ''not found''),
       tdNewDBFromAddr = \<lambda>_ _ _ _. retE (), tdNewDB = \<lambda>_ _ _. retE (),
       tdAddReplicator = \<lambda>_ _ _. retE () \<rparr>"

definition heldPriv :: bytes where
  "heldPriv = replicate 32 (CHR ''r'')"

abbreviation heldOk :: "kcMem kcState \<Rightarrow> bool" where
  "heldOk \<equiv> keyStored memKc memRing (\<lambda>_. True) fst snd heldPriv"

abbreviation heldView :: "kcMem kcState \<Rightarrow> bytes \<rightharpoonup> bytes" where
  "heldView \<equiv> \<lambda>s. snd (kcEnv s)"

lemma held_key: "key_holder (keychainOf memKc) heldOk heldView heldPriv heldPriv (managedThreadKey toyLib heldPriv)"
  using stored_key.key_holder_axioms [of memKc memRing "\<lambda>_. True" fst snd heldPriv snd]
  by (simp add: memKc_def toyLib_def heldPriv_def)

lemma kcHeld_ok: "heldOk kcHeld"
proof -
  have "fst (kcEnv kcHeld) PrivateKeyStoreKey = Some \<lparr> riKey = PrivateKeyStoreKey,
      riData = hexEncode heldPriv @ privKeyMnemonicSeparator @ [], riLabel = ''Space App'' \<rparr>"
    by code_simp
  moreover have "snd (kcEnv kcHeld) PublicKeyStoreKey = Some (klPublic (kdLib memKc) heldPriv)" by code_simp
  moreover have "kcPriv kcHeld = Some heldPriv" by code_simp
  moreover have "klUnmarshalPriv (kdLib memKc) heldPriv = Inr heldPriv" by code_simp
  ultimately show ?thesis using memKc_ok by (auto simp: keyStored_def holdsKey_def)
qed

lemma memStoreK_set:
  assumes "heldOk s" "hasPrefix k threadIDStoreKey"
  shows "heldOk (s\<lparr>kcEnv := (fst (kcEnv s), (snd (kcEnv s))(k \<mapsto> v))\<rparr>)"
proof -
  have "k \<noteq> PublicKeyStoreKey"
    using assms(2) by (auto simp: threadIDStoreKey_def PublicKeyStoreKey_def)
  then show ?thesis using assms(1) by (auto simp: keyStored_def holdsKey_def)
qed

lemma memThreads_env: "thread_env memThreads heldOk heldView"
  unfolding thread_env_def
  using memStoreK_set
  by (auto simp: memThreads_def memStoreK_def memKcStore_def envE_apply stable_def split_beta)

lemma memThreads_simps [simp]:
  "tdKc memThreads = keychainOf memKc" "tdCast memThreads d = Inr d" "tdV1 memThreads = 1"
  "tdRaw memThreads = 85" "tdPubBytes memThreads p = Inr p" "tdAddrFromStr memThreads a = Inr a"
  "tdGetToken memThreads c p s = (Inr p, s)" "tdGetHubContext memThreads c s = (Inr c, s)"
  "tdHubGetThread memThreads c d s = (Inl (Err ''not found''), s)"
  "tdNewDB memThreads c d q s = (Inr (), s)" "tdAddReplicator memThreads c d a s = (Inr (), s)"
  "sGet (tdStore memThreads) k s = (lookupRes (heldView s k), s)"
  "sSet (tdStore memThreads) k v s = (Inr (), s\<lparr>kcEnv := (fst (kcEnv s), (snd (kcEnv s))(k \<mapsto> v))\<rparr>)"
  by (simp_all add: memThreads_def memStoreK_def memKcStore_def envE_apply split_beta)

lemma memThreads_creates:
  assumes "heldOk s" "heldView s (threadStoreKey v heldPriv) = None"
  shows "\<exists>s'. FindOrCreateDeterministicThread memThreads c v n False cfgs s =
      (Inr (detThreadID memThreads heldPriv v), s') \<and>
    heldView s' (threadStoreKey v heldPriv) \<noteq> None"
proof -
  let ?k = "threadStoreKey v heldPriv" and ?d = "detThreadID memThreads heldPriv v"
  note pair = key_holder.pair [OF held_key] and key = key_holder.thread_key [OF held_key]
  obtain s1 where s1: "kiKeyPair (keychainOf memKc) s = (Inr (heldPriv, heldPriv), s1)" "heldOk s1"
    "heldView s1 = heldView s" using pair [OF assms(1)] by blast
  obtain s2 where s2: "NewDeterministicThreadID memThreads v s1 = (Inr ?d, s2)" "heldOk s2"
    "heldView s2 = heldView s"
    using key_holder.new_thread_id [OF held_key _ _ _ s1(2), of memThreads v] s1(3) by auto
  have "\<exists>x. managedThreadKey toyLib heldPriv n = Inr x" by (simp add: managedThreadKey_def toyLib_def)
  then obtain x s3 where s3: "kiThreadKey (keychainOf memKc) n s2 = (Inr x, s3)" "heldOk s3"
    using key [OF s2(2), of n] by auto
  obtain s4 where s4: "kiKeyPair (keychainOf memKc) s3 = (Inr (heldPriv, heldPriv), s4)"
    using pair [OF s3(2)] by blast
  show ?thesis
    using assms s1 s2 s3 s4 key_holder.public [OF held_key assms(1)]
    by (simp add: FindOrCreateDeterministicThread_def getDeterministicthreadStoreKey_def bindE_apply
        tryE_apply errKeyNotFound_def GetThreadContext_def newReplicatedThread_def
        successfulThreadCreation_def Let_def)
qed

theorem thread_id_deterministic_witness:
  "\<exists>s'. FindOrCreateDeterministicThread memThreads background ''metathread'' ''metathreadV1'' False []
      kcHeld = (Inr (CHR 0x01 # CHR 0x55 # heldPriv), s') \<and>
    fst (FindOrCreateDeterministicThread memThreads background ''metathread'' ''metathreadV1'' True []
      s') = Inr (CHR 0x01 # CHR 0x55 # heldPriv)"
proof -
  let ?k = "threadStoreKey ''metathread'' heldPriv"
  have k: "?k = ''thread_id_'' @ ''metathread'' @ heldPriv"
    by (simp add: threadStoreKey_def threadIDStoreKey_def)
  have n: "heldView kcHeld ?k = None" by code_simp
  obtain s' where r: "FindOrCreateDeterministicThread memThreads background ''metathread''
      ''metathreadV1'' False [] kcHeld = (Inr (detThreadID memThreads heldPriv ''metathread''), s')"
    and s': "heldView s' ?k \<noteq> None"
    using memThreads_creates [OF kcHeld_ok n] by blast
  have "detThreadID memThreads heldPriv ''metathread'' = CHR 0x01 # CHR 0x55 # heldPriv" by code_simp
  moreover note thread_id_deterministic [OF held_key memThreads_env _ _ kcHeld_ok n [unfolded k] r]
  ultimately show ?thesis using r s' [unfolded k] by auto
qed

end
