(* ===== verification/Vault.thy ===== *)
theory Vault
  imports Threads
begin

text \<open>
  The vault (\<open>core/vault/vault.go\<close>) and the backup file (\<open>core/backup/backup.go\<close>): the key pair of a
  user, encrypted with AES-GCM, kept by the vault service or in a local file.

  GCM, PBKDF2, the random source, the HTTP client and the files are parameters.
\<close>

subsection \<open>AES-GCM\<close>

text \<open>\<open>gcNew\<close> stands for \<open>aes.NewCipher\<close> and \<open>cipher.NewGCM\<close> with a key.\<close>

record gcmLib =
  gcNew :: "bytes \<Rightarrow> err + unit"
  gcNonceSize :: nat
  gcSeal :: "bytes \<Rightarrow> bytes \<Rightarrow> bytes \<Rightarrow> bytes"
  gcOpen :: "bytes \<Rightarrow> bytes \<Rightarrow> bytes \<Rightarrow> err + bytes"

definition gcm_ok :: "gcmLib \<Rightarrow> bool" where
  "gcm_ok G \<longleftrightarrow>
     (\<forall>k. length k \<in> {16, 24, 32} \<longrightarrow> gcNew G k = Inr ()) \<and>
     (\<forall>k n d. length n = gcNonceSize G \<longrightarrow> gcOpen G k n (gcSeal G k n d) = Inr d)"

definition vault_encrypt :: "gcmLib \<Rightarrow> (nat \<Rightarrow> ('s, bytes) eff) \<Rightarrow> bytes \<Rightarrow> bytes \<Rightarrow> ('s, bytes) eff" where
  "vault_encrypt G rand data key =
     bindE (liftE (gcNew G key)) (\<lambda>_.
     bindE (rand (gcNonceSize G)) (\<lambda>nonce. retE (nonce @ gcSeal G key nonce data)))"

definition vault_decrypt :: "gcmLib \<Rightarrow> bytes \<Rightarrow> bytes \<Rightarrow> err + bytes" where
  "vault_decrypt G ciphertext key =
     bindS (gcNew G key) (\<lambda>_.
       if length ciphertext < gcNonceSize G then Inl (Err ''malformed ciphertext'')
       else gcOpen G key (take (gcNonceSize G) ciphertext) (drop (gcNonceSize G) ciphertext))"

definition rand_ok :: "(nat \<Rightarrow> ('s, bytes) eff) \<Rightarrow> bool" where
  "rand_ok rand \<longleftrightarrow> (\<forall>n s x s'. rand n s = (Inr x, s') \<longrightarrow> length x = n)"

lemma decrypt_encrypt_gcm:
  assumes "gcm_ok G" "rand_ok rand" "vault_encrypt G rand data key s = (Inr c, s')"
  shows "vault_decrypt G c key = Inr data"
proof -
  obtain nonce s1 where n: "rand (gcNonceSize G) s = (Inr nonce, s1)" "gcNew G key = Inr ()"
    "c = nonce @ gcSeal G key nonce data"
    using assms(3) by (auto simp: vault_encrypt_def bindE_eq_Inr)
  have "length nonce = gcNonceSize G" using assms(2) n(1) unfolding rand_ok_def by blast
  then show ?thesis using n assms(1) by (simp add: vault_decrypt_def gcm_ok_def)
qed

subsection \<open>JSON of requests and items\<close>

record vaultItem =
  vaItemType :: bytes
  vaValue :: bytes

definition PrivateKeyWithMnemonic :: bytes where
  "PrivateKeyWithMnemonic = ''PrivateKeyWithMnemonic''"

definition unmarshalObj :: "bytes \<Rightarrow> err + (bytes \<times> jvalue) list" where
  "unmarshalObj data = (case jparse data of None \<Rightarrow> Inl (Err ''json: invalid syntax'') | Some v \<Rightarrow> jGetObj v)"

definition itemJson :: "vaultItem \<Rightarrow> jvalue" where
  "itemJson i = JObj [(''ItemType'', JStr (vaItemType i)), (''Value'', JStr (vaValue i))]"

definition unmarshalItem :: "jvalue \<Rightarrow> err + vaultItem" where
  "unmarshalItem v =
     bindS (jGetObj v) (\<lambda>kvs.
     bindS (jGetStr (jField ''ItemType'' kvs)) (\<lambda>t.
     bindS (jGetStr (jField ''Value'' kvs)) (\<lambda>w. Inr \<lparr> vaItemType = t, vaValue = w \<rparr>)))"

definition marshalItems :: "vaultItem list \<Rightarrow> bytes" where
  "marshalItems items = jprint (JArr (map itemJson items))"

definition unmarshalItems :: "bytes \<Rightarrow> err + vaultItem list" where
  "unmarshalItems data =
     (case jparse data of None \<Rightarrow> Inl (Err ''json: invalid syntax'') | Some v \<Rightarrow> jGetArr unmarshalItem v)"

definition storeVaultRequest :: "bytes \<Rightarrow> bytes \<Rightarrow> bytes \<Rightarrow> bytes" where
  "storeVaultRequest vlt vsk typ =
     jprint (JObj [(''vault'', JStr vlt), (''vsk'', JStr vsk), (''type'', JStr typ)])"

definition retrieveVaultRequest :: "bytes \<Rightarrow> bytes \<Rightarrow> bytes" where
  "retrieveVaultRequest vsk typ = jprint (JObj [(''vsk'', JStr vsk), (''type'', JStr typ)])"

definition retrieveVaultResponse :: "bytes \<Rightarrow> err + bytes" where
  "retrieveVaultResponse body = bindS (unmarshalObj body) (\<lambda>kvs. jGetStr (jField ''encryptedVault'' kvs))"

definition itemOk :: "vaultItem \<Rightarrow> bool" where
  "itemOk i \<longleftrightarrow> ascii (vaItemType i) \<and> ascii (vaValue i)"

lemma json_names:
  "equalFold ''privateKey'' ''privateKey''" "equalFold ''encryptedVault'' ''encryptedVault''"
  "equalFold ''ItemType'' ''ItemType''" "\<not> equalFold ''ItemType'' ''Value''"
  "\<not> equalFold ''Value'' ''ItemType''" "equalFold ''Value'' ''Value''"
  by code_simp+

lemma unmarshal_itemJson: "unmarshalItem (itemJson i) = Inr i"
  by (simp add: unmarshalItem_def itemJson_def jGetObj_def jField_def json_names jGetStr_def)

lemma unmarshal_marshal_items: "list_all itemOk items \<Longrightarrow> unmarshalItems (marshalItems items) = Inr items"
proof -
  assume "list_all itemOk items"
  then have "jOk (JArr (map itemJson items))"
    by (auto simp: list_all_iff itemOk_def itemJson_def)
  then have "jparse (marshalItems items) = Some (JArr (map itemJson items))"
    unfolding marshalItems_def by (rule jparse_jprint)
  moreover have "mapSum unmarshalItem (map itemJson items) = Inr (map (\<lambda>x. x) items)"
    by (rule mapSum_map) (simp add: unmarshal_itemJson)
  ultimately show ?thesis by (simp add: unmarshalItems_def jGetArr_def)
qed

subsection \<open>vault.go\<close>

text \<open>\<open>vdPost\<close> sends a request with its headers and returns the status and the body, whose reading may fail.\<close>

record 's vaultDeps =
  vdVaultAPIURL :: bytes
  vdVaultSaltSecret :: bytes
  vdGcm :: gcmLib
  vdPbkdf2 :: "bytes \<Rightarrow> bytes \<Rightarrow> nat \<Rightarrow> nat \<Rightarrow> bytes"
  vdRand :: "nat \<Rightarrow> ('s, bytes) eff"
  vdValidURL :: "bytes \<Rightarrow> bool"
  vdPost :: "bytes \<Rightarrow> (bytes \<times> bytes) list \<Rightarrow> bytes \<Rightarrow> ('s, int \<times> (err + bytes)) eff"

record storedVault =
  svVault :: bytes
  svVsk :: bytes

definition VkVersion1 :: bytes where "VkVersion1 = ''V1''"

definition vaultKeyLength :: nat where "vaultKeyLength = 32"

definition computeVk :: "'s vaultDeps \<Rightarrow> bytes \<Rightarrow> bytes \<Rightarrow> bytes \<Rightarrow> bytes" where
  "computeVk V uuid pass version =
     vdPbkdf2 V pass (version @ vdVaultSaltSecret V @ uuid) 100000 vaultKeyLength"

definition computeVsk :: "'s vaultDeps \<Rightarrow> bytes \<Rightarrow> bytes \<Rightarrow> bytes \<Rightarrow> bytes" where
  "computeVsk V vk pass version =
     vdPbkdf2 V vk (version @ vdVaultSaltSecret V @ pass) 100000 vaultKeyLength"

definition parseAPIResponse :: "int \<times> (err + bytes) \<Rightarrow> err + bytes" where
  "parseAPIResponse resp =
     bindS (snd resp) (\<lambda>body.
       if fst resp < 200 \<or> fst resp \<ge> 400 then
         bindS (unmarshalObj body) (\<lambda>kvs.
         bindS (jGetStr (jField ''message'' kvs)) (\<lambda>message.
           if message \<noteq> [] then Inl (Err message) else Inl (Err ''Unexpected API error'')))
       else Inr body)"

text \<open>The error of \<open>http.NewRequest\<close> is overwritten, so that an invalid URL is a nil request.\<close>

definition vault_Store ::
  "'s vaultDeps \<Rightarrow> bytes \<Rightarrow> bytes \<Rightarrow> keyBackupType \<Rightarrow> bytes \<Rightarrow> vaultItem list \<Rightarrow> ('s, storedVault) eff" where
  "vault_Store V uuid passphrase backupType apiToken items =
     (let vf = marshalItems items;
          vk = computeVk V uuid passphrase VkVersion1 in
      bindE (vault_encrypt (vdGcm V) (vdRand V) vf vk) (\<lambda>encVf.
        let vsk = computeVsk V vk passphrase VkVersion1;
            vault64 = b64EncodeRaw stdAlphabet encVf;
            vsk64 = b64EncodeRaw stdAlphabet vsk;
            reqJSON = storeVaultRequest vault64 vsk64 (keyBackupType_String backupType);
            url = vdVaultAPIURL V @ ''/vaults'' in
        if \<not> vdValidURL V url then failE (Panic ''nil pointer dereference'')
        else
          bindE (vdPost V url [(''Authorization'', apiToken)] reqJSON) (\<lambda>resp.
          bindE (liftE (parseAPIResponse resp)) (\<lambda>_.
            retE \<lparr> svVault = vault64, svVsk = vsk64 \<rparr>))))"

definition vault_Retrieve ::
  "'s vaultDeps \<Rightarrow> bytes \<Rightarrow> bytes \<Rightarrow> keyBackupType \<Rightarrow> ('s, vaultItem list) eff" where
  "vault_Retrieve V uuid passphrase backupType =
     (let vk = computeVk V uuid passphrase VkVersion1;
          vsk = computeVsk V vk passphrase VkVersion1;
          reqJSON = retrieveVaultRequest (b64EncodeRaw stdAlphabet vsk) (keyBackupType_String backupType);
          url = vdVaultAPIURL V @ ''/vaults/'' @ uuid in
      bindE (if vdValidURL V url then vdPost V url [(''Content-Type'', ''application/json'')] reqJSON
             else failE (Err ''invalid URL'')) (\<lambda>resp.
      bindE (liftE (parseAPIResponse resp)) (\<lambda>body.
      bindE (liftE (retrieveVaultResponse body)) (\<lambda>encVfBase64.
      bindE (liftE (b64DecodeRaw stdAlphabet encVfBase64)) (\<lambda>encVf.
      bindE (liftE (vault_decrypt (vdGcm V) encVf vk)) (\<lambda>vf.
        liftE (unmarshalItems vf)))))))"

subsection \<open>backup.go\<close>

record 's backupDeps =
  bkGcm :: gcmLib
  bkRand :: "nat \<Rightarrow> ('s, bytes) eff"
  bkWriteFile :: "bytes \<Rightarrow> bytes \<Rightarrow> ('s, unit) eff"
  bkReadFile :: "bytes \<Rightarrow> ('s, bytes) eff"

definition backup_key :: bytes where
  "backup_key = replicate 16 (CHR 0xBC)"

definition obfuscate :: "'s backupDeps \<Rightarrow> bytes \<Rightarrow> ('s, bytes) eff" where
  "obfuscate B data =
     bindE (liftE (gcNew (bkGcm B) backup_key)) (\<lambda>_.
     bindE (bkRand B (gcNonceSize (bkGcm B))) (\<lambda>nonce.
       retE (nonce @ gcSeal (bkGcm B) backup_key nonce data)))"

definition deobfuscate :: "'s backupDeps \<Rightarrow> bytes \<Rightarrow> err + bytes" where
  "deobfuscate B ciphertext =
     bindS (gcNew (bkGcm B) backup_key) (\<lambda>_.
       if length ciphertext < gcNonceSize (bkGcm B) then Inl (Err ''malformed ciphertext'')
       else gcOpen (bkGcm B) backup_key (take (gcNonceSize (bkGcm B)) ciphertext)
              (drop (gcNonceSize (bkGcm B)) ciphertext))"

text \<open>A backup is its private key.\<close>

definition backupJson :: "bytes \<Rightarrow> bytes" where
  "backupJson privateKey = jprint (JObj [(''privateKey'', JStr privateKey)])"

definition MarshalBackup :: "'s backupDeps \<Rightarrow> bytes \<Rightarrow> bytes \<Rightarrow> ('s, unit) eff" where
  "MarshalBackup B path privateKey =
     bindE (obfuscate B (backupJson privateKey)) (\<lambda>obfuscatedBackup. bkWriteFile B path obfuscatedBackup)"

definition UnmarshalBackup :: "'s backupDeps \<Rightarrow> bytes \<Rightarrow> ('s, bytes) eff" where
  "UnmarshalBackup B path =
     bindE (bkReadFile B path) (\<lambda>obfuscatedBackup.
     bindE (liftE (deobfuscate B obfuscatedBackup)) (\<lambda>jsonData.
       liftE (bindS (unmarshalObj jsonData) (\<lambda>kvs. jGetStr (jField ''privateKey'' kvs)))))"

lemma deobfuscate_obfuscate:
  assumes "gcm_ok (bkGcm B)" "rand_ok (bkRand B)" "obfuscate B data s = (Inr c, s')"
  shows "deobfuscate B c = Inr data"
  using decrypt_encrypt_gcm [OF assms(1,2), of data backup_key s c s'] assms(3)
  by (simp add: obfuscate_def deobfuscate_def vault_encrypt_def vault_decrypt_def)

lemma unmarshal_backupJson:
  assumes "ascii p"
  shows "bindS (unmarshalObj (backupJson p)) (\<lambda>kvs. jGetStr (jField ''privateKey'' kvs)) = Inr p"
proof -
  have "jparse (backupJson p) = Some (JObj [(''privateKey'', JStr p)])"
    unfolding backupJson_def using assms by (intro jparse_jprint) simp
  then show ?thesis by (simp add: unmarshalObj_def jGetObj_def jField_def json_names jGetStr_def)
qed

subsection \<open>The vault service\<close>

text \<open>
  What the code relies on of the service: a vault that was stored for a service key and a type is
  what a later retrieval with them returns.  \<open>vaults\<close> is what the service holds.
\<close>

definition vault_service :: "'s vaultDeps \<Rightarrow> ('s \<Rightarrow> bool) \<Rightarrow> ('s \<Rightarrow> bytes \<times> bytes \<rightharpoonup> bytes) \<Rightarrow> bool" where
  "vault_service V ok vaults \<longleftrightarrow>
     (\<forall>h vlt vsk typ s status body s'. ok s \<and> ascii vlt \<and> ascii vsk \<and> ascii typ \<longrightarrow>
        vdPost V (vdVaultAPIURL V @ ''/vaults'') h (storeVaultRequest vlt vsk typ) s = (Inr (status, body), s') \<longrightarrow>
        200 \<le> status \<longrightarrow> status < 400 \<longrightarrow> vaults s' = (vaults s)((vsk, typ) \<mapsto> vlt)) \<and>
     (\<forall>uuid h vsk typ s status body s'. ok s \<and> ascii vsk \<and> ascii typ \<longrightarrow>
        vdPost V (vdVaultAPIURL V @ ''/vaults/'' @ uuid) h (retrieveVaultRequest vsk typ) s = (Inr (status, Inr body), s') \<longrightarrow>
        200 \<le> status \<longrightarrow> status < 400 \<longrightarrow>
        (\<exists>vlt. vaults s (vsk, typ) = Some vlt \<and> body = jprint (JObj [(''encryptedVault'', JStr vlt)]))) \<and>
     (\<forall>n. keeps ok (vdRand V n)) \<and> (\<forall>n s. vaults (snd (vdRand V n s)) = vaults s)"

lemma ascii_b64Raw: "ascii (b64EncodeRaw stdAlphabet bs)"
proof -
  have "\<forall>c \<in> set stdAlphabet. code_of c < 128" by code_simp
  then show ?thesis using set_b64EncodeRaw [OF std_url_alphabet(1), of bs] by (auto simp: ascii_def list_all_iff)
qed

lemma ascii_natStr: "ascii (natStr n)"
proof -
  have "code_of c < 128" if "c \<in> set (natStr n)" for c
    using natStr_digits [OF that] by (auto simp: digitC_def)
  then show ?thesis by (auto simp: ascii_def list_all_iff)
qed

lemma ascii_backupType: "ascii (keyBackupType_String typ)"
  by (simp add: keyBackupType_String_def formatInt_def ascii_natStr)

lemma retrieveVaultResponse_ok:
  assumes "ascii v"
  shows "retrieveVaultResponse (jprint (JObj [(''encryptedVault'', JStr v)])) = Inr v"
proof -
  have "jparse (jprint (JObj [(''encryptedVault'', JStr v)])) = Some (JObj [(''encryptedVault'', JStr v)])"
    using assms by (intro jparse_jprint) simp
  then show ?thesis
    by (simp add: retrieveVaultResponse_def unmarshalObj_def jGetObj_def jField_def json_names jGetStr_def)
qed

lemma parseAPIResponse_Inr:
  "parseAPIResponse (status, body) = Inr b \<Longrightarrow> body = Inr b \<and> 200 \<le> status \<and> status < 400"
  by (cases body) (auto simp: parseAPIResponse_def bindS_def split: if_splits sum.splits)

text \<open>What the service holds after \<open>Store\<close>, and what \<open>Retrieve\<close> makes of it.\<close>

definition vaultHolds :: "'s vaultDeps \<Rightarrow> (bytes \<times> bytes \<rightharpoonup> bytes) \<Rightarrow> bytes \<Rightarrow> bytes \<Rightarrow> keyBackupType \<Rightarrow>
    vaultItem list \<Rightarrow> bool" where
  "vaultHolds V vs uuid pass typ items \<longleftrightarrow>
     (let vk = computeVk V uuid pass VkVersion1;
          vsk = b64EncodeRaw stdAlphabet (computeVsk V vk pass VkVersion1) in
      \<exists>c. vs (vsk, keyBackupType_String typ) = Some (b64EncodeRaw stdAlphabet c) \<and>
        vault_decrypt (vdGcm V) c vk = Inr (marshalItems items))"

lemma Store_holds:
  assumes "gcm_ok (vdGcm V)" "rand_ok (vdRand V)" "vault_service V ok vaults" "ok s"
    and "vault_Store V uuid pass typ tok items s = (Inr sv, s')"
  shows "vaultHolds V (vaults s') uuid pass typ items"
proof -
  let ?vk = "computeVk V uuid pass VkVersion1"
  let ?vsk = "b64EncodeRaw stdAlphabet (computeVsk V ?vk pass VkVersion1)"
  obtain c s1 status body s2 b where c: "vault_encrypt (vdGcm V) (vdRand V) (marshalItems items) ?vk s = (Inr c, s1)"
    and p: "vdPost V (vdVaultAPIURL V @ ''/vaults'') [(''Authorization'', tok)]
        (storeVaultRequest (b64EncodeRaw stdAlphabet c) ?vsk (keyBackupType_String typ)) s1 = (Inr (status, body), s2)"
    and b: "parseAPIResponse (status, body) = Inr b" "s' = s2"
    using assms(5) by (auto simp: vault_Store_def Let_def bindE_eq_Inr split: if_splits)
  have "ok s1"
    using c assms(3,4) by (auto simp: vault_encrypt_def bindE_eq_Inr vault_service_def dest: keepsD_eq)
  from assms(3) [unfolded vault_service_def, THEN conjunct1, THEN spec, THEN spec, THEN spec, THEN spec,
      THEN spec, THEN spec, THEN spec, THEN spec, THEN mp,
      OF conjI [OF this conjI [OF ascii_b64Raw conjI [OF ascii_b64Raw ascii_backupType]]], THEN mp, OF p]
    parseAPIResponse_Inr [OF b(1)]
  have "vaults s2 = (vaults s1)((?vsk, keyBackupType_String typ) \<mapsto> b64EncodeRaw stdAlphabet c)" by simp
  then show ?thesis
    using decrypt_encrypt_gcm [OF assms(1,2) c] b(2) by (auto simp: vaultHolds_def Let_def)
qed

lemma Retrieve_holds:
  assumes "vault_service V ok vaults" "ok s" "vaultHolds V (vaults s) uuid pass typ items"
    and "list_all itemOk items" "vault_Retrieve V uuid pass typ s = (Inr items', s')"
  shows "items' = items"
proof -
  let ?vk = "computeVk V uuid pass VkVersion1"
  let ?vsk = "b64EncodeRaw stdAlphabet (computeVsk V ?vk pass VkVersion1)"
  obtain c where c: "vaults s (?vsk, keyBackupType_String typ) = Some (b64EncodeRaw stdAlphabet c)"
    "vault_decrypt (vdGcm V) c ?vk = Inr (marshalItems items)"
    using assms(3) by (auto simp: vaultHolds_def Let_def)
  obtain status rb s1 body v e vf where p: "vdPost V (vdVaultAPIURL V @ ''/vaults/'' @ uuid)
        [(''Content-Type'', ''application/json'')] (retrieveVaultRequest ?vsk (keyBackupType_String typ)) s =
        (Inr (status, rb), s1)"
    and b: "parseAPIResponse (status, rb) = Inr body" "retrieveVaultResponse body = Inr v"
      "b64DecodeRaw stdAlphabet v = Inr e" "vault_decrypt (vdGcm V) e ?vk = Inr vf"
      "unmarshalItems vf = Inr items'"
    using assms(5) by (auto simp: vault_Retrieve_def Let_def bindE_eq_Inr split: if_splits)
  note r = parseAPIResponse_Inr [OF b(1)]
  have "body = jprint (JObj [(''encryptedVault'', JStr (b64EncodeRaw stdAlphabet c))])"
    using assms(1) [unfolded vault_service_def, THEN conjunct2, THEN conjunct1, THEN spec, THEN spec,
        THEN spec, THEN spec, THEN spec, THEN spec, THEN spec, THEN spec, THEN mp,
        OF conjI [OF assms(2) conjI [OF ascii_b64Raw ascii_backupType]], THEN mp, OF p [unfolded conjunct1 [OF r]]] r c(1) by auto
  then have "v = b64EncodeRaw stdAlphabet c"
    using b(2) retrieveVaultResponse_ok [OF ascii_b64Raw, of c] by simp
  then have "e = c" using b(3) b64DecodeRaw_b64EncodeRaw [OF std_url_alphabet(1), of c] by simp
  then show ?thesis using b(4,5) c(2) unmarshal_marshal_items [OF assms(4)] by simp
qed

end
