(* ===== verification/HubAuth.thy ===== *)
theory HubAuth
  imports Vault
begin

text \<open>
  Hub authentication (\<open>core/textile/hub/hub_auth.go\<close>): the tokens of the hub are fetched by a
  challenge over a websocket and cached in the store.

  The websocket, the JWT parser, the signature of an identity and the clock are parameters
  (\<open>hubDeps\<close>).  A frame is its bytes.  The mutex around a fetch is not modelled: an effect is atomic.
\<close>

subsection \<open>The messages\<close>

record inMessageTokenValue =
  imToken :: bytes
  imKey :: bytes
  imMsg :: bytes
  imSig :: bytes
  imAppToken :: bytes

record inMessageToken =
  itType :: bytes
  itValue :: inMessageTokenValue

record authTokens =
  auHubToken :: bytes
  auKey :: bytes
  auSig :: bytes
  auAppToken :: bytes
  auMsg :: bytes

definition emptyTokenValue :: inMessageTokenValue where
  "emptyTokenValue = \<lparr> imToken = [], imKey = [], imMsg = [], imSig = [], imAppToken = [] \<rparr>"

definition emptyToken :: inMessageToken where
  "emptyToken = \<lparr> itType = [], itValue = emptyTokenValue \<rparr>"

definition outMessage :: "bytes \<Rightarrow> bytes \<Rightarrow> bytes \<Rightarrow> bytes" where
  "outMessage action sig pubkey =
     jprint (JObj [(''action'', JStr action), (''data'', JObj [(''sig'', JStr sig), (''pubkey'', JStr pubkey)])])"

text \<open>
  \<open>json.Unmarshal\<close> into a struct that already has values: the members are taken in order, a member
  that is absent or null leaves its field as it was.
\<close>

definition mergeStr :: "bytes \<Rightarrow> jvalue \<Rightarrow> err + bytes" where
  "mergeStr old v = (case v of JNull \<Rightarrow> Inr old | JStr s \<Rightarrow> Inr s | _ \<Rightarrow> Inl jErr)"

definition mergeObj :: "('a \<Rightarrow> bytes \<times> jvalue \<Rightarrow> err + 'a) \<Rightarrow> 'a \<Rightarrow> jvalue \<Rightarrow> err + 'a" where
  "mergeObj f old v = (case v of
       JNull \<Rightarrow> Inr old
     | JObj kvs \<Rightarrow> foldl (\<lambda>r kv. bindS r (\<lambda>x. f x kv)) (Inr old) kvs
     | _ \<Rightarrow> Inl jErr)"

definition mergeTokenField :: "inMessageTokenValue \<Rightarrow> bytes \<times> jvalue \<Rightarrow> err + inMessageTokenValue" where
  "mergeTokenField t kv =
     (if equalFold (fst kv) ''token'' then bindS (mergeStr (imToken t) (snd kv)) (\<lambda>x. Inr (t\<lparr>imToken := x\<rparr>))
      else if equalFold (fst kv) ''key'' then bindS (mergeStr (imKey t) (snd kv)) (\<lambda>x. Inr (t\<lparr>imKey := x\<rparr>))
      else if equalFold (fst kv) ''msg'' then bindS (mergeStr (imMsg t) (snd kv)) (\<lambda>x. Inr (t\<lparr>imMsg := x\<rparr>))
      else if equalFold (fst kv) ''sig'' then bindS (mergeStr (imSig t) (snd kv)) (\<lambda>x. Inr (t\<lparr>imSig := x\<rparr>))
      else if equalFold (fst kv) ''appToken'' then bindS (mergeStr (imAppToken t) (snd kv)) (\<lambda>x. Inr (t\<lparr>imAppToken := x\<rparr>))
      else Inr t)"

definition mergeTokenValue :: "inMessageTokenValue \<Rightarrow> jvalue \<Rightarrow> err + inMessageTokenValue" where
  "mergeTokenValue = mergeObj mergeTokenField"

definition mergeMessageField :: "inMessageToken \<Rightarrow> bytes \<times> jvalue \<Rightarrow> err + inMessageToken" where
  "mergeMessageField t kv =
     (if equalFold (fst kv) ''type'' then bindS (mergeStr (itType t) (snd kv)) (\<lambda>x. Inr (t\<lparr>itType := x\<rparr>))
      else if equalFold (fst kv) ''value'' then bindS (mergeTokenValue (itValue t) (snd kv)) (\<lambda>x. Inr (t\<lparr>itValue := x\<rparr>))
      else Inr t)"

definition unmarshalInto :: "('a \<Rightarrow> jvalue \<Rightarrow> err + 'a) \<Rightarrow> 'a \<Rightarrow> bytes \<Rightarrow> err + 'a" where
  "unmarshalInto f old frame =
     (case jparse frame of None \<Rightarrow> Inl (Err ''json: invalid syntax'') | Some v \<Rightarrow> f old v)"

definition mergeToken :: "inMessageToken \<Rightarrow> bytes \<Rightarrow> err + inMessageToken" where
  "mergeToken = unmarshalInto (mergeObj mergeMessageField)"

text \<open>A challenge: only its data is used.\<close>

definition challengeValueField :: "bytes \<Rightarrow> bytes \<times> jvalue \<Rightarrow> err + bytes" where
  "challengeValueField d kv =
     (if equalFold (fst kv) ''type'' then bindS (mergeStr [] (snd kv)) (\<lambda>_. Inr d)
      else if equalFold (fst kv) ''data'' then jGetBytes (snd kv)
      else Inr d)"

definition challengeField :: "bytes \<Rightarrow> bytes \<times> jvalue \<Rightarrow> err + bytes" where
  "challengeField d kv =
     (if equalFold (fst kv) ''type'' then bindS (mergeStr [] (snd kv)) (\<lambda>_. Inr d)
      else if equalFold (fst kv) ''value'' then mergeObj challengeValueField d (snd kv)
      else Inr d)"

definition inMessageChallenge :: "bytes \<Rightarrow> err + bytes" where
  "inMessageChallenge = unmarshalInto (mergeObj challengeField) []"

subsection \<open>The hub client\<close>

text \<open>The \<open>exp\<close> claim of a token: a \<open>float64\<close> as its \<open>int64\<close>, a \<open>json.Number\<close>, or anything else.\<close>

datatype expClaim = ExpFloat int | ExpNumber bytes | ExpOther

text \<open>
  \<open>hbParseJWT\<close> is \<open>ParseUnverified\<close>, with \<open>None\<close> for claims that are no map; \<open>hbNow\<close> is the clock, in
  seconds and nanoseconds.
\<close>

record 's hubDeps =
  hbStore :: "'s storeI"
  hbKc :: "'s keychainI"
  hbAuthURL :: bytes
  hbParseJWT :: "bytes \<Rightarrow> err + expClaim option"
  hbNow :: "'s \<Rightarrow> int \<times> nat"
  hbDial :: "bytes \<Rightarrow> ('s, unit) eff"
  hbSend :: "bytes \<Rightarrow> ('s, unit) eff"
  hbReceive :: "('s, bytes) eff"
  hbPubString :: "bytes \<Rightarrow> bytes"
  hbSign :: "bytes \<Rightarrow> bytes \<Rightarrow> err + bytes"
  hbMbaseDecode :: "bytes \<Rightarrow> err + bytes"

definition tokensStoreKey :: bytes where
  "tokensStoreKey = ''hubTokens''"

text \<open>A \<open>time.Time\<close> counts seconds from the year 1 in an \<open>int64\<close>, so that \<open>time.Unix\<close> wraps.\<close>

definition unixToInternal :: int where
  "unixToInternal = 62135596800"

definition unixTime :: "int \<Rightarrow> int" where
  "unixTime v = (v + unixToInternal + 2 ^ 63) mod 2 ^ 64 - 2 ^ 63"

definition beforeNow :: "int \<Rightarrow> int \<times> nat \<Rightarrow> bool" where
  "beforeNow t now = (t < fst now + unixToInternal \<or> t = fst now + unixToInternal \<and> 0 < snd now)"

definition isTokenExpired :: "'s hubDeps \<Rightarrow> int \<times> nat \<Rightarrow> bytes \<Rightarrow> bool" where
  "isTokenExpired H now t =
     (case hbParseJWT H t of
        Inl _ \<Rightarrow> True
      | Inr None \<Rightarrow> True
      | Inr (Some claim) \<Rightarrow>
          (case claim of
             ExpFloat v \<Rightarrow> beforeNow (unixTime v) now
           | ExpNumber s \<Rightarrow> (case parseInt64 s of None \<Rightarrow> True | Some v \<Rightarrow> beforeNow (unixTime v) now)
           | ExpOther \<Rightarrow> beforeNow 0 now))"

definition tokenValueJson :: "inMessageTokenValue \<Rightarrow> jvalue" where
  "tokenValueJson t = JObj [(''token'', JStr (imToken t)), (''key'', JStr (imKey t)), (''msg'', JStr (imMsg t)),
     (''sig'', JStr (imSig t)), (''appToken'', JStr (imAppToken t))]"

text \<open>A \<open>json.Decoder\<close> reads one value; it stops at the end of an object.\<close>

definition jDecode :: "bytes \<Rightarrow> jvalue option" where
  "jDecode s = (case jValue (Suc (length s)) s of
       None \<Rightarrow> None
     | Some (v, r) \<Rightarrow> (case v of JObj _ \<Rightarrow> Some v | JArr _ \<Rightarrow> Some v
         | _ \<Rightarrow> if r = [] \<or> jSpace (hd r) then Some v else None))"

definition retrieveTokens :: "'s hubDeps \<Rightarrow> ('s, inMessageTokenValue) eff" where
  "retrieveTokens H =
     bindE (sGet (hbStore H) tokensStoreKey) (\<lambda>stored.
     bindE (liftE (case jDecode stored of
                None \<Rightarrow> Inl (Err ''json: invalid syntax'')
              | Some v \<Rightarrow> mergeTokenValue emptyTokenValue v)) (\<lambda>tokens.
     bindE (getE (hbNow H)) (\<lambda>now.
       if isTokenExpired H now (imAppToken tokens) then failE (Err ''App token is expired'')
       else retE tokens)))"

definition storeTokens :: "'s hubDeps \<Rightarrow> inMessageTokenValue \<Rightarrow> ('s, unit) eff" where
  "storeTokens H tokens = sSet (hbStore H) tokensStoreKey (jprint (tokenValueJson tokens) @ [CHR 0x0A])"

definition hub_ClearCache :: "'s hubDeps \<Rightarrow> ('s, unit) eff" where
  "hub_ClearCache H = sRemove (hbStore H) tokensStoreKey"

text \<open>
  The loop that waits for the token.  Each frame is received into \<open>token\<close> itself; the variable
  \<open>currToken\<close> of the code is never filled.  The fuel bounds the number of frames; out of it the loop
  is still waiting.
\<close>

definition stillWaiting :: err where
  "stillWaiting = Panic ''still waiting for a frame''"

fun receiveToken :: "'s hubDeps \<Rightarrow> nat \<Rightarrow> inMessageToken \<Rightarrow> ('s, inMessageToken) eff" where
  "receiveToken H 0 tok = (if itType tok = ''token'' then retE tok else failE stillWaiting)"
| "receiveToken H (Suc n) tok =
     (if itType tok = ''token'' then retE tok
      else bindE (hbReceive H) (\<lambda>frame. bindE (liftE (mergeToken tok frame)) (receiveToken H n)))"

definition getTokensThroughChallenge :: "'s hubDeps \<Rightarrow> nat \<Rightarrow> ('s, inMessageTokenValue) eff" where
  "getTokensThroughChallenge H fuel =
     bindE (hbDial H (hbAuthURL H)) (\<lambda>_.
     bindE (kiKeyPair (hbKc H)) (\<lambda>(privateKey, _).
       let pub = hbPubString H privateKey in
       bindE (hbSend H (outMessage ''token'' [] pub)) (\<lambda>_.
       bindE (hbReceive H) (\<lambda>frame.
       bindE (liftE (inMessageChallenge frame)) (\<lambda>challenge.
       bindE (liftE (hbSign H privateKey challenge)) (\<lambda>solution.
       bindE (hbSend H (outMessage ''challenge'' (b64Encode stdAlphabet solution) pub)) (\<lambda>_.
       bindE (receiveToken H fuel emptyToken) (\<lambda>tok.
         if itType tok = ''token'' then retE (itValue tok)
         else failE (Err ''Did not receive a correct token challenge response'')))))))))"

definition toAuthTokens :: "inMessageTokenValue \<Rightarrow> authTokens" where
  "toAuthTokens t = \<lparr> auHubToken = imToken t, auKey = imKey t, auSig = imSig t,
     auAppToken = imAppToken t, auMsg = imMsg t \<rparr>"

definition GetTokensWithCache :: "'s hubDeps \<Rightarrow> nat \<Rightarrow> ('s, authTokens) eff" where
  "GetTokensWithCache H fuel =
     bindE (tryE (retrieveTokens H)) (\<lambda>inStore.
       case inStore of
         Inr tokens \<Rightarrow> retE (toAuthTokens tokens)
       | Inl _ \<Rightarrow>
           bindE (getTokensThroughChallenge H fuel) (\<lambda>tokens.
           bindE (storeTokens H tokens) (\<lambda>_. retE (toAuthTokens tokens))))"

definition GetHubContext :: "'s hubDeps \<Rightarrow> nat \<Rightarrow> ctx \<Rightarrow> ('s, ctx) eff" where
  "GetHubContext H fuel c =
     bindE (GetTokensWithCache H fuel) (\<lambda>tokens.
     bindE (liftE (hbMbaseDecode H (auSig tokens))) (\<lambda>sig.
       retE (c\<lparr>cxAPIKey := Some (auKey tokens), cxAPISig := Some (auMsg tokens, sig),
              cxToken := Some (auHubToken tokens)\<rparr>)))"


subsection \<open>The cache\<close>

lemma token_names:
  "equalFold ''token'' ''token''" "\<not> equalFold ''key'' ''token''" "\<not> equalFold ''msg'' ''token''"
  "\<not> equalFold ''sig'' ''token''" "\<not> equalFold ''appToken'' ''token''" "equalFold ''key'' ''key''"
  "\<not> equalFold ''msg'' ''key''" "\<not> equalFold ''sig'' ''key''" "\<not> equalFold ''appToken'' ''key''"
  "equalFold ''msg'' ''msg''" "\<not> equalFold ''sig'' ''msg''" "\<not> equalFold ''appToken'' ''msg''"
  "equalFold ''sig'' ''sig''" "\<not> equalFold ''appToken'' ''sig''" "equalFold ''appToken'' ''appToken''"
  by code_simp+

definition tokensOk :: "inMessageTokenValue \<Rightarrow> bool" where
  "tokensOk t \<longleftrightarrow> ascii (imToken t) \<and> ascii (imKey t) \<and> ascii (imMsg t) \<and> ascii (imSig t) \<and> ascii (imAppToken t)"

lemma merge_tokenValueJson: "mergeTokenValue emptyTokenValue (tokenValueJson t) = Inr t"
  by (simp add: mergeTokenValue_def tokenValueJson_def mergeObj_def mergeTokenField_def token_names
      mergeStr_def)

lemma jDecode_object:
  assumes "jOk (JObj kvs)" "jStop r"
  shows "jDecode (jprint (JObj kvs) @ r) = Some (JObj kvs)"
  using jRoundD [OF jRound_print [OF assms(1)] _ assms(2), of "Suc (length (jprint (JObj kvs) @ r))"]
  by (simp add: jDecode_def)

definition storedTokens :: "inMessageTokenValue \<Rightarrow> bytes" where
  "storedTokens t = jprint (tokenValueJson t) @ [CHR 0x0A]"

lemma decode_storedTokens: "tokensOk t \<Longrightarrow> jDecode (storedTokens t) = Some (tokenValueJson t)"
  unfolding storedTokens_def tokenValueJson_def
  by (rule jDecode_object) (simp_all add: tokensOk_def jStop_def jSpace_def jNumChar_def jDigit_def digitVal_def)

lemma retrieve_stored:
  assumes "kv_store (hbStore H) ok view" "ok s" "view s tokensStoreKey = Some (storedTokens t)" "tokensOk t"
    and "\<not> isTokenExpired H (hbNow H s) (imAppToken t)"
  shows "retrieveTokens H s = (Inr t, s)"
  using kv_store.get_view [OF assms(1,2), of tokensStoreKey] assms(3,5)
  by (simp add: retrieveTokens_def bindE_apply lookupRes_def decode_storedTokens [OF assms(4)]
      merge_tokenValueJson)

text \<open>The hub's other effects leave the store's invariant alone.\<close>

definition hub_env :: "'s hubDeps \<Rightarrow> ('s \<Rightarrow> bool) \<Rightarrow> bool" where
  "hub_env H ok \<longleftrightarrow> keeps ok (hbDial H (hbAuthURL H)) \<and> keeps ok (kiKeyPair (hbKc H)) \<and>
     (\<forall>m. keeps ok (hbSend H m)) \<and> keeps ok (hbReceive H)"

lemma keeps_receiveToken:
  assumes "hub_env H ok"
  shows "keeps ok (receiveToken H n t)"
proof (induction n arbitrary: t)
  case 0
  show ?case by (auto intro: keeps_intros)
next
  case (Suc n)
  then show ?case
    using assms unfolding hub_env_def by (auto intro!: keeps_intros)
qed

lemma keeps_challenge:
  assumes "hub_env H ok"
  shows "keeps ok (getTokensThroughChallenge H n)"
  unfolding getTokensThroughChallenge_def Let_def
  by (intro keeps_intros keeps_receiveToken [OF assms]) (use assms in \<open>auto simp: hub_env_def\<close>)

lemma retrieve_state:
  assumes "kv_store (hbStore H) ok view" "ok s"
  shows "snd (retrieveTokens H s) = s"
  using kv_store.get_view [OF assms, of tokensStoreKey]
  by (auto simp: retrieveTokens_def bindE_apply split: sum.split)

text \<open>Whatever \<open>GetTokensWithCache\<close> returned is in the store.\<close>

lemma tokens_stored:
  assumes "kv_store (hbStore H) ok view" "hub_env H ok" "ok s"
    and "GetTokensWithCache H n s = (Inr a, s')"
  shows "ok s' \<and> (\<exists>t. a = toAuthTokens t \<and>
    (retrieveTokens H s = (Inr t, s) \<and> s' = s \<or> view s' tokensStoreKey = Some (storedTokens t)))"
proof -
  obtain r where r: "tryE (retrieveTokens H) s = (Inr r, s)"
  proof -
    obtain x s1 where x: "tryE (retrieveTokens H) s = (Inr x, s1)"
      using assms(4) unfolding GetTokensWithCache_def bindE_eq_Inr by blast
    moreover have "snd (tryE (retrieveTokens H) s) = s"
      using retrieve_state [OF assms(1,3)] by (auto simp: tryE_apply split: sum.split err.split prod.split)
    ultimately show ?thesis using that by simp
  qed
  show ?thesis
  proof (cases r)
    case (Inr t)
    then have "retrieveTokens H s = (Inr t, s)"
      using r by (auto simp: tryE_apply split: sum.splits err.splits prod.splits)
    then show ?thesis using assms(3,4) r Inr by (auto simp: GetTokensWithCache_def)
  next
    case (Inl e)
    then obtain t s1 u where t: "getTokensThroughChallenge H n s = (Inr t, s1)"
      "storeTokens H t s1 = (Inr u, s')" "a = toAuthTokens t"
      using assms(4) r by (auto simp: GetTokensWithCache_def bindE_eq_Inr)
    have "ok s1" using keeps_challenge [OF assms(2)] assms(3) t(1) by (rule keepsD_eq)
    from kv_store.set_Inr [OF assms(1) this t(2) [unfolded storeTokens_def]] t(3)
    show ?thesis by (auto simp: storedTokens_def)
  qed
qed

text \<open>
  C16. The tokens a successful call returned are what every later call returns, without touching the
  network, until the app token expires or the cache is cleared.
\<close>

theorem hub_tokens_cached:
  assumes "kv_store (hbStore H) ok view" "hub_env H ok" "ok s"
    and "GetTokensWithCache H n s = (Inr a, s')"
    and "ascii (auHubToken a)" "ascii (auKey a)" "ascii (auSig a)" "ascii (auAppToken a)" "ascii (auMsg a)"
    and "\<not> isTokenExpired H (hbNow H s') (auAppToken a)"
  shows "GetTokensWithCache H n' s' = (Inr a, s')"
proof -
  obtain t where t: "ok s'" "a = toAuthTokens t"
    "retrieveTokens H s = (Inr t, s) \<and> s' = s \<or> view s' tokensStoreKey = Some (storedTokens t)"
    using tokens_stored [OF assms(1-4)] by blast
  have "retrieveTokens H s' = (Inr t, s')"
    using t(3) retrieve_stored [OF assms(1) t(1), of t] assms(5-10) t(2)
    by (auto simp: tokensOk_def toAuthTokens_def)
  then show ?thesis using t(2) by (simp add: GetTokensWithCache_def bindE_apply tryE_apply)
qed

subsection \<open>The wait for the token\<close>

text \<open>The frames a server has sent are what the next receives return, in order.\<close>

definition delivers :: "'s hubDeps \<Rightarrow> ('s \<Rightarrow> bytes list) \<Rightarrow> bool" where
  "delivers H frames \<longleftrightarrow>
     (\<forall>s f fs. frames s = f # fs \<longrightarrow> (\<exists>s'. hbReceive H s = (Inr f, s') \<and> frames s' = fs))"

text \<open>What the loop makes of a list of frames: it stops at the first that leaves the type \<open>token\<close>.\<close>

fun mergeFrames :: "inMessageToken \<Rightarrow> bytes list \<Rightarrow> (err + inMessageToken) option" where
  "mergeFrames t [] = (if itType t = ''token'' then Some (Inr t) else None)"
| "mergeFrames t (f # fs) =
     (if itType t = ''token'' then Some (Inr t)
      else case mergeToken t f of Inl e \<Rightarrow> Some (Inl e) | Inr t' \<Rightarrow> mergeFrames t' fs)"

text \<open>
  C40. The wait for the token ends with the frame that makes the type of the message \<open>token\<close>: one
  unit of fuel per frame is enough, and the result is all frames received merged into one message.
\<close>

theorem receive_token_merges:
  assumes "delivers H frames" "frames s = fs" "mergeFrames t fs = Some r" "length fs \<le> n"
  shows "fst (receiveToken H n t s) = r"
  using assms(2-4)
proof (induction n arbitrary: s fs t)
  case 0
  then show ?case by (auto split: if_splits)
next
  case (Suc n)
  show ?case
  proof (cases "itType t = ''token''")
    case True
    then show ?thesis using Suc.prems by (cases fs) auto
  next
    case False
    then obtain f gs where f: "fs = f # gs" using Suc.prems(2) by (cases fs) auto
    obtain s' where s': "hbReceive H s = (Inr f, s')" "frames s' = gs"
      using assms(1) Suc.prems(1) f unfolding delivers_def by blast
    then show ?thesis
      using False Suc.prems(2,3) f Suc.IH [OF s'(2)] by (cases "mergeToken t f") (auto simp: bindE_apply)
  qed
qed

subsection \<open>A hub in memory\<close>

type_synonym hubMem = "(bytes \<rightharpoonup> bytes) \<times> bytes list"

definition memHubStore :: "hubMem storeI" where
  "memHubStore =
     \<lparr> sGet = \<lambda>k (m, fs). (lookupRes (m k), (m, fs)), sSet = \<lambda>k v (m, fs). (Inr (), (m(k \<mapsto> v), fs)),
       sRemove = \<lambda>k (m, fs). (Inr (), (m(k := None), fs)), sDropAll = \<lambda>(m, fs). (Inr (), (Map.empty, fs)),
       sKeysWithPrefix = \<lambda>_. failE (Err ''unsupported'') \<rparr>"

definition memHub :: "hubMem hubDeps" where
  "memHub =
     \<lparr> hbStore = memHubStore, hbKc = fixedKeychain, hbAuthURL = ''wss://auth'',
       hbParseJWT = \<lambda>t. Inr (Some (ExpFloat 1700000000)), hbNow = \<lambda>_. (1600000000, 1), hbDial = \<lambda>_. retE (),
       hbSend = \<lambda>_. retE (),
       hbReceive = \<lambda>(m, fs). (case fs of [] \<Rightarrow> (Inl (Err ''EOF''), (m, [])) | f # fs \<Rightarrow> (Inr f, (m, fs))),
       hbPubString = id, hbSign = \<lambda>k d. Inr (k @ d), hbMbaseDecode = Inr \<rparr>"

lemma memHub_store: "kv_store (hbStore memHub) (\<lambda>_. True) fst"
  by unfold_locales (auto simp: memHub_def memHubStore_def lookupRes_def split: prod.splits)

lemma memHub_env: "hub_env memHub (\<lambda>_. True)"
  by (simp add: hub_env_def keeps_def)

definition demoFrames :: "bytes list" where
  "demoFrames =
     [jprint (JObj [(''type'', JStr ''ping''), (''value'', JObj [(''sig'', JStr ''old'')])]),
      jprint (JObj [(''type'', JStr ''token''), (''value'', JObj [(''appToken'', JStr ''jwt'')])])]"

definition demoAuth :: authTokens where
  "demoAuth = \<lparr> auHubToken = [], auKey = [], auSig = [], auAppToken = ''jwt'', auMsg = [] \<rparr>"

definition hubStart :: hubMem where
  "hubStart = (Map.empty,
     [''{}'', jprint (JObj [(''type'', JStr ''token''), (''value'', JObj [(''appToken'', JStr ''jwt'')])])])"

theorem hub_tokens_cached_witness:
  "\<exists>s'. GetTokensWithCache memHub 1 hubStart = (Inr demoAuth, s') \<and> snd s' = [] \<and>
     GetTokensWithCache memHub 0 s' = (Inr demoAuth, s')"
proof -
  let ?r = "GetTokensWithCache memHub 1 hubStart"
  have "(fst ?r, snd (snd ?r)) = (Inr demoAuth, [])" by code_simp
  then have r: "?r = (Inr demoAuth, snd ?r)" and n: "snd (snd ?r) = []" by (simp_all add: prod_eq_iff)
  have a: "ascii (auHubToken demoAuth)" "ascii (auKey demoAuth)" "ascii (auSig demoAuth)"
    "ascii (auAppToken demoAuth)" "ascii (auMsg demoAuth)" by code_simp+
  have e: "\<not> isTokenExpired memHub (hbNow memHub (snd ?r)) (auAppToken demoAuth)"
    unfolding memHub_def by code_simp
  from hub_tokens_cached [OF memHub_store memHub_env TrueI r a e] r n show ?thesis by blast
qed

theorem receive_token_merges_witness:
  "mergeFrames emptyToken demoFrames =
     Some (Inr \<lparr> itType = ''token'', itValue = \<lparr> imToken = [], imKey = [], imMsg = [], imSig = ''old'',
       imAppToken = ''jwt'' \<rparr> \<rparr>) \<and>
   fst (receiveToken memHub 2 emptyToken (Map.empty, demoFrames)) =
     Inr \<lparr> itType = ''token'', itValue = \<lparr> imToken = [], imKey = [], imMsg = [], imSig = ''old'',
       imAppToken = ''jwt'' \<rparr> \<rparr>"
proof -
  have m: "mergeFrames emptyToken demoFrames =
     Some (Inr \<lparr> itType = ''token'', itValue = \<lparr> imToken = [], imKey = [], imMsg = [], imSig = ''old'',
       imAppToken = ''jwt'' \<rparr> \<rparr>)" by code_simp
  have d: "delivers memHub snd" by (auto simp: delivers_def memHub_def)
  have l: "length demoFrames \<le> 2" by code_simp
  from receive_token_merges [OF d _ m l, of "(Map.empty, demoFrames)"] m show ?thesis by simp
qed

subsection \<open>The clock\<close>

text \<open>
  An app token with a numeric expiry is taken as valid exactly up to the second it names, as long as
  that second is one a \<open>time.Time\<close> can hold; the last 62135596800 values of an \<open>int64\<close> wrap, and a
  token that names one of them is expired at once.
\<close>

lemma token_expiry:
  assumes "hbParseJWT H t = Inr (Some (ExpFloat e))" "now = (n, ns)" "0 \<le> n" "n < 2 ^ 62"
    and "- (2 ^ 62) \<le> e" "e < 2 ^ 63"
  shows "isTokenExpired H now t \<longleftrightarrow>
    2 ^ 63 - 62135596800 \<le> e \<or> e < n \<or> e = n \<and> 0 < ns"
proof -
  have "unixTime e = (e + unixToInternal + 2 ^ 63) mod 2 ^ 64 - 2 ^ 63"
    by (simp add: unixTime_def)
  moreover have "(e + unixToInternal + 2 ^ 63) mod 2 ^ 64 =
      (if e + unixToInternal < 2 ^ 63 then e + unixToInternal + 2 ^ 63 else e + unixToInternal - 2 ^ 63)"
  proof (cases "e + unixToInternal < 2 ^ 63")
    case False
    have "(e + unixToInternal + 2 ^ 63) mod 2 ^ 64 = (e + unixToInternal + 2 ^ 63 + - 1 * 2 ^ 64) mod 2 ^ 64"
      by (rule mod_mult_self1 [symmetric])
    then show ?thesis using False assms(6) by (simp add: unixToInternal_def)
  qed (use assms(5) in \<open>simp add: unixToInternal_def\<close>)
  ultimately have "unixTime e = (if e + unixToInternal < 2 ^ 63 then e + unixToInternal
      else e + unixToInternal - 2 ^ 64)" by simp
  then show ?thesis
    using assms by (auto simp: isTokenExpired_def beforeNow_def unixToInternal_def)
qed

end
