(* ===== verification/KeyServices.thy ===== *)
theory KeyServices
  imports HubAuth
begin

text \<open>
  The services on the key pair: \<open>services_keypair.go\<close>, \<open>services_vault.go\<close>, \<open>services_identity.go\<close>
  and \<open>services_central_server.go\<close> of \<open>core/space/services\<close>.

  They work on the keychain, the vault, the hub and the textile client (\<open>keySvc\<close>).  A private key is
  its raw bytes, so that \<open>Raw\<close> cannot fail.  The contract \<open>key_importer\<close> is what they rely on of the
  keychain; the keychain provides it.
\<close>

record 's keySvc =
  ksKc :: "'s keychainI"
  ksVault :: "'s vaultDeps"
  ksBackup :: "'s backupDeps"
  ksHubTokens :: "('s, authTokens) eff"
  ksRestoreDB :: "('s, unit) eff"
  ksRemoveKeys :: "('s, unit) eff"
  ksWaitInit :: "('s, unit) eff"
  ksDropStore :: "('s, unit) eff"
  ksUnmarshalPriv :: "bytes \<Rightarrow> err + bytes"
  ksAPIURL :: bytes
  ksHttpPost :: "bytes \<Rightarrow> bytes \<Rightarrow> ('s, int \<times> (err + bytes)) eff"
  ksHttpGet :: "bytes \<Rightarrow> ('s, int \<times> (err + bytes)) eff"

definition keySeparator :: bytes where
  "keySeparator = ''___''"

subsection \<open>services_keypair.go\<close>

definition svc_GenerateKeyPair :: "'s keySvc \<Rightarrow> bool \<Rightarrow> ('s, bytes) eff" where
  "svc_GenerateKeyPair S useForce =
     (if useForce then kiGenerateKeyFromMnemonic (ksKc S) [WithOverride]
      else kiGenerateKeyFromMnemonic (ksKc S) [])"

text \<open>After a failed restore of the databases the key pair is deleted; the error of that is dropped.\<close>

definition restoreOrDelete :: "'s keySvc \<Rightarrow> ('s, unit) eff" where
  "restoreOrDelete S =
     bindE (tryE (ksRestoreDB S)) (\<lambda>r. case r of
         Inr _ \<Rightarrow> retE ()
       | Inl e \<Rightarrow> bindE (tryE (kiDelete (ksKc S))) (\<lambda>_. failE (Err e)))"

definition RestoreKeyPairFromMnemonic :: "'s keySvc \<Rightarrow> bytes \<Rightarrow> ('s, unit) eff" where
  "RestoreKeyPairFromMnemonic S mnemonic =
     bindE (kiGenerateKeyFromMnemonic (ksKc S) [WithMnemonic mnemonic, WithOverride]) (\<lambda>_.
       restoreOrDelete S)"

definition svc_GetPublicKey :: "'s keySvc \<Rightarrow> ('s, bytes) eff" where
  "svc_GetPublicKey S = bindE (kiPublicKey (ksKc S)) (\<lambda>pub. retE (hexEncode pub))"

definition GetHubAuthToken :: "'s keySvc \<Rightarrow> ('s, bytes) eff" where
  "GetHubAuthToken S = bindE (ksHubTokens S) (\<lambda>tokens. retE (auHubToken tokens))"

definition svc_GetMnemonic :: "'s keySvc \<Rightarrow> ('s, bytes) eff" where
  "svc_GetMnemonic S =
     bindE (kiMnemonic (ksKc S)) (\<lambda>mnemonic.
       if mnemonic = [] then failE (Err ''No mnemonic seed stored in the keychain'') else retE mnemonic)"

definition svc_DeleteKeypair :: "'s keySvc \<Rightarrow> ('s, unit) eff" where
  "svc_DeleteKeypair S =
     thenE (ksWaitInit S) (thenE (ksRemoveKeys S) (thenE (kiDelete (ksKc S)) (ksDropStore S)))"

subsection \<open>services_central_server.go\<close>

text \<open>The hub token and the services token.\<close>

definition GetAPISessionTokens :: "'s keySvc \<Rightarrow> ('s, bytes \<times> bytes) eff" where
  "GetAPISessionTokens S = bindE (ksHubTokens S) (\<lambda>tokens. retE (auHubToken tokens, auAppToken tokens))"

subsection \<open>services_vault.go\<close>

definition CreateLocalKeysBackup :: "'s keySvc \<Rightarrow> bytes \<Rightarrow> ('s, unit) eff" where
  "CreateLocalKeysBackup S path =
     bindE (kiKeyPair (ksKc S)) (\<lambda>(priv, _). MarshalBackup (ksBackup S) path (hexEncode priv))"

definition RecoverKeysByLocalBackup :: "'s keySvc \<Rightarrow> bytes \<Rightarrow> ('s, unit) eff" where
  "RecoverKeysByLocalBackup S path =
     bindE (UnmarshalBackup (ksBackup S) path) (\<lambda>privHex.
     bindE (liftE (hexDecode privHex)) (\<lambda>privInBytes.
     bindE (liftE (ksUnmarshalPriv S privInBytes)) (\<lambda>priv.
     thenE (kiImport (ksKc S) priv []) (restoreOrDelete S))))"

definition RecoverKeysByPassphrase :: "'s keySvc \<Rightarrow> bytes \<Rightarrow> bytes \<Rightarrow> keyBackupType \<Rightarrow> ('s, unit) eff" where
  "RecoverKeysByPassphrase S uuid pass backupType =
     bindE (vault_Retrieve (ksVault S) uuid pass backupType) (\<lambda>items.
       if items = [] then failE (Err ''Retrieved vault does not contain keys'')
       else
         let privAndMnemonic = strSplit (vaValue (hd items)) keySeparator in
         bindE (liftE (idx privAndMnemonic 0)) (\<lambda>privHex.
         bindE (liftE (hexDecode privHex)) (\<lambda>privInBytes.
         bindE (liftE (ksUnmarshalPriv S privInBytes)) (\<lambda>priv.
         bindE (liftE (idx privAndMnemonic 1)) (\<lambda>mnemonic.
         thenE (kiImport (ksKc S) priv mnemonic) (restoreOrDelete S))))))"

definition BackupKeysByPassphrase :: "'s keySvc \<Rightarrow> bytes \<Rightarrow> bytes \<Rightarrow> keyBackupType \<Rightarrow> ('s, unit) eff" where
  "BackupKeysByPassphrase S uuid pass backupType =
     bindE (GetAPISessionTokens S) (\<lambda>(_, servicesToken).
     bindE (kiKeyPair (ksKc S)) (\<lambda>(priv, _).
     bindE (kiMnemonic (ksKc S)) (\<lambda>mnemonic.
     bindE (vault_Store (ksVault S) uuid pass backupType servicesToken
              [\<lparr> vaItemType = PrivateKeyWithMnemonic, vaValue = hexEncode priv @ keySeparator @ mnemonic \<rparr>])
       (\<lambda>_. retE ()))))"

definition TestPassphrase :: "'s keySvc \<Rightarrow> bytes \<Rightarrow> bytes \<Rightarrow> ('s, unit) eff" where
  "TestPassphrase S uuid pass =
     bindE (vault_Retrieve (ksVault S) uuid pass kPASSWORD) (\<lambda>items.
       if items = [] then failE (Err ''Retrieved vault does not contain keys'') else retE ())"

subsection \<open>services_identity.go\<close>

record identity =
  iyAddress :: bytes
  iyPublicKey :: bytes
  iyUsername :: bytes

definition unmarshalIdentity :: "bytes \<Rightarrow> err + identity" where
  "unmarshalIdentity body =
     bindS (unmarshalObj body) (\<lambda>kvs.
     bindS (jGetStr (jField ''address'' kvs)) (\<lambda>a.
     bindS (jGetStr (jField ''publicKey'' kvs)) (\<lambda>p.
     bindS (jGetStr (jField ''username'' kvs)) (\<lambda>u.
       Inr \<lparr> iyAddress = a, iyPublicKey = p, iyUsername = u \<rparr>))))"

text \<open>The status is checked as \<open>parseAPIResponse\<close> of the vault does.\<close>

definition parseIdentity :: "int \<times> (err + bytes) \<Rightarrow> err + identity" where
  "parseIdentity resp = bindS (parseAPIResponse resp) unmarshalIdentity"

definition createIdentityRequest :: "bytes \<Rightarrow> bytes \<Rightarrow> bytes" where
  "createIdentityRequest publicKey username =
     jprint (JObj [(''publicKey'', JStr publicKey), (''username'', JStr username)])"

definition CreateIdentity :: "'s keySvc \<Rightarrow> bytes \<Rightarrow> ('s, identity) eff" where
  "CreateIdentity S username =
     bindE (kiPublicKey (ksKc S)) (\<lambda>pub.
     bindE (ksHttpPost S (ksAPIURL S @ ''/identities'') (createIdentityRequest (hexEncode pub) username))
       (\<lambda>resp. liftE (parseIdentity resp)))"

definition GetIdentityByUsername :: "'s keySvc \<Rightarrow> bytes \<Rightarrow> ('s, identity) eff" where
  "GetIdentityByUsername S username =
     bindE (ksHttpGet S (ksAPIURL S @ ''/identities/username/'' @ username)) (\<lambda>resp.
       liftE (parseIdentity resp))"

subsection \<open>What the services rely on of the keychain\<close>

text \<open>
  While \<open>ok\<close> holds, importing a pair that is \<open>storable\<close> with its mnemonic establishes \<open>holds\<close>, under
  which both are read back; after a deletion no public key is found.
\<close>

locale key_importer =
  fixes K :: "'s keychainI"
    and ok :: "'s \<Rightarrow> bool"
    and storable :: "bytes \<Rightarrow> bytes \<Rightarrow> bool"
    and holds :: "bytes \<Rightarrow> bytes \<Rightarrow> 's \<Rightarrow> bool"
    and pubOf :: "bytes \<Rightarrow> bytes"
  assumes holds_ok: "holds p m s \<Longrightarrow> ok s \<and> storable p m"
    and import_holds: "ok s \<Longrightarrow> storable p m \<Longrightarrow> kiImport K p m s = (Inr u, s') \<Longrightarrow> holds p m s'"
    and read_pair: "holds p m s \<Longrightarrow> \<exists>s'. kiKeyPair K s = (Inr (p, pubOf p), s') \<and> holds p m s'"
    and read_mnemonic: "holds p m s \<Longrightarrow> kiMnemonic K s = (Inr m, s)"
    and delete_gone: "ok s \<Longrightarrow> kiDelete K s = (Inr u, s') \<Longrightarrow> \<exists>e. kiPublicKey K s' = (Inl e, s')"
begin

text \<open>A restore that keeps the pair leaves it there; when it fails, the deletion is what the caller sees.\<close>

lemma restore_keeps:
  assumes "ksKc S = K" "keeps (holds p m) (ksRestoreDB S)" "holds p m s"
    and "restoreOrDelete S s = (Inr u, s')"
  shows "holds p m s'"
proof -
  obtain r s1 where r: "tryE (ksRestoreDB S) s = (Inr r, s1)"
    using assms(4) unfolding restoreOrDelete_def bindE_eq_Inr by blast
  have "holds p m s1" using keepsD_eq [OF keeps_try [OF assms(2)] assms(3) r] .
  then show ?thesis using assms(4) r by (cases r) (auto simp: restoreOrDelete_def bindE_eq_Inr)
qed

end

definition holdsPair :: "'w kcDeps \<Rightarrow> 'w keyring \<Rightarrow> ('w \<Rightarrow> bool) \<Rightarrow> ('w \<Rightarrow> bytes \<rightharpoonup> ringItem) \<Rightarrow>
    ('w \<Rightarrow> bytes \<rightharpoonup> bytes) \<Rightarrow> bytes \<Rightarrow> bytes \<Rightarrow> 'w kcState \<Rightarrow> bool" where
  "holdsPair D R ok rv sv priv m s \<longleftrightarrow>
     kc_ok D R ok rv sv \<and> ok (kcEnv s) \<and> klUnmarshalPriv (kdLib D) priv = Inr priv \<and>
     holdsKey D rv sv priv m s \<and> (kcPriv s = None \<or> kcPriv s = Some priv) \<and> \<not> strContains m ''___''"

definition storablePair :: "'w kcDeps \<Rightarrow> bytes \<Rightarrow> bytes \<Rightarrow> bool" where
  "storablePair D priv m \<longleftrightarrow> klUnmarshalPriv (kdLib D) priv = Inr priv \<and> \<not> strContains m ''___''"

lemma import_holdsPair:
  assumes "kc_ok D R ok rv sv" "ok (kcEnv s)" "storablePair D p m"
    and "ImportExistingKeyPair D p m s = (Inr u, s')"
  shows "holdsPair D R ok rv sv p m s'"
proof -
  obtain s1 where s1: "storeKeyPair D p (klPublic (kdLib D) p) m s = (Inr (), s1)"
    "s' = s1\<lparr>kcPriv := Some p\<rparr>"
    using assms(4) by (auto simp: ImportExistingKeyPair_def thenE_eq_Inr)
  from storeKeyPair_Inr [OF assms(1,2) s1(1)] s1(2) assms(1,3)
  show ?thesis by (simp add: holdsPair_def holdsKey_def storablePair_def)
qed

lemma delete_no_public:
  assumes "kc_ok D R ok rv sv" "ok (kcEnv s)" "DeleteKeypair D s = (Inr u, s')"
  shows "\<exists>e. GetStoredPublicKey D s' = (Inl e, s')"
proof -
  note k = kc_okD [OF assms(1)]
  obtain q s1 where q: "tryE (envE (rgRemove R PrivateKeyStoreKey)) s = (Inr q, s1)"
    and r: "thenE (envE (sRemove (kdStore D) PublicKeyStoreKey)) (modE (\<lambda>s. s\<lparr>kcPriv := None\<rparr>)) s1 = (Inr u, s')"
    using assms(3) by (auto simp: DeleteKeypair_def k(1) bindE_eq_Inr)
  obtain x w where x: "rgRemove R PrivateKeyStoreKey (kcEnv s) = (x, w)" by fastforce
  have s1: "s1 = s\<lparr>kcEnv := w\<rparr>" using q x by (auto simp: tryE_apply envE_apply split: sum.splits err.splits)
  have w: "ok w" using ring_okD(4) [OF k(2) assms(2) x] by simp
  obtain u2 w2 where w2: "sRemove (kdStore D) PublicKeyStoreKey w = (Inr u2, w2)"
    "s' = s\<lparr>kcEnv := w2, kcPriv := None\<rparr>"
    using r s1 by (cases "sRemove (kdStore D) PublicKeyStoreKey w")
      (auto simp: thenE_apply envE_apply split: sum.splits)
  note v = kv_store.remove_Inr [OF k(4) w w2(1)]
  then have "ok (kcEnv s')" using w2(2) by simp
  then show ?thesis
    using v w2(2) by (auto simp: GetStoredPublicKey_eq [OF assms(1)] errKeyNotFound_def split: option.split)
qed

interpretation imported_key: key_importer "keychainOf D" "\<lambda>s. kc_ok D R ok rv sv \<and> ok (kcEnv s)"
    "storablePair D" "holdsPair D R ok rv sv" "klPublic (kdLib D)" for D :: "'w kcDeps" and R ok rv sv
proof unfold_locales
  fix p m and s :: "'w kcState"
  assume h: "holdsPair D R ok rv sv p m s"
  then show "(kc_ok D R ok rv sv \<and> ok (kcEnv s)) \<and> storablePair D p m"
    by (simp add: holdsPair_def storablePair_def)
  have k: "kc_ok D R ok rv sv" "ok (kcEnv s)" "holdsKey D rv sv p m s"
    "klUnmarshalPriv (kdLib D) p = Inr p" "kcPriv s = None \<or> kcPriv s = Some p"
    using h unfolding holdsPair_def by simp_all
  note rd = holdsKey_reads [OF k]
  have ks: "keyStored D R ok rv sv p s" using k unfolding keyStored_def by blast
  have "holdsPair D R ok rv sv p m (s\<lparr>kcPriv := Some p\<rparr>)" using h by (simp add: holdsPair_def holdsKey_def)
  then show "\<exists>s'. kiKeyPair (keychainOf D) s = (Inr (p, klPublic (kdLib D) p), s') \<and> holdsPair D R ok rv sv p m s'"
    using keyStored_reads(2) [OF ks] by (simp add: keychainOf_def)
  show "kiMnemonic (keychainOf D) s = (Inr m, s)"
    using rd(1) strSplit_no_sep [of m] h
    by (simp add: keychainOf_def GetStoredMnemonic_def bindE_apply holdsPair_def privKeyMnemonicSeparator_def)
next
  fix p m u and s s' :: "'w kcState"
  assume "kc_ok D R ok rv sv \<and> ok (kcEnv s)" "storablePair D p m" "kiImport (keychainOf D) p m s = (Inr u, s')"
  then show "holdsPair D R ok rv sv p m s'"
    using import_holdsPair [of D R ok rv sv s p m u s'] by (simp add: keychainOf_def)
next
  fix u and s s' :: "'w kcState"
  assume "kc_ok D R ok rv sv \<and> ok (kcEnv s)" "kiDelete (keychainOf D) s = (Inr u, s')"
  then show "\<exists>e. kiPublicKey (keychainOf D) s' = (Inl e, s')"
    using delete_no_public [of D R ok rv sv s u s'] by (simp add: keychainOf_def)
qed

subsection \<open>A key pair carried from one device to another\<close>

definition keyItem :: "bytes \<Rightarrow> bytes \<Rightarrow> vaultItem" where
  "keyItem priv m = \<lparr> vaItemType = PrivateKeyWithMnemonic, vaValue = hexEncode priv @ keySeparator @ m \<rparr>"

lemma split_keyItem:
  assumes "\<not> strContains m ''___''"
  shows "strSplit (vaValue (keyItem priv m)) keySeparator = [hexEncode priv, m]"
  using strSplit_stored [of priv m] strSplit_no_sep [of m] assms
  by (simp add: keyItem_def keySeparator_def privKeyMnemonicSeparator_def)

lemma keyItem_ok: "ascii m \<Longrightarrow> list_all itemOk [keyItem priv m]"
  by (simp add: itemOk_def keyItem_def keySeparator_def PrivateKeyWithMnemonic_def)

text \<open>What the services need of the vault: its requests leave the keychain's invariant alone.\<close>

definition vault_env :: "'s vaultDeps \<Rightarrow> ('s \<Rightarrow> bool) \<Rightarrow> ('s \<Rightarrow> bytes \<times> bytes \<rightharpoonup> bytes) \<Rightarrow> bool" where
  "vault_env V ok vaults \<longleftrightarrow> gcm_ok (vdGcm V) \<and> rand_ok (vdRand V) \<and> vault_service V ok vaults \<and>
     (\<forall>u h b. keeps ok (vdPost V u h b))"

lemma keeps_Retrieve:
  assumes "vault_env V ok vaults"
  shows "keeps ok (vault_Retrieve V uuid pass typ)"
proof -
  have "keeps ok (vdPost V u h b)" for u h b using assms by (simp add: vault_env_def)
  then show ?thesis unfolding vault_Retrieve_def Let_def by (intro keeps_intros)
qed

context key_importer
begin

lemma backup_stores:
  assumes "ksKc S = K" "holds p m s" "keeps (holds p m) (ksHubTokens S)" "vault_env (ksVault S) ok vaults"
    and "BackupKeysByPassphrase S uuid pass typ s = (Inr u, s')"
  shows "vaultHolds (ksVault S) (vaults s') uuid pass typ [keyItem p m]"
proof -
  obtain tok s1 where t: "GetAPISessionTokens S s = (Inr tok, s1)"
    and r: "bindE (kiKeyPair K) (\<lambda>(priv, _). bindE (kiMnemonic K) (\<lambda>mnemonic.
      bindE (vault_Store (ksVault S) uuid pass typ (snd tok)
        [\<lparr> vaItemType = PrivateKeyWithMnemonic, vaValue = hexEncode priv @ keySeparator @ mnemonic \<rparr>])
       (\<lambda>_. retE ()))) s1 = (Inr u, s')"
    using assms(1,5) by (auto simp: BackupKeysByPassphrase_def bindE_eq_Inr)
  have "keeps (holds p m) (GetAPISessionTokens S)"
    unfolding GetAPISessionTokens_def by (intro keeps_intros assms(3))
  then have "holds p m s1" using assms(2) t by (rule keepsD_eq)
  then obtain s2 where s2: "kiKeyPair K s1 = (Inr (p, pubOf p), s2)" "holds p m s2" using read_pair by blast
  note mn = read_mnemonic [OF s2(2)]
  have "bindE (vault_Store (ksVault S) uuid pass typ (snd tok) [keyItem p m]) (\<lambda>_. retE ()) s2 = (Inr u, s')"
    using r s2(1) mn by (simp add: keyItem_def)
  then obtain x where "vault_Store (ksVault S) uuid pass typ (snd tok) [keyItem p m] s2 = (Inr x, s')"
    by (auto simp: bindE_eq_Inr)
  from Store_holds [OF _ _ _ _ this, of ok vaults] assms(4) holds_ok [OF s2(2)]
  show ?thesis by (simp add: vault_env_def)
qed

lemma recover_imports:
  assumes "ksKc S = K" "ok s" "storable p m" "\<not> strContains m ''___''" "ascii m"
    and "vault_env (ksVault S) ok vaults" "vaultHolds (ksVault S) (vaults s) uuid pass typ [keyItem p m]"
    and "ksUnmarshalPriv S p = Inr p" "keeps (holds p m) (ksRestoreDB S)"
    and "RecoverKeysByPassphrase S uuid pass typ s = (Inr u, s')"
  shows "holds p m s'"
proof -
  obtain items s1 where i: "vault_Retrieve (ksVault S) uuid pass typ s = (Inr items, s1)"
    using assms(10) unfolding RecoverKeysByPassphrase_def bindE_eq_Inr by blast
  have v: "vault_service (ksVault S) ok vaults" using assms(6) by (simp add: vault_env_def)
  from Retrieve_holds [OF v assms(2,7) keyItem_ok [OF assms(5)] i] have items: "items = [keyItem p m]" .
  have "ok s1" using keeps_Retrieve [OF assms(6)] assms(2) i by (rule keepsD_eq)
  obtain u1 s2 where s2: "kiImport K p m s1 = (Inr u1, s2)" "restoreOrDelete S s2 = (Inr u, s')"
    using assms(1,10) i split_keyItem [OF assms(4), of p]
    by (auto simp: RecoverKeysByPassphrase_def items assms(8) thenE_eq_Inr)
  from import_holds [OF \<open>ok s1\<close> assms(3) s2(1)]
  show ?thesis by (rule restore_keeps [OF assms(1,9) _ s2(2)])
qed

end

text \<open>The backup file: a file that was written is read back.\<close>

definition backup_env :: "'s backupDeps \<Rightarrow> ('s \<Rightarrow> bool) \<Rightarrow> ('s \<Rightarrow> bytes \<rightharpoonup> bytes) \<Rightarrow> bool" where
  "backup_env B ok files \<longleftrightarrow> gcm_ok (bkGcm B) \<and> rand_ok (bkRand B) \<and>
     (\<forall>p d s u s'. bkWriteFile B p d s = (Inr u, s') \<longrightarrow> files s' = (files s)(p \<mapsto> d)) \<and>
     (\<forall>p d s s'. bkReadFile B p s = (Inr d, s') \<longrightarrow> files s p = Some d) \<and>
     (\<forall>p. keeps ok (bkReadFile B p))"

definition fileHolds :: "'s backupDeps \<Rightarrow> (bytes \<rightharpoonup> bytes) \<Rightarrow> bytes \<Rightarrow> bytes \<Rightarrow> bool" where
  "fileHolds B fs path priv \<longleftrightarrow> (\<exists>c. fs path = Some c \<and> deobfuscate B c = Inr (backupJson (hexEncode priv)))"

lemma MarshalBackup_holds:
  assumes "backup_env B ok files" "MarshalBackup B path (hexEncode priv) s = (Inr u, s')"
  shows "fileHolds B (files s') path priv"
proof -
  obtain c s1 where c: "obfuscate B (backupJson (hexEncode priv)) s = (Inr c, s1)"
    "bkWriteFile B path c s1 = (Inr u, s')"
    using assms(2) by (auto simp: MarshalBackup_def bindE_eq_Inr)
  have e: "gcm_ok (bkGcm B)" "rand_ok (bkRand B)"
    and w: "files s' = (files s1)(path \<mapsto> c)"
    using assms(1) c(2) unfolding backup_env_def by blast+
  show ?thesis using deobfuscate_obfuscate [OF e c(1)] w by (simp add: fileHolds_def)
qed

lemma UnmarshalBackup_holds:
  assumes "backup_env B ok files" "fileHolds B (files s) path priv" "ok s"
    and "UnmarshalBackup B path s = (Inr x, s')"
  shows "x = hexEncode priv \<and> ok s'"
proof -
  obtain d j where d: "bkReadFile B path s = (Inr d, s')" "deobfuscate B d = Inr j"
    "bindS (unmarshalObj j) (\<lambda>kvs. jGetStr (jField ''privateKey'' kvs)) = Inr x"
    using assms(4) by (auto simp: UnmarshalBackup_def bindE_eq_Inr)
  have f: "files s path = Some d" and k: "keeps ok (bkReadFile B path)"
    using assms(1) d(1) unfolding backup_env_def by blast+
  have "j = backupJson (hexEncode priv)" using f assms(2) d(2) by (simp add: fileHolds_def)
  then have "Inr x = (Inr (hexEncode priv) :: err + bytes)"
    using d(3) unmarshal_backupJson [OF ascii_hexEncode, of priv] by simp
  then show ?thesis using keepsD_eq [OF k assms(3) d(1)] by simp
qed

context key_importer
begin

lemma create_local:
  assumes "ksKc S = K" "holds p m s" "backup_env (ksBackup S) ok files"
    and "CreateLocalKeysBackup S path s = (Inr u, s')"
  shows "fileHolds (ksBackup S) (files s') path p"
proof -
  obtain s1 where s1: "kiKeyPair K s = (Inr (p, pubOf p), s1)" using read_pair [OF assms(2)] by blast
  have "MarshalBackup (ksBackup S) path (hexEncode p) s1 = (Inr u, s')"
    using assms(1,4) s1 by (simp add: CreateLocalKeysBackup_def)
  with assms(3) show ?thesis by (rule MarshalBackup_holds)
qed

lemma recover_local:
  assumes "ksKc S = K" "ok s" "storable p []" "backup_env (ksBackup S) ok files"
    and "fileHolds (ksBackup S) (files s) path p" "ksUnmarshalPriv S p = Inr p"
    and "keeps (holds p []) (ksRestoreDB S)" "RecoverKeysByLocalBackup S path s = (Inr u, s')"
  shows "holds p [] s'"
proof -
  obtain x s1 where x: "UnmarshalBackup (ksBackup S) path s = (Inr x, s1)"
    using assms(8) unfolding RecoverKeysByLocalBackup_def bindE_eq_Inr by blast
  note h = UnmarshalBackup_holds [OF assms(4,5,2) x]
  obtain u1 s2 where s2: "kiImport K p [] s1 = (Inr u1, s2)" "restoreOrDelete S s2 = (Inr u, s')"
    using assms(1,6,8) x h by (auto simp: RecoverKeysByLocalBackup_def thenE_eq_Inr)
  from import_holds [OF conjunct2 [OF h] assms(3) s2(1)]
  show ?thesis by (rule restore_keeps [OF assms(1,7) _ s2(2)])
qed

end

end
