(* ===== verification/KeyFacts.thy ===== *)
theory KeyFacts
  imports KeyServices
begin

text \<open>
  The properties of the key pair services, and two devices in memory that share a vault service.
\<close>

subsection \<open>A device with its vault and files\<close>

record svcMem =
  smRing :: "bytes \<rightharpoonup> ringItem"
  smStore :: "bytes \<rightharpoonup> bytes"
  smVaults :: "bytes \<times> bytes \<rightharpoonup> bytes"
  smFiles :: "bytes \<rightharpoonup> bytes"

definition svcRing :: "svcMem keyring" where
  "svcRing =
     \<lparr> rgSet = \<lambda>it s. (Inr (), s\<lparr>smRing := (smRing s)(riKey it \<mapsto> it)\<rparr>),
       rgGet = \<lambda>k s. (case smRing s k of Some it \<Rightarrow> Inr it | None \<Rightarrow> Inl (Err errRingKeyNotFound), s),
       rgRemove = \<lambda>k s. (Inr (), s\<lparr>smRing := (smRing s)(k := None)\<rparr>),
       rgGetMetadata = \<lambda>k s. (case smRing s k of Some it \<Rightarrow> Inr () | None \<Rightarrow> Inl (Err errRingKeyNotFound), s) \<rparr>"

definition svcStore :: "svcMem storeI" where
  "svcStore =
     \<lparr> sGet = \<lambda>k s. (lookupRes (smStore s k), s), sSet = \<lambda>k v s. (Inr (), s\<lparr>smStore := (smStore s)(k \<mapsto> v)\<rparr>),
       sRemove = \<lambda>k s. (Inr (), s\<lparr>smStore := (smStore s)(k := None)\<rparr>),
       sDropAll = \<lambda>s. (Inr (), s\<lparr>smStore := Map.empty\<rparr>), sKeysWithPrefix = \<lambda>_. failE (Err ''unsupported'') \<rparr>"

definition svcKc :: "svcMem kcDeps" where
  "svcKc =
     \<lparr> kdFileDir = ''/'', kdRing = Some svcRing, kdUserConfigDir = Inr ''/'',
       kdOpenRing = \<lambda>_ _. Inl (Err ''no keyring''), kdStore = svcStore, kdLib = toyLib,
       kdRand = \<lambda>n. retE (replicate n (CHR ''r'')) \<rparr>"

lemma svcKc_ok: "kc_ok svcKc svcRing (\<lambda>_. True) smRing smStore"
proof -
  have "kv_store svcStore (\<lambda>_. True) smStore"
    by unfold_locales (auto simp: svcStore_def lookupRes_def)
  moreover have "ring_ok svcRing (\<lambda>_. True) smRing smStore"
    by (auto simp: ring_ok_def svcRing_def split: option.splits)
  moreover have "lib_ok toyLib" using memKc_ok by (simp add: kc_ok_def memKc_def)
  ultimately show ?thesis by (auto simp: kc_ok_def svcKc_def getKeyRing_def svcStore_def)
qed

definition toyGcm :: gcmLib where
  "toyGcm = \<lparr> gcNew = \<lambda>_. Inr (), gcNonceSize = 12, gcSeal = \<lambda>k n d. d, gcOpen = \<lambda>k n c. Inr c \<rparr>"

text \<open>The service reads its requests as the JSON they are.\<close>

definition svcPost :: "bytes \<Rightarrow> (bytes \<times> bytes) list \<Rightarrow> bytes \<Rightarrow> (svcMem kcState, int \<times> (err + bytes)) eff" where
  "svcPost u h b s =
     (case jparse b of
        Some (JObj [(_, JStr vlt), (_, JStr vsk), (_, JStr typ)]) \<Rightarrow>
          (Inr (200, Inr []), s\<lparr>kcEnv := (kcEnv s)\<lparr>smVaults := (smVaults (kcEnv s))((vsk, typ) \<mapsto> vlt)\<rparr>\<rparr>)
      | Some (JObj [(_, JStr vsk), (_, JStr typ)]) \<Rightarrow>
          (case smVaults (kcEnv s) (vsk, typ) of
             None \<Rightarrow> (Inr (404, Inr ''{}''), s)
           | Some vlt \<Rightarrow> (Inr (200, Inr (jprint (JObj [(''encryptedVault'', JStr vlt)]))), s))
      | _ \<Rightarrow> (Inr (400, Inr ''{}''), s))"

definition svcVault :: "svcMem kcState vaultDeps" where
  "svcVault =
     \<lparr> vdVaultAPIURL = ''http://vault'', vdVaultSaltSecret = ''salt'', vdGcm = toyGcm,
       vdPbkdf2 = \<lambda>p s n l. take l (p @ s), vdRand = \<lambda>n. retE (replicate n (CHR ''n'')),
       vdValidURL = \<lambda>_. True, vdPost = svcPost \<rparr>"

definition svcBackup :: "svcMem kcState backupDeps" where
  "svcBackup =
     \<lparr> bkGcm = toyGcm, bkRand = \<lambda>n. retE (replicate n (CHR ''n'')),
       bkWriteFile = \<lambda>p d s. (Inr (), s\<lparr>kcEnv := (kcEnv s)\<lparr>smFiles := (smFiles (kcEnv s))(p \<mapsto> d)\<rparr>\<rparr>),
       bkReadFile = \<lambda>p s. (case smFiles (kcEnv s) p of Some d \<Rightarrow> Inr d | None \<Rightarrow> Inl (Err ''no such file''), s) \<rparr>"

definition demoTokens :: authTokens where
  "demoTokens = \<lparr> auHubToken = ''h'', auKey = ''k'', auSig = ''s'', auAppToken = ''a'', auMsg = ''m'' \<rparr>"

definition demoSvc :: "svcMem kcState keySvc" where
  "demoSvc =
     \<lparr> ksKc = keychainOf svcKc, ksVault = svcVault, ksBackup = svcBackup, ksHubTokens = retE demoTokens,
       ksRestoreDB = retE (), ksRemoveKeys = retE (), ksWaitInit = retE (), ksDropStore = retE (),
       ksUnmarshalPriv = Inr, ksAPIURL = ''http://api'', ksHttpPost = \<lambda>_ _. failE (Err ''offline''),
       ksHttpGet = \<lambda>_. failE (Err ''offline'') \<rparr>"

abbreviation svcVaults :: "svcMem kcState \<Rightarrow> bytes \<times> bytes \<rightharpoonup> bytes" where
  "svcVaults \<equiv> \<lambda>s. smVaults (kcEnv s)"

abbreviation svcFiles :: "svcMem kcState \<Rightarrow> bytes \<rightharpoonup> bytes" where
  "svcFiles \<equiv> \<lambda>s. smFiles (kcEnv s)"

abbreviation svcOk :: "svcMem kcState \<Rightarrow> bool" where
  "svcOk \<equiv> \<lambda>s. kc_ok svcKc svcRing (\<lambda>_. True) smRing smStore \<and> True"

abbreviation svcHolds :: "bytes \<Rightarrow> bytes \<Rightarrow> svcMem kcState \<Rightarrow> bool" where
  "svcHolds \<equiv> holdsPair svcKc svcRing (\<lambda>_. True) smRing smStore"

lemma svcPost_store:
  assumes "ascii vlt" "ascii vsk" "ascii typ"
  shows "svcPost u h (storeVaultRequest vlt vsk typ) s =
    (Inr (200, Inr []), s\<lparr>kcEnv := (kcEnv s)\<lparr>smVaults := (smVaults (kcEnv s))((vsk, typ) \<mapsto> vlt)\<rparr>\<rparr>)"
proof -
  have "jparse (storeVaultRequest vlt vsk typ) =
      Some (JObj [(''vault'', JStr vlt), (''vsk'', JStr vsk), (''type'', JStr typ)])"
    unfolding storeVaultRequest_def using assms by (intro jparse_jprint) simp
  then show ?thesis by (simp add: svcPost_def)
qed

lemma svcPost_retrieve:
  assumes "ascii vsk" "ascii typ"
  shows "svcPost u h (retrieveVaultRequest vsk typ) s =
    (case svcVaults s (vsk, typ) of
       None \<Rightarrow> (Inr (404, Inr ''{}''), s)
     | Some vlt \<Rightarrow> (Inr (200, Inr (jprint (JObj [(''encryptedVault'', JStr vlt)]))), s))"
proof -
  have "jparse (retrieveVaultRequest vsk typ) = Some (JObj [(''vsk'', JStr vsk), (''type'', JStr typ)])"
    unfolding retrieveVaultRequest_def using assms by (intro jparse_jprint) simp
  then show ?thesis by (simp add: svcPost_def)
qed

lemma svcVault_env: "vault_env svcVault svcOk svcVaults"
proof -
  have "vault_service svcVault svcOk svcVaults"
    unfolding vault_service_def svcVault_def
    by (auto simp: svcPost_store svcPost_retrieve keeps_def svcKc_ok split: option.splits)
  then show ?thesis
    by (auto simp: vault_env_def gcm_ok_def rand_ok_def svcVault_def toyGcm_def keeps_def svcKc_ok)
qed

lemma svcBackup_env: "backup_env svcBackup svcOk svcFiles"
  unfolding backup_env_def by (auto simp: gcm_ok_def rand_ok_def svcBackup_def toyGcm_def keeps_def
      svcKc_ok split: option.splits)

definition emptyDevice :: "svcMem kcState" where
  "emptyDevice = \<lparr> kcPriv = None,
     kcEnv = \<lparr> smRing = Map.empty, smStore = Map.empty, smVaults = Map.empty, smFiles = Map.empty \<rparr> \<rparr>"

definition demoKey :: bytes where
  "demoKey = replicate 32 (CHR ''k'')"

definition deviceA :: "svcMem kcState" where
  "deviceA = snd (ImportExistingKeyPair svcKc demoKey ''abandon ability'' emptyDevice)"

lemma demo_no_sep: "\<not> strContains ''abandon ability'' ''___''" "\<not> strContains [] ''___''"
  by code_simp+

lemma demo_storable: "storablePair svcKc demoKey ''abandon ability''" "storablePair svcKc demoKey []"
  using demo_no_sep by (simp_all add: storablePair_def svcKc_def toyLib_def)

lemma svc_import:
  "ImportExistingKeyPair svcKc p m s = (Inr (), snd (ImportExistingKeyPair svcKc p m s))"
  by (simp add: ImportExistingKeyPair_def storeKeyPair_def svcKc_def getKeyRing_def thenE_apply
      bindE_apply envE_apply svcRing_def svcStore_def)

lemma deviceA_holds: "svcHolds demoKey ''abandon ability'' deviceA"
  using import_holdsPair [OF svcKc_ok TrueI demo_storable(1) svc_import] by (simp add: deviceA_def)

lemma demoSvc_simps [simp]:
  "ksKc demoSvc = keychainOf svcKc" "ksVault demoSvc = svcVault" "ksBackup demoSvc = svcBackup"
  "ksHubTokens demoSvc = retE demoTokens" "ksRestoreDB demoSvc = retE ()" "ksUnmarshalPriv demoSvc = Inr"
  by (simp_all add: demoSvc_def)

definition deviceB :: "svcMem kcState" where
  "deviceB = emptyDevice\<lparr>kcEnv := (kcEnv emptyDevice)\<lparr>smVaults :=
     svcVaults (snd (BackupKeysByPassphrase demoSvc ''uuid'' ''pass'' kPASSWORD deviceA))\<rparr>\<rparr>"

lemma svc_Retrieve:
  assumes "vaultHolds svcVault (svcVaults s) uuid pass typ items" "list_all itemOk items"
  shows "vault_Retrieve svcVault uuid pass typ s = (Inr items, s)"
proof -
  let ?vk = "computeVk svcVault uuid pass VkVersion1"
  let ?vsk = "b64EncodeRaw stdAlphabet (computeVsk svcVault ?vk pass VkVersion1)"
  obtain c where c: "svcVaults s (?vsk, keyBackupType_String typ) = Some (b64EncodeRaw stdAlphabet c)"
    "vault_decrypt (vdGcm svcVault) c ?vk = Inr (marshalItems items)"
    using assms(1) by (auto simp: vaultHolds_def Let_def)
  have d: "vdValidURL svcVault u" "vdPost svcVault = svcPost" for u by (simp_all add: svcVault_def)
  show ?thesis
    using c assms(2)
    by (simp add: vault_Retrieve_def Let_def d svcPost_retrieve [OF ascii_b64Raw ascii_backupType] bindE_apply
        parseAPIResponse_def retrieveVaultResponse_ok [OF ascii_b64Raw, simplified]
        b64DecodeRaw_b64EncodeRaw unmarshal_marshal_items)
qed

lemma svc_Store: "\<exists>x s'. vault_Store svcVault uuid pass typ tok items s = (Inr x, s')"
proof -
  have d: "vdValidURL svcVault u" "vdPost svcVault = svcPost" "vdGcm svcVault = toyGcm"
    "vdRand svcVault n = retE (replicate n (CHR ''n''))" for u n by (simp_all add: svcVault_def)
  show ?thesis
    by (simp add: vault_Store_def Let_def d svcPost_store [OF ascii_b64Raw ascii_b64Raw ascii_backupType]
        bindE_apply parseAPIResponse_def vault_encrypt_def toyGcm_def)
qed

lemma svc_Backup:
  assumes "svcHolds p m s"
  shows "\<exists>s'. BackupKeysByPassphrase demoSvc uuid pass typ s = (Inr (), s')"
proof -
  obtain s1 where s1: "kiKeyPair (keychainOf svcKc) s = (Inr (p, klPublic (kdLib svcKc) p), s1)" "svcHolds p m s1"
    using imported_key.read_pair [OF assms] by blast
  obtain x s2 where "vault_Store svcVault uuid pass typ ''a''
      [\<lparr> vaItemType = PrivateKeyWithMnemonic, vaValue = hexEncode p @ keySeparator @ m \<rparr>] s1 = (Inr x, s2)"
    using svc_Store by blast
  then show ?thesis
    using s1 imported_key.read_mnemonic [OF s1(2)]
    by (simp add: BackupKeysByPassphrase_def GetAPISessionTokens_def demoTokens_def bindE_apply)
qed

lemma svc_Recover:
  assumes "storablePair svcKc p m" "\<not> strContains m ''___''" "ascii m"
    and "vaultHolds svcVault (svcVaults s) uuid pass typ [keyItem p m]"
  shows "\<exists>s'. RecoverKeysByPassphrase demoSvc uuid pass typ s = (Inr (), s')"
proof -
  obtain s1 where "ImportExistingKeyPair svcKc p m s = (Inr (), s1)" using svc_import by blast
  then show ?thesis
    using svc_Retrieve [OF assms(4) keyItem_ok [OF assms(3)]] split_keyItem [OF assms(2), of p]
    by (simp add: RecoverKeysByPassphrase_def bindE_apply thenE_apply Let_def keychainOf_def restoreOrDelete_def
        tryE_apply)
qed

subsection \<open>Properties\<close>

text \<open>
  C7. A passphrase backup carries a key pair to another device: after a backup on one device, a
  recovery with the same user, passphrase and type on a device that sees the same vault service
  gives that device the private key, the public key and the mnemonic of the first, whatever it held.
\<close>

theorem passphrase_backup_recovers:
  assumes "ksKc S = keychainOf D" "kc_ok D R ok rv sv"
    and "vault_env (ksVault S) (\<lambda>s. kc_ok D R ok rv sv \<and> ok (kcEnv s)) vaults"
    and "\<And>p. ksUnmarshalPriv S p = klUnmarshalPriv (kdLib D) p"
    and "holdsPair D R ok rv sv p m sA" "ascii m"
    and "keeps (holdsPair D R ok rv sv p m) (ksHubTokens S)"
    and "BackupKeysByPassphrase S uuid pass typ sA = (Inr u, sA')"
    and "ok (kcEnv sB)" "vaults sB = vaults sA'"
    and "keeps (holdsPair D R ok rv sv p m) (ksRestoreDB S)"
    and "RecoverKeysByPassphrase S uuid pass typ sB = (Inr u', sB')"
  shows "fst (GetStoredKeyPairInLibP2PFormat D sB') = Inr (p, klPublic (kdLib D) p) \<and>
    fst (GetStoredMnemonic D sB') = Inr m"
proof -
  have v: "vaultHolds (ksVault S) (vaults sB) uuid pass typ [keyItem p m]"
    using imported_key.backup_stores [OF assms(1,5,7,3,8)] assms(10) by simp
  have st: "storablePair D p m" "\<not> strContains m ''___''" "ksUnmarshalPriv S p = Inr p"
    using assms(4,5) by (simp_all add: holdsPair_def storablePair_def)
  have "holdsPair D R ok rv sv p m sB'"
    by (rule imported_key.recover_imports [OF assms(1) conjI [OF assms(2,9)] st(1,2) assms(6,3) v st(3)
          assms(11,12)])
  from imported_key.read_pair [OF this] imported_key.read_mnemonic [OF this]
  show ?thesis by (auto simp: keychainOf_def)
qed

theorem passphrase_backup_recovers_witness:
  "\<exists>sA' sB'. BackupKeysByPassphrase demoSvc ''uuid'' ''pass'' kPASSWORD deviceA = (Inr (), sA') \<and>
     svcVaults deviceB = svcVaults sA' \<and>
     RecoverKeysByPassphrase demoSvc ''uuid'' ''pass'' kPASSWORD deviceB = (Inr (), sB') \<and>
     fst (GetStoredMnemonic svcKc deviceB) \<noteq> fst (GetStoredMnemonic svcKc sB') \<and>
     fst (GetStoredKeyPairInLibP2PFormat svcKc sB') = Inr (demoKey, rev demoKey) \<and>
     fst (GetStoredMnemonic svcKc sB') = Inr ''abandon ability''"
proof -
  obtain sA' where A: "BackupKeysByPassphrase demoSvc ''uuid'' ''pass'' kPASSWORD deviceA = (Inr (), sA')"
    using svc_Backup [OF deviceA_holds] by blast
  have v: "svcVaults deviceB = svcVaults sA'" by (simp add: deviceB_def A)
  have k: "keeps (svcHolds demoKey ''abandon ability'') (ksHubTokens demoSvc)"
    "keeps (svcHolds demoKey ''abandon ability'') (ksRestoreDB demoSvc)"
    by (simp_all add: keeps_ret)
  have e: "vault_env (ksVault demoSvc) svcOk svcVaults" using svcVault_env by simp
  have a: "ascii ''abandon ability''" by code_simp
  have "vaultHolds svcVault (svcVaults deviceB) ''uuid'' ''pass'' kPASSWORD [keyItem demoKey ''abandon ability'']"
    using imported_key.backup_stores [OF _ deviceA_holds k(1) e A] v by simp
  from svc_Recover [OF demo_storable(1) demo_no_sep(1) a this]
  obtain sB' where B: "RecoverKeysByPassphrase demoSvc ''uuid'' ''pass'' kPASSWORD deviceB = (Inr (), sB')" by blast
  have u: "ksUnmarshalPriv demoSvc p = klUnmarshalPriv (kdLib svcKc) p" for p
    by (simp add: svcKc_def toyLib_def)
  have n: "fst (GetStoredMnemonic svcKc deviceB) = Inl (Err errRingKeyNotFound)"
    by (simp add: GetStoredMnemonic_def retrieveKeyPair_def getKeyRing_def svcKc_def svcRing_def bindE_apply
        envE_apply deviceB_def emptyDevice_def)
  have pk: "klPublic (kdLib svcKc) demoKey = rev demoKey" by (simp add: svcKc_def toyLib_def)
  from passphrase_backup_recovers [OF demoSvc_simps(1) svcKc_ok e u deviceA_holds a k(1) A TrueI v k(2) B]
  show ?thesis using A v B n pk by auto
qed

text \<open>
  A local backup carries the key pair but not the mnemonic: after a recovery from the file the
  key pair is the one backed up, and the service that shows the mnemonic reports that there is none.
\<close>

theorem local_backup_loses_mnemonic:
  assumes "ksKc S = keychainOf D" "kc_ok D R ok rv sv"
    and "backup_env (ksBackup S) (\<lambda>s. kc_ok D R ok rv sv \<and> ok (kcEnv s)) files"
    and "\<And>p. ksUnmarshalPriv S p = klUnmarshalPriv (kdLib D) p"
    and "holdsPair D R ok rv sv p m sA"
    and "CreateLocalKeysBackup S path sA = (Inr u, sA')"
    and "ok (kcEnv sB)" "files sB path = files sA' path"
    and "keeps (holdsPair D R ok rv sv p []) (ksRestoreDB S)"
    and "RecoverKeysByLocalBackup S path sB = (Inr u', sB')"
  shows "fst (GetStoredKeyPairInLibP2PFormat D sB') = Inr (p, klPublic (kdLib D) p) \<and>
    fst (svc_GetMnemonic S sB') = Inl (Err ''No mnemonic seed stored in the keychain'')"
proof -
  have f: "fileHolds (ksBackup S) (files sB) path p"
    using imported_key.create_local [OF assms(1,5,3,6)] assms(8) by (simp add: fileHolds_def)
  have st: "storablePair D p []" "ksUnmarshalPriv S p = Inr p"
    using assms(4,5) demo_no_sep(2) by (simp_all add: holdsPair_def storablePair_def)
  have h: "holdsPair D R ok rv sv p [] sB'"
    by (rule imported_key.recover_local [OF assms(1) conjI [OF assms(2,7)] st(1) assms(3) f st(2) assms(9,10)])
  from imported_key.read_pair [OF h] imported_key.read_mnemonic [OF h]
  show ?thesis using assms(1) by (auto simp: svc_GetMnemonic_def keychainOf_def bindE_apply)
qed

definition deviceC :: "svcMem kcState" where
  "deviceC = emptyDevice\<lparr>kcEnv := (kcEnv emptyDevice)\<lparr>smFiles :=
     svcFiles (snd (CreateLocalKeysBackup demoSvc ''/key'' deviceA))\<rparr>\<rparr>"

theorem local_backup_loses_mnemonic_witness:
  "\<exists>sB'. fst (CreateLocalKeysBackup demoSvc ''/key'' deviceA) = Inr () \<and>
     RecoverKeysByLocalBackup demoSvc ''/key'' deviceC = (Inr (), sB') \<and>
     fst (svc_GetMnemonic demoSvc deviceA) = Inr ''abandon ability'' \<and>
     fst (svc_GetMnemonic demoSvc sB') = Inl (Err ''No mnemonic seed stored in the keychain'')"
proof -
  obtain s1 where s1: "kiKeyPair (keychainOf svcKc) deviceA = (Inr (demoKey, klPublic (kdLib svcKc) demoKey), s1)"
    using imported_key.read_pair [OF deviceA_holds] by blast
  then obtain sA' where A: "CreateLocalKeysBackup demoSvc ''/key'' deviceA = (Inr (), sA')"
    by (simp add: CreateLocalKeysBackup_def MarshalBackup_def obfuscate_def bindE_apply svcBackup_def toyGcm_def)
  have f: "svcFiles deviceC ''/key'' = svcFiles sA' ''/key''" by (simp add: deviceC_def A)
  have e: "backup_env (ksBackup demoSvc) svcOk svcFiles" using svcBackup_env by simp
  have k: "keeps (svcHolds demoKey []) (ksRestoreDB demoSvc)" by (simp add: keeps_ret)
  obtain c where c: "svcFiles deviceC ''/key'' = Some c" "deobfuscate svcBackup c = Inr (backupJson (hexEncode demoKey))"
    using imported_key.create_local [OF _ deviceA_holds e A] f by (auto simp: fileHolds_def)
  have "UnmarshalBackup svcBackup ''/key'' deviceC = (Inr (hexEncode demoKey), deviceC)"
    using c unmarshal_backupJson [OF ascii_hexEncode, of demoKey]
    by (simp add: UnmarshalBackup_def bindE_apply) (simp add: svcBackup_def)
  moreover obtain s2 where "ImportExistingKeyPair svcKc demoKey [] deviceC = (Inr (), s2)" using svc_import by blast
  ultimately obtain sB' where B: "RecoverKeysByLocalBackup demoSvc ''/key'' deviceC = (Inr (), sB')"
    by (simp add: RecoverKeysByLocalBackup_def bindE_apply thenE_apply keychainOf_def restoreOrDelete_def tryE_apply)
  have u: "ksUnmarshalPriv demoSvc p = klUnmarshalPriv (kdLib svcKc) p" for p
    by (simp add: svcKc_def toyLib_def)
  have "fst (svc_GetMnemonic demoSvc deviceA) = Inr ''abandon ability''"
    using imported_key.read_mnemonic [OF deviceA_holds] by (simp add: svc_GetMnemonic_def bindE_apply)
  with local_backup_loses_mnemonic [OF demoSvc_simps(1) svcKc_ok e u deviceA_holds A TrueI f k B] A B
  show ?thesis by simp
qed

text \<open>
  When the databases cannot be restored after a key pair was generated from a mnemonic, the
  service deletes the pair: no public key is found afterwards, and a pair that was stored before the
  call is gone too.
\<close>

theorem failed_restore_deletes_key:
  assumes "ksKc S = keychainOf D" "kc_ok D R ok rv sv"
    and "GenerateKeyFromMnemonic D [WithMnemonic m, WithOverride] s = (Inr m', s1)"
    and "ksRestoreDB S s1 = (Inl (Err e), s2)" "ok (kcEnv s2)" "DeleteKeypair D s2 = (Inr u, s')"
  shows "RestoreKeyPairFromMnemonic S m s = (Inl (Err e), s') \<and> (\<exists>e'. GetStoredPublicKey D s' = (Inl e', s'))"
proof -
  have "RestoreKeyPairFromMnemonic S m s = (Inl (Err e), s')"
    using assms by (simp add: RestoreKeyPairFromMnemonic_def restoreOrDelete_def tryE_apply bindE_apply keychainOf_def)
  moreover have "\<exists>e'. GetStoredPublicKey D s' = (Inl e', s')"
    using imported_key.delete_gone [OF conjI [OF assms(2,5)], of u s'] assms(6) by (simp add: keychainOf_def)
  ultimately show ?thesis ..
qed

definition offlineSvc :: "svcMem kcState keySvc" where
  "offlineSvc = demoSvc\<lparr>ksRestoreDB := failE (Err ''offline'')\<rparr>"

theorem failed_restore_deletes_key_witness:
  "\<exists>s' e. fst (GetStoredPublicKey svcKc deviceA) = Inr (rev demoKey) \<and>
     RestoreKeyPairFromMnemonic offlineSvc ''other words'' deviceA = (Inl (Err ''offline''), s') \<and>
     GetStoredPublicKey svcKc s' = (Inl e, s')"
proof -
  let ?g = "GenerateKeyFromMnemonic svcKc [WithMnemonic ''other words'', WithOverride] deviceA"
  let ?d = "DeleteKeypair svcKc (snd ?g)"
  have "fst ?g = Inr ''other words''" by code_simp
  then have g: "?g = (Inr ''other words'', snd ?g)" by (simp add: prod_eq_iff)
  have r: "ksRestoreDB offlineSvc (snd ?g) = (Inl (Err ''offline''), snd ?g)" by (simp add: offlineSvc_def)
  have "fst ?d = Inr ()" by code_simp
  then have d: "?d = (Inr (), snd ?d)" by (simp add: prod_eq_iff)
  have p: "fst (GetStoredPublicKey svcKc deviceA) = Inr (rev demoKey)" by code_simp
  have "ksKc offlineSvc = keychainOf svcKc" by (simp add: offlineSvc_def)
  from failed_restore_deletes_key [OF this svcKc_ok g r TrueI d] p show ?thesis by blast
qed

end
