(* ===== verification/ModelDb.thy ===== *)
theory ModelDb
  imports Threads
begin

text \<open>
  The thread collections the model keeps its rows in.

  A collection is a parameter: \<open>'r coll\<close> is the threads client at one collection, with the calls
  \<open>core/textile/model\<close> makes.  A query is the condition of \<open>db.Where(\<dots>)\<close>: all of its criteria, or any
  of its alternatives; \<open>None\<close> is a nil query.  \<open>coll_env\<close> is what a collection documents; \<open>memColl\<close>
  is one in memory.
\<close>

subsection \<open>Queries\<close>

datatype fval = VStr bytes | VBool bool | VBytes bytes

datatype query = Query
  (qAnds: "(bytes \<times> fval) list") (qOrs: "query list") (qLimit: int) (qSeek: bytes)
  (qSort: "(bytes \<times> bool) option")

definition emptyQuery :: query where
  "emptyQuery = Query [] [] 0 [] None"

definition dbWhere :: "bytes \<Rightarrow> fval \<Rightarrow> query" where
  "dbWhere p v = Query [(p, v)] [] 0 [] None"

definition dbAnd :: "query \<Rightarrow> bytes \<Rightarrow> fval \<Rightarrow> query" where
  "dbAnd q p v = Query (qAnds q @ [(p, v)]) (qOrs q) (qLimit q) (qSeek q) (qSort q)"

definition dbOr :: "query \<Rightarrow> query \<Rightarrow> query" where
  "dbOr q q' = Query (qAnds q) (qOrs q @ [q']) (qLimit q) (qSeek q) (qSort q)"

definition dbLimitTo :: "query \<Rightarrow> int \<Rightarrow> query" where
  "dbLimitTo q n = Query (qAnds q) (qOrs q) n (qSeek q) (qSort q)"

definition dbSeekID :: "query \<Rightarrow> bytes \<Rightarrow> query" where
  "dbSeekID q i = Query (qAnds q) (qOrs q) (qLimit q) i (qSort q)"

definition dbSortBy :: "query \<Rightarrow> bytes \<Rightarrow> query" where
  "dbSortBy q p = Query (qAnds q) (qOrs q) (qLimit q) (qSeek q) (Some (p, False))"

lemmas query_defs = emptyQuery_def dbWhere_def dbAnd_def dbOr_def dbLimitTo_def dbSeekID_def dbSortBy_def

text \<open>\<open>f\<close> gives the fields of a row by their JSON names.\<close>

fun qMatch :: "(bytes \<Rightarrow> fval option) \<Rightarrow> query \<Rightarrow> bool" where
  "qMatch f (Query ands ors l s o') \<longleftrightarrow>
     (\<forall>(p, v) \<in> set ands. f p = Some v) \<or> (\<exists>q \<in> set ors. qMatch f q)"

lemma qMatch_ops [simp]:
  "qMatch f (dbWhere p v) \<longleftrightarrow> f p = Some v"
  "qMatch f emptyQuery"
  "qMatch f (dbOr q q') \<longleftrightarrow> qMatch f q \<or> qMatch f q'"
  "qOrs q = [] \<Longrightarrow> qMatch f (dbAnd q p v) \<longleftrightarrow> qMatch f q \<and> f p = Some v"
  "qOrs (dbWhere p v) = []" "qOrs (dbAnd q p v) = qOrs q"
  by (cases q; cases q'; auto simp: query_defs)+

definition plainQuery :: "query \<Rightarrow> bool" where
  "plainQuery q \<longleftrightarrow> qLimit q = 0 \<and> qSeek q = [] \<and> qSort q = None"

lemma plainQuery_ops [simp]:
  "plainQuery (dbWhere p v)" "plainQuery (dbAnd q p v) = plainQuery q"
  "plainQuery (dbOr q q') = plainQuery q" "plainQuery emptyQuery"
  by (simp_all add: plainQuery_def query_defs)

subsection \<open>Collections\<close>

record ('s, 'r) coll =
  clNew :: "ctx \<Rightarrow> bytes \<Rightarrow> collConfig \<Rightarrow> ('s, unit) eff"
  clUpdate :: "ctx \<Rightarrow> bytes \<Rightarrow> collConfig \<Rightarrow> ('s, unit) eff"
  clFind :: "ctx \<Rightarrow> bytes \<Rightarrow> query option \<Rightarrow> ('s, 'r list option) eff"
  clCreate :: "ctx \<Rightarrow> bytes \<Rightarrow> 'r list \<Rightarrow> ('s, bytes list) eff"
  clSave :: "ctx \<Rightarrow> bytes \<Rightarrow> 'r list \<Rightarrow> ('s, unit) eff"
  clDelete :: "ctx \<Rightarrow> bytes \<Rightarrow> bytes list \<Rightarrow> ('s, unit) eff"

text \<open>
  \<open>rows s\<close> are the rows of the collection by database and instance ID, \<open>fld\<close> reads a field of a row,
  \<open>rid\<close> its ID and \<open>setID\<close> writes it; \<open>uniq\<close> holds of rows that the unique indexes admit.  A call that
  fails changes nothing.
\<close>

definition coll_env :: "('s, 'r) coll \<Rightarrow> ('s \<Rightarrow> bool) \<Rightarrow> ('s \<Rightarrow> bytes \<Rightarrow> bytes \<rightharpoonup> 'r) \<Rightarrow>
    ('r \<Rightarrow> bytes \<Rightarrow> fval option) \<Rightarrow> ('r \<Rightarrow> bytes) \<Rightarrow> (bytes \<Rightarrow> 'r \<Rightarrow> 'r) \<Rightarrow> ((bytes \<rightharpoonup> 'r) \<Rightarrow> bool) \<Rightarrow> bool" where
  "coll_env C ok rows fld rid setID uniq \<longleftrightarrow>
     (\<forall>c d cfg. stable ok rows (clNew C c d cfg)) \<and>
     (\<forall>c d cfg. stable ok rows (clUpdate C c d cfg)) \<and>
     (\<forall>c d q. stable ok rows (clFind C c d q)) \<and>
     (\<forall>c d q s xs s'. ok s \<longrightarrow> plainQuery q \<longrightarrow> clFind C c d (Some q) s = (Inr xs, s') \<longrightarrow>
        (\<exists>ys. xs = Some ys \<and> set ys = {x \<in> ran (rows s d). qMatch (fld x) q})) \<and>
     (\<forall>c d x s r s'. ok s \<longrightarrow> clCreate C c d [x] s = (r, s') \<longrightarrow> ok s' \<and>
        (case r of Inl _ \<Rightarrow> rows s' = rows s
         | Inr is \<Rightarrow> \<exists>i. is = [i] \<and> i \<noteq> [] \<and> rows s d i = None \<and>
             rows s' = (rows s)(d := (rows s d)(i \<mapsto> setID i x)) \<and> uniq (rows s' d))) \<and>
     (\<forall>c d x s r s'. ok s \<longrightarrow> clSave C c d [x] s = (r, s') \<longrightarrow> ok s' \<and>
        (case r of Inl _ \<Rightarrow> rows s' = rows s
         | Inr _ \<Rightarrow> rows s' = (rows s)(d := (rows s d)(rid x \<mapsto> x)) \<and> uniq (rows s' d))) \<and>
     (\<forall>c d is s r s'. ok s \<longrightarrow> clDelete C c d is s = (r, s') \<longrightarrow> ok s' \<and>
        (case r of Inl _ \<Rightarrow> rows s' = rows s
         | Inr _ \<Rightarrow> rows s' = (rows s)(d := (rows s d) |` (- set is)))) \<and>
     (\<forall>s d i x. ok s \<longrightarrow> rows s d i = Some x \<longrightarrow> rid x = i)"

lemma coll_envD:
  assumes "coll_env C ok rows fld rid setID uniq"
  shows "stable ok rows (clNew C c d cfg)" "stable ok rows (clUpdate C c d cfg)"
    "stable ok rows (clFind C c d q')"
    "ok s \<Longrightarrow> plainQuery q \<Longrightarrow> clFind C c d (Some q) s = (Inr xs, s') \<Longrightarrow>
        \<exists>ys. xs = Some ys \<and> set ys = {x \<in> ran (rows s d). qMatch (fld x) q}"
    "ok s \<Longrightarrow> clCreate C c d [x] s = (Inr is, s') \<Longrightarrow> ok s' \<and> (\<exists>i. is = [i] \<and> i \<noteq> [] \<and> rows s d i = None \<and>
        rows s' = (rows s)(d := (rows s d)(i \<mapsto> setID i x)) \<and> uniq (rows s' d))"
    "ok s \<Longrightarrow> clCreate C c d [x] s = (Inl e, s') \<Longrightarrow> ok s' \<and> rows s' = rows s"
    "ok s \<Longrightarrow> clSave C c d [x] s = (Inr u, s') \<Longrightarrow>
        ok s' \<and> rows s' = (rows s)(d := (rows s d)(rid x \<mapsto> x)) \<and> uniq (rows s' d)"
    "ok s \<Longrightarrow> clSave C c d [x] s = (Inl e, s') \<Longrightarrow> ok s' \<and> rows s' = rows s"
    "ok s \<Longrightarrow> clDelete C c d is s = (Inr u, s') \<Longrightarrow> ok s' \<and> rows s' = (rows s)(d := (rows s d) |` (- set is))"
    "ok s \<Longrightarrow> clDelete C c d is s = (Inl e, s') \<Longrightarrow> ok s' \<and> rows s' = rows s"
    "ok s \<Longrightarrow> rows s d i = Some y \<Longrightarrow> rid y = i"
proof -
  note c1 = assms [unfolded coll_env_def, THEN conjunct1]
  note r1 = assms [unfolded coll_env_def, THEN conjunct2]
  note c2 = r1 [THEN conjunct1] note r2 = r1 [THEN conjunct2]
  note c3 = r2 [THEN conjunct1] note r3 = r2 [THEN conjunct2]
  note c4 = r3 [THEN conjunct1] note r4 = r3 [THEN conjunct2]
  note c5 = r4 [THEN conjunct1] note r5 = r4 [THEN conjunct2]
  note c6 = r5 [THEN conjunct1] note r6 = r5 [THEN conjunct2]
  note c7 = r6 [THEN conjunct1] note c8 = r6 [THEN conjunct2]
  show "rid y = i" if "ok s" "rows s d i = Some y"
    using c8 that by blast
  show "stable ok rows (clNew C c d cfg)" "stable ok rows (clUpdate C c d cfg)"
    "stable ok rows (clFind C c d q')"
    using c1 c2 c3 by blast+
  show "ok s \<Longrightarrow> plainQuery q \<Longrightarrow> clFind C c d (Some q) s = (Inr xs, s') \<Longrightarrow>
        \<exists>ys. xs = Some ys \<and> set ys = {x \<in> ran (rows s d). qMatch (fld x) q}"
    by (rule c4 [THEN spec, THEN spec, THEN spec, THEN spec, THEN spec, THEN spec, THEN mp, THEN mp, THEN mp])
  note e5 = c5 [THEN spec, THEN spec, THEN spec, THEN spec, THEN spec, THEN spec, THEN mp, THEN mp]
  note e6 = c6 [THEN spec, THEN spec, THEN spec, THEN spec, THEN spec, THEN spec, THEN mp, THEN mp]
  note e7 = c7 [THEN spec, THEN spec, THEN spec, THEN spec, THEN spec, THEN spec, THEN mp, THEN mp]
  show "ok s' \<and> (\<exists>i. is = [i] \<and> i \<noteq> [] \<and> rows s d i = None \<and>
        rows s' = (rows s)(d := (rows s d)(i \<mapsto> setID i x)) \<and> uniq (rows s' d))"
    if "ok s" "clCreate C c d [x] s = (Inr is, s')"
    by (rule e5 [OF that, unfolded sum.case])
  show "ok s' \<and> rows s' = rows s" if "ok s" "clCreate C c d [x] s = (Inl e, s')"
    by (rule e5 [OF that, unfolded sum.case])
  show "ok s' \<and> rows s' = (rows s)(d := (rows s d)(rid x \<mapsto> x)) \<and> uniq (rows s' d)"
    if "ok s" "clSave C c d [x] s = (Inr u, s')"
    by (rule e6 [OF that, unfolded sum.case])
  show "ok s' \<and> rows s' = rows s" if "ok s" "clSave C c d [x] s = (Inl e, s')"
    by (rule e6 [OF that, unfolded sum.case])
  show "ok s' \<and> rows s' = (rows s)(d := (rows s d) |` (- set is))"
    if "ok s" "clDelete C c d is s = (Inr u, s')"
    by (rule e7 [OF that, unfolded sum.case])
  show "ok s' \<and> rows s' = rows s" if "ok s" "clDelete C c d is s = (Inl e, s')"
    by (rule e7 [OF that, unfolded sum.case])
qed

end
