(* ===== verification/Model.thy ===== *)
theory Model
  imports ModelDb
begin

text \<open>
  The model (\<open>core/textile/model\<close>): buckets, mirror files, received and sent files, shared public
  keys and the search index, kept as rows of collections in the deterministic \<open>metathread\<close>.

  Every operation first finds or creates that thread (\<open>FindOrCreateDeterministicThread\<close>), readies a
  context and creates the collection, whose error (it exists already) is dropped.
\<close>

subsection \<open>model.go\<close>

record 's searchEngine =
  seStart :: "('s, unit) eff"
  seInsertFileData :: "insertIndexRecord \<Rightarrow> ('s, indexRecord) eff"
  seQueryFileData :: "bytes \<Rightarrow> int \<Rightarrow> ('s, indexRecord list) eff"
  seDeleteFileData :: "deleteIndexRecord \<Rightarrow> ('s, unit) eff"

record 's modelDeps =
  mdThreads :: "'s threadDeps"
  mdBuckets :: "('s, bucketSchema) coll"
  mdMirror :: "('s, mirrorFileSchema) coll"
  mdReceived :: "('s, receivedFileSchema) coll"
  mdSent :: "('s, sentFileSchema) coll"
  mdShared :: "('s, sharedPublicKeySchema) coll"
  mdRand :: "nat \<Rightarrow> ('s, bytes) eff"
  mdNow :: "('s, int) eff"
  mdShouldForceRestore :: bool
  mdFsearch :: "'s searchEngine"

definition metaThreadName :: bytes where "metaThreadName = ''metathreadV1''"

definition bucketModelName :: bytes where "bucketModelName = ''BucketMetadata''"
definition mirrorFileModelName :: bytes where "mirrorFileModelName = ''MirrorFile''"
definition receivedFileModelName :: bytes where "receivedFileModelName = ''ReceivedFile''"
definition sentFileModelName :: bytes where "sentFileModelName = ''SentFile''"
definition sharedPublicKeyModel :: bytes where "sharedPublicKeyModel = ''SharedPublicKey''"

definition GetBucketCollectionConfig :: collConfig where
  "GetBucketCollectionConfig = \<lparr> ccName = bucketModelName, ccIndexes = [(''slug'', True)] \<rparr>"

definition GetMirrorFileCollectionConfig :: collConfig where
  "GetMirrorFileCollectionConfig = \<lparr> ccName = mirrorFileModelName, ccIndexes = [(''path'', True)] \<rparr>"

definition GetReceivedFileCollectionConfig :: collConfig where
  "GetReceivedFileCollectionConfig = \<lparr> ccName = receivedFileModelName, ccIndexes = [] \<rparr>"

definition GetSentFileCollectionConfig :: collConfig where
  "GetSentFileCollectionConfig = \<lparr> ccName = sentFileModelName, ccIndexes = [] \<rparr>"

definition GetSharedPublicKeyCollectionConfig :: collConfig where
  "GetSharedPublicKeyCollectionConfig = \<lparr> ccName = sharedPublicKeyModel, ccIndexes = [] \<rparr>"

definition GetAllCollectionConfigs :: "collConfig list" where
  "GetAllCollectionConfigs =
     [GetBucketCollectionConfig, GetMirrorFileCollectionConfig, GetReceivedFileCollectionConfig,
      GetSentFileCollectionConfig, GetSharedPublicKeyCollectionConfig]"

definition findOrCreateMetaThreadID :: "'s modelDeps \<Rightarrow> ctx \<Rightarrow> ('s, bytes) eff" where
  "findOrCreateMetaThreadID M c =
     FindOrCreateDeterministicThread (mdThreads M) c MetathreadThreadVariant metaThreadName
       (mdShouldForceRestore M) GetAllCollectionConfigs"

definition getMetaThreadContext :: "'s modelDeps \<Rightarrow> ctx \<Rightarrow> ('s, ctx \<times> bytes) eff" where
  "getMetaThreadContext M c =
     bindE (findOrCreateMetaThreadID M c) (\<lambda>dbID.
     bindE (GetThreadContext (mdThreads M) (Some (tdGetToken (mdThreads M))) c metaThreadName dbID False)
     (\<lambda>metathreadCtx. retE (metathreadCtx, dbID)))"

text \<open>The first of the rows found; none found is the error \<open>e\<close>.\<close>

definition firstRow :: "err \<Rightarrow> 'r list option \<Rightarrow> ('s, 'r) eff" where
  "firstRow e raw = (case raw of Some (r # _) \<Rightarrow> retE r | _ \<Rightarrow> failE e)"

definition rowsOf :: "'r list option \<Rightarrow> 'r list" where
  "rowsOf raw = (case raw of None \<Rightarrow> [] | Some rs \<Rightarrow> rs)"

definition initColl :: "'s modelDeps \<Rightarrow> ('s, 'r) coll \<Rightarrow> collConfig \<Rightarrow> ctx \<Rightarrow> ('s, ctx \<times> bytes) eff" where
  "initColl M C cfg c =
     bindE (getMetaThreadContext M c) (\<lambda>(metaCtx, dbID).
     bindE (tryE (clNew C metaCtx dbID cfg)) (\<lambda>_. retE (metaCtx, dbID)))"

subsection \<open>buckets.go\<close>

definition errBucketNotFound :: err where "errBucketNotFound = Err ''Bucket not found''"

definition BucketEncryptionKeyLength :: nat where "BucketEncryptionKeyLength = 32 + 16 + 32"

definition initBucketModel :: "'s modelDeps \<Rightarrow> ctx \<Rightarrow> ('s, ctx \<times> bytes) eff" where
  "initBucketModel M c = initColl M (mdBuckets M) GetBucketCollectionConfig c"

definition FindBucket :: "'s modelDeps \<Rightarrow> ctx \<Rightarrow> bytes \<Rightarrow> ('s, bucketSchema) eff" where
  "FindBucket M c bucketSlug =
     bindE (initBucketModel M c) (\<lambda>(metaCtx, dbID).
     bindE (clFind (mdBuckets M) metaCtx dbID (Some (dbWhere ''slug'' (VStr bucketSlug)))) (\<lambda>rawBuckets.
       firstRow errBucketNotFound rawBuckets))"

definition emptyMirror :: mirrorBucketSchema where
  "emptyMirror = \<lparr> mbRemoteDbID = [], mbRemoteBucketKey = [], mbHubAddr = [], mbRemoteBucketSlug = [] \<rparr>"

definition newBucketRow :: "bytes \<Rightarrow> bytes \<Rightarrow> bytes \<Rightarrow> bucketSchema" where
  "newBucketRow bucketSlug dbID key =
     \<lparr> bsID = [], bsSlug = bucketSlug, bsBackup = True, bsEncryptionKey = key, bsDbID = dbID,
       bsMirror = Some emptyMirror \<rparr>"

text \<open>The schema that is returned is built field by field, without the encryption key.\<close>

definition CreateBucket :: "'s modelDeps \<Rightarrow> ctx \<Rightarrow> bytes \<Rightarrow> bytes \<Rightarrow> ('s, bucketSchema) eff" where
  "CreateBucket M c bucketSlug dbID =
     bindE (tryE (FindBucket M c bucketSlug)) (\<lambda>r.
       case r of
         Inr existingBucket \<Rightarrow> retE existingBucket
       | Inl _ \<Rightarrow>
           bindE (initBucketModel M c) (\<lambda>(metaCtx, metaDbID).
           bindE (tryE (mdRand M BucketEncryptionKeyLength)) (\<lambda>k.
             case k of
               Inl e \<Rightarrow> failE (Err (''failed to generate bucket encryption key: '' @ e))
             | Inr key \<Rightarrow>
                 bindE (clCreate (mdBuckets M) metaCtx metaDbID [newBucketRow bucketSlug dbID key]) (\<lambda>res.
                 bindE (liftE (idx res 0)) (\<lambda>i.
                   retE \<lparr> bsID = i, bsSlug = bucketSlug, bsBackup = True, bsEncryptionKey = [],
                          bsDbID = dbID, bsMirror = Some emptyMirror \<rparr>)))))"

definition UpsertBucket :: "'s modelDeps \<Rightarrow> ctx \<Rightarrow> bytes \<Rightarrow> bytes \<Rightarrow> ('s, bucketSchema) eff" where
  "UpsertBucket M c bucketSlug dbID =
     bindE (initBucketModel M c) (\<lambda>(metaCtx, metaDbID).
     bindE (tryE (FindBucket M c bucketSlug)) (\<lambda>r.
       case r of
         Inr b \<Rightarrow>
           (let existingBucket = b\<lparr>bsDbID := dbID\<rparr> in
            bindE (tryE (clSave (mdBuckets M) metaCtx metaDbID [existingBucket])) (\<lambda>_.
              retE existingBucket))
       | Inl _ \<Rightarrow> CreateBucket M c bucketSlug dbID))"

definition BucketBackupToggle :: "'s modelDeps \<Rightarrow> ctx \<Rightarrow> bytes \<Rightarrow> bool \<Rightarrow> ('s, bucketSchema) eff" where
  "BucketBackupToggle M c bucketSlug backup =
     bindE (initBucketModel M c) (\<lambda>(metaCtx, metaDbID).
     bindE (FindBucket M c bucketSlug) (\<lambda>b.
       let bucket = b\<lparr>bsBackup := backup\<rparr> in
       thenE (clSave (mdBuckets M) metaCtx metaDbID [bucket]) (retE bucket)))"

text \<open>An error of \<open>Find\<close> is an empty list.\<close>

definition ListBuckets :: "'s modelDeps \<Rightarrow> ctx \<Rightarrow> ('s, bucketSchema list) eff" where
  "ListBuckets M c =
     bindE (initBucketModel M c) (\<lambda>(metaCtx, dbID).
     bindE (tryE (clFind (mdBuckets M) metaCtx dbID (Some emptyQuery))) (\<lambda>r.
       case r of Inl _ \<Rightarrow> retE [] | Inr rawBuckets \<Rightarrow> retE (rowsOf rawBuckets)))"

subsection \<open>mirror_file.go\<close>

definition errMirrorFileNotFound :: err where "errMirrorFileNotFound = Err ''Mirror file not found''"

definition errMirrorFileAlreadyExists :: err where
  "errMirrorFileAlreadyExists = Err ''Mirror file already exists''"

definition initMirrorFileModel :: "'s modelDeps \<Rightarrow> ctx \<Rightarrow> ('s, ctx \<times> bytes) eff" where
  "initMirrorFileModel M c =
     bindE (initColl M (mdMirror M) GetMirrorFileCollectionConfig c) (\<lambda>(metaCtx, dbID).
     bindE (tryE (clUpdate (mdMirror M) metaCtx dbID
             \<lparr> ccName = mirrorFileModelName, ccIndexes = [] \<rparr>)) (\<lambda>_. retE (metaCtx, dbID)))"

text \<open>The fields of the mirror are promoted from an embedded pointer: nil is a panic.\<close>

definition CreateMirrorBucket :: "'s modelDeps \<Rightarrow> ctx \<Rightarrow> bytes \<Rightarrow> mirrorBucketSchema \<Rightarrow> ('s, bucketSchema) eff" where
  "CreateMirrorBucket M c bucketSlug mirrorBucket =
     bindE (initBucketModel M c) (\<lambda>(metaCtx, metaDbID).
     bindE (FindBucket M c bucketSlug) (\<lambda>b.
       case bsMirror b of
         None \<Rightarrow> failE (Panic ''nil pointer dereference'')
       | Some _ \<Rightarrow>
           (let bucket = b\<lparr>bsMirror := Some mirrorBucket\<rparr> in
            thenE (clSave (mdBuckets M) metaCtx metaDbID [bucket]) (retE bucket))))"

text \<open>One alternative per path; no path at all is a nil query.\<close>

fun orQuery :: "query list \<Rightarrow> query option" where
  "orQuery [] = None"
| "orQuery (q # qs) = Some (foldl dbOr q qs)"

definition FindMirrorFileByPaths ::
  "'s modelDeps \<Rightarrow> ctx \<Rightarrow> bytes list \<Rightarrow> ('s, bytes \<rightharpoonup> mirrorFileSchema) eff" where
  "FindMirrorFileByPaths M c paths =
     bindE (initMirrorFileModel M c) (\<lambda>(metaCtx, dbID).
     bindE (clFind (mdMirror M) metaCtx dbID
             (orQuery (map (\<lambda>p. dbWhere ''path'' (VStr (pathClean p))) paths))) (\<lambda>raw.
       retE (map_of (rev (map (\<lambda>m. (msPath m, m)) (rowsOf raw))))))"

definition FindMirrorFileByPathAndBucketSlug ::
  "'s modelDeps \<Rightarrow> ctx \<Rightarrow> bytes \<Rightarrow> bytes \<Rightarrow> ('s, mirrorFileSchema option) eff" where
  "FindMirrorFileByPathAndBucketSlug M c path bucketSlug =
     bindE (initMirrorFileModel M c) (\<lambda>(metaCtx, dbID).
     bindE (clFind (mdMirror M) metaCtx dbID (Some (dbWhere ''path'' (VStr path)))) (\<lambda>raw.
       retE (case rowsOf raw of [] \<Rightarrow> None | m # _ \<Rightarrow> Some m)))"

definition CreateMirrorFile :: "'s modelDeps \<Rightarrow> ctx \<Rightarrow> mirrorFile \<Rightarrow> ('s, mirrorFileSchema) eff" where
  "CreateMirrorFile M c mf =
     bindE (initMirrorFileModel M c) (\<lambda>(metaCtx, metaDbID).
     bindE (FindMirrorFileByPathAndBucketSlug M c (mfPath mf) (mfBucketSlug mf)) (\<lambda>found.
       if found \<noteq> None then failE errMirrorFileAlreadyExists
       else
         (let newInstance =
            \<lparr> msID = [], msPath = mfPath mf, msBucketSlug = mfBucketSlug mf, msBackup = mfBackup mf,
              msShared = mfShared mf, msBackupInProgress = mfBackupInProgress mf,
              msRestoreInProgress = mfRestoreInProgress mf, msDbID = [] \<rparr> in
          bindE (clCreate (mdMirror M) metaCtx metaDbID [newInstance]) (\<lambda>res.
          bindE (liftE (idx res 0)) (\<lambda>i. retE (newInstance\<lparr>msID := i\<rparr>))))))"

text \<open>What is returned is the row as it was found, not as it was saved.\<close>

definition UpdateMirrorFile :: "'s modelDeps \<Rightarrow> ctx \<Rightarrow> mirrorFileSchema \<Rightarrow> ('s, mirrorFileSchema) eff" where
  "UpdateMirrorFile M c mirrorFile =
     bindE (initMirrorFileModel M c) (\<lambda>(metaCtx, metaDbID).
     bindE (FindMirrorFileByPathAndBucketSlug M c (msPath mirrorFile) (msBucketSlug mirrorFile)) (\<lambda>found.
       case found of
         None \<Rightarrow> failE errMirrorFileNotFound
       | Some mf \<Rightarrow> thenE (clSave (mdMirror M) metaCtx metaDbID [mirrorFile]) (retE mf)))"

subsection \<open>received_file.go\<close>

definition errReceivedFileNotFound :: err where
  "errReceivedFileNotFound = Err ''Received file not found''"

definition IsPublicLinkReceived :: "receivedFileSchema \<Rightarrow> bool" where
  "IsPublicLinkReceived r \<longleftrightarrow> rfInvitationId r = []"

definition initReceivedFileModel :: "'s modelDeps \<Rightarrow> ctx \<Rightarrow> ('s, ctx \<times> bytes) eff" where
  "initReceivedFileModel M c = initColl M (mdReceived M) GetReceivedFileCollectionConfig c"

definition FindReceivedFile ::
  "'s modelDeps \<Rightarrow> ctx \<Rightarrow> bytes \<Rightarrow> bytes \<Rightarrow> bytes \<Rightarrow> ('s, receivedFileSchema) eff" where
  "FindReceivedFile M c remoteDbID bucket path =
     bindE (initReceivedFileModel M c) (\<lambda>(metaCtx, dbID).
     bindE (clFind (mdReceived M) metaCtx dbID
             (Some (dbAnd (dbAnd (dbWhere ''dbId'' (VStr remoteDbID)) ''bucket'' (VStr bucket))
                      ''path'' (VStr path)))) (\<lambda>rawFiles.
       firstRow errReceivedFileNotFound rawFiles))"

definition FindPublicLinkReceivedFile :: "'s modelDeps \<Rightarrow> ctx \<Rightarrow> bytes \<Rightarrow> ('s, receivedFileSchema) eff" where
  "FindPublicLinkReceivedFile M c ipfsHash =
     bindE (initReceivedFileModel M c) (\<lambda>(metaCtx, dbID).
     bindE (clFind (mdReceived M) metaCtx dbID (Some (dbWhere ''publicIpfsHash'' (VStr ipfsHash)))) (\<lambda>rawFiles.
       firstRow errReceivedFileNotFound rawFiles))"

definition createReceivedFile :: "'s modelDeps \<Rightarrow> ctx \<Rightarrow> receivedFileSchema \<Rightarrow> ('s, receivedFileSchema) eff" where
  "createReceivedFile M c inst =
     bindE (initReceivedFileModel M c) (\<lambda>(metaCtx, metaDbID).
     bindE (clCreate (mdReceived M) metaCtx metaDbID [inst]) (\<lambda>res.
     bindE (liftE (idx res 0)) (\<lambda>i. retE (inst\<lparr>rfID := i\<rparr>))))"

definition receivedRow ::
  "fullPath \<Rightarrow> bytes \<Rightarrow> bool \<Rightarrow> bytes \<Rightarrow> bytes \<Rightarrow> int \<Rightarrow> receivedFileSchema" where
  "receivedRow file invitationID accepted key inviterPubKey now =
     \<lparr> rfID = [], rfDbID = fpDbId file, rfBucket = fpBucket file, rfPath = fpPath file,
       rfInvitationId = invitationID, rfBucketKey = fpBucketKey file, rfEncryptionKey = key,
       rfSharedBy = inviterPubKey, rfPublicIpfsHash = [], rfFilePassword = [], rfFileName = [],
       rfFileSize = [], rfAccepted = accepted, rfCreatedAt = now \<rparr>"

definition CreateReceivedFileViaInvitation ::
  "'s modelDeps \<Rightarrow> ctx \<Rightarrow> fullPath \<Rightarrow> bytes \<Rightarrow> bool \<Rightarrow> bytes \<Rightarrow> bytes \<Rightarrow> ('s, receivedFileSchema) eff" where
  "CreateReceivedFileViaInvitation M c file invitationID accepted key inviterPubKey =
     bindE (tryE (FindReceivedFile M c (fpDbId file) (fpBucket file) (fpPath file))) (\<lambda>r.
       case r of
         Inr existingFile \<Rightarrow> retE existingFile
       | Inl _ \<Rightarrow>
           bindE (mdNow M) (\<lambda>now.
             createReceivedFile M c (receivedRow file invitationID accepted key inviterPubKey now)))"

definition CreateReceivedFileViaPublicLink ::
  "'s modelDeps \<Rightarrow> ctx \<Rightarrow> bytes \<Rightarrow> bytes \<Rightarrow> bytes \<Rightarrow> bytes \<Rightarrow> bool \<Rightarrow> ('s, receivedFileSchema) eff" where
  "CreateReceivedFileViaPublicLink M c ipfsHash password filename fileSize accepted =
     bindE (tryE (FindPublicLinkReceivedFile M c ipfsHash)) (\<lambda>r.
       case r of
         Inr existingFile \<Rightarrow> retE existingFile
       | Inl _ \<Rightarrow>
           bindE (mdNow M) (\<lambda>now.
             createReceivedFile M c
               \<lparr> rfID = [], rfDbID = [], rfBucket = [], rfPath = [], rfInvitationId = [],
                 rfBucketKey = [], rfEncryptionKey = [], rfSharedBy = [], rfPublicIpfsHash = ipfsHash,
                 rfFilePassword = password, rfFileName = filename, rfFileSize = fileSize,
                 rfAccepted = accepted, rfCreatedAt = now \<rparr>))"

text \<open>A nil result is asserted to be a slice, which panics.\<close>

definition FindReceivedFilesByIds :: "'s modelDeps \<Rightarrow> ctx \<Rightarrow> bytes list \<Rightarrow> ('s, receivedFileSchema list) eff" where
  "FindReceivedFilesByIds M c ids =
     bindE (initReceivedFileModel M c) (\<lambda>(metaCtx, dbID).
     bindE (clFind (mdReceived M) metaCtx dbID
             (orQuery (map (\<lambda>i. dbWhere ''invitationId'' (VStr i)) ids))) (\<lambda>raw.
       case raw of
         None \<Rightarrow> failE (Panic ''interface conversion: interface is nil'')
       | Some fileSchemas \<Rightarrow> retE fileSchemas))"

definition ListReceivedFiles ::
  "'s modelDeps \<Rightarrow> ctx \<Rightarrow> bool \<Rightarrow> bytes \<Rightarrow> int \<Rightarrow> ('s, receivedFileSchema list) eff" where
  "ListReceivedFiles M c accepted seek limit =
     bindE (initReceivedFileModel M c) (\<lambda>(metaCtx, dbID).
       let q = dbLimitTo (dbWhere ''accepted'' (VBool accepted)) limit;
           query = (if seek \<noteq> [] then dbSeekID q seek else q) in
       bindE (clFind (mdReceived M) metaCtx dbID (Some query)) (\<lambda>rawFiles. retE (rowsOf rawFiles)))"

definition revokedQuery :: "fullPath \<Rightarrow> bytes \<Rightarrow> query" where
  "revokedQuery path key =
     dbAnd (dbAnd (dbAnd (dbWhere ''dbId'' (VStr (fpDbId path))) ''bucket'' (VStr (fpBucketKey path)))
       ''path'' (VStr (fpPath path))) ''encryptionKey'' (VBytes key)"

text \<open>The query of each path with the key at its index; a missing key panics.\<close>

fun revokedQueries :: "fullPath list \<Rightarrow> bytes list \<Rightarrow> err + query list" where
  "revokedQueries [] keys = Inr []"
| "revokedQueries (p # ps) keys =
     bindS (idx keys 0) (\<lambda>k. bindS (revokedQueries ps (tl keys)) (\<lambda>qs. Inr (revokedQuery p k # qs)))"

definition DeleteReceivedFiles :: "'s modelDeps \<Rightarrow> ctx \<Rightarrow> fullPath list \<Rightarrow> bytes list \<Rightarrow> ('s, unit) eff" where
  "DeleteReceivedFiles M c paths keys =
     (if paths = [] then retE ()
      else
        bindE (initReceivedFileModel M c) (\<lambda>(metaCtx, dbID).
        bindE (liftE (revokedQueries paths keys)) (\<lambda>qs.
        bindE (clFind (mdReceived M) metaCtx dbID (orQuery qs)) (\<lambda>rawFiles.
          case rawFiles of
            None \<Rightarrow> retE ()
          | Some files \<Rightarrow> clDelete (mdReceived M) metaCtx dbID (map rfID files)))))"

definition ListReceivedPublicFiles ::
  "'s modelDeps \<Rightarrow> ctx \<Rightarrow> bytes \<Rightarrow> bool \<Rightarrow> ('s, receivedFileSchema list) eff" where
  "ListReceivedPublicFiles M c cidHash accepted =
     bindE (initReceivedFileModel M c) (\<lambda>(metaCtx, dbID).
     bindE (clFind (mdReceived M) metaCtx dbID
             (Some (dbAnd (dbWhere ''accepted'' (VBool accepted)) ''publicIpfsHash'' (VStr cidHash)))) (\<lambda>rawFiles.
       retE (rowsOf rawFiles)))"

subsection \<open>sent_file.go\<close>

definition errSentFileNotFound :: err where "errSentFileNotFound = Err ''Sent file not found''"

definition initSentFileModel :: "'s modelDeps \<Rightarrow> ctx \<Rightarrow> ('s, ctx \<times> bytes) eff" where
  "initSentFileModel M c = initColl M (mdSent M) GetSentFileCollectionConfig c"

definition FindSentFile :: "'s modelDeps \<Rightarrow> ctx \<Rightarrow> bytes \<Rightarrow> bytes \<Rightarrow> bytes \<Rightarrow> ('s, sentFileSchema) eff" where
  "FindSentFile M c remoteDbID bucket path =
     bindE (initSentFileModel M c) (\<lambda>(metaCtx, dbID).
     bindE (clFind (mdSent M) metaCtx dbID
             (Some (dbAnd (dbAnd (dbWhere ''dbId'' (VStr remoteDbID)) ''bucket'' (VStr bucket))
                      ''path'' (VStr path)))) (\<lambda>rawFiles.
       firstRow errSentFileNotFound rawFiles))"

definition createSentFile :: "'s modelDeps \<Rightarrow> ctx \<Rightarrow> sentFileSchema \<Rightarrow> ('s, sentFileSchema) eff" where
  "createSentFile M c inst =
     bindE (initSentFileModel M c) (\<lambda>(metaCtx, metaDbID).
     bindE (clCreate (mdSent M) metaCtx metaDbID [inst]) (\<lambda>res.
     bindE (liftE (idx res 0)) (\<lambda>i. retE (inst\<lparr>stID := i\<rparr>))))"

definition CreateSentFileViaInvitation ::
  "'s modelDeps \<Rightarrow> ctx \<Rightarrow> fullPath \<Rightarrow> bytes \<Rightarrow> bytes \<Rightarrow> ('s, sentFileSchema) eff" where
  "CreateSentFileViaInvitation M c file invitationID key =
     bindE (tryE (FindSentFile M c (fpDbId file) (fpBucket file) (fpPath file))) (\<lambda>r.
       case r of
         Inr existingFile \<Rightarrow> retE existingFile
       | Inl _ \<Rightarrow>
           bindE (mdNow M) (\<lambda>now.
             createSentFile M c
               \<lparr> stID = [], stCreatedAt = now, stDbID = fpDbId file, stBucket = fpBucket file,
                 stPath = fpPath file, stInvitationId = invitationID, stBucketKey = fpBucketKey file,
                 stEncryptionKey = key \<rparr>))"

definition ListSentFiles :: "'s modelDeps \<Rightarrow> ctx \<Rightarrow> bytes \<Rightarrow> int \<Rightarrow> ('s, sentFileSchema list) eff" where
  "ListSentFiles M c seek limit =
     bindE (initSentFileModel M c) (\<lambda>(metaCtx, dbID).
       let q = dbLimitTo (dbSortBy emptyQuery ''_id'') limit;
           query = (if seek \<noteq> [] then dbSeekID q seek else q) in
       bindE (clFind (mdSent M) metaCtx dbID (Some query)) (\<lambda>rawFiles. retE (rowsOf rawFiles)))"

definition SentFile_ReceivedFileSchema :: "sentFileSchema \<Rightarrow> receivedFileSchema" where
  "SentFile_ReceivedFileSchema sf =
     \<lparr> rfID = stID sf, rfDbID = stDbID sf, rfBucket = stBucket sf, rfPath = stPath sf,
       rfInvitationId = stInvitationId sf, rfBucketKey = stBucketKey sf,
       rfEncryptionKey = stEncryptionKey sf, rfSharedBy = [], rfPublicIpfsHash = [],
       rfFilePassword = [], rfFileName = [], rfFileSize = [], rfAccepted = False,
       rfCreatedAt = stCreatedAt sf \<rparr>"

subsection \<open>shared_public_key.go\<close>

text \<open>It readies the collection of the received files, not its own.\<close>

definition FindSharedPublicKey :: "'s modelDeps \<Rightarrow> ctx \<Rightarrow> bytes \<Rightarrow> ('s, sharedPublicKeySchema) eff" where
  "FindSharedPublicKey M c pubKey =
     bindE (initReceivedFileModel M c) (\<lambda>(metaCtx, dbID).
     bindE (clFind (mdShared M) metaCtx dbID (Some (dbWhere ''public_key'' (VStr pubKey)))) (\<lambda>rawKeys.
       firstRow errReceivedFileNotFound rawKeys))"

definition initSharedPublicKey :: "'s modelDeps \<Rightarrow> ctx \<Rightarrow> ('s, ctx \<times> bytes) eff" where
  "initSharedPublicKey M c =
     bindE (getMetaThreadContext M c) (\<lambda>(metaCtx, dbID).
     bindE (kiThreadKey (tdKc (mdThreads M)) metaThreadName) (\<lambda>managedKey.
     bindE (tryE (tdNewDB (mdThreads M) metaCtx dbID (noDbOpts\<lparr>doThreadKey := Some managedKey\<rparr>))) (\<lambda>_.
     bindE (tryE (clNew (mdShared M) metaCtx dbID GetSharedPublicKeyCollectionConfig)) (\<lambda>_.
       retE (metaCtx, dbID)))))"

definition CreateSharedPublicKey :: "'s modelDeps \<Rightarrow> ctx \<Rightarrow> bytes \<Rightarrow> ('s, sharedPublicKeySchema) eff" where
  "CreateSharedPublicKey M c pubKey =
     bindE (tryE (FindSharedPublicKey M c pubKey)) (\<lambda>r.
       case r of
         Inr existingPublicKey \<Rightarrow> retE existingPublicKey
       | Inl _ \<Rightarrow>
           bindE (initSharedPublicKey M c) (\<lambda>(metaCtx, metaDbID).
           bindE (mdNow M) (\<lambda>now.
             let newInstance = \<lparr> spID = [], spDbID = [], spPublicKey = pubKey, spUpdatedAt = now,
                   spCreatedAt = now \<rparr> in
             bindE (clCreate (mdShared M) metaCtx metaDbID [newInstance]) (\<lambda>res.
             bindE (liftE (idx res 0)) (\<lambda>i. retE (newInstance\<lparr>spID := i\<rparr>))))))"

definition listSharedPublicKeysLimit :: int where "listSharedPublicKeysLimit = 128"

definition ListSharedPublicKeys :: "'s modelDeps \<Rightarrow> ctx \<Rightarrow> ('s, sharedPublicKeySchema list) eff" where
  "ListSharedPublicKeys M c =
     bindE (initSharedPublicKey M c) (\<lambda>(metaCtx, dbID).
     bindE (tryE (clFind (mdShared M) metaCtx dbID
             (Some (dbSortBy (dbLimitTo emptyQuery listSharedPublicKeysLimit) ''CreatedAt'')))) (\<lambda>r.
       case r of Inl _ \<Rightarrow> retE [] | Inr rawKeys \<Rightarrow> retE (rowsOf rawKeys)))"

subsection \<open>search.go\<close>

definition FileItem :: bytes where "FileItem = ''FILE''"
definition DirectoryItem :: bytes where "DirectoryItem = ''DIRECTORY''"
definition DefaultSearchResultLimit :: int where "DefaultSearchResultLimit = 20"

definition InitSearchIndexCollection :: "'s modelDeps \<Rightarrow> ('s, unit) eff" where
  "InitSearchIndexCollection M = seStart (mdFsearch M)"

definition UpdateSearchIndexRecord ::
  "'s modelDeps \<Rightarrow> bytes \<Rightarrow> bytes \<Rightarrow> bytes \<Rightarrow> bytes \<Rightarrow> bytes \<Rightarrow> ('s, indexRecord) eff" where
  "UpdateSearchIndexRecord M name itemPath itemType bucketSlug dbId =
     seInsertFileData (mdFsearch M)
       \<lparr> iiItemName = name, iiItemExtension = strReplaceAll (pathExt name) ''.'' [],
         iiItemPath = itemPath, iiItemType = itemType, iiBucketSlug = bucketSlug, iiDbId = dbId \<rparr>"

definition QuerySearchIndex :: "'s modelDeps \<Rightarrow> bytes \<Rightarrow> ('s, indexRecord list) eff" where
  "QuerySearchIndex M query = seQueryFileData (mdFsearch M) query DefaultSearchResultLimit"

definition DeleteSearchIndexRecord ::
  "'s modelDeps \<Rightarrow> bytes \<Rightarrow> bytes \<Rightarrow> bytes \<Rightarrow> bytes \<Rightarrow> ('s, unit) eff" where
  "DeleteSearchIndexRecord M name path bucketSlug dbId =
     seDeleteFileData (mdFsearch M)
       \<lparr> diItemName = name, diItemPath = path, diBucketSlug = bucketSlug, diDbId = dbId \<rparr>"

end
