(* ===== verification/ModelLaws.thy ===== *)
theory ModelLaws
  imports Model
begin

text \<open>
  What the model promises over collections that behave as documented.

  \<open>meta_world\<close> says of the keychain, the store and the threads services what \<open>Threads\<close> needs of
  them, and that they leave what \<open>obs\<close> sees of the collections alone; all operations then work in the
  deterministic metathread \<open>metaID\<close>.
\<close>

subsection \<open>The metathread\<close>

definition metaID :: "'s modelDeps \<Rightarrow> bytes \<Rightarrow> bytes" where
  "metaID M priv = detThreadID (mdThreads M) priv MetathreadThreadVariant"

text \<open>While the key pair is stored, the ID the store holds for the metathread is its own, if any.\<close>

definition metaOk ::
  "'s modelDeps \<Rightarrow> ('s \<Rightarrow> bool) \<Rightarrow> ('s \<Rightarrow> bytes \<rightharpoonup> bytes) \<Rightarrow> bytes \<Rightarrow> bytes \<Rightarrow> 's \<Rightarrow> bool" where
  "metaOk M ok view priv pub s \<longleftrightarrow>
     ok s \<and> storedDet (threadStoreKey MetathreadThreadVariant pub) (metaID M priv) (view s)"

definition meta_world :: "'s modelDeps \<Rightarrow> ('s \<Rightarrow> bool) \<Rightarrow> ('s \<Rightarrow> bytes \<rightharpoonup> bytes) \<Rightarrow> bytes \<Rightarrow> bytes \<Rightarrow>
    ('s \<Rightarrow> 'o) \<Rightarrow> bool" where
  "meta_world M ok view priv pub obs \<longleftrightarrow>
     (\<forall>x. (\<exists>tk. key_holder (tdKc (mdThreads M)) (\<lambda>s. ok s \<and> obs s = x) view priv pub tk) \<and>
        thread_env (mdThreads M) (\<lambda>s. ok s \<and> obs s = x) view) \<and>
     tdCast (mdThreads M) (metaID M priv) = Inr (metaID M priv)"

lemma meta_ensures:
  assumes "meta_world M ok view priv pub obs"
  defines "I \<equiv> \<lambda>x s. metaOk M ok view priv pub s \<and> obs s = x"
  shows "ensures (I x) (getMetaThreadContext M c) (\<lambda>(mc, d) s. d = metaID M priv \<and> I x s) (I x)"
proof -
  let ?k = "threadStoreKey MetathreadThreadVariant pub"
  obtain tk where k: "key_holder (tdKc (mdThreads M)) (\<lambda>s. ok s \<and> obs s = x) view priv pub tk"
    and e: "thread_env (mdThreads M) (\<lambda>s. ok s \<and> obs s = x) view"
    and c: "tdCast (mdThreads M) (metaID M priv) = Inr (metaID M priv)"
    using assms(1) unfolding meta_world_def by blast
  have I: "I x = (\<lambda>s. (ok s \<and> obs s = x) \<and> storedDet ?k (metaID M priv) (view s))"
    unfolding I_def metaOk_def by auto
  have f: "ensures (I x) (findOrCreateMetaThreadID M c) (\<lambda>d s. d = metaID M priv \<and> I x s) (I x)"
    unfolding I findOrCreateMetaThreadID_def
    by (rule ensures_weaken [OF key_holder.ensures_det [OF k e _ refl refl metaID_def]]) (use c in auto)
  have t: "keeps (I x) (GetThreadContext (mdThreads M) (Some (tdGetToken (mdThreads M))) c n d False)" for n d
    unfolding I using key_holder.keeps_token_context [OF k e _ refl, where Q = "storedDet ?k (metaID M priv)"] by simp
  show ?thesis
    unfolding getMetaThreadContext_def
    by (rule ensures_bind_eq [OF f] ensures_bind [OF ensures_keeps [OF t]] ensures_ret | force)+
qed

lemma init_ensures:
  assumes "meta_world M ok view priv pub obs" "\<And>c d cfg. stable (metaOk M ok view priv pub) obs (clNew C c d cfg)"
  defines "I \<equiv> \<lambda>x s. metaOk M ok view priv pub s \<and> obs s = x"
  shows "ensures (I x) (initColl M C cfg c) (\<lambda>(mc, d) s. d = metaID M priv \<and> I x s) (I x)"
proof -
  have n: "keeps (I x) (clNew C mc d cfg')" for mc d cfg'
    unfolding I_def using stable_keeps [OF assms(2), of "\<lambda>y. y = x"] by simp
  have m: "ensures (I x) (getMetaThreadContext M c) (\<lambda>(mc, d) s. d = metaID M priv \<and> I x s) (I x)"
    unfolding I_def by (rule meta_ensures [OF assms(1)])
  show ?thesis
    unfolding initColl_def
    by (rule ensures_bind [OF m] ensures_case_prod ensures_bind [OF ensures_try_keeps [OF n]] ensures_ret
        ensures_pure | simp | force)+
qed

lemma stableD: "stable ok v m \<Longrightarrow> ok s \<Longrightarrow> m s = (r, s') \<Longrightarrow> ok s' \<and> v s' = v s"
  unfolding stable_def by blast

lemma ensures_obs:
  "(\<And>x. ensures (\<lambda>s. P s \<and> obs s = x) m Q E) \<Longrightarrow> ensures P m Q E"
  unfolding ensures_def by blast

subsection \<open>Buckets\<close>

definition mirrorFld :: "mirrorBucketSchema \<Rightarrow> bytes \<Rightarrow> fval option" where
  "mirrorFld m p =
     (if p = ''remoteDbId'' then Some (VStr (mbRemoteDbID m))
      else if p = ''remoteBucketKey'' then Some (VStr (mbRemoteBucketKey m))
      else if p = ''HubAddr'' then Some (VStr (mbHubAddr m))
      else if p = ''remoteBucketSlug'' then Some (VStr (mbRemoteBucketSlug m))
      else None)"

definition bucketFld :: "bucketSchema \<Rightarrow> bytes \<Rightarrow> fval option" where
  "bucketFld b p =
     (if p = ''_id'' then Some (VStr (bsID b))
      else if p = ''slug'' then Some (VStr (bsSlug b))
      else if p = ''backup'' then Some (VBool (bsBackup b))
      else if p = ''hub_key'' then Some (VBytes (bsEncryptionKey b))
      else if p = ''DbID'' then Some (VStr (bsDbID b))
      else case bsMirror b of None \<Rightarrow> None | Some m \<Rightarrow> mirrorFld m p)"

text \<open>The unique index of the collection.\<close>

definition uniqueSlugs :: "(bytes \<rightharpoonup> bucketSchema) \<Rightarrow> bool" where
  "uniqueSlugs R \<longleftrightarrow> (\<forall>i j x y. R i = Some x \<longrightarrow> R j = Some y \<longrightarrow> bsSlug x = bsSlug y \<longrightarrow> i = j)"

definition bucket_world :: "'s modelDeps \<Rightarrow> ('s \<Rightarrow> bool) \<Rightarrow> ('s \<Rightarrow> bytes \<rightharpoonup> bytes) \<Rightarrow> bytes \<Rightarrow> bytes \<Rightarrow>
    ('s \<Rightarrow> bytes \<Rightarrow> bytes \<rightharpoonup> bucketSchema) \<Rightarrow> bool" where
  "bucket_world M ok view priv pub rows \<longleftrightarrow>
     meta_world M ok view priv pub rows \<and>
     coll_env (mdBuckets M) (metaOk M ok view priv pub) rows bucketFld bsID (\<lambda>i b. b\<lparr>bsID := i\<rparr>) uniqueSlugs \<and>
     (\<forall>n. stable (metaOk M ok view priv pub) rows (mdRand M n)) \<and>
     (\<forall>n s x s'. mdRand M n s = (Inr x, s') \<longrightarrow> length x = n)"

lemma bucket_worldD:
  assumes "bucket_world M ok view priv pub rows"
  shows "meta_world M ok view priv pub rows"
    "coll_env (mdBuckets M) (metaOk M ok view priv pub) rows bucketFld bsID (\<lambda>i b. b\<lparr>bsID := i\<rparr>) uniqueSlugs"
    "stable (metaOk M ok view priv pub) rows (mdRand M n)"
    "mdRand M n s = (Inr x, s') \<Longrightarrow> length x = n"
  using assms unfolding bucket_world_def by blast+

text \<open>A predicate on the rows, in a state in which the metathread is the deterministic one.\<close>

definition bI :: "'s modelDeps \<Rightarrow> ('s \<Rightarrow> bool) \<Rightarrow> ('s \<Rightarrow> bytes \<rightharpoonup> bytes) \<Rightarrow> bytes \<Rightarrow> bytes \<Rightarrow>
    ('s \<Rightarrow> bytes \<Rightarrow> bytes \<rightharpoonup> bucketSchema) \<Rightarrow> ((bytes \<Rightarrow> bytes \<rightharpoonup> bucketSchema) \<Rightarrow> bool) \<Rightarrow> 's \<Rightarrow> bool" where
  "bI M ok view priv pub rows Q s \<longleftrightarrow> metaOk M ok view priv pub s \<and> Q (rows s)"

lemma bucket_init:
  assumes "bucket_world M ok view priv pub rows"
  shows "ensures (bI M ok view priv pub rows Q) (initBucketModel M c)
    (\<lambda>(mc, d) s. d = metaID M priv \<and> bI M ok view priv pub rows Q s) (bI M ok view priv pub rows Q)"
proof (rule ensures_obs [where obs = rows])
  fix R
  note w = bucket_worldD [OF assms]
  show "ensures (\<lambda>s. bI M ok view priv pub rows Q s \<and> rows s = R) (initBucketModel M c)
    (\<lambda>(mc, d) s. d = metaID M priv \<and> bI M ok view priv pub rows Q s) (bI M ok view priv pub rows Q)"
  proof (cases "Q R")
    case True
    show ?thesis
      unfolding initBucketModel_def
      by (rule ensures_pre [OF ensures_weaken [OF init_ensures [OF w(1) coll_envD(1) [OF w(2)]]]])
        (use True in \<open>auto simp: bI_def\<close>)
  qed (auto simp: ensures_def bI_def)
qed

lemma bucket_find:
  assumes "bucket_world M ok view priv pub rows"
  shows "ensures (bI M ok view priv pub rows Q) (FindBucket M c slug)
    (\<lambda>b s. b \<in> ran (rows s (metaID M priv)) \<and> bsSlug b = slug \<and> bI M ok view priv pub rows Q s)
    (bI M ok view priv pub rows Q)"
proof -
  let ?I = "bI M ok view priv pub rows Q" and ?d = "metaID M priv"
  note w = bucket_worldD [OF assms]
  have find: "ensures ?I (clFind (mdBuckets M) mc ?d (Some (dbWhere ''slug'' (VStr slug))))
      (\<lambda>raw s. (\<forall>b rest. raw = Some (b # rest) \<longrightarrow> b \<in> ran (rows s ?d) \<and> bsSlug b = slug) \<and> ?I s) ?I" for mc
  proof (rule ensuresI)
    fix s raw s' assume s: "?I s"
      and r: "clFind (mdBuckets M) mc ?d (Some (dbWhere ''slug'' (VStr slug))) s = (Inr raw, s')"
    have k: "metaOk M ok view priv pub s' \<and> rows s' = rows s"
      using coll_envD(3) [OF w(2)] s r unfolding stable_def bI_def by blast
    obtain ys where "raw = Some ys" "set ys = {x \<in> ran (rows s ?d). qMatch (bucketFld x) (dbWhere ''slug'' (VStr slug))}"
      using coll_envD(4) [OF w(2) _ _ r] s by (auto simp: bI_def)
    then show "(\<forall>b rest. raw = Some (b # rest) \<longrightarrow> b \<in> ran (rows s' ?d) \<and> bsSlug b = slug) \<and> ?I s'"
      using k s by (fastforce simp: bI_def bucketFld_def)
  next
    fix s e s' assume "?I s" "clFind (mdBuckets M) mc ?d (Some (dbWhere ''slug'' (VStr slug))) s = (Inl e, s')"
    then show "?I s'" using coll_envD(3) [OF w(2)] unfolding stable_def bI_def by metis
  qed
  have first: "ensures (\<lambda>s. (\<forall>b rest. raw = Some (b # rest) \<longrightarrow> b \<in> ran (rows s ?d) \<and> bsSlug b = slug) \<and> ?I s)
      (firstRow errBucketNotFound raw) (\<lambda>b s. b \<in> ran (rows s ?d) \<and> bsSlug b = slug \<and> ?I s) ?I" for raw
    by (rule ensuresI) (auto simp: firstRow_def split: option.splits list.splits)
  show ?thesis
    unfolding FindBucket_def
    by (rule ensures_bind [OF bucket_init [OF assms]] ensures_case_prod ensures_pure ensures_bind [OF find]
        first | simp | force)+
qed

definition sameKey :: "bucketSchema \<Rightarrow> bucketSchema \<Rightarrow> bool" where
  "sameKey x y \<longleftrightarrow> bsSlug y = bsSlug x \<and> bsEncryptionKey y = bsEncryptionKey x"

text \<open>What is the case after \<open>CreateBucket\<close>, given the rows before.\<close>

definition createdBucket :: "(bytes \<rightharpoonup> bucketSchema) \<Rightarrow> (bytes \<rightharpoonup> bucketSchema) \<Rightarrow> bytes \<Rightarrow> bytes \<Rightarrow> bucketSchema \<Rightarrow> bool" where
  "createdBucket R R' slug dbID b \<longleftrightarrow>
     b \<in> ran R \<and> bsSlug b = slug \<and> R' = R \<or>
     (\<exists>key. length key = BucketEncryptionKeyLength \<and> R (bsID b) = None \<and> uniqueSlugs R' \<and>
        R' = R(bsID b \<mapsto> (newBucketRow slug dbID key)\<lparr>bsID := bsID b\<rparr>) \<and>
        b = (newBucketRow slug dbID [])\<lparr>bsID := bsID b\<rparr>)"

lemma bucket_create:
  assumes "bucket_world M ok view priv pub rows"
  shows "ensures (\<lambda>s. metaOk M ok view priv pub s \<and> rows s = R) (CreateBucket M c slug dbID)
    (\<lambda>b s. createdBucket (R (metaID M priv)) (rows s (metaID M priv)) slug dbID b \<and> metaOk M ok view priv pub s)
    (\<lambda>s. metaOk M ok view priv pub s \<and> rows s = R)"
proof -
  let ?d = "metaID M priv" and ?ok = "metaOk M ok view priv pub"
  let ?I = "\<lambda>s. ?ok s \<and> rows s = R"
  note w = bucket_worldD [OF assms]
  have I: "?I = bI M ok view priv pub rows (\<lambda>x. x = R)" by (simp add: bI_def fun_eq_iff)
  have find: "ensures ?I (tryE (FindBucket M c slug))
      (\<lambda>r s. (\<forall>b. r = Inr b \<longrightarrow> b \<in> ran (R ?d) \<and> bsSlug b = slug) \<and> ?I s) ?I"
    by (rule ensures_weaken [OF ensures_try [OF bucket_find [OF assms, of "\<lambda>x. x = R", folded I]]])
      (auto simp: bI_def split: sum.splits)
  have rand: "ensures ?I (tryE (mdRand M n)) (\<lambda>k s. (\<forall>x. k = Inr x \<longrightarrow> length x = n) \<and> ?I s) ?I" for n
  proof -
    have "ensures ?I (mdRand M n) (\<lambda>x s. length x = n \<and> ?I s) ?I"
    proof (rule ensuresI)
      fix s x s' assume a: "?I s" "mdRand M n s = (Inr x, s')"
      show "length x = n \<and> ?I s'" using stableD [OF w(3) conjunct1 [OF a(1)] a(2)] w(4) [OF a(2)] a(1) by simp
    next
      fix s e s' assume a: "?I s" "mdRand M n s = (Inl e, s')"
      show "?I s'" using stableD [OF w(3) conjunct1 [OF a(1)] a(2)] a(1) by simp
    qed
    from ensures_try [OF this] show ?thesis by (rule ensures_weaken) (auto split: sum.splits)
  qed
  have create: "ensures ?I (clCreate (mdBuckets M) mc ?d [newBucketRow slug dbID key])
      (\<lambda>is s. (\<exists>i. is = [i] \<and> R ?d i = None \<and> uniqueSlugs (rows s ?d) \<and>
         rows s ?d = (R ?d)(i \<mapsto> (newBucketRow slug dbID key)\<lparr>bsID := i\<rparr>)) \<and> ?ok s) ?I" for mc key
  proof (rule ensuresI)
    fix s "is" s' assume a: "?I s" "clCreate (mdBuckets M) mc ?d [newBucketRow slug dbID key] s = (Inr is, s')"
    show "(\<exists>i. is = [i] \<and> R ?d i = None \<and> uniqueSlugs (rows s' ?d) \<and>
         rows s' ?d = (R ?d)(i \<mapsto> (newBucketRow slug dbID key)\<lparr>bsID := i\<rparr>)) \<and> ?ok s'"
      using coll_envD(5) [OF w(2) conjunct1 [OF a(1)] a(2)] a(1) by auto
  next
    fix s e s' assume a: "?I s" "clCreate (mdBuckets M) mc ?d [newBucketRow slug dbID key] s = (Inl e, s')"
    show "?I s'" using coll_envD(6) [OF w(2) conjunct1 [OF a(1)] a(2)] a(1) by simp
  qed
  have ret: "ensures (\<lambda>s. (\<exists>i. is = [i] \<and> R ?d i = None \<and> uniqueSlugs (rows s ?d) \<and>
         rows s ?d = (R ?d)(i \<mapsto> (newBucketRow slug dbID key)\<lparr>bsID := i\<rparr>)) \<and> ?ok s)
      (bindE (liftE (idx is 0)) (\<lambda>i. retE \<lparr> bsID = i, bsSlug = slug, bsBackup = True,
          bsEncryptionKey = [], bsDbID = dbID, bsMirror = Some emptyMirror \<rparr>))
      (\<lambda>b s. createdBucket (R ?d) (rows s ?d) slug dbID b \<and> ?ok s) ?I"
    if "length key = BucketEncryptionKeyLength" for "is" key
    using that
    by (intro ensuresI) (auto simp: bindE_apply createdBucket_def newBucketRow_def)
  note init = bucket_init [OF assms, of "\<lambda>x. x = R", folded I]
  show ?thesis
    unfolding CreateBucket_def
    by (rule ensures_bind [OF find] ensures_pure ensures_case_sum ensures_ret ensures_bind [OF init]
        ensures_case_prod ensures_bind [OF rand] ensures_fail ensures_bind [OF create] ret
        | simp | force simp: createdBucket_def)+
qed

subsection \<open>Any sequence of bucket operations\<close>

datatype bucketOp =
    OpFind bytes
  | OpList
  | OpCreate bytes bytes
  | OpUpsert bytes bytes
  | OpToggle bytes bool
  | OpMirror bytes mirrorBucketSchema

definition runBucketOp :: "'s modelDeps \<Rightarrow> ctx \<Rightarrow> bucketOp \<Rightarrow> ('s, unit) eff" where
  "runBucketOp M c op =
     (case op of
        OpFind slug \<Rightarrow> bindE (FindBucket M c slug) (\<lambda>_. retE ())
      | OpList \<Rightarrow> bindE (ListBuckets M c) (\<lambda>_. retE ())
      | OpCreate slug dbID \<Rightarrow> bindE (CreateBucket M c slug dbID) (\<lambda>_. retE ())
      | OpUpsert slug dbID \<Rightarrow> bindE (UpsertBucket M c slug dbID) (\<lambda>_. retE ())
      | OpToggle slug backup \<Rightarrow> bindE (BucketBackupToggle M c slug backup) (\<lambda>_. retE ())
      | OpMirror slug m \<Rightarrow> bindE (CreateMirrorBucket M c slug m) (\<lambda>_. retE ()))"

text \<open>One after the other, whatever their errors.\<close>

fun runBucketOps :: "'s modelDeps \<Rightarrow> ctx \<Rightarrow> bucketOp list \<Rightarrow> 's \<Rightarrow> 's" where
  "runBucketOps M c [] s = s"
| "runBucketOps M c (op # ops) s = runBucketOps M c ops (snd (runBucketOp M c op s))"

definition keyKept :: "(bytes \<rightharpoonup> bucketSchema) \<Rightarrow> (bytes \<rightharpoonup> bucketSchema) \<Rightarrow> bool" where
  "keyKept R0 R \<longleftrightarrow> uniqueSlugs R \<and> (\<forall>i x. R0 i = Some x \<longrightarrow> (\<exists>y. R i = Some y \<and> sameKey x y))"

lemma keyKept_add: "keyKept R0 R \<Longrightarrow> R i = None \<Longrightarrow> uniqueSlugs (R(i \<mapsto> x)) \<Longrightarrow> keyKept R0 (R(i \<mapsto> x))"
  by (fastforce simp: keyKept_def)

lemma keyKept_save:
  "keyKept R0 R \<Longrightarrow> R i = Some x \<Longrightarrow> sameKey x y \<Longrightarrow> uniqueSlugs (R(i \<mapsto> y)) \<Longrightarrow> keyKept R0 (R(i \<mapsto> y))"
  by (fastforce simp: keyKept_def sameKey_def)

lemma bucket_save:
  fixes R0 :: "bytes \<rightharpoonup> bucketSchema"
  assumes "bucket_world M ok view priv pub rows"
  defines "J \<equiv> bI M ok view priv pub rows (\<lambda>R. keyKept R0 (R (metaID M priv)))"
  assumes "bsID b' = bsID b" "sameKey b b'"
  shows "ensures (\<lambda>s. b \<in> ran (rows s (metaID M priv)) \<and> J s)
    (clSave (mdBuckets M) mc (metaID M priv) [b']) (\<lambda>_. J) J"
proof (rule ensuresI)
  let ?d = "metaID M priv"
  note w = bucket_worldD [OF assms(1)]
  fix s u s' assume s: "b \<in> ran (rows s ?d) \<and> J s" "clSave (mdBuckets M) mc ?d [b'] s = (Inr u, s')"
  then have k: "metaOk M ok view priv pub s" "keyKept R0 (rows s ?d)" by (simp_all add: J_def bI_def)
  obtain i where i: "rows s ?d i = Some b" using s(1) by (auto simp: ran_def)
  have "bsID b = i" by (rule coll_envD(11) [OF w(2) k(1) i])
  with coll_envD(7) [OF w(2) k(1) s(2)] keyKept_save [OF k(2) i assms(4)] assms(3)
  show "J s'" by (auto simp: J_def bI_def)
next
  note w = bucket_worldD [OF assms(1)]
  fix s e s' assume s: "b \<in> ran (rows s (metaID M priv)) \<and> J s"
    "clSave (mdBuckets M) mc (metaID M priv) [b'] s = (Inl e, s')"
  then have k: "metaOk M ok view priv pub s" "keyKept R0 (rows s (metaID M priv))"
    by (simp_all add: J_def bI_def)
  then show "J s'" using coll_envD(8) [OF w(2) k(1) s(2)] by (simp add: J_def bI_def)
qed

lemma bucket_op_keeps:
  fixes R0 :: "bytes \<rightharpoonup> bucketSchema"
  assumes "bucket_world M ok view priv pub rows"
  defines "J \<equiv> bI M ok view priv pub rows (\<lambda>R. keyKept R0 (R (metaID M priv)))"
  shows "keeps J (runBucketOp M c op)"
proof -
  let ?d = "metaID M priv"
  note w = bucket_worldD [OF assms(1)]
  note init = bucket_init [OF assms(1), of "\<lambda>R. keyKept R0 (R ?d)", folded J_def]
  note find = bucket_find [OF assms(1), of "\<lambda>R. keyKept R0 (R ?d)", folded J_def]
  note save = bucket_save [OF assms(1), of _ _ R0, folded J_def]
  have tryfind: "ensures J (tryE (FindBucket M c slug))
      (\<lambda>r s. (\<forall>b. r = Inr b \<longrightarrow> b \<in> ran (rows s ?d)) \<and> J s) J" for slug
    by (rule ensures_weaken [OF ensures_try [OF find]]) (auto split: sum.splits)
  have create: "ensures J (CreateBucket M c slug dbID) (\<lambda>_. J) J" for slug dbID
  proof (rule ensures_obs [where obs = rows])
    fix R
    show "ensures (\<lambda>s. J s \<and> rows s = R) (CreateBucket M c slug dbID) (\<lambda>_. J) J"
    proof (cases "keyKept R0 (R ?d)")
      case True
      show ?thesis
        by (rule ensures_pre [OF ensures_weaken [OF bucket_create [OF assms(1)]]])
          (use True in \<open>auto simp: J_def bI_def createdBucket_def intro: keyKept_add\<close>)
    qed (auto simp: ensures_def J_def bI_def)
  qed
  have list: "keeps J (clFind (mdBuckets M) mc d q)" for mc d q
    unfolding J_def bI_def by (rule stable_keeps [OF coll_envD(3) [OF w(2)]])
  have upsert: "ensures J (UpsertBucket M c slug dbID) (\<lambda>_. J) J" for slug dbID
  proof -
    have sv: "ensures (\<lambda>s. b \<in> ran (rows s ?d) \<and> J s)
        (tryE (clSave (mdBuckets M) mc ?d [b\<lparr>bsDbID := dbID\<rparr>])) (\<lambda>_. J) J" for b mc
      by (rule ensures_weaken [OF ensures_try [OF save]]) (auto simp: sameKey_def split: sum.splits)
    show ?thesis
      unfolding UpsertBucket_def Let_def
      by (rule ensures_bind [OF init] ensures_case_prod ensures_pure ensures_bind [OF tryfind]
          ensures_case_sum create ensures_ret
          | (rule ensures_pre [OF ensures_bind [OF sv]], blast?) | simp)+
  qed
  have sv: "ensures (\<lambda>s. b \<in> ran (rows s ?d) \<and> bsSlug b = slug \<and> J s)
      (clSave (mdBuckets M) mc ?d [b']) (\<lambda>_. J) J"
    if "bsID b' = bsID b" "sameKey b b'" for b b' mc slug
    using save [OF that] by (rule ensures_pre) simp
  have toggle: "ensures J (BucketBackupToggle M c slug backup) (\<lambda>_. J) J" for slug backup
    unfolding BucketBackupToggle_def Let_def
    by (rule ensures_bind [OF init] ensures_case_prod ensures_pure ensures_bind [OF find]
        ensures_then [OF sv] ensures_ret | simp add: sameKey_def)+
  have mirror: "ensures J (CreateMirrorBucket M c slug m) (\<lambda>_. J) J" for slug m
    unfolding CreateMirrorBucket_def Let_def
    by (rule ensures_bind [OF init] ensures_case_prod ensures_pure ensures_bind [OF find]
        ensures_case_option ensures_fail ensures_then [OF sv] ensures_ret | simp add: sameKey_def)+
  have lists: "ensures J (ListBuckets M c) (\<lambda>_. J) J"
    unfolding ListBuckets_def
    by (rule ensures_bind [OF init] ensures_case_prod ensures_pure
        ensures_bind [OF ensures_try_keeps [OF list]] ensures_case_sum ensures_ret | simp)+
  have finds: "ensures J (FindBucket M c slug) (\<lambda>_. J) J" for slug
    using find by (rule ensures_weaken) auto
  show ?thesis
    by (rule keeps_ensures, cases op)
      (simp_all add: runBucketOp_def ensures_bind [OF finds] ensures_bind [OF lists]
        ensures_bind [OF create] ensures_bind [OF upsert] ensures_bind [OF toggle]
        ensures_bind [OF mirror] ensures_ret)
qed

lemma bucket_ops_keep:
  fixes R0 :: "bytes \<rightharpoonup> bucketSchema"
  assumes "bucket_world M ok view priv pub rows"
    and "bI M ok view priv pub rows (\<lambda>R. keyKept R0 (R (metaID M priv))) s"
  shows "bI M ok view priv pub rows (\<lambda>R. keyKept R0 (R (metaID M priv))) (runBucketOps M c ops s)"
  using assms(2)
proof (induction ops arbitrary: s)
  case (Cons op ops)
  then show ?case using keepsD [OF bucket_op_keeps [OF assms(1)]] by simp
qed simp

end
