(* ===== verification/ModelMem.thy ===== *)
theory ModelMem
  imports ModelLaws
begin

text \<open>
  Collections, a store and services in memory: an instance of everything the laws of the model
  assume, on which their witnesses run.
\<close>

subsection \<open>A collection in memory\<close>

definition freshID :: "bytes list \<Rightarrow> bytes" where
  "freshID ids = concat ids @ ''i''"

lemma freshID_fresh: "freshID ids \<notin> set ids"
proof
  assume "freshID ids \<in> set ids"
  then have "length (freshID ids) \<le> length (concat ids)"
    by (auto simp: length_concat member_le_sum_list)
  then show False by (simp add: freshID_def)
qed

definition rowMap :: "('r \<Rightarrow> bytes) \<Rightarrow> 'r list \<Rightarrow> bytes \<rightharpoonup> 'r" where
  "rowMap rid xs = map_of (map (\<lambda>x. (rid x, x)) xs)"

definition memColl :: "('s \<Rightarrow> bytes \<Rightarrow> 'r list) \<Rightarrow> ((bytes \<Rightarrow> 'r list) \<Rightarrow> 's \<Rightarrow> 's) \<Rightarrow>
    ('r \<Rightarrow> bytes \<Rightarrow> fval option) \<Rightarrow> ('r \<Rightarrow> bytes) \<Rightarrow> (bytes \<Rightarrow> 'r \<Rightarrow> 'r) \<Rightarrow> ('r list \<Rightarrow> bool) \<Rightarrow> ('s, 'r) coll" where
  "memColl get put fld rid setID uniq =
     \<lparr> clNew = \<lambda>_ _ _. retE (), clUpdate = \<lambda>_ _ _. retE (),
       clFind = \<lambda>_ d q s. (Inr (Some (case q of None \<Rightarrow> get s d
          | Some q \<Rightarrow> filter (\<lambda>x. qMatch (fld x) q) (get s d))), s),
       clCreate = \<lambda>_ d xs s. (case xs of
          [x] \<Rightarrow> (let i = freshID (map rid (get s d)); ys = get s d @ [setID i x] in
             if uniq ys then (Inr [i], put ((get s)(d := ys)) s) else (Inl (Err ''unique index''), s))
        | _ \<Rightarrow> (Inl (Err ''one instance at a time''), s)),
       clSave = \<lambda>_ d xs s. (case xs of
          [x] \<Rightarrow> (let ys = map (\<lambda>y. if rid y = rid x then x else y) (get s d) in
             if rid x \<in> rid ` set (get s d) \<and> uniq ys then (Inr (), put ((get s)(d := ys)) s)
             else (Inl (Err ''cannot save''), s))
        | _ \<Rightarrow> (Inl (Err ''one instance at a time''), s)),
       clDelete = \<lambda>_ d is s. (Inr (), put ((get s)(d := filter (\<lambda>x. rid x \<notin> set is) (get s d))) s) \<rparr>"

lemma rowMap_Some: "distinct (map rid xs) \<Longrightarrow> rowMap rid xs i = Some x \<longleftrightarrow> x \<in> set xs \<and> rid x = i"
  by (auto simp: rowMap_def comp_def image_iff dest: map_of_SomeD intro!: map_of_is_SomeI)

lemma ran_rowMap: "distinct (map rid xs) \<Longrightarrow> ran (rowMap rid xs) = set xs"
  by (auto simp: ran_def rowMap_Some)

lemma rowMap_None: "rowMap rid xs i = None \<longleftrightarrow> i \<notin> rid ` set xs"
  by (auto simp: rowMap_def map_of_eq_None_iff image_iff)

lemma rowMap_snoc:
  assumes "distinct (map rid (xs @ [x]))"
  shows "rowMap rid (xs @ [x]) = (rowMap rid xs)(rid x \<mapsto> x)"
proof
  fix i
  have d: "distinct (map rid xs)" using assms by simp
  show "rowMap rid (xs @ [x]) i = ((rowMap rid xs)(rid x \<mapsto> x)) i"
  proof (cases "rowMap rid (xs @ [x]) i")
    case None
    then have "rowMap rid xs i = None" "i \<noteq> rid x" by (auto simp: rowMap_None)
    then show ?thesis using None by simp
  next
    case (Some y)
    then show ?thesis using assms rowMap_Some [OF assms, of i y] rowMap_Some [OF d, of i y]
      by (auto simp: image_iff)
  qed
qed

lemma map_rid_save: "map rid (map (\<lambda>y. if rid y = rid x then x else y) xs) = map rid xs"
  by (induction xs) auto

lemma rowMap_save:
  assumes "distinct (map rid xs)" "rid x \<in> rid ` set xs"
  shows "rowMap rid (map (\<lambda>y. if rid y = rid x then x else y) xs) = (rowMap rid xs)(rid x \<mapsto> x)"
proof
  fix i
  let ?ys = "map (\<lambda>y. if rid y = rid x then x else y) xs"
  have d: "distinct (map rid ?ys)" unfolding map_rid_save by (rule assms(1))
  show "rowMap rid ?ys i = ((rowMap rid xs)(rid x \<mapsto> x)) i"
  proof (cases "i = rid x")
    case True
    then show ?thesis using rowMap_Some [OF d, of i x] assms(2) by auto
  next
    case False
    show ?thesis
    proof (cases "rowMap rid xs i")
      case None
      then have "rowMap rid ?ys i = None"
        using False unfolding rowMap_None set_map [symmetric] map_rid_save by simp
      then show ?thesis using None False by simp
    next
      case (Some y)
      then show ?thesis
        using False rowMap_Some [OF d, of i y] rowMap_Some [OF assms(1), of i y] by auto
    qed
  qed
qed

lemma rowMap_filter:
  assumes "distinct (map rid xs)"
  shows "rowMap rid (filter (\<lambda>x. rid x \<notin> S) xs) = rowMap rid xs |` (- S)"
proof
  fix i
  have d: "distinct (map rid (filter (\<lambda>x. rid x \<notin> S) xs))" using assms by (induction xs) auto
  show "rowMap rid (filter (\<lambda>x. rid x \<notin> S) xs) i = (rowMap rid xs |` (- S)) i"
  proof (cases "(rowMap rid xs |` (- S)) i")
    case None
    then show ?thesis by (auto simp: rowMap_None restrict_map_def split: if_splits)
  next
    case (Some y)
    then show ?thesis
      using rowMap_Some [OF d, of i y] rowMap_Some [OF assms, of i y]
      by (auto simp: restrict_map_def split: if_splits)
  qed
qed

lemma memColl_env:
  assumes gp: "\<And>g s. get (put g s) = g"
    and dist: "\<And>s d. ok s \<Longrightarrow> distinct (map rid (get s d))"
    and put: "\<And>g s. ok s \<Longrightarrow> (\<And>d. distinct (map rid (g d))) \<Longrightarrow> ok (put g s)"
    and rs: "\<And>i x. rid (setID i x) = i"
    and un: "\<And>ys. uniqL ys \<Longrightarrow> distinct (map rid ys) \<Longrightarrow> uniq (rowMap rid ys)"
  shows "coll_env (memColl get put fld rid setID uniqL) ok (\<lambda>s d. rowMap rid (get s d)) fld rid setID uniq"
  unfolding coll_env_def
proof (intro conjI allI impI)
  let ?C = "memColl get put fld rid setID uniqL" and ?rows = "\<lambda>s d. rowMap rid (get s d)"
  show "stable ok ?rows (clNew ?C c d cfg)" "stable ok ?rows (clUpdate ?C c d cfg)"
    "stable ok ?rows (clFind ?C c d q)" for c d cfg q
    by (simp_all add: stable_def memColl_def)
  show "\<exists>ys. xs = Some ys \<and> set ys = {x \<in> ran (?rows s d). qMatch (fld x) q}"
    if "ok s" "clFind ?C c d (Some q) s = (Inr xs, s')" for c d q s xs s'
    using that by (auto simp: memColl_def ran_rowMap [OF dist])
  fix c d s r s' assume ok: "ok s"
  note D = dist [OF ok]
  have E: "ok (put ((get s)(d := ys)) s)" if "distinct (map rid ys)" for ys
    by (rule put [OF ok]) (use that D in simp)
  have F: "?rows (put ((get s)(d := ys)) s) = (?rows s)(d := rowMap rid ys)" for ys
    by (simp add: gp fun_eq_iff)
  { fix x assume r: "clCreate ?C c d [x] s = (r, s')"
    let ?i = "freshID (map rid (get s d))"
    let ?ys = "get s d @ [setID ?i x]"
    have d: "distinct (map rid ?ys)" using D freshID_fresh [of "map rid (get s d)"] by (auto simp: rs)
    show "ok s'"
      using r ok E [OF d] by (auto simp: memColl_def Let_def split: if_splits)
    show "case r of Inl _ \<Rightarrow> ?rows s' = ?rows s
         | Inr is \<Rightarrow> \<exists>i. is = [i] \<and> i \<noteq> [] \<and> ?rows s d i = None \<and>
             ?rows s' = (?rows s)(d := (?rows s d)(i \<mapsto> setID i x)) \<and> uniq (?rows s' d)"
    proof (cases "uniqL ?ys")
      case True
      have "?rows s d ?i = None" using freshID_fresh [of "map rid (get s d)"] by (simp add: rowMap_None)
      moreover have "?i \<noteq> []" by (simp add: freshID_def)
      moreover have "r = Inr [?i]" "s' = put ((get s)(d := ?ys)) s"
        using r True by (auto simp: memColl_def Let_def)
      ultimately show ?thesis
        using rowMap_snoc [OF d] un [OF True d] F [of ?ys] by (simp add: rs gp)
    next
      case False
      then show ?thesis using r by (auto simp: memColl_def Let_def)
    qed }
  { fix x assume r: "clSave ?C c d [x] s = (r, s')"
    let ?ys = "map (\<lambda>y. if rid y = rid x then x else y) (get s d)"
    have d: "distinct (map rid ?ys)" unfolding map_rid_save by (rule D)
    show "ok s'" using r ok E [OF d] by (auto simp: memColl_def Let_def split: if_splits)
    show "case r of Inl _ \<Rightarrow> ?rows s' = ?rows s
         | Inr _ \<Rightarrow> ?rows s' = (?rows s)(d := (?rows s d)(rid x \<mapsto> x)) \<and> uniq (?rows s' d)"
    proof (cases "rid x \<in> rid ` set (get s d) \<and> uniqL ?ys")
      case True
      then have "r = Inr ()" "s' = put ((get s)(d := ?ys)) s"
        using r by (auto simp: memColl_def Let_def)
      then show ?thesis
        using rowMap_save [OF D] un [OF _ d] True F [of ?ys] by (simp add: gp)
    next
      case False
      then show ?thesis using r by (auto simp: memColl_def Let_def)
    qed }
  { fix "is" assume r: "clDelete ?C c d is s = (r, s')"
    let ?ys = "filter (\<lambda>x. rid x \<notin> set is) (get s d)"
    show "ok s'" using r E [of ?ys] distinct_map_filter [OF D] by (auto simp: memColl_def)
    show "case r of Inl _ \<Rightarrow> ?rows s' = ?rows s
         | Inr _ \<Rightarrow> ?rows s' = (?rows s)(d := (?rows s d) |` (- set is))"
      using r F [of ?ys] rowMap_filter [OF D] by (auto simp: memColl_def) }
next
  fix s d i x assume "ok s" "rowMap rid (get s d) i = Some x"
  then show "rid x = i" using rowMap_Some [OF dist] by metis
qed

subsection \<open>The model in memory\<close>

record memWorld =
  mwStore :: "bytes \<rightharpoonup> bytes"
  mwBuckets :: "bytes \<Rightarrow> bucketSchema list"
  mwMirror :: "bytes \<Rightarrow> mirrorFileSchema list"
  mwReceived :: "bytes \<Rightarrow> receivedFileSchema list"
  mwSent :: "bytes \<Rightarrow> sentFileSchema list"
  mwShared :: "bytes \<Rightarrow> sharedPublicKeySchema list"

definition emptyWorld :: memWorld where
  "emptyWorld = \<lparr> mwStore = Map.empty, mwBuckets = \<lambda>_. [], mwMirror = \<lambda>_. [], mwReceived = \<lambda>_. [],
     mwSent = \<lambda>_. [], mwShared = \<lambda>_. [] \<rparr>"

definition memWorldStore :: "'z memWorld_scheme storeI" where
  "memWorldStore =
     \<lparr> sGet = \<lambda>k s. (lookupRes (mwStore s k), s),
       sSet = \<lambda>k v s. (Inr (), s\<lparr>mwStore := (mwStore s)(k \<mapsto> v)\<rparr>),
       sRemove = \<lambda>k s. (Inr (), s\<lparr>mwStore := (mwStore s)(k := None)\<rparr>),
       sDropAll = \<lambda>s. (Inr (), s\<lparr>mwStore := Map.empty\<rparr>),
       sKeysWithPrefix = \<lambda>_. failE (Err ''unsupported'') \<rparr>"

definition memThreadDeps :: "'z memWorld_scheme threadDeps" where
  "memThreadDeps =
     \<lparr> tdKc = fixedKeychain, tdStore = memWorldStore, tdPbkdf2 = \<lambda>p s n l. p @ s, tdV1 = 1,
       tdRaw = 85, tdCast = Inr, tdIDString = CastDbIDToString, tdPubBytes = Inr,
       tdHubMa = ''/dns4/hub'', tdAddrFromStr = Inr, tdGetToken = \<lambda>_ p. retE p,
       tdGetHubContext = retE, tdHubGetThread = \<lambda>_ _. failE (Err ''not found''),
       tdNewDBFromAddr = \<lambda>_ _ _ _. retE (), tdNewDB = \<lambda>_ _ _. retE (),
       tdAddReplicator = \<lambda>_ _ _. retE () \<rparr>"

definition mirrorFileFld :: "mirrorFileSchema \<Rightarrow> bytes \<Rightarrow> fval option" where
  "mirrorFileFld m p =
     (if p = ''_id'' then Some (VStr (msID m)) else if p = ''path'' then Some (VStr (msPath m))
      else if p = ''bucket_slug'' then Some (VStr (msBucketSlug m))
      else if p = ''backup'' then Some (VBool (msBackup m)) else None)"

definition receivedFld :: "receivedFileSchema \<Rightarrow> bytes \<Rightarrow> fval option" where
  "receivedFld r p =
     (if p = ''_id'' then Some (VStr (rfID r)) else if p = ''accepted'' then Some (VBool (rfAccepted r))
      else if p = ''dbId'' then Some (VStr (rfDbID r)) else if p = ''bucket'' then Some (VStr (rfBucket r))
      else if p = ''path'' then Some (VStr (rfPath r))
      else if p = ''invitationId'' then Some (VStr (rfInvitationId r))
      else if p = ''bucketKey'' then Some (VStr (rfBucketKey r))
      else if p = ''encryptionKey'' then Some (VBytes (rfEncryptionKey r))
      else if p = ''sharedBy'' then Some (VStr (rfSharedBy r))
      else if p = ''publicIpfsHash'' then Some (VStr (rfPublicIpfsHash r))
      else if p = ''filePassword'' then Some (VStr (rfFilePassword r))
      else if p = ''fileName'' then Some (VStr (rfFileName r))
      else if p = ''fileSize'' then Some (VStr (rfFileSize r)) else None)"

definition sentFld :: "sentFileSchema \<Rightarrow> bytes \<Rightarrow> fval option" where
  "sentFld r p =
     (if p = ''_id'' then Some (VStr (stID r)) else if p = ''dbId'' then Some (VStr (stDbID r))
      else if p = ''bucket'' then Some (VStr (stBucket r)) else if p = ''path'' then Some (VStr (stPath r))
      else if p = ''invitationId'' then Some (VStr (stInvitationId r)) else None)"

definition sharedFld :: "sharedPublicKeySchema \<Rightarrow> bytes \<Rightarrow> fval option" where
  "sharedFld r p =
     (if p = ''_id'' then Some (VStr (spID r)) else if p = ''public_key'' then Some (VStr (spPublicKey r))
      else None)"

definition memModel :: "'z memWorld_scheme modelDeps" where
  "memModel =
     \<lparr> mdThreads = memThreadDeps,
       mdBuckets = memColl mwBuckets (\<lambda>g s. s\<lparr>mwBuckets := g\<rparr>) bucketFld bsID
         (\<lambda>i b. b\<lparr>bsID := i\<rparr>) (\<lambda>ys. distinct (map bsSlug ys)),
       mdMirror = memColl mwMirror (\<lambda>g s. s\<lparr>mwMirror := g\<rparr>) mirrorFileFld msID
         (\<lambda>i b. b\<lparr>msID := i\<rparr>) (\<lambda>ys. distinct (map msPath ys)),
       mdReceived = memColl mwReceived (\<lambda>g s. s\<lparr>mwReceived := g\<rparr>) receivedFld rfID
         (\<lambda>i b. b\<lparr>rfID := i\<rparr>) (\<lambda>_. True),
       mdSent = memColl mwSent (\<lambda>g s. s\<lparr>mwSent := g\<rparr>) sentFld stID (\<lambda>i b. b\<lparr>stID := i\<rparr>) (\<lambda>_. True),
       mdShared = memColl mwShared (\<lambda>g s. s\<lparr>mwShared := g\<rparr>) sharedFld spID
         (\<lambda>i b. b\<lparr>spID := i\<rparr>) (\<lambda>_. True),
       mdRand = \<lambda>n. retE (replicate n (CHR ''k'')), mdNow = retE 7, mdShouldForceRestore = False,
       mdFsearch = \<lparr> seStart = retE (), seInsertFileData = \<lambda>r. retE \<lparr> ixId = [], ixItemName = iiItemName r,
           ixItemExtension = iiItemExtension r, ixItemPath = iiItemPath r, ixItemType = iiItemType r,
           ixBucketSlug = iiBucketSlug r, ixDbId = iiDbId r \<rparr>,
         seQueryFileData = \<lambda>_ _. retE [], seDeleteFileData = \<lambda>_. retE () \<rparr> \<rparr>"

text \<open>IDs are unique within a collection.\<close>

definition memOk :: "'z memWorld_scheme \<Rightarrow> bool" where
  "memOk s \<longleftrightarrow> (\<forall>d. distinct (map bsID (mwBuckets s d)) \<and> distinct (map msID (mwMirror s d)) \<and>
     distinct (map rfID (mwReceived s d)) \<and> distinct (map stID (mwSent s d)) \<and>
     distinct (map spID (mwShared s d)))"

abbreviation memMetaOk :: "'z memWorld_scheme \<Rightarrow> bool" where
  "memMetaOk \<equiv> metaOk memModel memOk mwStore ''priv'' ''pub''"

abbreviation memMetaID :: bytes where
  "memMetaID \<equiv> metaID (memModel :: memWorld modelDeps) ''priv''"

lemma memOk_empty: "memMetaOk emptyWorld"
  by (simp add: metaOk_def memOk_def emptyWorld_def storedDet_def)

lemma memModel_meta:
  fixes obs :: "'z memWorld_scheme \<Rightarrow> 'o"
  assumes "\<And>s m. obs (s\<lparr>mwStore := m\<rparr>) = obs s"
  shows "meta_world memModel memOk mwStore ''priv'' ''pub'' obs"
  unfolding meta_world_def
proof (intro conjI allI exI)
  fix x
  show "key_holder (tdKc (mdThreads memModel)) (\<lambda>s. memOk s \<and> obs s = x) mwStore ''priv'' ''pub'' Inr"
    by unfold_locales (auto simp: memModel_def memThreadDeps_def fixedKeychain_def)
  have o: "memOk (s\<lparr>mwStore := m\<rparr>) = memOk s" for s m by (simp add: memOk_def)
  show "thread_env (mdThreads memModel) (\<lambda>s. memOk s \<and> obs s = x) mwStore"
    unfolding thread_env_def
    by (auto simp: memModel_def memThreadDeps_def memWorldStore_def stable_def o assms)
  show "tdCast (mdThreads (memModel :: 'z memWorld_scheme modelDeps)) (metaID (memModel :: 'z memWorld_scheme modelDeps) ''priv'') =
      Inr (metaID (memModel :: 'z memWorld_scheme modelDeps) ''priv'')"
    by (simp add: memModel_def memThreadDeps_def)
qed

abbreviation memBuckets :: "'z memWorld_scheme \<Rightarrow> bytes \<Rightarrow> bytes \<rightharpoonup> bucketSchema" where
  "memBuckets \<equiv> \<lambda>s d. rowMap bsID (mwBuckets s d)"

lemma memModel_buckets: "bucket_world memModel memOk mwStore ''priv'' ''pub'' memBuckets"
  unfolding bucket_world_def
proof (intro conjI allI impI)
  show "meta_world memModel memOk mwStore ''priv'' ''pub'' memBuckets"
    by (rule memModel_meta) simp
  have u: "uniqueSlugs (rowMap bsID ys)" if "distinct (map bsSlug ys)" "distinct (map bsID ys)" for ys
    using that by (auto simp: uniqueSlugs_def rowMap_Some distinct_map inj_on_def)
  show "coll_env (mdBuckets memModel) memMetaOk memBuckets bucketFld bsID (\<lambda>i b. b\<lparr>bsID := i\<rparr>) uniqueSlugs"
    unfolding memModel_def modelDeps.simps
    by (rule memColl_env) (auto simp: metaOk_def memOk_def u)
  show "stable memMetaOk memBuckets (mdRand memModel n)" for n
    by (simp add: memModel_def stable_def)
  show "length x = n" if "mdRand memModel n s = (Inr x, s')" for n s x s'
    using that by (auto simp: memModel_def)
qed

end
