(* ===== verification/ModelFacts.thy ===== *)
theory ModelFacts
  imports ModelMem
begin

text \<open>
  The properties of the model: what sequences of bucket operations keep, what a created bucket reads
  back as, and which received files a revocation deletes.
\<close>

subsection \<open>Buckets\<close>

text \<open>
  C13. Whatever bucket operations run, in any order and whatever their errors, a bucket that exists
  keeps its slug and its encryption key under the same ID, and no two buckets get the same slug.
\<close>

theorem bucket_keys_kept:
  assumes "bucket_world M ok view priv pub rows" "metaOk M ok view priv pub s"
    and "uniqueSlugs (rows s (metaID M priv))" "rows s (metaID M priv) i = Some b"
  shows "(\<exists>b'. rows (runBucketOps M c ops s) (metaID M priv) i = Some b' \<and> bsSlug b' = bsSlug b \<and>
      bsEncryptionKey b' = bsEncryptionKey b) \<and>
    (\<forall>j x y. rows (runBucketOps M c ops s) (metaID M priv) i = Some x \<longrightarrow>
       rows (runBucketOps M c ops s) (metaID M priv) j = Some y \<longrightarrow> bsSlug x = bsSlug y \<longrightarrow> i = j)"
proof -
  have "bI M ok view priv pub rows (\<lambda>R. keyKept (rows s (metaID M priv)) (R (metaID M priv))) s"
    using assms(2,3) by (simp add: bI_def keyKept_def sameKey_def)
  from bucket_ops_keep [OF assms(1) this, of c ops]
  show ?thesis using assms(4) unfolding bI_def keyKept_def sameKey_def uniqueSlugs_def by blast
qed

definition personalRow :: bucketSchema where
  "personalRow = (newBucketRow ''personal'' ''db1'' (replicate 80 (CHR ''k'')))\<lparr>bsID := ''i''\<rparr>"

definition withPersonal :: memWorld where
  "withPersonal = emptyWorld\<lparr>mwBuckets := (\<lambda>_. [])(memMetaID := [personalRow])\<rparr>"

lemma withPersonal_ok:
  "memMetaOk withPersonal" "uniqueSlugs (memBuckets withPersonal memMetaID)"
  "memBuckets withPersonal memMetaID ''i'' = Some personalRow"
  by (simp_all add: metaOk_def memOk_def emptyWorld_def withPersonal_def storedDet_def uniqueSlugs_def
      rowMap_def personalRow_def newBucketRow_def)

theorem bucket_keys_kept_witness:
  "\<exists>b'. memBuckets (runBucketOps memModel background
       [OpUpsert ''personal'' ''db2'', OpToggle ''personal'' False, OpCreate ''other'' ''db3'', OpList]
       withPersonal) memMetaID ''i'' = Some b' \<and>
     bsEncryptionKey b' = replicate 80 (CHR ''k'')"
proof -
  have k: "bsEncryptionKey personalRow = replicate 80 (CHR ''k'')"
    by (simp add: personalRow_def newBucketRow_def)
  show ?thesis
    using conjunct1 [OF bucket_keys_kept [where M = memModel and ok = memOk and view = mwStore and priv = "''priv''"
          and pub = "''pub''" and rows = memBuckets and s = withPersonal, OF memModel_buckets withPersonal_ok]]
    unfolding k by blast
qed

text \<open>
  C37. After \<open>CreateBucket\<close> the bucket is found under its slug with the ID that was returned, and no
  other row has changed.  If there was such a bucket it is what was returned, and nothing changed;
  otherwise the row has the given database and a new key of 80 bytes, while the schema that was
  returned carries an empty key.
\<close>

theorem bucket_created_found:
  assumes "bucket_world M ok view priv pub rows" "metaOk M ok view priv pub s"
    and "uniqueSlugs (rows s (metaID M priv))"
    and "CreateBucket M c slug dbID s = (Inr b, s')" "FindBucket M c' slug s' = (Inr b', s'')"
  shows "bsID b' = bsID b \<and> bsSlug b' = slug \<and>
    (\<forall>i. i \<noteq> bsID b \<longrightarrow> rows s' (metaID M priv) i = rows s (metaID M priv) i) \<and>
    (if \<exists>x \<in> ran (rows s (metaID M priv)). bsSlug x = slug
     then b' = b \<and> rows s' (metaID M priv) = rows s (metaID M priv)
     else bsDbID b' = dbID \<and> length (bsEncryptionKey b') = 80 \<and> bsEncryptionKey b = [])"
proof -
  let ?d = "metaID M priv" and ?R = "rows s (metaID M priv)" and ?R' = "rows s' (metaID M priv)"
  note w = bucket_worldD [OF assms(1)]
  have c: "createdBucket ?R ?R' slug dbID b" "metaOk M ok view priv pub s'"
    using ensuresD [OF bucket_create [OF assms(1)] conjI [OF assms(2) refl] assms(4)] by simp_all
  have u: "uniqueSlugs ?R'" using c(1) assms(3) by (auto simp: createdBucket_def)
  have "bI M ok view priv pub rows (\<lambda>R. R = rows s') s'" using c(2) by (simp add: bI_def)
  from ensuresD [OF bucket_find [OF assms(1)] this assms(5)]
  have b': "b' \<in> ran ?R'" "bsSlug b' = slug" by (auto simp: bI_def)
  then obtain i where i: "?R' i = Some b'" by (auto simp: ran_def)
  show ?thesis
  proof (cases "b \<in> ran ?R \<and> bsSlug b = slug \<and> ?R' = ?R")
    case True
    then obtain j where "?R' j = Some b" by (auto simp: ran_def)
    then have "b' = b" using i u b'(2) True unfolding uniqueSlugs_def by (metis option.inject)
    then show ?thesis using True b' by auto
  next
    case False
    then obtain key where k: "length key = BucketEncryptionKeyLength" "?R (bsID b) = None"
      "?R' = ?R(bsID b \<mapsto> (newBucketRow slug dbID key)\<lparr>bsID := bsID b\<rparr>)"
      "b = (newBucketRow slug dbID [])\<lparr>bsID := bsID b\<rparr>"
      using c(1) unfolding createdBucket_def by blast
    have new: "?R' (bsID b) = Some ((newBucketRow slug dbID key)\<lparr>bsID := bsID b\<rparr>)" using k(3) by simp
    have s: "bsSlug ((newBucketRow slug dbID key)\<lparr>bsID := bsID b\<rparr>) = slug" by (simp add: newBucketRow_def)
    have "i = bsID b" using u i new s b'(2) unfolding uniqueSlugs_def by metis
    then have b'': "b' = (newBucketRow slug dbID key)\<lparr>bsID := bsID b\<rparr>" using i new by simp
    have no: "\<not> (\<exists>x \<in> ran ?R. bsSlug x = slug)"
    proof
      assume "\<exists>x \<in> ran ?R. bsSlug x = slug"
      then obtain j x where j: "?R j = Some x" "bsSlug x = slug" by (auto simp: ran_def)
      then have "j \<noteq> bsID b" using k(2) by auto
      then have "?R' j = Some x" using j k(3) by simp
      then show False using u new s j(2) \<open>j \<noteq> bsID b\<close> unfolding uniqueSlugs_def by metis
    qed
    have "bsEncryptionKey b = []" using arg_cong [OF k(4), of bsEncryptionKey] by (simp add: newBucketRow_def)
    then show ?thesis
      using no k(1,3) b'' by (simp add: newBucketRow_def BucketEncryptionKeyLength_def)
  qed
qed

theorem bucket_created_found_witness:
  "let r = CreateBucket memModel background ''personal'' ''db1'' emptyWorld;
       q = FindBucket memModel background ''personal'' (snd r) in
   bsEncryptionKey (projr (fst r)) = [] \<and> length (bsEncryptionKey (projr (fst q))) = 80 \<and>
   bsID (projr (fst q)) = bsID (projr (fst r))"
proof -
  let ?r = "CreateBucket memModel background ''personal'' ''db1'' emptyWorld"
  let ?q = "FindBucket memModel background ''personal'' (snd ?r)"
  have e: "uniqueSlugs (memBuckets emptyWorld memMetaID)"
    "ran (memBuckets emptyWorld memMetaID) = {}"
    by (simp_all add: uniqueSlugs_def emptyWorld_def rowMap_def)
  have "\<not> isl (fst ?r)" "\<not> isl (fst ?q)" by code_simp+
  then have "?r = (Inr (projr (fst ?r)), snd ?r)" "?q = (Inr (projr (fst ?q)), snd ?q)"
    by (simp_all add: prod_eq_iff)
  from bucket_created_found [where M = memModel and ok = memOk and view = mwStore and priv = "''priv''"
      and pub = "''pub''" and rows = memBuckets and s = emptyWorld, OF memModel_buckets memOk_empty e(1) this] show ?thesis by (simp add: e(2))
qed

subsection \<open>Received files\<close>

definition received_world :: "'s modelDeps \<Rightarrow> ('s \<Rightarrow> bool) \<Rightarrow> ('s \<Rightarrow> bytes \<rightharpoonup> bytes) \<Rightarrow> bytes \<Rightarrow> bytes \<Rightarrow>
    ('s \<Rightarrow> bytes \<Rightarrow> bytes \<rightharpoonup> receivedFileSchema) \<Rightarrow> bool" where
  "received_world M ok view priv pub rows \<longleftrightarrow>
     meta_world M ok view priv pub rows \<and>
     coll_env (mdReceived M) (metaOk M ok view priv pub) rows receivedFld rfID (\<lambda>i r. r\<lparr>rfID := i\<rparr>) (\<lambda>_. True) \<and>
     stable (metaOk M ok view priv pub) rows (mdNow M)"

lemma received_worldD:
  assumes "received_world M ok view priv pub rows"
  shows "meta_world M ok view priv pub rows"
    "coll_env (mdReceived M) (metaOk M ok view priv pub) rows receivedFld rfID (\<lambda>i r. r\<lparr>rfID := i\<rparr>) (\<lambda>_. True)"
    "stable (metaOk M ok view priv pub) rows (mdNow M)"
  using assms unfolding received_world_def by blast+

lemma qMatch_foldl: "qMatch f (foldl dbOr q qs) \<longleftrightarrow> qMatch f q \<or> (\<exists>q' \<in> set qs. qMatch f q')"
  by (induction qs arbitrary: q) auto

lemma plainQuery_foldl: "plainQuery (foldl dbOr q qs) = plainQuery q"
  by (induction qs arbitrary: q) auto

lemma orQuery_spec:
  assumes "qs \<noteq> []" "\<forall>q \<in> set qs. plainQuery q"
  shows "\<exists>q. orQuery qs = Some q \<and> plainQuery q \<and> (\<forall>f. qMatch f q \<longleftrightarrow> (\<exists>q' \<in> set qs. qMatch f q'))"
  using assms by (cases qs) (auto simp: qMatch_foldl plainQuery_foldl)

lemma revokedQueries_Inr:
  "revokedQueries paths keys = Inr qs \<Longrightarrow>
   length paths \<le> length keys \<and> qs = map2 revokedQuery paths keys"
proof (induction paths keys arbitrary: qs rule: revokedQueries.induct)
  case (2 p ps keys)
  show ?case
  proof (cases keys)
    case (Cons k ks)
    then obtain qs' where "revokedQueries ps ks = Inr qs'" "qs = revokedQuery p k # qs'"
      using 2(2) by (cases "revokedQueries ps ks") auto
    then show ?thesis using 2(1) [of qs'] Cons by simp
  qed (use 2(2) in simp)
qed simp

lemma revokedQuery_match [simp]:
  "qMatch (receivedFld r) (revokedQuery p k) \<longleftrightarrow>
     rfDbID r = fpDbId p \<and> rfBucket r = fpBucketKey p \<and> rfPath r = fpPath p \<and> rfEncryptionKey r = k"
  "plainQuery (revokedQuery p k)"
  by (auto simp: revokedQuery_def receivedFld_def)

text \<open>A row a revocation of \<open>paths\<close> with \<open>keys\<close> is meant to delete.\<close>

definition revokes :: "fullPath list \<Rightarrow> bytes list \<Rightarrow> receivedFileSchema \<Rightarrow> bool" where
  "revokes paths keys r \<longleftrightarrow> (\<exists>n < length paths. rfDbID r = fpDbId (paths ! n) \<and>
     rfBucket r = fpBucketKey (paths ! n) \<and> rfPath r = fpPath (paths ! n) \<and> rfEncryptionKey r = keys ! n)"

lemma map2_match:
  "length paths \<le> length keys \<Longrightarrow>
   (\<exists>q \<in> set (map2 revokedQuery paths keys). qMatch (receivedFld r) q) \<longleftrightarrow> revokes paths keys r"
  by (fastforce simp: set_zip revokes_def)

lemma delete_received:
  assumes "received_world M ok view priv pub rows" "metaOk M ok view priv pub s" "paths \<noteq> []"
    and "DeleteReceivedFiles M c paths keys s = (Inr u, s')"
  shows "length paths \<le> length keys \<and> rows s' (metaID M priv) =
    rows s (metaID M priv) |` {i. \<forall>r. rows s (metaID M priv) i = Some r \<longrightarrow> \<not> revokes paths keys r}"
proof -
  let ?d = "metaID M priv" and ?ok = "metaOk M ok view priv pub"
  note w = received_worldD [OF assms(1)]
  obtain mc d s1 qs raw s2 where s1: "initReceivedFileModel M c s = (Inr (mc, d), s1)"
    and qs: "revokedQueries paths keys = Inr qs"
    and s2: "clFind (mdReceived M) mc d (orQuery qs) s1 = (Inr raw, s2)"
    and del: "(case raw of None \<Rightarrow> retE () | Some files \<Rightarrow> clDelete (mdReceived M) mc d (map rfID files)) s2 = (Inr u, s')"
    using assms(3,4) by (auto simp: DeleteReceivedFiles_def bindE_eq_Inr)
  have "ensures (\<lambda>t. ?ok t \<and> rows t = rows s) (initReceivedFileModel M c)
      (\<lambda>(mc, d) t. d = ?d \<and> ?ok t \<and> rows t = rows s) (\<lambda>t. ?ok t \<and> rows t = rows s)"
    unfolding initReceivedFileModel_def by (rule init_ensures [OF w(1) coll_envD(1) [OF w(2)]])
  from ensuresD [OF this conjI [OF assms(2) refl] s1]
  have d: "d = ?d" "?ok s1" "rows s1 = rows s" by simp_all
  note l = revokedQueries_Inr [OF qs]
  have "qs \<noteq> []" using l assms(3) by (cases paths; cases keys) auto
  moreover have "\<forall>q \<in> set qs. plainQuery q" using l by (auto simp: set_zip)
  ultimately obtain q where q: "orQuery qs = Some q" "plainQuery q"
    "\<And>f. qMatch f q \<longleftrightarrow> (\<exists>q' \<in> set qs. qMatch f q')"
    using orQuery_spec by blast
  have s2': "?ok s2" "rows s2 = rows s"
    using stableD [OF coll_envD(3) [OF w(2)] d(2) s2] d(3) by simp_all
  obtain ys where ys: "raw = Some ys" "set ys = {x \<in> ran (rows s1 d). qMatch (receivedFld x) q}"
    using coll_envD(4) [OF w(2) d(2) q(2) s2 [unfolded q(1)]] by blast
  have r: "set ys = {x \<in> ran (rows s ?d). revokes paths keys x}"
    using ys(2) d q(3) l map2_match by simp
  have "rows s' ?d = (rows s ?d) |` (- set (map rfID ys))"
    using coll_envD(9) [OF w(2) s2'(1)] del ys(1) d(1) s2'(2) by simp
  also have "(rows s ?d) |` (- set (map rfID ys)) =
      (rows s ?d) |` {i. \<forall>r. rows s ?d i = Some r \<longrightarrow> \<not> revokes paths keys r}"
  proof
    fix i
    have "i \<in> rfID ` set ys \<longleftrightarrow> revokes paths keys x" if x: "rows s ?d i = Some x" for x
    proof -
      have "rfID x = i" by (rule coll_envD(11) [OF w(2) assms(2) x])
      moreover have "y = x" if "y \<in> set ys" "rfID y = i" for y
        using that r x coll_envD(11) [OF w(2) assms(2)] by (fastforce simp: ran_def)
      moreover have "x \<in> set ys \<longleftrightarrow> revokes paths keys x" using r x by (auto simp: ran_def)
      ultimately show ?thesis by (metis imageE imageI)
    qed
    then show "((rows s ?d) |` (- set (map rfID ys))) i =
        ((rows s ?d) |` {i. \<forall>r. rows s ?d i = Some r \<longrightarrow> \<not> revokes paths keys r}) i"
      by (cases "rows s ?d i") (auto simp: restrict_map_def)
  qed
  finally show ?thesis using l by simp
qed

text \<open>
  C38. Revoking deletes exactly the received files whose database, path and encryption key are those
  of one of the paths and whose bucket \<^emph>\<open>name\<close> is that path's bucket \<^emph>\<open>key\<close>; a file stored from an
  invitation to one of the paths is found by its bucket name, so when no name among them is a key it
  stays.
\<close>

theorem revoked_files_deleted:
  assumes "received_world M ok view priv pub rows" "metaOk M ok view priv pub s" "paths \<noteq> []"
    and "DeleteReceivedFiles M c paths keys s = (Inr u, s')"
  shows "(\<forall>i r. rows s' (metaID M priv) i = Some r \<longleftrightarrow> rows s (metaID M priv) i = Some r \<and>
      \<not> (\<exists>n < length paths. rfDbID r = fpDbId (paths ! n) \<and> rfBucket r = fpBucketKey (paths ! n) \<and>
           rfPath r = fpPath (paths ! n) \<and> rfEncryptionKey r = keys ! n)) \<and>
    ((\<forall>p \<in> set paths. \<forall>q \<in> set paths. fpBucket p \<noteq> fpBucketKey q) \<longrightarrow>
      (\<forall>i p inv key by now. p \<in> set paths \<longrightarrow>
         rows s (metaID M priv) i = Some ((receivedRow p inv True key by now)\<lparr>rfID := i\<rparr>) \<longrightarrow>
         rows s' (metaID M priv) i \<noteq> None))"
proof -
  note d = conjunct2 [OF delete_received [OF assms]]
  have e: "rows s' (metaID M priv) i = Some r \<longleftrightarrow>
      rows s (metaID M priv) i = Some r \<and> \<not> revokes paths keys r" for i r
    unfolding d by (auto simp: restrict_map_def)
  have "rows s' (metaID M priv) i \<noteq> None"
    if "\<forall>p \<in> set paths. \<forall>q \<in> set paths. fpBucket p \<noteq> fpBucketKey q" "p \<in> set paths"
      "rows s (metaID M priv) i = Some ((receivedRow p inv True key by now)\<lparr>rfID := i\<rparr>)"
    for i p inv key "by" now
    using that e [of i "(receivedRow p inv True key by now)\<lparr>rfID := i\<rparr>"]
    by (auto simp: revokes_def receivedRow_def)
  then show ?thesis unfolding e revokes_def by blast
qed

abbreviation memReceived :: "'z memWorld_scheme \<Rightarrow> bytes \<Rightarrow> bytes \<rightharpoonup> receivedFileSchema" where
  "memReceived \<equiv> \<lambda>s d. rowMap rfID (mwReceived s d)"

lemma memModel_received: "received_world memModel memOk mwStore ''priv'' ''pub'' memReceived"
  unfolding received_world_def
proof (intro conjI)
  show "meta_world memModel memOk mwStore ''priv'' ''pub'' memReceived"
    by (rule memModel_meta) simp
  show "coll_env (mdReceived memModel) memMetaOk memReceived receivedFld rfID (\<lambda>i r. r\<lparr>rfID := i\<rparr>) (\<lambda>_. True)"
    unfolding memModel_def modelDeps.simps
    by (rule memColl_env) (auto simp: metaOk_def memOk_def)
  show "stable memMetaOk memReceived (mdNow memModel)"
    by (simp add: memModel_def stable_def)
qed

definition sharedPath :: fullPath where
  "sharedPath = \<lparr> fpDbId = ''db'', fpBucketKey = ''key'', fpBucket = ''personal'', fpPath = ''/a'' \<rparr>"

definition withReceived :: memWorld where
  "withReceived = emptyWorld\<lparr>mwReceived := (\<lambda>_. [])(memMetaID :=
     [(receivedRow sharedPath ''inv'' True ''k'' ''alice'' 7)\<lparr>rfID := ''i''\<rparr>])\<rparr>"

theorem revoked_files_deleted_witness:
  "\<exists>s'. DeleteReceivedFiles memModel background [sharedPath] [''k''] withReceived = (Inr (), s') \<and>
     memReceived s' memMetaID ''i'' \<noteq> None"
proof -
  let ?r = "DeleteReceivedFiles memModel background [sharedPath] [''k''] withReceived"
  have "fst ?r = Inr ()" by code_simp
  then have r: "?r = (Inr (), snd ?r)" by (simp add: prod_eq_iff)
  have o: "memMetaOk withReceived"
    by (simp add: metaOk_def memOk_def emptyWorld_def withReceived_def storedDet_def)
  have i: "memReceived withReceived memMetaID ''i'' =
      Some ((receivedRow sharedPath ''inv'' True ''k'' ''alice'' 7)\<lparr>rfID := ''i''\<rparr>)"
    by (simp add: withReceived_def rowMap_def)
  have p: "\<forall>p \<in> set [sharedPath]. \<forall>q \<in> set [sharedPath]. fpBucket p \<noteq> fpBucketKey q"
    by (simp add: sharedPath_def)
  have "memReceived (snd ?r) memMetaID ''i'' \<noteq> None"
    using conjunct2 [OF revoked_files_deleted [where M = memModel and ok = memOk and view = mwStore
        and priv = "''priv''" and pub = "''pub''" and rows = memReceived and s = withReceived,
        OF memModel_received o _ r]] p i list.set_intros(1) [of sharedPath "[]"] by blast
  then show ?thesis using r by blast
qed

end
