(* ===== verification/BucketFactory.thy ===== *)
theory BucketFactory
  imports ModelFacts SecureBucket
begin

text \<open>
  The textile client's buckets: \<open>core/textile/bucket_factory.go\<close>, \<open>public.go\<close>, \<open>mirror.go\<close> and the
  state the client keeps (\<open>core/textile/client.go\<close>).

  The client's own fields are \<open>tcFlags\<close>, a part of the state \<open>'s\<close> read and written through
  \<open>tcGet\<close> and \<open>tcUpd\<close>; the model is the one of \<open>Model\<close>, the encrypting buckets client that of
  \<open>SecureBucket\<close>.  The textile clients, the synchronizer, multiaddresses and the mailbox are
  parameters (\<open>tcDeps\<close>).  A bucket keeps the context of the call that made it.
\<close>

subsection \<open>The client\<close>

datatype bucketsBase = LocalBuckets | HubBuckets

text \<open>The \<open>bool\<close> of \<open>baCreate\<close> says that the option \<open>WithPrivate(false)\<close> is given.\<close>

record 's bucketsApi =
  baClient :: "'s bclient"
  baPullRoles :: "ctx \<Rightarrow> bytes \<Rightarrow> bytes \<Rightarrow> ('s, (bytes \<times> bytes) list) eff"
  baList :: "ctx \<Rightarrow> ('s, bucketRoot list) eff"
  baCreate :: "ctx \<Rightarrow> bytes \<Rightarrow> bool \<Rightarrow> ('s, bucketRoot) eff"
  baRemove :: "ctx \<Rightarrow> bytes \<Rightarrow> ('s, unit) eff"

record 's tcSyncI =
  tsItemAdded :: "bytes \<Rightarrow> bytes \<Rightarrow> ('s, unit) eff"
  tsBucketCreated :: "bytes \<Rightarrow> bytes \<Rightarrow> ('s, unit) eff"
  tsBucketBackupOn :: "bytes \<Rightarrow> ('s, unit) eff"
  tsBucketBackupOff :: "bytes \<Rightarrow> ('s, unit) eff"
  tsBucketRestore :: "bytes \<Rightarrow> ('s, unit) eff"
  tsIndexItemAdded :: "bytes \<Rightarrow> bytes \<Rightarrow> bytes \<Rightarrow> ('s, unit) eff"
  tsBucketStartup :: "bytes \<Rightarrow> ('s, unit) eff"
  tsRestoreQueue :: "('s, unit) eff"
  tsStart :: "('s, unit) eff"
  tsShutdown :: "('s, unit) eff"

text \<open>The fields of \<open>textileClient\<close> that change: \<open>cfMailbox\<close> and \<open>cfSync\<close> say that \<open>mb\<close> and \<open>sync\<close> are not nil.\<close>

record clientFields =
  cfRunning :: bool
  cfInitialized :: bool
  cfSyncInitialized :: bool
  cfConnectedToHub :: bool
  cfMailbox :: bool
  cfSync :: bool
  cfFailedHealthchecks :: nat
  cfShouldForceRestore :: bool
  cfDbListeners :: "bytes list"

record 's tcDeps =
  tcModel :: "'s modelDeps"
  tcGet :: "'s \<Rightarrow> clientFields"
  tcUpd :: "(clientFields \<Rightarrow> clientFields) \<Rightarrow> 's \<Rightarrow> 's"
  tcNewID :: "('s, bytes) eff"
  tcListDBs :: "ctx \<Rightarrow> ('s, bytes list) eff"
  tcGetDBInfo :: "ctx \<Rightarrow> bytes \<Rightarrow> ('s, bytes) eff"
  tcDeleteDB :: "bytes \<Rightarrow> ('s, unit) eff"
  tcHubNewDB :: "ctx \<Rightarrow> bytes \<Rightarrow> ('s, unit) eff"
  tcApi :: "bucketsBase \<Rightarrow> 's bucketsApi"
  tcSecDeps :: "'s secDeps"
  tcRace :: "puller list"
  tcSync :: "'s tcSyncI"
  tcHubMa :: bytes
  tcNewMultiaddr :: "bytes \<Rightarrow> err + bytes"
  tcFromAddr :: "bytes \<Rightarrow> err + bytes"
  tcKeyFromString :: "bytes \<Rightarrow> err + bytes"
  tcClearHubCache :: "('s, unit) eff"
  tcSetupMailbox :: "ctx \<Rightarrow> ('s, unit) eff"
  tcListenForMessages :: "ctx \<Rightarrow> ('s, unit) eff"
  tcClearLocalMailbox :: "('s, unit) eff"
  tcSpawnListener :: "ctx \<Rightarrow> bytes \<Rightarrow> ('s, unit) eff"
  tcCloseListener :: "bytes \<Rightarrow> ('s, unit) eff"
  tcKeypairDeleted :: "('s, unit) eff"
  tcHealthyWaiter :: "'s \<Rightarrow> bool"

definition fieldE :: "'s tcDeps \<Rightarrow> (clientFields \<Rightarrow> 'a) \<Rightarrow> ('s, 'a) eff" where
  "fieldE T f = getE (\<lambda>s. f (tcGet T s))"

definition setE :: "'s tcDeps \<Rightarrow> (clientFields \<Rightarrow> clientFields) \<Rightarrow> ('s, unit) eff" where
  "setE T f = modE (tcUpd T f)"

abbreviation tcThreads :: "'s tcDeps \<Rightarrow> 's threadDeps" where
  "tcThreads T \<equiv> mdThreads (tcModel T)"

abbreviation tcKc :: "'s tcDeps \<Rightarrow> 's keychainI" where
  "tcKc T \<equiv> tdKc (tcThreads T)"

definition defaultPersonalBucketSlug :: bytes where
  "defaultPersonalBucketSlug = ''personal''"

definition defaultPersonalMirrorBucketSlug :: bytes where
  "defaultPersonalMirrorBucketSlug = ''personal_mirror''"

definition defaultPublicShareBucketSlug :: bytes where
  "defaultPublicShareBucketSlug = ''personal_public''"

definition requiresRunning :: "'s tcDeps \<Rightarrow> ('s, unit) eff" where
  "requiresRunning T =
     bindE (fieldE T (\<lambda>f. cfRunning f \<and> cfInitialized f)) (\<lambda>up.
       if up then retE ()
       else failE (Err ''ran an operation that requires starting and initializing textileClient first''))"

definition requiresHubConnection :: "'s tcDeps \<Rightarrow> ('s, unit) eff" where
  "requiresHubConnection T =
     thenE (requiresRunning T)
       (bindE (fieldE T (\<lambda>f. cfConnectedToHub f \<and> cfMailbox f)) (\<lambda>up.
          if up then retE () else failE (Err ''ran an operation that requires connection to hub'')))"

definition getHubCtx :: "'s tcDeps \<Rightarrow> ctx \<Rightarrow> ('s, ctx) eff" where
  "getHubCtx T c = tdGetHubContext (tcThreads T) c"

definition GetModel :: "'s tcDeps \<Rightarrow> ('s, 's modelDeps) eff" where
  "GetModel T =
     bindE (fieldE T cfShouldForceRestore) (\<lambda>force. retE ((tcModel T)\<lparr>mdShouldForceRestore := force\<rparr>))"

definition secDepsOn :: "'s tcDeps \<Rightarrow> bucketsBase \<Rightarrow> 's secDeps" where
  "secDepsOn T base =
     (tcSecDeps T)\<lparr>sdClient := baClient (tcApi T base),
       sdPullRoles := baPullRoles (tcApi T base), sdIsRemote := (base = HubBuckets)\<rparr>"

definition getSecureBucketsClient :: "'s tcDeps \<Rightarrow> bucketsBase \<Rightarrow> 's bclient" where
  "getSecureBucketsClient T base = secureClient (secDepsOn T base) (tcRace T)"

text \<open>A method of the synchronizer: it is nil until the first health check.\<close>

definition syncE :: "'s tcDeps \<Rightarrow> ('s, unit) eff \<Rightarrow> ('s, unit) eff" where
  "syncE T m =
     bindE (fieldE T cfSync) (\<lambda>set. if set then m else failE (Panic ''nil pointer dereference''))"

subsection \<open>Contexts\<close>

definition NotFound :: "bytes \<Rightarrow> err" where
  "NotFound slug = Err (''bucket '' @ slug @ '' not found'')"

definition getBucketThreadManagedKey :: "bytes \<Rightarrow> bytes" where
  "getBucketThreadManagedKey bucketSlug = ''bucketKey_'' @ bucketSlug"

definition getBucketContext ::
  "'s tcDeps \<Rightarrow> ctx \<Rightarrow> bytes \<Rightarrow> bytes \<Rightarrow> bool \<Rightarrow> bytes \<Rightarrow> ('s, ctx \<times> bytes) eff" where
  "getBucketContext T c sDbID bucketSlug ishub enckey =
     bindE (liftE (ParseDbIDFromString (tdCast (tcThreads T)) sDbID)) (\<lambda>dbID.
     bindE (GetThreadContext (tcThreads T) None c bucketSlug dbID ishub) (\<lambda>c.
       retE (NewBucketEncryptionKeyContext c enckey, dbID)))"

definition getOrCreateBucketContext :: "'s tcDeps \<Rightarrow> ctx \<Rightarrow> bytes \<Rightarrow> ('s, ctx \<times> bytes) eff" where
  "getOrCreateBucketContext T c bucketSlug =
     bindE (GetModel T) (\<lambda>M.
     bindE (tryE (FindBucket M c bucketSlug)) (\<lambda>found.
       case found of
         Inr b \<Rightarrow> getBucketContext T c (bsDbID b) bucketSlug False (bsEncryptionKey b)
       | Inl _ \<Rightarrow>
           bindE (tcNewID T) (\<lambda>dbID.
           bindE (kiThreadKey (tcKc T) (getBucketThreadManagedKey bucketSlug)) (\<lambda>managedKey.
           bindE (kiKeyPair (tcKc T)) (\<lambda>(pk, _).
           thenE (tdNewDB (tcThreads T) c dbID
                   (noDbOpts\<lparr>doThreadKey := Some managedKey, doLogKey := Some pk\<rparr>))
           (bindE (CreateBucket M c bucketSlug (CastDbIDToString dbID)) (\<lambda>b.
            bindE (getBucketContext T c (CastDbIDToString dbID) bucketSlug False (bsEncryptionKey b))
              (\<lambda>(bucketCtx, _). retE (bucketCtx, dbID)))))))))"

subsection \<open>Finding a bucket\<close>

record remoteFileInput =
  grPath :: bytes
  grDbID :: bytes
  grBucket :: bytes

definition getBucketRootFromReceivedFile ::
  "'s tcDeps \<Rightarrow> ctx \<Rightarrow> remoteFileInput \<Rightarrow> ('s, bucketRoot \<times> (bytes \<Rightarrow> ('s, ctx \<times> bytes) eff)) eff" where
  "getBucketRootFromReceivedFile T c f =
     bindE (GetModel T) (\<lambda>M.
     bindE (FindReceivedFile M c (grDbID f) (grBucket f) (grPath f)) (\<lambda>r.
       let getCtxFn = (\<lambda>slug. getBucketContext T c (rfDbID r) (rfBucket r) True (rfEncryptionKey r)) in
       bindE (getCtxFn (rfBucket r)) (\<lambda>(remoteCtx, _).
       bindE (cListPath (getSecureBucketsClient T HubBuckets) remoteCtx (rfBucketKey r) (rfPath r)) (\<lambda>b.
         retE (dlRoot b, getCtxFn)))))"

text \<open>The mirror's fields are promoted from an embedded pointer.\<close>

definition mirrorOf :: "bucketSchema \<Rightarrow> ('s, mirrorBucketSchema) eff" where
  "mirrorOf b = (case bsMirror b of None \<Rightarrow> failE (Panic ''nil pointer dereference'') | Some m \<Rightarrow> retE m)"

definition getBucketRootForMirror ::
  "'s tcDeps \<Rightarrow> ctx \<Rightarrow> bytes \<Rightarrow> ('s, bucketRoot \<times> (bytes \<Rightarrow> ('s, ctx \<times> bytes) eff) \<times> bytes) eff" where
  "getBucketRootForMirror T c slug =
     bindE (GetModel T) (\<lambda>M.
     bindE (FindBucket M c slug) (\<lambda>b.
     bindE (mirrorOf b) (\<lambda>m.
       let getCtxFn = (\<lambda>slug. getBucketContext T c (mbRemoteDbID m) (mbRemoteBucketSlug m) True (bsEncryptionKey b)) in
       bindE (getCtxFn (mbRemoteBucketSlug m)) (\<lambda>(remoteCtx, _).
       bindE (cListPath (getSecureBucketsClient T HubBuckets) remoteCtx (mbRemoteBucketKey m) []) (\<lambda>l.
         retE (dlRoot l, getCtxFn, mbRemoteBucketSlug m))))))"

definition getBucketRootFromSlug :: "'s tcDeps \<Rightarrow> ctx \<Rightarrow> bytes \<Rightarrow> ('s, ctx \<times> bucketRoot) eff" where
  "getBucketRootFromSlug T c slug =
     bindE (getOrCreateBucketContext T c slug) (\<lambda>(c, _).
     bindE (baList (tcApi T LocalBuckets) c) (\<lambda>roots.
       case find (\<lambda>root. rtName root = slug) roots of
         Some root \<Rightarrow> retE (c, root)
       | None \<Rightarrow> failE (NotFound slug)))"

definition getBucket :: "'s tcDeps \<Rightarrow> ctx \<Rightarrow> bytes \<Rightarrow> remoteFileInput option \<Rightarrow> ('s, 's bucket) eff" where
  "getBucket T c slug remoteFile =
     bindE (case remoteFile of
              None \<Rightarrow> bindE (getBucketRootFromSlug T c slug) (\<lambda>(_, root).
                        retE (root, getOrCreateBucketContext T c, LocalBuckets))
            | Some f \<Rightarrow> bindE (getBucketRootFromReceivedFile T c f) (\<lambda>(root, getCtxFn).
                        retE (root, getCtxFn, HubBuckets)))
     (\<lambda>(root, getContextFn, base).
       let b = bucket_New root getContextFn (getSecureBucketsClient T base) in
       bindE (fieldE T cfSync) (\<lambda>notifier.
         retE (if remoteFile = None \<and> notifier then AttachBucketNotifier (tsItemAdded (tcSync T)) b else b)))"

definition GetBucket :: "'s tcDeps \<Rightarrow> ctx \<Rightarrow> bytes \<Rightarrow> remoteFileInput option \<Rightarrow> ('s, 's bucket) eff" where
  "GetBucket T c slug remoteFile = thenE (requiresRunning T) (getBucket T c slug remoteFile)"

definition getBucketForMirror :: "'s tcDeps \<Rightarrow> ctx \<Rightarrow> bytes \<Rightarrow> ('s, 's bucket) eff" where
  "getBucketForMirror T c slug =
     bindE (getBucketRootForMirror T c slug) (\<lambda>(root, getContextFn, _).
       retE (bucket_New root getContextFn (getSecureBucketsClient T HubBuckets)))"

definition GetDefaultBucket :: "'s tcDeps \<Rightarrow> ctx \<Rightarrow> ('s, 's bucket) eff" where
  "GetDefaultBucket T c = GetBucket T c defaultPersonalBucketSlug None"

definition listBuckets :: "'s tcDeps \<Rightarrow> ctx \<Rightarrow> ('s, 's bucket list) eff" where
  "listBuckets T c =
     bindE (GetModel T) (\<lambda>M.
     bindE (ListBuckets M c) (\<lambda>bucketList.
       mapE (\<lambda>b. getBucket T c (bsSlug b) None)
         (filter (\<lambda>b. bsSlug b \<noteq> defaultPersonalMirrorBucketSlug) bucketList)))"

definition tc_ListBuckets :: "'s tcDeps \<Rightarrow> ctx \<Rightarrow> ('s, 's bucket list) eff" where
  "tc_ListBuckets T c = thenE (requiresRunning T) (listBuckets T c)"

subsection \<open>Creating a bucket\<close>

definition createBucket :: "'s tcDeps \<Rightarrow> ctx \<Rightarrow> bytes \<Rightarrow> ('s, 's bucket) eff" where
  "createBucket T c bucketSlug =
     bindE (GetModel T) (\<lambda>M.
     bindE (tryE (getBucket T c bucketSlug None)) (\<lambda>r.
       case r of
         Inr b \<Rightarrow> retE b
       | Inl _ \<Rightarrow>
           bindE (getOrCreateBucketContext T c bucketSlug) (\<lambda>(bucketCtx, dbID).
           bindE (baCreate (tcApi T LocalBuckets) bucketCtx bucketSlug False) (\<lambda>root.
           bindE (CreateBucket M bucketCtx bucketSlug (CastDbIDToString dbID)) (\<lambda>schema.
           thenE (syncE T (tsBucketCreated (tcSync T) (bsSlug schema) (bsEncryptionKey schema)))
           (thenE (syncE T (tsBucketRestore (tcSync T) bucketSlug))
             (retE (bucket_New root (getOrCreateBucketContext T c) (getSecureBucketsClient T LocalBuckets)))))))))"

definition tc_CreateBucket :: "'s tcDeps \<Rightarrow> ctx \<Rightarrow> bytes \<Rightarrow> ('s, 's bucket) eff" where
  "tc_CreateBucket T c bucketSlug = thenE (requiresRunning T) (createBucket T c bucketSlug)"

subsection \<open>Sharing and joining a bucket's thread\<close>

text \<open>
  The error of parsing the stored ID is overwritten and its nil result dereferenced; the error of
  \<open>GetDBInfo\<close> is returned last, after the replicator was added.
\<close>

definition ShareBucket :: "'s tcDeps \<Rightarrow> ctx \<Rightarrow> bytes \<Rightarrow> ('s, bytes) eff" where
  "ShareBucket T c bucketSlug =
     bindE (GetModel T) (\<lambda>M.
     bindE (FindBucket M c bucketSlug) (\<lambda>bs.
       case ParseDbIDFromString (tdCast (tcThreads T)) (bsDbID bs) of
         Inl _ \<Rightarrow> failE (Panic ''nil pointer dereference'')
       | Inr dbID \<Rightarrow>
           bindE (tryE (tcGetDBInfo T c dbID)) (\<lambda>b.
             if tcHubMa T = [] then failE (Err ''no textile hub set'')
             else
               bindE (liftE (tdAddrFromStr (tcThreads T) (tcHubMa T))) (\<lambda>hubma.
               bindE (tryE (tdAddReplicator (tcThreads T) c dbID hubma)) (\<lambda>_.
                 case b of Inl e \<Rightarrow> failE (Err e) | Inr info \<Rightarrow> retE info)))))"

definition bucketsCollection :: collConfig where
  "bucketsCollection = \<lparr> ccName = ''buckets'', ccIndexes = [(''path'', False)] \<rparr>"

definition joinBucketViaAddress ::
  "'s tcDeps \<Rightarrow> ctx \<Rightarrow> bytes \<Rightarrow> bytes \<Rightarrow> bytes \<Rightarrow> dbOpts \<Rightarrow> ('s, unit) eff" where
  "joinBucketViaAddress T c address key bucketSlug opts =
     bindE (liftE (tcNewMultiaddr T address)) (\<lambda>multiaddress.
     thenE (tdNewDBFromAddr (tcThreads T) c multiaddress key (opts\<lparr>doCollections := [bucketsCollection]\<rparr>))
     (bindE (liftE (tcFromAddr T multiaddress)) (\<lambda>dbID.
      bindE (GetModel T) (\<lambda>M.
      bindE (UpsertBucket M c bucketSlug (CastDbIDToString dbID)) (\<lambda>newBucket.
      bindE (getBucketContext T c (CastDbIDToString dbID) bucketSlug False (bsEncryptionKey newBucket))
        (\<lambda>(newBucketCtx, _).
      bindE (tryE (baCreate (tcApi T LocalBuckets) newBucketCtx bucketSlug False)) (\<lambda>_. retE ())))))))"

fun joinAny :: "'s tcDeps \<Rightarrow> ctx \<Rightarrow> bytes \<Rightarrow> bytes \<Rightarrow> bytes list \<Rightarrow> ('s, bool) eff" where
  "joinAny T c k slug [] = retE False"
| "joinAny T c k slug (a # as) =
     bindE (tryE (joinBucketViaAddress T c a k slug noDbOpts)) (\<lambda>r.
       if isl r then joinAny T c k slug as else retE True)"

record threadInfo =
  tiAddresses :: "bytes list"
  tiKey :: bytes

text \<open>A key that does not parse is the zero key, here empty: its error is overwritten.\<close>

definition JoinBucket :: "'s tcDeps \<Rightarrow> ctx \<Rightarrow> bytes \<Rightarrow> threadInfo \<Rightarrow> ('s, bool) eff" where
  "JoinBucket T c slug ti =
     (let k = (case tcKeyFromString T (tiKey ti) of Inl _ \<Rightarrow> [] | Inr k \<Rightarrow> k) in
      bindE (liftE (idx (tiAddresses ti) 0)) (\<lambda>a0.
        case tcNewMultiaddr T a0 of
          Inl _ \<Rightarrow> failE (Err ''Unable to parse multiaddr'')
        | Inr ma1 \<Rightarrow>
            (case tcFromAddr T ma1 of
               Inl _ \<Rightarrow> failE (Err ''Unable to parse db id'')
             | Inr dbID \<Rightarrow>
                 bindE (joinAny T c k slug (tiAddresses ti)) (\<lambda>joined.
                   if joined then retE True
                   else
                     thenE (joinBucketViaAddress T c (tcHubMa T @ ''/thread/'' @ tdIDString (tcThreads T) dbID)
                              k slug noDbOpts)
                       (retE True)))))"

subsection \<open>Backup\<close>

definition ToggleBucketBackup :: "'s tcDeps \<Rightarrow> ctx \<Rightarrow> bytes \<Rightarrow> bool \<Rightarrow> ('s, bool) eff" where
  "ToggleBucketBackup T c bucketSlug bucketBackup =
     bindE (GetModel T) (\<lambda>M.
     bindE (BucketBackupToggle M c bucketSlug bucketBackup) (\<lambda>b.
     thenE (syncE T (if bsBackup b then tsBucketBackupOn (tcSync T) bucketSlug
                     else tsBucketBackupOff (tcSync T) bucketSlug))
       (retE (bsBackup b))))"

definition BucketBackupRestore :: "'s tcDeps \<Rightarrow> bytes \<Rightarrow> ('s, unit) eff" where
  "BucketBackupRestore T bucketSlug = syncE T (tsBucketRestore (tcSync T) bucketSlug)"

definition IsBucketBackup :: "'s tcDeps \<Rightarrow> ctx \<Rightarrow> bytes \<Rightarrow> ('s, bool) eff" where
  "IsBucketBackup T c bucketSlug =
     bindE (GetModel T) (\<lambda>M.
     bindE (tryE (FindBucket M c bucketSlug)) (\<lambda>r.
       case r of Inl _ \<Rightarrow> retE False | Inr b \<Rightarrow> retE (bsBackup b)))"

text \<open>The buckets replicated on the hub are joined when one of their threads is missing here.\<close>

definition rejoinBucket :: "'s tcDeps \<Rightarrow> ctx \<Rightarrow> ctx \<Rightarrow> bytes \<Rightarrow> bucketSchema \<Rightarrow> ('s, unit) eff" where
  "rejoinBucket T c hubCtx pk b =
     bindE (liftE (ParseDbIDFromString (tdCast (tcThreads T)) (bsDbID b))) (\<lambda>dbID.
     bindE (tryE (tdHubGetThread (tcThreads T) hubCtx dbID)) (\<lambda>repl.
       if isl repl then retE ()
       else
         bindE (kiThreadKey (tcKc T) (getBucketThreadManagedKey (bsSlug b))) (\<lambda>managedKey.
         bindE (tryE (joinBucketViaAddress T c
                  (tcHubMa T @ ''/thread/'' @ tdIDString (tcThreads T) dbID) managedKey (bsSlug b)
                  (noDbOpts\<lparr>doBackfillBlock := True, doLogKey := Some pk, doThreadKey := Some managedKey\<rparr>)))
         (\<lambda>r. bindE (fieldE T cfShouldForceRestore) (\<lambda>force.
            if isl r \<and> force then failE (Err (projl r)) else retE ())))))"

definition restoreBuckets :: "'s tcDeps \<Rightarrow> ctx \<Rightarrow> ('s, unit) eff" where
  "restoreBuckets T c =
     bindE (GetModel T) (\<lambda>M.
     bindE (ListBuckets M c) (\<lambda>bucketList.
     bindE (fieldE T cfShouldForceRestore) (\<lambda>force.
       if bucketList = [] \<and> force then failE (Err ''No buckets ready for restore'')
       else
         bindE (tcListDBs T c) (\<lambda>dbs.
         bindE (liftE (mapSum (\<lambda>b. ParseDbIDFromString (tdCast (tcThreads T)) (bsDbID b)) bucketList)) (\<lambda>ids.
           if list_all (\<lambda>i. i \<in> set dbs) ids then retE ()
           else
             bindE (getHubCtx T c) (\<lambda>hubCtx.
             bindE (kiKeyPair (tcKc T)) (\<lambda>(pk, _).
               forE bucketList (rejoinBucket T c hubCtx pk))))))))"

end
