(* ===== verification/TextileClient.thy ===== *)
theory TextileClient
  imports BucketFactory
begin

text \<open>
  The life of the textile client: \<open>core/textile/client.go\<close>, \<open>public.go\<close>, \<open>mirror.go\<close>, \<open>search.go\<close>,
  \<open>listener.go\<close> and \<open>account.go\<close>.

  A health check initialises what is not initialised yet, checks the connection to the hub and counts
  its failures.  A send on a channel that does not block (\<open>select\<close> with a default) is delivered when
  somebody waits (\<open>tcHealthyWaiter\<close>); the loop of \<open>start\<close> and the blocking sends are in
  \<open>ClientLoop\<close>.
\<close>

subsection \<open>public.go\<close>

definition publicShareThreadStoreKey :: bytes where
  "publicShareThreadStoreKey = ''publicSharedThreadKey''"

definition getPublicShareThread :: "'s tcDeps \<Rightarrow> ctx \<Rightarrow> ('s, bytes) eff" where
  "getPublicShareThread T c =
     bindE (tryE (sGet (tdStore (tcThreads T)) publicShareThreadStoreKey)) (\<lambda>stored.
       case stored of
         Inr storedDbId \<Rightarrow> liftE (tdCast (tcThreads T) storedDbId)
       | Inl _ \<Rightarrow>
           bindE (getHubCtx T c) (\<lambda>c.
           bindE (tcNewID T) (\<lambda>dbId.
           thenE (tcHubNewDB T c dbId)
           (bindE (tryE (sSet (tdStore (tcThreads T)) publicShareThreadStoreKey dbId)) (\<lambda>r.
              case r of
                Inl e \<Rightarrow> failE (Err (''failed to persist public share thread: '' @ e))
              | Inr _ \<Rightarrow> retE dbId)))))"

definition getPublicShareBucketContext :: "'s tcDeps \<Rightarrow> ctx \<Rightarrow> bytes \<Rightarrow> ('s, ctx \<times> bytes) eff" where
  "getPublicShareBucketContext T c bucketSlug =
     bindE (getPublicShareThread T c) (\<lambda>dbId.
     bindE (GetThreadContext (tcThreads T) None c bucketSlug dbId True) (\<lambda>c. retE (c, dbId)))"

definition createPublicBucket :: "'s tcDeps \<Rightarrow> ctx \<Rightarrow> bytes \<Rightarrow> bytes \<Rightarrow> ('s, bucketRoot) eff" where
  "createPublicBucket T c dbId bucketSlug =
     bindE (getBucketContext T c (CastDbIDToString dbId) bucketSlug True []) (\<lambda>(hubCtx, _).
       baCreate (tcApi T HubBuckets) hubCtx bucketSlug True)"

definition publicBucket :: "'s tcDeps \<Rightarrow> ctx \<Rightarrow> bucketRoot \<Rightarrow> 's bucket" where
  "publicBucket T c root =
     bucket_New root (getPublicShareBucketContext T c) (baClient (tcApi T HubBuckets))"

definition createDefaultPublicBucket :: "'s tcDeps \<Rightarrow> ctx \<Rightarrow> ('s, 's bucket) eff" where
  "createDefaultPublicBucket T c0 =
     bindE (getPublicShareBucketContext T c0 defaultPublicShareBucketSlug) (\<lambda>(c, dbId).
     bindE (createPublicBucket T c dbId defaultPublicShareBucketSlug) (\<lambda>root.
       retE (publicBucket T c0 root)))"

definition getOrCreatePublicBucket :: "'s tcDeps \<Rightarrow> ctx \<Rightarrow> bytes \<Rightarrow> ('s, 's bucket) eff" where
  "getOrCreatePublicBucket T c0 bucketSlug =
     bindE (getPublicShareBucketContext T c0 bucketSlug) (\<lambda>(c, dbId).
     bindE (tryE (baList (tcApi T HubBuckets) c)) (\<lambda>r.
       case r of
         Inl e \<Rightarrow> failE (Err (''failed to get public bucket: '' @ e))
       | Inr roots \<Rightarrow>
           (case find (\<lambda>root. rtName root = bucketSlug) roots of
              Some root \<Rightarrow> retE (publicBucket T c0 root)
            | None \<Rightarrow> bindE (createPublicBucket T c dbId bucketSlug) (\<lambda>root. retE (publicBucket T c0 root)))))"

definition GetPublicShareBucket :: "'s tcDeps \<Rightarrow> ctx \<Rightarrow> ('s, 's bucket) eff" where
  "GetPublicShareBucket T c =
     thenE (requiresRunning T) (getOrCreatePublicBucket T c defaultPublicShareBucketSlug)"

subsection \<open>mirror.go and search.go\<close>

definition IsMirrorFile :: "'s tcDeps \<Rightarrow> ctx \<Rightarrow> bytes \<Rightarrow> bytes \<Rightarrow> ('s, bool) eff" where
  "IsMirrorFile T c path bucketSlug =
     bindE (GetModel T) (\<lambda>M.
     bindE (tryE (FindMirrorFileByPathAndBucketSlug M c path bucketSlug)) (\<lambda>r.
       case r of Inr (Some _) \<Rightarrow> retE True | _ \<Rightarrow> retE False))"

definition isMirrorBackupFile :: "'s tcDeps \<Rightarrow> ctx \<Rightarrow> bytes \<Rightarrow> bytes \<Rightarrow> ('s, bool) eff" where
  "isMirrorBackupFile T c path bucketSlug =
     bindE (GetModel T) (\<lambda>M.
     bindE (tryE (FindMirrorFileByPathAndBucketSlug M c path bucketSlug)) (\<lambda>r.
       case r of Inr (Some mf) \<Rightarrow> retE (msBackup mf) | _ \<Rightarrow> retE False))"

definition initSearchIndex :: "'s tcDeps \<Rightarrow> ('s, unit) eff" where
  "initSearchIndex T = bindE (GetModel T) InitSearchIndexCollection"

subsection \<open>listener.go\<close>

text \<open>The goroutine of a listener is started by \<open>tcSpawnListener\<close>.\<close>

definition addListener :: "'s tcDeps \<Rightarrow> ctx \<Rightarrow> bytes \<Rightarrow> ('s, unit) eff" where
  "addListener T c bucketSlug =
     thenE (requiresHubConnection T)
     (thenE (setE T (\<lambda>f. f\<lparr>cfDbListeners := List.insert bucketSlug (cfDbListeners f)\<rparr>))
       (tcSpawnListener T c bucketSlug))"

definition DeleteListeners :: "'s tcDeps \<Rightarrow> ('s, unit) eff" where
  "DeleteListeners T = setE T (\<lambda>f. f\<lparr>cfDbListeners := []\<rparr>)"

definition closeListeners :: "'s tcDeps \<Rightarrow> ('s, unit) eff" where
  "closeListeners T =
     bindE (fieldE T cfDbListeners) (\<lambda>ks.
       forE ks (\<lambda>k. thenE (tcCloseListener T k)
         (setE T (\<lambda>f. f\<lparr>cfDbListeners := removeAll k (cfDbListeners f)\<rparr>))))"

definition initializeListeners :: "'s tcDeps \<Rightarrow> ctx \<Rightarrow> ('s, unit) eff" where
  "initializeListeners T c =
     thenE (requiresHubConnection T)
     (thenE (closeListeners T)
     (bindE (listBuckets T c) (\<lambda>bs.
        forE bs (\<lambda>b. bindE (tryE (addListener T c (bucket_Slug b))) (\<lambda>_. retE ())))))"

subsection \<open>client.go\<close>

definition IsRunning :: "'s tcDeps \<Rightarrow> 's \<Rightarrow> bool" where
  "IsRunning T s = cfRunning (tcGet T s)"

definition IsInitialized :: "'s tcDeps \<Rightarrow> 's \<Rightarrow> bool" where
  "IsInitialized T s = cfInitialized (tcGet T s)"

definition IsHealthy :: "'s tcDeps \<Rightarrow> 's \<Rightarrow> bool" where
  "IsHealthy T s = (cfInitialized (tcGet T s) \<and> cfConnectedToHub (tcGet T s))"

definition GetFailedHealthchecks :: "'s tcDeps \<Rightarrow> 's \<Rightarrow> nat" where
  "GetFailedHealthchecks T s = cfFailedHealthchecks (tcGet T s)"

definition newClientFields :: "bool \<Rightarrow> clientFields" where
  "newClientFields mb =
     \<lparr> cfRunning = False, cfInitialized = False, cfSyncInitialized = False, cfConnectedToHub = False,
       cfMailbox = mb, cfSync = False, cfFailedHealthchecks = 0, cfShouldForceRestore = False,
       cfDbListeners = [] \<rparr>"

text \<open>A queue that cannot be restored starts fresh.\<close>

definition initializeSync :: "'s tcDeps \<Rightarrow> ('s, unit) eff" where
  "initializeSync T =
     thenE (setE T (\<lambda>f. f\<lparr>cfSync := True\<rparr>))
     (bindE (tryE (tsRestoreQueue (tcSync T))) (\<lambda>_.
      thenE (setE T (\<lambda>f. f\<lparr>cfSyncInitialized := True\<rparr>)) (tsStart (tcSync T))))"

definition checkHubConnection :: "'s tcDeps \<Rightarrow> ctx \<Rightarrow> ('s, unit) eff" where
  "checkHubConnection T c =
     (let disconnected = (\<lambda>e. thenE (setE T (\<lambda>f. f\<lparr>cfConnectedToHub := False\<rparr>)) (failE (Err e))) in
      bindE (tryE (kiPublicKey (tcKc T))) (\<lambda>k.
        case k of Inl e \<Rightarrow> disconnected e | Inr _ \<Rightarrow>
      bindE (tryE (getHubCtx T c)) (\<lambda>h.
        case h of Inl e \<Rightarrow> disconnected e | Inr hubctx \<Rightarrow>
      bindE (fieldE T cfConnectedToHub) (\<lambda>connected.
        if connected then setE T (\<lambda>f. f\<lparr>cfConnectedToHub := True\<rparr>)
        else
          bindE (tryE (tcSetupMailbox T hubctx)) (\<lambda>m.
            case m of Inl e \<Rightarrow> disconnected e | Inr _ \<Rightarrow>
          thenE (setE T (\<lambda>f. f\<lparr>cfMailbox := True\<rparr>))
          (bindE (tryE (tcListenForMessages T hubctx)) (\<lambda>l.
             case l of Inl e \<Rightarrow> disconnected e
             | Inr _ \<Rightarrow> setE T (\<lambda>f. f\<lparr>cfConnectedToHub := True\<rparr>))))))))"

text \<open>The default bucket is created when the list does not have it; the public bucket may fail.\<close>

definition tc_initialize :: "'s tcDeps \<Rightarrow> ctx \<Rightarrow> ('s, unit) eff" where
  "tc_initialize T c =
     thenE (restoreBuckets T c)
     (bindE (listBuckets T c) (\<lambda>buckets.
      bindE (tryE (kiPublicKey (tcKc T))) (\<lambda>_.
      thenE (if \<exists>b \<in> set buckets. bucket_Slug b = defaultPersonalBucketSlug then retE ()
             else bindE (createBucket T c defaultPersonalBucketSlug) (\<lambda>_. retE ()))
      (thenE (initSearchIndex T)
      (bindE (fieldE T cfSync) (\<lambda>set.
       thenE (whenE set (tsBucketStartup (tcSync T) defaultPersonalBucketSlug))
       (bindE (tryE (createDefaultPublicBucket T c)) (\<lambda>_.
          setE T (\<lambda>f. f\<lparr>cfInitialized := True\<rparr>)))))))))"

text \<open>How a health check ends: the failures are counted, and reported to a waiter from the third on.\<close>

definition countHealth :: "bool \<Rightarrow> clientFields \<Rightarrow> clientFields" where
  "countHealth waiter f =
     (let n = (if \<not> cfInitialized f \<or> \<not> cfConnectedToHub f then cfFailedHealthchecks f + 1 else 0) in
      f\<lparr>cfFailedHealthchecks := (if n \<ge> 3 \<and> waiter then 0 else n)\<rparr>)"

definition healthcheck :: "'s tcDeps \<Rightarrow> ctx \<Rightarrow> ('s, unit) eff" where
  "healthcheck T c =
     bindE (fieldE T cfSyncInitialized) (\<lambda>syncUp.
     thenE (whenE (\<not> syncUp) (initializeSync T))
     (bindE (fieldE T cfInitialized) (\<lambda>up.
      thenE (whenE (\<not> up) (bindE (tryE (tc_initialize T c)) (\<lambda>_. retE ())))
      (bindE (tryE (checkHubConnection T c)) (\<lambda>_.
       bindE (fieldE T cfDbListeners) (\<lambda>ls.
       thenE (whenE (ls = []) (bindE (tryE (initializeListeners T c)) (\<lambda>_. retE ())))
       (bindE (getE (tcHealthyWaiter T)) (\<lambda>waiter. setE T (countHealth waiter)))))))))"

definition DisableSync :: "'s tcDeps \<Rightarrow> ('s, unit) eff" where
  "DisableSync T = setE T (\<lambda>f. f\<lparr>cfSyncInitialized := False\<rparr>)"

text \<open>The error of deleting the key pair is dropped.\<close>

definition RestoreDB :: "'s tcDeps \<Rightarrow> ctx \<Rightarrow> ('s, unit) eff" where
  "RestoreDB T c =
     thenE (setE T (\<lambda>f. f\<lparr>cfShouldForceRestore := True\<rparr>))
     (bindE (tryE (tc_initialize T c)) (\<lambda>r.
      thenE (setE T (\<lambda>f. f\<lparr>cfShouldForceRestore := False\<rparr>))
        (case r of
           Inr _ \<Rightarrow> retE ()
         | Inl e \<Rightarrow> bindE (tryE (kiDelete (tcKc T))) (\<lambda>_. failE (Err e)))))"

text \<open>\<open>tcKeypairDeleted\<close> is the send that wakes the health check loop.\<close>

definition RemoveKeys :: "'s tcDeps \<Rightarrow> ('s, unit) eff" where
  "RemoveKeys T =
     thenE (tcClearHubCache T)
     (thenE (tcClearLocalMailbox T)
     (thenE (setE T (\<lambda>f. f\<lparr>cfInitialized := False, cfConnectedToHub := False\<rparr>))
     (thenE (tcKeypairDeleted T)
     (bindE (NewDeterministicThreadID (tcThreads T) MetathreadThreadVariant) (\<lambda>metathreadID.
        tcDeleteDB T metathreadID)))))"

subsection \<open>account.go\<close>

text \<open>
  The context is reassigned in the loop: a bucket's context is the base of the next one's.  An error
  of \<open>getBucketContext\<close> is overwritten, and the context it left nil is used.
\<close>

fun deleteBuckets :: "'s tcDeps \<Rightarrow> ctx \<Rightarrow> 's bucket list \<Rightarrow> ('s, unit) eff" where
  "deleteBuckets T c [] = retE ()"
| "deleteBuckets T c (b # bs) =
     bindE (GetModel T) (\<lambda>M.
     bindE (FindBucket M c (bucket_Slug b)) (\<lambda>schema.
     bindE (GetThreadID b) (\<lambda>dbid.
     bindE (tryE (getBucketContext T c (CastDbIDToString dbid) (bucket_Slug b) False (bsEncryptionKey schema)))
       (\<lambda>r. case r of
          Inl _ \<Rightarrow> failE (Panic ''nil context'')
        | Inr (c1, _) \<Rightarrow>
            thenE (baRemove (tcApi T LocalBuckets) c1 (bucket_Key b))
            (bindE (mirrorOf schema) (\<lambda>m.
             bindE (tryE (getBucketContext T c1 (mbRemoteDbID m) (bucket_Slug b) True (bsEncryptionKey schema)))
               (\<lambda>q. case q of
                  Inl _ \<Rightarrow> failE (Panic ''nil context'')
                | Inr (c2, _) \<Rightarrow>
                    thenE (baRemove (tcApi T HubBuckets) c2 (mbRemoteBucketKey m)) (deleteBuckets T c2 bs))))))))"

definition DeleteAccount :: "'s tcDeps \<Rightarrow> ctx \<Rightarrow> ('s, unit) eff" where
  "DeleteAccount T c =
     thenE (requiresRunning T)
     (bindE (tc_ListBuckets T c) (\<lambda>bs.
      thenE (deleteBuckets T c bs)
      (thenE (DisableSync T)
      (thenE (syncE T (tsShutdown (tcSync T))) (DeleteListeners T)))))"

end
