(* ===== verification/Messages.thy ===== *)
theory Messages
  imports Domain Json Base64
begin

text \<open>
  The messages users send each other: the JSON of \<open>MessageBody\<close>, \<open>Invitation\<close>, \<open>RevokedInvitation\<close>
  and \<open>UsageAlert\<close> (\<open>core/space/domain/domain.go\<close>), which \<open>services_sharing.go\<close> writes and
  \<open>mailbox.go\<close> reads.

  A byte slice is base64 in JSON; an empty one is printed as the empty string.
\<close>

subsection \<open>Printing\<close>

definition fullPathJson :: "fullPath \<Rightarrow> jvalue" where
  "fullPathJson p = JObj [(''dbId'', JStr (fpDbId p)), (''bucketKey'', JStr (fpBucketKey p)),
     (''bucket'', JStr (fpBucket p)), (''path'', JStr (fpPath p))]"

definition bytesJson :: "bytes \<Rightarrow> jvalue" where
  "bytesJson b = JStr (b64Encode stdAlphabet b)"

definition invitationJson :: "invitation \<Rightarrow> jvalue" where
  "invitationJson i = JObj [(''inviterPublicKey'', JStr (ivInviterPublicKey i)),
     (''inviteePublicKey'', JStr (ivInviteePublicKey i)), (''invitationID'', JStr (ivInvitationID i)),
     (''status'', JNum (formatInt (ivStatus i))), (''itemPaths'', JArr (map fullPathJson (ivItemPaths i))),
     (''keys'', JArr (map bytesJson (ivKeys i)))]"

definition revokedJson :: "revokedInvitation \<Rightarrow> jvalue" where
  "revokedJson i = JObj [(''inviterPublicKey'', JStr (rvInviterPublicKey i)),
     (''inviteePublicKey'', JStr (rvInviteePublicKey i)),
     (''itemPaths'', JArr (map fullPathJson (rvItemPaths i))), (''keys'', JArr (map bytesJson (rvKeys i)))]"

definition marshalBody :: "notificationTypes \<Rightarrow> bytes \<Rightarrow> bytes" where
  "marshalBody t body = jprint (JObj [(''type'', JNum (formatInt t)), (''body'', bytesJson body)])"

definition marshalInvitation :: "invitation \<Rightarrow> bytes" where
  "marshalInvitation i = jprint (invitationJson i)"

definition marshalRevoked :: "revokedInvitation \<Rightarrow> bytes" where
  "marshalRevoked i = jprint (revokedJson i)"

subsection \<open>Parsing\<close>

definition jObjOf :: "bytes \<Rightarrow> err + (bytes \<times> jvalue) list" where
  "jObjOf data = (case jparse data of None \<Rightarrow> Inl (Err ''json: invalid syntax'') | Some v \<Rightarrow> jGetObj v)"

definition unmarshalFullPath :: "jvalue \<Rightarrow> err + fullPath" where
  "unmarshalFullPath v =
     bindS (jGetObj v) (\<lambda>kvs.
     bindS (jGetStr (jField ''dbId'' kvs)) (\<lambda>d.
     bindS (jGetStr (jField ''bucketKey'' kvs)) (\<lambda>k.
     bindS (jGetStr (jField ''bucket'' kvs)) (\<lambda>b.
     bindS (jGetStr (jField ''path'' kvs)) (\<lambda>p.
       Inr \<lparr> fpDbId = d, fpBucketKey = k, fpBucket = b, fpPath = p \<rparr>)))))"

definition unmarshalInvitation :: "bytes \<Rightarrow> err + invitation" where
  "unmarshalInvitation data =
     bindS (jObjOf data) (\<lambda>kvs.
     bindS (jGetStr (jField ''inviterPublicKey'' kvs)) (\<lambda>a.
     bindS (jGetStr (jField ''inviteePublicKey'' kvs)) (\<lambda>b.
     bindS (jGetStr (jField ''invitationID'' kvs)) (\<lambda>i.
     bindS (jGetInt (jField ''status'' kvs)) (\<lambda>st.
     bindS (jGetArr unmarshalFullPath (jField ''itemPaths'' kvs)) (\<lambda>ps.
     bindS (jGetArr jGetBytes (jField ''keys'' kvs)) (\<lambda>ks.
       Inr \<lparr> ivInviterPublicKey = a, ivInviteePublicKey = b, ivInvitationID = i, ivStatus = st,
             ivItemPaths = ps, ivKeys = ks \<rparr>)))))))"

definition unmarshalRevoked :: "bytes \<Rightarrow> err + revokedInvitation" where
  "unmarshalRevoked data =
     bindS (jObjOf data) (\<lambda>kvs.
     bindS (jGetStr (jField ''inviterPublicKey'' kvs)) (\<lambda>a.
     bindS (jGetStr (jField ''inviteePublicKey'' kvs)) (\<lambda>b.
     bindS (jGetArr unmarshalFullPath (jField ''itemPaths'' kvs)) (\<lambda>ps.
     bindS (jGetArr jGetBytes (jField ''keys'' kvs)) (\<lambda>ks.
       Inr \<lparr> rvInviterPublicKey = a, rvInviteePublicKey = b, rvItemPaths = ps, rvKeys = ks \<rparr>)))))"

definition unmarshalUsageAlert :: "bytes \<Rightarrow> err + usageAlert" where
  "unmarshalUsageAlert data =
     bindS (jObjOf data) (\<lambda>kvs.
     bindS (jGetInt (jField ''used'' kvs)) (\<lambda>u.
     bindS (jGetInt (jField ''limit'' kvs)) (\<lambda>l.
     bindS (jGetStr (jField ''message'' kvs)) (\<lambda>m.
       Inr \<lparr> uaUsed = u, uaLimit = l, uaMessage = m \<rparr>))))"

definition unmarshalBody :: "bytes \<Rightarrow> err + messageBody" where
  "unmarshalBody data =
     bindS (jObjOf data) (\<lambda>kvs.
     bindS (jGetInt (jField ''type'' kvs)) (\<lambda>t.
     bindS (jGetBytes (jField ''body'' kvs)) (\<lambda>b. Inr \<lparr> mbType = t, mbBody = b \<rparr>)))"

subsection \<open>The round trip\<close>

text \<open>Names with different letters are different fields; the names of one message compared pairwise.\<close>

fun distinctFold :: "bytes list \<Rightarrow> bool" where
  "distinctFold [] = True"
| "distinctFold (n # ns) = (list_all (\<lambda>m. \<not> equalFold n m \<and> \<not> equalFold m n) ns \<and> distinctFold ns)"

lemma equalFold_refl [simp]: "equalFold n n"
  by (simp add: equalFold_def)

lemma jField_Cons:
  "\<not> equalFold k n \<Longrightarrow> jField n ((k, v) # kvs) = jField n kvs"
  by (simp add: jField_def)

lemma jField_here:
  assumes "list_all (\<lambda>kv. \<not> equalFold (fst kv) n) kvs" "v \<noteq> JNull"
  shows "jField n ((n, v) # kvs) = v"
proof -
  have "filter (\<lambda>(k, v). equalFold k n \<and> v \<noteq> JNull) (rev kvs) = []"
    using assms(1) by (auto simp: filter_empty_conv list_all_iff)
  then show ?thesis using assms(2) by (simp add: jField_def)
qed

lemma field_names:
  "distinctFold [''dbId'', ''bucketKey'', ''bucket'', ''path'']"
  "distinctFold [''inviterPublicKey'', ''inviteePublicKey'', ''invitationID'', ''status'', ''itemPaths'', ''keys'']"
  "distinctFold [''type'', ''body'']"
  by code_simp+

lemmas field_simps = field_names [simplified] jField_Cons jField_here jGetObj_def jGetStr_def

lemma jGetInt_formatInt: "- (2 ^ 63) \<le> i \<Longrightarrow> i < 2 ^ 63 \<Longrightarrow> jGetInt (JNum (formatInt i)) = Inr i"
  by (simp add: jGetInt_def parseInt64_formatInt)

lemma jGetBytes_bytesJson [simp]: "jGetBytes (bytesJson b) = Inr b"
  by (simp add: jGetBytes_def bytesJson_def b64Decode_b64Encode)

lemma bytesJson_neq [simp]: "bytesJson b \<noteq> JNull"
  by (simp add: bytesJson_def)

lemma unmarshal_fullPathJson: "unmarshalFullPath (fullPathJson p) = Inr p"
  by (simp add: unmarshalFullPath_def fullPathJson_def field_simps)

definition pathAscii :: "fullPath \<Rightarrow> bool" where
  "pathAscii p \<longleftrightarrow> ascii (fpDbId p) \<and> ascii (fpBucketKey p) \<and> ascii (fpBucket p) \<and> ascii (fpPath p)"

lemma ascii_b64 [simp]: "ascii (b64Encode stdAlphabet bs)"
proof -
  have "\<forall>c \<in> set stdAlphabet \<union> {CHR ''=''}. code_of c < 128" by code_simp
  then show ?thesis using set_b64Encode [OF std_url_alphabet(1), of bs] by (auto simp: ascii_def list_all_iff)
qed

lemma jOk_parts:
  "jOk (bytesJson b)" "jOk (JNum (formatInt i))" "jOk (fullPathJson p) \<longleftrightarrow> pathAscii p"
  by (auto simp: bytesJson_def fullPathJson_def pathAscii_def formatInt_jNum)

lemma jObjOf_jprint: "jOk (JObj kvs) \<Longrightarrow> jObjOf (jprint (JObj kvs)) = Inr kvs"
  unfolding jObjOf_def by (subst jparse_jprint) (simp_all add: jGetObj_def)

definition int64 :: "int \<Rightarrow> bool" where
  "int64 i \<longleftrightarrow> - (2 ^ 63) \<le> i \<and> i < 2 ^ 63"

lemma jGet_lists:
  "jGetArr unmarshalFullPath (JArr (map fullPathJson ps)) = Inr ps"
  "jGetArr jGetBytes (JArr (map bytesJson ks)) = Inr ks"
  using mapSum_map [of ps unmarshalFullPath fullPathJson "\<lambda>x. x"] mapSum_map [of ks jGetBytes bytesJson "\<lambda>x. x"]
  by (simp_all add: jGetArr_def unmarshal_fullPathJson)

lemma unmarshal_marshalBody: "int64 t \<Longrightarrow> unmarshalBody (marshalBody t b) = Inr \<lparr> mbType = t, mbBody = b \<rparr>"
proof -
  assume t: "int64 t"
  have "jObjOf (marshalBody t b) = Inr [(''type'', JNum (formatInt t)), (''body'', bytesJson b)]"
    unfolding marshalBody_def by (rule jObjOf_jprint) (use jOk_parts in simp)
  then show ?thesis using t by (simp add: unmarshalBody_def field_simps jGetInt_formatInt int64_def)
qed

lemma unmarshal_marshalInvitation:
  assumes "int64 (ivStatus i)" "ascii (ivInviterPublicKey i)" "ascii (ivInviteePublicKey i)"
    "ascii (ivInvitationID i)" "list_all pathAscii (ivItemPaths i)"
  shows "unmarshalInvitation (marshalInvitation i) = Inr i"
proof -
  let ?kvs = "[(''inviterPublicKey'', JStr (ivInviterPublicKey i)),
     (''inviteePublicKey'', JStr (ivInviteePublicKey i)), (''invitationID'', JStr (ivInvitationID i)),
     (''status'', JNum (formatInt (ivStatus i))), (''itemPaths'', JArr (map fullPathJson (ivItemPaths i))),
     (''keys'', JArr (map bytesJson (ivKeys i)))]"
  have "jObjOf (marshalInvitation i) = Inr ?kvs"
    unfolding marshalInvitation_def invitationJson_def
    by (rule jObjOf_jprint) (use assms formatInt_jNum [of "ivStatus i"] in \<open>auto simp: jOk_parts list_all_iff\<close>)
  then show ?thesis
    using assms(1) by (simp add: unmarshalInvitation_def field_simps jGetInt_formatInt int64_def jGet_lists)
qed

lemma unmarshal_marshalRevoked:
  assumes "ascii (rvInviterPublicKey i)" "ascii (rvInviteePublicKey i)" "list_all pathAscii (rvItemPaths i)"
  shows "unmarshalRevoked (marshalRevoked i) = Inr i"
proof -
  let ?kvs = "[(''inviterPublicKey'', JStr (rvInviterPublicKey i)),
     (''inviteePublicKey'', JStr (rvInviteePublicKey i)),
     (''itemPaths'', JArr (map fullPathJson (rvItemPaths i))), (''keys'', JArr (map bytesJson (rvKeys i)))]"
  have "jObjOf (marshalRevoked i) = Inr ?kvs"
    unfolding marshalRevoked_def revokedJson_def
    by (rule jObjOf_jprint) (use assms in \<open>auto simp: jOk_parts list_all_iff\<close>)
  then show ?thesis by (simp add: unmarshalRevoked_def field_simps jGet_lists)
qed

end
