(* ===== verification/Sharing.thy ===== *)
theory Sharing
  imports TextileClient Messages
begin

text \<open>
  Sharing files and the mailbox: \<open>core/textile/sharing.go\<close>, \<open>mailbox.go\<close> and
  \<open>core/util/address\<close>.

  The mailbox of the user, the roles of public keys as text and SHA3 are parameters (\<open>shareDeps\<close>);
  a public key is its raw bytes.  A goroutine nothing waits for is handed to \<open>shSpawn\<close>.  The bucket
  role \<open>Admin\<close> or \<open>None\<close> is its name.
\<close>

record mailMessage =
  mmID :: bytes
  mmBody :: bytes
  mmCreatedAt :: int
  mmReadAt :: int

datatype mailEvent = NewMessage bytes | MessageRead bytes | MessageDeleted bytes

text \<open>
  \<open>mlOpen\<close> decrypts a message for the identity of the mailbox, which is set wherever messages are
  read: \<open>GetMailAsNotifications\<close> demands it, and the client sets it before it listens.
\<close>

record 's shareDeps =
  shTc :: "'s tcDeps"
  shSpawn :: "('s, unit) eff \<Rightarrow> ('s, unit) eff"
  shFormatTime :: "int \<Rightarrow> bytes"
  shPubKeyString :: "bytes \<Rightarrow> bytes"
  shPubKeyParse :: "bytes \<Rightarrow> err + bytes"
  shSha3 :: "bytes \<Rightarrow> bytes"
  shStorePath :: bytes
  shUserKey :: bytes
  shUserSecret :: bytes
  mlOpen :: "mailMessage \<Rightarrow> err + bytes"
  mlList :: "ctx \<Rightarrow> bytes \<Rightarrow> int \<Rightarrow> ('s, mailMessage list) eff"
  mlSend :: "ctx \<Rightarrow> bytes \<Rightarrow> bytes \<Rightarrow> ('s, mailMessage) eff"
  mlHasNotifier :: "'s \<Rightarrow> bool"
  mlNotify :: "notification \<Rightarrow> ('s, unit) eff"
  mlStartLoop :: "ctx \<Rightarrow> ('s, unit) eff"
  mlStartWatch :: "ctx \<Rightarrow> ('s, unit) eff"
  mlGetLocalMailbox :: "ctx \<Rightarrow> bytes \<Rightarrow> ('s, unit) eff"
  mlNewMailbox :: "ctx \<Rightarrow> bytes \<Rightarrow> bytes \<Rightarrow> bytes \<Rightarrow> bytes \<Rightarrow> ('s, unit) eff"
  mlRemoveAll :: "bytes \<Rightarrow> ('s, unit) eff"

subsection \<open>Roles\<close>

datatype roleAction = DeleteRoleAction | ReadWriteRoleAction | OtherRoleAction

definition bucketRoleOf :: "roleAction \<Rightarrow> err + bytes" where
  "bucketRoleOf role = (case role of
     ReadWriteRoleAction \<Rightarrow> Inr ''Admin''
   | DeleteRoleAction \<Rightarrow> Inr ''None''
   | OtherRoleAction \<Rightarrow> Inl (Err ''unsupported shared files role''))"

text \<open>A key given twice is one entry of the map of roles.\<close>

definition rolesFor :: "'s shareDeps \<Rightarrow> bytes list \<Rightarrow> bytes \<Rightarrow> (bytes \<times> bytes) list" where
  "rolesFor S pubkeys role = map (\<lambda>k. (k, role)) (remdups (map (shPubKeyString S) pubkeys))"

text \<open>The context is reassigned in the loop: the one of a path is the base of the next one's.\<close>

fun pushRoles :: "'s shareDeps \<Rightarrow> ctx \<Rightarrow> (bytes \<times> bytes) list \<Rightarrow> fullPath list \<Rightarrow> bytes list \<Rightarrow> ('s, unit) eff" where
  "pushRoles S c roles [] keys = retE ()"
| "pushRoles S c roles (p # ps) keys =
     bindE (liftE (idx keys 0)) (\<lambda>k.
     bindE (getBucketContext (shTc S) c (fpDbId p) (fpBucket p) True k) (\<lambda>(c1, _).
     thenE (cPushPathAccessRoles (getSecureBucketsClient (shTc S) HubBuckets) c1 (fpBucketKey p) (fpPath p) roles)
       (pushRoles S c1 roles ps (tl keys))))"

definition ManageShareFilesViaPublicKey ::
  "'s shareDeps \<Rightarrow> ctx \<Rightarrow> fullPath list \<Rightarrow> bytes list \<Rightarrow> bytes list \<Rightarrow> roleAction \<Rightarrow> ('s, unit) eff" where
  "ManageShareFilesViaPublicKey S c paths pubkeys keys role =
     bindE (getHubCtx (shTc S) c) (\<lambda>c.
     bindE (liftE (bucketRoleOf role)) (\<lambda>bucketRole.
       pushRoles S c (rolesFor S pubkeys bucketRole) paths keys))"

subsection \<open>Invitations\<close>

definition errInvitationNotPending :: err where
  "errInvitationNotPending = Err ''invitation is no more pending''"

definition errInvitationAlreadyAccepted :: err where
  "errInvitationAlreadyAccepted = Err ''invitation is already accepted''"

definition errInvitationAlreadyRejected :: err where
  "errInvitationAlreadyRejected = Err ''invitation is already rejected''"

definition wrapErr :: "string \<Rightarrow> string \<Rightarrow> string" where
  "wrapErr e message = message @ '': '' @ e"

definition composeErr :: "string option \<Rightarrow> string \<Rightarrow> string" where
  "composeErr allErr e =
     wrapErr e (case allErr of None \<Rightarrow> wrapErr e ''Failed to accept some invitations'' | Some a \<Rightarrow> a)"

fun receiveFiles ::
  "'s shareDeps \<Rightarrow> ctx \<Rightarrow> invitation \<Rightarrow> bool \<Rightarrow> (fullPath \<times> bytes) list \<Rightarrow> string option \<Rightarrow> ('s, string option) eff" where
  "receiveFiles S c iv accepted [] allErr = retE allErr"
| "receiveFiles S c iv accepted (pk # ps) allErr =
     bindE (GetModel (shTc S)) (\<lambda>M.
     bindE (tryE (CreateReceivedFileViaInvitation M c (fst pk) (ivInvitationID iv) accepted
                    (if accepted then snd pk else []) (ivInviterPublicKey iv))) (\<lambda>r.
       case r of
         Inl e \<Rightarrow> receiveFiles S c iv accepted ps (Some (composeErr allErr e))
       | Inr f \<Rightarrow>
           thenE (whenE accepted (syncE (shTc S) (tsIndexItemAdded (tcSync (shTc S)) (rfBucket f) (rfPath f) (rfDbID f))))
             (receiveFiles S c iv accepted ps allErr)))"

definition createReceivedFiles :: "'s shareDeps \<Rightarrow> ctx \<Rightarrow> invitation \<Rightarrow> bool \<Rightarrow> ('s, unit) eff" where
  "createReceivedFiles S c iv accepted =
     (if length (ivItemPaths iv) \<noteq> length (ivKeys iv)
      then failE (Err ''size of encryption keys does not match all items shared'')
      else bindE (receiveFiles S c iv accepted (zip (ivItemPaths iv) (ivKeys iv)) None) (\<lambda>allErr.
             case allErr of None \<Rightarrow> retE () | Some e \<Rightarrow> failE (Err e)))"

definition AcceptSharedFilesInvitation :: "'s shareDeps \<Rightarrow> ctx \<Rightarrow> invitation \<Rightarrow> ('s, invitation) eff" where
  "AcceptSharedFilesInvitation S c iv =
     (if ivStatus iv = sACCEPTED then failE errInvitationAlreadyAccepted
      else if ivStatus iv \<noteq> sPENDING then failE errInvitationNotPending
      else thenE (createReceivedFiles S c iv True) (retE (iv\<lparr>ivStatus := sACCEPTED\<rparr>)))"

definition RejectSharedFilesInvitation :: "'s shareDeps \<Rightarrow> ctx \<Rightarrow> invitation \<Rightarrow> ('s, invitation) eff" where
  "RejectSharedFilesInvitation S c iv =
     (if ivStatus iv = sREJECTED then failE errInvitationAlreadyRejected
      else if ivStatus iv \<noteq> sPENDING then failE errInvitationNotPending
      else thenE (createReceivedFiles S c iv False) (retE (iv\<lparr>ivStatus := sREJECTED\<rparr>)))"

subsection \<open>Shared files\<close>

definition DeriveAddress :: "'s shareDeps \<Rightarrow> bytes \<Rightarrow> bytes" where
  "DeriveAddress S pubKey = ''0x'' @ drop 28 (hexEncode (shSha3 S pubKey))"

definition extOf :: "bytes \<Rightarrow> bytes" where
  "extOf name = strReplaceAll (pathExt name) ''.'' []"

definition buildPublicLinkSharedDirEntry :: "'s shareDeps \<Rightarrow> receivedFileSchema \<Rightarrow> sharedDirEntry" where
  "buildPublicLinkSharedDirEntry S file =
     \<lparr> dePath = rfFileName file, deIsDir = False, deName = rfFileName file, deSizeInBytes = rfFileSize file,
       deCreated = shFormatTime S (rfCreatedAt file), deUpdated = shFormatTime S (rfCreatedAt file),
       deFileExtension = extOf (rfFileName file), deMembers = [],
       fiIpfsHash = rfPublicIpfsHash file, fiBackedUp = True, fiLocallyAvailable = False,
       fiBackupInProgress = False, fiRestoreInProgress = False,
       sdDbID = [], sdBucket = [], sdIsPublicLink = True, sdMembers = [], sdSharedBy = rfSharedBy file \<rparr>"

definition memberOf :: "'s shareDeps \<Rightarrow> bytes \<Rightarrow> err + member" where
  "memberOf S pubk =
     bindS (shPubKeyParse S pubk) (\<lambda>pk. Inr \<lparr> mAddress = DeriveAddress S pk, mPublicKey = hexEncode pk \<rparr>)"

definition pullRoles :: "'s shareDeps \<Rightarrow> ctx \<Rightarrow> bytes \<Rightarrow> bytes \<Rightarrow> ('s, (bytes \<times> bytes) list) eff" where
  "pullRoles S c key path = secPullPathAccessRoles (secDepsOn (shTc S) HubBuckets) c key path"

definition buildInvitationSharedDirEntry ::
  "'s shareDeps \<Rightarrow> ctx \<Rightarrow> receivedFileSchema \<Rightarrow> bool \<Rightarrow> ('s, sharedDirEntry) eff" where
  "buildInvitationSharedDirEntry S c file isSentFiles =
     bindE (getBucketContext (shTc S) c (rfDbID file) (rfBucket file) True (rfEncryptionKey file)) (\<lambda>(c, _).
     bindE (cListPath (getSecureBucketsClient (shTc S) HubBuckets) c (rfBucketKey file) (rfPath file)) (\<lambda>f.
     bindE (tryE (pullRoles S c (rfBucketKey file) (rfPath file))) (\<lambda>r.
       let rs = (case r of Inl _ \<Rightarrow> [] | Inr rs \<Rightarrow> rs) in
       bindE (liftE (mapSum (memberOf S) (map fst rs))) (\<lambda>members.
         retE \<lparr> dePath = rfPath file, deIsDir = False, deName = piName (dlItem f),
                deSizeInBytes = formatInt (piSize (dlItem f)),
                deCreated = shFormatTime S (rfCreatedAt file),
                deUpdated = shFormatTime S (piUpdatedAt (dlItem f)),
                deFileExtension = extOf (piName (dlItem f)), deMembers = [],
                fiIpfsHash = piCid (dlItem f), fiBackedUp = True, fiLocallyAvailable = isSentFiles,
                fiBackupInProgress = False, fiRestoreInProgress = False,
                sdDbID = (if isSentFiles then [] else rfDbID file),
                sdBucket = (if isSentFiles then defaultPersonalBucketSlug else rfBucket file),
                sdIsPublicLink = False, sdMembers = members, sdSharedBy = rfSharedBy file \<rparr>))))"

definition AcceptSharedFileLink ::
  "'s shareDeps \<Rightarrow> ctx \<Rightarrow> bytes \<Rightarrow> bytes \<Rightarrow> bytes \<Rightarrow> bytes \<Rightarrow> ('s, sharedDirEntry) eff" where
  "AcceptSharedFileLink S c cidHash password filename fileSize =
     bindE (GetModel (shTc S)) (\<lambda>M.
     bindE (CreateReceivedFileViaPublicLink M c cidHash password filename fileSize True) (\<lambda>receivedFile.
       retE (buildPublicLinkSharedDirEntry S receivedFile)))"

definition GetPublicReceivedFile ::
  "'s shareDeps \<Rightarrow> ctx \<Rightarrow> bytes \<Rightarrow> bool \<Rightarrow> ('s, sharedDirEntry \<times> bytes) eff" where
  "GetPublicReceivedFile S c cidHash accepted =
     bindE (GetModel (shTc S)) (\<lambda>M.
     bindE (ListReceivedPublicFiles M c cidHash accepted) (\<lambda>files.
       case files of
         [] \<Rightarrow> failE (Err ''not found'')
       | f # _ \<Rightarrow> retE (buildPublicLinkSharedDirEntry S f, rfFilePassword f)))"

definition GetReceivedFiles ::
  "'s shareDeps \<Rightarrow> ctx \<Rightarrow> bool \<Rightarrow> bytes \<Rightarrow> int \<Rightarrow> ('s, sharedDirEntry list \<times> bytes) eff" where
  "GetReceivedFiles S c accepted seek limit =
     bindE (GetModel (shTc S)) (\<lambda>M.
     bindE (ListReceivedFiles M c accepted seek limit) (\<lambda>files.
       if files = [] then retE ([], [])
       else
         bindE (mapE (\<lambda>file. if IsPublicLinkReceived file then retE (buildPublicLinkSharedDirEntry S file)
                             else buildInvitationSharedDirEntry S c file False) files) (\<lambda>items.
           retE (items, rfID (last files)))))"

definition GetSentFiles ::
  "'s shareDeps \<Rightarrow> ctx \<Rightarrow> bytes \<Rightarrow> int \<Rightarrow> ('s, sharedDirEntry list \<times> bytes) eff" where
  "GetSentFiles S c seek limit =
     bindE (GetModel (shTc S)) (\<lambda>M.
     bindE (ListSentFiles M c seek limit) (\<lambda>files.
       if files = [] then retE ([], [])
       else
         bindE (mapE (\<lambda>file. buildInvitationSharedDirEntry S c (SentFile_ReceivedFileSchema file) True) files)
           (\<lambda>items. retE (items, stID (last files)))))"

text \<open>A bucket without a mirror is a nil dereference.\<close>

definition GetPathAccessRoles :: "'s shareDeps \<Rightarrow> ctx \<Rightarrow> 's bucket \<Rightarrow> bytes \<Rightarrow> ('s, member list) eff" where
  "GetPathAccessRoles S c b path =
     bindE (GetModel (shTc S)) (\<lambda>M.
     bindE (FindBucket M c (bucket_Slug b)) (\<lambda>schema.
     bindE (mirrorOf schema) (\<lambda>m.
     bindE (getBucketContext (shTc S) c (mbRemoteDbID m) (bucket_Slug b) True (bsEncryptionKey schema)) (\<lambda>(hubCtx, _).
     bindE (tryE (pullRoles S hubCtx (mbRemoteBucketKey m) path)) (\<lambda>r.
       case r of
         Inl _ \<Rightarrow> retE []
       | Inr rs \<Rightarrow> liftE (mapSum (memberOf S) (map fst rs)))))))"

definition isSharedFile :: "'s shareDeps \<Rightarrow> ctx \<Rightarrow> 's bucket \<Rightarrow> bytes \<Rightarrow> ('s, bool) eff" where
  "isSharedFile S c b path =
     bindE (tryE (pullRoles S c (bucket_Key b) path)) (\<lambda>r. case r of Inl _ \<Rightarrow> retE False | Inr roles \<Rightarrow>
     bindE (tryE (kiPublicKey (tcKc (shTc S)))) (\<lambda>k. case k of Inl _ \<Rightarrow> retE False | Inr pk \<Rightarrow>
       retE (filter (\<lambda>kv. fst kv \<noteq> shPubKeyString S pk) roles \<noteq> [])))"

end
