(* ===== verification/Mailbox.thy ===== *)
theory Mailbox
  imports Sharing
begin

text \<open>
  The mailbox: \<open>core/textile/mailbox.go\<close>.  Messages become notifications, an invitation with its
  status as the received files show it.  \<open>withMailbox\<close> gives the textile client these operations.
\<close>

subsection \<open>Notifications\<close>

definition emptyInvitation :: invitation where
  "emptyInvitation = \<lparr> ivInviterPublicKey = [], ivInviteePublicKey = [], ivInvitationID = [], ivStatus = sPENDING,
     ivItemPaths = [], ivKeys = [] \<rparr>"

definition newNotification :: "mailMessage \<Rightarrow> bytes \<Rightarrow> notificationTypes \<Rightarrow> notification" where
  "newNotification msg p t =
     \<lparr> ntID = mmID msg, ntSubject = [], ntBody = p, ntNotificationType = t, ntCreatedAt = mmCreatedAt msg,
       ntReadAt = mmReadAt msg, ntInvitationValue = emptyInvitation,
       ntUsageAlertValue = \<lparr> uaUsed = 0, uaLimit = 0, uaMessage = [] \<rparr>,
       ntInvitationAcceptValue = \<lparr> irInvitationID = [] \<rparr>,
       ntRevokedInvitationValue = \<lparr> rvInviterPublicKey = [], rvInviteePublicKey = [], rvItemPaths = [], rvKeys = [] \<rparr>,
       ntRelatedObject = RelNil \<rparr>"

text \<open>The last received file of an invitation tells its status.\<close>

definition fsmap :: "receivedFileSchema list \<Rightarrow> bytes \<rightharpoonup> receivedFileSchema" where
  "fsmap fileschemas = map_of (rev (map (\<lambda>fs. (rfInvitationId fs, fs)) fileschemas))"

definition statusOf :: "receivedFileSchema option \<Rightarrow> invitationStatus" where
  "statusOf f = (case f of None \<Rightarrow> sPENDING | Some fs \<Rightarrow> if rfAccepted fs then sACCEPTED else sREJECTED)"

definition deleteRevoked :: "'s shareDeps \<Rightarrow> ctx \<Rightarrow> revokedInvitation \<Rightarrow> ('s, unit) eff" where
  "deleteRevoked S c invite =
     bindE (GetModel (shTc S)) (\<lambda>M.
     bindE (tryE (DeleteReceivedFiles M c (rvItemPaths invite) (rvKeys invite))) (\<lambda>_. retE ()))"

text \<open>A message whose body does not parse is a generic notification.\<close>

definition notificationOf ::
  "'s shareDeps \<Rightarrow> ctx \<Rightarrow> (bytes \<rightharpoonup> receivedFileSchema) \<Rightarrow> mailMessage \<Rightarrow> ('s, notification) eff" where
  "notificationOf S c fm msg =
     bindE (liftE (mlOpen S msg)) (\<lambda>p.
       case unmarshalBody p of
         Inl _ \<Rightarrow> retE (newNotification msg p nUNKNOWN)
       | Inr b \<Rightarrow>
           let n = newNotification msg p (mbType b) in
           if mbType b = nINVITATION then
             bindE (liftE (unmarshalInvitation (mbBody b))) (\<lambda>i.
               let i = i\<lparr>ivStatus := statusOf (fm (mmID msg)), ivInvitationID := mmID msg\<rparr> in
               retE (n\<lparr>ntInvitationValue := i, ntRelatedObject := RelInvitation i\<rparr>))
           else if mbType b = nUSAGEALERT then
             bindE (liftE (unmarshalUsageAlert (mbBody b))) (\<lambda>u.
               retE (n\<lparr>ntUsageAlertValue := u, ntRelatedObject := RelUsageAlert u\<rparr>))
           else if mbType b = nREVOKED_INVITATION then
             bindE (liftE (unmarshalRevoked (mbBody b))) (\<lambda>invite.
             thenE (shSpawn S (deleteRevoked S c invite))
               (retE (n\<lparr>ntRevokedInvitationValue := invite, ntRelatedObject := RelRevoked invite\<rparr>)))
           else retE n)"

definition parseMessage :: "'s shareDeps \<Rightarrow> ctx \<Rightarrow> mailMessage list \<Rightarrow> ('s, notification list) eff" where
  "parseMessage S c msgs =
     bindE (GetModel (shTc S)) (\<lambda>M.
     bindE (FindReceivedFilesByIds M c (map mmID msgs)) (\<lambda>fileschemas.
       mapE (notificationOf S c (fsmap fileschemas)) msgs))"

subsection \<open>Sending and reading\<close>

definition sh_SendMessage :: "'s shareDeps \<Rightarrow> ctx \<Rightarrow> bytes \<Rightarrow> bytes \<Rightarrow> ('s, mailMessage) eff" where
  "sh_SendMessage S c recipient body =
     thenE (requiresHubConnection (shTc S))
     (bindE (getHubCtx (shTc S) c) (\<lambda>c. mlSend S c recipient body))"

definition GetMailAsNotifications :: "'s shareDeps \<Rightarrow> ctx \<Rightarrow> bytes \<Rightarrow> int \<Rightarrow> ('s, notification list) eff" where
  "GetMailAsNotifications S c seek limit =
     thenE (requiresHubConnection (shTc S))
     (bindE (getHubCtx (shTc S) c) (\<lambda>c.
      bindE (mlList S c seek limit) (\<lambda>notifs. parseMessage S c notifs)))"

subsection \<open>Listening\<close>

text \<open>
  An event of the mailbox: whether the loop goes on.  A message that does not parse leaves no
  notifications, and the first of them is sent all the same.
\<close>

definition handleMailEvent :: "'s shareDeps \<Rightarrow> ctx \<Rightarrow> mailEvent \<Rightarrow> ('s, bool) eff" where
  "handleMailEvent S c e = (case e of
     NewMessage i \<Rightarrow>
       bindE (tryE (mlList S c i 1)) (\<lambda>m. case m of Inl _ \<Rightarrow> retE False | Inr msg \<Rightarrow>
       bindE (tryE (parseMessage S c msg)) (\<lambda>p.
       bindE (liftE (idx (case p of Inl _ \<Rightarrow> [] | Inr ns \<Rightarrow> ns) 0)) (\<lambda>n.
         thenE (mlNotify S n) (retE True))))
   | _ \<Rightarrow> retE True)"

fun mailLoop :: "'s shareDeps \<Rightarrow> ctx \<Rightarrow> mailEvent list \<Rightarrow> ('s, unit) eff" where
  "mailLoop S c [] = retE ()"
| "mailLoop S c (e # es) = bindE (handleMailEvent S c e) (\<lambda>go. if go then mailLoop S c es else retE ())"

text \<open>\<open>mlStartLoop\<close> starts \<open>mailLoop\<close> on the events, \<open>mlStartWatch\<close> the watcher of the inbox.\<close>

definition listenForMessages :: "'s shareDeps \<Rightarrow> ctx \<Rightarrow> ('s, unit) eff" where
  "listenForMessages S c =
     bindE (getE (mlHasNotifier S)) (\<lambda>set.
       if \<not> set then failE (Err ''no mailbox notifier, run AttachMailboxNotifier first'')
       else bindE (getHubCtx (shTc S) c) (\<lambda>c. thenE (mlStartLoop S c) (mlStartWatch S c)))"

subsection \<open>The local mailbox\<close>

definition mailboxSetupFlagStoreKey :: bytes where
  "mailboxSetupFlagStoreKey = ''mailboxSetupFlag''"

definition getMailboxPath :: "'s shareDeps \<Rightarrow> bytes" where
  "getMailboxPath S = pathJoin [shStorePath S, ''textile'', ''mail'']"

definition createMailBox :: "'s shareDeps \<Rightarrow> ctx \<Rightarrow> bytes \<Rightarrow> ('s, unit) eff" where
  "createMailBox S c mbpath =
     bindE (kiKeyPair (tcKc (shTc S))) (\<lambda>(priv, _).
     thenE (mlNewMailbox S c mbpath priv (shUserKey S) (shUserSecret S))
     (bindE (tryE (sSet (tdStore (tcThreads (shTc S))) mailboxSetupFlagStoreKey ''true'')) (\<lambda>_. retE ())))"

definition setupOrCreateMailBox :: "'s shareDeps \<Rightarrow> ctx \<Rightarrow> ('s, unit) eff" where
  "setupOrCreateMailBox S c =
     bindE (tryE (sGet (tdStore (tcThreads (shTc S))) mailboxSetupFlagStoreKey)) (\<lambda>dbid.
       if \<not> isl dbid \<and> projr dbid \<noteq> [] then mlGetLocalMailbox S c (getMailboxPath S)
       else createMailBox S c (getMailboxPath S))"

definition clearLocalMailbox :: "'s shareDeps \<Rightarrow> ('s, unit) eff" where
  "clearLocalMailbox S = mlRemoveAll S (getMailboxPath S)"

definition withMailbox :: "'s shareDeps \<Rightarrow> 's tcDeps" where
  "withMailbox S = (shTc S)\<lparr>tcSetupMailbox := setupOrCreateMailBox S,
     tcListenForMessages := listenForMessages S, tcClearLocalMailbox := clearLocalMailbox S\<rparr>"

end
