(* ===== verification/SpaceServices.thy ===== *)
theory SpaceServices
  imports Mailbox
begin

text \<open>
  The services on files: \<open>services.go\<close>, \<open>services_fs.go\<close>, \<open>fs_utils.go\<close> and
  \<open>services_search.go\<close> of \<open>core/space/services\<close>.

  \<open>spaceDeps\<close> holds the textile client with its mailbox, the local file system, the syncer and the
  channels the services wait on.  A file on the local disk is opened and read at once.  What a
  goroutine would send on a channel is the list it returns.  The recursive walks over folders take
  fuel, one unit per level.
\<close>

record 's spaceDeps =
  spShare :: "'s shareDeps"
  spKc :: "'s keychainI"
  spStore :: "'s storeI"
  spAwaitInit :: "('s, unit) eff"
  spAwaitHealthy :: "('s, unit) eff"
  spAddFileWatch :: "addWatchFile \<Rightarrow> ('s, unit) eff"
  spGetOpenFilePath :: "bytes \<Rightarrow> bytes \<Rightarrow> bytes \<Rightarrow> bytes \<Rightarrow> ('s, bytes option) eff"
  spInfoAddrs :: "bytes \<Rightarrow> bytes list"
  spInfoKey :: "bytes \<Rightarrow> bytes"
  lfExists :: "'s \<Rightarrow> bytes \<Rightarrow> bool"
  lfIsDir :: "'s \<Rightarrow> bytes \<Rightarrow> bool"
  lfReadDir :: "bytes \<Rightarrow> ('s, bytes list) eff"
  lfOpen :: "bytes \<Rightarrow> ('s, bytes) eff"
  lfSize :: "bytes \<Rightarrow> ('s, int) eff"
  lfTempFile :: "bytes \<Rightarrow> ('s, bytes) eff"
  lfWrite :: "bytes \<Rightarrow> bytes \<Rightarrow> ('s, unit) eff"
  lfRemove :: "bytes \<Rightarrow> ('s, unit) eff"
  spNowNano :: "('s, int) eff"
  spSiteUrl :: bytes
  spEncrypt :: "bytes \<Rightarrow> bytes \<Rightarrow> ('s, bytes \<times> string option) eff"
  spDecrypt :: "bytes \<Rightarrow> bytes \<Rightarrow> ('s, bytes \<times> string option) eff"
  spZip :: "(bytes \<times> bytes) list \<Rightarrow> ('s, bytes) eff"
  spParseCid :: "bytes \<Rightarrow> err + bytes"
  spDownloadPublicItem :: "ctx \<Rightarrow> bytes \<Rightarrow> ('s, bytes) eff"
  spUnmarshalPub :: "bytes \<Rightarrow> err + bytes"

abbreviation spTc :: "'s spaceDeps \<Rightarrow> 's tcDeps" where
  "spTc D \<equiv> withMailbox (spShare D)"

subsection \<open>Waiting\<close>

definition waitForTextileInit :: "'s spaceDeps \<Rightarrow> ('s, unit) eff" where
  "waitForTextileInit D =
     bindE (getE (IsInitialized (spTc D))) (\<lambda>up. if up then retE () else spAwaitInit D)"

definition waitForTextileHub :: "'s spaceDeps \<Rightarrow> ('s, unit) eff" where
  "waitForTextileHub D =
     bindE (getE (IsHealthy (spTc D))) (\<lambda>up. if up then retE () else spAwaitHealthy D)"

subsection \<open>Buckets\<close>

definition svc_CreateBucket :: "'s spaceDeps \<Rightarrow> ctx \<Rightarrow> bytes \<Rightarrow> ('s, 's bucket) eff" where
  "svc_CreateBucket D c slug = thenE (waitForTextileInit D) (tc_CreateBucket (spTc D) c slug)"

definition svc_ListBuckets :: "'s spaceDeps \<Rightarrow> ctx \<Rightarrow> ('s, 's bucket list) eff" where
  "svc_ListBuckets D c = thenE (waitForTextileInit D) (tc_ListBuckets (spTc D) c)"

definition svc_ShareBucket :: "'s spaceDeps \<Rightarrow> ctx \<Rightarrow> bytes \<Rightarrow> ('s, threadInfo) eff" where
  "svc_ShareBucket D c slug =
     thenE (waitForTextileHub D)
     (bindE (ShareBucket (spTc D) c slug) (\<lambda>r.
        retE \<lparr> tiAddresses = spInfoAddrs D r, tiKey = spInfoKey D r \<rparr>))"

definition svc_JoinBucket :: "'s spaceDeps \<Rightarrow> ctx \<Rightarrow> bytes \<Rightarrow> threadInfo \<Rightarrow> ('s, bool) eff" where
  "svc_JoinBucket D c slug ti = thenE (waitForTextileHub D) (JoinBucket (spTc D) c slug ti)"

definition svc_ToggleBucketBackup :: "'s spaceDeps \<Rightarrow> ctx \<Rightarrow> bytes \<Rightarrow> bool \<Rightarrow> ('s, unit) eff" where
  "svc_ToggleBucketBackup D c bucketSlug bucketBackup =
     thenE (waitForTextileHub D)
     (bindE (ToggleBucketBackup (spTc D) c bucketSlug bucketBackup) (\<lambda>_.
      bindE (GetBucket (spTc D) c bucketSlug None) (\<lambda>_. retE ())))"

definition svc_BucketBackupRestore :: "'s spaceDeps \<Rightarrow> bytes \<Rightarrow> ('s, unit) eff" where
  "svc_BucketBackupRestore D bucketSlug =
     thenE (waitForTextileHub D) (BucketBackupRestore (spTc D) bucketSlug)"

definition getBucketForRemoteFile :: "'s spaceDeps \<Rightarrow> ctx \<Rightarrow> bytes \<Rightarrow> bytes \<Rightarrow> bytes \<Rightarrow> ('s, 's bucket) eff" where
  "getBucketForRemoteFile D c bucketName dbID path =
     GetBucket (spTc D) c bucketName (Some \<lparr> grPath = path, grDbID = dbID, grBucket = bucketName \<rparr>)"

definition getBucketWithFallback :: "'s spaceDeps \<Rightarrow> ctx \<Rightarrow> bytes \<Rightarrow> ('s, 's bucket) eff" where
  "getBucketWithFallback D c bucketName =
     (if bucketName = [] then GetDefaultBucket (spTc D) c else GetBucket (spTc D) c bucketName None)"

subsection \<open>Listing\<close>

text \<open>
  The expression \<open>/ip(f|n)s/[^/]*(?P<relPath>/.*)\<close> at the first place it matches: after the first
  element under \<open>/ipfs/\<close> or \<open>/ipns/\<close>, up to the end of the line.
\<close>

definition ipfsTail :: "bytes \<Rightarrow> bytes option" where
  "ipfsTail s =
     (if hasPrefix s ''/ipfs/'' \<or> hasPrefix s ''/ipns/'' then
        (case dropWhile (\<lambda>c. c \<noteq> CHR ''/'') (drop 6 s) of
           [] \<Rightarrow> None
         | r \<Rightarrow> Some (takeWhile (\<lambda>c. c \<noteq> CHR 0x0A) r))
      else None)"

fun relPathMatch :: "bytes \<Rightarrow> bytes option" where
  "relPathMatch [] = None"
| "relPathMatch (c # s) = (case ipfsTail (c # s) of Some r \<Rightarrow> Some r | None \<Rightarrow> relPathMatch s)"

definition relPathOf :: "bytes \<Rightarrow> bytes" where
  "relPathOf p = (case relPathMatch p of Some r \<Rightarrow> r | None \<Rightarrow> p)"

definition listEntry ::
  "'s spaceDeps \<Rightarrow> (bytes \<rightharpoonup> mirrorFileSchema) \<Rightarrow> pathItem \<Rightarrow> member list \<Rightarrow> bool \<Rightarrow> fileInfo" where
  "listEntry D mirror item members locallyAvailable =
     (let fm = mirror (piPath item);
          time = shFormatTime (spShare D) (piUpdatedAt item) in
      \<lparr> dePath = relPathOf (piPath item), deIsDir = piIsDir item, deName = piName item,
        deSizeInBytes = formatInt (piSize item), deCreated = time, deUpdated = time,
        deFileExtension = extOf (piName item), deMembers = members, fiIpfsHash = piCid item,
        fiBackedUp = (case fm of None \<Rightarrow> False | Some m \<Rightarrow> msBackup m),
        fiLocallyAvailable = locallyAvailable,
        fiBackupInProgress = (case fm of None \<Rightarrow> False | Some m \<Rightarrow> msBackupInProgress m),
        fiRestoreInProgress = (case fm of None \<Rightarrow> False | Some m \<Rightarrow> msRestoreInProgress m) \<rparr>)"

fun listDirAtPath ::
  "'s spaceDeps \<Rightarrow> ctx \<Rightarrow> 's bucket \<Rightarrow> nat \<Rightarrow> bytes \<Rightarrow> bool \<Rightarrow> bool \<Rightarrow> ('s, fileInfo list) eff" where
  "listDirAtPath D c b 0 path sub listMembers = failE outOfFuel"
| "listDirAtPath D c b (Suc n) path sub listMembers =
     bindE (ListDirectory b path) (\<lambda>dir.
     bindE (GetModel (spTc D)) (\<lambda>M.
     bindE (FindMirrorFileByPaths M c (map piPath (dlItems dir))) (\<lambda>mirror.
     bindE (mapE (\<lambda>item.
         if IsMetaFileName (piName item) then retE []
         else
           bindE (if listMembers then GetPathAccessRoles (spShare D) c b (piPath item) else retE []) (\<lambda>members.
           bindE (if piIsDir item then retE True
                  else bindE (tryE (FileExists b (piPath item))) (\<lambda>r. retE (r = Inr True))) (\<lambda>locally.
           let entry = listEntry D mirror item members locally in
           if piIsDir item \<and> sub then
             bindE (listDirAtPath D c b n (path @ ''/'' @ piName item) True listMembers) (\<lambda>newEntries.
               retE (entry # newEntries))
           else retE [entry])))
       (dlItems dir)) (\<lambda>entries. retE (concat entries)))))"

definition ListDir :: "'s spaceDeps \<Rightarrow> ctx \<Rightarrow> bytes \<Rightarrow> bytes \<Rightarrow> bool \<Rightarrow> ('s, fileInfo list) eff" where
  "ListDir D c path bucketName listMembers =
     thenE (waitForTextileInit D)
     (bindE (getBucketWithFallback D c bucketName) (\<lambda>b. listDirAtPath D c b 1 path False listMembers))"

definition ListDirs :: "'s spaceDeps \<Rightarrow> nat \<Rightarrow> ctx \<Rightarrow> bytes \<Rightarrow> bytes \<Rightarrow> bool \<Rightarrow> ('s, fileInfo list) eff" where
  "ListDirs D fuel c path bucketName listMembers =
     thenE (waitForTextileInit D)
     (bindE (getBucketWithFallback D c bucketName) (\<lambda>b. listDirAtPath D c b fuel path True listMembers))"

definition SearchFiles :: "'s spaceDeps \<Rightarrow> bytes \<Rightarrow> ('s, searchFileEntry list) eff" where
  "SearchFiles D query =
     bindE (GetModel (spTc D)) (\<lambda>M.
     bindE (QuerySearchIndex M query) (\<lambda>searchResult.
       retE (map (\<lambda>r. \<lparr> dePath = trimPrefix (ixItemPath r) ''/'', deIsDir = (ixItemType r = DirectoryItem),
           deName = ixItemName r, deSizeInBytes = [], deCreated = [], deUpdated = [],
           deFileExtension = ixItemExtension r, deMembers = [], fiIpfsHash = [], fiBackedUp = False,
           fiLocallyAvailable = False, fiBackupInProgress = False, fiRestoreInProgress = False,
           sfBucket = ixBucketSlug r, sfDbID = ixDbId r \<rparr>) searchResult)))"

subsection \<open>Opening a file\<close>

definition createTempFileForPath :: "'s spaceDeps \<Rightarrow> bytes \<Rightarrow> ('s, bytes) eff" where
  "createTempFileForPath D path = lfTempFile D (''*-'' @ snd (pathSplit path))"

text \<open>\<open>b.GetFile(ctx, path, w)\<close>: what was read is written before the error is returned.\<close>

definition fetchInto :: "'s spaceDeps \<Rightarrow> 's bucket \<Rightarrow> bytes \<Rightarrow> bytes \<Rightarrow> ('s, bytes) eff" where
  "fetchInto D b path tmp =
     bindE (GetFile b path) (\<lambda>(content, e).
     thenE (lfWrite D tmp content)
       (case e of None \<Rightarrow> retE content | Some x \<Rightarrow> failE (Err x)))"

definition openFileOnFs ::
  "'s spaceDeps \<Rightarrow> bytes \<Rightarrow> 's bucket \<Rightarrow> bool \<Rightarrow> bytes \<Rightarrow> bytes \<Rightarrow> ('s, bytes) eff" where
  "openFileOnFs D path b isRemote dbID cid =
     bindE (createTempFileForPath D path) (\<lambda>tmpFile.
     bindE (fetchInto D b path tmpFile) (\<lambda>_.
      thenE (spAddFileWatch D \<lparr> awDbId = dbID, awLocalPath = tmpFile, awBucketPath = path,
          awBucketKey = bucket_Key b, awBucketSlug = bucket_Slug b, awIsRemote = isRemote, awCid = cid \<rparr>)
       (retE tmpFile)))"

definition openFrom :: "'s spaceDeps \<Rightarrow> 's bucket \<Rightarrow> bytes \<Rightarrow> bool \<Rightarrow> bytes \<Rightarrow> ('s, bytes) eff" where
  "openFrom D b path isRemote dbID =
     bindE (ListDirectory b path) (\<lambda>listdir.
       let cid = piCid (dlItem listdir) in
       bindE (spGetOpenFilePath D (bucket_Slug b) path dbID cid) (\<lambda>opened.
       bindE (getE (\<lambda>s. case opened of None \<Rightarrow> False | Some p \<Rightarrow> lfExists D s p)) (\<lambda>there.
         if there then retE (the opened) else openFileOnFs D path b isRemote dbID cid)))"

definition OpenFile :: "'s spaceDeps \<Rightarrow> ctx \<Rightarrow> bytes \<Rightarrow> bytes \<Rightarrow> bytes \<Rightarrow> ('s, bytes) eff" where
  "OpenFile D c path bucketName dbID =
     (let isRemote = (dbID \<noteq> []) in
      thenE (waitForTextileInit D)
      (bindE (if isRemote then getBucketForRemoteFile D c bucketName dbID path
              else getBucketWithFallback D c bucketName) (\<lambda>b. openFrom D b path isRemote dbID)))"

definition TruncateData :: "'s spaceDeps \<Rightarrow> ctx \<Rightarrow> ('s, unit) eff" where
  "TruncateData D c = DeleteAccount (spTc D) c"

subsection \<open>Folders and removal\<close>

definition createFolder :: "bytes \<Rightarrow> 's bucket \<Rightarrow> ('s, bytes) eff" where
  "createFolder path b = bindE (CreateDirectory b path) (\<lambda>(_, root). retE root)"

definition CreateFolder :: "'s spaceDeps \<Rightarrow> ctx \<Rightarrow> bytes \<Rightarrow> bytes \<Rightarrow> ('s, unit) eff" where
  "CreateFolder D c path bucketName =
     thenE (waitForTextileInit D)
     (bindE (getBucketWithFallback D c bucketName) (\<lambda>b. bindE (createFolder path b) (\<lambda>_. retE ())))"

definition RemoveDirOrFile :: "'s spaceDeps \<Rightarrow> ctx \<Rightarrow> bytes \<Rightarrow> bytes \<Rightarrow> ('s, unit) eff" where
  "RemoveDirOrFile D c path bucketName =
     thenE (waitForTextileInit D)
     (bindE (getBucketWithFallback D c bucketName) (\<lambda>b. bindE (DeleteDirOrFile b path) (\<lambda>_. retE ())))"

subsection \<open>Adding items\<close>

definition RemoveDuplicates :: "bytes list \<Rightarrow> bytes list" where
  "RemoveDuplicates elements = rev (remdups (rev elements))"

text \<open>
  The goroutines of \<open>getTotals\<close> run here one after another: the totals do not depend on their order;
  of several errors the last to arrive is returned.
\<close>

definition collectTotals :: "addItemsResponse list \<Rightarrow> ('s, addItemsResponse) eff" where
  "collectTotals rs =
     (case filter (\<lambda>r. aiError r \<noteq> None) rs of
        [] \<Rightarrow> retE \<lparr> aiTotalFiles = sum_list (map aiTotalFiles rs),
                    aiTotalBytes = sum_list (map aiTotalBytes rs), aiError = None \<rparr>
      | e # es \<Rightarrow> failE (Err (the (aiError (last (e # es))))))"

definition totalsOf :: "int \<Rightarrow> int \<Rightarrow> addItemsResponse" where
  "totalsOf files bytes = \<lparr> aiTotalFiles = files, aiTotalBytes = bytes, aiError = None \<rparr>"

definition totalsErr :: "string \<Rightarrow> addItemsResponse" where
  "totalsErr e = \<lparr> aiTotalFiles = 0, aiTotalBytes = 0, aiError = Some e \<rparr>"

text \<open>A folder counts as one file of 0 bytes, followed by the totals of what is in it.\<close>

definition totalsAt ::
  "'s spaceDeps \<Rightarrow> (bytes list \<Rightarrow> ('s, addItemsResponse) eff) \<Rightarrow> bytes \<Rightarrow> ('s, addItemsResponse list) eff" where
  "totalsAt D recur pathInFs =
     bindE (getE (\<lambda>s. lfIsDir D s pathInFs)) (\<lambda>dir.
       if dir then
         bindE (tryE (lfReadDir D pathInFs)) (\<lambda>files. case files of
             Inl e \<Rightarrow> retE [totalsOf 1 0, totalsErr e]
           | Inr names \<Rightarrow>
               bindE (tryE (recur (map (\<lambda>f. pathInFs @ ''/'' @ f) names))) (\<lambda>r. case r of
                   Inl e \<Rightarrow> retE [totalsOf 1 0, totalsErr e]
                 | Inr t \<Rightarrow> retE [totalsOf 1 0, t]))
       else
         bindE (tryE (lfSize D pathInFs)) (\<lambda>r. case r of
             Inl e \<Rightarrow> retE [totalsErr e]
           | Inr n \<Rightarrow> retE [totalsOf 1 n]))"

fun getTotals :: "'s spaceDeps \<Rightarrow> nat \<Rightarrow> bytes list \<Rightarrow> ('s, addItemsResponse) eff" where
  "getTotals D 0 sourcePaths = failE outOfFuel"
| "getTotals D (Suc n) sourcePaths =
     bindE (mapE (totalsAt D (getTotals D n)) sourcePaths) (\<lambda>rs. collectTotals (concat rs))"

definition itemError :: "bytes \<Rightarrow> string \<Rightarrow> addItemResult" where
  "itemError sourcePath e = \<lparr> arSourcePath = sourcePath, arBucketPath = [], arBytes = 0, arError = Some e \<rparr>"

definition targetFile :: "bytes \<Rightarrow> bytes \<Rightarrow> bytes" where
  "targetFile targetPath fileName =
     (if targetPath = [] \<or> targetPath = ''/'' then fileName else targetPath @ ''/'' @ fileName)"

text \<open>The size is asked for after the upload; if that fails the result is dropped for its error.\<close>

definition addFile :: "'s spaceDeps \<Rightarrow> 's bucket \<Rightarrow> bytes \<Rightarrow> bytes \<Rightarrow> ('s, addItemResult) eff" where
  "addFile D b sourcePath targetPath =
     bindE (lfOpen D sourcePath) (\<lambda>content.
     bindE (UploadFile b (targetFile targetPath (snd (pathSplit sourcePath))) content) (\<lambda>(_, root).
     bindE (lfSize D sourcePath) (\<lambda>fileSize.
       retE \<lparr> arSourcePath = sourcePath, arBucketPath = root, arBytes = fileSize, arError = None \<rparr>)))"

definition addFolderRec ::
  "'s spaceDeps \<Rightarrow> (bytes list \<Rightarrow> bytes \<Rightarrow> ('s, addItemResult list) eff) \<Rightarrow> bytes \<Rightarrow> bytes \<Rightarrow> ('s, addItemResult list) eff" where
  "addFolderRec D recur sourcePath targetPath =
     bindE (lfReadDir D sourcePath) (\<lambda>files.
       recur (map (\<lambda>f. sourcePath @ ''/'' @ f) (filter (\<lambda>f. f \<noteq> sourcePath) files)) targetPath)"

definition handleAddItemFolder ::
  "'s spaceDeps \<Rightarrow> (bytes list \<Rightarrow> bytes \<Rightarrow> ('s, addItemResult list) eff) \<Rightarrow> 's bucket \<Rightarrow> bytes \<Rightarrow> bytes \<Rightarrow>
   ('s, addItemResult list) eff" where
  "handleAddItemFolder D recur b sourcePath targetPath =
     (let targetBucketFolder = targetPath @ ''/'' @ snd (pathSplit sourcePath) in
      bindE (tryE (createFolder targetBucketFolder b)) (\<lambda>r. case r of
          Inl e \<Rightarrow> retE [itemError sourcePath e]
        | Inr folderBucketPath \<Rightarrow>
            bindE (tryE (addFolderRec D recur sourcePath targetBucketFolder)) (\<lambda>q.
              retE (\<lparr> arSourcePath = sourcePath, arBucketPath = folderBucketPath, arBytes = 0, arError = None \<rparr> #
                (case q of Inl e \<Rightarrow> [itemError sourcePath e] | Inr rs \<Rightarrow> rs)))))"

definition addItem ::
  "'s spaceDeps \<Rightarrow> (bytes list \<Rightarrow> bytes \<Rightarrow> ('s, addItemResult list) eff) \<Rightarrow> 's bucket \<Rightarrow> bytes \<Rightarrow> bytes \<Rightarrow>
   ('s, addItemResult list) eff" where
  "addItem D recur b targetPath sourcePath =
     bindE (getE (\<lambda>s. lfIsDir D s sourcePath)) (\<lambda>dir.
       if dir then handleAddItemFolder D recur b sourcePath targetPath
       else
         bindE (tryE (addFile D b sourcePath targetPath)) (\<lambda>r. case r of
             Inl e \<Rightarrow> retE [itemError sourcePath e]
           | Inr ar \<Rightarrow> retE [ar]))"

fun addItems :: "'s spaceDeps \<Rightarrow> nat \<Rightarrow> 's bucket \<Rightarrow> bytes list \<Rightarrow> bytes \<Rightarrow> ('s, addItemResult list) eff" where
  "addItems D 0 b sourcePaths targetPath = failE outOfFuel"
| "addItems D (Suc n) b sourcePaths targetPath =
     bindE (mapE (addItem D (addItems D n b) b targetPath) sourcePaths) (\<lambda>rs. retE (concat rs))"

text \<open>The second component is what the goroutine that was started does: it sends the results.\<close>

definition AddItems ::
  "'s spaceDeps \<Rightarrow> nat \<Rightarrow> ctx \<Rightarrow> bytes list \<Rightarrow> bytes \<Rightarrow> bytes \<Rightarrow>
   ('s, addItemsResponse \<times> ('s, addItemResult list) eff) eff" where
  "AddItems D fuel c sourcePaths targetPath bucketName =
     thenE (waitForTextileInit D)
     (bindE (getE (\<lambda>s. filter (\<lambda>p. \<not> lfExists D s p) sourcePaths)) (\<lambda>missing.
        case missing of
          p # _ \<Rightarrow> failE (Err (''path not found at '' @ p))
        | [] \<Rightarrow>
            bindE (getBucketWithFallback D c bucketName) (\<lambda>b.
            bindE (getTotals D fuel (RemoveDuplicates sourcePaths)) (\<lambda>totalsRes.
              retE (totalsRes, addItems D fuel b (RemoveDuplicates sourcePaths) targetPath)))))"

definition AddItemWithReader :: "'s spaceDeps \<Rightarrow> ctx \<Rightarrow> bytes \<Rightarrow> bytes \<Rightarrow> bytes \<Rightarrow> ('s, addItemResult) eff" where
  "AddItemWithReader D c content targetPath bucketName =
     thenE (waitForTextileInit D)
     (bindE (getBucketWithFallback D c bucketName) (\<lambda>b.
      bindE (UploadFile b targetPath content) (\<lambda>(_, root).
        retE \<lparr> arSourcePath = [], arBucketPath = root, arBytes = int (length content), arError = None \<rparr>)))"

end
