(* ===== verification/SharingServices.thy ===== *)
theory SharingServices
  imports SpaceServices
begin

text \<open>
  The services on sharing and notifications: \<open>services_sharing.go\<close>, \<open>sharing_utils.go\<close> and
  \<open>services_notifs.go\<close> of \<open>core/space/services\<close>.

  Encryption with a password, zip and the download from IPFS are parameters of \<open>spaceDeps\<close>.
\<close>

subsection \<open>Links\<close>

record fileSharingInfo =
  fsBucket :: bytes
  fsSharedFileCid :: bytes
  fsSharedFileKey :: bytes
  fsSpaceDownloadLink :: bytes

text \<open>\<open>url.QueryEscape\<close>: letters, digits and \<open>-_.~\<close> stay, a space is a plus.\<close>

definition upperHex :: "nat \<Rightarrow> char" where
  "upperHex n = (if n < 10 then char_of (48 + n) else char_of (55 + n))"

definition escapeChar :: "char \<Rightarrow> bytes" where
  "escapeChar c = (let n = code_of c in
     if 48 \<le> n \<and> n \<le> 57 \<or> 65 \<le> n \<and> n \<le> 90 \<or> 97 \<le> n \<and> n \<le> 122 \<or> c \<in> set ''-_.~'' then [c]
     else if c = CHR '' '' then ''+''
     else [CHR ''%'', upperHex (n div 16), upperHex (n mod 16)])"

definition queryEscape :: "bytes \<Rightarrow> bytes" where
  "queryEscape s = concat (map escapeChar s)"

definition wrapE :: "string \<Rightarrow> ('s, 'a) eff \<Rightarrow> ('s, 'a) eff" where
  "wrapE message m =
     bindE (tryE m) (\<lambda>r. case r of Inl e \<Rightarrow> failE (Err (wrapErr e message)) | Inr x \<Rightarrow> retE x)"

text \<open>A temporary file that is removed when the function returns.\<close>

definition withTemp :: "'s spaceDeps \<Rightarrow> bytes \<Rightarrow> (bytes \<Rightarrow> ('s, 'a) eff) \<Rightarrow> ('s, 'a) eff" where
  "withTemp D path m =
     bindE (createTempFileForPath D path) (\<lambda>tempFile.
     bindE (tryE (m tempFile)) (\<lambda>r.
     bindE (tryE (lfRemove D tempFile)) (\<lambda>_.
       case r of Inl e \<Rightarrow> failE (Err e) | Inr x \<Rightarrow> retE x)))"

text \<open>\<open>spEncrypt\<close> fails when the encrypter cannot be made; the copy through it may fail later.\<close>

definition encryptInto :: "'s spaceDeps \<Rightarrow> bytes \<Rightarrow> bytes \<Rightarrow> bytes \<Rightarrow> ('s, bytes) eff" where
  "encryptInto D password content file =
     bindE (wrapE ''file encryption failed'' (spEncrypt D password content)) (\<lambda>(encrypted, e).
     thenE (lfWrite D file encrypted)
       (case e of None \<Rightarrow> retE encrypted | Some x \<Rightarrow> failE (Err x)))"

definition encryptBucketFile :: "'s spaceDeps \<Rightarrow> bytes \<Rightarrow> bytes \<Rightarrow> 's bucket \<Rightarrow> ('s, bytes) eff" where
  "encryptBucketFile D password bucketPath b =
     withTemp D bucketPath (\<lambda>tempFile.
       bindE (createTempFileForPath D bucketPath) (\<lambda>encryptedFile.
       bindE (wrapE ''file encryption failed'' (fetchInto D b bucketPath tempFile)) (\<lambda>content.
         encryptInto D password content encryptedFile)))"

definition uploadSharedFileToIpfs ::
  "'s spaceDeps \<Rightarrow> ctx \<Rightarrow> bytes \<Rightarrow> bytes \<Rightarrow> bytes \<Rightarrow> bytes \<Rightarrow> ('s, fileSharingInfo) eff" where
  "uploadSharedFileToIpfs D c password sharedContent fileName bucketName =
     bindE (wrapE ''failed to get public files bucket'' (GetPublicShareBucket (spTc D) c)) (\<lambda>b.
     bindE (spNowNano D) (\<lambda>timestamp.
     bindE (wrapE ''publishing shared file failed''
              (UploadFile b (fileName @ ''-'' @ formatInt timestamp) sharedContent)) (\<lambda>(cid, _).
       retE \<lparr> fsBucket = bucketName, fsSharedFileCid = cid, fsSharedFileKey = password,
         fsSpaceDownloadLink = spSiteUrl D @ ''/files/share?fname='' @ queryEscape fileName @
           ''&hash='' @ queryEscape cid \<rparr>)))"

definition sharingBucket :: "'s spaceDeps \<Rightarrow> ctx \<Rightarrow> bytes \<Rightarrow> bytes \<Rightarrow> bytes \<Rightarrow> ('s, 's bucket) eff" where
  "sharingBucket D c bucketName dbID path =
     (if dbID \<noteq> [] then getBucketForRemoteFile D c bucketName dbID path
      else getBucketWithFallback D c bucketName)"

definition GenerateFileSharingLink ::
  "'s spaceDeps \<Rightarrow> ctx \<Rightarrow> bytes \<Rightarrow> bytes \<Rightarrow> bytes \<Rightarrow> bytes \<Rightarrow> ('s, fileSharingInfo) eff" where
  "GenerateFileSharingLink D c encryptionPassword path bucketName dbID =
     bindE (sharingBucket D c bucketName dbID path) (\<lambda>b.
     bindE (wrapE ''file encryption failed'' (encryptBucketFile D encryptionPassword path b)) (\<lambda>encryptedFile.
       uploadSharedFileToIpfs D c encryptionPassword encryptedFile (snd (pathSplit path)) bucketName))"

definition generateFilesSharingZip :: bytes where
  "generateFilesSharingZip = ''space_shared_files.zip''"

text \<open>An entry is read into the archive under the last element of its path.\<close>

definition zipEntry :: "'s bucket \<Rightarrow> bytes \<Rightarrow> ('s, bytes \<times> bytes) eff" where
  "zipEntry b path =
     bindE (wrapE (''failed to compress item: '' @ path)
              (bindE (GetFile b path) (\<lambda>(content, e).
                 case e of Some x \<Rightarrow> failE (Err x) | None \<Rightarrow> retE content))) (\<lambda>content.
       retE (snd (pathSplit path), content))"

definition GenerateFilesSharingLink ::
  "'s spaceDeps \<Rightarrow> ctx \<Rightarrow> bytes \<Rightarrow> bytes list \<Rightarrow> bytes \<Rightarrow> bytes \<Rightarrow> ('s, fileSharingInfo) eff" where
  "GenerateFilesSharingLink D c encryptionPassword paths bucketName dbID =
     (case paths of
        [] \<Rightarrow> failE (Err ''no file passed to share link'')
      | [p] \<Rightarrow> GenerateFileSharingLink D c encryptionPassword p bucketName dbID
      | p # _ \<Rightarrow>
          bindE (sharingBucket D c bucketName dbID p) (\<lambda>b.
            withTemp D generateFilesSharingZip (\<lambda>tempFile.
              bindE (createTempFileForPath D generateFilesSharingZip) (\<lambda>encryptedFile.
              bindE (mapE (zipEntry b) paths) (\<lambda>entries.
              bindE (wrapE ''creating compressed file failed'' (spZip D entries)) (\<lambda>zipped.
              thenE (lfWrite D tempFile zipped)
              (bindE (encryptInto D encryptionPassword zipped encryptedFile) (\<lambda>encrypted.
                uploadSharedFileToIpfs D c encryptionPassword encrypted generateFilesSharingZip bucketName))))))))"

text \<open>
  \<open>spDecrypt\<close> fails when the password is wrong, and returns the plain text before an error otherwise.
\<close>

definition OpenSharedFile :: "'s spaceDeps \<Rightarrow> ctx \<Rightarrow> bytes \<Rightarrow> bytes \<Rightarrow> bytes \<Rightarrow> ('s, bytes) eff" where
  "OpenSharedFile D c hash password filename =
     bindE (liftE (spParseCid D hash)) (\<lambda>parsedCid.
     thenE (waitForTextileHub D)
     (bindE (if password = [] then
               wrapE ''password is required to open this file''
                 (bindE (GetPublicReceivedFile (spShare D) c hash True) (\<lambda>(_, pw). retE pw))
             else retE password) (\<lambda>password.
      bindE (spDownloadPublicItem D c parsedCid) (\<lambda>encryptedFile.
      bindE (createTempFileForPath D filename) (\<lambda>decryptedFile.
      bindE (tryE (spDecrypt D password encryptedFile)) (\<lambda>r. case r of
          Inl _ \<Rightarrow> failE (Err ''incorrect password'')
        | Inr (plain, e) \<Rightarrow>
            thenE (lfWrite D decryptedFile plain)
            (case e of Some x \<Rightarrow> failE (Err (wrapErr x ''decryption failed'')) | None \<Rightarrow>
               bindE (wrapE ''accepting shared link failed''
                 (AcceptSharedFileLink (spShare D) c hash password filename (formatInt (int (length plain))))) (\<lambda>_.
               retE decryptedFile))))))))"

subsection \<open>Sharing with public keys\<close>

text \<open>The database, bucket and key of a path: those of the personal mirror, or of a received file.\<close>

definition resolveFullPath :: "'s spaceDeps \<Rightarrow> ctx \<Rightarrow> 's modelDeps \<Rightarrow> fullPath \<Rightarrow> ('s, fullPath \<times> bytes) eff" where
  "resolveFullPath D c M path =
     bindE (if fpDbId path = [] then
              bindE (GetDefaultBucket (spTc D) c) (\<lambda>b.
              bindE (FindBucket M c (bucket_Slug b)) (\<lambda>bs.
              bindE (mirrorOf bs) (\<lambda>m. retE (path\<lparr>fpDbId := mbRemoteDbID m\<rparr>))))
            else retE path) (\<lambda>ep.
       if fpBucket ep = [] \<or> fpBucket ep = defaultPersonalBucketSlug then
         bindE (GetDefaultBucket (spTc D) c) (\<lambda>b.
         bindE (FindBucket M c (bdName (GetData b))) (\<lambda>bs.
         bindE (mirrorOf bs) (\<lambda>m.
           retE (ep\<lparr>fpBucket := defaultPersonalMirrorBucketSlug, fpBucketKey := mbRemoteBucketKey m\<rparr>,
                 bsEncryptionKey bs))))
       else
         bindE (FindReceivedFile M c (fpDbId path) (fpBucket path) (fpPath path)) (\<lambda>r.
           retE (ep\<lparr>fpBucket := rfBucket r, fpBucketKey := rfBucketKey r\<rparr>, rfEncryptionKey r)))"

definition resolveFullPaths :: "'s spaceDeps \<Rightarrow> ctx \<Rightarrow> fullPath list \<Rightarrow> ('s, fullPath list \<times> bytes list) eff" where
  "resolveFullPaths D c paths =
     bindE (GetModel (spTc D)) (\<lambda>M.
     bindE (mapE (resolveFullPath D c M) paths) (\<lambda>rs. retE (map fst rs, map snd rs)))"

definition invitationMessage :: "bytes \<Rightarrow> bytes \<Rightarrow> fullPath list \<Rightarrow> bytes list \<Rightarrow> bytes" where
  "invitationMessage inviterRaw pkRaw paths keys =
     marshalBody nINVITATION (marshalInvitation
       \<lparr> ivInviterPublicKey = hexEncode inviterRaw, ivInviteePublicKey = hexEncode pkRaw,
         ivInvitationID = [], ivStatus = sPENDING, ivItemPaths = paths, ivKeys = keys \<rparr>)"

definition revokedMessage :: "bytes \<Rightarrow> bytes \<Rightarrow> fullPath list \<Rightarrow> bytes list \<Rightarrow> bytes" where
  "revokedMessage uninviterRaw pkRaw paths keys =
     marshalBody nREVOKED_INVITATION (marshalRevoked
       \<lparr> rvInviterPublicKey = hexEncode uninviterRaw, rvInviteePublicKey = hexEncode pkRaw,
         rvItemPaths = paths, rvKeys = keys \<rparr>)"

definition ShareFilesViaPublicKey :: "'s spaceDeps \<Rightarrow> ctx \<Rightarrow> fullPath list \<Rightarrow> bytes list \<Rightarrow> ('s, unit) eff" where
  "ShareFilesViaPublicKey D c paths pubkeys =
     thenE (waitForTextileHub D)
     (bindE (resolveFullPaths D c paths) (\<lambda>(enhancedPaths, enckeys).
      thenE (forE (zip enhancedPaths enckeys) (\<lambda>(p, k).
               bindE (GetModel (spTc D)) (\<lambda>M. bindE (CreateSentFileViaInvitation M c p [] k) (\<lambda>_. retE ()))))
      (thenE (ManageShareFilesViaPublicKey (spShare D) c enhancedPaths pubkeys enckeys ReadWriteRoleAction)
        (forE pubkeys (\<lambda>pk.
           bindE (kiPublicKey (spKc D)) (\<lambda>inviter.
           bindE (sh_SendMessage (spShare D) c pk (invitationMessage inviter pk enhancedPaths enckeys)) (\<lambda>_.
             retE ())))))))"

definition sendPathsRevokedInvitation ::
  "'s spaceDeps \<Rightarrow> ctx \<Rightarrow> bytes list \<Rightarrow> fullPath list \<Rightarrow> bytes list \<Rightarrow> ('s, unit) eff" where
  "sendPathsRevokedInvitation D c pubkeys enhancedPaths keys =
     forE pubkeys (\<lambda>pk.
       bindE (kiPublicKey (spKc D)) (\<lambda>uninviter.
       bindE (sh_SendMessage (spShare D) c pk (revokedMessage uninviter pk enhancedPaths keys)) (\<lambda>_. retE ())))"

definition UnshareFilesViaPublicKey :: "'s spaceDeps \<Rightarrow> ctx \<Rightarrow> fullPath list \<Rightarrow> bytes list \<Rightarrow> ('s, unit) eff" where
  "UnshareFilesViaPublicKey D c paths pubkeys =
     thenE (waitForTextileHub D)
     (bindE (resolveFullPaths D c paths) (\<lambda>(enhancedPaths, enckeys).
      thenE (ManageShareFilesViaPublicKey (spShare D) c enhancedPaths pubkeys enckeys DeleteRoleAction)
        (sendPathsRevokedInvitation D c pubkeys enhancedPaths enckeys)))"

subsection \<open>Answering an invitation\<close>

definition errInvitationNotFound :: err where
  "errInvitationNotFound = Err ''invitation not found''"

definition errFailedToNotifyInviter :: err where
  "errFailedToNotifyInviter = Err ''failed to notify inviter of invitation status''"

definition extractInvitation :: "notification \<Rightarrow> err + invitation" where
  "extractInvitation n =
     (if ntNotificationType n \<noteq> nINVITATION then Inl errInvitationNotFound
      else Inr ((ntInvitationValue n)\<lparr>ivInvitationID := ntID n\<rparr>))"

definition decodePublicKey :: "'s spaceDeps \<Rightarrow> bytes \<Rightarrow> err + bytes" where
  "decodePublicKey D pkString =
     (case hexDecode pkString of
        Inl _ \<Rightarrow> Inl (Err ''invalid encoding for public key'')
      | Inr pkBytes \<Rightarrow>
          (case spUnmarshalPub D pkBytes of
             Inl _ \<Rightarrow> Inl (Err ''invalid public key format'')
           | Inr pk \<Rightarrow> Inr pk))"

text \<open>
  The error of sending the answer is assigned to the \<open>err\<close> of the inner block, which
  \<open>invitersPk, err :=\<close> declares: the error returned at the end is the outer one, which is nil.
\<close>

definition HandleSharedFilesInvitation :: "'s spaceDeps \<Rightarrow> ctx \<Rightarrow> bytes \<Rightarrow> bool \<Rightarrow> ('s, unit) eff" where
  "HandleSharedFilesInvitation D c invitationId accept =
     thenE (waitForTextileHub D)
     (bindE (tryE (GetMailAsNotifications (spShare D) c invitationId 1)) (\<lambda>r. case r of
          Inl _ \<Rightarrow> failE errInvitationNotFound
        | Inr [] \<Rightarrow> failE errInvitationNotFound
        | Inr (n # _) \<Rightarrow>
            bindE (liftE (extractInvitation n)) (\<lambda>iv.
              if accept then
                bindE (AcceptSharedFilesInvitation (spShare D) c iv) (\<lambda>iv.
                  case decodePublicKey D (ivInviterPublicKey iv) of
                    Inl _ \<Rightarrow> failE errFailedToNotifyInviter
                  | Inr invitersPk \<Rightarrow>
                      bindE (tryE (sh_SendMessage (spShare D) c invitersPk
                               (marshalBody nINVITATION_REPLY (marshalInvitation iv)))) (\<lambda>_. retE ()))
              else bindE (RejectSharedFilesInvitation (spShare D) c iv) (\<lambda>_. retE ()))))"

subsection \<open>Recent keys and shared files\<close>

text \<open>An error of the model ends the loop and is dropped.\<close>

fun addSharedKeys :: "'s spaceDeps \<Rightarrow> ctx \<Rightarrow> bytes list \<Rightarrow> ('s, unit) eff" where
  "addSharedKeys D c [] = retE ()"
| "addSharedKeys D c (pk # pks) =
     bindE (GetModel (spTc D)) (\<lambda>M.
     bindE (tryE (CreateSharedPublicKey M c (hexEncode pk))) (\<lambda>r. case r of
         Inl _ \<Rightarrow> retE ()
       | Inr _ \<Rightarrow> addSharedKeys D c pks))"

definition AddRecentlySharedPublicKeys :: "'s spaceDeps \<Rightarrow> ctx \<Rightarrow> bytes list \<Rightarrow> ('s, unit) eff" where
  "AddRecentlySharedPublicKeys D c pubkeys = thenE (waitForTextileInit D) (addSharedKeys D c pubkeys)"

definition RecentlySharedPublicKeys :: "'s spaceDeps \<Rightarrow> ctx \<Rightarrow> ('s, bytes list) eff" where
  "RecentlySharedPublicKeys D c =
     thenE (waitForTextileInit D)
     (bindE (GetModel (spTc D)) (\<lambda>M.
      bindE (ListSharedPublicKeys M c) (\<lambda>keys.
        liftE (mapSum (\<lambda>k. bindS (hexDecode (spPublicKey k)) (spUnmarshalPub D)) keys))))"

definition GetSharedWithMeFiles :: "'s spaceDeps \<Rightarrow> ctx \<Rightarrow> bytes \<Rightarrow> int \<Rightarrow> ('s, sharedDirEntry list \<times> bytes) eff" where
  "GetSharedWithMeFiles D c seek limit =
     thenE (waitForTextileInit D) (GetReceivedFiles (spShare D) c True seek limit)"

definition GetSharedByMeFiles :: "'s spaceDeps \<Rightarrow> ctx \<Rightarrow> bytes \<Rightarrow> int \<Rightarrow> ('s, sharedDirEntry list \<times> bytes) eff" where
  "GetSharedByMeFiles D c seek limit =
     thenE (waitForTextileInit D) (GetSentFiles (spShare D) c seek limit)"

subsection \<open>Notifications\<close>

definition notificationsLastSeenAtStoreKey :: bytes where
  "notificationsLastSeenAtStoreKey = ''notificationsLastSeenAt''"

definition GetNotifications :: "'s spaceDeps \<Rightarrow> ctx \<Rightarrow> bytes \<Rightarrow> int \<Rightarrow> ('s, notification list) eff" where
  "GetNotifications D c seek limit =
     thenE (waitForTextileHub D) (GetMailAsNotifications (spShare D) c seek limit)"

definition SetNotificationsLastSeenAt :: "'s spaceDeps \<Rightarrow> int \<Rightarrow> ('s, unit) eff" where
  "SetNotificationsLastSeenAt D timestamp =
     sSet (spStore D) notificationsLastSeenAtStoreKey (formatInt timestamp)"

definition GetNotificationsLastSeenAt :: "'s spaceDeps \<Rightarrow> ('s, int) eff" where
  "GetNotificationsLastSeenAt D =
     bindE (sGet (spStore D) notificationsLastSeenAtStoreKey) (\<lambda>ts.
       case parseInt64 ts of None \<Rightarrow> failE (Err ''invalid syntax'') | Some i \<Rightarrow> retE i)"

end
