(* ===== verification/ClientMem.thy ===== *)
theory ClientMem
  imports SharingServices ModelFacts
begin

text \<open>
  A textile client in memory: the model of \<open>ModelMem\<close>, one map of files for the buckets and a list of
  messages for the mailbox.  The witnesses on the client, on sharing and on the services run on it.
\<close>

record memDaemon = memWorld +
  mcFields :: clientFields
  mcMail :: "mailMessage list"
  mcRoots :: "bucketRoot list"
  mcFiles :: "bytes \<times> bytes \<rightharpoonup> bytes"
  mcCount :: nat

definition runningFields :: clientFields where
  "runningFields = (newClientFields True)\<lparr>cfRunning := True, cfInitialized := True, cfSyncInitialized := True,
     cfConnectedToHub := True, cfSync := True\<rparr>"

definition memDaemon0 :: memDaemon where
  "memDaemon0 = memWorld.extend emptyWorld
     \<lparr> mcFields = runningFields, mcMail = [], mcRoots = [], mcFiles = Map.empty, mcCount = 0 \<rparr>"

definition daemonBuckets :: "memDaemon bclient" where
  "daemonBuckets =
     \<lparr> cPushPath = \<lambda>_ k p x s. (Inr (p, x), s\<lparr>mcFiles := (mcFiles s)((k, p) \<mapsto> x)\<rparr>),
       cPullPath = \<lambda>_ k p s. (Inr (case mcFiles s (k, p) of Some x \<Rightarrow> (x, None) | None \<Rightarrow> ([], Some ''no link'')), s),
       cListPath = \<lambda>_ k p s. (case mcFiles s (k, p) of Some x \<Rightarrow> Inr (memItem p x) | None \<Rightarrow> Inl (Err ''no link''), s),
       cRemovePath = \<lambda>_ k p s. (Inr [], s\<lparr>mcFiles := (mcFiles s)((k, p) := None)\<rparr>),
       cListIpfsPath = \<lambda>_ _. failE (Err ''offline''),
       cPushPathAccessRoles = \<lambda>_ _ _ _. retE () \<rparr>"

definition newRoot :: "bytes \<Rightarrow> bucketRoot" where
  "newRoot slug = \<lparr> rtKey = ''key-'' @ slug, rtName = slug, rtPath = ''/ipfs/'' @ slug, rtCreatedAt = 0, rtUpdatedAt = 0 \<rparr>"

definition daemonApi :: "memDaemon bucketsApi" where
  "daemonApi =
     \<lparr> baClient = daemonBuckets, baPullRoles = \<lambda>_ _ _. retE [], baList = \<lambda>_. getE mcRoots,
       baCreate = \<lambda>_ slug _ s. (Inr (newRoot slug), s\<lparr>mcRoots := mcRoots s @ [newRoot slug]\<rparr>),
       baRemove = \<lambda>_ k s. (Inr (), s\<lparr>mcRoots := filter (\<lambda>r. rtKey r \<noteq> k) (mcRoots s)\<rparr>) \<rparr>"

definition quietSync :: "'s tcSyncI" where
  "quietSync =
     \<lparr> tsItemAdded = \<lambda>_ _. retE (), tsBucketCreated = \<lambda>_ _. retE (), tsBucketBackupOn = \<lambda>_. retE (),
       tsBucketBackupOff = \<lambda>_. retE (), tsBucketRestore = \<lambda>_. retE (), tsIndexItemAdded = \<lambda>_ _ _. retE (),
       tsBucketStartup = \<lambda>_. retE (), tsRestoreQueue = retE (), tsStart = retE (), tsShutdown = retE () \<rparr>"

definition memTc :: "memDaemon tcDeps" where
  "memTc =
     \<lparr> tcModel = memModel, tcGet = mcFields, tcUpd = (\<lambda>f s. s\<lparr>mcFields := f (mcFields s)\<rparr>),
       tcNewID = (\<lambda>s. (Inr (''db'' @ replicate (mcCount s) (CHR ''1'')), s\<lparr>mcCount := Suc (mcCount s)\<rparr>)),
       tcListDBs = (\<lambda>_. retE []), tcGetDBInfo = (\<lambda>_. retE), tcDeleteDB = (\<lambda>_. retE ()),
       tcHubNewDB = (\<lambda>_ _. retE ()), tcApi = (\<lambda>_. daemonApi),
       tcSecDeps = \<lparr> sdClient = daemonBuckets, sdPullRoles = \<lambda>_ _ _. retE [], sdStore = memWorldStore,
         sdIpfsAdd = retE, sdIpfsGet = \<lambda>s. retE (Some s), sdDownload = \<lambda>_. retE, sdCidFromBytes = Inr,
         sdCidDecode = Inr, sdDialArgs = Inr, sdIpfsAddr = ''local'', sdIsRemote = False, sdPrims = toyPrims \<rparr>,
       tcRace = [], tcSync = quietSync, tcHubMa = ''/dns4/hub'', tcNewMultiaddr = Inr, tcFromAddr = Inr,
       tcKeyFromString = Inr, tcClearHubCache = retE (), tcSetupMailbox = (\<lambda>_. retE ()),
       tcListenForMessages = (\<lambda>_. retE ()), tcClearLocalMailbox = retE (), tcSpawnListener = (\<lambda>_ _. retE ()),
       tcCloseListener = (\<lambda>_. retE ()), tcKeypairDeleted = retE (), tcHealthyWaiter = (\<lambda>_. False) \<rparr>"

text \<open>A message is sent in the clear; the recipient's mailbox is this one.\<close>

definition memShare :: "memDaemon shareDeps" where
  "memShare =
     \<lparr> shTc = memTc, shSpawn = (\<lambda>m. bindE (tryE m) (\<lambda>_. retE ())), shFormatTime = formatInt,
       shPubKeyString = (\<lambda>k. k), shPubKeyParse = Inr, shSha3 = (\<lambda>k. replicate 32 (CHR ''h'')),
       shStorePath = ''/space'', shUserKey = ''user'', shUserSecret = ''secret'',
       mlOpen = (\<lambda>m. Inr (mmBody m)),
       mlList = (\<lambda>_ seek n s. (Inr (take (nat n) (dropWhile (\<lambda>m. mmID m \<noteq> seek) (mcMail s))), s)),
       mlSend = (\<lambda>_ k b s. let m = \<lparr> mmID = replicate (Suc (length (mcMail s))) (CHR ''m''), mmBody = b,
            mmCreatedAt = 0, mmReadAt = 0 \<rparr> in (Inr m, s\<lparr>mcMail := mcMail s @ [m]\<rparr>)),
       mlHasNotifier = (\<lambda>_. True), mlNotify = (\<lambda>_. retE ()), mlStartLoop = (\<lambda>_. retE ()),
       mlStartWatch = (\<lambda>_. retE ()), mlGetLocalMailbox = (\<lambda>_ _. retE ()),
       mlNewMailbox = (\<lambda>_ _ _ _ _. retE ()), mlRemoveAll = (\<lambda>_. retE ()) \<rparr>"

lemma memTc_simps [simp]:
  "tcModel memTc = memModel" "tcSync memTc = quietSync" "shTc memShare = memTc" "tcGet memTc = mcFields"
  "tsIndexItemAdded quietSync b p d = retE ()" "tcThreads memTc = memThreadDeps"
  by (simp_all add: memTc_def quietSync_def memShare_def memModel_def)

lemma daemonOk0: "memMetaOk memDaemon0"
  by (simp add: metaOk_def ModelMem.memOk_def memDaemon0_def memWorld.extend_def emptyWorld_def storedDet_def)

end
