(* ===== verification/SharingFacts.thy ===== *)
theory SharingFacts
  imports ClientMem
begin

text \<open>
  What holds of invitations: the status a notification shows after an invitation was answered, and
  what a message that does not parse does to the daemon.
\<close>

subsection \<open>Received files in the metathread\<close>

definition rowFor :: "fullPath \<Rightarrow> receivedFileSchema \<Rightarrow> bool" where
  "rowFor p r \<longleftrightarrow> rfDbID r = fpDbId p \<and> rfBucket r = fpBucket p \<and> rfPath r = fpPath p"

lemma received_init:
  assumes "received_world M ok view priv pub rows"
  shows "ensures (\<lambda>s. metaOk M ok view priv pub s \<and> rows s = R) (initReceivedFileModel M c)
    (\<lambda>(mc, d) s. d = metaID M priv \<and> metaOk M ok view priv pub s \<and> rows s = R)
    (\<lambda>s. metaOk M ok view priv pub s \<and> rows s = R)"
  unfolding initReceivedFileModel_def
  by (rule init_ensures [OF received_worldD(1) [OF assms] coll_envD(1) [OF received_worldD(2) [OF assms]]])

lemma received_query:
  assumes "received_world M ok view priv pub rows" "plainQuery q"
  shows "ensures (\<lambda>s. metaOk M ok view priv pub s \<and> rows s = R) (clFind (mdReceived M) mc d (Some q))
    (\<lambda>raw s. (\<exists>ys. raw = Some ys \<and> set ys = {x \<in> ran (R d). qMatch (receivedFld x) q}) \<and>
       metaOk M ok view priv pub s \<and> rows s = R)
    (\<lambda>s. metaOk M ok view priv pub s \<and> rows s = R)"
proof (rule ensuresI)
  note w = received_worldD(2) [OF assms(1)]
  fix s raw s' assume s: "metaOk M ok view priv pub s \<and> rows s = R"
    and r: "clFind (mdReceived M) mc d (Some q) s = (Inr raw, s')"
  show "(\<exists>ys. raw = Some ys \<and> set ys = {x \<in> ran (R d). qMatch (receivedFld x) q}) \<and>
       metaOk M ok view priv pub s' \<and> rows s' = R"
    using coll_envD(4) [OF w conjunct1 [OF s] assms(2) r] stableD [OF coll_envD(3) [OF w] conjunct1 [OF s] r] s
    by simp
next
  note w = received_worldD(2) [OF assms(1)]
  fix s e s' assume s: "metaOk M ok view priv pub s \<and> rows s = R"
    and r: "clFind (mdReceived M) mc d (Some q) s = (Inl e, s')"
  show "metaOk M ok view priv pub s' \<and> rows s' = R"
    using stableD [OF coll_envD(3) [OF w] conjunct1 [OF s] r] s by simp
qed

lemma received_find:
  assumes "received_world M ok view priv pub rows"
  shows "ensures (\<lambda>s. metaOk M ok view priv pub s \<and> rows s = R)
    (FindReceivedFile M c (fpDbId p) (fpBucket p) (fpPath p))
    (\<lambda>r s. r \<in> ran (R (metaID M priv)) \<and> rowFor p r \<and> metaOk M ok view priv pub s \<and> rows s = R)
    (\<lambda>s. metaOk M ok view priv pub s \<and> rows s = R)"
proof -
  let ?I = "\<lambda>s. metaOk M ok view priv pub s \<and> rows s = R" and ?d = "metaID M priv"
  let ?q = "dbAnd (dbAnd (dbWhere ''dbId'' (VStr (fpDbId p))) ''bucket'' (VStr (fpBucket p))) ''path'' (VStr (fpPath p))"
  have q: "plainQuery ?q" by simp
  have query: "ensures ?I (clFind (mdReceived M) mc ?d (Some ?q))
      (\<lambda>raw s. (\<exists>ys. raw = Some ys \<and> set ys = {x \<in> ran (R ?d). rowFor p x}) \<and> ?I s) ?I" for mc
    by (rule ensures_weaken [OF received_query [OF assms q]]) (auto simp: receivedFld_def rowFor_def)
  have first: "ensures ?I (firstRow errReceivedFileNotFound raw) (\<lambda>r s. r \<in> ran (R ?d) \<and> rowFor p r \<and> ?I s) ?I"
    if "\<exists>ys. raw = Some ys \<and> set ys = {x \<in> ran (R ?d). rowFor p x}" for raw
    using that by (intro ensuresI) (force simp: firstRow_def split: option.splits list.splits)+
  show ?thesis
    unfolding FindReceivedFile_def
    by (rule ensures_bind_ctx [OF received_init [OF assms]], rule ensures_bind_fact [OF query], rule first)
qed

text \<open>The rows after a received file was created, given those before.\<close>

definition receivedAfter ::
  "(bytes \<rightharpoonup> receivedFileSchema) \<Rightarrow> (bytes \<rightharpoonup> receivedFileSchema) \<Rightarrow> fullPath \<Rightarrow> bytes \<Rightarrow> bool \<Rightarrow> bytes \<Rightarrow> bytes \<Rightarrow> bool" where
  "receivedAfter R R' p invID accepted key by' \<longleftrightarrow>
     R' = R \<and> (\<exists>r \<in> ran R. rowFor p r) \<or>
     (\<exists>i now. R i = None \<and> R' = R(i \<mapsto> (receivedRow p invID accepted key by' now)\<lparr>rfID := i\<rparr>))"

lemma received_create:
  assumes "received_world M ok view priv pub rows"
  shows "ensures (\<lambda>s. metaOk M ok view priv pub s \<and> rows s = R)
    (CreateReceivedFileViaInvitation M c p invID accepted key by')
    (\<lambda>r s. receivedAfter (R (metaID M priv)) (rows s (metaID M priv)) p invID accepted key by' \<and>
       metaOk M ok view priv pub s)
    (\<lambda>s. metaOk M ok view priv pub s \<and> rows s (metaID M priv) = R (metaID M priv))"
proof -
  let ?I = "\<lambda>s. metaOk M ok view priv pub s \<and> rows s = R" and ?d = "metaID M priv"
  let ?A = "\<lambda>s. receivedAfter (R ?d) (rows s ?d) p invID accepted key by' \<and> metaOk M ok view priv pub s"
  let ?E = "\<lambda>s. metaOk M ok view priv pub s \<and> rows s ?d = R ?d"
  note w = received_worldD [OF assms]
  have find: "ensures ?I (tryE (FindReceivedFile M c (fpDbId p) (fpBucket p) (fpPath p)))
      (\<lambda>r s. (\<forall>x. r = Inr x \<longrightarrow> x \<in> ran (R ?d) \<and> rowFor p x) \<and> ?I s) ?E"
    by (rule ensures_weaken [OF ensures_try [OF received_find [OF assms]]]) (auto split: sum.splits)
  have now: "ensures ?I (mdNow M) (\<lambda>_. ?I) ?E"
    by (rule ensuresI) (use stableD [OF w(3)] in auto)
  have row: "ensures ?I (clCreate (mdReceived M) mc ?d [receivedRow p invID accepted key by' n])
      (\<lambda>is s. (\<exists>i. is = [i] \<and> R ?d i = None \<and>
         rows s ?d = (R ?d)(i \<mapsto> (receivedRow p invID accepted key by' n)\<lparr>rfID := i\<rparr>)) \<and>
         metaOk M ok view priv pub s) ?E" for mc n
  proof (rule ensuresI)
    fix s "is" s' assume a: "?I s" "clCreate (mdReceived M) mc ?d [receivedRow p invID accepted key by' n] s = (Inr is, s')"
    show "(\<exists>i. is = [i] \<and> R ?d i = None \<and>
         rows s' ?d = (R ?d)(i \<mapsto> (receivedRow p invID accepted key by' n)\<lparr>rfID := i\<rparr>)) \<and>
         metaOk M ok view priv pub s'"
      using coll_envD(5) [OF w(2) conjunct1 [OF a(1)] a(2)] a(1) by auto
  next
    fix s e s' assume a: "?I s" "clCreate (mdReceived M) mc ?d [receivedRow p invID accepted key by' n] s = (Inl e, s')"
    show "?E s'" using coll_envD(6) [OF w(2) conjunct1 [OF a(1)] a(2)] a(1) by simp
  qed
  have ret: "ensures (\<lambda>s. (\<exists>i. is = [i] \<and> R ?d i = None \<and>
         rows s ?d = (R ?d)(i \<mapsto> (receivedRow p invID accepted key by' n)\<lparr>rfID := i\<rparr>)) \<and>
         metaOk M ok view priv pub s)
      (bindE (liftE (idx is 0)) (\<lambda>i. retE ((receivedRow p invID accepted key by' n)\<lparr>rfID := i\<rparr>))) (\<lambda>_. ?A) ?E"
    for "is" n
  proof (rule ensuresI)
    fix s x s' assume a: "(\<exists>i. is = [i] \<and> R ?d i = None \<and>
         rows s ?d = (R ?d)(i \<mapsto> (receivedRow p invID accepted key by' n)\<lparr>rfID := i\<rparr>)) \<and> metaOk M ok view priv pub s"
      "bindE (liftE (idx is 0)) (\<lambda>i. retE ((receivedRow p invID accepted key by' n)\<lparr>rfID := i\<rparr>)) s = (Inr x, s')"
    then have "s' = s" by (auto simp: bindE_apply)
    then show "?A s'" using a(1) unfolding receivedAfter_def by blast
  qed (auto simp: bindE_apply)
  have init: "ensures ?I (initReceivedFileModel M c) (\<lambda>(mc, d) s. d = ?d \<and> ?I s) ?E"
    by (rule ensures_weaken [OF received_init [OF assms]]) auto
  show ?thesis
    unfolding CreateReceivedFileViaInvitation_def createReceivedFile_def
  proof (rule ensures_bind_fact [OF find], rule ensures_case_sum)
    fix e
    show "ensures ?I (bindE (mdNow M) (\<lambda>now. bindE (initReceivedFileModel M c) (\<lambda>(metaCtx, metaDbID).
        bindE (clCreate (mdReceived M) metaCtx metaDbID [receivedRow p invID accepted key by' now]) (\<lambda>res.
        bindE (liftE (idx res 0)) (\<lambda>i. retE ((receivedRow p invID accepted key by' now)\<lparr>rfID := i\<rparr>)))))) (\<lambda>_. ?A) ?E"
      by (rule ensures_bind [OF now], rule ensures_bind_ctx [OF init], rule ensures_bind [OF row], rule ret)
  next
    fix r x assume "\<forall>x. r = Inr x \<longrightarrow> x \<in> ran (R ?d) \<and> rowFor p x" "r = Inr x"
    then show "ensures ?I (retE x) (\<lambda>_. ?A) ?E"
      by (intro ensures_ret) (auto simp: receivedAfter_def)
  qed
qed

lemma received_by_ids:
  assumes "received_world M ok view priv pub rows" "ids \<noteq> []"
  shows "ensures (\<lambda>s. metaOk M ok view priv pub s \<and> rows s = R) (FindReceivedFilesByIds M c ids)
    (\<lambda>fs s. set fs = {x \<in> ran (R (metaID M priv)). rfInvitationId x \<in> set ids})
    (\<lambda>_. True)"
proof -
  let ?I = "\<lambda>s. metaOk M ok view priv pub s \<and> rows s = R" and ?d = "metaID M priv"
  let ?qs = "map (\<lambda>i. dbWhere ''invitationId'' (VStr i)) ids"
  obtain q where q: "orQuery ?qs = Some q" "plainQuery q" "\<And>f. qMatch f q \<longleftrightarrow> (\<exists>q' \<in> set ?qs. qMatch f q')"
    using orQuery_spec [of ?qs] assms(2) by auto
  have m: "qMatch (receivedFld r) q \<longleftrightarrow> rfInvitationId r \<in> set ids" for r
    by (auto simp: q(3) receivedFld_def)
  have init: "ensures ?I (initReceivedFileModel M c) (\<lambda>(mc, d) s. d = ?d \<and> ?I s) (\<lambda>_. True)"
    by (rule ensures_weaken [OF received_init [OF assms(1)]]) auto
  have query: "ensures ?I (clFind (mdReceived M) mc ?d (orQuery ?qs))
      (\<lambda>raw s. (\<exists>ys. raw = Some ys \<and> set ys = {x \<in> ran (R ?d). rfInvitationId x \<in> set ids}) \<and> ?I s) (\<lambda>_. True)" for mc
    unfolding q(1) by (rule ensures_weaken [OF received_query [OF assms(1) q(2)]]) (auto simp: m)
  have case_raw: "ensures ?I (case raw of None \<Rightarrow> failE (Panic ''interface conversion: interface is nil'') | Some fs \<Rightarrow> retE fs)
      (\<lambda>fs s. set fs = {x \<in> ran (R ?d). rfInvitationId x \<in> set ids}) (\<lambda>_. True)"
    if raw: "\<exists>ys. raw = Some ys \<and> set ys = {x \<in> ran (R ?d). rfInvitationId x \<in> set ids}" for raw
  proof -
    obtain ys where "raw = Some ys" "set ys = {x \<in> ran (R ?d). rfInvitationId x \<in> set ids}" using raw by blast
    then show ?thesis by (simp only: option.case) (rule ensures_ret, simp only:)
  qed
  show ?thesis
    unfolding FindReceivedFilesByIds_def
    by (rule ensures_bind_ctx [OF init], rule ensures_bind_fact [OF query], rule case_raw)
qed

subsection \<open>Answering an invitation\<close>

text \<open>
  What the lemmas need of the client: its received files, with either value of the flag
  \<open>shouldForceRestore\<close>, and that the synchronizer's notification leaves them alone.
\<close>

definition share_env :: "'s shareDeps \<Rightarrow> ('s \<Rightarrow> bool) \<Rightarrow> ('s \<Rightarrow> bytes \<rightharpoonup> bytes) \<Rightarrow> bytes \<Rightarrow> bytes \<Rightarrow>
    ('s \<Rightarrow> bytes \<Rightarrow> bytes \<rightharpoonup> receivedFileSchema) \<Rightarrow> bool" where
  "share_env S ok view priv pub rows \<longleftrightarrow>
     (\<forall>f. received_world ((tcModel (shTc S))\<lparr>mdShouldForceRestore := f\<rparr>) ok view priv pub rows) \<and>
     (\<forall>b p d. stable (metaOk (tcModel (shTc S)) ok view priv pub) rows (tsIndexItemAdded (tcSync (shTc S)) b p d))"

abbreviation shareID :: "'s shareDeps \<Rightarrow> bytes \<Rightarrow> bytes" where
  "shareID S priv \<equiv> metaID (tcModel (shTc S)) priv"

lemma metaID_force [simp]: "metaID (M\<lparr>mdShouldForceRestore := f\<rparr>) priv = metaID M priv"
  "metaOk (M\<lparr>mdShouldForceRestore := f\<rparr>) ok view priv pub = metaOk M ok view priv pub"
  by (simp_all add: metaID_def metaOk_def fun_eq_iff)

lemma share_envD:
  assumes "share_env S ok view priv pub rows"
  shows "received_world ((tcModel (shTc S))\<lparr>mdShouldForceRestore := f\<rparr>) ok view priv pub rows"
    "stable (metaOk (tcModel (shTc S)) ok view priv pub) rows (tsIndexItemAdded (tcSync (shTc S)) b p d)"
  using assms unfolding share_env_def by blast+

text \<open>The rows while the answer \<open>accepted\<close> to the invitation \<open>iv\<close> is stored, given those before.\<close>

definition answering ::
  "(bytes \<rightharpoonup> receivedFileSchema) \<Rightarrow> invitation \<Rightarrow> bool \<Rightarrow> (bytes \<rightharpoonup> receivedFileSchema) \<Rightarrow> bool" where
  "answering R0 iv accepted R \<longleftrightarrow>
     (\<forall>i r. R0 i = Some r \<longrightarrow> R i = Some r) \<and>
     (\<forall>i r. R i = Some r \<longrightarrow> R0 i = Some r \<or> rfInvitationId r = ivInvitationID iv \<and> rfAccepted r = accepted)"

lemma answering_step:
  assumes "answering R0 iv accepted R" "receivedAfter R R' p (ivInvitationID iv) accepted key by'"
  shows "answering R0 iv accepted R'" "\<exists>r \<in> ran R'. rowFor p r" "ran R \<subseteq> ran R'"
proof -
  note d = assms(1) [unfolded answering_def, THEN conjunct1] assms(1) [unfolded answering_def, THEN conjunct2]
  have "answering R0 iv accepted R' \<and> (\<exists>r \<in> ran R'. rowFor p r) \<and> ran R \<subseteq> ran R'"
    using assms(2) unfolding receivedAfter_def
  proof (elim disjE exE conjE)
    fix i now
    assume r: "R i = None" "R' = R(i \<mapsto> (receivedRow p (ivInvitationID iv) accepted key by' now)\<lparr>rfID := i\<rparr>)"
    have "answering R0 iv accepted R'"
      using d r unfolding answering_def by (auto simp: receivedRow_def)
    moreover have "rowFor p ((receivedRow p (ivInvitationID iv) accepted key by' now)\<lparr>rfID := i\<rparr>)"
      by (simp add: rowFor_def receivedRow_def)
    moreover have "ran R' = insert ((receivedRow p (ivInvitationID iv) accepted key by' now)\<lparr>rfID := i\<rparr>) (ran R)"
      using r by (simp add: ran_map_upd)
    ultimately show ?thesis by auto
  qed (use assms(1) in simp)
  then show "answering R0 iv accepted R'" "\<exists>r \<in> ran R'. rowFor p r" "ran R \<subseteq> ran R'" by blast+
qed

lemma receive_keeps:
  assumes "share_env S ok view priv pub rows"
  shows "ensures
    (\<lambda>s. metaOk (tcModel (shTc S)) ok view priv pub s \<and> answering R0 iv accepted (rows s (shareID S priv)) \<and>
       (\<forall>p \<in> dn. \<exists>r \<in> ran (rows s (shareID S priv)). rowFor p r))
    (receiveFiles S c iv accepted ps e)
    (\<lambda>e' s. (e \<noteq> None \<longrightarrow> e' \<noteq> None) \<and> metaOk (tcModel (shTc S)) ok view priv pub s \<and>
       answering R0 iv accepted (rows s (shareID S priv)) \<and>
       (e' = None \<longrightarrow> (\<forall>p \<in> dn \<union> fst ` set ps. \<exists>r \<in> ran (rows s (shareID S priv)). rowFor p r)))
    (\<lambda>_. True)"
proof (induction ps arbitrary: e "dn")
  case (Cons pk ps)
  let ?I = "\<lambda>D s. metaOk (tcModel (shTc S)) ok view priv pub s \<and> answering R0 iv accepted (rows s (shareID S priv)) \<and>
       (\<forall>p \<in> D. \<exists>r \<in> ran (rows s (shareID S priv)). rowFor p r)"
  let ?Q = "\<lambda>e' s. (e \<noteq> None \<longrightarrow> e' \<noteq> None) \<and> metaOk (tcModel (shTc S)) ok view priv pub s \<and>
       answering R0 iv accepted (rows s (shareID S priv)) \<and>
       (e' = None \<longrightarrow> (\<forall>p \<in> dn \<union> fst ` set (pk # ps). \<exists>r \<in> ran (rows s (shareID S priv)). rowFor p r))"
  let ?cr = "\<lambda>f. CreateReceivedFileViaInvitation ((tcModel (shTc S))\<lparr>mdShouldForceRestore := f\<rparr>) c (fst pk)
      (ivInvitationID iv) accepted (if accepted then snd pk else []) (ivInviterPublicKey iv)"
  have create: "ensures (?I dn) (?cr f) (\<lambda>_. ?I (insert (fst pk) dn)) (?I dn)" for f
  proof (rule ensures_obs [where obs = rows])
    fix R
    note cr = received_create [OF share_envD(1) [OF assms, of f], unfolded metaID_force, of R c "fst pk"
        "ivInvitationID iv" accepted "if accepted then snd pk else []" "ivInviterPublicKey iv"]
    show "ensures (\<lambda>s. ?I dn s \<and> rows s = R) (?cr f) (\<lambda>_. ?I (insert (fst pk) dn)) (?I dn)"
    proof (rule ensuresI)
      fix s r s' assume s: "?I dn s \<and> rows s = R" "?cr f s = (Inr r, s')"
      then have a: "receivedAfter (R (shareID S priv)) (rows s' (shareID S priv)) (fst pk) (ivInvitationID iv) accepted
          (if accepted then snd pk else []) (ivInviterPublicKey iv)" "metaOk (tcModel (shTc S)) ok view priv pub s'"
        using ensuresD [OF cr _ s(2)] by simp_all
      have "answering R0 iv accepted (R (shareID S priv))" using s(1) by auto
      note st = answering_step [OF this a(1)]
      have R: "rows s = R" "\<forall>p \<in> dn. \<exists>r \<in> ran (rows s (shareID S priv)). rowFor p r" using s(1) by blast+
      have "\<forall>p \<in> insert (fst pk) dn. \<exists>r \<in> ran (rows s' (shareID S priv)). rowFor p r"
        using st(2,3) R(2) unfolding R(1) by blast
      then show "?I (insert (fst pk) dn) s'" using a(2) st(1) by blast
    next
      fix s r s' assume s: "?I dn s \<and> rows s = R" "?cr f s = (Inl r, s')"
      then have "metaOk (tcModel (shTc S)) ok view priv pub s' \<and> rows s' (shareID S priv) = R (shareID S priv)"
        using ensures_errD [OF cr _ s(2)] by blast
      then show "?I dn s'" using s(1) by auto
    qed
  qed
  have index: "ensures (?I D) (whenE accepted (syncE (shTc S) (tsIndexItemAdded (tcSync (shTc S)) b p d))) (\<lambda>_. ?I D) (\<lambda>_. True)"
    for D b p d
  proof -
    have "keeps (?I D) (tsIndexItemAdded (tcSync (shTc S)) b p d)"
      using stable_keeps [OF share_envD(2) [OF assms],
          of "\<lambda>R. answering R0 iv accepted (R (shareID S priv)) \<and> (\<forall>p \<in> D. \<exists>r \<in> ran (R (shareID S priv)). rowFor p r)"] .
    then have "keeps (?I D) (whenE accepted (syncE (shTc S) (tsIndexItemAdded (tcSync (shTc S)) b p d)))"
      unfolding syncE_def fieldE_def by (intro keeps_intros)
    from ensures_keeps [OF this] show ?thesis by (rule ensures_weaken) simp_all
  qed
  have model: "ensures (?I dn) (GetModel (shTc S))
      (\<lambda>M s. (\<exists>f. M = (tcModel (shTc S))\<lparr>mdShouldForceRestore := f\<rparr>) \<and> ?I dn s) (\<lambda>_. True)"
    by (rule ensuresI) (auto simp: GetModel_def fieldE_def bindE_apply getE_def)
  show ?case
    unfolding receiveFiles.simps
  proof (rule ensures_bind_fact [OF model], elim exE, hypsubst)
    fix M f
    have t: "ensures (?I dn) (tryE (?cr f)) (\<lambda>r. ?I (if isl r then dn else insert (fst pk) dn)) (\<lambda>_. True)"
      by (rule ensures_weaken [OF ensures_try [OF create]]) (auto split: sum.splits)
    show "ensures (?I dn) (bindE (tryE (?cr f)) (\<lambda>r. case r of
         Inl e' \<Rightarrow> receiveFiles S c iv accepted ps (Some (composeErr e e'))
       | Inr f \<Rightarrow>
           thenE (whenE accepted (syncE (shTc S) (tsIndexItemAdded (tcSync (shTc S)) (rfBucket f) (rfPath f) (rfDbID f))))
             (receiveFiles S c iv accepted ps e))) ?Q (\<lambda>_. True)"
    proof (rule ensures_bind [OF t], rule ensures_case_sum)
      fix r :: "string + receivedFileSchema" and e' assume "r = Inl e'"
      then show "ensures (?I (if isl r then dn else insert (fst pk) dn))
          (receiveFiles S c iv accepted ps (Some (composeErr e e'))) ?Q (\<lambda>_. True)"
        by (simp only: sum.disc if_True) (rule ensures_weaken [OF Cons.IH], auto)
    next
      fix r :: "string + receivedFileSchema" and x assume "r = Inr x"
      then show "ensures (?I (if isl r then dn else insert (fst pk) dn))
          (thenE (whenE accepted (syncE (shTc S) (tsIndexItemAdded (tcSync (shTc S)) (rfBucket x) (rfPath x) (rfDbID x))))
             (receiveFiles S c iv accepted ps e)) ?Q (\<lambda>_. True)"
        by (simp only: sum.disc if_False)
          (rule ensures_then [OF index], rule ensures_weaken [OF Cons.IH [of "insert (fst pk) dn"]], auto)
    qed
  qed
qed (auto intro!: ensures_ret)

definition answer :: "'s shareDeps \<Rightarrow> ctx \<Rightarrow> invitation \<Rightarrow> bool \<Rightarrow> ('s, invitation) eff" where
  "answer S c iv accept =
     (if accept then AcceptSharedFilesInvitation S c iv else RejectSharedFilesInvitation S c iv)"

lemma answer_rows:
  assumes "share_env S ok view priv pub rows" "metaOk (tcModel (shTc S)) ok view priv pub s"
    and "answer S c iv accept s = (Inr iv', s')"
  shows "metaOk (tcModel (shTc S)) ok view priv pub s'"
    "answering (rows s (shareID S priv)) iv accept (rows s' (shareID S priv))"
    "\<forall>p \<in> set (ivItemPaths iv). \<exists>r \<in> ran (rows s' (shareID S priv)). rowFor p r"
    "ivStatus iv = sPENDING" "iv' = iv\<lparr>ivStatus := (if accept then sACCEPTED else sREJECTED)\<rparr>"
proof -
  have st: "ivStatus iv = sPENDING" "iv' = iv\<lparr>ivStatus := (if accept then sACCEPTED else sREJECTED)\<rparr>"
    and cr: "createReceivedFiles S c iv accept s = (Inr (), s')"
    using assms(3) by (auto simp: answer_def AcceptSharedFilesInvitation_def RejectSharedFilesInvitation_def
        thenE_def bindE_eq_Inr split: if_splits)
  have l: "length (ivItemPaths iv) = length (ivKeys iv)"
    and rf: "receiveFiles S c iv accept (zip (ivItemPaths iv) (ivKeys iv)) None s = (Inr None, s')"
    using cr by (auto simp: createReceivedFiles_def bindE_eq_Inr split: if_splits option.splits)
  let ?d = "shareID S priv"
  have "metaOk (tcModel (shTc S)) ok view priv pub s \<and>
      answering (rows s ?d) iv accept (rows s ?d) \<and> (\<forall>p \<in> {}. \<exists>r \<in> ran (rows s ?d). rowFor p r)"
    using assms(2) by (simp add: answering_def)
  note r = ensuresD [OF receive_keeps [OF assms(1)] this rf]
  have "fst ` set (zip (ivItemPaths iv) (ivKeys iv)) = set (ivItemPaths iv)"
    using l by (metis list.set_map map_fst_zip)
  then show "metaOk (tcModel (shTc S)) ok view priv pub s'"
    "answering (rows s ?d) iv accept (rows s' ?d)"
    "\<forall>p \<in> set (ivItemPaths iv). \<exists>r \<in> ran (rows s' ?d). rowFor p r"
    using r by simp_all
  show "ivStatus iv = sPENDING" "iv' = iv\<lparr>ivStatus := (if accept then sACCEPTED else sREJECTED)\<rparr>"
    by (rule st)+
qed

lemma mapE_nth:
  "mapE f xs s = (Inr ys, s') \<Longrightarrow> k < length xs \<Longrightarrow> length ys = length xs \<and> (\<exists>t t'. f (xs ! k) t = (Inr (ys ! k), t'))"
proof (induction xs arbitrary: ys s k)
  case (Cons x xs)
  then obtain y zs t where y: "f x s = (Inr y, t)" "mapE f xs t = (Inr zs, s')" "ys = y # zs"
    by (auto simp: bindE_eq_Inr)
  show ?case
  proof (cases k)
    case 0
    have "length zs = length xs" using y(2) Cons.IH [of t zs 0] by (cases xs) (auto simp: retE_def)
    then show ?thesis using y 0 by auto
  next
    case (Suc j)
    then show ?thesis using Cons.IH [OF y(2), of j] Cons.prems(2) y by auto
  qed
qed simp

lemma fsmap_status:
  assumes "\<exists>r \<in> set fs. rfInvitationId r = i" "\<forall>r \<in> set fs. rfInvitationId r = i \<longrightarrow> rfAccepted r = a"
  shows "statusOf (fsmap fs i) = (if a then sACCEPTED else sREJECTED)"
proof -
  have "fsmap fs i \<noteq> None"
    using assms(1) by (auto simp: fsmap_def map_of_eq_None_iff image_iff)
  then obtain r where r: "fsmap fs i = Some r" by blast
  then have "r \<in> set fs" "rfInvitationId r = i"
    unfolding fsmap_def by (auto dest: map_of_SomeD)
  then show ?thesis using assms(2) r by (simp add: statusOf_def)
qed

lemma answered_status:
  assumes "answering R0 iv accept R" "\<forall>r \<in> ran R0. rfInvitationId r \<noteq> ivInvitationID iv"
    and "set fs = {x \<in> ran R. rfInvitationId x \<in> ids}" "ivInvitationID iv \<in> ids"
  shows "statusOf (fsmap fs (ivInvitationID iv)) =
    (if R = R0 then sPENDING else if accept then sACCEPTED else sREJECTED)"
proof (cases "R = R0")
  case True
  then have "fsmap fs (ivInvitationID iv) = None"
    using assms(2,3) by (auto simp: fsmap_def map_of_eq_None_iff)
  then show ?thesis using True by (simp add: statusOf_def)
next
  case False
  then obtain i where "R i \<noteq> R0 i" by blast
  then obtain r where r: "R i = Some r" "R0 i \<noteq> Some r"
    using assms(1) unfolding answering_def by (metis option.exhaust)
  then have "r \<in> ran R" "rfInvitationId r = ivInvitationID iv"
    using assms(1) unfolding answering_def by (auto intro: ranI)
  moreover have "rfAccepted x = accept" if "x \<in> ran R" "rfInvitationId x = ivInvitationID iv" for x
    using assms(1,2) that unfolding answering_def ran_def by blast
  ultimately have "statusOf (fsmap fs (ivInvitationID iv)) = (if accept then sACCEPTED else sREJECTED)"
    using assms(3,4) by (intro fsmap_status) auto
  then show ?thesis using False by simp
qed

text \<open>The notification a message with an invitation becomes.\<close>

definition invitationNote ::
  "mailMessage \<Rightarrow> invitationStatus \<Rightarrow> bytes \<Rightarrow> bytes \<Rightarrow> bytes \<Rightarrow> fullPath list \<Rightarrow> bytes list \<Rightarrow> notification" where
  "invitationNote msg st p inviter invitee paths keys =
     (let i = \<lparr> ivInviterPublicKey = hexEncode inviter, ivInviteePublicKey = hexEncode invitee,
            ivInvitationID = mmID msg, ivStatus = st, ivItemPaths = paths, ivKeys = keys \<rparr> in
      (newNotification msg p nINVITATION)\<lparr>ntInvitationValue := i, ntRelatedObject := RelInvitation i\<rparr>)"

lemma notification_invitation:
  assumes "mlOpen S msg = Inr (invitationMessage inviter invitee paths keys)" "list_all pathAscii paths"
  shows "notificationOf S c fm msg t = (Inr (invitationNote msg (statusOf (fm (mmID msg)))
    (invitationMessage inviter invitee paths keys) inviter invitee paths keys), t)"
proof -
  have b: "unmarshalBody (invitationMessage inviter invitee paths keys) = Inr \<lparr> mbType = nINVITATION,
      mbBody = marshalInvitation \<lparr> ivInviterPublicKey = hexEncode inviter, ivInviteePublicKey = hexEncode invitee,
        ivInvitationID = [], ivStatus = sPENDING, ivItemPaths = paths, ivKeys = keys \<rparr> \<rparr>"
    unfolding invitationMessage_def by (rule unmarshal_marshalBody) (simp add: int64_def nINVITATION_def)
  have i: "unmarshalInvitation (marshalInvitation \<lparr> ivInviterPublicKey = hexEncode inviter,
        ivInviteePublicKey = hexEncode invitee, ivInvitationID = [], ivStatus = sPENDING, ivItemPaths = paths,
        ivKeys = keys \<rparr>) = Inr \<lparr> ivInviterPublicKey = hexEncode inviter,
        ivInviteePublicKey = hexEncode invitee, ivInvitationID = [], ivStatus = sPENDING, ivItemPaths = paths,
        ivKeys = keys \<rparr>"
    by (rule unmarshal_marshalInvitation) (use assms(2) in \<open>simp_all add: int64_def sPENDING_def\<close>)
  show ?thesis
    by (simp add: notificationOf_def bindE_apply assms(1) b i invitationNote_def Let_def)
qed

text \<open>
  C4. The messages \<open>ShareFilesViaPublicKey\<close> sends come back from the mailbox as the invitation that was
  sent.  If answering it, the first time, added a row to the received files, which it does when a file
  of the invitation was not received before, every later notification of it says accepted (or
  rejected), and answering it again is refused.  If it added none, as when every file had been received
  through another invitation, the notification still says pending.
\<close>

theorem invitation_status:
  assumes "share_env S ok view priv pub rows" "metaOk (tcModel (shTc S)) ok view priv pub s"
    and "\<forall>r \<in> ran (rows s (shareID S priv)). rfInvitationId r \<noteq> ivInvitationID iv"
    and "(if accept then AcceptSharedFilesInvitation S c iv else RejectSharedFilesInvitation S c iv) s = (Inr iv', s1)"
    and "parseMessage S c' msgs s1 = (Inr ns, s2)" "k < length msgs" "mmID (msgs ! k) = ivInvitationID iv"
    and "mlOpen S (msgs ! k) = Inr (invitationMessage inviter invitee paths keys)" "list_all pathAscii paths"
  defines "n \<equiv> ntInvitationValue (ns ! k)" and "added \<equiv> rows s1 (shareID S priv) \<noteq> rows s (shareID S priv)"
  shows "n = \<lparr> ivInviterPublicKey = hexEncode inviter, ivInviteePublicKey = hexEncode invitee,
      ivInvitationID = ivInvitationID iv, 
      ivStatus = (if \<not> added then sPENDING else if accept then sACCEPTED else sREJECTED),
      ivItemPaths = paths, ivKeys = keys \<rparr> \<and>
    ((\<exists>p \<in> set (ivItemPaths iv). \<forall>r \<in> ran (rows s (shareID S priv)). \<not> rowFor p r) \<longrightarrow> added) \<and>
    (added \<longrightarrow>
       AcceptSharedFilesInvitation S c n s2 =
         (Inl (if accept then errInvitationAlreadyAccepted else errInvitationNotPending), s2) \<and>
       RejectSharedFilesInvitation S c n s2 =
         (Inl (if accept then errInvitationNotPending else errInvitationAlreadyRejected), s2))"
proof -
  let ?d = "shareID S priv" and ?id = "ivInvitationID iv"
  have "answer S c iv accept s = (Inr iv', s1)" using assms(4) by (cases accept) (simp_all add: answer_def)
  note a = answer_rows [OF assms(1,2) this]
  have st: "statusOf (fsmap fs ?id) = (if \<not> added then sPENDING else if accept then sACCEPTED else sREJECTED)"
    if "set fs = {x \<in> ran (rows s1 ?d). rfInvitationId x \<in> set (map mmID msgs)}" for fs
  proof -
    have "?id \<in> set (map mmID msgs)" using assms(6,7) by (metis length_map nth_map nth_mem)
    from answered_status [OF a(2) assms(3) that this] show ?thesis by (simp add: added_def)
  qed
  obtain fs t M where fs: "FindReceivedFilesByIds M c' (map mmID msgs) s1 = (Inr fs, t)"
    and M: "\<exists>f. M = (tcModel (shTc S))\<lparr>mdShouldForceRestore := f\<rparr>"
    and ns: "mapE (notificationOf S c' (fsmap fs)) msgs t = (Inr ns, s2)"
    using assms(5) by (auto simp: parseMessage_def bindE_eq_Inr GetModel_def fieldE_def getE_def)
  obtain f where f: "M = (tcModel (shTc S))\<lparr>mdShouldForceRestore := f\<rparr>" using M by blast
  have ids: "map mmID msgs \<noteq> []" using assms(6) by auto
  have "set fs = {x \<in> ran (rows s1 ?d). rfInvitationId x \<in> set (map mmID msgs)}"
    using ensuresD [OF received_by_ids [OF share_envD(1) [OF assms(1), of f] ids, unfolded metaID_force]
        conjI [OF a(1) refl] fs [unfolded f]] .
  note st = st [OF this]
  have "ns ! k = invitationNote (msgs ! k) (statusOf (fsmap fs (mmID (msgs ! k))))
      (invitationMessage inviter invitee paths keys) inviter invitee paths keys"
    using mapE_nth [OF ns assms(6)] by (simp add: notification_invitation [OF assms(8,9)])
  with st have n: "n = \<lparr> ivInviterPublicKey = hexEncode inviter, ivInviteePublicKey = hexEncode invitee,
      ivInvitationID = ?id, ivStatus = (if \<not> added then sPENDING else if accept then sACCEPTED else sREJECTED),
      ivItemPaths = paths, ivKeys = keys \<rparr>"
    by (simp add: n_def assms(7) invitationNote_def Let_def)
  moreover have "added" if "\<exists>p \<in> set (ivItemPaths iv). \<forall>r \<in> ran (rows s ?d). \<not> rowFor p r"
    using that a(3) unfolding added_def by metis
  ultimately show ?thesis
    by (auto simp: AcceptSharedFilesInvitation_def RejectSharedFilesInvitation_def sACCEPTED_def sREJECTED_def sPENDING_def)
qed

lemma received_world_force:
  "received_world (M\<lparr>mdShouldForceRestore := f\<rparr>) ok view priv pub rows = received_world M ok view priv pub rows"
  by (simp add: received_world_def meta_world_def)

lemma memShare_env: "share_env memShare ModelMem.memOk mwStore ''priv'' ''pub'' memReceived"
  unfolding share_env_def received_world_force memTc_simps
  using memModel_received by (auto simp: stable_def)

definition demoInvitation :: invitation where
  "demoInvitation = \<lparr> ivInviterPublicKey = hexEncode ''alice'', ivInviteePublicKey = hexEncode ''bob'',
     ivInvitationID = ''m'', ivStatus = sPENDING, ivItemPaths = [sharedPath], ivKeys = [''k''] \<rparr>"

definition demoMail :: mailMessage where
  "demoMail = \<lparr> mmID = ''m'', mmBody = invitationMessage ''alice'' ''bob'' [sharedPath] [''k''], mmCreatedAt = 0,
     mmReadAt = 0 \<rparr>"

lemma parse_invitation_mail:
  assumes "\<not> isl (fst (FindReceivedFilesByIds (memModel\<lparr>mdShouldForceRestore := False\<rparr>) background [mmID m] s))"
    and "\<not> cfShouldForceRestore (mcFields s)" "mlOpen memShare m = Inr (invitationMessage inviter invitee paths keys)"
    and "list_all pathAscii paths"
  shows "\<not> isl (fst (parseMessage memShare background [m] s))"
proof -
  obtain fs t where "FindReceivedFilesByIds (memModel\<lparr>mdShouldForceRestore := False\<rparr>) background [mmID m] s = (Inr fs, t)"
    using assms(1) by (metis prod.collapse sum.collapse(2))
  then show ?thesis
    using notification_invitation [OF assms(3,4)] assms(2)
    by (simp add: parseMessage_def GetModel_def fieldE_def getE_def bindE_apply)
qed

text \<open>The same file, shared once more.\<close>

definition demoInvitation2 :: invitation where
  "demoInvitation2 = demoInvitation\<lparr>ivInvitationID := ''n''\<rparr>"

definition demoMail2 :: mailMessage where
  "demoMail2 = demoMail\<lparr>mmID := ''n''\<rparr>"

definition demoAnswered :: memDaemon where
  "demoAnswered = snd (AcceptSharedFilesInvitation memShare background demoInvitation memDaemon0)"

definition demoAnswered2 :: memDaemon where
  "demoAnswered2 = snd (AcceptSharedFilesInvitation memShare background demoInvitation2 demoAnswered)"

lemma demo_answers:
  "\<exists>v. AcceptSharedFilesInvitation memShare background demoInvitation memDaemon0 = (Inr v, demoAnswered)"
  "\<exists>v. AcceptSharedFilesInvitation memShare background demoInvitation2 demoAnswered = (Inr v, demoAnswered2)"
proof -
  have "\<not> isl (fst (AcceptSharedFilesInvitation memShare background demoInvitation memDaemon0))"
    "\<not> isl (fst (AcceptSharedFilesInvitation memShare background demoInvitation2 demoAnswered))"
    unfolding demoAnswered_def by code_simp+
  then show "\<exists>v. AcceptSharedFilesInvitation memShare background demoInvitation memDaemon0 = (Inr v, demoAnswered)"
    "\<exists>v. AcceptSharedFilesInvitation memShare background demoInvitation2 demoAnswered = (Inr v, demoAnswered2)"
    unfolding demoAnswered_def demoAnswered2_def by (metis prod.collapse sum.collapse(2))+
qed

lemma demo_parsed:
  "\<exists>ns t. parseMessage memShare background [demoMail] demoAnswered = (Inr ns, t)"
  "\<exists>ns t. parseMessage memShare background [demoMail2] demoAnswered2 = (Inr ns, t)"
proof -
  have o: "mlOpen memShare m = Inr (invitationMessage ''alice'' ''bob'' [sharedPath] [''k''])" if "m = demoMail \<or> m = demoMail2" for m
    using that by (auto simp: memShare_def demoMail_def demoMail2_def)
  have p: "list_all pathAscii [sharedPath]" by code_simp
  have "\<not> isl (fst (FindReceivedFilesByIds (memModel\<lparr>mdShouldForceRestore := False\<rparr>) background [''m''] demoAnswered))"
    "\<not> cfShouldForceRestore (mcFields demoAnswered)"
    "\<not> isl (fst (FindReceivedFilesByIds (memModel\<lparr>mdShouldForceRestore := False\<rparr>) background [''n''] demoAnswered2))"
    "\<not> cfShouldForceRestore (mcFields demoAnswered2)"
    unfolding demoAnswered2_def demoAnswered_def by code_simp+
  then have "\<not> isl (fst (parseMessage memShare background [demoMail] demoAnswered))"
    "\<not> isl (fst (parseMessage memShare background [demoMail2] demoAnswered2))"
    using parse_invitation_mail [OF _ _ o p] by (simp_all add: demoMail_def demoMail2_def)
  then show "\<exists>ns t. parseMessage memShare background [demoMail] demoAnswered = (Inr ns, t)"
    "\<exists>ns t. parseMessage memShare background [demoMail2] demoAnswered2 = (Inr ns, t)"
    by (metis prod.collapse sum.collapse(2))+
qed

lemma demo_rows:
  "memReceived memDaemon0 d = Map.empty"
  "memReceived demoAnswered2 (shareID memShare ''priv'') = memReceived demoAnswered (shareID memShare ''priv'')"
  "\<forall>r \<in> ran (memReceived demoAnswered (shareID memShare ''priv'')). rfInvitationId r = ''m''"
proof -
  show "memReceived memDaemon0 d = Map.empty"
    by (simp add: memDaemon0_def memWorld.extend_def emptyWorld_def rowMap_def)
  have "mwReceived demoAnswered2 (shareID memShare ''priv'') = mwReceived demoAnswered (shareID memShare ''priv'')"
    "list_all (\<lambda>r. rfInvitationId r = ''m'') (mwReceived demoAnswered (shareID memShare ''priv''))"
    unfolding demoAnswered2_def demoAnswered_def by code_simp+
  then show "memReceived demoAnswered2 (shareID memShare ''priv'') = memReceived demoAnswered (shareID memShare ''priv'')"
    "\<forall>r \<in> ran (memReceived demoAnswered (shareID memShare ''priv'')). rfInvitationId r = ''m''"
    using map_of_SomeD by (simp add: rowMap_def, fastforce simp: list_all_iff rowMap_def ran_def)
qed

theorem invitation_status_witness:
  "ivStatus (ntInvitationValue (projr (fst (parseMessage memShare background [demoMail] demoAnswered)) ! 0)) = sACCEPTED \<and>
   ivStatus (ntInvitationValue (projr (fst (parseMessage memShare background [demoMail2] demoAnswered2)) ! 0)) = sPENDING"
proof -
  obtain v v2 where v: "AcceptSharedFilesInvitation memShare background demoInvitation memDaemon0 = (Inr v, demoAnswered)"
    and v2: "AcceptSharedFilesInvitation memShare background demoInvitation2 demoAnswered = (Inr v2, demoAnswered2)"
    using demo_answers by blast
  obtain ns t ns2 t2 where n: "parseMessage memShare background [demoMail] demoAnswered = (Inr ns, t)"
    and n2: "parseMessage memShare background [demoMail2] demoAnswered2 = (Inr ns2, t2)"
    using demo_parsed by blast
  have o: "mlOpen memShare m = Inr (invitationMessage ''alice'' ''bob'' [sharedPath] [''k''])" if "m = demoMail \<or> m = demoMail2" for m
    using that by (auto simp: memShare_def demoMail_def demoMail2_def)
  have p: "list_all pathAscii [sharedPath]" by code_simp
  have id: "ivInvitationID demoInvitation = ''m''" "ivInvitationID demoInvitation2 = ''n''"
    "mmID demoMail = ''m''" "mmID demoMail2 = ''n''" "ivItemPaths demoInvitation = [sharedPath]"
    by (simp_all add: demoInvitation_def demoInvitation2_def demoMail_def demoMail2_def)
  have m0: "metaOk (tcModel (shTc memShare)) ModelMem.memOk mwStore ''priv'' ''pub'' memDaemon0"
    using daemonOk0 by simp
  have "answer memShare background demoInvitation True memDaemon0 = (Inr v, demoAnswered)"
    using v by (simp add: answer_def)
  note m1 = answer_rows(1) [OF memShare_env m0 this]
  note s = invitation_status [OF memShare_env, where c' = background and k = 0 and accept = True]
  have "ivStatus (ntInvitationValue (ns ! 0)) = sACCEPTED"
    using s [of memDaemon0 demoInvitation background v demoAnswered "[demoMail]" ns t] m0 v n o p
    by (simp add: id demo_rows(1))
  moreover have "ivStatus (ntInvitationValue (ns2 ! 0)) = sPENDING"
    using s [of demoAnswered demoInvitation2 background v2 demoAnswered2 "[demoMail2]" ns2 t2] m1 v2 n2 o p demo_rows(2,3)
    by (simp add: id)
  ultimately show ?thesis by (simp add: n n2)
qed

text \<open>
  C20. Anyone can stop the daemon: a message whose body is an invitation that does not parse leaves the
  handler of the mailbox without notifications, and it sends the first of them, which panics.
\<close>

theorem malformed_invitation_panics:
  assumes "mlList S c i 1 s = (Inr [msg], s1)" "mlOpen S msg = Inr (marshalBody nINVITATION body)"
    and "unmarshalInvitation body = Inl (Err e)"
  shows "\<exists>p s'. mailLoop S c (NewMessage i # es) s = (Inl (Panic p), s')"
proof -
  have b: "unmarshalBody (marshalBody nINVITATION body) = Inr \<lparr> mbType = nINVITATION, mbBody = body \<rparr>"
    by (rule unmarshal_marshalBody) (simp add: int64_def nINVITATION_def)
  have "fst (notificationOf S c fm msg t) = Inl (Err e)" for fm t
    by (simp add: notificationOf_def bindE_apply assms(2,3) b Let_def)
  then have no: "\<not> (\<exists>n t'. notificationOf S c fm msg t = (Inr n, t'))" for fm t by (metis fst_conv sum.distinct(2))
  have "\<nexists>ns t. parseMessage S c [msg] s1 = (Inr ns, t)"
    using no by (auto simp: parseMessage_def bindE_eq_Inr)
  then obtain x t where "parseMessage S c [msg] s1 = (Inl x, t)"
    by (cases "parseMessage S c [msg] s1"; cases "fst (parseMessage S c [msg] s1)") auto
  then show ?thesis
    by (cases x) (auto simp: handleMailEvent_def bindE_apply tryE_apply assms(1))
qed

theorem malformed_invitation_panics_witness:
  "\<exists>p s'. mailLoop memShare background [NewMessage ''m'']
     (memDaemon0\<lparr>mcMail := [\<lparr> mmID = ''m'', mmBody = marshalBody nINVITATION ''x'', mmCreatedAt = 0, mmReadAt = 0 \<rparr>]\<rparr>)
       = (Inl (Panic p), s')"
proof -
  have u: "unmarshalInvitation ''x'' = Inl (Err ''json: invalid syntax'')" by code_simp
  show ?thesis
    by (rule malformed_invitation_panics [OF _ _ u,
          where msg = "\<lparr> mmID = ''m'', mmBody = marshalBody nINVITATION ''x'', mmCreatedAt = 0, mmReadAt = 0 \<rparr>"])
      (simp_all add: memShare_def)
qed

end
