(* ===== verification/Listener.thy ===== *)
theory Listener
  imports ClientMem
begin

text \<open>
  The listeners of the textile client, \<open>core/textile/listener.go\<close> and \<open>event_handler.go\<close>: the loop that
  turns changes of a bucket's mirror thread into restores of the bucket, and how a listener is
  closed.  The subscription of the hub is a parameter; what the \<open>select\<close> of the loop receives, in
  order, is a list.
\<close>

subsection \<open>event_handler.go\<close>

datatype listenAction = ActionCreate | ActionSave | ActionDelete | ActionOther

record listenEvent =
  leErr :: "string option"
  leAction :: listenAction

definition restorer_OnCreate :: "'s tcSyncI \<Rightarrow> bucketData \<Rightarrow> ('s, unit) eff" where
  "restorer_OnCreate Y bd = tsBucketRestore Y (bdName bd)"

definition restorer_OnRemove :: "'s tcSyncI \<Rightarrow> bucketData \<Rightarrow> ('s, unit) eff" where
  "restorer_OnRemove Y bd = tsBucketRestore Y (bdName bd)"

definition restorer_OnSave :: "'s tcSyncI \<Rightarrow> bucketData \<Rightarrow> ('s, unit) eff" where
  "restorer_OnSave Y bd = tsBucketRestore Y (bdName bd)"

text \<open>The switch of the loop on the action, for the one handler of \<open>addListener\<close>.\<close>

definition handleListenEvent :: "'s tcSyncI \<Rightarrow> bucketData \<Rightarrow> listenEvent \<Rightarrow> ('s, unit) eff" where
  "handleListenEvent Y bd ev = (case leAction ev of
       ActionCreate \<Rightarrow> restorer_OnCreate Y bd
     | ActionSave \<Rightarrow> restorer_OnSave Y bd
     | ActionDelete \<Rightarrow> restorer_OnRemove Y bd
     | ActionOther \<Rightarrow> retE ())"

subsection \<open>listener.go\<close>

datatype listenInput = LEvent listenEvent | LShutdown

text \<open>\<open>lnListen\<close> subscribes to a database of the hub.\<close>

record 's listenDeps =
  lnTc :: "'s tcDeps"
  lnListen :: "ctx \<Rightarrow> bytes \<Rightarrow> ('s, listenInput list) eff"

definition tc_Listen :: "'s listenDeps \<Rightarrow> ctx \<Rightarrow> bytes \<Rightarrow> ('s, listenInput list) eff" where
  "tc_Listen L c dbID =
     bindE (liftE (ParseDbIDFromString (tdCast (tcThreads (lnTc L))) dbID)) (\<lambda>db1.
     bindE (GetThreadContext (tcThreads (lnTc L)) None c [] db1 True) (\<lambda>newCtx. lnListen L newCtx db1))"

text \<open>The end of the list: the loop waits for more.\<close>

fun listenLoop :: "'s tcDeps \<Rightarrow> bucketData \<Rightarrow> listenInput list \<Rightarrow> ('s, unit) eff" where
  "listenLoop T bd [] = retE ()"
| "listenLoop T bd (LShutdown # ins) = retE ()"
| "listenLoop T bd (LEvent ev # ins) =
     (case leErr ev of Some e \<Rightarrow> failE (Err e) | None \<Rightarrow>
       bindE (fieldE T cfRunning) (\<lambda>up.
         if \<not> up then retE ()
         else thenE (handleListenEvent (tcSync T) bd ev) (listenLoop T bd ins)))"

text \<open>The error of looking the bucket up is dropped: it is nil then.\<close>

definition listener_Listen :: "'s listenDeps \<Rightarrow> ctx \<Rightarrow> bytes \<Rightarrow> ('s, unit) eff" where
  "listener_Listen L c bucketSlug =
     (let T = lnTc L; noMirror = failE (Err ''Bucket does not have a linked mirror bucket'') in
      bindE (GetModel T) (\<lambda>M.
      bindE (tryE (FindBucket M c bucketSlug)) (\<lambda>found. case found of
          Inl _ \<Rightarrow> noMirror
        | Inr row \<Rightarrow>
            bindE (mirrorOf row) (\<lambda>m.
              if mbRemoteDbID m = [] then noMirror
              else
                bindE (GetBucket T c bucketSlug None) (\<lambda>b.
                bindE (tc_Listen L c (mbRemoteDbID m)) (\<lambda>ins. listenLoop T (GetData b) ins))))))"

text \<open>The goroutine of \<open>addListener\<close>: a listener that returns an error is taken off the map.\<close>

definition spawnedListener :: "'s listenDeps \<Rightarrow> ctx \<Rightarrow> bytes \<Rightarrow> ('s, unit) eff" where
  "spawnedListener L c bucketSlug =
     bindE (tryE (listener_Listen L c bucketSlug)) (\<lambda>r.
       case r of Inr _ \<Rightarrow> retE ()
       | Inl _ \<Rightarrow> setE (lnTc L) (\<lambda>f. f\<lparr>cfDbListeners := removeAll bucketSlug (cfDbListeners f)\<rparr>))"

subsection \<open>What the loop does\<close>

definition known :: "listenEvent \<Rightarrow> bool" where
  "known ev \<longleftrightarrow> leErr ev = None \<and> leAction ev \<noteq> ActionOther"

text \<open>Every change asks for a restore of the bucket, one after the other, until the listener is closed.\<close>

lemma listenLoop_restores:
  assumes "\<And>s r s'. cfRunning (tcGet T s) \<Longrightarrow> tsBucketRestore (tcSync T) (bdName bd) s = (r, s') \<Longrightarrow> cfRunning (tcGet T s')"
  shows "list_all known evs \<Longrightarrow> cfRunning (tcGet T s) \<Longrightarrow>
    listenLoop T bd (map LEvent evs @ LShutdown # ins) s = forE evs (\<lambda>_. tsBucketRestore (tcSync T) (bdName bd)) s"
proof (induction evs arbitrary: s)
  case (Cons ev evs)
  have h: "handleListenEvent (tcSync T) bd ev = tsBucketRestore (tcSync T) (bdName bd)"
    using Cons.prems(1) by (cases "leAction ev")
      (simp_all add: handleListenEvent_def known_def restorer_OnCreate_def restorer_OnSave_def restorer_OnRemove_def)
  obtain r t where r: "tsBucketRestore (tcSync T) (bdName bd) s = (r, t)" by fastforce
  show ?case
    using Cons.IH [of t] Cons.prems assms [OF Cons.prems(2) r] r
    by (cases r) (simp_all add: h known_def bindE_apply thenE_apply fieldE_def)
qed simp

subsection \<open>Closing a listener\<close>

text \<open>
  \<open>Listen\<close> before its loop, at its \<open>select\<close>, in a handler, and returned; \<open>Close\<close> before its test of
  \<open>isRunning\<close>, at its send on the unbuffered channel, and returned.
\<close>

datatype listenPc = LnSubscribing | LnSelect | LnHandler | LnReturned

datatype closePc = ClIdle | ClSending | ClDone

record lnState =
  lnLoop :: listenPc
  lnClose :: closePc
  lnIsRunning :: bool

definition ln_start :: lnState where
  "ln_start = \<lparr> lnLoop = LnSubscribing, lnClose = ClIdle, lnIsRunning = False \<rparr>"

inductive ln_step :: "lnState \<Rightarrow> lnState \<Rightarrow> bool" where
  subscribe: "lnLoop l = LnSubscribing \<Longrightarrow> ln_step l (l\<lparr>lnLoop := LnSelect, lnIsRunning := True\<rparr>)"
| no_mirror: "lnLoop l = LnSubscribing \<Longrightarrow> ln_step l (l\<lparr>lnLoop := LnReturned\<rparr>)"
| event: "lnLoop l = LnSelect \<Longrightarrow> ln_step l (l\<lparr>lnLoop := LnHandler\<rparr>)"
| handled: "lnLoop l = LnHandler \<Longrightarrow> ln_step l (l\<lparr>lnLoop := LnSelect\<rparr>)"
| ends: "lnLoop l = LnSelect \<Longrightarrow> ln_step l (l\<lparr>lnLoop := LnReturned, lnIsRunning := False\<rparr>)"
| close_running: "lnClose l = ClIdle \<Longrightarrow> lnIsRunning l \<Longrightarrow> ln_step l (l\<lparr>lnClose := ClSending\<rparr>)"
| close_not_running: "lnClose l = ClIdle \<Longrightarrow> \<not> lnIsRunning l \<Longrightarrow> ln_step l (l\<lparr>lnClose := ClDone\<rparr>)"
| received: "lnClose l = ClSending \<Longrightarrow> lnLoop l = LnSelect \<Longrightarrow>
    ln_step l (l\<lparr>lnClose := ClDone, lnLoop := LnReturned, lnIsRunning := False\<rparr>)"

inductive ln_reach :: "lnState \<Rightarrow> lnState \<Rightarrow> bool" where
  here: "ln_reach l l"
| step: "ln_reach l l' \<Longrightarrow> ln_step l' l'' \<Longrightarrow> ln_reach l l''"

inductive_cases ln_stepE: "ln_step l l'"

lemma ln_step_then: "ln_reach l' l'' \<Longrightarrow> ln_step l l' \<Longrightarrow> ln_reach l l''"
proof (induction l' l'' rule: ln_reach.induct)
  case (here l')
  then show ?case using ln_reach.step [OF ln_reach.here] by blast
qed (blast intro: ln_reach.step)

lemma running_loop: "ln_reach ln_start l \<Longrightarrow> lnIsRunning l \<longleftrightarrow> lnLoop l \<in> {LnSelect, LnHandler}"
proof (induction ln_start l rule: ln_reach.induct)
  case here
  then show ?case by (simp add: ln_start_def)
next
  case (step l' l'')
  then show ?case by (auto elim!: ln_stepE)
qed

lemma returned_stuck: "ln_reach l l' \<Longrightarrow> lnLoop l = LnReturned \<Longrightarrow> lnClose l = ClSending \<Longrightarrow> l' = l"
  by (induction rule: ln_reach.induct) (auto elim!: ln_stepE)

lemma close_can_end:
  assumes "ln_reach ln_start l" "lnClose l = ClSending" "lnLoop l \<noteq> LnReturned"
  shows "\<exists>l'. ln_reach l l' \<and> lnClose l' = ClDone"
proof -
  have sel: "\<exists>l'. ln_reach m l' \<and> lnClose l' = ClDone" if "lnClose m = ClSending" "lnLoop m = LnSelect" for m
    using ln_reach.step [OF ln_reach.here ln_step.received [OF that]] by auto
  show ?thesis
  proof (cases "lnLoop l")
    case LnSubscribing
    let ?m = "l\<lparr>lnLoop := LnSelect, lnIsRunning := True\<rparr>"
    obtain l' where "ln_reach ?m l'" "lnClose l' = ClDone" using sel [of ?m] assms(2) by auto
    then show ?thesis using ln_step_then [OF _ ln_step.subscribe [OF LnSubscribing]] by blast
  next
    case LnHandler
    let ?m = "l\<lparr>lnLoop := LnSelect\<rparr>"
    obtain l' where "ln_reach ?m l'" "lnClose l' = ClDone" using sel [of ?m] assms(2) by auto
    then show ?thesis using ln_step_then [OF _ ln_step.handled [OF LnHandler]] by blast
  qed (use sel assms in auto)
qed

text \<open>
  A \<open>Close\<close> that has seen the listener running returns only if the loop receives it: it can as long
  as the loop has not returned, and once the loop has returned by itself, which it can in between, it is
  blocked for ever, and \<open>closeListeners\<close> with it.
\<close>

theorem close_returns_iff:
  "(\<forall>l. ln_reach ln_start l \<and> lnClose l = ClSending \<longrightarrow>
      ((\<exists>l'. ln_reach l l' \<and> lnClose l' = ClDone) \<longleftrightarrow> lnLoop l \<noteq> LnReturned)) \<and>
   (\<exists>l. ln_reach ln_start l \<and> lnClose l = ClSending \<and> lnLoop l = LnReturned)"
proof
  show "\<forall>l. ln_reach ln_start l \<and> lnClose l = ClSending \<longrightarrow>
      ((\<exists>l'. ln_reach l l' \<and> lnClose l' = ClDone) \<longleftrightarrow> lnLoop l \<noteq> LnReturned)"
    using close_can_end returned_stuck by fastforce
  let ?a = "ln_start\<lparr>lnLoop := LnSelect, lnIsRunning := True\<rparr>"
  let ?b = "?a\<lparr>lnClose := ClSending\<rparr>"
  let ?c = "?b\<lparr>lnLoop := LnReturned, lnIsRunning := False\<rparr>"
  have "ln_step ln_start ?a" using ln_step.subscribe [of ln_start] by (simp add: ln_start_def)
  moreover have "ln_step ?a ?b" using ln_step.close_running [of ?a] by (simp add: ln_start_def)
  moreover have "ln_step ?b ?c" using ln_step.ends [of ?b] by simp
  ultimately have "ln_reach ln_start ?c"
    using ln_reach.step ln_reach.here by blast
  then show "\<exists>l. ln_reach ln_start l \<and> lnClose l = ClSending \<and> lnLoop l = LnReturned" by fastforce
qed

theorem close_returns_iff_witness:
  "let l = \<lparr> lnLoop = LnSelect, lnClose = ClSending, lnIsRunning = True \<rparr> in
     \<exists>l'. ln_reach l l' \<and> lnClose l' = ClDone"
proof -
  let ?a = "ln_start\<lparr>lnLoop := LnSelect, lnIsRunning := True\<rparr>"
  let ?b = "?a\<lparr>lnClose := ClSending\<rparr>"
  have "ln_step ln_start ?a" using ln_step.subscribe [of ln_start] by (simp add: ln_start_def)
  moreover have "ln_step ?a ?b" using ln_step.close_running [of ?a] by (simp add: ln_start_def)
  ultimately have "ln_reach ln_start ?b" using ln_reach.step ln_reach.here by blast
  then have "\<exists>l'. ln_reach ?b l' \<and> lnClose l' = ClDone"
    using conjunct1 [OF close_returns_iff, rule_format, of ?b] by simp
  then show ?thesis by (simp add: ln_start_def Let_def)
qed

end
