(* ===== verification/ClientLoop.thy ===== *)
theory ClientLoop
  imports Listener SyncLoop
begin

text \<open>
  The loop of the textile client and what other goroutines ask of it: \<open>start\<close>, \<open>Shutdown\<close> and
  \<open>RemoveKeys\<close> of \<open>core/textile/client.go\<close>, and \<open>DeleteKeypair\<close> of the services.

  \<open>start\<close> runs health checks, at first and then after a time or when the key pair was deleted, until
  its context is done or \<open>Shutdown\<close> is received.  The channels are unbuffered: a send is one step
  with its receive.  The first health check starts the synchronizer, and each initialises the client
  when it is not, which succeeds only if there is a key pair when it begins.  What a health check
  does beyond that is in \<open>TextileClient\<close>.

  \<open>Shutdown\<close> goes on once it is received: it closes the listeners one after the other, then the two
  connections, either of which can fail, and then shuts the synchronizer down.  The listeners move as
  in \<open>Listener\<close> and the synchronizer as in \<open>SyncLoop\<close>, both at any time.  \<open>DeleteAccount\<close>, which shuts
  the synchronizer down by itself, is no step here.
\<close>

text \<open>
  The loop: a health check that begins (\<open>True\<close>: the first one), one that is about to end (the last
  flag: its initialisation succeeds), the send on \<open>Ready\<close>, the test of \<open>isRunning\<close>, the \<open>select\<close>.
\<close>

datatype clientPc = CheckStart bool | CheckEnd bool bool | SendingReady | LoopTop | InSelect | Returned

text \<open>\<open>Shutdown\<close>: before it is received, at what follows, at its end, and returned with an error before it.\<close>

datatype shutdownPc = ShutIdle | ShutSending | ShutListeners | ShutBuckets | ShutThreads | ShutSync | ShutDone | ShutFailed

text \<open>
  \<open>DeleteKeypair\<close>: in \<open>RemoveKeys\<close> before the send on \<open>keypairDeleted\<close> is received and after it, the
  deletion of the pair, the end.
\<close>

datatype deletePc = DelIdle | DelSending | DelThreads | DelKeyPair | DelDone

record clientState =
  csLoop :: clientPc
  csShut :: shutdownPc
  csDelete :: deletePc
  csRunning :: bool
  csInitialized :: bool
  csKeyPair :: bool
  csCtxDone :: bool
  csClosed :: bool
  csListeners :: "lnState list"
  csSync :: "loops option"

definition client_start :: clientState where
  "client_start = \<lparr> csLoop = CheckStart True, csShut = ShutIdle, csDelete = DelIdle, csRunning = True,
     csInitialized = False, csKeyPair = False, csCtxDone = False, csClosed = False, csListeners = [], csSync = None \<rparr>"

text \<open>What \<open>Shutdown\<close> does first once it is received: it resets the flags and closes the channels.\<close>

definition closeChannels :: "clientState \<Rightarrow> clientState" where
  "closeChannels c = c\<lparr>csShut := ShutListeners, csRunning := False, csInitialized := False, csClosed := True\<rparr>"

definition removeKeysBegin :: "clientState \<Rightarrow> clientState" where
  "removeKeysBegin c = c\<lparr>csDelete := DelSending, csInitialized := False\<rparr>"

text \<open>\<open>initializeSync\<close>, at the first health check.\<close>

definition withSync :: "clientState \<Rightarrow> clientState" where
  "withSync c = c\<lparr>csSync := Some (case csSync c of None \<Rightarrow> loops_Start | Some l \<Rightarrow> l)\<rparr>"

text \<open>
  \<open>listener\<close> is a step of a listener, those of its \<open>Close\<close> only for the one that is being closed;
  \<open>sync\<close> is one of the synchronizer, that of a client that calls its \<open>Shutdown\<close> only in \<open>Shutdown\<close>,
  and its context is the client's.
\<close>

inductive client_step :: "clientState \<Rightarrow> clientState \<Rightarrow> bool" where
  check_key: "csLoop c = CheckStart first \<Longrightarrow> \<not> csInitialized c \<Longrightarrow> csKeyPair c \<Longrightarrow>
    client_step c ((withSync c)\<lparr>csLoop := CheckEnd first True\<rparr>)"
| check_no_init: "csLoop c = CheckStart first \<Longrightarrow> client_step c ((withSync c)\<lparr>csLoop := CheckEnd first False\<rparr>)"
| check_end: "csLoop c = CheckEnd first ok \<Longrightarrow>
    client_step c (c\<lparr>csLoop := (if first then SendingReady else LoopTop),
      csInitialized := csInitialized c \<or> ok\<rparr>)"
| ready: "csLoop c = SendingReady \<Longrightarrow> client_step c (c\<lparr>csLoop := LoopTop\<rparr>)"
| top: "csLoop c = LoopTop \<Longrightarrow> csRunning c \<Longrightarrow> client_step c (c\<lparr>csLoop := InSelect\<rparr>)"
| top_stopped: "csLoop c = LoopTop \<Longrightarrow> \<not> csRunning c \<Longrightarrow> client_step c (c\<lparr>csLoop := Returned\<rparr>)"
| timer: "csLoop c = InSelect \<Longrightarrow> client_step c (c\<lparr>csLoop := CheckStart False\<rparr>)"
| ctx_done: "csLoop c = InSelect \<Longrightarrow> csCtxDone c \<Longrightarrow> client_step c (c\<lparr>csLoop := Returned\<rparr>)"
| cancel: "client_step c (c\<lparr>csCtxDone := True\<rparr>)"
| shutdown_call: "csShut c = ShutIdle \<Longrightarrow> client_step c (c\<lparr>csShut := ShutSending\<rparr>)"
| shutdown_received: "csShut c = ShutSending \<Longrightarrow> csLoop c = InSelect \<Longrightarrow>
    client_step c (closeChannels (c\<lparr>csLoop := Returned\<rparr>))"
| listener_added: "csRunning c \<Longrightarrow> csInitialized c \<Longrightarrow>
    client_step c (c\<lparr>csListeners := csListeners c @ [ln_start]\<rparr>)"
| listener: "i < length (csListeners c) \<Longrightarrow> ln_step (csListeners c ! i) l \<Longrightarrow>
    lnClose l = lnClose (csListeners c ! i) \<or> csShut c = ShutListeners \<and> i = 0 \<Longrightarrow>
    client_step c (c\<lparr>csListeners := (csListeners c)[i := l]\<rparr>)"
| listener_closed: "csShut c = ShutListeners \<Longrightarrow> csListeners c = l # ls \<Longrightarrow> lnClose l = ClDone \<Longrightarrow>
    client_step c (c\<lparr>csListeners := ls\<rparr>)"
| listeners_closed: "csShut c = ShutListeners \<Longrightarrow> csListeners c = [] \<Longrightarrow> client_step c (c\<lparr>csShut := ShutBuckets\<rparr>)"
| buckets_closed: "csShut c = ShutBuckets \<Longrightarrow> client_step c (c\<lparr>csShut := ShutThreads\<rparr>)"
| buckets_fail: "csShut c = ShutBuckets \<Longrightarrow> client_step c (c\<lparr>csShut := ShutFailed\<rparr>)"
| threads_closed: "csShut c = ShutThreads \<Longrightarrow> client_step c (c\<lparr>csShut := ShutSync\<rparr>)"
| threads_fail: "csShut c = ShutThreads \<Longrightarrow> client_step c (c\<lparr>csShut := ShutFailed\<rparr>)"
| sync: "csSync c = Some l \<Longrightarrow> loop_step l l' \<Longrightarrow> shPc l' Client = shPc l Client \<or> csShut c = ShutSync \<Longrightarrow>
    cancelled l' = cancelled l \<or> csCtxDone c \<Longrightarrow> client_step c (c\<lparr>csSync := Some l'\<rparr>)"
| sync_down: "csShut c = ShutSync \<Longrightarrow> csSync c = Some l \<Longrightarrow> shPc l Client = Closed \<Longrightarrow>
    client_step c (c\<lparr>csShut := ShutDone\<rparr>)"
| new_key: "csDelete c = DelIdle \<Longrightarrow> client_step c (c\<lparr>csKeyPair := True\<rparr>)"
| delete_call: "csDelete c = DelIdle \<Longrightarrow> csInitialized c \<Longrightarrow> client_step c (removeKeysBegin c)"
| deleted_received: "csDelete c = DelSending \<Longrightarrow> csLoop c = InSelect \<Longrightarrow> \<not> csClosed c \<Longrightarrow>
    client_step c (c\<lparr>csDelete := DelThreads, csLoop := CheckStart False\<rparr>)"
| threads_deleted: "csDelete c = DelThreads \<Longrightarrow> client_step c (c\<lparr>csDelete := DelKeyPair\<rparr>)"
| threads_kept: "csDelete c = DelThreads \<Longrightarrow> client_step c (c\<lparr>csDelete := DelIdle\<rparr>)"
| key_deleted: "csDelete c = DelKeyPair \<Longrightarrow> client_step c (c\<lparr>csDelete := DelDone, csKeyPair := False\<rparr>)"
| delete_returns: "csDelete c = DelDone \<Longrightarrow> client_step c (c\<lparr>csDelete := DelIdle\<rparr>)"

inductive client_reach :: "clientState \<Rightarrow> clientState \<Rightarrow> bool" where
  refl: "client_reach c c"
| step: "client_reach c c' \<Longrightarrow> client_step c' c'' \<Longrightarrow> client_reach c c''"

lemma client_reach_trans: "client_reach b c \<Longrightarrow> client_reach a b \<Longrightarrow> client_reach a c"
  by (induction rule: client_reach.induct) (auto intro: client_reach.step)

lemma client_reach_first: "client_step a b \<Longrightarrow> client_reach b c \<Longrightarrow> client_reach a c"
  using client_reach_trans client_reach.step [OF client_reach.refl] by blast

subsection \<open>Shutting down\<close>

text \<open>\<open>Shutdown\<close> was received by the loop.\<close>

definition received :: "clientState \<Rightarrow> bool" where
  "received c \<longleftrightarrow> csShut c \<noteq> ShutIdle \<and> csShut c \<noteq> ShutSending"

text \<open>
  The client runs until \<open>Shutdown\<close> is received, by a loop that then returns; only one listener is
  closed at a time; the synchronizer is there after the first health check, and only the end of
  \<open>Shutdown\<close> calls its \<open>Shutdown\<close>.
\<close>

definition client_ok :: "clientState \<Rightarrow> bool" where
  "client_ok c \<longleftrightarrow> (csRunning c \<longleftrightarrow> \<not> received c) \<and> (csClosed c \<longleftrightarrow> received c) \<and>
     (received c \<longrightarrow> csLoop c = Returned) \<and>
     (\<forall>l \<in> set (csListeners c). ln_reach ln_start l) \<and>
     (\<forall>l \<in> set (if csShut c = ShutListeners then tl (csListeners c) else csListeners c). lnClose l = ClIdle) \<and>
     (csLoop c = CheckStart True \<or> csSync c \<noteq> None) \<and>
     (\<forall>l. csSync c = Some l \<longrightarrow> loops_reach loops_Start l \<and>
        (shPc l Client = Idle \<or> csShut c = ShutSync \<or> csShut c = ShutDone))"

lemma client_okD:
  assumes "client_ok c"
  shows "csRunning c \<longleftrightarrow> \<not> received c" "csClosed c \<longleftrightarrow> received c" "received c \<Longrightarrow> csLoop c = Returned"
    "l \<in> set (csListeners c) \<Longrightarrow> ln_reach ln_start l"
    "csShut c \<noteq> ShutListeners \<Longrightarrow> l \<in> set (csListeners c) \<Longrightarrow> lnClose l = ClIdle"
    "l \<in> set (tl (csListeners c)) \<Longrightarrow> lnClose l = ClIdle"
    "csLoop c = CheckStart True \<or> csSync c \<noteq> None"
    "csSync c = Some m \<Longrightarrow> loops_reach loops_Start m"
    "csSync c = Some m \<Longrightarrow> shPc m Client = Idle \<or> csShut c = ShutSync \<or> csShut c = ShutDone"
  using assms unfolding client_ok_def by (cases "csListeners c"; auto split: if_splits)+

lemma client_ok_listener:
  assumes "client_ok c" "i < length (csListeners c)" "ln_step (csListeners c ! i) l"
    and "lnClose l = lnClose (csListeners c ! i) \<or> csShut c = ShutListeners \<and> i = 0"
  shows "client_ok (c\<lparr>csListeners := (csListeners c)[i := l]\<rparr>)"
proof -
  let ?ls = "csListeners c"
  have r: "ln_reach ln_start l" using client_okD(4) [OF assms(1) nth_mem [OF assms(2)]] ln_reach.step assms(3) by blast
  have "\<forall>x \<in> set (?ls[i := l]). ln_reach ln_start x"
    using r client_okD(4) [OF assms(1)] set_update_subset_insert by fast
  moreover have "lnClose x = ClIdle" if "x \<in> set (if csShut c = ShutListeners then tl (?ls[i := l]) else ?ls[i := l])" for x
  proof (cases "csShut c = ShutListeners")
    case False
    then have "lnClose l = ClIdle" using assms(4) client_okD(5) [OF assms(1) False nth_mem [OF assms(2)]] by simp
    then show ?thesis
      using that False client_okD(5) [OF assms(1) False] set_update_subset_insert [of ?ls i l] by auto
  next
    case True
    obtain h t where ls: "?ls = h # t" using assms(2) by (cases ?ls) auto
    show ?thesis
    proof (cases i)
      case 0
      then show ?thesis using that True ls client_okD(6) [OF assms(1)] by simp
    next
      case (Suc k)
      then have k: "k < length t" "?ls ! i = t ! k" using assms(2) ls by simp_all
      then have "lnClose l = ClIdle" using assms(4) Suc client_okD(6) [OF assms(1), of "t ! k"] ls by simp
      then show ?thesis
        using that True Suc ls client_okD(6) [OF assms(1)] set_update_subset_insert [of t k l] by auto
    qed
  qed
  ultimately show ?thesis using assms(1) unfolding client_ok_def received_def by simp
qed

lemma client_step_ok: "client_step c c' \<Longrightarrow> client_ok c \<Longrightarrow> client_ok c'"
proof (induction rule: client_step.induct)
  case (listener i c l)
  then show ?case using client_ok_listener by blast
next
  case (sync c l l')
  then have "loops_reach loops_Start l'" "shPc l' Client = Idle \<or> csShut c = ShutSync \<or> csShut c = ShutDone"
    using client_okD(8,9) [OF sync.prems sync.hyps(1)] loops_reach.step by auto
  then show ?case using sync.prems unfolding client_ok_def received_def by simp
next
  case (listener_closed c l ls)
  then show ?case by (cases ls) (auto simp: client_ok_def received_def)
next
  case (shutdown_received c)
  then show ?case
    by (cases "csListeners c") (auto simp: client_ok_def received_def closeChannels_def)
qed (auto simp: client_ok_def received_def withSync_def removeKeysBegin_def ln_start_def loops_Start_def
      intro: ln_reach.here loops_reach.refl split: option.splits if_splits)

lemma client_reach_ok: "client_reach c c' \<Longrightarrow> client_ok c \<Longrightarrow> client_ok c'"
  by (induction rule: client_reach.induct) (auto intro: client_step_ok)

lemma client_start_ok: "client_ok client_start"
  by (simp add: client_ok_def client_start_def received_def)

text \<open>
  What keeps \<open>Shutdown\<close> from its end for ever: it has failed; the loop returned before it was received;
  the listener that is being closed has returned; a loop of the synchronizer runs \<open>Shutdown\<close> itself.
\<close>

definition lostListener :: "clientState \<Rightarrow> bool" where
  "lostListener c \<longleftrightarrow> (\<exists>l \<in> set (csListeners c). lnClose l = ClSending \<and> lnLoop l = LnReturned)"

definition syncStuck :: "clientState \<Rightarrow> bool" where
  "syncStuck c \<longleftrightarrow> (\<exists>l q. csSync c = Some l \<and> lpPc l q = InShutdown)"

definition blocked :: "clientState \<Rightarrow> bool" where
  "blocked c \<longleftrightarrow> csShut c = ShutFailed \<or> (\<not> received c \<and> csLoop c = Returned) \<or> lostListener c \<or> syncStuck c"

lemma blocked_step:
  assumes "client_step c c'" "client_ok c" "blocked c" "csShut c \<noteq> ShutDone"
  shows "blocked c' \<and> csShut c' \<noteq> ShutDone"
proof -
  consider (failed) "csShut c = ShutFailed" | (returned) "\<not> received c" "csLoop c = Returned"
    | (lost) "lostListener c" | (stuck) "syncStuck c" using assms(3) unfolding blocked_def by blast
  then show ?thesis
  proof cases
    case failed
    from assms(1) have "csShut c' = ShutFailed" by cases (use failed in \<open>auto simp: withSync_def removeKeysBegin_def\<close>)
    then show ?thesis by (simp add: blocked_def)
  next
    case returned
    from assms(1) have "\<not> received c' \<and> csLoop c' = Returned"
      by cases (use returned in \<open>auto simp: received_def withSync_def removeKeysBegin_def\<close>)
    then show ?thesis by (auto simp: blocked_def received_def)
  next
    case lost
    then obtain h where h: "h \<in> set (csListeners c)" "lnClose h = ClSending" "lnLoop h = LnReturned"
      unfolding lostListener_def by blast
    have s: "csShut c = ShutListeners" using client_okD(5) [OF assms(2), of h] h by auto
    obtain ls where ls: "csListeners c = h # ls"
    proof (cases "csListeners c")
      case (Cons a ls)
      then show ?thesis using that h client_okD(6) [OF assms(2), of h] by auto
    qed (use h in simp)
    have r: "received c" using s by (simp add: received_def)
    from assms(1) have "csShut c' = ShutListeners \<and> h \<in> set (csListeners c')"
    proof cases
      case (listener i l)
      have "i \<noteq> 0"
      proof
        assume "i = 0"
        then have "ln_step h l" using listener ls by simp
        then show False using h(2,3) by (auto elim: ln_stepE)
      qed
      then show ?thesis using listener ls s by (cases i) auto
    qed (use s ls h r client_okD(1) [OF assms(2)] client_okD(3) [OF assms(2)] in
        \<open>auto simp: withSync_def removeKeysBegin_def\<close>)
    then show ?thesis using h by (auto simp: blocked_def lostListener_def)
  next
    case stuck
    then obtain l q where l: "csSync c = Some l" "lpPc l q = InShutdown" unfolding syncStuck_def by blast
    have ok: "loops_ok l" using loops_reach_ok [OF client_okD(8) [OF assms(2) l(1)] loops_ok_start] .
    note nc = inShutdown_not_closed [OF ok l(2)]
    from assms(1) have "syncStuck c' \<and> csShut c' \<noteq> ShutDone"
    proof cases
      case (sync m l')
      then show ?thesis using l inShutdown_step [OF _ ok l(2)] assms(4) by (auto simp: syncStuck_def)
    qed (use l nc assms(4) in \<open>auto simp: syncStuck_def withSync_def closeChannels_def removeKeysBegin_def\<close>)
    then show ?thesis by (auto simp: blocked_def)
  qed
qed

lemma blocked_reach:
  "client_reach c c' \<Longrightarrow> client_ok c \<Longrightarrow> blocked c \<Longrightarrow> csShut c \<noteq> ShutDone \<Longrightarrow> blocked c' \<and> csShut c' \<noteq> ShutDone"
  by (induction rule: client_reach.induct) (auto dest: blocked_step client_reach_ok)

text \<open>The way to the end, from its last part to its first.\<close>

definition ends :: "clientState \<Rightarrow> bool" where
  "ends c \<longleftrightarrow> (\<exists>c'. client_reach c c' \<and> csShut c' = ShutDone)"

lemma ends_after: "client_reach c c' \<Longrightarrow> ends c' \<Longrightarrow> ends c"
  unfolding ends_def using client_reach_trans by blast

lemma ends_step: "client_step c c' \<Longrightarrow> ends c' \<Longrightarrow> ends c"
  unfolding ends_def using client_reach_first by blast

lemma sync_reach:
  "loops_reach l l' \<Longrightarrow> csShut c = ShutSync \<Longrightarrow> csSync c = Some l \<Longrightarrow> cancelled l' = cancelled l \<Longrightarrow>
   client_reach c (c\<lparr>csSync := Some l'\<rparr>)"
proof (induction rule: loops_reach.induct)
  case (refl l)
  then show ?case by (metis client_reach.refl clientState.surjective clientState.update_convs(10))
next
  case (step l l' l'')
  have "cancelled l' = cancelled l"
    using cancelled_reach [OF step.hyps(1)] cancelled_reach [OF loops_reach_step [OF step.hyps(2)]] step.prems(3) by blast
  then have "client_reach c (c\<lparr>csSync := Some l'\<rparr>)" using step.IH step.prems by blast
  moreover have "client_step (c\<lparr>csSync := Some l'\<rparr>) (c\<lparr>csSync := Some l''\<rparr>)"
    using client_step.sync [of "c\<lparr>csSync := Some l'\<rparr>" l' l''] step.hyps(2) step.prems \<open>cancelled l' = cancelled l\<close> by simp
  ultimately show ?case by (rule client_reach.step)
qed

lemma ends_sync:
  assumes "csShut c = ShutSync" "csSync c = Some l" "loops_reach loops_Start l" "\<not> syncStuck c"
  shows "ends c"
proof -
  have ns: "\<And>q. lpPc l q \<noteq> InShutdown" using assms(2,4) unfolding syncStuck_def by blast
  define m where "m = (if shPc l Client = Idle then setShut Client SendTask l else l)"
  have m: "loops_reach l m" "shPc m Client \<noteq> Idle" "cancelled m = cancelled l" "\<And>q. lpPc m q \<noteq> InShutdown"
    using loops_reach_step [OF loop_step.call [of l]] ns loops_reach.refl by (auto simp: m_def)
  obtain l' where l': "loops_reach m l'" "shPc l' Client = Closed" "cancelled l' = cancelled m"
    using goal_called_client [OF loops_reach_trans [OF m(1) assms(3)] m(2,4)] unfolding goal_def by blast
  have "client_reach c (c\<lparr>csSync := Some l'\<rparr>)"
    using sync_reach [OF loops_reach_trans [OF l'(1) m(1)] assms(1,2)] m(3) l'(3) by simp
  moreover have "client_step (c\<lparr>csSync := Some l'\<rparr>) (c\<lparr>csSync := Some l', csShut := ShutDone\<rparr>)"
    using client_step.sync_down [of "c\<lparr>csSync := Some l'\<rparr>" l'] assms(1) l'(2) by simp
  ultimately show ?thesis unfolding ends_def using client_reach.step by fastforce
qed

lemma ends_connections:
  assumes "csShut c = ShutBuckets \<or> csShut c = ShutThreads \<or> csShut c = ShutSync"
    and "csSync c = Some l" "loops_reach loops_Start l" "\<not> syncStuck c"
  shows "ends c"
proof -
  have s: "ends (c\<lparr>csShut := ShutSync\<rparr>)"
    using assms by (intro ends_sync [of _ l]) (auto simp: syncStuck_def)
  have t: "ends (c\<lparr>csShut := ShutThreads\<rparr>)"
    using ends_step [OF client_step.threads_closed [of "c\<lparr>csShut := ShutThreads\<rparr>"]] s by simp
  have u: "c\<lparr>csShut := csShut c\<rparr> = c" by simp
  from assms(1) show ?thesis
  proof (elim disjE)
    assume "csShut c = ShutBuckets"
    then show ?thesis using ends_step [OF client_step.buckets_closed t] by blast
  next
    assume "csShut c = ShutThreads"
    then show ?thesis using ends_step [OF client_step.threads_closed s] by blast
  next
    assume "csShut c = ShutSync"
    then show ?thesis using s u by metis
  qed
qed

lemma listener_reach:
  "ln_reach l l' \<Longrightarrow> csShut c = ShutListeners \<Longrightarrow> csListeners c = l # ls \<Longrightarrow>
   client_reach c (c\<lparr>csListeners := l' # ls\<rparr>)"
proof (induction rule: ln_reach.induct)
  case (here l)
  then show ?case by (metis client_reach.refl clientState.surjective clientState.update_convs(9))
next
  case (step l l' l'')
  then have "client_reach c (c\<lparr>csListeners := l' # ls\<rparr>)" by blast
  moreover have "client_step (c\<lparr>csListeners := l' # ls\<rparr>) (c\<lparr>csListeners := l'' # ls\<rparr>)"
    using client_step.listener [of 0 "c\<lparr>csListeners := l' # ls\<rparr>" l''] step.hyps(2) step.prems by simp
  ultimately show ?case by (rule client_reach.step)
qed

lemma close_reaches:
  assumes "ln_reach ln_start l" "\<not> (lnClose l = ClSending \<and> lnLoop l = LnReturned)"
  shows "\<exists>l'. ln_reach l l' \<and> lnClose l' = ClDone"
proof (cases "lnClose l")
  case ClIdle
  show ?thesis
  proof (cases "lnIsRunning l")
    case True
    let ?m = "l\<lparr>lnClose := ClSending\<rparr>"
    note s = ln_step.close_running [OF ClIdle True]
    have "lnLoop ?m \<noteq> LnReturned" using running_loop [OF assms(1)] True by auto
    then obtain l' where "ln_reach ?m l'" "lnClose l' = ClDone"
      using close_can_end [OF ln_reach.step [OF assms(1) s]] by auto
    then show ?thesis using ln_step_then [OF _ s] by blast
  next
    case False
    show ?thesis using ln_reach.step [OF ln_reach.here ln_step.close_not_running [OF ClIdle False]] by fastforce
  qed
next
  case ClSending
  then show ?thesis using close_can_end [OF assms(1)] assms(2) by blast
next
  case ClDone
  then show ?thesis using ln_reach.here by blast
qed

lemma ends_listeners:
  assumes "csSync c = Some l" "loops_reach loops_Start l"
  shows "csShut c = ShutListeners \<Longrightarrow> csListeners c = ls \<Longrightarrow> client_ok c \<Longrightarrow> \<not> lostListener c \<Longrightarrow> \<not> syncStuck c \<Longrightarrow> ends c"
  using assms
proof (induction ls arbitrary: c)
  case Nil
  have "ends (c\<lparr>csShut := ShutBuckets\<rparr>)"
    using Nil.prems by (intro ends_connections [of _ l]) (simp_all add: syncStuck_def)
  then show ?case using ends_step [OF client_step.listeners_closed] Nil.prems(1,2) by blast
next
  case (Cons h ls)
  have "ln_reach ln_start h" using client_okD(4) [OF Cons.prems(3)] Cons.prems(2) by simp
  moreover have "\<not> (lnClose h = ClSending \<and> lnLoop h = LnReturned)"
    using Cons.prems(2,4) by (auto simp: lostListener_def)
  ultimately obtain h' where h': "ln_reach h h'" "lnClose h' = ClDone" using close_reaches by blast
  let ?c = "c\<lparr>csListeners := h' # ls\<rparr>" and ?c' = "c\<lparr>csListeners := ls\<rparr>"
  have r: "client_reach c ?c" using listener_reach [OF h'(1) Cons.prems(1,2)] .
  have "client_step ?c (?c\<lparr>csListeners := ls\<rparr>)"
    by (rule client_step.listener_closed) (use Cons.prems(1) h'(2) in auto)
  then have s: "client_step ?c ?c'" by simp
  have ok: "client_ok ?c'" using client_step_ok [OF s client_reach_ok [OF r Cons.prems(3)]] .
  have "lnClose x = ClIdle" if "x \<in> set ls" for x
    using client_okD(6) [OF Cons.prems(3), of x] that Cons.prems(2) by simp
  then have "\<not> lostListener ?c'" by (auto simp: lostListener_def)
  then have "ends ?c'" using Cons.IH [of ?c'] Cons.prems ok by (simp add: syncStuck_def)
  then show ?case using ends_after [OF r ends_step [OF s]] by blast
qed

text \<open>The number of steps the loop is away from its \<open>select\<close>.\<close>

fun away :: "clientPc \<Rightarrow> nat" where
  "away InSelect = 0" | "away LoopTop = 1" | "away SendingReady = 2" | "away (CheckEnd _ _) = 3"
| "away (CheckStart _) = 4" | "away Returned = 0"

lemma closer_to_select:
  assumes "client_ok c" "\<not> received c" "csLoop c \<noteq> Returned" "csLoop c \<noteq> InSelect" "\<not> syncStuck c"
  shows "\<exists>c'. client_step c c' \<and> away (csLoop c') < away (csLoop c) \<and> csLoop c' \<noteq> Returned \<and>
    csShut c' = csShut c \<and> \<not> syncStuck c'"
proof (cases "csLoop c")
  case (CheckStart first)
  have "\<not> syncStuck (withSync c)" using assms(5)
    by (auto simp: syncStuck_def withSync_def loops_Start_def split: option.splits)
  then show ?thesis using client_step.check_no_init [OF CheckStart] CheckStart
    by (intro exI [of _ "(withSync c)\<lparr>csLoop := CheckEnd first False\<rparr>"]) (simp add: syncStuck_def withSync_def)
next
  case (CheckEnd first ok)
  then show ?thesis using client_step.check_end [OF CheckEnd] assms(5)
    by (intro exI [of _ "c\<lparr>csLoop := (if first then SendingReady else LoopTop), csInitialized := csInitialized c \<or> ok\<rparr>"])
      (auto simp: syncStuck_def)
next
  case SendingReady
  then show ?thesis using client_step.ready [OF SendingReady] assms(5)
    by (intro exI [of _ "c\<lparr>csLoop := LoopTop\<rparr>"]) (simp add: syncStuck_def)
next
  case LoopTop
  then show ?thesis using client_step.top [OF LoopTop] client_okD(1) [OF assms(1)] assms(2,5)
    by (intro exI [of _ "c\<lparr>csLoop := InSelect\<rparr>"]) (simp add: syncStuck_def)
qed (use assms in auto)

lemma reaches_select:
  "client_ok c \<Longrightarrow> \<not> received c \<Longrightarrow> csLoop c \<noteq> Returned \<Longrightarrow> \<not> syncStuck c \<Longrightarrow>
   \<exists>c'. client_reach c c' \<and> csLoop c' = InSelect \<and> csShut c' = csShut c \<and> \<not> syncStuck c'"
proof (induction "away (csLoop c)" arbitrary: c rule: less_induct)
  case less
  show ?case
  proof (cases "csLoop c = InSelect")
    case False
    then obtain c' where c: "client_step c c'" "away (csLoop c') < away (csLoop c)" "csLoop c' \<noteq> Returned"
        "csShut c' = csShut c" "\<not> syncStuck c'"
      using closer_to_select less.prems by blast
    moreover have "client_ok c'" using client_step_ok [OF c(1) less.prems(1)] .
    moreover have "\<not> received c'" using less.prems(2) c(4) by (simp add: received_def)
    ultimately show ?thesis using less.hyps [of c'] client_reach_first by metis
  qed (use less.prems client_reach.refl in auto)
qed

lemma ends_received:
  assumes "client_ok c" "\<not> blocked c" "received c"
  shows "ends c"
proof -
  note b = assms(2) [unfolded blocked_def]
  have "csLoop c = Returned" using client_okD(3) [OF assms(1,3)] .
  then obtain l where l: "csSync c = Some l" "loops_reach loops_Start l"
    using client_okD(7,8) [OF assms(1)] by auto
  show ?thesis
  proof (cases "csShut c")
    case ShutListeners
    then show ?thesis using ends_listeners [OF l ShutListeners _ assms(1)] b by blast
  next
    case ShutDone
    then show ?thesis unfolding ends_def using client_reach.refl by blast
  qed (use assms(3) b l ends_connections [of c l] in \<open>auto simp: received_def\<close>)
qed

lemma ends_not_received:
  assumes "client_ok c" "\<not> blocked c" "\<not> received c"
  shows "ends c"
proof -
  note b = assms(2) [unfolded blocked_def]
  obtain c1 where c1: "client_reach c c1" "csLoop c1 = InSelect" "csShut c1 = csShut c" "\<not> syncStuck c1"
    using reaches_select [OF assms(1,3)] b assms(3) by blast
  have n1: "\<not> received c1" using assms(3) c1(3) by (simp add: received_def)
  obtain c2 where c2: "client_reach c1 c2" "csLoop c2 = InSelect" "csShut c2 = ShutSending" "\<not> syncStuck c2"
  proof (cases "csShut c1")
    case ShutIdle
    from client_reach_first [OF client_step.shutdown_call [OF ShutIdle] client_reach.refl] c1(2,4) that
    show ?thesis by (fastforce simp: syncStuck_def)
  qed (use n1 c1 client_reach.refl that in \<open>auto simp: received_def\<close>)
  let ?d = "closeChannels (c2\<lparr>csLoop := Returned\<rparr>)"
  have ok2: "client_ok c2" using client_reach_ok [OF client_reach_trans [OF c2(1) c1(1)] assms(1)] .
  have s: "client_step c2 ?d" by (rule client_step.shutdown_received) (use c2 in auto)
  have ok: "client_ok ?d" using client_step_ok [OF s ok2] .
  have "lnClose x = ClIdle" if "x \<in> set (csListeners ?d)" for x
    using client_okD(5) [OF ok2, of x] that c2(3) by (simp add: closeChannels_def)
  then have "\<not> blocked ?d"
    using c2(4) by (auto simp: blocked_def lostListener_def syncStuck_def received_def closeChannels_def)
  then have "ends ?d" using ends_received [OF ok] by (simp add: received_def closeChannels_def)
  then show ?thesis using ends_after [OF client_reach_trans [OF c2(1) c1(1)] ends_step [OF s]] by blast
qed

text \<open>
  C39. \<open>Shutdown\<close> can still come to its end, with the listeners, both connections and the synchronizer closed,
  exactly as long as none of four things has happened: a connection failed to close, which ends it
  with an error; the loop returned, its context being done, before it received the signal, so that the
  first send blocks; the listener that is being closed returned after it was seen running, so that the
  send to it blocks; or a loop of the synchronizer has found its context done and runs the
  synchronizer's \<open>Shutdown\<close> itself, which then blocks for the client too.
\<close>

theorem client_shutdown_iff:
  assumes "client_reach client_start c"
  shows "(\<exists>c'. client_reach c c' \<and> csShut c' = ShutDone) \<longleftrightarrow> csShut c = ShutDone \<or>
    \<not> (csShut c = ShutFailed \<or>
       ((csShut c = ShutIdle \<or> csShut c = ShutSending) \<and> csLoop c = Returned) \<or>
       (\<exists>l \<in> set (csListeners c). lnClose l = ClSending \<and> lnLoop l = LnReturned) \<or>
       (\<exists>l q. csSync c = Some l \<and> lpPc l q = InShutdown))"
proof -
  have ok: "client_ok c" using client_reach_ok [OF assms client_start_ok] .
  have b: "blocked c \<longleftrightarrow> csShut c = ShutFailed \<or>
       ((csShut c = ShutIdle \<or> csShut c = ShutSending) \<and> csLoop c = Returned) \<or>
       (\<exists>l \<in> set (csListeners c). lnClose l = ClSending \<and> lnLoop l = LnReturned) \<or>
       (\<exists>l q. csSync c = Some l \<and> lpPc l q = InShutdown)"
    unfolding blocked_def received_def lostListener_def syncStuck_def by auto
  have "ends c \<longleftrightarrow> csShut c = ShutDone \<or> \<not> blocked c"
    using blocked_reach [OF _ ok] ends_received [OF ok] ends_not_received [OF ok] client_reach.refl
    unfolding ends_def by blast
  then show ?thesis unfolding ends_def b .
qed

text \<open>The context is done while the loop is in its \<open>select\<close>: at its first, and in a running synchronizer.\<close>

definition atSelect :: clientState where
  "atSelect = client_start\<lparr>csLoop := InSelect, csSync := Some loops_Start\<rparr>"

lemma reach_atSelect: "client_reach client_start atSelect"
proof -
  let ?c = "client_start\<lparr>csSync := Some loops_Start\<rparr>"
  have s1: "client_step client_start (?c\<lparr>csLoop := CheckEnd True False\<rparr>)"
    using client_step.check_no_init [of client_start True] by (simp add: client_start_def withSync_def)
  have s2: "client_step (?c\<lparr>csLoop := CheckEnd True False\<rparr>) (?c\<lparr>csLoop := SendingReady\<rparr>)"
    using client_step.check_end [of "?c\<lparr>csLoop := CheckEnd True False\<rparr>" True False] by (simp add: client_start_def)
  have s3: "client_step (?c\<lparr>csLoop := SendingReady\<rparr>) (?c\<lparr>csLoop := LoopTop\<rparr>)"
    using client_step.ready [of "?c\<lparr>csLoop := SendingReady\<rparr>"] by simp
  have s4: "client_step (?c\<lparr>csLoop := LoopTop\<rparr>) atSelect"
    using client_step.top [of "?c\<lparr>csLoop := LoopTop\<rparr>"] by (simp add: client_start_def atSelect_def)
  show ?thesis
    by (intro client_reach_first [OF s1] client_reach_first [OF s2] client_reach_first [OF s3] client_reach_first [OF s4]
        client_reach.refl)
qed

lemma atSelect_simps: "csShut atSelect = ShutIdle" "csListeners atSelect = []" "csSync atSelect = Some loops_Start"
  "csLoop atSelect = InSelect"
  by (simp_all add: atSelect_def client_start_def)

theorem client_shutdown_iff_witness:
  "(\<exists>c'. client_reach atSelect c' \<and> csShut c' = ShutDone) \<and>
   (\<exists>c. client_reach client_start c \<and> csLoop c = Returned \<and> \<not> (\<exists>c'. client_reach c c' \<and> csShut c' = ShutDone))"
proof
  show "\<exists>c'. client_reach atSelect c' \<and> csShut c' = ShutDone"
    using client_shutdown_iff [OF reach_atSelect] by (simp add: atSelect_simps loops_Start_def)
  let ?a = "atSelect\<lparr>csCtxDone := True\<rparr>" and ?b = "atSelect\<lparr>csCtxDone := True, csLoop := Returned\<rparr>"
  have s1: "client_step atSelect ?a" by (rule client_step.cancel)
  have s2: "client_step ?a ?b" using client_step.ctx_done [of ?a] by (simp add: atSelect_simps)
  have "client_reach client_start ?b" using client_reach.step [OF client_reach.step [OF reach_atSelect s1] s2] .
  from client_shutdown_iff [OF this] this
  show "\<exists>c. client_reach client_start c \<and> csLoop c = Returned \<and> \<not> (\<exists>c'. client_reach c c' \<and> csShut c' = ShutDone)"
    by (intro exI [of _ ?b]) (simp add: atSelect_simps)
qed

subsection \<open>Deleting the key pair\<close>

text \<open>
  A deletion of the key pair can complete with the client initialised again: \<open>RemoveKeys\<close> resets
  \<open>isInitialized\<close> and wakes the loop, whose health check initialises the client with the pair that is
  still stored, before the deletion removes it.  From then on every step but another deletion or a
  shutdown leaves the client initialised, although there is no pair.
\<close>

theorem delete_leaves_initialized:
  "\<exists>c. client_reach client_start c \<and> csDelete c = DelDone \<and> \<not> csKeyPair c \<and> csInitialized c \<and> csLoop c = InSelect \<and>
    (\<forall>c'. client_step c c' \<longrightarrow> csInitialized c')"
proof -
  let ?c = "\<lambda>l d i k. client_start\<lparr>csSync := Some loops_Start, csLoop := l, csDelete := d, csInitialized := i, csKeyPair := k\<rparr>"
  let ?k = "client_start\<lparr>csKeyPair := True\<rparr>"
  note loop = client_step.ready client_step.top
  have s: "client_step client_start ?k"
    "client_step ?k (?c (CheckEnd True True) DelIdle False True)"
    "client_step (?c (CheckEnd True True) DelIdle False True) (?c SendingReady DelIdle True True)"
    "client_step (?c SendingReady DelIdle True True) (?c LoopTop DelIdle True True)"
    "client_step (?c LoopTop DelIdle True True) (?c InSelect DelIdle True True)"
    "client_step (?c InSelect DelIdle True True) (?c InSelect DelSending False True)"
    "client_step (?c InSelect DelSending False True) (?c (CheckStart False) DelThreads False True)"
    "client_step (?c (CheckStart False) DelThreads False True) (?c (CheckEnd False True) DelThreads False True)"
    "client_step (?c (CheckEnd False True) DelThreads False True) (?c LoopTop DelThreads True True)"
    "client_step (?c LoopTop DelThreads True True) (?c InSelect DelThreads True True)"
    "client_step (?c InSelect DelThreads True True) (?c InSelect DelKeyPair True True)"
    "client_step (?c InSelect DelKeyPair True True) (?c InSelect DelDone True False)"
    using client_step.new_key [of client_start] client_step.check_key [of ?k True]
      client_step.check_end [of "?c (CheckEnd True True) DelIdle False True" True True]
      loop [of "?c SendingReady DelIdle True True"]
      loop [of "?c LoopTop DelIdle True True"] client_step.delete_call [of "?c InSelect DelIdle True True"]
      client_step.deleted_received [of "?c InSelect DelSending False True"]
      client_step.check_key [of "?c (CheckStart False) DelThreads False True" False]
      client_step.check_end [of "?c (CheckEnd False True) DelThreads False True" False True]
      loop [of "?c LoopTop DelThreads True True"] client_step.threads_deleted [of "?c InSelect DelThreads True True"]
      client_step.key_deleted [of "?c InSelect DelKeyPair True True"]
    by (simp_all add: client_start_def removeKeysBegin_def withSync_def)
  have "client_reach client_start (?c InSelect DelDone True False)"
    by (intro s [THEN client_reach_first] client_reach.refl)
  moreover have "client_step (?c InSelect DelDone True False) c' \<Longrightarrow> csInitialized c'" for c'
    by (erule client_step.cases) (auto simp: client_start_def closeChannels_def removeKeysBegin_def withSync_def)
  ultimately show ?thesis by (intro exI [of _ "?c InSelect DelDone True False"]) (auto simp: client_start_def)
qed

theorem delete_leaves_initialized_witness:
  "\<exists>c c'. client_reach client_start c \<and> \<not> csKeyPair c \<and> client_step c c' \<and> csInitialized c'"
  using delete_leaves_initialized client_step.cancel by blast

end
