(* ===== verification/Watcher.thy ===== *)
theory Watcher
  imports Bucket
begin

text \<open>
  The folder watcher: \<open>core/watcher/watcher.go\<close>, \<open>handler.go\<close>, \<open>options.go\<close> and \<open>blacklist.go\<close>.

  The polling watcher it wraps (\<open>radovskyb/watcher\<close>) is a parameter: \<open>wAdd\<close>, \<open>wAddRecursive\<close>,
  \<open>wClose\<close> and \<open>wStart\<close>, which returns when the polling ends.  What its channels deliver is a list of
  signals, in the order the loop receives them.  The loop ends the process on an error of the
  library; the end of the process is a \<open>Panic\<close>.
\<close>

text \<open>The part of \<open>os.FileInfo\<close> the handlers use.\<close>

record osInfo =
  oiName :: bytes
  oiIsDir :: bool

record 's watchHandler =
  hOnCreate :: "ctx \<Rightarrow> bytes \<Rightarrow> osInfo \<Rightarrow> ('s, unit) eff"
  hOnRemove :: "ctx \<Rightarrow> bytes \<Rightarrow> osInfo \<Rightarrow> ('s, unit) eff"
  hOnWrite :: "ctx \<Rightarrow> bytes \<Rightarrow> osInfo \<Rightarrow> ('s, unit) eff"
  hOnRename :: "ctx \<Rightarrow> bytes \<Rightarrow> osInfo \<Rightarrow> bytes \<Rightarrow> ('s, unit) eff"
  hOnMove :: "ctx \<Rightarrow> bytes \<Rightarrow> osInfo \<Rightarrow> bytes \<Rightarrow> ('s, unit) eff"

definition defaultWatcherHandler :: "'s watchHandler" where
  "defaultWatcherHandler =
     \<lparr> hOnCreate = \<lambda>_ _ _. retE (), hOnRemove = \<lambda>_ _ _. retE (), hOnWrite = \<lambda>_ _ _. retE (),
       hOnRename = \<lambda>_ _ _ _. retE (), hOnMove = \<lambda>_ _ _ _. retE () \<rparr>"

datatype watchOp = WCreate | WWrite | WRemove | WRename | WChmod | WMove

record watchEvent =
  weOp :: watchOp
  wePath :: bytes
  weOldPath :: bytes
  weInfo :: osInfo

record watcherFlags =
  fwStarted :: bool
  fwClosed :: bool

record 's watchDeps =
  wAdd :: "bytes \<Rightarrow> ('s, unit) eff"
  wAddRecursive :: "bytes \<Rightarrow> ('s, unit) eff"
  wClose :: "('s, unit) eff"
  wStart :: "('s, unit) eff"
  wHomeDir :: "string + bytes"
  wIsDir :: "'s \<Rightarrow> bytes \<Rightarrow> bool"
  wFlags :: "'s \<Rightarrow> watcherFlags"
  wSetFlags :: "(watcherFlags \<Rightarrow> watcherFlags) \<Rightarrow> 's \<Rightarrow> 's"
  wHandlers :: "'s watchHandler list"

subsection \<open>Creation\<close>

definition WithPaths :: "bytes list \<Rightarrow> bytes list \<Rightarrow> bytes list" where
  "WithPaths path paths = paths @ path"

definition expandHome :: "string + bytes \<Rightarrow> bytes \<Rightarrow> bytes" where
  "expandHome homeDir path = (case homeDir of Inl _ \<Rightarrow> path | Inr home \<Rightarrow> strReplaceAll path ''~'' home)"

definition ErrFolderPathNotFound :: string where
  "ErrFolderPathNotFound = ''could not find a folder path for watcher''"

definition watcher_New :: "'s watchDeps \<Rightarrow> bytes list \<Rightarrow> ('s, unit) eff" where
  "watcher_New W paths =
     thenE (forE paths (\<lambda>p.
         let path = expandHome (wHomeDir W) p in
         if path = [] then failE (Panic ErrFolderPathNotFound) else wAddRecursive W path))
       (modE (wSetFlags W (\<lambda>f. \<lparr> fwStarted = False, fwClosed = False \<rparr>)))"

definition RegisterHandler :: "'s watchHandler \<Rightarrow> 's watchDeps \<Rightarrow> 's watchDeps" where
  "RegisterHandler handler W = W\<lparr>wHandlers := wHandlers W @ [handler]\<rparr>"

definition AddFile :: "'s watchDeps \<Rightarrow> bytes \<Rightarrow> ('s, unit) eff" where
  "AddFile W path =
     bindE (getE (\<lambda>s. wIsDir W s path)) (\<lambda>dir.
       if dir then failE (Err (''unable to watch path '' @ path @ '' folder is not supporter'')) else wAdd W path)"

subsection \<open>Events\<close>

text \<open>\<open>fileInfo.Name()[0:1] == "."\<close>, which panics on an empty name.\<close>

definition isBlacklisted :: "osInfo \<Rightarrow> err + bool" where
  "isBlacklisted info = (case oiName info of
       [] \<Rightarrow> Inl (Panic ''slice bounds out of range'')
     | c # _ \<Rightarrow> Inr (c = CHR ''.''))"

definition publishEventToHandler :: "ctx \<Rightarrow> 's watchHandler \<Rightarrow> watchEvent \<Rightarrow> ('s, unit) eff" where
  "publishEventToHandler c h ev =
     bindE (liftE (isBlacklisted (weInfo ev))) (\<lambda>hidden.
       if hidden then retE ()
       else (case weOp ev of
           WCreate \<Rightarrow> hOnCreate h c (wePath ev) (weInfo ev)
         | WRemove \<Rightarrow> hOnRemove h c (wePath ev) (weInfo ev)
         | WWrite \<Rightarrow> hOnWrite h c (wePath ev) (weInfo ev)
         | WRename \<Rightarrow> hOnRename h c (wePath ev) (weInfo ev) (weOldPath ev)
         | WMove \<Rightarrow> hOnMove h c (wePath ev) (weInfo ev) (weOldPath ev)
         | WChmod \<Rightarrow> retE ()))"

definition publishEvent :: "'s watchDeps \<Rightarrow> ctx \<Rightarrow> watchEvent \<Rightarrow> ('s, unit) eff" where
  "publishEvent W c ev = forE (wHandlers W) (\<lambda>h. publishEventToHandler c h ev)"

definition fw_Close :: "'s watchDeps \<Rightarrow> ('s, unit) eff" where
  "fw_Close W =
     bindE (getE (wFlags W)) (\<lambda>f.
       if \<not> fwStarted f \<or> fwClosed f then retE ()
       else thenE (modE (wSetFlags W (\<lambda>f. f\<lparr>fwClosed := True\<rparr>))) (wClose W))"

datatype watchSignal =
    SigClosed
  | SigCtxDone
  | SigEvent watchEvent
  | SigEventClosed
  | SigError string
  | SigErrorClosed

fun watchLoop :: "'s watchDeps \<Rightarrow> ctx \<Rightarrow> watchSignal list \<Rightarrow> ('s, unit) eff" where
  "watchLoop W c [] = retE ()"
| "watchLoop W c (SigClosed # sigs) = retE ()"
| "watchLoop W c (SigCtxDone # sigs) = thenE (fw_Close W) (watchLoop W c sigs)"
| "watchLoop W c (SigEvent ev # sigs) =
     thenE (if wHandlers W = [] then publishEventToHandler c defaultWatcherHandler ev else publishEvent W c ev)
       (watchLoop W c sigs)"
| "watchLoop W c (SigEventClosed # sigs) = watchLoop W c sigs"
| "watchLoop W c (SigError e # sigs) = failE (Panic e)"
| "watchLoop W c (SigErrorClosed # sigs) = retE ()"

definition setToStarted :: "'s watchDeps \<Rightarrow> ('s, unit) eff" where
  "setToStarted W = modE (wSetFlags W (\<lambda>f. f\<lparr>fwStarted := True\<rparr>))"

text \<open>What \<open>Watch\<close> itself does beside the loop, which runs in its own goroutine.\<close>

definition fw_Watch :: "'s watchDeps \<Rightarrow> ('s, unit) eff" where
  "fw_Watch W =
     thenE (setToStarted W)
     (bindE (tryE (wStart W)) (\<lambda>r.
      thenE (modE (wSetFlags W (\<lambda>f. f\<lparr>fwStarted := False\<rparr>)))
        (case r of Inl e \<Rightarrow> failE (Err e) | Inr _ \<Rightarrow> retE ())))"

subsection \<open>What is delivered\<close>

text \<open>A hidden file and a change of mode reach no handler.\<close>

definition delivered :: "watchEvent \<Rightarrow> bool" where
  "delivered ev \<longleftrightarrow> weOp ev \<noteq> WChmod \<and> oiName (weInfo ev) \<noteq> [] \<and> hd (oiName (weInfo ev)) \<noteq> CHR ''.''"

lemma publish_hidden:
  "\<not> delivered ev \<Longrightarrow> oiName (weInfo ev) \<noteq> [] \<Longrightarrow> publishEventToHandler c h ev = retE ()"
  by (cases "oiName (weInfo ev)")
    (auto simp: publishEventToHandler_def isBlacklisted_def delivered_def fun_eq_iff bindE_apply)

lemma watch_hidden:
  fixes W :: "'s watchDeps"
  assumes "\<not> delivered ev" "oiName (weInfo ev) \<noteq> []"
  shows "watchLoop W c (SigEvent ev # sigs) = watchLoop W c sigs"
proof -
  have "forE hs (\<lambda>_. retE ()) = (retE () :: ('s, unit) eff)" for hs :: "'s watchHandler list"
    by (induction hs) simp_all
  then show ?thesis by (simp add: publishEvent_def publish_hidden [OF assms])
qed

text \<open>\<open>Close\<close> closes the library once: afterwards the flag keeps it from doing so again.\<close>

lemma fw_Close_again:
  assumes "\<And>f s. wFlags W (wSetFlags W f s) = f (wFlags W s)" "\<And>s. wFlags W (snd (wClose W s)) = wFlags W s"
  shows "thenE (fw_Close W) (fw_Close W) s = fw_Close W s"
proof (cases "\<not> fwStarted (wFlags W s) \<or> fwClosed (wFlags W s)")
  case True
  then show ?thesis by (auto simp: fw_Close_def thenE_apply bindE_apply)
next
  case False
  let ?s = "wSetFlags W (\<lambda>f. f\<lparr>fwClosed := True\<rparr>) s"
  obtain r s' where c: "wClose W ?s = (r, s')" by fastforce
  then have "fwClosed (wFlags W s')" using assms(1) [of _ s] assms(2) [of ?s] by simp
  then show ?thesis using False c by (cases r) (auto simp: fw_Close_def thenE_apply bindE_apply)
qed

end
