(* ===== verification/FolderSync.thy ===== *)
theory FolderSync
  imports Watcher SpaceServices
begin

text \<open>
  The folder synchronizer: \<open>core/sync/sync.go\<close>, \<open>fs.go\<close> and \<open>textile.go\<close>.

  A file that was opened is copied to the local disk, remembered in the store under its local path
  and under a reverse key, and watched; what the watcher reports is written back to the bucket.
  \<open>folderDeps\<close> holds what \<open>bucketSynchronizer\<close> holds: the watcher, the textile client (of which it
  uses \<open>GetBucket\<close>), the store, the notifier, and the local disk.
\<close>

record 's folderDeps =
  bsWatcher :: "'s watchDeps"
  bsGetBucket :: "ctx \<Rightarrow> bytes \<Rightarrow> remoteFileInput option \<Rightarrow> ('s, 's bucket) eff"
  bsStore :: "'s storeI"
  bsExists :: "'s \<Rightarrow> bytes \<Rightarrow> bool"
  bsOpen :: "bytes \<Rightarrow> ('s, bytes) eff"
  bsSendTextileEvent :: "bytes \<Rightarrow> ('s, unit) eff"
  bsReady :: "('s, unit) eff"

subsection \<open>Open files in the store\<close>

definition OpenFilesKeyPrefix :: bytes where "OpenFilesKeyPrefix = ''openFiles#''"
definition ReverseOpenFilesKeyPrefix :: bytes where "ReverseOpenFilesKeyPrefix = ''reverseOpenFiles#''"

definition getOpenFileKey :: "bytes \<Rightarrow> bytes" where
  "getOpenFileKey localPath = OpenFilesKeyPrefix @ localPath"

definition getOpenFileReverseKey :: "bytes \<Rightarrow> bytes \<Rightarrow> bytes \<Rightarrow> bytes \<Rightarrow> bytes" where
  "getOpenFileReverseKey bucketSlug bucketPath dbID cid =
     ReverseOpenFilesKeyPrefix @ bucketSlug @ '':'' @ bucketPath @ '':'' @ dbID @ '':'' @ cid"

definition reverseKeyOf :: "addWatchFile \<Rightarrow> bytes" where
  "reverseKeyOf fi = getOpenFileReverseKey (awBucketSlug fi) (awBucketPath fi) (awDbId fi) (awCid fi)"

definition watchFileJson :: "addWatchFile \<Rightarrow> jvalue" where
  "watchFileJson fi = JObj [(''dbId'', JStr (awDbId fi)), (''local_path'', JStr (awLocalPath fi)),
     (''bucket_path'', JStr (awBucketPath fi)), (''bucket_key'', JStr (awBucketKey fi)),
     (''bucket_slug'', JStr (awBucketSlug fi)), (''isRemote'', JBool (awIsRemote fi)), (''cid'', JStr (awCid fi))]"

definition unmarshalWatchFile :: "bytes \<Rightarrow> err + addWatchFile" where
  "unmarshalWatchFile data =
     bindS (jObjOf data) (\<lambda>kvs.
     bindS (jGetStr (jField ''dbId'' kvs)) (\<lambda>d.
     bindS (jGetStr (jField ''local_path'' kvs)) (\<lambda>l.
     bindS (jGetStr (jField ''bucket_path'' kvs)) (\<lambda>p.
     bindS (jGetStr (jField ''bucket_key'' kvs)) (\<lambda>k.
     bindS (jGetStr (jField ''bucket_slug'' kvs)) (\<lambda>b.
     bindS (jGetBool (jField ''isRemote'' kvs)) (\<lambda>r.
     bindS (jGetStr (jField ''cid'' kvs)) (\<lambda>c.
       Inr \<lparr> awDbId = d, awLocalPath = l, awBucketPath = p, awBucketKey = k, awBucketSlug = b,
             awIsRemote = r, awCid = c \<rparr>))))))))"

definition addFileInfoToStore :: "'s folderDeps \<Rightarrow> addWatchFile \<Rightarrow> ('s, unit) eff" where
  "addFileInfoToStore B fi =
     (let out = jprint (watchFileJson fi) in
      thenE (sSet (bsStore B) (getOpenFileKey (awLocalPath fi)) out)
        (sSet (bsStore B) (reverseKeyOf fi) out))"

definition removeFileInfo :: "'s folderDeps \<Rightarrow> addWatchFile \<Rightarrow> ('s, unit) eff" where
  "removeFileInfo B fi =
     thenE (sRemove (bsStore B) (getOpenFileKey (awLocalPath fi))) (sRemove (bsStore B) (reverseKeyOf fi))"

definition getOpenFileInfo :: "'s folderDeps \<Rightarrow> bytes \<Rightarrow> ('s, addWatchFile) eff" where
  "getOpenFileInfo B key = bindE (sGet (bsStore B) key) (\<lambda>fi. liftE (unmarshalWatchFile fi))"

definition getOpenFileBucketSlugAndPath :: "'s folderDeps \<Rightarrow> bytes \<Rightarrow> ('s, addWatchFile option) eff" where
  "getOpenFileBucketSlugAndPath B localPath =
     bindE (tryE (getOpenFileInfo B (getOpenFileKey localPath))) (\<lambda>r. case r of
         Inl _ \<Rightarrow> retE None
       | Inr fi \<Rightarrow> if awBucketSlug fi = [] then retE None else retE (Some fi))"

definition GetOpenFilePath :: "'s folderDeps \<Rightarrow> bytes \<Rightarrow> bytes \<Rightarrow> bytes \<Rightarrow> bytes \<Rightarrow> ('s, bytes option) eff" where
  "GetOpenFilePath B bucketSlug bucketPath dbID cid =
     bindE (tryE (getOpenFileInfo B (getOpenFileReverseKey bucketSlug bucketPath dbID cid))) (\<lambda>r. case r of
         Inl _ \<Rightarrow> retE None
       | Inr fi \<Rightarrow> if awLocalPath fi = [] then retE None else retE (Some (awLocalPath fi)))"

definition ErrAddFileWatch :: err where
  "ErrAddFileWatch = Err ''error adding file to watch''"

definition AddFileWatch :: "'s folderDeps \<Rightarrow> addWatchFile \<Rightarrow> ('s, unit) eff" where
  "AddFileWatch B fi =
     (if awLocalPath fi = [] \<or> awBucketKey fi = [] \<or> awBucketPath fi = [] then failE ErrAddFileWatch
      else thenE (addFileInfoToStore B fi) (AddFile (bsWatcher B) (awLocalPath fi)))"

subsection \<open>What the watcher reports\<close>

text \<open>
  \<open>OnCreate\<close> declares a second \<open>err\<close> in each branch, which takes the error of the upload: the outer
  one is still nil, and \<open>result.IsValid()\<close> is called on a nil result.  A valid result and an invalid
  one are only logged.
\<close>

definition checkUploaded :: "string + bytes \<times> bytes \<Rightarrow> ('s, unit) eff" where
  "checkUploaded r = (case r of Inl _ \<Rightarrow> failE (Panic ''nil pointer dereference'') | Inr _ \<Rightarrow> retE ())"

definition ws_OnCreate :: "'s folderDeps \<Rightarrow> ctx \<Rightarrow> bytes \<Rightarrow> osInfo \<Rightarrow> ('s, unit) eff" where
  "ws_OnCreate B c path info =
     bindE (getOpenFileBucketSlugAndPath B path) (\<lambda>w. case w of None \<Rightarrow> retE () | Some fi \<Rightarrow>
     bindE (tryE (bsGetBucket B c (awBucketSlug fi) None)) (\<lambda>r. case r of Inl _ \<Rightarrow> retE () | Inr b \<Rightarrow>
       if oiIsDir info then
         bindE (tryE (DirExists b path)) (\<lambda>there. case there of
             Inl _ \<Rightarrow> retE ()
           | Inr True \<Rightarrow> retE ()
           | Inr False \<Rightarrow> bindE (tryE (CreateDirectory b path)) checkUploaded)
       else
         bindE (tryE (FileExists b path)) (\<lambda>there. case there of
             Inl _ \<Rightarrow> retE ()
           | Inr True \<Rightarrow> retE ()
           | Inr False \<Rightarrow>
               bindE (tryE (bsOpen B path)) (\<lambda>file. case file of
                   Inl _ \<Rightarrow> retE ()
                 | Inr content \<Rightarrow> bindE (tryE (UploadFile b (awBucketPath fi) content)) checkUploaded))))"

definition ws_OnRemove :: "'s folderDeps \<Rightarrow> ctx \<Rightarrow> bytes \<Rightarrow> osInfo \<Rightarrow> ('s, unit) eff" where
  "ws_OnRemove B c path info =
     bindE (getOpenFileBucketSlugAndPath B path) (\<lambda>w. case w of None \<Rightarrow> retE () | Some fi \<Rightarrow>
     bindE (tryE (bsGetBucket B c (awBucketSlug fi) None)) (\<lambda>r. case r of Inl _ \<Rightarrow> retE () | Inr b \<Rightarrow>
     bindE (tryE (DeleteDirOrFile b (awBucketPath fi))) (\<lambda>_. retE ())))"

definition writeBucket :: "'s folderDeps \<Rightarrow> ctx \<Rightarrow> addWatchFile \<Rightarrow> ('s, 's bucket) eff" where
  "writeBucket B c fi =
     bsGetBucket B c (awBucketSlug fi)
       (if awIsRemote fi then Some \<lparr> grPath = awBucketPath fi, grDbID = awDbId fi, grBucket = awBucketSlug fi \<rparr>
        else None)"

definition ws_OnWrite :: "'s folderDeps \<Rightarrow> ctx \<Rightarrow> bytes \<Rightarrow> osInfo \<Rightarrow> ('s, unit) eff" where
  "ws_OnWrite B c path info =
     bindE (getOpenFileBucketSlugAndPath B path) (\<lambda>w. case w of None \<Rightarrow> retE () | Some fi \<Rightarrow>
     bindE (tryE (writeBucket B c fi)) (\<lambda>r. case r of Inl _ \<Rightarrow> retE () | Inr b \<Rightarrow>
     bindE (tryE (bsOpen B path)) (\<lambda>file. case file of Inl _ \<Rightarrow> retE () | Inr content \<Rightarrow>
     bindE (tryE (UploadFile b (awBucketPath fi) content)) (\<lambda>_. retE ()))))"

definition ws_OnRename :: "'s folderDeps \<Rightarrow> ctx \<Rightarrow> bytes \<Rightarrow> osInfo \<Rightarrow> bytes \<Rightarrow> ('s, unit) eff" where
  "ws_OnRename B c path info oldPath = thenE (ws_OnRemove B c oldPath info) (ws_OnCreate B c path info)"

definition ws_OnMove :: "'s folderDeps \<Rightarrow> ctx \<Rightarrow> bytes \<Rightarrow> osInfo \<Rightarrow> bytes \<Rightarrow> ('s, unit) eff" where
  "ws_OnMove B c path info oldPath = thenE (ws_OnRemove B c oldPath info) (ws_OnCreate B c path info)"

definition watcherHandler :: "'s folderDeps \<Rightarrow> 's watchHandler" where
  "watcherHandler B =
     \<lparr> hOnCreate = ws_OnCreate B, hOnRemove = ws_OnRemove B, hOnWrite = ws_OnWrite B,
       hOnRename = ws_OnRename B, hOnMove = ws_OnMove B \<rparr>"

subsection \<open>Starting\<close>

text \<open>The open files that are still on the disk are watched again; one that cannot be is forgotten.\<close>

definition watchOpenFile :: "'s folderDeps \<Rightarrow> bytes \<Rightarrow> ('s, unit) eff" where
  "watchOpenFile B k =
     bindE (tryE (getOpenFileInfo B k)) (\<lambda>r. case r of
         Inl _ \<Rightarrow> retE ()
       | Inr fi \<Rightarrow>
           bindE (getE (\<lambda>s. bsExists B s (awLocalPath fi))) (\<lambda>there.
             if there then
               bindE (tryE (AddFile (bsWatcher B) (awLocalPath fi))) (\<lambda>q. case q of
                   Inl _ \<Rightarrow> bindE (tryE (removeFileInfo B fi)) (\<lambda>_. retE ())
                 | Inr _ \<Rightarrow> retE ())
             else retE ()))"

definition bs_Start :: "'s folderDeps \<Rightarrow> ('s, unit) eff" where
  "bs_Start B =
     bindE (sKeysWithPrefix (bsStore B) OpenFilesKeyPrefix) (\<lambda>keys.
     thenE (forE keys (watchOpenFile B))
     (thenE (bsReady B)
       (fw_Watch (RegisterHandler (watcherHandler B) (bsWatcher B)))))"

definition bs_Shutdown :: "'s folderDeps \<Rightarrow> ('s, unit) eff" where
  "bs_Shutdown B = fw_Close (bsWatcher B)"

subsection \<open>Events of the buckets\<close>

text \<open>A name that does not unmarshal is empty; its error is only logged.\<close>

definition instanceName :: "bytes \<Rightarrow> bytes" where
  "instanceName data = (case jObjOf data of
       Inl _ \<Rightarrow> []
     | Inr kvs \<Rightarrow> (case filter (\<lambda>(k, v). equalFold k ''Name'' \<and> (\<exists>s. v = JStr s)) (rev kvs) of
         (_, JStr s) # _ \<Rightarrow> s
       | _ \<Rightarrow> []))"

text \<open>\<open>OnCreate\<close>, \<open>OnRemove\<close> and \<open>OnSave\<close> of \<open>textileHandler\<close> are the same.\<close>

definition th_OnEvent :: "'s folderDeps \<Rightarrow> bytes \<Rightarrow> ('s, unit) eff" where
  "th_OnEvent B listenInstance = bsSendTextileEvent B (instanceName listenInstance)"

text \<open>The services on this synchronizer: an opened file is watched, and found when it is opened again.\<close>

definition withFolderSync :: "'s folderDeps \<Rightarrow> 's spaceDeps \<Rightarrow> 's spaceDeps" where
  "withFolderSync B D = D\<lparr>spAddFileWatch := AddFileWatch B, spGetOpenFilePath := GetOpenFilePath B\<rparr>"

subsection \<open>An open file is found\<close>

lemma split_first: "a @ c # x = b @ c # y \<Longrightarrow> c \<notin> set a \<Longrightarrow> c \<notin> set b \<Longrightarrow> a = b \<and> x = y"
proof (induction a arbitrary: b)
  case Nil
  then show ?case by (cases b) auto
next
  case (Cons z a)
  then show ?case by (cases b) auto
qed

lemma split_last: "x @ c # a = y @ c # b \<Longrightarrow> c \<notin> set a \<Longrightarrow> c \<notin> set b \<Longrightarrow> x = y \<and> a = b"
proof -
  assume a: "x @ c # a = y @ c # b" "c \<notin> set a" "c \<notin> set b"
  have "rev a @ c # rev x = rev b @ c # rev y" using arg_cong [OF a(1), of rev] by simp
  then show "x = y \<and> a = b" using split_first [of "rev a" c "rev x" "rev b" "rev y"] a by simp
qed

lemma reverse_key_inj:
  assumes "getOpenFileReverseKey sl p d c = getOpenFileReverseKey sl' p' d' c'"
    "list_all (\<lambda>x. CHR '':'' \<notin> set x) [sl, d, c, sl', d', c']"
  shows "(sl, p, d, c) = (sl', p', d', c')"
proof -
  have "sl @ CHR '':'' # (p @ '':'' @ d @ '':'' @ c) = sl' @ CHR '':'' # (p' @ '':'' @ d' @ '':'' @ c')"
    using assms(1) by (simp add: getOpenFileReverseKey_def)
  then have s: "sl = sl'" "(p @ '':'' @ d) @ CHR '':'' # c = (p' @ '':'' @ d') @ CHR '':'' # c'"
    using split_first [of sl "CHR '':''"] assms(2) by auto
  then have c: "c = c'" "p @ CHR '':'' # d = p' @ CHR '':'' # d'"
    using split_last [OF s(2)] assms(2) by auto
  then show ?thesis using split_last [OF c(2)] s assms(2) by auto
qed

lemma open_keys_differ [simp]: "getOpenFileKey l \<noteq> getOpenFileReverseKey a b c d"
  "getOpenFileReverseKey a b c d \<noteq> getOpenFileKey l"
  "getOpenFileKey l = getOpenFileKey l' \<longleftrightarrow> l = l'"
  by (simp_all add: getOpenFileKey_def getOpenFileReverseKey_def OpenFilesKeyPrefix_def ReverseOpenFilesKeyPrefix_def)

lemma open_key_prefix [simp]:
  "hasPrefix (getOpenFileKey l) OpenFilesKeyPrefix" "\<not> hasPrefix (getOpenFileReverseKey a b c d) OpenFilesKeyPrefix"
  by (simp_all add: getOpenFileKey_def getOpenFileReverseKey_def OpenFilesKeyPrefix_def ReverseOpenFilesKeyPrefix_def)

definition watchAscii :: "addWatchFile \<Rightarrow> bool" where
  "watchAscii fi \<longleftrightarrow> ascii (awDbId fi) \<and> ascii (awLocalPath fi) \<and> ascii (awBucketPath fi) \<and>
     ascii (awBucketKey fi) \<and> ascii (awBucketSlug fi) \<and> ascii (awCid fi)"

lemma watch_field_names:
  "distinctFold [''dbId'', ''local_path'', ''bucket_path'', ''bucket_key'', ''bucket_slug'', ''isRemote'', ''cid'']"
  by code_simp

lemma unmarshal_watchFile:
  assumes "watchAscii fi"
  shows "unmarshalWatchFile (jprint (watchFileJson fi)) = Inr fi"
proof -
  have "jObjOf (jprint (watchFileJson fi)) = Inr [(''dbId'', JStr (awDbId fi)), (''local_path'', JStr (awLocalPath fi)),
     (''bucket_path'', JStr (awBucketPath fi)), (''bucket_key'', JStr (awBucketKey fi)),
     (''bucket_slug'', JStr (awBucketSlug fi)), (''isRemote'', JBool (awIsRemote fi)), (''cid'', JStr (awCid fi))]"
    unfolding watchFileJson_def by (rule jObjOf_jprint) (use assms in \<open>simp add: watchAscii_def\<close>)
  then show ?thesis
    using watch_field_names by (simp add: unmarshalWatchFile_def field_simps jGetBool_def)
qed

text \<open>What the watcher library does to the store: nothing.\<close>

definition watch_keeps :: "'s watchDeps \<Rightarrow> ('s \<Rightarrow> bool) \<Rightarrow> ('s \<Rightarrow> bytes \<rightharpoonup> bytes) \<Rightarrow> bool" where
  "watch_keeps W ok view \<longleftrightarrow>
     (\<forall>p s. ok s \<longrightarrow> ok (snd (wAdd W p s)) \<and> view (snd (wAdd W p s)) = view s)"

lemma addFileInfo_Inr:
  assumes "kv_store (bsStore B) ok view" "ok s" "addFileInfoToStore B fi s = (Inr u, s')"
  shows "ok s' \<and> view s' = (view s)(getOpenFileKey (awLocalPath fi) \<mapsto> jprint (watchFileJson fi),
    reverseKeyOf fi \<mapsto> jprint (watchFileJson fi))"
proof -
  obtain v s1 where 1: "sSet (bsStore B) (getOpenFileKey (awLocalPath fi)) (jprint (watchFileJson fi)) s = (Inr v, s1)"
    and 2: "sSet (bsStore B) (reverseKeyOf fi) (jprint (watchFileJson fi)) s1 = (Inr u, s')"
    using assms(3) by (auto simp: addFileInfoToStore_def Let_def thenE_eq_Inr)
  show ?thesis
    using kv_store.set_Inr [OF assms(1,2) 1] kv_store.set_Inr [OF assms(1) _ 2] by auto
qed

lemma AddFileWatch_Inr:
  assumes "kv_store (bsStore B) ok view" "watch_keeps (bsWatcher B) ok view" "ok s"
    "AddFileWatch B fi s = (Inr u, s')"
  shows "ok s' \<and> view s' = (view s)(getOpenFileKey (awLocalPath fi) \<mapsto> jprint (watchFileJson fi),
    reverseKeyOf fi \<mapsto> jprint (watchFileJson fi))" "awLocalPath fi \<noteq> []"
proof -
  obtain v s1 where 1: "addFileInfoToStore B fi s = (Inr v, s1)" and 2: "AddFile (bsWatcher B) (awLocalPath fi) s1 = (Inr u, s')"
    and ne: "awLocalPath fi \<noteq> []"
    using assms(4) by (auto simp: AddFileWatch_def thenE_eq_Inr split: if_splits)
  have "s' = snd (wAdd (bsWatcher B) (awLocalPath fi) s1)"
    using 2 by (auto simp: AddFile_def bindE_apply split: if_splits)
  then show "ok s' \<and> view s' = (view s)(getOpenFileKey (awLocalPath fi) \<mapsto> jprint (watchFileJson fi),
    reverseKeyOf fi \<mapsto> jprint (watchFileJson fi))"
    using addFileInfo_Inr [OF assms(1,3) 1] assms(2) by (simp add: watch_keeps_def)
  show "awLocalPath fi \<noteq> []" by (rule ne)
qed

lemma getOpenFileInfo_view:
  "kv_store (bsStore B) ok view \<Longrightarrow> ok s \<Longrightarrow>
   getOpenFileInfo B k s = (case view s k of None \<Rightarrow> Inl errKeyNotFound | Some d \<Rightarrow> unmarshalWatchFile d, s)"
  by (cases "view s k") (auto simp: getOpenFileInfo_def bindE_apply kv_store.get_view)

lemma lookups_same:
  assumes "kv_store (bsStore B) ok view" "ok s" "ok s'"
  shows "view s' (getOpenFileKey l) = view s (getOpenFileKey l) \<Longrightarrow>
      fst (getOpenFileBucketSlugAndPath B l s') = fst (getOpenFileBucketSlugAndPath B l s)"
    and "view s' (getOpenFileReverseKey sl p d c) = view s (getOpenFileReverseKey sl p d c) \<Longrightarrow>
      fst (GetOpenFilePath B sl p d c s') = fst (GetOpenFilePath B sl p d c s)"
  unfolding getOpenFileBucketSlugAndPath_def GetOpenFilePath_def bindE_apply tryE_apply
    getOpenFileInfo_view [OF assms(1,2)] getOpenFileInfo_view [OF assms(1,3)]
  by (auto simp: errKeyNotFound_def split: option.splits sum.splits err.splits)

lemma found_after_watch:
  assumes "kv_store (bsStore B) ok view" "ok s'" "watchAscii fi"
    "view s' = v(getOpenFileKey (awLocalPath fi) \<mapsto> jprint (watchFileJson fi),
       reverseKeyOf fi \<mapsto> jprint (watchFileJson fi))"
  shows "awLocalPath fi \<noteq> [] \<Longrightarrow>
      GetOpenFilePath B (awBucketSlug fi) (awBucketPath fi) (awDbId fi) (awCid fi) s' = (Inr (Some (awLocalPath fi)), s')"
    and "awBucketSlug fi \<noteq> [] \<Longrightarrow> getOpenFileBucketSlugAndPath B (awLocalPath fi) s' = (Inr (Some fi), s')"
  using getOpenFileInfo_view [OF assms(1,2)] unmarshal_watchFile [OF assms(3)] assms(4)
  by (simp_all add: GetOpenFilePath_def getOpenFileBucketSlugAndPath_def bindE_apply tryE_apply reverseKeyOf_def)

end
