(* ===== verification/FileFacts.thy ===== *)
theory FileFacts
  imports ClientMem
begin

text \<open>
  What holds of adding files: \<open>AddItems\<close> uploads a tree of the local disk to a bucket, and the totals
  it announces are those of the results it then sends.
\<close>

subsection \<open>Trees on the local disk\<close>

datatype lnode = LFile (lname: bytes) bytes | LDir (lname: bytes) "lnode list"

definition below :: "bytes \<Rightarrow> bytes \<Rightarrow> bytes" where
  "below p n = p @ ''/'' @ n"

definition fileAt :: "'s spaceDeps \<Rightarrow> ('s \<Rightarrow> bool) \<Rightarrow> bytes \<Rightarrow> bytes \<Rightarrow> bool" where
  "fileAt D ok q c \<longleftrightarrow> (\<forall>s. ok s \<longrightarrow>
     \<not> lfIsDir D s q \<and> lfOpen D q s = (Inr c, s) \<and> lfSize D q s = (Inr (int (length c)), s))"

definition dirAt :: "'s spaceDeps \<Rightarrow> ('s \<Rightarrow> bool) \<Rightarrow> bytes \<Rightarrow> bytes list \<Rightarrow> bool" where
  "dirAt D ok q names \<longleftrightarrow> (\<forall>s. ok s \<longrightarrow> lfIsDir D s q \<and> lfReadDir D q s = (Inr names, s))"

text \<open>While \<open>ok\<close> holds, the disk shows the nodes under the directory \<open>p\<close>.\<close>

fun onDisk :: "'s spaceDeps \<Rightarrow> ('s \<Rightarrow> bool) \<Rightarrow> bytes \<Rightarrow> lnode list \<Rightarrow> bool" where
  "onDisk D ok p [] = True"
| "onDisk D ok p (LFile n c # ts) =
     (CHR ''/'' \<notin> set n \<and> fileAt D ok (below p n) c \<and> onDisk D ok p ts)"
| "onDisk D ok p (LDir n cs # ts) =
     (CHR ''/'' \<notin> set n \<and> dirAt D ok (below p n) (map lname cs) \<and> onDisk D ok (below p n) cs \<and> onDisk D ok p ts)"

fun ldepth :: "lnode list \<Rightarrow> nat" where
  "ldepth [] = 0"
| "ldepth (LFile n c # ts) = ldepth ts"
| "ldepth (LDir n cs # ts) = max (Suc (ldepth cs)) (ldepth ts)"

text \<open>What is pushed, in order, and the sources of the results with their sizes.\<close>

fun planned :: "bytes \<Rightarrow> lnode list \<Rightarrow> (bytes \<times> bytes) list" where
  "planned t [] = []"
| "planned t (LFile n c # ts) = (targetFile t n, c) # planned t ts"
| "planned t (LDir n cs # ts) =
     (trimRight (below t n) ''/'' @ ''/'' @ keepFileName, []) # planned (below t n) cs @ planned t ts"

fun sourcesOf :: "bytes \<Rightarrow> lnode list \<Rightarrow> (bytes \<times> int) list" where
  "sourcesOf p [] = []"
| "sourcesOf p (LFile n c # ts) = (below p n, int (length c)) # sourcesOf p ts"
| "sourcesOf p (LDir n cs # ts) = (below p n, 0) # sourcesOf (below p n) cs @ sourcesOf p ts"

abbreviation paths :: "bytes \<Rightarrow> lnode list \<Rightarrow> bytes list" where
  "paths p ts \<equiv> map (\<lambda>t. below p (lname t)) ts"

definition pushAll :: "(bytes \<Rightarrow> bytes) \<Rightarrow> (bytes \<times> bytes) list \<Rightarrow> (bytes \<rightharpoonup> bytes) \<Rightarrow> bytes \<rightharpoonup> bytes" where
  "pushAll norm xs m = fold (\<lambda>(q, c) m. m(norm q \<mapsto> c)) xs m"

text \<open>The bucket takes every upload: it is a map from normalised paths to contents.\<close>

definition accepts :: "'s bucket \<Rightarrow> ('s \<Rightarrow> bool) \<Rightarrow> (bytes \<Rightarrow> bytes) \<Rightarrow> ('s \<Rightarrow> bytes \<rightharpoonup> bytes) \<Rightarrow> bool" where
  "accepts b ok norm view \<longleftrightarrow>
     (\<forall>path content s. ok s \<longrightarrow> (\<exists>res root s'. UploadFile b path content s = (Inr (res, root), s') \<and> ok s' \<and>
        view s' = (view s)(norm path \<mapsto> content))) \<and>
     (\<forall>path s. ok s \<longrightarrow> (\<exists>res root s'. CreateDirectory b path s = (Inr (res, root), s') \<and> ok s' \<and>
        view s' = (view s)(norm (trimRight path ''/'' @ ''/'' @ keepFileName) \<mapsto> [])))"

lemma acceptsD:
  assumes "accepts b ok norm view" "ok s"
  shows "\<exists>res root s'. UploadFile b path content s = (Inr (res, root), s') \<and> ok s' \<and> view s' = (view s)(norm path \<mapsto> content)"
    "\<exists>res root s'. CreateDirectory b path s = (Inr (res, root), s') \<and> ok s' \<and>
       view s' = (view s)(norm (trimRight path ''/'' @ ''/'' @ keepFileName) \<mapsto> [])"
  using assms unfolding accepts_def by blast+

lemma fileAtD: "fileAt D ok q c \<Longrightarrow> ok s \<Longrightarrow> \<not> lfIsDir D s q"
  "fileAt D ok q c \<Longrightarrow> ok s \<Longrightarrow> lfOpen D q s = (Inr c, s)"
  "fileAt D ok q c \<Longrightarrow> ok s \<Longrightarrow> lfSize D q s = (Inr (int (length c)), s)"
  unfolding fileAt_def by blast+

lemma dirAtD: "dirAt D ok q ns \<Longrightarrow> ok s \<Longrightarrow> lfIsDir D s q" "dirAt D ok q ns \<Longrightarrow> ok s \<Longrightarrow> lfReadDir D q s = (Inr ns, s)"
  unfolding dirAt_def by blast+

lemma split_below [simp]: "CHR ''/'' \<notin> set n \<Longrightarrow> snd (pathSplit (below p n)) = n"
  by (simp add: below_def pathSplit_dir_name)

lemma onDisk_names: "onDisk D ok p cs \<Longrightarrow> \<forall>f \<in> set (map lname cs). CHR ''/'' \<notin> set f"
  by (induction D ok p cs rule: onDisk.induct) auto

lemma names_kept: "onDisk D ok p cs \<Longrightarrow> filter (\<lambda>f. f \<noteq> below q n) (map lname cs) = map lname cs"
  by (drule onDisk_names) (auto simp: filter_id_conv below_def)

lemma under_paths: "map (\<lambda>f. q @ ''/'' @ f) (map lname cs) = paths q cs"
  by (simp add: below_def)

lemma pushAll_simps [simp]:
  "pushAll norm [] m = m" "pushAll norm ((q, c) # xs) m = pushAll norm xs (m(norm q \<mapsto> c))"
  "pushAll norm (xs @ ys) m = pushAll norm ys (pushAll norm xs m)"
  by (simp_all add: pushAll_def)

subsection \<open>Adding a tree\<close>

definition reports :: "addItemResult list \<Rightarrow> (bytes \<times> int) list \<Rightarrow> bool" where
  "reports rs xs \<longleftrightarrow> map (\<lambda>r. (arSourcePath r, arBytes r)) rs = xs \<and> (\<forall>r \<in> set rs. arError r = None)"

lemma reports_simps [simp]:
  "reports [] xs \<longleftrightarrow> xs = []"
  "reports (r # rs) (x # xs) \<longleftrightarrow> (arSourcePath r, arBytes r) = x \<and> arError r = None \<and> reports rs xs"
  by (auto simp: reports_def)

lemma reports_append: "reports rs xs \<Longrightarrow> reports rs' ys \<Longrightarrow> reports (rs @ rs') (xs @ ys)"
  by (auto simp: reports_def)

lemma add_file:
  assumes "accepts b ok norm view" "fileAt D ok (below p n) c" "CHR ''/'' \<notin> set n" "ok s"
  shows "\<exists>r s'. addItem D recur b t (below p n) s = (Inr [r], s') \<and> ok s' \<and>
    view s' = (view s)(norm (targetFile t n) \<mapsto> c) \<and> reports [r] [(below p n, int (length c))]"
proof -
  obtain res root s' where u: "UploadFile b (targetFile t n) c s = (Inr (res, root), s')" "ok s'"
      "view s' = (view s)(norm (targetFile t n) \<mapsto> c)"
    using acceptsD(1) [OF assms(1,4)] by blast
  show ?thesis
    using u assms(3) fileAtD [OF assms(2)] assms(4)
    by (simp add: addItem_def addFile_def bindE_apply tryE_apply getE_def)
qed

lemma add_items:
  assumes "accepts b ok norm view"
  shows "onDisk D ok p ts \<Longrightarrow> ok s \<Longrightarrow> ldepth ts < n \<Longrightarrow>
    \<exists>rs s'. addItems D n b (paths p ts) t s = (Inr rs, s') \<and> ok s' \<and>
      view s' = pushAll norm (planned t ts) (view s) \<and> reports rs (sourcesOf p ts)"
proof (induction n arbitrary: p ts s t)
  case (Suc n)
  have "\<exists>rss s'. mapE (addItem D (addItems D n b) b t) (paths p ts) s = (Inr rss, s') \<and> ok s' \<and>
      view s' = pushAll norm (planned t ts) (view s) \<and> reports (concat rss) (sourcesOf p ts)"
    using Suc.prems
  proof (induction ts arbitrary: s)
    case (Cons x ts)
    have rest: "\<exists>rss s'. mapE (addItem D (addItems D n b) b t) (paths p ts) s1 = (Inr rss, s') \<and> ok s' \<and>
      view s' = pushAll norm (planned t ts) (view s1) \<and> reports (concat rss) (sourcesOf p ts)" if "ok s1" for s1
      using Cons.prems that by (intro Cons.IH) (cases x; simp)+
    show ?case
    proof (cases x)
      case (LFile nm c)
      then have f: "fileAt D ok (below p nm) c" "CHR ''/'' \<notin> set nm" using Cons.prems(1) by simp_all
      obtain r s1 where r: "addItem D (addItems D n b) b t (below p nm) s = (Inr [r], s1)" "ok s1"
          "view s1 = (view s)(norm (targetFile t nm) \<mapsto> c)" "reports [r] [(below p nm, int (length c))]"
        using add_file [OF assms f Cons.prems(2)] by blast
      from rest [OF r(2)] show ?thesis using r LFile by (auto simp: bindE_apply)
    next
      case (LDir nm cs)
      then have d: "dirAt D ok (below p nm) (map lname cs)" "CHR ''/'' \<notin> set nm" "onDisk D ok (below p nm) cs"
        "ldepth cs < n" using Cons.prems(1,3) by simp_all
      obtain res root s1 where k: "CreateDirectory b (below t nm) s = (Inr (res, root), s1)" "ok s1"
          "view s1 = (view s)(norm (trimRight (below t nm) ''/'' @ ''/'' @ keepFileName) \<mapsto> [])"
        using acceptsD(2) [OF assms Cons.prems(2)] by blast
      obtain rs s2 where sub: "addItems D n b (paths (below p nm) cs) (below t nm) s1 = (Inr rs, s2)" "ok s2"
          "view s2 = pushAll norm (planned (below t nm) cs) (view s1)" "reports rs (sourcesOf (below p nm) cs)"
        using Suc.IH [OF d(3) k(2) d(4)] by blast
      have "addFolderRec D (addItems D n b) (below p nm) (below t nm) s1 = (Inr rs, s2)"
        unfolding addFolderRec_def bindE_apply dirAtD(2) [OF d(1) k(2)]
        using sub(1) by (simp only: prod.case sum.case names_kept [OF d(3)] under_paths)
      then have "addItem D (addItems D n b) b t (below p nm) s =
          (Inr (\<lparr> arSourcePath = below p nm, arBucketPath = root, arBytes = 0, arError = None \<rparr> # rs), s2)"
        using k(1) d(2) dirAtD(1) [OF d(1) Cons.prems(2)]
        by (simp add: addItem_def handleAddItemFolder_def createFolder_def bindE_apply tryE_apply getE_def Let_def
            below_def [of t, symmetric, simplified])
      from this rest [OF sub(2)] show ?thesis
        using k(3) sub(3,4) LDir by (auto simp: bindE_apply intro!: reports_append)
    qed
  qed (simp add: retE_def)
  then show ?case by (auto simp: bindE_apply)
qed simp

subsection \<open>The totals\<close>

lemma collectTotals_ok:
  "\<forall>r \<in> set rs. aiError r = None \<Longrightarrow> collectTotals rs s =
    (Inr (totalsOf (sum_list (map aiTotalFiles rs)) (sum_list (map aiTotalBytes rs))), s)"
  by (induction rs) (auto simp: collectTotals_def totalsOf_def filter_empty_conv split: list.splits)

abbreviation totalOf :: "(bytes \<times> int) list \<Rightarrow> addItemsResponse" where
  "totalOf xs \<equiv> totalsOf (int (length xs)) (sum_list (map snd xs))"

lemma totals_items:
  "onDisk D ok p ts \<Longrightarrow> ok s \<Longrightarrow> ldepth ts < n \<Longrightarrow> getTotals D n (paths p ts) s = (Inr (totalOf (sourcesOf p ts)), s)"
proof (induction n arbitrary: p ts)
  case (Suc n)
  have "\<exists>rss. mapE (totalsAt D (getTotals D n)) (paths p ts) s = (Inr rss, s) \<and>
      (\<forall>r \<in> set (concat rss). aiError r = None) \<and>
      sum_list (map aiTotalFiles (concat rss)) = int (length (sourcesOf p ts)) \<and>
      sum_list (map aiTotalBytes (concat rss)) = sum_list (map snd (sourcesOf p ts))"
    using Suc.prems
  proof (induction ts)
    case (Cons x ts)
    obtain rss where r: "mapE (totalsAt D (getTotals D n)) (paths p ts) s = (Inr rss, s)"
      "\<forall>r \<in> set (concat rss). aiError r = None"
      "sum_list (map aiTotalFiles (concat rss)) = int (length (sourcesOf p ts))"
      "sum_list (map aiTotalBytes (concat rss)) = sum_list (map snd (sourcesOf p ts))"
      using Cons.IH Cons.prems by (cases x; simp) blast+
    show ?case
    proof (cases x)
      case (LFile nm c)
      then have "totalsAt D (getTotals D n) (below p nm) s = (Inr [totalsOf 1 (int (length c))], s)"
        using Cons.prems fileAtD [of D ok "below p nm" c s]
        by (simp add: totalsAt_def bindE_apply tryE_apply getE_def)
      then show ?thesis using r LFile by (auto simp: bindE_apply totalsOf_def)
    next
      case (LDir nm cs)
      then have d: "dirAt D ok (below p nm) (map lname cs)" "onDisk D ok (below p nm) cs" "ldepth cs < n"
        using Cons.prems by simp_all
      have "totalsAt D (getTotals D n) (below p nm) s =
          (Inr [totalsOf 1 0, totalOf (sourcesOf (below p nm) cs)], s)"
        using dirAtD [OF d(1) Suc.prems(2)] Suc.IH [OF d(2) Suc.prems(2) d(3), folded under_paths(1)]
        by (simp add: totalsAt_def getE_def bindE_apply tryE_apply)
      then show ?thesis using r LDir by (auto simp: bindE_apply totalsOf_def)
    qed
  qed (simp add: retE_def)
  then obtain rss where r: "mapE (totalsAt D (getTotals D n)) (paths p ts) s = (Inr rss, s)"
      "\<forall>r \<in> set (concat rss). aiError r = None"
      "sum_list (map aiTotalFiles (concat rss)) = int (length (sourcesOf p ts))"
      "sum_list (map aiTotalBytes (concat rss)) = sum_list (map snd (sourcesOf p ts))"
    by blast
  show ?case
    unfolding getTotals.simps bindE_apply r(1)
    by (simp only: prod.case sum.case collectTotals_ok [OF r(2)] r(3,4))
qed simp

lemma reports_total:
  "reports rs xs \<Longrightarrow> totalOf xs = totalsOf (int (length rs)) (sum_list (map arBytes rs))"
  by (auto simp: reports_def comp_def)

text \<open>
  Adding the files and folders of a directory pushes every file of the tree under its place in the
  target, and a \<open>.keep\<close> file for every folder, one after the other; every source is reported
  once, without error, and the totals announced before are the number of these results and the
  sum of their bytes.  Fuel beyond the depth of the tree is enough.
\<close>

theorem add_items_uploads_tree:
  assumes "accepts b ok norm view" "onDisk D ok p ts" "ok s" "ldepth ts < n"
  shows "\<exists>rs s'. addItems D n b (map (\<lambda>t. p @ ''/'' @ lname t) ts) t s = (Inr rs, s') \<and>
    view s' = fold (\<lambda>(q, c) m. m(norm q \<mapsto> c)) (planned t ts) (view s) \<and>
    map (\<lambda>r. (arSourcePath r, arBytes r)) rs = sourcesOf p ts \<and> (\<forall>r \<in> set rs. arError r = None) \<and>
    getTotals D n (map (\<lambda>t. p @ ''/'' @ lname t) ts) s =
      (Inr \<lparr> aiTotalFiles = int (length rs), aiTotalBytes = sum_list (map arBytes rs), aiError = None \<rparr>, s)"
proof -
  obtain rs s' where r: "addItems D n b (paths p ts) t s = (Inr rs, s')" "reports rs (sourcesOf p ts)"
      "view s' = pushAll norm (planned t ts) (view s)"
    using add_items [OF assms] by blast
  moreover have "getTotals D n (paths p ts) s =
      (Inr \<lparr> aiTotalFiles = int (length rs), aiTotalBytes = sum_list (map arBytes rs), aiError = None \<rparr>, s)"
    using totals_items [OF assms(2-4)] unfolding reports_total [OF r(2)] by (simp add: totalsOf_def)
  ultimately show ?thesis unfolding below_def pushAll_def reports_def by blast
qed

subsection \<open>A disk in memory\<close>

definition memSpace :: "(bytes \<rightharpoonup> bytes) \<Rightarrow> (bytes \<rightharpoonup> bytes list) \<Rightarrow> memDaemon spaceDeps" where
  "memSpace files dirs =
     \<lparr> spShare = memShare, spKc = fixedKeychain, spStore = memWorldStore, spAwaitInit = failE (Err ''timeout''),
       spAwaitHealthy = failE (Err ''timeout''), spAddFileWatch = (\<lambda>_. retE ()),
       spGetOpenFilePath = (\<lambda>_ _ _ _. retE None), spInfoAddrs = (\<lambda>_. []), spInfoKey = (\<lambda>k. k),
       lfExists = (\<lambda>_ p. files p \<noteq> None \<or> dirs p \<noteq> None), lfIsDir = (\<lambda>_ p. dirs p \<noteq> None),
       lfReadDir = (\<lambda>p. liftE (lookupRes (dirs p))), lfOpen = (\<lambda>p. liftE (lookupRes (files p))),
       lfSize = (\<lambda>p. bindE (liftE (lookupRes (files p))) (\<lambda>c. retE (int (length c)))),
       lfTempFile = (\<lambda>p. retE (''/tmp/'' @ p)), lfWrite = (\<lambda>_ _. retE ()), lfRemove = (\<lambda>_. retE ()),
       spNowNano = retE 7, spSiteUrl = ''https://app.space.storage'', spEncrypt = (\<lambda>pw c. retE (pw @ c, None)),
       spDecrypt = (\<lambda>pw c. retE (drop (length pw) c, None)), spZip = (\<lambda>es. retE (concat (map snd es))),
       spParseCid = Inr, spDownloadPublicItem = (\<lambda>_. retE), spUnmarshalPub = Inr \<rparr>"

definition memBucket :: "memDaemon bucket" where
  "memBucket = bucket_New (newRoot ''personal'') (\<lambda>_. retE (background, ''db'')) daemonBuckets"

lemma memBucket_accepts: "accepts memBucket (\<lambda>_. True) (\<lambda>p. p) (\<lambda>s p. mcFiles s (''key-personal'', p))"
  unfolding accepts_def
  by (auto simp: UploadFile_def CreateDirectory_def GetContext_def memBucket_def bucket_New_def bindE_apply
      daemonBuckets_def bucket_Key_def GetData_def newRoot_def fun_eq_iff)

theorem add_items_uploads_tree_witness:
  "\<exists>rs s'. addItems (memSpace [''/d/x/f'' \<mapsto> ''abc''] [''/d/x'' \<mapsto> [''f'']]) 2 memBucket [''/d/x''] ''t'' memDaemon0 = (Inr rs, s') \<and>
     mcFiles s' (''key-personal'', ''t/x/f'') = Some ''abc'' \<and> length rs = 2"
proof -
  have o: "onDisk (memSpace [''/d/x/f'' \<mapsto> ''abc''] [''/d/x'' \<mapsto> [''f'']]) (\<lambda>_. True) ''/d'' [LDir ''x'' [LFile ''f'' ''abc'']]"
    by (simp add: dirAt_def fileAt_def memSpace_def below_def lookupRes_def bindE_apply)
  have d: "ldepth [LDir ''x'' [LFile ''f'' ''abc'']] < 2" by simp
  from add_items_uploads_tree [where s = memDaemon0 and t = "''t''", OF memBucket_accepts o _ d]
  obtain rs s' where r: "addItems (memSpace [''/d/x/f'' \<mapsto> ''abc''] [''/d/x'' \<mapsto> [''f'']]) 2 memBucket [''/d/x''] ''t'' memDaemon0 = (Inr rs, s')"
    "(\<lambda>p. mcFiles s' (''key-personal'', p)) =
       fold (\<lambda>(q, c) m. m(q \<mapsto> c)) (planned ''t'' [LDir ''x'' [LFile ''f'' ''abc'']]) (\<lambda>p. mcFiles memDaemon0 (''key-personal'', p))"
    "map (\<lambda>r. (arSourcePath r, arBytes r)) rs = sourcesOf ''/d'' [LDir ''x'' [LFile ''f'' ''abc'']]"
    by auto
  have "mcFiles s' (''key-personal'', ''t/x/f'') = Some ''abc''"
    using fun_cong [OF r(2), of "''t/x/f''"] by (simp add: below_def targetFile_def)
  moreover have "length rs = 2" using arg_cong [OF r(3), of length] by simp
  ultimately show ?thesis using r(1) by blast
qed

end
