(* ===== verification/FolderFacts.thy ===== *)
theory FolderFacts
  imports FolderSync FileFacts
begin

text \<open>
  What the folder synchronizer does with an open file: it is found again, a change of it is written
  back to the bucket it came from, and a failed upload of a created file stops the daemon.
\<close>

subsection \<open>The open file\<close>

text \<open>
  C30. Once a file is added to the watch it is found: its local path under the bucket, path, thread and
  content it was opened from, and all of them under its local path, which is how a change of the file
  finds its bucket.  No other open file is lost, as long as slugs, threads and contents hold no colon.
\<close>

theorem open_file_found:
  assumes "kv_store (bsStore B) ok view" "watch_keeps (bsWatcher B) ok view" "ok s" "watchAscii fi"
    "awBucketSlug fi \<noteq> []" "AddFileWatch B fi s = (Inr u, s')"
  shows "GetOpenFilePath B (awBucketSlug fi) (awBucketPath fi) (awDbId fi) (awCid fi) s' = (Inr (Some (awLocalPath fi)), s') \<and>
    getOpenFileBucketSlugAndPath B (awLocalPath fi) s' = (Inr (Some fi), s') \<and>
    (\<forall>l. l \<noteq> awLocalPath fi \<longrightarrow>
      fst (getOpenFileBucketSlugAndPath B l s') = fst (getOpenFileBucketSlugAndPath B l s)) \<and>
    (\<forall>sl p d c. (sl, p, d, c) \<noteq> (awBucketSlug fi, awBucketPath fi, awDbId fi, awCid fi) \<longrightarrow>
      list_all (\<lambda>x. CHR '':'' \<notin> set x) [sl, d, c, awBucketSlug fi, awDbId fi, awCid fi] \<longrightarrow>
      fst (GetOpenFilePath B sl p d c s') = fst (GetOpenFilePath B sl p d c s))"
proof -
  have v: "ok s'" "view s' = (view s)(getOpenFileKey (awLocalPath fi) \<mapsto> jprint (watchFileJson fi),
      reverseKeyOf fi \<mapsto> jprint (watchFileJson fi))" and ne: "awLocalPath fi \<noteq> []"
    using AddFileWatch_Inr [OF assms(1-3,6)] by simp_all
  note found = found_after_watch [OF assms(1) v(1) assms(4) v(2)]
  have 1: "GetOpenFilePath B (awBucketSlug fi) (awBucketPath fi) (awDbId fi) (awCid fi) s' = (Inr (Some (awLocalPath fi)), s')"
    by (rule found(1) [OF ne])
  have 2: "getOpenFileBucketSlugAndPath B (awLocalPath fi) s' = (Inr (Some fi), s')"
    by (rule found(2) [OF assms(5)])
  have 3: "l \<noteq> awLocalPath fi \<Longrightarrow> fst (getOpenFileBucketSlugAndPath B l s') = fst (getOpenFileBucketSlugAndPath B l s)" for l
    by (rule lookups_same(1) [OF assms(1,3) v(1)]) (simp add: v(2) reverseKeyOf_def)
  have 4: "(sl, p, d, c) \<noteq> (awBucketSlug fi, awBucketPath fi, awDbId fi, awCid fi) \<Longrightarrow>
      list_all (\<lambda>x. CHR '':'' \<notin> set x) [sl, d, c, awBucketSlug fi, awDbId fi, awCid fi] \<Longrightarrow>
      fst (GetOpenFilePath B sl p d c s') = fst (GetOpenFilePath B sl p d c s)" for sl p d c
    by (rule lookups_same(2) [OF assms(1,3) v(1)])
      (use reverse_key_inj [of sl p d c "awBucketSlug fi" "awBucketPath fi" "awDbId fi" "awCid fi"]
        in \<open>auto simp: v(2) reverseKeyOf_def\<close>)
  from 1 2 3 4 show ?thesis by blast
qed


subsection \<open>Its changes\<close>

definition synced :: "'s folderDeps \<Rightarrow> 's watchDeps" where
  "synced B = RegisterHandler (watcherHandler B) ((bsWatcher B)\<lparr>wHandlers := []\<rparr>)"

lemma synced_event:
  assumes "oiName (weInfo ev) = x # name" "x \<noteq> CHR ''.''"
  shows "weOp ev = WWrite \<Longrightarrow> watchLoop (synced B) c [SigEvent ev] = ws_OnWrite B c (wePath ev) (weInfo ev)"
    and "weOp ev = WCreate \<Longrightarrow> watchLoop (synced B) c [SigEvent ev] = ws_OnCreate B c (wePath ev) (weInfo ev)"
  using assms by (simp_all add: synced_def RegisterHandler_def publishEvent_def publishEventToHandler_def
      isBlacklisted_def watcherHandler_def fun_eq_iff bindE_apply)

text \<open>
  C29. When the watcher reports a write to a file that was opened, the content the file then has is
  uploaded to the bucket and the path it was opened from; a failed upload is only logged.
\<close>

theorem watched_write_uploads:
  assumes "kv_store (bsStore B) ok view" "watch_keeps (bsWatcher B) ok view" "ok s" "watchAscii fi"
    "awBucketSlug fi \<noteq> []" "AddFileWatch B fi s = (Inr u, s1)"
    "weOp ev = WWrite" "wePath ev = awLocalPath fi" "oiName (weInfo ev) = x # name" "x \<noteq> CHR ''.''"
    "writeBucket B c fi s1 = (Inr b, s2)" "bsOpen B (awLocalPath fi) s2 = (Inr content, s3)"
    "UploadFile b (awBucketPath fi) content s3 = (r, s4)" "\<And>p. r \<noteq> Inl (Panic p)"
  shows "watchLoop (synced B) c [SigEvent ev] s1 = (Inr (), s4)"
proof -
  have v: "ok s1" "view s1 = (view s)(getOpenFileKey (awLocalPath fi) \<mapsto> jprint (watchFileJson fi),
      reverseKeyOf fi \<mapsto> jprint (watchFileJson fi))"
    using AddFileWatch_Inr [OF assms(1-3,6)] by simp_all
  have "getOpenFileBucketSlugAndPath B (awLocalPath fi) s1 = (Inr (Some fi), s1)"
    by (rule found_after_watch(2) [OF assms(1) v(1) assms(4) v(2) assms(5)])
  then show ?thesis
    unfolding synced_event(1) [OF assms(9,10,7)] assms(8)
    using assms(11-14) by (auto simp: ws_OnWrite_def bindE_apply tryE_apply split: sum.splits err.splits)
qed

text \<open>
  When the watcher reports a created file that is remembered as open and the upload of it fails, the
  handler panics: the error is assigned to a variable of the inner block and the nil result is used.
\<close>

theorem failed_create_panics:
  assumes "getOpenFileBucketSlugAndPath B (wePath ev) s = (Inr (Some fi), s1)"
    "weOp ev = WCreate" "oiName (weInfo ev) = x # name" "x \<noteq> CHR ''.''" "\<not> oiIsDir (weInfo ev)"
    "bsGetBucket B c (awBucketSlug fi) None s1 = (Inr b, s2)" "FileExists b (wePath ev) s2 = (Inr False, s3)"
    "bsOpen B (wePath ev) s3 = (Inr content, s4)" "UploadFile b (awBucketPath fi) content s4 = (Inl (Err e), s5)"
  shows "watchLoop (synced B) c [SigEvent ev] s = (Inl (Panic ''nil pointer dereference''), s5)"
  unfolding synced_event(2) [OF assms(3,4,2)]
  using assms by (simp add: ws_OnCreate_def bindE_apply tryE_apply checkUploaded_def)

subsection \<open>On the daemon in memory\<close>

definition idleWatcher :: "'s watchDeps" where
  "idleWatcher = \<lparr> wAdd = \<lambda>_. retE (), wAddRecursive = \<lambda>_. retE (), wClose = retE (), wStart = retE (),
     wHomeDir = Inr ''/home/u'', wIsDir = \<lambda>_ _. False, wFlags = \<lambda>_. \<lparr> fwStarted = True, fwClosed = False \<rparr>,
     wSetFlags = \<lambda>_ s. s, wHandlers = [] \<rparr>"

definition memFolder :: "memDaemon bucket \<Rightarrow> memDaemon folderDeps" where
  "memFolder b = \<lparr> bsWatcher = idleWatcher, bsGetBucket = \<lambda>_ _ _. retE b, bsStore = memWorldStore,
     bsExists = \<lambda>_ _. True, bsOpen = \<lambda>_. retE ''new'', bsSendTextileEvent = \<lambda>_. retE (), bsReady = retE () \<rparr>"

definition demoOpened :: addWatchFile where
  "demoOpened = \<lparr> awDbId = [], awLocalPath = ''/tmp/f'', awBucketPath = ''a/f'', awBucketKey = ''key-personal'',
     awBucketSlug = ''personal'', awIsRemote = False, awCid = ''c'' \<rparr>"

definition demoChange :: "watchOp \<Rightarrow> watchEvent" where
  "demoChange op = \<lparr> weOp = op, wePath = ''/tmp/f'', weOldPath = [], weInfo = \<lparr> oiName = ''f'', oiIsDir = False \<rparr> \<rparr>"

lemma memFolder_ok:
  "kv_store (bsStore (memFolder b)) (\<lambda>_. True) mwStore" "watch_keeps (bsWatcher (memFolder b)) (\<lambda>_. True) mwStore"
  by (unfold_locales) (auto simp: memFolder_def memWorldStore_def watch_keeps_def idleWatcher_def)

lemma demo_watch:
  obtains s1 where "AddFileWatch (memFolder b) demoOpened memDaemon0 = (Inr (), s1)" "mcFiles s1 = mcFiles memDaemon0"
proof -
  have "\<exists>s1. AddFileWatch (memFolder b) demoOpened memDaemon0 = (Inr (), s1) \<and> mcFiles s1 = mcFiles memDaemon0"
    by (simp add: AddFileWatch_def demoOpened_def addFileInfoToStore_def memFolder_def memWorldStore_def
        AddFile_def idleWatcher_def thenE_apply bindE_apply Let_def)
  then show ?thesis using that by blast
qed

lemma demoOpened_ascii: "watchAscii demoOpened" "awBucketSlug demoOpened \<noteq> []"
  by (simp_all add: watchAscii_def demoOpened_def)

theorem open_file_found_witness:
  "\<exists>s'. GetOpenFilePath (memFolder memBucket) ''personal'' ''a/f'' [] ''c'' s' = (Inr (Some ''/tmp/f''), s') \<and>
     fst (GetOpenFilePath (memFolder memBucket) ''personal'' ''a/f:'' [] ''c'' s') =
     fst (GetOpenFilePath (memFolder memBucket) ''personal'' ''a/f:'' [] ''c'' memDaemon0)"
proof -
  obtain s1 where s: "AddFileWatch (memFolder memBucket) demoOpened memDaemon0 = (Inr (), s1)"
    using demo_watch by blast
  have o: "GetOpenFilePath (memFolder memBucket) ''personal'' ''a/f'' [] ''c'' s1 = (Inr (Some ''/tmp/f''), s1)"
    "fst (GetOpenFilePath (memFolder memBucket) ''personal'' ''a/f:'' [] ''c'' s1) =
     fst (GetOpenFilePath (memFolder memBucket) ''personal'' ''a/f:'' [] ''c'' memDaemon0)"
    using open_file_found [OF memFolder_ok TrueI demoOpened_ascii s] by (simp_all add: demoOpened_def)
  from o show ?thesis by blast
qed

theorem watched_write_uploads_witness:
  "\<exists>s1 s4. AddFileWatch (memFolder memBucket) demoOpened memDaemon0 = (Inr (), s1) \<and>
     watchLoop (synced (memFolder memBucket)) background [SigEvent (demoChange WWrite)] s1 = (Inr (), s4) \<and>
     mcFiles s4 (''key-personal'', ''a/f'') = Some ''new''"
proof -
  obtain s1 where s: "AddFileWatch (memFolder memBucket) demoOpened memDaemon0 = (Inr (), s1)"
    using demo_watch by blast
  let ?s4 = "s1\<lparr>mcFiles := (mcFiles s1)((''key-personal'', ''a/f'') \<mapsto> ''new'')\<rparr>"
  have w: "writeBucket (memFolder memBucket) background demoOpened s1 = (Inr memBucket, s1)"
    "bsOpen (memFolder memBucket) (awLocalPath demoOpened) s1 = (Inr ''new'', s1)"
    by (simp_all add: writeBucket_def memFolder_def)
  have u: "UploadFile memBucket (awBucketPath demoOpened) ''new'' s1 = (Inr (''a/f'', ''new''), ?s4)"
    by (simp add: UploadFile_def GetContext_def memBucket_def bucket_New_def bindE_apply daemonBuckets_def
        bucket_Key_def GetData_def newRoot_def demoOpened_def)
  have e: "weOp (demoChange WWrite) = WWrite" "wePath (demoChange WWrite) = awLocalPath demoOpened"
    "oiName (weInfo (demoChange WWrite)) = CHR ''f'' # []" "CHR ''f'' \<noteq> CHR ''.''"
    by (simp_all add: demoChange_def demoOpened_def)
  have "watchLoop (synced (memFolder memBucket)) background [SigEvent (demoChange WWrite)] s1 = (Inr (), ?s4)"
    by (rule watched_write_uploads [OF memFolder_ok TrueI demoOpened_ascii s e w u]) simp
  then show ?thesis using s by (intro exI [of _ s1] exI [of _ ?s4]) simp
qed

text \<open>A bucket that has the path but not its content, and takes no files.\<close>

definition deafBucket :: "memDaemon bucket" where
  "deafBucket = bucket_New (newRoot ''personal'') (\<lambda>_. retE (background, ''db''))
     (daemonBuckets\<lparr>cListPath := \<lambda>_ _ p. retE (memItem p []),
        cListIpfsPath := \<lambda>_ _. failE (Err ''no link named f under bafy''),
        cPushPath := \<lambda>_ _ _ _. failE (Err ''offline'')\<rparr>)"

theorem failed_create_panics_witness:
  "\<exists>s1 s5. AddFileWatch (memFolder deafBucket) demoOpened memDaemon0 = (Inr (), s1) \<and>
     watchLoop (synced (memFolder deafBucket)) background [SigEvent (demoChange WCreate)] s1 =
       (Inl (Panic ''nil pointer dereference''), s5)"
proof -
  obtain s1 where s: "AddFileWatch (memFolder deafBucket) demoOpened memDaemon0 = (Inr (), s1)"
    using demo_watch by blast
  have f: "getOpenFileBucketSlugAndPath (memFolder deafBucket) (wePath (demoChange WCreate)) s1 = (Inr (Some demoOpened), s1)"
    using found_after_watch(2) [OF memFolder_ok(1) TrueI demoOpened_ascii(1)] demoOpened_ascii(2)
      AddFileWatch_Inr [OF memFolder_ok TrueI s] by (simp add: demoChange_def demoOpened_def)
  have n: "noLinkErr ''no link named f under bafy''" by code_simp
  have e: "weOp (demoChange WCreate) = WCreate" "oiName (weInfo (demoChange WCreate)) = CHR ''f'' # []"
    "CHR ''f'' \<noteq> CHR ''.''" "\<not> oiIsDir (weInfo (demoChange WCreate))"
    by (simp_all add: demoChange_def)
  have b: "bsGetBucket (memFolder deafBucket) background (awBucketSlug demoOpened) None s1 = (Inr deafBucket, s1)"
    "bsOpen (memFolder deafBucket) (wePath (demoChange WCreate)) s1 = (Inr ''new'', s1)"
    by (simp_all add: memFolder_def)
  have "FileExists deafBucket (wePath (demoChange WCreate)) s1 = (Inr False, s1)"
    "UploadFile deafBucket (awBucketPath demoOpened) ''new'' s1 = (Inl (Err ''offline''), s1)"
    using n by (simp_all add: FileExists_def UploadFile_def GetContext_def deafBucket_def bucket_New_def
        bindE_apply tryE_apply)
  from failed_create_panics [OF f e b(1) this(1) b(2) this(2)] s show ?thesis by blast
qed

end
