(* ===== verification/OpenFacts.thy ===== *)
theory OpenFacts
  imports FolderFacts
begin

text \<open>
  Opening a file of a bucket through the services on the folder synchronizer: the content fetched is
  on the local disk, its changes find the bucket, and a second opening gives the same local file.
\<close>

text \<open>The local disk, of which the store and the watcher change nothing.\<close>

definition disk_ok :: "'s spaceDeps \<Rightarrow> 's folderDeps \<Rightarrow> ('s \<Rightarrow> bool) \<Rightarrow> ('s \<Rightarrow> bytes \<rightharpoonup> bytes) \<Rightarrow> bool" where
  "disk_ok D B ok disk \<longleftrightarrow>
     (\<forall>s p. lfExists D s p \<longleftrightarrow> disk s p \<noteq> None) \<and>
     (\<forall>n s p s'. ok s \<longrightarrow> lfTempFile D n s = (Inr p, s') \<longrightarrow> ok s' \<and> ascii p) \<and>
     (\<forall>p x s u s'. ok s \<longrightarrow> lfWrite D p x s = (Inr u, s') \<longrightarrow> ok s' \<and> disk s' = (disk s)(p \<mapsto> x)) \<and>
     (\<forall>k v s. ok s \<longrightarrow> disk (snd (sSet (bsStore B) k v s)) = disk s) \<and>
     (\<forall>p s. ok s \<longrightarrow> disk (snd (wAdd (bsWatcher B) p s)) = disk s)"

lemma disk_ok_folder [simp]: "disk_ok (withFolderSync B D) = disk_ok D"
  by (simp add: fun_eq_iff disk_ok_def withFolderSync_def)

lemma disk_okD:
  assumes "disk_ok D B ok disk"
  shows "lfExists D s p \<longleftrightarrow> disk s p \<noteq> None"
    and "ok s \<Longrightarrow> lfTempFile D n s = (Inr p, s') \<Longrightarrow> ok s' \<and> ascii p"
    and "ok s \<Longrightarrow> lfWrite D p x s = (Inr u, s') \<Longrightarrow> ok s' \<and> disk s' = (disk s)(p \<mapsto> x)"
    and "ok s \<Longrightarrow> disk (snd (sSet (bsStore B) k v s)) = disk s"
    and "ok s \<Longrightarrow> disk (snd (wAdd (bsWatcher B) p s)) = disk s"
  using assms unfolding disk_ok_def by blast+

text \<open>The file the bucket has at a path: its listing and its content.\<close>

definition has_file :: "'s bucket \<Rightarrow> ('s \<Rightarrow> bool) \<Rightarrow> bytes \<Rightarrow> dirEntries \<Rightarrow> bytes \<Rightarrow> bool" where
  "has_file b ok path ld content \<longleftrightarrow>
     (\<forall>s. ok s \<longrightarrow> ListDirectory b path s = (Inr ld, s)) \<and>
     (\<forall>s. ok s \<longrightarrow> fst (GetFile b path s) = Inr (content, None) \<and> ok (snd (GetFile b path s)))"

definition openRecord :: "'s bucket \<Rightarrow> bytes \<Rightarrow> bool \<Rightarrow> bytes \<Rightarrow> bytes \<Rightarrow> bytes \<Rightarrow> addWatchFile" where
  "openRecord b path isRemote dbID cid p =
     \<lparr> awDbId = dbID, awLocalPath = p, awBucketPath = path, awBucketKey = bucket_Key b,
       awBucketSlug = bucket_Slug b, awIsRemote = isRemote, awCid = cid \<rparr>"

lemma fetchInto_Inr:
  assumes "disk_ok D B ok disk" "has_file b ok path ld content" "ok s" "fetchInto D b path p s = (Inr x, s')"
  shows "ok s' \<and> disk s' p = Some content"
proof -
  obtain s1 where g: "GetFile b path s = (Inr (content, None), s1)" "ok s1"
    using assms(2,3) by (metis has_file_def prod.collapse)
  have "\<exists>u. lfWrite D p content s1 = (Inr u, s')"
    using assms(4) unfolding fetchInto_def bindE_Inr [of "GetFile b path", OF g(1)] by (auto simp: thenE_eq_Inr)
  then show ?thesis using disk_okD(3) [OF assms(1) g(2)] by fastforce
qed

lemma AddFileWatch_disk:
  assumes "disk_ok D B ok disk" "kv_store (bsStore B) ok view" "ok s" "AddFileWatch B fi s = (Inr u, s')"
  shows "disk s' = disk s"
proof -
  obtain v w s1 s2 where 1: "sSet (bsStore B) (getOpenFileKey (awLocalPath fi)) (jprint (watchFileJson fi)) s = (Inr v, s1)"
    "sSet (bsStore B) (reverseKeyOf fi) (jprint (watchFileJson fi)) s1 = (Inr w, s2)"
    "AddFile (bsWatcher B) (awLocalPath fi) s2 = (Inr u, s')"
    using assms(4) by (auto simp: AddFileWatch_def addFileInfoToStore_def Let_def thenE_eq_Inr split: if_splits)
  have k: "ok s1" "ok s2" using kv_store.set_Inr [OF assms(2,3) 1(1)] kv_store.set_Inr [OF assms(2) _ 1(2)] by auto
  note d = disk_okD(4,5) [OF assms(1)]
  have "s' = snd (wAdd (bsWatcher B) (awLocalPath fi) s2)"
    using 1(3) by (auto simp: AddFile_def bindE_apply split: if_splits)
  then have "disk s' = disk s2" using d(2) [OF k(2)] by simp
  also have "\<dots> = disk s" using d(1) [OF k(1)] d(1) [OF assms(3)] 1(1,2) by (metis snd_conv)
  finally show ?thesis .
qed

lemma openFileOnFs_Inr:
  assumes "disk_ok D B ok disk" "has_file b ok path ld content" "kv_store (bsStore B) ok view"
    "ok s" "openFileOnFs (withFolderSync B D) path b isRemote dbID cid s = (Inr p, s1)"
  obtains s2 where "ok s2" "ascii p" "AddFileWatch B (openRecord b path isRemote dbID cid p) s2 = (Inr (), s1)"
    "disk s1 p = Some content"
proof -
  let ?F = "withFolderSync B D"
  have f: "disk_ok ?F B ok disk" using assms(1) by simp
  obtain s2 x s3 where 1: "lfTempFile ?F (''*-'' @ snd (pathSplit path)) s = (Inr p, s2)"
    "fetchInto ?F b path p s2 = (Inr x, s3)" "AddFileWatch B (openRecord b path isRemote dbID cid p) s3 = (Inr (), s1)"
    using assms(5) by (auto simp: openFileOnFs_def createTempFileForPath_def bindE_eq_Inr thenE_eq_Inr
        openRecord_def withFolderSync_def)
  have 2: "ok s2" "ascii p" using disk_okD(2) [OF f assms(4) 1(1)] by simp_all
  have 3: "ok s3" "disk s3 p = Some content" using fetchInto_Inr [OF f assms(2) 2(1) 1(2)] by simp_all
  show ?thesis using that [OF 3(1) 2(2) 1(3)] AddFileWatch_disk [OF assms(1,3) 3(1) 1(3)] 3(2) by simp
qed

lemma GetOpenFilePath_reads:
  assumes "kv_store (bsStore B) ok view" "ok s"
  shows "snd (GetOpenFilePath B sl q d c s) = s"
  unfolding GetOpenFilePath_def bindE_apply tryE_apply getOpenFileInfo_view [OF assms]
  by (auto simp: errKeyNotFound_def split: option.splits sum.splits err.splits)

lemma openFrom_there:
  assumes "ListDirectory b path s = (Inr ld, s)" "lfExists D s p"
    "spGetOpenFilePath D (bucket_Slug b) path dbID (piCid (dlItem ld)) s = (Inr (Some p), s)"
  shows "openFrom D b path isRemote dbID s = (Inr p, s)"
  using assms by (simp add: openFrom_def bindE_apply Let_def)

text \<open>
  C10. A file opened through the services is opened once.  Either a file of that path, thread and
  content was open and still is on the disk, and its local path is returned and nothing changed; or
  the content the bucket has is at the local path returned, and a change reported for it is traced to
  the bucket, path and thread it came from.  In both cases opening it again, while the bucket lists
  the same content, returns the same local path and changes nothing.
\<close>

theorem opened_once:
  assumes "kv_store (bsStore B) ok view" "watch_keeps (bsWatcher B) ok view" "disk_ok D B ok disk"
    "has_file b ok path ld content" "ok s"
    "list_all ascii [path, dbID, bucket_Key b, bucket_Slug b, piCid (dlItem ld)]" "bucket_Slug b \<noteq> []"
    "openFrom (withFolderSync B D) b path isRemote dbID s = (Inr p, s1)"
  shows "(s1 = s \<and> disk s p \<noteq> None \<and>
        GetOpenFilePath B (bucket_Slug b) path dbID (piCid (dlItem ld)) s = (Inr (Some p), s) \<or>
      disk s1 p = Some content \<and>
        getOpenFileBucketSlugAndPath B p s1 = (Inr (Some (openRecord b path isRemote dbID (piCid (dlItem ld)) p)), s1)) \<and>
    openFrom (withFolderSync B D) b path isRemote dbID s1 = (Inr p, s1)"
proof -
  let ?F = "withFolderSync B D" and ?cid = "piCid (dlItem ld)"
  let ?look = "GetOpenFilePath B (bucket_Slug b) path dbID ?cid" and ?fi = "openRecord b path isRemote dbID ?cid p"
  have F [simp]: "spGetOpenFilePath ?F = GetOpenFilePath B" "lfExists ?F = lfExists D"
    by (simp_all add: withFolderSync_def)
  have L: "ListDirectory b path t = (Inr ld, t)" if "ok t" for t using assms(4) that by (simp add: has_file_def)
  obtain r where r: "?look s = (r, s)" using GetOpenFilePath_reads [OF assms(1,5)] by (metis prod.collapse)
  then obtain q where q: "r = Inr q" using assms(8) L [OF assms(5)] by (cases r) (auto simp: openFrom_def Let_def bindE_apply)
  show ?thesis
  proof (cases "\<exists>l. q = Some l \<and> lfExists D s l")
    case True
    then have "?look s = (Inr (Some p), s)" "lfExists D s p" "s1 = s"
      using assms(8) L [OF assms(5)] r q openFrom_there [OF L [OF assms(5)], of ?F] by auto
    then show ?thesis using openFrom_there [OF L [OF assms(5)], of ?F p] disk_okD(1) [OF assms(3)] by simp
  next
    case False
    then have "openFileOnFs ?F path b isRemote dbID ?cid s = (Inr p, s1)"
      using assms(8) L [OF assms(5)] r q by (auto simp: openFrom_def Let_def bindE_apply split: option.splits)
    from openFileOnFs_Inr [OF assms(3,4,1,5) this] obtain s2 where 2: "ok s2" "ascii p"
      "AddFileWatch B ?fi s2 = (Inr (), s1)" "disk s1 p = Some content" .
    have a: "watchAscii ?fi" using assms(6) 2(2) by (simp add: watchAscii_def openRecord_def)
    note v = AddFileWatch_Inr [OF assms(1,2) 2(1,3)]
    note found = found_after_watch [OF assms(1) conjunct1 [OF v(1)] a conjunct2 [OF v(1)]]
    have 3: "?look s1 = (Inr (Some p), s1)" "getOpenFileBucketSlugAndPath B p s1 = (Inr (Some ?fi), s1)"
      using found v(2) assms(7) by (simp_all add: openRecord_def)
    show ?thesis
      using openFrom_there [OF L [OF conjunct1 [OF v(1)]], of ?F p] 2(4) 3 disk_okD(1) [OF assms(3)] by simp
  qed
qed

subsection \<open>On the daemon in memory\<close>

text \<open>Its disk is kept beside the files of the buckets, under a key no bucket has.\<close>

definition memDisk :: "memDaemon \<Rightarrow> bytes \<rightharpoonup> bytes" where
  "memDisk s p = mcFiles s (''disk'', p)"

definition diskSpace :: "memDaemon spaceDeps" where
  "diskSpace = (memSpace Map.empty Map.empty)\<lparr>lfExists := \<lambda>s p. memDisk s p \<noteq> None,
     lfTempFile := \<lambda>_. retE ''/tmp/1-f'',
     lfWrite := \<lambda>p x s. (Inr (), s\<lparr>mcFiles := (mcFiles s)((''disk'', p) \<mapsto> x)\<rparr>)\<rparr>"

definition holds_f :: "memDaemon \<Rightarrow> bool" where
  "holds_f s \<longleftrightarrow> mcFiles s (''key-personal'', ''a/f'') = Some ''abc''"

definition fDaemon :: memDaemon where
  "fDaemon = memDaemon0\<lparr>mcFiles := [(''key-personal'', ''a/f'') \<mapsto> ''abc'']\<rparr>"

theorem opened_once_witness:
  "\<exists>s1. openFrom (withFolderSync (memFolder memBucket) diskSpace) memBucket ''a/f'' False [] fDaemon = (Inr ''/tmp/1-f'', s1) \<and>
     openFrom (withFolderSync (memFolder memBucket) diskSpace) memBucket ''a/f'' False [] s1 = (Inr ''/tmp/1-f'', s1)"
proof -
  let ?F = "memFolder memBucket" and ?ld = "memItem ''a/f'' ''abc''"
  have k: "kv_store (bsStore ?F) holds_f mwStore" "watch_keeps (bsWatcher ?F) holds_f mwStore"
    by (unfold_locales) (auto simp: memFolder_def memWorldStore_def watch_keeps_def idleWatcher_def holds_f_def)
  have d: "disk_ok diskSpace ?F holds_f memDisk"
    by (auto simp: disk_ok_def diskSpace_def memDisk_def fun_eq_iff holds_f_def memFolder_def memWorldStore_def idleWatcher_def)
  have l: "ListDirectory memBucket ''a/f'' s = (Inr ?ld, s)" "GetFile memBucket ''a/f'' s = (Inr (''abc'', None), s)"
    if "holds_f s" for s
    using that by (simp_all add: holds_f_def ListDirectory_def GetFile_def GetContext_def memBucket_def bucket_New_def
        bindE_apply tryE_apply daemonBuckets_def bucket_Key_def GetData_def newRoot_def)
  have h: "has_file memBucket holds_f ''a/f'' ?ld ''abc''" using l by (simp add: has_file_def)
  have s: "holds_f fDaemon" by (simp add: holds_f_def fDaemon_def)
  have a: "list_all ascii [''a/f'', [], bucket_Key memBucket, bucket_Slug memBucket, piCid (dlItem ?ld)]"
    "bucket_Slug memBucket \<noteq> []" by code_simp+
  have e: "mwStore fDaemon = Map.empty" by (simp add: fDaemon_def memDaemon0_def memWorld.extend_def emptyWorld_def)
  have "\<exists>s1. openFrom (withFolderSync ?F diskSpace) memBucket ''a/f'' False [] fDaemon = (Inr ''/tmp/1-f'', s1)"
  proof -
    let ?s2 = "fDaemon\<lparr>mcFiles := (mcFiles fDaemon)((''disk'', ''/tmp/1-f'') \<mapsto> ''abc'')\<rparr>"
    let ?fi = "openRecord memBucket ''a/f'' False [] (piCid (dlItem ?ld)) ''/tmp/1-f''"
    have 1: "GetOpenFilePath ?F (bucket_Slug memBucket) ''a/f'' [] c fDaemon = (Inr None, fDaemon)" for c
      by (simp add: GetOpenFilePath_def bindE_apply tryE_apply getOpenFileInfo_view [OF k(1) s] e errKeyNotFound_def)
    have "bucket_Key memBucket \<noteq> []" by code_simp
    then have "\<exists>s1. AddFileWatch ?F ?fi ?s2 = (Inr (), s1)"
      by (simp add: AddFileWatch_def openRecord_def addFileInfoToStore_def memFolder_def memWorldStore_def
          AddFile_def idleWatcher_def thenE_apply bindE_apply Let_def)
    then obtain s1 where 2: "AddFileWatch ?F ?fi ?s2 = (Inr (), s1)" ..
    have "openFileOnFs (withFolderSync ?F diskSpace) ''a/f'' memBucket False [] (piCid (dlItem ?ld)) fDaemon = (Inr ''/tmp/1-f'', s1)"
      using l(2) [OF s] 2 by (simp add: openFileOnFs_def createTempFileForPath_def fetchInto_def withFolderSync_def
          diskSpace_def bindE_apply thenE_apply openRecord_def)
    then show ?thesis using l(1) [OF s] 1
      by (intro exI [of _ s1]) (simp add: openFrom_def Let_def bindE_apply withFolderSync_def)
  qed
  then obtain s1 where 1: "openFrom (withFolderSync ?F diskSpace) memBucket ''a/f'' False [] fDaemon = (Inr ''/tmp/1-f'', s1)" ..
  from opened_once [OF k d h s a 1] 1 show ?thesis by blast
qed

end
