(* ===== verification/Fsds.thy ===== *)
theory Fsds
  imports SharingServices "HOL-Library.Word"
begin

text \<open>
  The data sources of the mounted drive: \<open>core/fsds\<close>.

  \<open>SpaceFSDataSource\<close> dispatches a path to the top level directory it is in, "Files" or "Shared With
  Me", and remembers every entry it has seen.  The services they use (\<open>space.Service\<close>) are the record
  \<open>fileService\<close>, which \<open>serviceOf\<close> builds from \<open>SpaceServices\<close>.  \<open>fsDeps\<close> adds the local disk, the
  clock and the two caches; the local copy of a file is its bytes under its path, and nothing removes
  it while it is open.  A data source that returns neither an entry nor an error returns \<open>None\<close>.
\<close>

unbundle bit_operations_syntax

definition ENOENT :: err where "ENOENT = Err ''no such file or directory''"
definition ENOTSUP :: err where "ENOTSUP = Err ''operation not supported''"
definition EINVAL :: err where "EINVAL = Err ''invalid argument''"
definition EOF :: err where "EOF = Err ''EOF''"
definition nilDereference :: err where "nilDereference = Panic ''nil pointer dereference''"

subsection \<open>Directory entries\<close>

type_synonym fileMode = "32 word"

definition ModeDir :: fileMode where "ModeDir = 0x80000000"
definition StandardFileAccessMode :: fileMode where "StandardFileAccessMode = 0x1FF"
definition StandardDirAccessMode :: fileMode where "StandardDirAccessMode = ModeDir OR 0x1FF"
definition RestrictedDirAccessMode :: fileMode where "RestrictedDirAccessMode = ModeDir OR 0x140"

record dirNode =
  dnEntry :: dirEntry
  dnMode :: fileMode
  dnDbId :: bytes

definition NewDirEntryWithMode :: "dirEntry \<Rightarrow> fileMode \<Rightarrow> dirNode" where
  "NewDirEntryWithMode entry mode = \<lparr> dnEntry = entry, dnMode = mode, dnDbId = [] \<rparr>"

definition NewDirEntry :: "dirEntry \<Rightarrow> dirNode" where
  "NewDirEntry entry = NewDirEntryWithMode entry 0"

definition NewDirEntryFromFileInfo :: "int \<Rightarrow> bytes \<Rightarrow> bytes \<Rightarrow> dirNode" where
  "NewDirEntryFromFileInfo sz modTime path =
     \<lparr> dnEntry = \<lparr> dePath = pathDir path, deIsDir = False, deName = pathBase path,
         deSizeInBytes = formatInt sz, deCreated = modTime, deUpdated = modTime,
         deFileExtension = pathExt path, deMembers = [] \<rparr>,
       dnMode = StandardFileAccessMode, dnDbId = [] \<rparr>"

definition dnPath :: "dirNode \<Rightarrow> bytes" where
  "dnPath d =
     (if deIsDir (dnEntry d) then trimRight (dePath (dnEntry d)) ''/'' @ ''/'' else dePath (dnEntry d))"

definition dnSize :: "dirNode \<Rightarrow> nat" where
  "dnSize d = (case parseUint64 (deSizeInBytes (dnEntry d)) of None \<Rightarrow> 0 | Some n \<Rightarrow> n)"

definition dnAccessMode :: "dirNode \<Rightarrow> fileMode" where
  "dnAccessMode d =
     (if dnMode d \<noteq> 0 then dnMode d
      else if deIsDir (dnEntry d) then StandardDirAccessMode else StandardFileAccessMode)"

text \<open>\<open>Ctime\<close> and \<open>ModTime\<close>: a time that does not parse is the zero time.\<close>

definition dnTime :: "(bytes \<Rightarrow> int option) \<Rightarrow> bytes \<Rightarrow> int" where
  "dnTime parse t = (case parse t of None \<Rightarrow> 0 | Some n \<Rightarrow> n)"

definition setPath :: "(bytes \<Rightarrow> bytes) \<Rightarrow> dirNode \<Rightarrow> dirNode" where
  "setPath f d = d\<lparr>dnEntry := (dnEntry d)\<lparr>dePath := f (dePath (dnEntry d))\<rparr>\<rparr>"

subsection \<open>The services and the disk\<close>

record 's fileService =
  svListDir :: "ctx \<Rightarrow> bytes \<Rightarrow> bytes \<Rightarrow> bool \<Rightarrow> ('s, fileInfo list) eff"
  svOpenFile :: "ctx \<Rightarrow> bytes \<Rightarrow> bytes \<Rightarrow> bytes \<Rightarrow> ('s, bytes) eff"
  svCreateFolder :: "ctx \<Rightarrow> bytes \<Rightarrow> bytes \<Rightarrow> ('s, unit) eff"
  svAddItems :: "ctx \<Rightarrow> bytes list \<Rightarrow> bytes \<Rightarrow> bytes \<Rightarrow> ('s, addItemsResponse \<times> ('s, addItemResult list) eff) eff"
  svRemoveDirOrFile :: "ctx \<Rightarrow> bytes \<Rightarrow> bytes \<Rightarrow> ('s, unit) eff"
  svGetSharedWithMeFiles :: "ctx \<Rightarrow> bytes \<Rightarrow> int \<Rightarrow> ('s, sharedDirEntry list \<times> bytes) eff"

definition serviceOf :: "'s spaceDeps \<Rightarrow> nat \<Rightarrow> 's fileService" where
  "serviceOf D fuel =
     \<lparr> svListDir = ListDir D, svOpenFile = OpenFile D, svCreateFolder = CreateFolder D,
       svAddItems = AddItems D fuel, svRemoveDirOrFile = RemoveDirOrFile D,
       svGetSharedWithMeFiles = GetSharedWithMeFiles D \<rparr>"

record sharedFileEntry =
  seEntry :: dirNode
  seDbId :: bytes
  seBucket :: bytes

record 's fsDeps =
  fdService :: "'s fileService"
  fdNow :: "'s \<Rightarrow> bytes"
  fdTempDir :: bytes
  fdMkdirAll :: "bytes \<Rightarrow> ('s, unit) eff"
  fdWriteFile :: "bytes \<Rightarrow> bytes \<Rightarrow> ('s, unit) eff"
  fdFile :: "'s \<Rightarrow> bytes \<Rightarrow> bytes option"
  fdModTime :: "'s \<Rightarrow> bytes \<Rightarrow> bytes"
  fdEntryCache :: "'s \<Rightarrow> bytes \<rightharpoonup> dirNode"
  fdSetEntryCache :: "(bytes \<rightharpoonup> dirNode) \<Rightarrow> 's \<Rightarrow> 's"
  fdSharedCache :: "'s \<Rightarrow> bytes \<rightharpoonup> sharedFileEntry"
  fdSetSharedCache :: "(bytes \<rightharpoonup> sharedFileEntry) \<Rightarrow> 's \<Rightarrow> 's"

definition DefaultBucketName :: bytes where "DefaultBucketName = ''personal''"

definition blackListedDirEntryNames :: "bytes list" where
  "blackListedDirEntryNames =
     [''.Trashes'', ''.localized'', ''.fseventsd'', ''.ql_disablethumbnails'', ''.ql_disablecache'', ''.keep'']"

definition isBlackListed :: "bytes \<Rightarrow> bool" where
  "isBlackListed name = (name \<in> set blackListedDirEntryNames)"

definition isBaseDirectory :: "bytes \<Rightarrow> bool" where
  "isBaseDirectory path = (path = ''/'')"

definition isNotExistError :: "string \<Rightarrow> bool" where
  "isNotExistError e = (strContains e ''no link named'' \<or> strContains e ''could not resolve path'')"

definition entryAt :: "bytes \<Rightarrow> bool \<Rightarrow> bytes \<Rightarrow> bytes \<Rightarrow> dirEntry" where
  "entryAt path isDir name now =
     \<lparr> dePath = path, deIsDir = isDir, deName = name, deSizeInBytes = [], deCreated = now, deUpdated = now,
       deFileExtension = [], deMembers = [] \<rparr>"

subsection \<open>Open local copies\<close>

text \<open>
  \<open>SpaceFilesHandler\<close>: \<open>fhOpened\<close> says that \<open>localFile\<close> is not nil.  The file is opened with
  \<open>O_APPEND\<close>, so a write goes to its end wherever \<open>Seek\<close> has put the offset.  The result of an
  operation comes with the handle it leaves.
\<close>

record spaceFile =
  fhLocalPath :: bytes
  fhRemotePath :: bytes
  fhBucketName :: bytes
  fhOpened :: bool
  fhEditted :: bool

definition OpenSpaceFilesHandler :: "bytes \<Rightarrow> bytes \<Rightarrow> bytes \<Rightarrow> spaceFile" where
  "OpenSpaceFilesHandler localPath remotePath bucketName =
     \<lparr> fhLocalPath = localPath, fhRemotePath = remotePath, fhBucketName = bucketName,
       fhOpened = False, fhEditted = False \<rparr>"

definition openLocalFile :: "'s fsDeps \<Rightarrow> spaceFile \<Rightarrow> ('s, spaceFile) eff" where
  "openLocalFile F h =
     (if fhOpened h then retE h
      else getE (\<lambda>s. h\<lparr>fhOpened := (fdFile F s (fhLocalPath h) \<noteq> None)\<rparr>))"

definition localContent :: "'s fsDeps \<Rightarrow> spaceFile \<Rightarrow> ('s, bytes) eff" where
  "localContent F h =
     bindE (getE (\<lambda>s. fdFile F s (fhLocalPath h))) (\<lambda>r. case r of
         None \<Rightarrow> failE EINVAL | Some c \<Rightarrow> if fhOpened h then retE c else failE EINVAL)"

definition fh_Read :: "'s fsDeps \<Rightarrow> spaceFile \<Rightarrow> nat \<Rightarrow> int \<Rightarrow> ('s, spaceFile \<times> (string + bytes)) eff" where
  "fh_Read F h n offset =
     bindE (openLocalFile F h) (\<lambda>h.
     bindE (tryE
       (bindE (localContent F h) (\<lambda>content.
          if offset < 0 then failE EINVAL
          else (let out = take n (drop (nat offset) content) in
                if out = [] \<and> n > 0 then failE EOF else retE out))))
       (\<lambda>r. retE (h, r)))"

definition fh_Write :: "'s fsDeps \<Rightarrow> spaceFile \<Rightarrow> bytes \<Rightarrow> int \<Rightarrow> ('s, spaceFile \<times> (string + nat)) eff" where
  "fh_Write F h b offset =
     bindE (openLocalFile F h) (\<lambda>h.
     bindE (tryE
       (bindE (localContent F h) (\<lambda>content.
          if offset < 0 then failE EINVAL
          else thenE (fdWriteFile F (fhLocalPath h) (content @ b)) (retE (length b)))))
       (\<lambda>r. retE (case r of Inl _ \<Rightarrow> h | Inr _ \<Rightarrow> h\<lparr>fhEditted := True\<rparr>, r)))"

definition fh_Close :: "spaceFile \<Rightarrow> spaceFile" where
  "fh_Close h = h\<lparr>fhOpened := False\<rparr>"

definition fh_Stats :: "'s fsDeps \<Rightarrow> spaceFile \<Rightarrow> ('s, dirNode) eff" where
  "fh_Stats F h =
     bindE (getE (\<lambda>s. (fdFile F s (fhLocalPath h), fdModTime F s (fhLocalPath h)))) (\<lambda>(c, t).
       case c of None \<Rightarrow> failE ENOENT
       | Some content \<Rightarrow> retE (NewDirEntryFromFileInfo (int (length content)) t (fhRemotePath h)))"

text \<open>\<open>int64(size)\<close> of a sz from \<open>2 ^ 63\<close> on is negative.\<close>

definition fh_Truncate :: "'s fsDeps \<Rightarrow> spaceFile \<Rightarrow> nat \<Rightarrow> ('s, spaceFile \<times> (string + unit)) eff" where
  "fh_Truncate F h sz =
     bindE (openLocalFile F h) (\<lambda>h.
     bindE (tryE
       (bindE (localContent F h) (\<lambda>content.
          if sz \<ge> 2 ^ 63 then failE EINVAL
          else fdWriteFile F (fhLocalPath h)
            (take sz content @ replicate (sz - length content) (CHR 0x00)))))
       (\<lambda>r. retE (h, r)))"

subsection \<open>Files\<close>

record 's dataSource =
  dsGet :: "ctx \<Rightarrow> bytes \<Rightarrow> ('s, dirNode) eff"
  dsGetChildren :: "ctx \<Rightarrow> bytes \<Rightarrow> ('s, dirNode list) eff"
  dsOpen :: "ctx \<Rightarrow> bytes \<Rightarrow> ('s, spaceFile) eff"
  dsCreateEntry :: "ctx \<Rightarrow> bytes \<Rightarrow> fileMode \<Rightarrow> ('s, dirNode option) eff"
  dsRenameEntry :: "ctx \<Rightarrow> bytes \<Rightarrow> bytes \<Rightarrow> ('s, unit) eff"
  dsDeleteEntry :: "ctx \<Rightarrow> bytes \<Rightarrow> ('s, unit) eff"

definition baseNode :: "'s fsDeps \<Rightarrow> bytes \<Rightarrow> ('s, dirNode) eff" where
  "baseNode F path =
     bindE (getE (fdNow F)) (\<lambda>now.
       retE (NewDirEntryWithMode (entryAt path True (pathBase path) now) RestrictedDirAccessMode))"

definition notFoundOr :: "string \<Rightarrow> ('s, 'a) eff" where
  "notFoundOr e = failE (if \<not> isNotExistError e then ENOENT else Err e)"

definition files_Get :: "'s fsDeps \<Rightarrow> ctx \<Rightarrow> bytes \<Rightarrow> ('s, dirNode) eff" where
  "files_Get F c path =
     (if isBaseDirectory path \<or> path = [] then baseNode F path
      else
        bindE (tryE (svListDir (fdService F) c path DefaultBucketName True)) (\<lambda>r. case r of
            Inl e \<Rightarrow> notFoundOr e
          | Inr items \<Rightarrow>
              bindE (getE (fdNow F)) (\<lambda>now.
                if items \<noteq> [] then retE (NewDirEntry (entryAt path True (pathBase path) now))
                else
                  bindE (tryE (svOpenFile (fdService F) c path DefaultBucketName [])) (\<lambda>q. case q of
                      Inl _ \<Rightarrow> failE ENOENT
                    | Inr location \<Rightarrow>
                        bindE (getE (\<lambda>s. fdFile F s location)) (\<lambda>file. case file of
                            None \<Rightarrow> failE ENOENT
                          | Some content \<Rightarrow>
                              retE (NewDirEntry ((entryAt path False (pathBase path) now)
                                \<lparr>deSizeInBytes := formatInt (int (length content)),
                                 deFileExtension := pathExt path\<rparr>)))))))"

definition files_GetChildren :: "'s fsDeps \<Rightarrow> ctx \<Rightarrow> bytes \<Rightarrow> ('s, dirNode list) eff" where
  "files_GetChildren F c path =
     bindE (svListDir (fdService F) c path DefaultBucketName True) (\<lambda>es.
       retE (map (\<lambda>e. NewDirEntry (dirEntry.truncate e)) es))"

definition files_Open :: "'s fsDeps \<Rightarrow> ctx \<Rightarrow> bytes \<Rightarrow> ('s, spaceFile) eff" where
  "files_Open F c path =
     bindE (svOpenFile (fdService F) c path DefaultBucketName []) (\<lambda>location.
       retE (OpenSpaceFilesHandler location path DefaultBucketName))"

definition isDirMode :: "fileMode \<Rightarrow> bool" where
  "isDirMode mode = (mode AND ModeDir \<noteq> 0)"

text \<open>
  A new file is an empty local file that is added; the first result is waited for, and when it carries
  an error the code returns the \<open>err\<close> of before, which is nil, with a nil entry.
\<close>

definition files_CreateEntry :: "'s fsDeps \<Rightarrow> ctx \<Rightarrow> bytes \<Rightarrow> fileMode \<Rightarrow> ('s, dirNode option) eff" where
  "files_CreateEntry F c path mode =
     (let entryName = pathBase path; parentDir = pathDir path in
      if isDirMode mode then
        bindE (svCreateFolder (fdService F) c path DefaultBucketName) (\<lambda>_.
        bindE (getE (fdNow F)) (\<lambda>now. retE (Some (NewDirEntry (entryAt path True entryName now)))))
      else
        (let newFilePath = pathJoin [fdTempDir F, path] in
         bindE (tryE (fdMkdirAll F (pathDir newFilePath))) (\<lambda>_.
         bindE (fdWriteFile F newFilePath []) (\<lambda>_.
         bindE (svAddItems (fdService F) c [newFilePath] parentDir DefaultBucketName) (\<lambda>(_, results).
         bindE results (\<lambda>rs.
           if (case rs of r # _ \<Rightarrow> arError r \<noteq> None | [] \<Rightarrow> False) then retE None
           else bindE (getE (fdNow F)) (\<lambda>now. retE (Some (NewDirEntry (entryAt path False entryName now))))))))))"

definition areAllEntriesHidden :: "dirNode list \<Rightarrow> bool" where
  "areAllEntriesHidden entries = list_all (\<lambda>d. isBlackListed (pathBase (deName (dnEntry d)))) entries"

definition files_RenameEntry :: "'s fsDeps \<Rightarrow> ctx \<Rightarrow> bytes \<Rightarrow> bytes \<Rightarrow> ('s, unit) eff" where
  "files_RenameEntry F c oldPath newPath =
     bindE (files_Get F c oldPath) (\<lambda>entry.
       if \<not> deIsDir (dnEntry entry) then failE ENOTSUP
       else
         bindE (files_GetChildren F c oldPath) (\<lambda>children.
           if children \<noteq> [] \<and> \<not> areAllEntriesHidden children then failE ENOTSUP
           else
             bindE (tryE (svCreateFolder (fdService F) c newPath DefaultBucketName)) (\<lambda>r. case r of
                 Inl _ \<Rightarrow> failE ENOTSUP
               | Inr _ \<Rightarrow> svRemoveDirOrFile (fdService F) c oldPath DefaultBucketName)))"

definition files_DeleteEntry :: "'s fsDeps \<Rightarrow> ctx \<Rightarrow> bytes \<Rightarrow> ('s, unit) eff" where
  "files_DeleteEntry F c path = svRemoveDirOrFile (fdService F) c path DefaultBucketName"

definition filesDataSource :: "'s fsDeps \<Rightarrow> 's dataSource" where
  "filesDataSource F =
     \<lparr> dsGet = files_Get F, dsGetChildren = files_GetChildren F, dsOpen = files_Open F,
       dsCreateEntry = files_CreateEntry F, dsRenameEntry = files_RenameEntry F,
       dsDeleteEntry = files_DeleteEntry F \<rparr>"

subsection \<open>Shared with me\<close>

definition maxDirLimit :: int where "maxDirLimit = 1000"

definition cacheResults :: "'s fsDeps \<Rightarrow> sharedDirEntry list \<Rightarrow> ('s, unit) eff" where
  "cacheResults F items =
     modE (\<lambda>s. fdSetSharedCache F
       (fold (\<lambda>e m. m(dePath e \<mapsto> \<lparr> seEntry = NewDirEntryWithMode (dirEntry.truncate e) StandardFileAccessMode,
            seDbId = sdDbID e, seBucket = sdBucket e \<rparr>)) items (fdSharedCache F s)) s)"

definition shared_Get :: "'s fsDeps \<Rightarrow> ctx \<Rightarrow> bytes \<Rightarrow> ('s, dirNode) eff" where
  "shared_Get F c path =
     (if isBaseDirectory path \<or> path = [] then baseNode F path
      else
        bindE (getE (\<lambda>s. fdSharedCache F s path)) (\<lambda>cached. case cached of
            Some e \<Rightarrow> retE (seEntry e)
          | None \<Rightarrow>
              bindE (tryE (svGetSharedWithMeFiles (fdService F) c [] maxDirLimit)) (\<lambda>r. case r of
                  Inl e \<Rightarrow> notFoundOr e
                | Inr (items, _) \<Rightarrow>
                    thenE (cacheResults F items)
                      (case filter (\<lambda>e. dePath e = path) items of
                         [] \<Rightarrow> failE ENOENT
                       | e # _ \<Rightarrow> retE (NewDirEntry (dirEntry.truncate e))))))"

definition shared_GetChildren :: "'s fsDeps \<Rightarrow> ctx \<Rightarrow> bytes \<Rightarrow> ('s, dirNode list) eff" where
  "shared_GetChildren F c path =
     (if \<not> isBaseDirectory path \<and> path \<noteq> [] then retE []
      else
        bindE (svGetSharedWithMeFiles (fdService F) c [] maxDirLimit) (\<lambda>(entries, _).
        thenE (cacheResults F entries)
          (retE (map (\<lambda>e. NewDirEntry (dirEntry.truncate e)) entries))))"

definition shared_Open :: "'s fsDeps \<Rightarrow> ctx \<Rightarrow> bytes \<Rightarrow> ('s, spaceFile) eff" where
  "shared_Open F c path =
     bindE (getE (\<lambda>s. fdSharedCache F s path)) (\<lambda>cached. case cached of
         None \<Rightarrow> failE ENOENT
       | Some e \<Rightarrow>
           bindE (svOpenFile (fdService F) c path (seBucket e) (seDbId e)) (\<lambda>location.
             retE (OpenSpaceFilesHandler location path (seBucket e))))"

definition sharedWithMeDataSource :: "'s fsDeps \<Rightarrow> 's dataSource" where
  "sharedWithMeDataSource F =
     \<lparr> dsGet = shared_Get F, dsGetChildren = shared_GetChildren F, dsOpen = shared_Open F,
       dsCreateEntry = \<lambda>_ _ _. failE ENOTSUP, dsRenameEntry = \<lambda>_ _ _. failE ENOTSUP,
       dsDeleteEntry = \<lambda>_ _. failE ENOTSUP \<rparr>"

subsection \<open>The drive\<close>

record 's tlfSource =
  tlName :: bytes
  tlBasePath :: bytes
  tlSource :: "'s dataSource"

definition ChildPath :: "'s tlfSource \<Rightarrow> bytes \<Rightarrow> bytes" where
  "ChildPath t path = trimPrefix path (tlBasePath t)"

definition ParentPath :: "'s tlfSource \<Rightarrow> bytes \<Rightarrow> bytes" where
  "ParentPath t path = pathJoin [tlBasePath t, path]"

definition tlfSources :: "'s fsDeps \<Rightarrow> 's tlfSource list" where
  "tlfSources F =
     [\<lparr> tlName = ''Files'', tlBasePath = ''/Files'', tlSource = filesDataSource F \<rparr>,
      \<lparr> tlName = ''Shared With Me'', tlBasePath = ''/Shared With Me'', tlSource = sharedWithMeDataSource F \<rparr>]"

definition baseDir :: dirNode where
  "baseDir = NewDirEntryWithMode (entryAt ''/'' True [] []) RestrictedDirAccessMode"

definition findTLFDataSource :: "'s tlfSource list \<Rightarrow> bytes \<Rightarrow> 's tlfSource option" where
  "findTLFDataSource ts path =
     (case filter (\<lambda>t. hasPrefix path (tlBasePath t)) ts of [] \<Rightarrow> None | t # _ \<Rightarrow> Some t)"

definition cacheEntries :: "'s fsDeps \<Rightarrow> (bytes \<times> dirNode) list \<Rightarrow> ('s, unit) eff" where
  "cacheEntries F es =
     modE (\<lambda>s. fdSetEntryCache F (fdEntryCache F s ++ map_of (rev es)) s)"

definition drive_Get :: "'s fsDeps \<Rightarrow> 's tlfSource list \<Rightarrow> ctx \<Rightarrow> bytes \<Rightarrow> ('s, dirNode) eff" where
  "drive_Get F ts c path =
     (if isBlackListed (pathBase path) then failE ENOENT
      else if isBaseDirectory path then retE baseDir
      else
        bindE (getE (\<lambda>s. fdEntryCache F s path)) (\<lambda>cached. case cached of
            Some e \<Rightarrow> retE e
          | None \<Rightarrow> (case findTLFDataSource ts path of
                None \<Rightarrow> failE ENOENT
              | Some t \<Rightarrow>
                  bindE (dsGet (tlSource t) c (ChildPath t path)) (\<lambda>d.
                    let d = setPath (ParentPath t) d in
                    thenE (cacheEntries F [(path, d)]) (retE d)))))"

definition getTopLevelDirectories :: "'s tlfSource list \<Rightarrow> dirNode list" where
  "getTopLevelDirectories ts =
     map (\<lambda>t. NewDirEntryWithMode (entryAt (tlBasePath t) True (tlName t) []) RestrictedDirAccessMode) ts"

definition drive_GetChildren :: "'s fsDeps \<Rightarrow> 's tlfSource list \<Rightarrow> ctx \<Rightarrow> bytes \<Rightarrow> ('s, dirNode list) eff" where
  "drive_GetChildren F ts c path =
     (if isBlackListed (pathBase path) then failE ENOENT
      else if isBaseDirectory path then retE (getTopLevelDirectories ts)
      else (case findTLFDataSource ts path of
          None \<Rightarrow> failE ENOENT
        | Some t \<Rightarrow>
            bindE (dsGetChildren (tlSource t) c (ChildPath t path)) (\<lambda>ds.
              let ds = map (setPath (ParentPath t)) ds in
              thenE (cacheEntries F (map (\<lambda>d. (dePath (dnEntry d), d)) ds)) (retE ds))))"

definition drive_Open :: "'s tlfSource list \<Rightarrow> ctx \<Rightarrow> bytes \<Rightarrow> ('s, spaceFile) eff" where
  "drive_Open ts c path = (case findTLFDataSource ts path of
       None \<Rightarrow> failE ENOENT | Some t \<Rightarrow> dsOpen (tlSource t) c (ChildPath t path))"

definition drive_CreateEntry :: "'s tlfSource list \<Rightarrow> ctx \<Rightarrow> bytes \<Rightarrow> fileMode \<Rightarrow> ('s, dirNode option) eff" where
  "drive_CreateEntry ts c path mode = (case findTLFDataSource ts path of
       None \<Rightarrow> failE ENOTSUP
     | Some t \<Rightarrow>
         bindE (dsCreateEntry (tlSource t) c (ChildPath t path) mode) (\<lambda>r.
           retE (map_option (setPath (ParentPath t)) r)))"

text \<open>\<open>oldPathDataSource.name\<close> and \<open>dataSource.DeleteEntry\<close> are used on a nil pointer when there is none.\<close>

definition drive_RenameEntry :: "'s tlfSource list \<Rightarrow> ctx \<Rightarrow> bytes \<Rightarrow> bytes \<Rightarrow> ('s, unit) eff" where
  "drive_RenameEntry ts c oldPath newPath =
     (case (findTLFDataSource ts oldPath, findTLFDataSource ts newPath) of
        (Some t, Some t') \<Rightarrow>
          if tlName t \<noteq> tlName t' then failE ENOTSUP
          else dsRenameEntry (tlSource t) c (ChildPath t oldPath) (ChildPath t newPath)
      | _ \<Rightarrow> failE nilDereference)"

definition drive_DeleteEntry :: "'s tlfSource list \<Rightarrow> ctx \<Rightarrow> bytes \<Rightarrow> ('s, unit) eff" where
  "drive_DeleteEntry ts c path = (case findTLFDataSource ts path of
       None \<Rightarrow> failE nilDereference | Some t \<Rightarrow> dsDeleteEntry (tlSource t) c (ChildPath t path))"

definition spaceFSDataSource :: "'s fsDeps \<Rightarrow> 's tlfSource list \<Rightarrow> 's dataSource" where
  "spaceFSDataSource F ts =
     \<lparr> dsGet = drive_Get F ts, dsGetChildren = drive_GetChildren F ts, dsOpen = drive_Open ts,
       dsCreateEntry = drive_CreateEntry ts, dsRenameEntry = drive_RenameEntry ts,
       dsDeleteEntry = drive_DeleteEntry ts \<rparr>"

end
