(* ===== verification/SpaceFs.thy ===== *)
theory SpaceFs
  imports Fsds
begin

text \<open>
  The file system of the drive: \<open>core/spacefs/fs.go\<close> over a data source, and what \<open>core/libfuse\<close>
  makes of the kernel's requests (\<open>directory.go\<close>, \<open>files.go\<close>, \<open>block_size.go\<close> and \<open>vfs.go\<close>).

  A directory and a file are told apart by the constructor, as the code does by type assertions.  The
  operations of a file that was opened are those of \<open>Fsds\<close>.
\<close>

unbundle bit_operations_syntax

subsection \<open>spacefs\<close>

datatype fsNode = SpaceDirectory dirNode | SpaceFile dirNode

definition nodeOf :: "dirNode \<Rightarrow> fsNode" where
  "nodeOf d = (if deIsDir (dnEntry d) then SpaceDirectory d else SpaceFile d)"

definition fs_Root :: "'s dataSource \<Rightarrow> ctx \<Rightarrow> ('s, fsNode) eff" where
  "fs_Root S c = bindE (dsGet S c ''/'') (\<lambda>d. retE (SpaceDirectory d))"

definition fs_LookupPath :: "'s dataSource \<Rightarrow> ctx \<Rightarrow> bytes \<Rightarrow> ('s, fsNode) eff" where
  "fs_LookupPath S c path =
     bindE (tryE (dsGet S c path)) (\<lambda>r. case r of Inl _ \<Rightarrow> failE ENOENT | Inr d \<Rightarrow> retE (nodeOf d))"

definition fs_CreateEntry :: "'s dataSource \<Rightarrow> ctx \<Rightarrow> bytes \<Rightarrow> fileMode \<Rightarrow> ('s, fsNode) eff" where
  "fs_CreateEntry S c path mode =
     bindE (tryE (dsCreateEntry S c path mode)) (\<lambda>r. case r of
         Inl _ \<Rightarrow> failE ENOENT
       | Inr None \<Rightarrow> failE nilDereference
       | Inr (Some d) \<Rightarrow> retE (nodeOf d))"

definition fs_RenameEntry :: "'s dataSource \<Rightarrow> ctx \<Rightarrow> bytes \<Rightarrow> bytes \<Rightarrow> ('s, unit) eff" where
  "fs_RenameEntry S c oldPath newPath = dsRenameEntry S c oldPath newPath"

definition fs_DeleteEntry :: "'s dataSource \<Rightarrow> ctx \<Rightarrow> bytes \<Rightarrow> ('s, unit) eff" where
  "fs_DeleteEntry S c path = dsDeleteEntry S c path"

definition fs_Open :: "'s dataSource \<Rightarrow> ctx \<Rightarrow> bytes \<Rightarrow> ('s, spaceFile) eff" where
  "fs_Open S c path = dsOpen S c path"

definition fs_ReadDir :: "'s dataSource \<Rightarrow> ctx \<Rightarrow> dirNode \<Rightarrow> ('s, fsNode list) eff" where
  "fs_ReadDir S c dir =
     bindE (tryE (dsGetChildren S c (dnPath dir))) (\<lambda>r. case r of
         Inl _ \<Rightarrow> failE ENOENT | Inr ds \<Rightarrow> retE (map nodeOf ds))"

definition fs_FileAttribute :: "'s fsDeps \<Rightarrow> 's dataSource \<Rightarrow> ctx \<Rightarrow> dirNode \<Rightarrow> ('s, dirNode) eff" where
  "fs_FileAttribute F S c file = bindE (dsOpen S c (dnPath file)) (fh_Stats F)"

definition fs_Attribute :: "'s fsDeps \<Rightarrow> 's dataSource \<Rightarrow> ctx \<Rightarrow> fsNode \<Rightarrow> ('s, dirNode) eff" where
  "fs_Attribute F S c n = (case n of
       SpaceDirectory d \<Rightarrow> retE d | SpaceFile f \<Rightarrow> fs_FileAttribute F S c f)"

definition fs_FileOpen :: "'s dataSource \<Rightarrow> ctx \<Rightarrow> dirNode \<Rightarrow> ('s, spaceFile) eff" where
  "fs_FileOpen S c file = fs_Open S c (dnPath file)"

definition fs_Truncate :: "'s fsDeps \<Rightarrow> 's dataSource \<Rightarrow> ctx \<Rightarrow> dirNode \<Rightarrow> nat \<Rightarrow> ('s, unit) eff" where
  "fs_Truncate F S c file sz =
     bindE (dsOpen S c (dnPath file)) (\<lambda>h.
     bindE (fh_Truncate F h sz) (\<lambda>(_, r). case r of Inl e \<Rightarrow> failE (Err e) | Inr _ \<Rightarrow> retE ()))"

subsection \<open>Block sizes\<close>

definition fuseBlockSize :: "64 word" where "fuseBlockSize = 512"

definition getNumBlocksFromSize :: "64 word \<Rightarrow> 64 word" where
  "getNumBlocksFromSize sz = (if sz = 0 then 0 else (sz - 1) div fuseBlockSize + 1)"

definition storageSize :: "64 word" where "storageSize = push_bit 50 1"

record statfs =
  sfBsize :: "64 word"
  sfNamelen :: "32 word"
  sfFrsize :: "64 word"
  sfBlocks :: "64 word"
  sfBavail :: "64 word"
  sfBfree :: "64 word"

definition vfs_Statfs :: statfs where
  "vfs_Statfs =
     (let total = getNumBlocksFromSize storageSize; used = getNumBlocksFromSize 0 in
      \<lparr> sfBsize = fuseBlockSize, sfNamelen = NOT 0, sfFrsize = fuseBlockSize, sfBlocks = total,
        sfBavail = total - used, sfBfree = total - used \<rparr>)"

subsection \<open>Directories of the drive\<close>

record fuseAttr =
  faSize :: "64 word"
  faBlocks :: "64 word"
  faMode :: fileMode
  faMtime :: int
  faCtime :: int

record fuseDirent =
  fuName :: bytes
  fuIsDir :: bool

definition dir_Attr :: "dirNode \<Rightarrow> fuseAttr" where
  "dir_Attr d = \<lparr> faSize = 0, faBlocks = 0, faMode = dnAccessMode d, faMtime = 0, faCtime = 0 \<rparr>"

definition ReadDirAll :: "'s fsDeps \<Rightarrow> 's dataSource \<Rightarrow> ctx \<Rightarrow> dirNode \<Rightarrow> ('s, fuseDirent list) eff" where
  "ReadDirAll F S c dir =
     bindE (fs_ReadDir S c dir) (\<lambda>dirList.
     mapE (\<lambda>n. bindE (fs_Attribute F S c n) (\<lambda>a.
       retE \<lparr> fuName = deName (dnEntry a), fuIsDir = deIsDir (dnEntry a) \<rparr>)) dirList)"

text \<open>An entry whose attribute says otherwise than its type is not found.\<close>

definition Lookup :: "'s fsDeps \<Rightarrow> 's dataSource \<Rightarrow> ctx \<Rightarrow> dirNode \<Rightarrow> bytes \<Rightarrow> ('s, fsNode) eff" where
  "Lookup F S c dir name =
     bindE (fs_LookupPath S c (dnPath dir @ name)) (\<lambda>n.
     bindE (fs_Attribute F S c n) (\<lambda>a. case n of
         SpaceDirectory d \<Rightarrow> if deIsDir (dnEntry a) then retE n else failE ENOENT
       | SpaceFile f \<Rightarrow> if deIsDir (dnEntry a) then failE ENOENT else retE n))"

definition entryPath :: "dirNode \<Rightarrow> bytes \<Rightarrow> bytes" where
  "entryPath dir name = trimSuffix (dnPath dir) ''/'' @ ''/'' @ name"

definition vfs_Create ::
  "'s dataSource \<Rightarrow> ctx \<Rightarrow> dirNode \<Rightarrow> bytes \<Rightarrow> fileMode \<Rightarrow> ('s, fsNode \<times> spaceFile option) eff" where
  "vfs_Create S c dir name mode =
     bindE (fs_CreateEntry S c (entryPath dir name) mode) (\<lambda>n. case n of
         SpaceDirectory d \<Rightarrow> retE (n, None)
       | SpaceFile f \<Rightarrow> bindE (fs_FileOpen S c f) (\<lambda>h. retE (n, Some h)))"

definition vfs_Mkdir :: "'s dataSource \<Rightarrow> ctx \<Rightarrow> dirNode \<Rightarrow> bytes \<Rightarrow> fileMode \<Rightarrow> ('s, fsNode) eff" where
  "vfs_Mkdir S c dir name mode =
     bindE (fs_CreateEntry S c (entryPath dir name) mode) (\<lambda>n. case n of
         SpaceDirectory d \<Rightarrow> retE n | SpaceFile f \<Rightarrow> failE ENOTSUP)"

text \<open>The new name is put under the old directory: \<open>newDir\<close> is not looked at.\<close>

definition vfs_Rename :: "'s dataSource \<Rightarrow> ctx \<Rightarrow> dirNode \<Rightarrow> bytes \<Rightarrow> bytes \<Rightarrow> dirNode \<Rightarrow> ('s, unit) eff" where
  "vfs_Rename S c dir oldName newName newDir =
     fs_RenameEntry S c (pathJoin [dnPath dir, oldName]) (pathJoin [dnPath dir, newName])"

definition vfs_Remove :: "'s dataSource \<Rightarrow> ctx \<Rightarrow> dirNode \<Rightarrow> bytes \<Rightarrow> ('s, unit) eff" where
  "vfs_Remove S c dir name = fs_DeleteEntry S c (pathJoin [dnPath dir, name])"

subsection \<open>Files of the drive\<close>

definition file_Attr :: "'s fsDeps \<Rightarrow> (bytes \<Rightarrow> int option) \<Rightarrow> 's dataSource \<Rightarrow> ctx \<Rightarrow> dirNode \<Rightarrow> ('s, fuseAttr) eff" where
  "file_Attr F parseTime S c file =
     bindE (fs_FileAttribute F S c file) (\<lambda>a.
       let sz = word_of_nat (dnSize a) in
       retE \<lparr> faSize = sz, faBlocks = getNumBlocksFromSize sz, faMode = dnAccessMode a,
              faMtime = dnTime parseTime (deUpdated (dnEntry a)),
              faCtime = dnTime parseTime (deCreated (dnEntry a)) \<rparr>)"

text \<open>Only execution is refused, to everyone; other users than the owner and root get nothing.\<close>

definition EPERM :: err where "EPERM = Err ''operation not permitted''"

definition file_Access ::
  "'s fsDeps \<Rightarrow> 's dataSource \<Rightarrow> ctx \<Rightarrow> dirNode \<Rightarrow> 32 word \<Rightarrow> int \<Rightarrow> 32 word \<Rightarrow> ('s, unit) eff" where
  "file_Access F S c file uid ownUid accessMask =
     (if uint uid \<noteq> ownUid \<and> uid \<noteq> 0 then failE EPERM
      else if accessMask AND 3 = 0 then retE ()
      else if accessMask AND 1 \<noteq> 0 then bindE (fs_FileAttribute F S c file) (\<lambda>_. failE EPERM)
      else retE ())"

definition file_Setattr :: "'s fsDeps \<Rightarrow> 's dataSource \<Rightarrow> ctx \<Rightarrow> dirNode \<Rightarrow> nat option \<Rightarrow> ('s, unit) eff" where
  "file_Setattr F S c file sz = (case sz of None \<Rightarrow> retE () | Some n \<Rightarrow> fs_Truncate F S c file n)"

definition NewVFSFileHandler :: "'s dataSource \<Rightarrow> ctx \<Rightarrow> dirNode \<Rightarrow> ('s, spaceFile) eff" where
  "NewVFSFileHandler S c file = fs_FileOpen S c file"

definition vfh_Read :: "'s fsDeps \<Rightarrow> spaceFile \<Rightarrow> nat \<Rightarrow> int \<Rightarrow> ('s, spaceFile \<times> (string + bytes)) eff" where
  "vfh_Read F h sz offset = fh_Read F h sz offset"

definition vfh_Write :: "'s fsDeps \<Rightarrow> spaceFile \<Rightarrow> bytes \<Rightarrow> int \<Rightarrow> ('s, spaceFile \<times> (string + nat)) eff" where
  "vfh_Write F h data offset = fh_Write F h data offset"

definition vfh_Release :: "spaceFile \<Rightarrow> spaceFile" where
  "vfh_Release h = fh_Close h"

subsection \<open>Mounting\<close>

text \<open>
  The library: \<open>flMount\<close> gives a connection, \<open>flServe\<close> blocks until it ends, \<open>flMountError\<close> is what
  the mount process reported.
\<close>

record ('s, 'c) fuseLib =
  flMount :: "bytes \<Rightarrow> bytes \<Rightarrow> ('s, 'c) eff"
  flServe :: "'c \<Rightarrow> ('s, unit) eff"
  flMountError :: "'c \<Rightarrow> ('s, unit) eff"
  flClose :: "'c \<Rightarrow> ('s, unit) eff"
  flUnmount :: "bytes \<Rightarrow> ('s, unit) eff"
  flConn :: "'s \<Rightarrow> 'c option"
  flPath :: "'s \<Rightarrow> bytes"
  flSet :: "'c option \<Rightarrow> bytes \<Rightarrow> 's \<Rightarrow> 's"

definition errorNotMounted :: err where "errorNotMounted = Err ''VFS not mounted yet''"

definition vfs_Mount :: "('s, 'c) fuseLib \<Rightarrow> bytes \<Rightarrow> bytes \<Rightarrow> ('s, unit) eff" where
  "vfs_Mount V mountPath fsName =
     bindE (flMount V mountPath fsName) (\<lambda>conn. modE (flSet V (Some conn) mountPath))"

definition vfs_IsMounted :: "('s, 'c) fuseLib \<Rightarrow> 's \<Rightarrow> bool" where
  "vfs_IsMounted V s = (flConn V s \<noteq> None)"

definition vfs_Serve :: "('s, 'c) fuseLib \<Rightarrow> ('s, unit) eff" where
  "vfs_Serve V =
     bindE (getE (flConn V)) (\<lambda>conn. case conn of
         None \<Rightarrow> failE errorNotMounted
       | Some k \<Rightarrow> thenE (flServe V k) (thenE (flMountError V k) (modE (\<lambda>s. flSet V None (flPath V s) s))))"

definition vfs_Unmount :: "('s, 'c) fuseLib \<Rightarrow> ('s, unit) eff" where
  "vfs_Unmount V =
     bindE (getE (flConn V)) (\<lambda>conn. case conn of
         None \<Rightarrow> failE errorNotMounted
       | Some k \<Rightarrow>
           thenE (flClose V k)
           (bindE (getE (flPath V)) (\<lambda>path.
            thenE (flUnmount V path) (modE (\<lambda>s. flSet V None (flPath V s) s)))))"

definition vfs_Root :: "'s dataSource \<Rightarrow> ctx \<Rightarrow> ('s, dirNode) eff" where
  "vfs_Root S c =
     bindE (fs_Root S c) (\<lambda>n. case n of
         SpaceDirectory d \<Rightarrow> retE d
       | SpaceFile _ \<Rightarrow> failE (Err ''root directory is not a spacefs.DirOps''))"

subsection \<open>Blocks\<close>

lemma unat_blocks: "unat (getNumBlocksFromSize sz) = (unat sz + 511) div 512"
proof (cases "sz = 0")
  case False
  then have u: "unat (sz - 1) = unat sz - 1" "unat sz > 0"
    by (simp_all add: unat_minus_one unat_gt_0)
  have lt: "unat sz < 2 ^ 64" by (rule order_less_le_trans [OF unsigned_less]) simp
  have d: "unat ((sz - 1) div 512) = (unat sz - 1) div 512"
    by (simp add: unat_div u)
  have "unat ((sz - 1) div 512 + 1) = (unat sz - 1) div 512 + 1"
    by (subst unat_add_lem [THEN iffD1]) (use lt in \<open>simp_all add: d\<close>)
  then show ?thesis
    using False u(2) by (simp add: getNumBlocksFromSize_def fuseBlockSize_def)
qed (simp add: getNumBlocksFromSize_def)

end
