(* ===== verification/DriveFacts.thy ===== *)
theory DriveFacts
  imports SpaceFs
begin

text \<open>
  What the mounted drive does: listings and look-ups agree through the entry cache, which is never
  invalidated; a new file that fails to upload; where a write goes; how many blocks a file has.
\<close>

subsection \<open>The disk\<close>

text \<open>A local file that was written has what was written.\<close>

definition disk_ok :: "'s fsDeps \<Rightarrow> bool" where
  "disk_ok F \<longleftrightarrow> (\<forall>p x s u s'. fdWriteFile F p x s = (Inr u, s') \<longrightarrow> fdFile F s' p = Some x)"

text \<open>What \<open>pwrite\<close> would leave: the bytes at the offset, over a hole if the file is shorter.\<close>

definition pwrite :: "bytes \<Rightarrow> nat \<Rightarrow> bytes \<Rightarrow> bytes" where
  "pwrite c off b = take off c @ replicate (off - length c) (CHR 0x00) @ b @ drop (off + length b) c"

lemma append_pwrite: "c @ b = pwrite c off b \<longleftrightarrow> b = [] \<and> off \<le> length c \<or> off = length c"
proof
  assume "c @ b = pwrite c off b"
  then have "length (c @ b) = length (pwrite c off b)" by (rule arg_cong)
  then show "b = [] \<and> off \<le> length c \<or> off = length c" by (cases b) (auto simp: pwrite_def)
qed (auto simp: pwrite_def)

text \<open>
  A write through an open file goes to the end of it, whatever the offset of the request: the file
  then is what the kernel asked for only if the offset was the end of the file.
\<close>

theorem write_goes_to_end:
  assumes "disk_ok F" "fdFile F s (fhLocalPath h) = Some content" "0 \<le> offset" "b \<noteq> []"
    "vfh_Write F h b offset s = (Inr (h', Inr n), s')"
  shows "n = length b \<and> fdFile F s' (fhLocalPath h) = Some (content @ b) \<and>
    (fdFile F s' (fhLocalPath h) = Some (pwrite content (nat offset) b) \<longleftrightarrow> offset = int (length content))"
proof -
  define h1 where "h1 = h\<lparr>fhOpened := True\<rparr>"
  have h1: "openLocalFile F h s = (Inr h1, s)"
    using assms(2) by (cases h) (auto simp: openLocalFile_def h1_def)
  have c: "localContent F h1 s = (Inr content, s)"
    using assms(2) by (simp add: localContent_def h1_def bindE_apply)
  have l: "fhLocalPath h1 = fhLocalPath h" by (simp add: h1_def)
  have "\<exists>u. fdWriteFile F (fhLocalPath h) (content @ b) s = (Inr u, s') \<and> n = length b"
    using assms(3,5)
    by (auto simp: vfh_Write_def fh_Write_def bindE_apply tryE_apply thenE_apply h1 c l
        split: prod.splits sum.splits err.splits)
  then have "fdFile F s' (fhLocalPath h) = Some (content @ b)" "n = length b"
    using assms(1) unfolding disk_ok_def by blast+
  then show ?thesis using append_pwrite [of content b "nat offset"] assms(3,4) by auto
qed

subsection \<open>Listing and looking up\<close>

definition caches_ok :: "'s fsDeps \<Rightarrow> bool" where
  "caches_ok F \<longleftrightarrow> (\<forall>m s. fdEntryCache F (fdSetEntryCache F m s) = m)"

lemma drive_Get_cached:
  "fdEntryCache F s p = Some d \<Longrightarrow> \<not> isBlackListed (pathBase p) \<Longrightarrow> p \<noteq> ''/'' \<Longrightarrow>
   drive_Get F ts c p s = (Inr d, s)"
  by (simp add: drive_Get_def isBaseDirectory_def bindE_apply)

lemma map_of_rev_last:
  "map_of (rev (map (\<lambda>d. (f d, d)) ds)) p =
     (let xs = filter (\<lambda>d. f d = p) ds in if xs = [] then None else Some (last xs))"
  by (induction ds rule: rev_induct) (auto simp: Let_def)

lemma last_only: "distinct (map f ds) \<Longrightarrow> d \<in> set ds \<Longrightarrow> last (filter (\<lambda>e. f e = f d) ds) = d"
  by (induction ds) (auto simp: image_iff filter_empty_conv)

text \<open>
  C31. What a directory other than the root lists is what a look-up of the listed path then finds,
  without asking the services again: of several entries with one path the last.  Two paths are answered
  before the entries that were listed are looked at: one with a hidden name is not found, and the path
  of the root is the root.
\<close>

theorem listed_entry_found:
  assumes "caches_ok F" "drive_GetChildren F ts c dir s = (Inr ds, s')" "dir \<noteq> ''/''" "d \<in> set ds"
  defines "p \<equiv> dePath (dnEntry d)" and "found \<equiv> last (filter (\<lambda>e. dePath (dnEntry e) = dePath (dnEntry d)) ds)"
  shows "drive_Get F ts c p s' =
      (if isBlackListed (pathBase p) then Inl ENOENT else if p = ''/'' then Inr baseDir else Inr found, s') \<and>
    found \<in> set ds \<and> dePath (dnEntry found) = p \<and>
    (distinct (map (\<lambda>d. dePath (dnEntry d)) ds) \<longrightarrow> found = d)"
proof -
  let ?es = "map (\<lambda>d. (dePath (dnEntry d), d)) ds"
  obtain s1 where s: "s' = fdSetEntryCache F (fdEntryCache F s1 ++ map_of (rev ?es)) s1"
    using assms(2,3) by (auto simp: drive_GetChildren_def isBaseDirectory_def bindE_eq_Inr thenE_eq_Inr Let_def
        cacheEntries_def split: if_splits option.splits)
  have ne: "filter (\<lambda>e. dePath (dnEntry e) = dePath (dnEntry d)) ds \<noteq> []"
    using assms(4) by (auto simp: filter_empty_conv)
  then have "fdEntryCache F s' p = Some found"
    using assms(1) map_of_rev_last [of "\<lambda>d. dePath (dnEntry d)" ds p]
    by (simp add: s caches_ok_def p_def found_def)
  then have "drive_Get F ts c p s' =
      (if isBlackListed (pathBase p) then Inl ENOENT else if p = ''/'' then Inr baseDir else Inr found, s')"
    by (simp add: drive_Get_def isBaseDirectory_def bindE_apply)
  moreover have "found \<in> set ds \<and> dePath (dnEntry found) = p"
    using last_in_set [OF ne] by (auto simp: found_def p_def)
  moreover have "found = d" if "distinct (map (\<lambda>d. dePath (dnEntry d)) ds)"
    unfolding found_def using last_only [OF that assms(4)] by simp
  ultimately show ?thesis by blast
qed

text \<open>
  An entry that was looked up is found for ever: removing it, whatever the services do, leaves it in
  the cache, and the next look-up returns it although the file is gone.
\<close>

theorem removed_entry_found:
  assumes "caches_ok F" "drive_Get F ts c p s = (Inr d, s1)" "p \<noteq> ''/''"
    "drive_DeleteEntry ts c p s1 = (r, s2)" "fdEntryCache F s2 = fdEntryCache F s1"
  shows "drive_Get F ts c p s2 = (Inr d, s2)"
proof -
  have b: "\<not> isBlackListed (pathBase p)"
    using assms(2) by (auto simp: drive_Get_def split: if_splits)
  have "fdEntryCache F s1 p = Some d"
    using assms(1-3) by (auto simp: drive_Get_def isBaseDirectory_def bindE_eq_Inr thenE_eq_Inr Let_def
        cacheEntries_def caches_ok_def split: if_splits option.splits)
  then show ?thesis using b assms(3,5) by (intro drive_Get_cached) simp_all
qed

subsection \<open>New files\<close>

text \<open>
  When the upload of a new file fails, the data source returns neither an entry nor an error, and the
  file system reads the type of a nil entry.
\<close>

theorem failed_new_file_panics:
  assumes "findTLFDataSource (tlfSources F) (entryPath dir name) = Some t" "tlName t = ''Files''"
    "\<not> isDirMode mode"
    "fdMkdirAll F (pathDir (pathJoin [fdTempDir F, ChildPath t (entryPath dir name)])) s = (Inr (), s1)"
    "fdWriteFile F (pathJoin [fdTempDir F, ChildPath t (entryPath dir name)]) [] s1 = (Inr (), s2)"
    "svAddItems (fdService F) c [pathJoin [fdTempDir F, ChildPath t (entryPath dir name)]]
       (pathDir (ChildPath t (entryPath dir name))) DefaultBucketName s2 = (Inr (totals, results), s3)"
    "results s3 = (Inr (r # rs), s4)" "arError r = Some e"
  shows "vfs_Create (spaceFSDataSource F (tlfSources F)) c dir name mode s = (Inl nilDereference, s4)"
proof -
  have t: "tlSource t = filesDataSource F"
    using assms(1,2) by (auto simp: findTLFDataSource_def tlfSources_def split: if_splits)
  have "files_CreateEntry F c (ChildPath t (entryPath dir name)) mode s = (Inr None, s4)"
    using assms(3-8) by (simp add: files_CreateEntry_def Let_def bindE_apply tryE_apply)
  then have "dsCreateEntry (spaceFSDataSource F (tlfSources F)) c (entryPath dir name) mode s = (Inr None, s4)"
    by (simp add: spaceFSDataSource_def drive_CreateEntry_def assms(1) t filesDataSource_def bindE_apply)
  then show ?thesis by (simp add: vfs_Create_def fs_CreateEntry_def bindE_apply tryE_apply)
qed

subsection \<open>Blocks\<close>

text \<open>The number of blocks reported for a file is the least that covers its size, for every 64-bit size.\<close>

theorem blocks_cover:
  "512 * unat (getNumBlocksFromSize sz) \<ge> unat sz \<and> 512 * unat (getNumBlocksFromSize sz) < unat sz + 512"
proof -
  let ?x = "unat sz + 511"
  have "512 * (?x div 512) + ?x mod 512 = ?x" "?x mod 512 < 512" by simp_all
  then show ?thesis unfolding unat_blocks by linarith
qed

subsection \<open>A drive in memory\<close>

text \<open>
  The bucket holds one file, \<open>/a.txt\<close>, until it is removed; the services open it at \<open>/tmp/1\<close> and fail
  to add files.
\<close>

record driveMem =
  dvDisk :: "bytes \<rightharpoonup> bytes"
  dvThere :: bool
  dvEntries :: "bytes \<rightharpoonup> dirNode"
  dvShared :: "bytes \<rightharpoonup> sharedFileEntry"

definition demoInfo :: fileInfo where
  "demoInfo = \<lparr> dePath = ''/a.txt'', deIsDir = False, deName = ''a.txt'', deSizeInBytes = ''3'', deCreated = [],
     deUpdated = [], deFileExtension = ''txt'', deMembers = [], fiIpfsHash = [], fiBackedUp = False,
     fiLocallyAvailable = True, fiBackupInProgress = False, fiRestoreInProgress = False \<rparr>"

definition demoService :: "driveMem fileService" where
  "demoService =
     \<lparr> svListDir = \<lambda>_ p _ _ s. (Inr (if p = [] \<and> dvThere s then [demoInfo] else []), s),
       svOpenFile = \<lambda>_ p _ _ s. (if dvThere s then Inr ''/tmp/1'' else Inl ENOENT, s),
       svCreateFolder = \<lambda>_ _ _. retE (),
       svAddItems = \<lambda>_ ps _ _. retE (\<lparr> aiTotalFiles = 1, aiTotalBytes = 0, aiError = None \<rparr>,
         retE [\<lparr> arSourcePath = hd ps, arBucketPath = [], arBytes = 0, arError = Some ''offline'' \<rparr>]),
       svRemoveDirOrFile = \<lambda>_ _ _ s. (Inr (), s\<lparr>dvThere := False\<rparr>),
       svGetSharedWithMeFiles = \<lambda>_ _ _. retE ([], []) \<rparr>"

definition demoDrive :: "driveMem fsDeps" where
  "demoDrive =
     \<lparr> fdService = demoService, fdNow = \<lambda>_. ''now'', fdTempDir = ''/tmp'', fdMkdirAll = \<lambda>_. retE (),
       fdWriteFile = \<lambda>p x s. (Inr (), s\<lparr>dvDisk := (dvDisk s)(p \<mapsto> x)\<rparr>), fdFile = dvDisk,
       fdModTime = \<lambda>_ _. [], fdEntryCache = dvEntries, fdSetEntryCache = \<lambda>m s. s\<lparr>dvEntries := m\<rparr>,
       fdSharedCache = dvShared, fdSetSharedCache = \<lambda>m s. s\<lparr>dvShared := m\<rparr> \<rparr>"

definition drive0 :: driveMem where
  "drive0 = \<lparr> dvDisk = [''/tmp/1'' \<mapsto> ''abc''], dvThere = True, dvEntries = Map.empty, dvShared = Map.empty \<rparr>"

lemma demoDrive_ok: "disk_ok demoDrive" "caches_ok demoDrive"
  by (auto simp: disk_ok_def caches_ok_def demoDrive_def)

theorem write_goes_to_end_witness:
  "\<exists>s'. fdFile demoDrive s' ''/tmp/1'' = Some ''abcX'' \<and>
     fdFile demoDrive s' ''/tmp/1'' \<noteq> Some (pwrite ''abc'' 0 ''X'')"
proof -
  let ?h = "OpenSpaceFilesHandler ''/tmp/1'' ''/a.txt'' ''personal''"
  obtain h' s' where w: "vfh_Write demoDrive ?h ''X'' 0 drive0 = (Inr (h', Inr 1), s')"
    by (simp add: vfh_Write_def fh_Write_def openLocalFile_def localContent_def OpenSpaceFilesHandler_def demoDrive_def
        drive0_def bindE_apply tryE_apply thenE_apply)
  have c: "fdFile demoDrive drive0 (fhLocalPath ?h) = Some ''abc''"
    by (simp add: demoDrive_def drive0_def OpenSpaceFilesHandler_def)
  have ne: "''abcX'' \<noteq> pwrite ''abc'' 0 ''X''" by code_simp
  show ?thesis
    using write_goes_to_end [OF demoDrive_ok(1) c _ _ w] ne by (intro exI [of _ s']) (simp add: OpenSpaceFilesHandler_def)
qed

abbreviation "demoTlfs \<equiv> tlfSources demoDrive"

theorem listed_entry_found_witness:
  "\<exists>d s'. drive_GetChildren demoDrive demoTlfs background ''/Files'' drive0 = (Inr [d], s') \<and>
     drive_Get demoDrive demoTlfs background (dePath (dnEntry d)) s' = (Inr d, s')"
proof -
  let ?r = "drive_GetChildren demoDrive demoTlfs background ''/Files'' drive0"
  have r: "(case fst ?r of Inr [d] \<Rightarrow> \<not> isBlackListed (pathBase (dePath (dnEntry d))) \<and> dePath (dnEntry d) \<noteq> ''/'' | _ \<Rightarrow> False)"
    by code_simp
  then obtain d s' where d: "?r = (Inr [d], s')" "\<not> isBlackListed (pathBase (dePath (dnEntry d)))" "dePath (dnEntry d) \<noteq> ''/''"
    by (cases ?r) (auto split: sum.splits list.splits)
  show ?thesis using listed_entry_found [OF demoDrive_ok(2) d(1), of d] d by auto
qed

theorem removed_entry_found_witness:
  "\<exists>d s1 s2. drive_DeleteEntry demoTlfs background ''/Files/a.txt'' s1 = (Inr (), s2) \<and> \<not> dvThere s2 \<and>
     drive_Get demoDrive demoTlfs background ''/Files/a.txt'' s2 = (Inr d, s2)"
proof -
  let ?g = "drive_Get demoDrive demoTlfs background ''/Files/a.txt'' drive0"
  let ?d = "drive_DeleteEntry demoTlfs background ''/Files/a.txt'' (snd ?g)"
  have g: "\<not> isl (fst ?g)" by code_simp
  then obtain d s1 where d: "?g = (Inr d, s1)" by (cases ?g; cases "fst ?g") auto
  have f: "findTLFDataSource demoTlfs ''/Files/a.txt'' = Some \<lparr> tlName = ''Files'', tlBasePath = ''/Files'', tlSource = filesDataSource demoDrive \<rparr>"
    by (simp add: findTLFDataSource_def tlfSources_def)
  have r: "drive_DeleteEntry demoTlfs background ''/Files/a.txt'' s1 = (Inr (), s1\<lparr>dvThere := False\<rparr>)"
    by (simp add: drive_DeleteEntry_def f filesDataSource_def files_DeleteEntry_def)
      (simp add: demoDrive_def demoService_def)
  have k: "fdEntryCache demoDrive (s1\<lparr>dvThere := False\<rparr>) = fdEntryCache demoDrive s1" by (simp add: demoDrive_def)
  have "drive_Get demoDrive demoTlfs background ''/Files/a.txt'' (s1\<lparr>dvThere := False\<rparr>) = (Inr d, s1\<lparr>dvThere := False\<rparr>)"
    by (rule removed_entry_found [OF demoDrive_ok(2) d _ r k]) simp
  then show ?thesis
    using r by (intro exI [of _ d] exI [of _ s1] exI [of _ "s1\<lparr>dvThere := False\<rparr>"]) simp
qed

theorem failed_new_file_panics_witness:
  "\<exists>s'. vfs_Create (spaceFSDataSource demoDrive demoTlfs) background
     (hd (getTopLevelDirectories demoTlfs)) ''b'' StandardFileAccessMode drive0 = (Inl nilDereference, s')"
proof -
  let ?dir = "hd (getTopLevelDirectories demoTlfs)"
  let ?t = "\<lparr> tlName = ''Files'', tlBasePath = ''/Files'', tlSource = filesDataSource demoDrive \<rparr>"
  have p: "entryPath ?dir ''b'' = ''/Files/b''" by code_simp
  have f: "findTLFDataSource demoTlfs (entryPath ?dir ''b'') = Some ?t" "tlName ?t = ''Files''"
    unfolding p by (simp_all add: findTLFDataSource_def tlfSources_def)
  have m: "\<not> isDirMode StandardFileAccessMode" by code_simp
  let ?p = "pathJoin [fdTempDir demoDrive, ChildPath ?t (entryPath ?dir ''b'')]"
  define failed where "failed = \<lparr> arSourcePath = ?p, arBucketPath = [], arBytes = 0, arError = Some ''offline'' \<rparr>"
  have 1: "fdMkdirAll demoDrive (pathDir ?p) drive0 = (Inr (), drive0)" by (simp add: demoDrive_def)
  have 2: "fdWriteFile demoDrive ?p [] drive0 = (Inr (), drive0\<lparr>dvDisk := (dvDisk drive0)(?p \<mapsto> [])\<rparr>)"
    by (simp add: demoDrive_def)
  have 3: "svAddItems (fdService demoDrive) background [?p] (pathDir (ChildPath ?t (entryPath ?dir ''b''))) DefaultBucketName s =
      (Inr (\<lparr> aiTotalFiles = 1, aiTotalBytes = 0, aiError = None \<rparr>, retE [failed]), s)" for s
    by (simp add: demoDrive_def demoService_def failed_def)
  have 4: "retE [failed] s = (Inr [failed], s)" "arError failed = Some ''offline''" for s :: driveMem
    by (simp_all add: failed_def)
  show ?thesis by (rule exI) (rule failed_new_file_panics [OF f m 1 2 3 4])
qed

end
