(* ===== verification/GrpcTypes.thy ===== *)
theory GrpcTypes
  imports Domain
begin

text \<open>
  The messages of the gRPC API (\<open>grpc/pb\<close>) and the functions of \<open>grpc/handlers*.go\<close> that build them
  from the domain types.  A message is a record with the fields of the generated struct that the
  handlers set; an enum of the protocol is an \<open>int\<close> with constants, in the range of
  \<open>int32\<close>; the \<open>oneof\<close> of a notification
  is a datatype.
\<close>

subsection \<open>Files\<close>

record pbFileMember =
  pmAddress :: bytes
  pmPublicKey :: bytes

record pbListDirectoryEntry =
  plPath :: bytes
  plIsDir :: bool
  plName :: bytes
  plSizeInBytes :: bytes
  plCreated :: bytes
  plUpdated :: bytes
  plFileExtension :: bytes
  plIpfsHash :: bytes
  plIsLocallyAvailable :: bool
  plBackupCount :: int
  plMembers :: "pbFileMember list"
  plIsBackupInProgress :: bool
  plIsRestoreInProgress :: bool

record pbSharedListDirectoryEntry =
  pzEntry :: pbListDirectoryEntry
  pzDbId :: bytes
  pzBucket :: bytes
  pzIsPublicLink :: bool
  pzSharedBy :: bytes

record pbSearchFilesDirectoryEntry =
  pfEntry :: pbListDirectoryEntry
  pfDbId :: bytes
  pfBucket :: bytes

definition pbMembers :: "member list \<Rightarrow> pbFileMember list" where
  "pbMembers ms = map (\<lambda>m. \<lparr> pmAddress = mAddress m, pmPublicKey = mPublicKey m \<rparr>) ms"

definition mapFileInfoToDirectoryEntry :: "fileInfo list \<Rightarrow> pbListDirectoryEntry list" where
  "mapFileInfoToDirectoryEntry entries =
     map (\<lambda>e. \<lparr> plPath = dePath e, plIsDir = deIsDir e, plName = deName e,
       plSizeInBytes = deSizeInBytes e, plCreated = deCreated e, plUpdated = deUpdated e,
       plFileExtension = deFileExtension e, plIpfsHash = fiIpfsHash e,
       plIsLocallyAvailable = fiLocallyAvailable e, plBackupCount = (if fiBackedUp e then 1 else 0),
       plMembers = pbMembers (deMembers e), plIsBackupInProgress = fiBackupInProgress e,
       plIsRestoreInProgress = fiRestoreInProgress e \<rparr>) entries"

text \<open>
  The two listings of shared files leave out the backup and restore flags; the members are those of
  the outer struct, whose field hides the one of the embedded \<open>DirEntry\<close>.
\<close>

definition sharedEntry :: "sharedDirEntry \<Rightarrow> pbListDirectoryEntry" where
  "sharedEntry e =
     \<lparr> plPath = dePath e, plIsDir = deIsDir e, plName = deName e, plSizeInBytes = deSizeInBytes e,
       plCreated = deCreated e, plUpdated = deUpdated e, plFileExtension = deFileExtension e,
       plIpfsHash = fiIpfsHash e, plIsLocallyAvailable = fiLocallyAvailable e,
       plBackupCount = (if fiBackedUp e then 1 else 0), plMembers = pbMembers (sdMembers e),
       plIsBackupInProgress = False, plIsRestoreInProgress = False \<rparr>"

definition sharedWithMeItem :: "sharedDirEntry \<Rightarrow> pbSharedListDirectoryEntry" where
  "sharedWithMeItem e =
     \<lparr> pzEntry = sharedEntry e, pzDbId = sdDbID e, pzBucket = sdBucket e,
       pzIsPublicLink = sdIsPublicLink e, pzSharedBy = sdSharedBy e \<rparr>"

definition sharedByMeItem :: "sharedDirEntry \<Rightarrow> pbSharedListDirectoryEntry" where
  "sharedByMeItem e =
     \<lparr> pzEntry = sharedEntry e, pzDbId = sdDbID e, pzBucket = sdBucket e,
       pzIsPublicLink = sdIsPublicLink e, pzSharedBy = [] \<rparr>"

text \<open>A search result carries neither members nor a backup count.\<close>

definition searchItem :: "searchFileEntry \<Rightarrow> pbSearchFilesDirectoryEntry" where
  "searchItem e =
     \<lparr> pfEntry = \<lparr> plPath = dePath e, plIsDir = deIsDir e, plName = deName e,
         plSizeInBytes = deSizeInBytes e, plCreated = deCreated e, plUpdated = deUpdated e,
         plFileExtension = deFileExtension e, plIpfsHash = fiIpfsHash e,
         plIsLocallyAvailable = fiLocallyAvailable e, plBackupCount = 0, plMembers = [],
         plIsBackupInProgress = fiBackupInProgress e, plIsRestoreInProgress = fiRestoreInProgress e \<rparr>,
       pfDbId = sfDbID e, pfBucket = sfBucket e \<rparr>"

subsection \<open>Adding items\<close>

record pbAddItemResult =
  paSourcePath :: bytes
  paBucketPath :: bytes
  paError :: bytes

record pbAddItemsResponse =
  pxResult :: pbAddItemResult
  pxTotalFiles :: int
  pxTotalBytes :: int
  pxCompletedFiles :: int
  pxCompletedBytes :: int

text \<open>
  The goroutine that turns results into messages counts the results it has seen and adds up the
  bytes of those without error.
\<close>

fun addItemsMessages :: "addItemsResponse \<Rightarrow> int \<Rightarrow> int \<Rightarrow> addItemResult list \<Rightarrow> pbAddItemsResponse list" where
  "addItemsMessages totals completedFiles completedBytes [] = []"
| "addItemsMessages totals completedFiles completedBytes (res # rest) =
     (let files = completedFiles + 1;
          done_bytes = (case arError res of Some _ \<Rightarrow> completedBytes | None \<Rightarrow> completedBytes + arBytes res) in
      \<lparr> pxResult = (case arError res of
            Some e \<Rightarrow> \<lparr> paSourcePath = arSourcePath res, paBucketPath = [], paError = e \<rparr>
          | None \<Rightarrow> \<lparr> paSourcePath = arSourcePath res, paBucketPath = arBucketPath res, paError = [] \<rparr>),
        pxTotalFiles = aiTotalFiles totals, pxTotalBytes = aiTotalBytes totals,
        pxCompletedFiles = files, pxCompletedBytes = done_bytes \<rparr> #
      addItemsMessages totals files done_bytes rest)"

subsection \<open>File events\<close>

text \<open>The constants of \<open>core/events/events.go\<close>.\<close>

definition FileAdded :: fileEventType where "FileAdded = ''FileAdded''"
definition FileDeleted :: fileEventType where "FileDeleted = ''FileDeleted''"
definition FileUpdated :: fileEventType where "FileUpdated = ''FileUpdated''"
definition FileBackupInProgress :: fileEventType where "FileBackupInProgress = ''FileBackupInProgress''"
definition FileBackupReady :: fileEventType where "FileBackupReady = ''FileBackupReady''"
definition FileRestored :: fileEventType where "FileRestored = ''FileRestored''"
definition FileRestoring :: fileEventType where "FileRestoring = ''FileRestoring''"
definition FolderAdded :: fileEventType where "FolderAdded = ''FolderAdded''"
definition FolderDeleted :: fileEventType where "FolderDeleted = ''FolderDeleted''"
definition FolderUpdated :: fileEventType where "FolderUpdated = ''FolderUpdated''"

lemmas fileEventType_defs =
  FileAdded_def FileDeleted_def FileUpdated_def FileBackupInProgress_def FileBackupReady_def
  FileRestored_def FileRestoring_def FolderAdded_def FolderDeleted_def FolderUpdated_def

type_synonym pbEventType = int

definition mapFileEventToPb :: "fileEventType \<Rightarrow> pbEventType" where
  "mapFileEventToPb eventType =
     (if eventType = FileAdded then 0
      else if eventType = FileDeleted then 1
      else if eventType = FileUpdated then 2
      else if eventType = FileBackupInProgress then 3
      else if eventType = FileBackupReady then 4
      else if eventType = FileRestoring then 5
      else if eventType = FileRestored then 6
      else if eventType = FolderAdded then 7
      else if eventType = FolderDeleted then 8
      else if eventType = FolderUpdated then 9
      else 0)"

record pbFileEventResponse =
  pvType :: pbEventType
  pvEntry :: pbListDirectoryEntry
  pvBucket :: bytes
  pvDbId :: bytes

definition fileEventResponse :: "fileEvent \<Rightarrow> pbFileEventResponse" where
  "fileEventResponse event =
     \<lparr> pvType = mapFileEventToPb (feType event),
       pvEntry = hd (mapFileInfoToDirectoryEntry [feInfo event]),
       pvBucket = feBucket event, pvDbId = feDbID event \<rparr>"

subsection \<open>Notifications\<close>

record pbFullPath =
  pqDbId :: bytes
  pqBucket :: bytes
  pqPath :: bytes

record pbInvitation =
  pnInviterPublicKey :: bytes
  pnInvitationID :: bytes
  pnStatus :: int
  pnItemPaths :: "pbFullPath list"

record pbUsageAlert =
  puUsed :: int
  puLimit :: int
  puMessage :: bytes

record pbRevokedInvitation =
  prInviterPublicKey :: bytes
  prItemPaths :: "pbFullPath list"

datatype pbRelated =
    PbInvitationValue pbInvitation
  | PbUsageAlert pbUsageAlert
  | PbInvitationAccept bytes
  | PbRevokedInvitation pbRevokedInvitation

record pbNotification =
  poID :: bytes
  poSubject :: bytes
  poBody :: bytes
  poType :: int
  poRelated :: "pbRelated option"
  poCreatedAt :: int
  poReadAt :: int

definition pbPaths :: "fullPath list \<Rightarrow> pbFullPath list" where
  "pbPaths ps = map (\<lambda>p. \<lparr> pqDbId = fpDbId p, pqBucket = fpBucket p, pqPath = fpPath p \<rparr>) ps"

definition relatedToPb :: "notification \<Rightarrow> pbRelated option" where
  "relatedToPb n =
     (if ntNotificationType n = nINVITATION then
        Some (PbInvitationValue
          \<lparr> pnInviterPublicKey = ivInviterPublicKey (ntInvitationValue n), pnInvitationID = ntID n,
            pnStatus = wrap32 (ivStatus (ntInvitationValue n)),
            pnItemPaths = pbPaths (ivItemPaths (ntInvitationValue n)) \<rparr>)
      else if ntNotificationType n = nUSAGEALERT then
        Some (PbUsageAlert
          \<lparr> puUsed = uaUsed (ntUsageAlertValue n), puLimit = uaLimit (ntUsageAlertValue n),
            puMessage = uaMessage (ntUsageAlertValue n) \<rparr>)
      else if ntNotificationType n = nINVITATION_REPLY then
        Some (PbInvitationAccept (irInvitationID (ntInvitationAcceptValue n)))
      else if ntNotificationType n = nREVOKED_INVITATION then
        Some (PbRevokedInvitation
          \<lparr> prInviterPublicKey = rvInviterPublicKey (ntRevokedInvitationValue n),
            prItemPaths = pbPaths (rvItemPaths (ntRevokedInvitationValue n)) \<rparr>)
      else None)"

text \<open>Every branch leaves out the subject, and converts the type, an \<open>int\<close>, to an \<open>int32\<close>.\<close>

definition mapToPbNotification :: "notification \<Rightarrow> pbNotification" where
  "mapToPbNotification n =
     \<lparr> poID = ntID n, poSubject = [], poBody = ntBody n, poType = wrap32 (ntNotificationType n),
       poRelated = relatedToPb n, poCreatedAt = ntCreatedAt n, poReadAt = ntReadAt n \<rparr>"

subsection \<open>What the maps keep\<close>

text \<open>The ten kinds of events are told apart; anything else is reported as an added entry.\<close>

lemma mapFileEventToPb_kinds:
  "distinct (map mapFileEventToPb [FileAdded, FileDeleted, FileUpdated, FileBackupInProgress,
     FileBackupReady, FileRestored, FileRestoring, FolderAdded, FolderDeleted, FolderUpdated])"
  by (simp add: mapFileEventToPb_def fileEventType_defs)

text \<open>Which member of the \<open>oneof\<close> a client expects for a type.\<close>

fun relatedFits :: "int \<Rightarrow> pbRelated option \<Rightarrow> bool" where
  "relatedFits t None = (t \<notin> {nINVITATION, nUSAGEALERT, nINVITATION_REPLY, nREVOKED_INVITATION})"
| "relatedFits t (Some (PbInvitationValue _)) = (t = nINVITATION)"
| "relatedFits t (Some (PbUsageAlert _)) = (t = nUSAGEALERT)"
| "relatedFits t (Some (PbInvitationAccept _)) = (t = nINVITATION_REPLY)"
| "relatedFits t (Some (PbRevokedInvitation _)) = (t = nREVOKED_INVITATION)"

lemma relatedToPb_fits: "relatedFits (ntNotificationType n) (relatedToPb n)"
  by (auto simp: relatedToPb_def)

text \<open>
  What \<open>relatedToPb\<close> built for the type of a mail also fits the converted one, unless the conversion
  changed it into one that announces an object.
\<close>

lemma wrap32_types:
  "t \<in> {nINVITATION, nUSAGEALERT, nINVITATION_REPLY, nREVOKED_INVITATION} \<Longrightarrow> wrap32 t = t"
  by (auto simp: wrap32_def notificationTypes_defs)

lemma relatedFits_wrap32:
  "relatedFits t r \<Longrightarrow> relatedFits (wrap32 t) r \<longleftrightarrow>
     wrap32 t = t \<or> wrap32 t \<notin> {nINVITATION, nUSAGEALERT, nINVITATION_REPLY, nREVOKED_INVITATION}"
  using wrap32_types [of t] by (cases r rule: option.exhaust [case_names None Some]) (auto elim: relatedFits.elims)

lemma addItemsMessages_length [simp]: "length (addItemsMessages t f b rs) = length rs"
  by (induction t f b rs rule: addItemsMessages.induct) (auto simp: Let_def)

lemma addItemsMessages_append:
  "addItemsMessages t f b (rs @ qs) = addItemsMessages t f b rs @
     addItemsMessages t (f + int (length rs))
       (b + sum_list (map arBytes (filter (\<lambda>r. arError r = None) rs))) qs"
  by (induction t f b rs rule: addItemsMessages.induct) (auto simp: Let_def algebra_simps split: option.splits)

lemma addItemsMessages_nth:
  "i < length rs \<Longrightarrow>
     pxTotalFiles (addItemsMessages t f b rs ! i) = aiTotalFiles t \<and>
     pxTotalBytes (addItemsMessages t f b rs ! i) = aiTotalBytes t \<and>
     pxCompletedFiles (addItemsMessages t f b rs ! i) = f + int (Suc i) \<and>
     pxCompletedBytes (addItemsMessages t f b rs ! i) =
       b + sum_list (map arBytes (filter (\<lambda>r. arError r = None) (take (Suc i) rs))) \<and>
     paSourcePath (pxResult (addItemsMessages t f b rs ! i)) = arSourcePath (rs ! i)"
  by (induction t f b rs arbitrary: i rule: addItemsMessages.induct)
     (auto simp: Let_def nth_Cons' take_Cons' split: option.splits nat.splits)

end
