(* ===== verification/FuseController.thy ===== *)
theory FuseController
  imports Store
begin

text \<open>
  The controller of the mounted drive: \<open>core/space/fuse/controller.go\<close>, \<open>mount.go\<close> and \<open>state.go\<close>.

  The first part is what \<open>Mount\<close>, \<open>Unmount\<close> and \<open>ShouldMount\<close> do over the interface \<open>VFS\<close>, a store
  and a configuration.  The second is a step relation of \<open>Mount\<close>, \<open>Unmount\<close> and the goroutines that
  serve the drive, which run besides them.
\<close>

subsection \<open>Mounting\<close>

definition MountFuseDrive :: bytes where "MountFuseDrive = ''space/mountFuseDrive''"
definition FuseMountPath :: bytes where "FuseMountPath = ''space/fuseMountPath''"
definition FuseDriveName :: bytes where "FuseDriveName = ''space/fuseDriveName''"
definition DefaultFuseDriveName :: bytes where "DefaultFuseDriveName = ''Space''"

record 's vfsI =
  viMount :: "bytes \<Rightarrow> bytes \<Rightarrow> ('s, unit) eff"
  viIsMounted :: "'s \<Rightarrow> bool"
  viUnmount :: "('s, unit) eff"

text \<open>
  \<open>fcServe\<close> starts the goroutine of \<open>serve\<close>; \<open>fcIsServed\<close> and \<open>fcMountPath\<close> are fields of the
  controller; \<open>fcCleanPath\<close> runs \<open>umount\<close> and removes the directory.
\<close>

record 's fuseDeps =
  fcVfs :: "'s vfsI"
  fcGetString :: "bytes \<Rightarrow> bytes \<Rightarrow> bytes"
  fcStore :: "'s storeI"
  fcHomeDir :: "string + bytes"
  fcCleanPath :: "bytes \<Rightarrow> ('s, unit) eff"
  fcServe :: "('s, unit) eff"
  fcIsServed :: "'s \<Rightarrow> bool"
  fcMountPath :: "'s \<Rightarrow> bytes"
  fcSetMountPath :: "bytes \<Rightarrow> 's \<Rightarrow> 's"
  fcIsInstalled :: "('s, bool) eff"
  fcSupportedOs :: bool

definition ShouldMount :: "'s fuseDeps \<Rightarrow> ('s, bool) eff" where
  "ShouldMount F =
     (if fcGetString F MountFuseDrive ''false'' = ''true'' then retE True
      else
        bindE (tryE (sGet (fcStore F) MountFuseDrive)) (\<lambda>r. case r of
            Inr st \<Rightarrow> retE (st = ''true'') | Inl _ \<Rightarrow> retE False))"

text \<open>
  \<open>os.IsExist\<close> tells of errors that something exists already, which \<open>os.Stat\<close> never returns: no path
  exists for \<open>pathExists\<close>, and the loop over suffixes is never entered.
\<close>

definition pathExists :: "bytes \<Rightarrow> bool" where
  "pathExists path = False"

fun freeSuffix :: "bytes \<Rightarrow> nat list \<Rightarrow> bytes" where
  "freeSuffix p [] = p"
| "freeSuffix p (i # is) = (let q = p @ natStr i in if \<not> pathExists q then q else freeSuffix p is)"

definition getMountPath :: "'s fuseDeps \<Rightarrow> bytes" where
  "getMountPath F =
     (let p = fcGetString F FuseMountPath (''~/'' @ DefaultFuseDriveName);
          p = (case fcHomeDir F of Inl _ \<Rightarrow> p | Inr home \<Rightarrow> trimRight (strReplaceAll p ''~'' home) ''/'') in
      if pathExists p then freeSuffix p [0..<10] else p)"

definition serve :: "'s fuseDeps \<Rightarrow> ('s, unit) eff" where
  "serve F = bindE (getE (fcIsServed F)) (\<lambda>served. if served then retE () else fcServe F)"

definition removeMountedPath :: "'s fuseDeps \<Rightarrow> ('s, unit) eff" where
  "removeMountedPath F =
     bindE (getE (fcMountPath F)) (\<lambda>p.
       if p = [] then retE () else bindE (tryE (fcCleanPath F p)) (\<lambda>_. retE ()))"

definition mountVfs :: "'s fuseDeps \<Rightarrow> bytes \<Rightarrow> ('s, unit) eff" where
  "mountVfs F mountPath = viMount (fcVfs F) mountPath (fcGetString F FuseDriveName DefaultFuseDriveName)"

text \<open>A failed mount is tried again after cleaning up, if its error says so.\<close>

definition mountOrRetry :: "'s fuseDeps \<Rightarrow> bytes \<Rightarrow> ('s, unit) eff" where
  "mountOrRetry F mountPath =
     thenE (modE (fcSetMountPath F mountPath))
     (bindE (tryE (mountVfs F mountPath)) (\<lambda>r. case r of
         Inr _ \<Rightarrow> retE ()
       | Inl e \<Rightarrow>
           if \<not> strContains e ''exit status 64'' then failE (Err e)
           else
             bindE (tryE (viUnmount (fcVfs F))) (\<lambda>_.
             thenE (removeMountedPath F) (mountVfs F mountPath))))"

definition fuse_Mount :: "'s fuseDeps \<Rightarrow> ('s, unit) eff" where
  "fuse_Mount F =
     bindE (getE (viIsMounted (fcVfs F))) (\<lambda>mounted.
       if mounted then retE ()
       else
         thenE (mountOrRetry F (getMountPath F))
         (thenE (sSet (fcStore F) MountFuseDrive ''true'')
           (serve F)))"

definition fuse_IsMounted :: "'s fuseDeps \<Rightarrow> 's \<Rightarrow> bool" where
  "fuse_IsMounted F s = viIsMounted (fcVfs F) s"

definition GetMountPath :: "'s fuseDeps \<Rightarrow> ('s, bytes) eff" where
  "GetMountPath F = getE (\<lambda>s. if fuse_IsMounted F s then getMountPath F else [])"

definition fuse_Unmount :: "'s fuseDeps \<Rightarrow> ('s, unit) eff" where
  "fuse_Unmount F =
     bindE (getE (viIsMounted (fcVfs F))) (\<lambda>mounted.
       if \<not> mounted then retE ()
       else thenE (sSet (fcStore F) MountFuseDrive ''false'') (viUnmount (fcVfs F)))"

definition fuse_Shutdown :: "'s fuseDeps \<Rightarrow> ('s, unit) eff" where
  "fuse_Shutdown F = fuse_Unmount F"

datatype fuseState = UNSUPPORTED | NOT_INSTALLED | UNMOUNTED | MOUNTED | ERROR

text \<open>The state is returned beside the error of the installer.\<close>

definition GetFuseState :: "'s fuseDeps \<Rightarrow> ('s, fuseState \<times> string option) eff" where
  "GetFuseState F =
     (if \<not> fcSupportedOs F then retE (UNSUPPORTED, None)
      else
        bindE (getE (fuse_IsMounted F)) (\<lambda>mounted.
          if mounted then retE (MOUNTED, None)
          else
            bindE (tryE (fcIsInstalled F)) (\<lambda>r. case r of
                Inl e \<Rightarrow> retE (ERROR, Some e)
              | Inr installed \<Rightarrow> retE (if installed then UNMOUNTED else NOT_INSTALLED, None))))"

subsection \<open>What is remembered\<close>

text \<open>What the drive and the goroutine do to the store: nothing.\<close>

definition fuse_ok :: "'s fuseDeps \<Rightarrow> ('s \<Rightarrow> bool) \<Rightarrow> ('s \<Rightarrow> bytes \<rightharpoonup> bytes) \<Rightarrow> bool" where
  "fuse_ok F ok view \<longleftrightarrow> kv_store (fcStore F) ok view \<and>
     (\<forall>s v. ok s \<and> view s MountFuseDrive = v \<longrightarrow>
        (\<forall>p n. ok (snd (viMount (fcVfs F) p n s)) \<and> view (snd (viMount (fcVfs F) p n s)) MountFuseDrive = v) \<and>
        ok (snd (viUnmount (fcVfs F) s)) \<and> view (snd (viUnmount (fcVfs F) s)) MountFuseDrive = v \<and>
        (\<forall>p. ok (snd (fcCleanPath F p s)) \<and> view (snd (fcCleanPath F p s)) MountFuseDrive = v) \<and>
        ok (snd (fcServe F s)) \<and> view (snd (fcServe F s)) MountFuseDrive = v \<and>
        (\<forall>p. ok (fcSetMountPath F p s) \<and> view (fcSetMountPath F p s) MountFuseDrive = v))"

definition remembers :: "('s \<Rightarrow> bool) \<Rightarrow> ('s \<Rightarrow> bytes \<rightharpoonup> bytes) \<Rightarrow> bytes option \<Rightarrow> 's \<Rightarrow> bool" where
  "remembers ok view v s \<longleftrightarrow> ok s \<and> view s MountFuseDrive = v"

lemma fuse_keeps:
  assumes "fuse_ok F ok view"
  shows "keeps (remembers ok view v) (viMount (fcVfs F) p n)" "keeps (remembers ok view v) (viUnmount (fcVfs F))"
    "keeps (remembers ok view v) (fcCleanPath F p)" "keeps (remembers ok view v) (fcServe F)"
    "keeps (remembers ok view v) (modE (fcSetMountPath F p))"
  using assms unfolding fuse_ok_def remembers_def keeps_def by auto

lemma ShouldMount_eq:
  assumes "fuse_ok F ok view" "remembers ok view v s" "fcGetString F MountFuseDrive ''false'' \<noteq> ''true''"
  shows "ShouldMount F s = (Inr (v = Some ''true''), s)"
  using assms kv_store.get_view [of "fcStore F" ok view s MountFuseDrive]
  by (cases v) (auto simp: fuse_ok_def remembers_def ShouldMount_def bindE_apply tryE_apply errKeyNotFound_def)

lemma sSet_remembers:
  assumes "fuse_ok F ok view"
  shows "ensures ok (sSet (fcStore F) MountFuseDrive x) (\<lambda>_. remembers ok view (Some x)) (\<lambda>_. True)"
  using assms unfolding fuse_ok_def
  by (intro ensuresI) (auto simp: remembers_def dest: kv_store.set_Inr)

lemma Unmount_remembers:
  assumes "fuse_ok F ok view"
  shows "ensures (\<lambda>s. ok s \<and> viIsMounted (fcVfs F) s) (fuse_Unmount F) (\<lambda>_. remembers ok view (Some ''false'')) (\<lambda>_. True)"
proof (rule ensuresI)
  fix s u s2 assume s: "ok s \<and> viIsMounted (fcVfs F) s" "fuse_Unmount F s = (Inr u, s2)"
  then obtain v s1 where 1: "sSet (fcStore F) MountFuseDrive ''false'' s = (Inr v, s1)" "viUnmount (fcVfs F) s1 = (Inr u, s2)"
    by (auto simp: fuse_Unmount_def bindE_apply thenE_eq_Inr)
  have "remembers ok view (Some ''false'') s1"
    using ensuresD [OF sSet_remembers [OF assms] _ 1(1)] s by simp
  then show "remembers ok view (Some ''false'') s2" using keepsD_eq [OF fuse_keeps(2) [OF assms] _ 1(2)] by blast
qed simp

lemma Mount_remembers:
  assumes "fuse_ok F ok view"
  shows "ensures (\<lambda>s. ok s \<and> \<not> viIsMounted (fcVfs F) s) (fuse_Mount F) (\<lambda>_. remembers ok view (Some ''true'')) (\<lambda>_. True)"
proof (rule ensuresI)
  fix s u s2 assume s: "ok s \<and> \<not> viIsMounted (fcVfs F) s" "fuse_Mount F s = (Inr u, s2)"
  let ?I = "remembers ok view (view s MountFuseDrive)"
  note k = fuse_keeps [OF assms, of "view s MountFuseDrive"]
  obtain v s1 s1' where 1: "mountOrRetry F (getMountPath F) s = (Inr v, s1)"
      "sSet (fcStore F) MountFuseDrive ''true'' s1 = (Inr (), s1')" "serve F s1' = (Inr u, s2)"
    using s by (auto simp: fuse_Mount_def bindE_apply thenE_eq_Inr)
  have "keeps ?I (mountOrRetry F (getMountPath F))"
    unfolding mountOrRetry_def removeMountedPath_def mountVfs_def
    by (intro keeps_case_sum keeps_if keeps_bind keeps_then keeps_try keeps_ret keeps_fail keeps_get k)
  then have "ok s1" using keepsD_eq [of ?I "mountOrRetry F (getMountPath F)" s "Inr v" s1] 1(1) s by (auto simp: remembers_def)
  then have "remembers ok view (Some ''true'') s1'" using ensuresD [OF sSet_remembers [OF assms] _ 1(2)] by simp
  moreover have "keeps (remembers ok view (Some ''true'')) (serve F)"
    unfolding serve_def by (intro keeps_bind keeps_if keeps_ret keeps_get fuse_keeps(4) [OF assms])
  ultimately show "remembers ok view (Some ''true'') s2" using keepsD_eq [of _ "serve F" s1' "Inr u" s2] 1(3) by blast
qed simp

text \<open>
  C33. A drive that was mounted is to be mounted at the next start, unless the daemon shuts down: its
  shutdown unmounts the drive through the same operation as the user, which forgets it.
\<close>

theorem mount_forgotten_at_shutdown:
  assumes "fuse_ok F ok view" "ok s" "\<not> viIsMounted (fcVfs F) s"
    "fcGetString F MountFuseDrive ''false'' \<noteq> ''true''" "fuse_Mount F s = (Inr u, s1)"
    "viIsMounted (fcVfs F) s1" "fuse_Shutdown F s1 = (Inr u', s2)"
  shows "ShouldMount F s1 = (Inr True, s1) \<and> ShouldMount F s2 = (Inr False, s2)"
proof -
  have r1: "remembers ok view (Some ''true'') s1"
    using ensuresD [OF Mount_remembers [OF assms(1)] _ assms(5)] assms(2,3) by blast
  then have "ok s1" by (simp add: remembers_def)
  then have r2: "remembers ok view (Some ''false'') s2"
    using ensuresD [OF Unmount_remembers [OF assms(1)] _ assms(7) [unfolded fuse_Shutdown_def]] assms(6) by blast
  show ?thesis
    using ShouldMount_eq [OF assms(1) r1 assms(4)] ShouldMount_eq [OF assms(1) r2 assms(4)] by simp
qed

text \<open>On a drive that is a flag and a store that is a map.\<close>

type_synonym fuseMem = "bool \<times> (bytes \<rightharpoonup> bytes)"

definition memFuse :: "fuseMem fuseDeps" where
  "memFuse =
     \<lparr> fcVfs = \<lparr> viMount = \<lambda>_ _ s. (Inr (), (True, snd s)), viIsMounted = fst, viUnmount = \<lambda>s. (Inr (), (False, snd s)) \<rparr>,
       fcGetString = \<lambda>_ d. d,
       fcStore = \<lparr> sGet = \<lambda>k s. (lookupRes (snd s k), s), sSet = \<lambda>k v s. (Inr (), (fst s, (snd s)(k \<mapsto> v))),
         sRemove = \<lambda>k s. (Inr (), (fst s, (snd s)(k := None))), sDropAll = \<lambda>s. (Inr (), (fst s, Map.empty)),
         sKeysWithPrefix = \<lambda>_. failE (Err ''unsupported'') \<rparr>,
       fcHomeDir = Inr ''/home/u'', fcCleanPath = \<lambda>_. retE (), fcServe = retE (), fcIsServed = \<lambda>_. False,
       fcMountPath = \<lambda>_. [], fcSetMountPath = \<lambda>_ s. s, fcIsInstalled = retE True, fcSupportedOs = True \<rparr>"

lemma memFuse_ok: "fuse_ok memFuse (\<lambda>_. True) snd"
  unfolding fuse_ok_def
proof
  show "kv_store (fcStore memFuse) (\<lambda>_. True) snd"
    by unfold_locales (auto simp: memFuse_def)
qed (simp add: memFuse_def)

theorem mount_forgotten_at_shutdown_witness:
  "\<exists>s1 s2. fuse_Mount memFuse (False, Map.empty) = (Inr (), s1) \<and> fuse_Shutdown memFuse s1 = (Inr (), s2) \<and>
     fst (ShouldMount memFuse s1) = Inr True \<and> fst (ShouldMount memFuse s2) = Inr False"
proof -
  have 1: "fuse_Mount memFuse (False, Map.empty) = (Inr (), (True, [MountFuseDrive \<mapsto> ''true'']))"
    by (simp add: fuse_Mount_def memFuse_def Let_def serve_def mountOrRetry_def mountVfs_def thenE_apply bindE_apply tryE_apply)
  have 2: "fuse_Shutdown memFuse (True, [MountFuseDrive \<mapsto> ''true'']) = (Inr (), (False, [MountFuseDrive \<mapsto> ''false'']))"
    by (simp add: fuse_Shutdown_def fuse_Unmount_def memFuse_def thenE_apply bindE_apply)
  have c: "fcGetString memFuse MountFuseDrive ''false'' \<noteq> ''true''" "\<not> viIsMounted (fcVfs memFuse) (False, Map.empty)"
    "viIsMounted (fcVfs memFuse) (True, [MountFuseDrive \<mapsto> ''true''])"
    by (simp_all add: memFuse_def)
  show ?thesis
    using mount_forgotten_at_shutdown [OF memFuse_ok TrueI c(2,1) 1 c(3) 2] 1 2 by (intro exI conjI) auto
qed

subsection \<open>Serving\<close>

text \<open>
  A goroutine of \<open>serve\<close>: before it sets \<open>isServed\<close>, while it serves a connection, when the library has
  returned and before \<open>mountConnection\<close> is reset, and before \<open>isServed\<close> is reset.  The kernel has a
  mounted connection until it is closed.
\<close>

datatype serverPc = Starting | Serving nat | ServeReturned | Ending

record ctlState =
  ctConn :: "nat option"
  ctNext :: nat
  ctOpen :: "nat list"
  ctServed :: bool
  ctServers :: "serverPc list"

definition ctl_start :: ctlState where
  "ctl_start = \<lparr> ctConn = None, ctNext = 0, ctOpen = [], ctServed = False, ctServers = [] \<rparr>"

definition afterMount :: "ctlState \<Rightarrow> ctlState" where
  "afterMount c = c\<lparr>ctConn := Some (ctNext c), ctNext := Suc (ctNext c), ctOpen := ctNext c # ctOpen c,
     ctServers := (if ctServed c then ctServers c else ctServers c @ [Starting])\<rparr>"

inductive ctl_step :: "ctlState \<Rightarrow> ctlState \<Rightarrow> bool" where
  mount: "ctConn c = None \<Longrightarrow> ctl_step c (afterMount c)"
| unmount: "ctConn c = Some k \<Longrightarrow> ctl_step c (c\<lparr>ctConn := None, ctOpen := removeAll k (ctOpen c)\<rparr>)"
| server_reads: "i < length (ctServers c) \<Longrightarrow> ctServers c ! i = Starting \<Longrightarrow> ctConn c = Some k \<Longrightarrow>
    ctl_step c (c\<lparr>ctServed := True, ctServers := (ctServers c)[i := Serving k]\<rparr>)"
| server_none: "i < length (ctServers c) \<Longrightarrow> ctServers c ! i = Starting \<Longrightarrow> ctConn c = None \<Longrightarrow>
    ctl_step c (c\<lparr>ctServed := True, ctServers := (ctServers c)[i := Ending]\<rparr>)"
| serve_returns: "i < length (ctServers c) \<Longrightarrow> ctServers c ! i = Serving k \<Longrightarrow> k \<notin> set (ctOpen c) \<Longrightarrow>
    ctl_step c (c\<lparr>ctServers := (ctServers c)[i := ServeReturned]\<rparr>)"
| serve_resets: "i < length (ctServers c) \<Longrightarrow> ctServers c ! i = ServeReturned \<Longrightarrow>
    ctl_step c (c\<lparr>ctConn := None, ctServers := (ctServers c)[i := Ending]\<rparr>)"
| server_ends: "i < length (ctServers c) \<Longrightarrow> ctServers c ! i = Ending \<Longrightarrow>
    ctl_step c (c\<lparr>ctServed := False, ctServers := take i (ctServers c) @ drop (Suc i) (ctServers c)\<rparr>)"

inductive ctl_reach :: "ctlState \<Rightarrow> bool" where
  start: "ctl_reach ctl_start"
| step: "ctl_reach c \<Longrightarrow> ctl_step c c' \<Longrightarrow> ctl_reach c'"

text \<open>
  A drive that is mounted again before the goroutine of the last mount has ended is served by nobody:
  \<open>serve\<close> sees that one is still served, and that one then takes the new connection for its own and
  resets it.  The kernel has the drive mounted, the controller says it is not.
\<close>

theorem remount_not_served:
  "\<exists>c k. ctl_reach c \<and> k \<in> set (ctOpen c) \<and> ctServers c = [] \<and> ctConn c = None \<and> \<not> ctServed c"
proof -
  let ?c = "\<lambda>conn n open served servers. \<lparr> ctConn = conn, ctNext = n, ctOpen = open, ctServed = served, ctServers = servers \<rparr>"
  have s: "ctl_step ctl_start (?c (Some 0) 1 [0] False [Starting])"
    "ctl_step (?c (Some 0) 1 [0] False [Starting]) (?c (Some 0) 1 [0] True [Serving 0])"
    "ctl_step (?c (Some 0) 1 [0] True [Serving 0]) (?c None 1 [] True [Serving 0])"
    "ctl_step (?c None 1 [] True [Serving 0]) (?c (Some 1) 2 [1] True [Serving 0])"
    "ctl_step (?c (Some 1) 2 [1] True [Serving 0]) (?c (Some 1) 2 [1] True [ServeReturned])"
    "ctl_step (?c (Some 1) 2 [1] True [ServeReturned]) (?c None 2 [1] True [Ending])"
    "ctl_step (?c None 2 [1] True [Ending]) (?c None 2 [1] False [])"
    using ctl_step.mount [of ctl_start] ctl_step.server_reads [of 0 "?c (Some 0) 1 [0] False [Starting]" 0]
      ctl_step.unmount [of "?c (Some 0) 1 [0] True [Serving 0]" 0] ctl_step.mount [of "?c None 1 [] True [Serving 0]"]
      ctl_step.serve_returns [of 0 "?c (Some 1) 2 [1] True [Serving 0]" 0]
      ctl_step.serve_resets [of 0 "?c (Some 1) 2 [1] True [ServeReturned]"]
      ctl_step.server_ends [of 0 "?c None 2 [1] True [Ending]"]
    by (simp_all add: ctl_start_def afterMount_def numeral_2_eq_2)
  have "ctl_reach (?c None 2 [1] False [])"
    by (rule ctl_reach.step [OF ctl_reach.start s(1), THEN ctl_reach.step, OF s(2), THEN ctl_reach.step, OF s(3),
        THEN ctl_reach.step, OF s(4), THEN ctl_reach.step, OF s(5), THEN ctl_reach.step, OF s(6), THEN ctl_reach.step, OF s(7)])
  then show ?thesis by (intro exI [of _ "?c None 2 [1] False []"] exI [of _ 1]) simp
qed

end
