(* ===== verification/GrpcHandlers.thy ===== *)
theory GrpcHandlers
  imports GrpcTypes SharingServices KeyServices FuseController
begin

text \<open>
  The handlers of the gRPC server, \<open>grpc/handlers*.go\<close> and \<open>grpc/grpc.go\<close>, over the services they
  call: \<open>srv.sv\<close> is the space service of \<open>SpaceServices\<close>, \<open>SharingServices\<close> and \<open>KeyServices\<close>,
  \<open>srv.fc\<close> the drive controller.  A request is the handler's arguments; a handler that returns an
  empty response returns \<open>()\<close>; gRPC sends an error without the response beside it.  The span of the
  tracer is left out.  The three subscriptions hold one stream each: the state of the server is
  \<open>grpcStreams\<close>, and what a stream was sent is kept per stream.
\<close>

subsection \<open>grpc.go\<close>

record serverOptions =
  soPort :: int
  soProxyPort :: int
  soRestProxyPort :: int

definition defaultServerOptions :: serverOptions where
  "defaultServerOptions = \<lparr> soPort = 9999, soProxyPort = 0, soRestProxyPort = 0 \<rparr>"

definition WithPort :: "int \<Rightarrow> serverOptions \<Rightarrow> serverOptions" where
  "WithPort port o1 = (if port \<noteq> 0 then o1\<lparr>soPort := port\<rparr> else o1)"

definition WithProxyPort :: "int \<Rightarrow> serverOptions \<Rightarrow> serverOptions" where
  "WithProxyPort port o1 = (if port \<noteq> 0 then o1\<lparr>soProxyPort := port\<rparr> else o1)"

definition WithRestProxyPort :: "int \<Rightarrow> serverOptions \<Rightarrow> serverOptions" where
  "WithRestProxyPort port o1 = (if port \<noteq> 0 then o1\<lparr>soRestProxyPort := port\<rparr> else o1)"

definition grpc_New :: "(serverOptions \<Rightarrow> serverOptions) list \<Rightarrow> serverOptions" where
  "grpc_New opts = fold (\<lambda>opt o1. opt o1) opts defaultServerOptions"

text \<open>
  The part of the server that starting and stopping touch: the ready channel is closed once, the
  servers of net/http and gRPC are there or nil.  \<open>gpServe\<close> listens and serves until it is stopped,
  \<open>gpStopProxy\<close> and \<open>gpStopRest\<close> shut an HTTP server down.
\<close>

record grpcProc =
  gpStarted :: bool
  gpReadyClosed :: bool
  gpReady :: nat
  gpServers :: bool

definition grpc_proc0 :: grpcProc where
  "grpc_proc0 = \<lparr> gpStarted = False, gpReadyClosed = False, gpReady = 0, gpServers = False \<rparr>"

definition errClosedChannel :: err where
  "errClosedChannel = Panic ''send on closed channel''"

text \<open>
  \<open>Start\<close> up to the call of \<open>Serve\<close>, which blocks.  The arguments are the errors of listening and of
  registering the REST proxy.  The channel holds one value.
\<close>

definition grpc_Start :: "string option \<Rightarrow> string option \<Rightarrow> (grpcProc, unit) eff" where
  "grpc_Start listenErr restErr =
     (case listenErr of Some e \<Rightarrow> failE (Err e) | None \<Rightarrow>
       thenE (modE (\<lambda>g. g\<lparr>gpServers := True\<rparr>))
       (case restErr of Some e \<Rightarrow> failE (Err e) | None \<Rightarrow>
         thenE (modE (\<lambda>g. g\<lparr>gpStarted := True\<rparr>))
         (bindE (getE gpReadyClosed) (\<lambda>closed.
            if closed then failE errClosedChannel else modE (\<lambda>g. g\<lparr>gpReady := Suc (gpReady g)\<rparr>)))))"

text \<open>The deferred function runs on every return after the channel was closed.\<close>

definition grpc_Shutdown :: "string option \<Rightarrow> string option \<Rightarrow> (grpcProc, unit) eff" where
  "grpc_Shutdown proxyErr restErr =
     bindE (getE gpStarted) (\<lambda>started.
       if \<not> started then retE ()
       else
         bindE (getE gpReadyClosed) (\<lambda>closed.
           if closed then failE (Panic ''close of closed channel'')
           else
             thenE (modE (\<lambda>g. g\<lparr>gpReadyClosed := True\<rparr>))
             (thenE (modE (\<lambda>g. g\<lparr>gpServers := False, gpStarted := False\<rparr>))
             (case proxyErr of Some e \<Rightarrow> failE (Err e) | None \<Rightarrow>
              case restErr of Some e \<Rightarrow> failE (Err e) | None \<Rightarrow> retE ()))))"

subsection \<open>handlers.go\<close>

definition errNotImplemented :: err where
  "errNotImplemented = Err ''Not implemented''"

definition h_ListDirectories ::
  "'s spaceDeps \<Rightarrow> nat \<Rightarrow> ctx \<Rightarrow> bytes \<Rightarrow> bool \<Rightarrow> ('s, pbListDirectoryEntry list) eff" where
  "h_ListDirectories D fuel c bucketName omitMembers =
     bindE (ListDirs D fuel c [] bucketName (\<not> omitMembers)) (\<lambda>entries.
       retE (mapFileInfoToDirectoryEntry entries))"

definition h_ListDirectory ::
  "'s spaceDeps \<Rightarrow> ctx \<Rightarrow> bytes \<Rightarrow> bytes \<Rightarrow> bool \<Rightarrow> ('s, pbListDirectoryEntry list) eff" where
  "h_ListDirectory D c path bucketName omitMembers =
     bindE (ListDir D c path bucketName (\<not> omitMembers)) (\<lambda>entries.
       retE (mapFileInfoToDirectoryEntry entries))"

definition h_OpenFile :: "'s spaceDeps \<Rightarrow> ctx \<Rightarrow> bytes \<Rightarrow> bytes \<Rightarrow> bytes \<Rightarrow> ('s, bytes) eff" where
  "h_OpenFile D c path bucketName dbId = OpenFile D c path bucketName dbId"

text \<open>
  Results arrive on the channel one after the other.  While the context of the stream is live a
  result is handed to the goroutine that sends; once it is done either case of the \<open>select\<close> may be
  taken, and the \<open>break\<close> leaves the \<open>select\<close> only, so the loop goes on to drain the channel.  The
  flags say which results were handed over.
\<close>

definition handedOver :: "bool list \<Rightarrow> addItemResult list \<Rightarrow> addItemResult list" where
  "handedOver flags results = map fst (filter snd (zip results flags))"

text \<open>The results come with what the service does to send them; the last component is what is sent.\<close>

definition h_AddItems ::
  "'s spaceDeps \<Rightarrow> nat \<Rightarrow> ctx \<Rightarrow> bytes list \<Rightarrow> bytes \<Rightarrow> bytes \<Rightarrow> (addItemResult list \<Rightarrow> bool list) \<Rightarrow>
   ('s, pbAddItemsResponse list) eff" where
  "h_AddItems D fuel c sourcePaths targetPath bucketName takes =
     bindE (AddItems D fuel c sourcePaths targetPath bucketName) (\<lambda>(totals, results).
     bindE results (\<lambda>rs. retE (addItemsMessages totals 0 0 (handedOver (takes rs) rs))))"

definition h_CreateFolder :: "'s spaceDeps \<Rightarrow> ctx \<Rightarrow> bytes \<Rightarrow> bytes \<Rightarrow> ('s, unit) eff" where
  "h_CreateFolder D c path bucketName = CreateFolder D c path bucketName"

definition h_RemoveDirOrFile :: "'s spaceDeps \<Rightarrow> ctx \<Rightarrow> bytes \<Rightarrow> bytes \<Rightarrow> ('s, unit) eff" where
  "h_RemoveDirOrFile D c path bucketName = RemoveDirOrFile D c path bucketName"

subsection \<open>Subscriptions\<close>

text \<open>A stream is told apart by a number; what was sent on each is kept in order.\<close>

datatype pbEvent = EvFile pbFileEventResponse | EvTextile | EvNotification pbNotification

record grpcStreams =
  fileEventStream :: "nat option"
  txlEventStream :: "nat option"
  notificationEventStream :: "nat option"
  gsSent :: "nat \<Rightarrow> pbEvent list"

definition streamSend :: "nat option \<Rightarrow> pbEvent \<Rightarrow> grpcStreams \<Rightarrow> grpcStreams" where
  "streamSend stream ev g = (case stream of None \<Rightarrow> g | Some k \<Rightarrow> g\<lparr>gsSent := (gsSent g)(k := gsSent g k @ [ev])\<rparr>)"

definition sendFileEvent :: "pbFileEventResponse \<Rightarrow> grpcStreams \<Rightarrow> grpcStreams" where
  "sendFileEvent event g = streamSend (fileEventStream g) (EvFile event) g"

definition SendFileEvent :: "fileEvent \<Rightarrow> grpcStreams \<Rightarrow> grpcStreams" where
  "SendFileEvent event g = sendFileEvent (fileEventResponse event) g"

definition SendTextileEvent :: "grpcStreams \<Rightarrow> grpcStreams" where
  "SendTextileEvent g = streamSend (txlEventStream g) EvTextile g"

definition SendNotificationEvent :: "notification \<Rightarrow> grpcStreams \<Rightarrow> grpcStreams" where
  "SendNotificationEvent notif g =
     streamSend (notificationEventStream g) (EvNotification (mapToPbNotification notif)) g"

definition registerStream :: "nat option \<Rightarrow> grpcStreams \<Rightarrow> grpcStreams" where
  "registerStream stream g = g\<lparr>fileEventStream := stream\<rparr>"

definition registerTxlStream :: "nat option \<Rightarrow> grpcStreams \<Rightarrow> grpcStreams" where
  "registerTxlStream stream g = g\<lparr>txlEventStream := stream\<rparr>"

definition registerNotificationStream :: "nat option \<Rightarrow> grpcStreams \<Rightarrow> grpcStreams" where
  "registerNotificationStream stream g = g\<lparr>notificationEventStream := stream\<rparr>"

text \<open>
  A subscription handler runs in two steps: it registers its stream, and when the context of the
  stream is done it registers nil.  In between other handlers run and events arrive.
\<close>

datatype streamAct =
    Subscribe nat | SubscribeEnds nat
  | TxlSubscribe nat | TxlSubscribeEnds nat
  | NotificationSubscribe nat | NotificationSubscribeEnds nat
  | FileEventSent fileEvent | TextileEventSent | NotificationSent notification

fun streamStep :: "streamAct \<Rightarrow> grpcStreams \<Rightarrow> grpcStreams" where
  "streamStep (Subscribe k) g = registerStream (Some k) g"
| "streamStep (SubscribeEnds k) g = registerStream None g"
| "streamStep (TxlSubscribe k) g = registerTxlStream (Some k) g"
| "streamStep (TxlSubscribeEnds k) g = registerTxlStream None g"
| "streamStep (NotificationSubscribe k) g = registerNotificationStream (Some k) g"
| "streamStep (NotificationSubscribeEnds k) g = registerNotificationStream None g"
| "streamStep (FileEventSent ev) g = SendFileEvent ev g"
| "streamStep TextileEventSent g = SendTextileEvent g"
| "streamStep (NotificationSent n) g = SendNotificationEvent n g"

definition runStreams :: "streamAct list \<Rightarrow> grpcStreams \<Rightarrow> grpcStreams" where
  "runStreams acts g = fold streamStep acts g"

subsection \<open>handlers_sharing.go\<close>

definition parsePublicKeys :: "'s spaceDeps \<Rightarrow> bytes list \<Rightarrow> err + bytes list" where
  "parsePublicKeys D publicKeys = mapSum (\<lambda>pk. bindS (hexDecode pk) (spUnmarshalPub D)) publicKeys"

definition domainPaths :: "pbFullPath list \<Rightarrow> fullPath list" where
  "domainPaths ps =
     map (\<lambda>p. \<lparr> fpDbId = pqDbId p, fpBucketKey = [], fpBucket = pqBucket p, fpPath = pqPath p \<rparr>) ps"

definition h_ShareFilesViaPublicKey :: "'s spaceDeps \<Rightarrow> ctx \<Rightarrow> bytes list \<Rightarrow> pbFullPath list \<Rightarrow> ('s, unit) eff" where
  "h_ShareFilesViaPublicKey D c publicKeys paths =
     bindE (liftE (parsePublicKeys D publicKeys)) (\<lambda>pks.
     thenE (AddRecentlySharedPublicKeys D c pks)
     (ShareFilesViaPublicKey D c (domainPaths paths) pks))"

definition h_UnshareFilesViaPublicKey :: "'s spaceDeps \<Rightarrow> ctx \<Rightarrow> bytes list \<Rightarrow> pbFullPath list \<Rightarrow> ('s, unit) eff" where
  "h_UnshareFilesViaPublicKey D c publicKeys paths =
     bindE (liftE (parsePublicKeys D publicKeys)) (\<lambda>pks.
       UnshareFilesViaPublicKey D c (domainPaths paths) pks)"

definition h_GetSharedWithMeFiles ::
  "'s spaceDeps \<Rightarrow> ctx \<Rightarrow> bytes \<Rightarrow> int \<Rightarrow> ('s, pbSharedListDirectoryEntry list \<times> bytes) eff" where
  "h_GetSharedWithMeFiles D c seek limit =
     bindE (GetSharedWithMeFiles D c seek limit) (\<lambda>(entries, offset).
       retE (map sharedWithMeItem entries, offset))"

definition h_GetSharedByMeFiles ::
  "'s spaceDeps \<Rightarrow> ctx \<Rightarrow> bytes \<Rightarrow> int \<Rightarrow> ('s, pbSharedListDirectoryEntry list \<times> bytes) eff" where
  "h_GetSharedByMeFiles D c seek limit =
     bindE (GetSharedByMeFiles D c seek limit) (\<lambda>(entries, offset).
       retE (map sharedByMeItem entries, offset))"

text \<open>The link and the CID.\<close>

definition h_GeneratePublicFileLink ::
  "'s spaceDeps \<Rightarrow> ctx \<Rightarrow> bytes \<Rightarrow> bytes list \<Rightarrow> bytes \<Rightarrow> bytes \<Rightarrow> ('s, bytes \<times> bytes) eff" where
  "h_GeneratePublicFileLink D c password itemPaths bucketName dbId =
     bindE (GenerateFilesSharingLink D c password itemPaths bucketName dbId) (\<lambda>res.
       retE (fsSpaceDownloadLink res, fsSharedFileCid res))"

definition h_OpenPublicFile :: "'s spaceDeps \<Rightarrow> ctx \<Rightarrow> bytes \<Rightarrow> bytes \<Rightarrow> bytes \<Rightarrow> ('s, bytes) eff" where
  "h_OpenPublicFile D c fileCid password filename = OpenSharedFile D c fileCid password filename"

definition h_GetRecentlySharedWith :: "'s spaceDeps \<Rightarrow> ctx \<Rightarrow> ('s, pbFileMember list) eff" where
  "h_GetRecentlySharedWith D c =
     bindE (RecentlySharedPublicKeys D c) (\<lambda>pks.
       retE (map (\<lambda>pk. \<lparr> pmAddress = DeriveAddress (spShare D) pk, pmPublicKey = hexEncode pk \<rparr>) pks))"

subsection \<open>handlers_notif.go\<close>

record pbGetNotificationsResponse =
  pgNotifications :: "pbNotification list"
  pgNextOffset :: bytes
  pgLastSeenAt :: int

definition h_SetNotificationsLastSeenAt :: "'s spaceDeps \<Rightarrow> int \<Rightarrow> ('s, unit) eff" where
  "h_SetNotificationsLastSeenAt D timestamp = SetNotificationsLastSeenAt D timestamp"

definition nextOffset :: "pbNotification list \<Rightarrow> bytes" where
  "nextOffset ns = (if ns = [] then [] else poID (last ns))"

definition h_GetNotifications :: "'s spaceDeps \<Rightarrow> ctx \<Rightarrow> bytes \<Rightarrow> int \<Rightarrow> ('s, pbGetNotificationsResponse) eff" where
  "h_GetNotifications D c seek limit =
     bindE (GetNotifications D c seek limit) (\<lambda>n.
     bindE (tryE (GetNotificationsLastSeenAt D)) (\<lambda>ls.
       retE \<lparr> pgNotifications = map mapToPbNotification n,
              pgNextOffset = nextOffset (map mapToPbNotification n),
              pgLastSeenAt = (case ls of Inl _ \<Rightarrow> 0 | Inr t \<Rightarrow> t) \<rparr>))"

definition h_ReadNotification :: "('s, unit) eff" where
  "h_ReadNotification = failE errNotImplemented"

definition h_HandleFilesInvitation :: "'s spaceDeps \<Rightarrow> ctx \<Rightarrow> bytes \<Rightarrow> bool \<Rightarrow> ('s, unit) eff" where
  "h_HandleFilesInvitation D c invitationID accept = HandleSharedFilesInvitation D c invitationID accept"

subsection \<open>handlers_search.go\<close>

definition h_SearchFiles ::
  "'s spaceDeps \<Rightarrow> bytes \<Rightarrow> ('s, pbSearchFilesDirectoryEntry list \<times> bytes) eff" where
  "h_SearchFiles D query =
     (if query = [] then retE ([], query)
      else bindE (SearchFiles D query) (\<lambda>entries. retE (map searchItem entries, query)))"

subsection \<open>handlers_fuse.go\<close>

text \<open>The zero value of the map is \<open>UNSUPPORTED\<close>.\<close>

definition fuseStateToRpcState :: "fuseState \<Rightarrow> int" where
  "fuseStateToRpcState st =
     (case st of UNSUPPORTED \<Rightarrow> 0 | NOT_INSTALLED \<Rightarrow> 1 | UNMOUNTED \<Rightarrow> 2 | MOUNTED \<Rightarrow> 3 | ERROR \<Rightarrow> 0)"

definition h_GetFuseDriveStatus :: "'s fuseDeps \<Rightarrow> ('s, int \<times> bytes) eff" where
  "h_GetFuseDriveStatus F =
     bindE (GetFuseState F) (\<lambda>(st, e). case e of
         Some x \<Rightarrow> failE (Err x)
       | None \<Rightarrow> bindE (GetMountPath F) (\<lambda>p. retE (fuseStateToRpcState st, p)))"

definition h_ToggleFuseDrive :: "'s fuseDeps \<Rightarrow> bool \<Rightarrow> ('s, int \<times> bytes) eff" where
  "h_ToggleFuseDrive F mountDrive =
     thenE (if mountDrive then wrapE ''failed to mount fuse drive'' (fuse_Mount F)
            else wrapE ''failed to unmount fuse drive'' (fuse_Unmount F))
     (h_GetFuseDriveStatus F)"

subsection \<open>handlers_key_pair.go, handlers_vault.go, handlers_backup.go, handlers_central_services.go\<close>

definition h_GenerateKeyPair :: "'s keySvc \<Rightarrow> ('s, bytes) eff" where
  "h_GenerateKeyPair S = svc_GenerateKeyPair S False"

definition h_GenerateKeyPairWithForce :: "'s keySvc \<Rightarrow> ('s, bytes) eff" where
  "h_GenerateKeyPairWithForce S = svc_GenerateKeyPair S True"

definition h_GetPublicKey :: "'s keySvc \<Rightarrow> ('s, bytes) eff" where
  "h_GetPublicKey S = svc_GetPublicKey S"

definition h_DeleteKeyPair :: "'s keySvc \<Rightarrow> ('s, unit) eff" where
  "h_DeleteKeyPair S = svc_DeleteKeypair S"

definition h_RestoreKeyPairViaMnemonic :: "'s keySvc \<Rightarrow> bytes \<Rightarrow> ('s, unit) eff" where
  "h_RestoreKeyPairViaMnemonic S mnemonic = RestoreKeyPairFromMnemonic S mnemonic"

definition h_GetStoredMnemonic :: "'s keySvc \<Rightarrow> ('s, bytes) eff" where
  "h_GetStoredMnemonic S = svc_GetMnemonic S"

definition h_BackupKeysByPassphrase :: "'s keySvc \<Rightarrow> bytes \<Rightarrow> bytes \<Rightarrow> int \<Rightarrow> ('s, unit) eff" where
  "h_BackupKeysByPassphrase S uuid passphrase type = BackupKeysByPassphrase S uuid passphrase type"

definition h_RecoverKeysByPassphrase :: "'s keySvc \<Rightarrow> bytes \<Rightarrow> bytes \<Rightarrow> int \<Rightarrow> ('s, unit) eff" where
  "h_RecoverKeysByPassphrase S uuid passphrase type = RecoverKeysByPassphrase S uuid passphrase type"

definition h_CreateLocalKeysBackup :: "'s keySvc \<Rightarrow> bytes \<Rightarrow> ('s, unit) eff" where
  "h_CreateLocalKeysBackup S pathToKeyBackup = CreateLocalKeysBackup S pathToKeyBackup"

definition h_RecoverKeysByLocalBackup :: "'s keySvc \<Rightarrow> bytes \<Rightarrow> ('s, unit) eff" where
  "h_RecoverKeysByLocalBackup S pathToKeyBackup = RecoverKeysByLocalBackup S pathToKeyBackup"

definition h_TestKeysPassphrase :: "'s keySvc \<Rightarrow> bytes \<Rightarrow> bytes \<Rightarrow> ('s, unit) eff" where
  "h_TestKeysPassphrase S uuid passphrase = TestPassphrase S uuid passphrase"

definition h_ToggleBucketBackup :: "'s spaceDeps \<Rightarrow> ctx \<Rightarrow> bytes \<Rightarrow> bool \<Rightarrow> ('s, unit) eff" where
  "h_ToggleBucketBackup D c bucketSlug bucketBackup = svc_ToggleBucketBackup D c bucketSlug bucketBackup"

definition h_BucketBackupRestore :: "'s spaceDeps \<Rightarrow> bytes \<Rightarrow> ('s, unit) eff" where
  "h_BucketBackupRestore D bucketSlug = svc_BucketBackupRestore D bucketSlug"

definition h_GetUsageInfo :: "('s, unit) eff" where
  "h_GetUsageInfo = failE errNotImplemented"

definition h_GenerateAppToken :: "('s, unit) eff" where
  "h_GenerateAppToken = failE errNotImplemented"

text \<open>The hub token and the services token.\<close>

definition h_GetAPISessionTokens :: "'s keySvc \<Rightarrow> ('s, bytes \<times> bytes) eff" where
  "h_GetAPISessionTokens S = GetAPISessionTokens S"

subsection \<open>handlers_account.go\<close>

definition h_DeleteAccount :: "'s spaceDeps \<Rightarrow> 's keySvc \<Rightarrow> 's fuseDeps \<Rightarrow> ctx \<Rightarrow> ('s, unit) eff" where
  "h_DeleteAccount D S F c =
     thenE (wrapE ''failed to unmount fuse drive'' (fuse_Unmount F))
     (thenE (wrapE ''error during clean up'' (TruncateData D c))
     (wrapE ''failed to remove keypair'' (svc_DeleteKeypair S)))"

subsection \<open>handlers_textile.go\<close>

record pbBucket =
  pbKey :: bytes
  pbName :: bytes
  pbPath :: bytes
  pbCreatedAt :: int
  pbUpdatedAt :: int
  pbItemsCount :: int

text \<open>The error of counting the items is dropped, and the count is then 0.\<close>

definition parseBucket :: "'s bucket \<Rightarrow> ('s, pbBucket) eff" where
  "parseBucket b =
     bindE (tryE (ItemsCount (ListDirectory b) 1 (bdPath (GetData b)) False)) (\<lambda>n.
       retE \<lparr> pbKey = bdKey (GetData b), pbName = bdName (GetData b), pbPath = bdPath (GetData b),
              pbCreatedAt = bdCreatedAt (GetData b), pbUpdatedAt = bdUpdatedAt (GetData b),
              pbItemsCount = (case n of Inl _ \<Rightarrow> 0 | Inr i \<Rightarrow> i) \<rparr>)"

definition h_CreateBucket :: "'s spaceDeps \<Rightarrow> ctx \<Rightarrow> bytes \<Rightarrow> ('s, pbBucket) eff" where
  "h_CreateBucket D c slug = bindE (svc_CreateBucket D c slug) parseBucket"

definition h_ListBuckets :: "'s spaceDeps \<Rightarrow> ctx \<Rightarrow> ('s, pbBucket list) eff" where
  "h_ListBuckets D c = bindE (svc_ListBuckets D c) (\<lambda>buckets. mapE parseBucket buckets)"

definition h_ShareBucket :: "'s spaceDeps \<Rightarrow> ctx \<Rightarrow> bytes \<Rightarrow> ('s, threadInfo) eff" where
  "h_ShareBucket D c bucketName = svc_ShareBucket D c bucketName"

definition h_JoinBucket :: "'s spaceDeps \<Rightarrow> ctx \<Rightarrow> bytes \<Rightarrow> threadInfo \<Rightarrow> ('s, bool) eff" where
  "h_JoinBucket D c bucketName ti = svc_JoinBucket D c bucketName ti"

end
