(* ===== verification/GrpcFacts.thy ===== *)
theory GrpcFacts
  imports GrpcHandlers SharingFacts FileFacts
begin

text \<open>
  What a client of the gRPC API can rely on: the notifications it is sent, the progress it is shown
  while items are added, when its requests to share are refused, and which subscriber is told.
\<close>

subsection \<open>Notifications\<close>

text \<open>
  C17. The notifications of a response are those of the mailbox in order, each carrying the related object that
  the type of its mail asks for and no other.  The type it announces is the one of the mail cut to 32
  bits, so it announces that object unless the cut made it another type that has one.  The next
  offset is the ID of the last one, and the time of the last visit is the stored one, or 0 when there
  is none.
\<close>

theorem notifications_typed:
  assumes "h_GetNotifications D c seek limit s = (Inr r, s')"
  shows "\<exists>ns s1. GetNotifications D c seek limit s = (Inr ns, s1) \<and>
    map poID (pgNotifications r) = map ntID ns \<and> map poBody (pgNotifications r) = map ntBody ns \<and>
    list_all2 (\<lambda>m n. relatedFits (ntNotificationType m) (poRelated n) \<and>
        poType n = wrap32 (ntNotificationType m) \<and>
        (relatedFits (poType n) (poRelated n) \<longleftrightarrow> poType n = ntNotificationType m \<or>
           poType n \<notin> {nINVITATION, nUSAGEALERT, nINVITATION_REPLY, nREVOKED_INVITATION}))
      ns (pgNotifications r) \<and>
    pgNextOffset r = (if ns = [] then [] else ntID (last ns)) \<and>
    pgLastSeenAt r = (case fst (GetNotificationsLastSeenAt D s1) of Inl _ \<Rightarrow> 0 | Inr t \<Rightarrow> t)"
proof -
  obtain ns s1 where ns: "GetNotifications D c seek limit s = (Inr ns, s1)"
    and r: "\<exists>ls. tryE (GetNotificationsLastSeenAt D) s1 = (Inr ls, s') \<and>
      r = \<lparr> pgNotifications = map mapToPbNotification ns, pgNextOffset = nextOffset (map mapToPbNotification ns),
        pgLastSeenAt = (case ls of Inl _ \<Rightarrow> 0 | Inr t \<Rightarrow> t) \<rparr>"
    using assms by (auto simp: h_GetNotifications_def bindE_eq_Inr)
  obtain ls where ls: "tryE (GetNotificationsLastSeenAt D) s1 = (Inr ls, s')"
    and r: "r = \<lparr> pgNotifications = map mapToPbNotification ns, pgNextOffset = nextOffset (map mapToPbNotification ns),
        pgLastSeenAt = (case ls of Inl _ \<Rightarrow> 0 | Inr t \<Rightarrow> t) \<rparr>" using r by blast
  have "(case ls of Inl _ \<Rightarrow> 0 | Inr t \<Rightarrow> t) = (case fst (GetNotificationsLastSeenAt D s1) of Inl _ \<Rightarrow> 0 | Inr t \<Rightarrow> t)"
    using ls by (auto simp: tryE_apply split: prod.splits sum.splits err.splits)
  then show ?thesis
    using ns relatedToPb_fits relatedFits_wrap32 [OF relatedToPb_fits]
    by (auto simp: r mapToPbNotification_def nextOffset_def list_all2_map2 last_map comp_def
        simp del: insert_iff intro!: list_all2_refl)
qed

text \<open>A mail can have such a type: this one reaches the client as an invitation, with no object.\<close>

lemma cut_type:
  "poType (mapToPbNotification (newNotification msg p 4294967297)) = nINVITATION"
  "poRelated (mapToPbNotification (newNotification msg p 4294967297)) = None"
  by (simp_all add: mapToPbNotification_def relatedToPb_def newNotification_def wrap32_def notificationTypes_defs)

subsection \<open>Answers to invitations\<close>

text \<open>A parsed notification of an answer never has the ID that was answered to.\<close>

lemma notificationOf_reply:
  "notificationOf S c fm msg s = (Inr n, s') \<Longrightarrow> ntInvitationAcceptValue n = \<lparr> irInvitationID = [] \<rparr>"
  by (auto simp: notificationOf_def bindE_apply thenE_apply newNotification_def Let_def
      split: sum.splits if_splits prod.splits)

lemma mapE_all:
  "mapE f xs s = (Inr ys, s') \<Longrightarrow> (\<And>x y t t'. f x t = (Inr y, t') \<Longrightarrow> P y) \<Longrightarrow> list_all P ys"
  by (induction xs arbitrary: ys s) (auto simp: bindE_eq_Inr)

lemma mail_replies:
  "GetNotifications D c seek limit s = (Inr ns, s') \<Longrightarrow>
     list_all (\<lambda>n. ntInvitationAcceptValue n = \<lparr> irInvitationID = [] \<rparr>) ns"
  by (auto simp: GetNotifications_def GetMailAsNotifications_def parseMessage_def bindE_eq_Inr thenE_eq_Inr
      intro: mapE_all notificationOf_reply)

text \<open>
  C21. An answer to an invitation reaches the client without the ID of the invitation, whatever was
  sent: the mailbox never parses the body of an answer.  What is announced as an answer carries an
  answer without an ID, or nothing (a type cut to 32 bits).
\<close>

theorem reply_id_lost:
  assumes "h_GetNotifications D c seek limit s = (Inr r, s')" "n \<in> set (pgNotifications r)"
  shows "(\<forall>i. poRelated n = Some (PbInvitationAccept i) \<longrightarrow> i = [] \<and> poType n = nINVITATION_REPLY) \<and>
    (poType n = nINVITATION_REPLY \<longrightarrow> poRelated n \<in> {Some (PbInvitationAccept []), None})"
proof -
  obtain ns s1 where ns: "GetNotifications D c seek limit s = (Inr ns, s1)" "pgNotifications r = map mapToPbNotification ns"
    using assms(1) by (auto simp: h_GetNotifications_def bindE_eq_Inr)
  then obtain m where "m \<in> set ns" "n = mapToPbNotification m" using assms(2) by auto
  then show ?thesis
    using mail_replies [OF ns(1)]
    by (auto simp: mapToPbNotification_def relatedToPb_def list_all_iff notificationTypes_defs wrap32_def split: if_splits)
qed

subsection \<open>An answer in a mailbox in memory\<close>

definition replyMail :: mailMessage where
  "replyMail = \<lparr> mmID = ''m'', mmBody = marshalBody nINVITATION_REPLY ''{}'', mmCreatedAt = 0, mmReadAt = 0 \<rparr>"

definition replyDaemon :: memDaemon where
  "replyDaemon = memDaemon0\<lparr>mcMail := [replyMail]\<rparr>"

lemma reply_parsed:
  "notificationOf memShare c fm replyMail s = (Inr (newNotification replyMail (mmBody replyMail) nINVITATION_REPLY), s)"
proof -
  have "unmarshalBody (mmBody replyMail) = Inr \<lparr> mbType = nINVITATION_REPLY, mbBody = ''{}'' \<rparr>"
    unfolding replyMail_def mailMessage.simps by (rule unmarshal_marshalBody) (simp add: int64_def nINVITATION_REPLY_def)
  then show ?thesis
    by (simp add: notificationOf_def bindE_apply memShare_def notificationTypes_defs Let_def)
qed

lemma reply_id: "mmID replyMail = ''m''"
  by (simp add: replyMail_def)

lemma reply_received:
  "\<exists>r s'. h_GetNotifications (memSpace Map.empty Map.empty) background ''m'' 1 replyDaemon = (Inr r, s') \<and>
     pgNotifications r = [mapToPbNotification (newNotification replyMail (mmBody replyMail) nINVITATION_REPLY)]"
proof -
  have "\<not> isl (fst (FindReceivedFilesByIds (memModel\<lparr>mdShouldForceRestore := False\<rparr>) background [''m''] (memDaemon0\<lparr>mcMail := ms\<rparr>)))" for ms
    by code_simp
  from this [of "[replyMail]", folded replyDaemon_def]
  obtain fs t where f: "FindReceivedFilesByIds (memModel\<lparr>mdShouldForceRestore := False\<rparr>) background [''m''] replyDaemon = (Inr fs, t)"
    by (metis prod.collapse sum.collapse(2))
  have fields: "mcFields replyDaemon = runningFields" "mcMail replyDaemon = [replyMail]"
    by (simp_all add: replyDaemon_def memDaemon0_def memWorld.extend_def)
  have w: "waitForTextileHub (memSpace Map.empty Map.empty) replyDaemon = (Inr (), replyDaemon)"
    by (simp add: waitForTextileHub_def bindE_apply IsHealthy_def memSpace_def withMailbox_def fields runningFields_def newClientFields_def)
  have h: "requiresHubConnection memTc replyDaemon = (Inr (), replyDaemon)"
    by (simp add: requiresHubConnection_def requiresRunning_def thenE_apply bindE_apply fieldE_def fields runningFields_def newClientFields_def)
  have c: "getHubCtx memTc background replyDaemon = (Inr background, replyDaemon)"
    by (simp add: getHubCtx_def memModel_def memThreadDeps_def)
  have l: "mlList memShare background ''m'' 1 replyDaemon = (Inr [replyMail], replyDaemon)"
    by (simp add: memShare_def fields) (simp add: replyMail_def)
  have p: "parseMessage memShare background [replyMail] replyDaemon =
      (Inr [newNotification replyMail (mmBody replyMail) nINVITATION_REPLY], t)"
    using f by (simp add: parseMessage_def GetModel_def fieldE_def bindE_apply fields runningFields_def newClientFields_def
        reply_parsed reply_id)
  have "GetNotifications (memSpace Map.empty Map.empty) background ''m'' 1 replyDaemon =
      (Inr [newNotification replyMail (mmBody replyMail) nINVITATION_REPLY], t)"
    using w h c l p by (simp add: GetNotifications_def GetMailAsNotifications_def thenE_apply bindE_apply) (simp add: memSpace_def bindE_apply thenE_apply)
  moreover have "GetNotificationsLastSeenAt (memSpace Map.empty Map.empty) t \<noteq> (Inl (Panic q), u)" for q u
    by (simp add: GetNotificationsLastSeenAt_def bindE_apply memSpace_def memWorldStore_def lookupRes_def errKeyNotFound_def split: option.splits)
  ultimately show ?thesis
    by (simp add: h_GetNotifications_def bindE_apply tryE_apply split: prod.splits sum.splits err.splits)
qed

theorem notifications_typed_witness:
  "\<exists>r s' ns s1. h_GetNotifications (memSpace Map.empty Map.empty) background ''m'' 1 replyDaemon = (Inr r, s') \<and>
     GetNotifications (memSpace Map.empty Map.empty) background ''m'' 1 replyDaemon = (Inr ns, s1) \<and>
     list_all2 (\<lambda>m n. relatedFits (ntNotificationType m) (poRelated n)) ns (pgNotifications r) \<and>
     poType (hd (pgNotifications r)) = nINVITATION_REPLY \<and> length (pgNotifications r) = 1"
proof -
  obtain r s' where r: "h_GetNotifications (memSpace Map.empty Map.empty) background ''m'' 1 replyDaemon = (Inr r, s')"
    "pgNotifications r = [mapToPbNotification (newNotification replyMail (mmBody replyMail) nINVITATION_REPLY)]"
    using reply_received by blast
  have p: "poType (hd (pgNotifications r)) = nINVITATION_REPLY" "length (pgNotifications r) = 1"
    by (simp_all add: r(2) mapToPbNotification_def newNotification_def wrap32_def nINVITATION_REPLY_def)
  obtain ns s1 where n: "GetNotifications (memSpace Map.empty Map.empty) background ''m'' 1 replyDaemon = (Inr ns, s1)"
    "list_all2 (\<lambda>m n. relatedFits (ntNotificationType m) (poRelated n) \<and> poType n = wrap32 (ntNotificationType m) \<and>
        (relatedFits (poType n) (poRelated n) \<longleftrightarrow> poType n = ntNotificationType m \<or>
           poType n \<notin> {nINVITATION, nUSAGEALERT, nINVITATION_REPLY, nREVOKED_INVITATION})) ns (pgNotifications r)"
    using notifications_typed [OF r(1)] by blast
  have "list_all2 (\<lambda>m n. relatedFits (ntNotificationType m) (poRelated n)) ns (pgNotifications r)"
    using n(2) by (rule list_all2_mono) blast
  with r(1) n(1) p show ?thesis by blast
qed

theorem reply_id_lost_witness:
  "\<exists>r s'. h_GetNotifications (memSpace Map.empty Map.empty) background ''m'' 1 replyDaemon = (Inr r, s') \<and>
     poRelated (hd (pgNotifications r)) = Some (PbInvitationAccept [])"
proof -
  obtain r s' where r: "h_GetNotifications (memSpace Map.empty Map.empty) background ''m'' 1 replyDaemon = (Inr r, s')"
    "pgNotifications r = [mapToPbNotification (newNotification replyMail (mmBody replyMail) nINVITATION_REPLY)]"
    using reply_received by blast
  have "\<exists>i. poRelated (hd (pgNotifications r)) = Some (PbInvitationAccept i)"
    by (simp add: r(2) mapToPbNotification_def newNotification_def relatedToPb_def notificationTypes_defs)
  moreover have "hd (pgNotifications r) \<in> set (pgNotifications r)" by (simp add: r(2))
  ultimately have "poRelated (hd (pgNotifications r)) = Some (PbInvitationAccept [])"
    using reply_id_lost [OF r(1)] by blast
  with r(1) show ?thesis by blast
qed

subsection \<open>Progress of an upload\<close>

lemma handedOver_all: "handedOver (map (\<lambda>_. True) rs) rs = rs"
  by (induction rs) (simp_all add: handedOver_def)

lemma reports_nth:
  assumes "reports rs xs"
  shows "length rs = length xs" "map fst xs = map arSourcePath rs"
    "map arBytes (filter (\<lambda>r. arError r = None) (take i rs)) = map snd (take i xs)"
proof -
  have "map (\<lambda>r. (arSourcePath r, arBytes r)) rs = xs" and e: "\<forall>r \<in> set rs. arError r = None"
    using assms by (simp_all add: reports_def)
  then show "length rs = length xs" "map fst xs = map arSourcePath rs" by (auto simp: comp_def)
  have "filter (\<lambda>r. arError r = None) (take i rs) = take i rs"
    using e by (auto simp: filter_id_conv dest: in_set_takeD)
  then show "map arBytes (filter (\<lambda>r. arError r = None) (take i rs)) = map snd (take i xs)"
    using \<open>map _ rs = xs\<close> by (auto simp: take_map comp_def)
qed

text \<open>
  C8. A client that adds the files and folders of a directory, and stays, sees every source once, in
  the order of the uploads; the counters of each message are the number of sources and of bytes
  uploaded so far, the totals are those of the last message, and when the stream ends every file of the
  tree is in the bucket.
\<close>

theorem add_items_progress:
  assumes "accepts b ok norm view" "onDisk D ok p ts" "ok s" "ldepth ts < n"
  shows "\<exists>totals rs s'. getTotals D n (map (\<lambda>t. p @ ''/'' @ lname t) ts) s = (Inr totals, s) \<and>
    addItems D n b (map (\<lambda>t. p @ ''/'' @ lname t) ts) t s = (Inr rs, s') \<and>
    view s' = fold (\<lambda>(q, x) m. m(norm q \<mapsto> x)) (planned t ts) (view s) \<and>
    (let msgs = addItemsMessages totals 0 0 (handedOver (map (\<lambda>_. True) rs) rs) in
      map (\<lambda>m. paSourcePath (pxResult m)) msgs = map fst (sourcesOf p ts) \<and>
      (\<forall>i < length msgs.
         pxCompletedFiles (msgs ! i) = int (Suc i) \<and> pxTotalFiles (msgs ! i) = int (length msgs) \<and>
         pxCompletedBytes (msgs ! i) = sum_list (map snd (take (Suc i) (sourcesOf p ts))) \<and>
         pxTotalBytes (msgs ! i) = sum_list (map snd (sourcesOf p ts))))"
proof -
  let ?P = "paths p ts" and ?xs = "sourcesOf p ts"
  obtain rs s' where r: "addItems D n b ?P t s = (Inr rs, s')" "view s' = pushAll norm (planned t ts) (view s)"
      "reports rs ?xs"
    using add_items [OF assms] by blast
  note x = reports_nth [OF r(3)]
  have tot: "getTotals D n ?P s = (Inr (totalsOf (int (length rs)) (sum_list (map snd ?xs))), s)"
    using totals_items [OF assms(2-4)] by (simp only: x(1))
  let ?m = "addItemsMessages (totalsOf (int (length rs)) (sum_list (map snd ?xs))) 0 0 rs"
  have src: "map (\<lambda>m. paSourcePath (pxResult m)) ?m = map fst ?xs"
    by (rule nth_equalityI) (simp_all add: x(1,2) addItemsMessages_nth)
  have "\<forall>i < length ?m.
       pxCompletedFiles (?m ! i) = int (Suc i) \<and> pxTotalFiles (?m ! i) = int (length ?m) \<and>
       pxCompletedBytes (?m ! i) = sum_list (map snd (take (Suc i) ?xs)) \<and>
       pxTotalBytes (?m ! i) = sum_list (map snd ?xs)"
    by (simp add: addItemsMessages_nth x(3) totalsOf_def)
  with tot r(1,2) src show ?thesis unfolding below_def pushAll_def handedOver_all Let_def by blast
qed

theorem add_items_progress_witness:
  "\<exists>totals rs s'. addItems (memSpace [''/d/x/f'' \<mapsto> ''abc''] [''/d/x'' \<mapsto> [''f'']]) 2 memBucket [''/d/x''] ''t'' memDaemon0 = (Inr rs, s') \<and>
     mcFiles s' (''key-personal'', ''t/x/f'') = Some ''abc'' \<and>
     length rs = 2 \<and> pxCompletedBytes (addItemsMessages totals 0 0 rs ! 1) = 3 \<and> pxTotalBytes (addItemsMessages totals 0 0 rs ! 0) = 3"
proof -
  let ?ts = "[LDir ''x'' [LFile ''f'' ''abc'']]"
  have o: "onDisk (memSpace [''/d/x/f'' \<mapsto> ''abc''] [''/d/x'' \<mapsto> [''f'']]) (\<lambda>_. True) ''/d'' ?ts"
    by (simp add: dirAt_def fileAt_def memSpace_def below_def lookupRes_def bindE_apply)
  have d: "ldepth ?ts < 2" by simp
  have x: "sourcesOf ''/d'' ?ts = [(''/d/x'', 0), (''/d/x/f'', 3)]" by (simp add: below_def)
  let ?D = "memSpace [''/d/x/f'' \<mapsto> ''abc''] [''/d/x'' \<mapsto> [''f'']]" and ?P = "map (\<lambda>t. ''/d'' @ ''/'' @ lname t) ?ts"
  obtain totals rs s' where r: "addItems ?D 2 memBucket ?P ''t'' memDaemon0 = (Inr rs, s')"
    "(\<lambda>p. mcFiles s' (''key-personal'', p)) =
       fold (\<lambda>(q, c) m. m(q \<mapsto> c)) (planned ''t'' ?ts) (\<lambda>p. mcFiles memDaemon0 (''key-personal'', p))"
    and m: "let msgs = addItemsMessages totals 0 0 (handedOver (map (\<lambda>_. True) rs) rs) in
      map (\<lambda>m. paSourcePath (pxResult m)) msgs = map fst (sourcesOf ''/d'' ?ts) \<and>
      (\<forall>i < length msgs.
         pxCompletedFiles (msgs ! i) = int (Suc i) \<and> pxTotalFiles (msgs ! i) = int (length msgs) \<and>
         pxCompletedBytes (msgs ! i) = sum_list (map snd (take (Suc i) (sourcesOf ''/d'' ?ts))) \<and>
         pxTotalBytes (msgs ! i) = sum_list (map snd (sourcesOf ''/d'' ?ts)))"
    using add_items_progress [where s = memDaemon0 and t = "''t''", OF memBucket_accepts o _ d] by blast
  have m: "map (\<lambda>m. paSourcePath (pxResult m)) (addItemsMessages totals 0 0 rs) = [''/d/x'', ''/d/x/f'']"
    "\<And>i. i < length rs \<Longrightarrow>
       pxCompletedBytes (addItemsMessages totals 0 0 rs ! i) = sum_list (map snd (take (Suc i) [(''/d/x'', 0), (''/d/x/f'', 3)])) \<and>
       pxTotalBytes (addItemsMessages totals 0 0 rs ! i) = 3"
    using m unfolding x handedOver_all Let_def by simp_all
  have l: "length rs = 2" using arg_cong [OF m(1), of length] by simp
  have "mcFiles s' (''key-personal'', ''t/x/f'') = Some ''abc''"
    using fun_cong [OF r(2), of "''t/x/f''"] by (simp add: below_def targetFile_def)
  then show ?thesis using r(1) l m(2) [of 0] m(2) [of 1] by (intro exI [of _ totals] exI [of _ rs] exI [of _ s']) simp
qed

text \<open>The handler, when the client is initialised and finds the bucket: what it sends is what was stated.\<close>

lemma paths_distinct: "distinct (map lname ts) \<Longrightarrow> RemoveDuplicates (paths p ts) = paths p ts"
proof -
  assume "distinct (map lname ts)"
  then have "distinct (paths p ts)" by (auto simp: distinct_map inj_on_def below_def)
  then show ?thesis by (simp add: RemoveDuplicates_def distinct_remdups_id del: map_eq_conv)
qed

lemma h_AddItems_runs:
  assumes "distinct (map lname ts)" "\<forall>t \<in> set ts. lfExists D s (below p (lname t))"
    and "IsInitialized (spTc D) s" "getBucketWithFallback D c bucketName s = (Inr b, s)"
    and "getTotals D n (paths p ts) s = (Inr totals, s)" "addItems D n b (paths p ts) t s = (Inr rs, s')"
  shows "h_AddItems D n c (paths p ts) t bucketName takes s = (Inr (addItemsMessages totals 0 0 (handedOver (takes rs) rs)), s')"
proof -
  have "filter (\<lambda>q. \<not> lfExists D s q) (paths p ts) = []" using assms(2) by (auto simp: filter_empty_conv)
  then have "AddItems D n c (paths p ts) t bucketName s = (Inr (totals, addItems D n b (paths p ts) t), s)"
    using assms(3-5)
    by (simp add: AddItems_def thenE_apply waitForTextileInit_def bindE_apply paths_distinct [OF assms(1)])
  then show ?thesis using assms(6) by (simp add: h_AddItems_def bindE_apply)
qed

subsection \<open>Sharing\<close>

lemma mapSum_bad: "\<exists>x \<in> set xs. isl (f x) \<Longrightarrow> isl (mapSum f xs)"
  by (induction xs) (force simp: bindS_def split: sum.splits)+

text \<open>
  A request to share or to stop sharing that names a key which does not parse is refused before
  anything is done; and nothing is shared when the keys cannot be recorded.
\<close>

theorem bad_key_shares_nothing:
  assumes "(\<exists>pk \<in> set publicKeys. isl (bindS (hexDecode pk) (spUnmarshalPub D))) \<or>
    (\<exists>pks e. parsePublicKeys D publicKeys = Inr pks \<and> AddRecentlySharedPublicKeys D c pks s = (Inl e, s))"
  shows "isl (fst (h_ShareFilesViaPublicKey D c publicKeys ps s)) \<and>
    snd (h_ShareFilesViaPublicKey D c publicKeys ps s) = s"
  using assms
proof
  assume "\<exists>pk \<in> set publicKeys. isl (bindS (hexDecode pk) (spUnmarshalPub D))"
  then have "isl (parsePublicKeys D publicKeys)" unfolding parsePublicKeys_def by (rule mapSum_bad)
  then show ?thesis by (auto simp: h_ShareFilesViaPublicKey_def bindE_apply split: sum.splits)
qed (auto simp: h_ShareFilesViaPublicKey_def bindE_apply thenE_apply)

theorem bad_key_shares_nothing_witness:
  "snd (h_ShareFilesViaPublicKey (memSpace Map.empty Map.empty) background [''00'', ''zz''] [] memDaemon0) = memDaemon0"
proof -
  have "isl (bindS (hexDecode ''zz'') (spUnmarshalPub (memSpace Map.empty Map.empty)))" by code_simp
  then show ?thesis
    using bad_key_shares_nothing [of "[''00'', ''zz'']" "memSpace Map.empty Map.empty" background memDaemon0 "[]"] by auto
qed

subsection \<open>Subscribers\<close>

lemma runStreams_append: "runStreams (xs @ ys) g = runStreams ys (runStreams xs g)"
  by (simp add: runStreams_def)

lemma events_sent:
  "gsSent (runStreams (map FileEventSent evs) g) k =
     gsSent g k @ (if fileEventStream g = Some k then map (\<lambda>e. EvFile (fileEventResponse e)) evs else [])"
  by (induction evs arbitrary: g)
     (auto simp: runStreams_def SendFileEvent_def sendFileEvent_def streamSend_def split: option.splits)

text \<open>
  C32. A client that subscribes while no other does is sent every file event, in order, from then on;
  but when a client that subscribed before it leaves, it is sent none any more, while its own
  subscription is still open.
\<close>

theorem subscriber_forgotten:
  "gsSent (runStreams (Subscribe k # map FileEventSent evs) g) k =
     gsSent g k @ map (\<lambda>e. EvFile (fileEventResponse e)) evs \<and>
   gsSent (runStreams ([Subscribe j, Subscribe k, SubscribeEnds j] @ map FileEventSent evs) g) k = gsSent g k"
  using events_sent [of evs "streamStep (Subscribe k) g" k]
    events_sent [of evs "runStreams [Subscribe j, Subscribe k, SubscribeEnds j] g" k]
  by (simp add: runStreams_def registerStream_def)

subsection \<open>Starting again\<close>

text \<open>A server that was shut down cannot be started again: the ready channel stays closed.\<close>

lemma grpc_restart_panics:
  "grpc_Start None None (snd (grpc_Shutdown pe re (snd (grpc_Start None None grpc_proc0)))) =
     (Inl errClosedChannel, \<lparr> gpStarted = True, gpReadyClosed = True, gpReady = 1, gpServers = True \<rparr>)"
  by (cases pe; cases re)
     (simp_all add: grpc_Start_def grpc_Shutdown_def grpc_proc0_def thenE_apply bindE_apply)

text \<open>A port of 0 keeps the default.\<close>

lemma grpc_default_port:
  "soPort (grpc_New [WithPort p, WithProxyPort q, WithRestProxyPort r]) = (if p = 0 then 9999 else p)"
  by (simp add: grpc_New_def WithPort_def WithProxyPort_def WithRestProxyPort_def defaultServerOptions_def)

end
