(* ===== verification/Config.thy ===== *)
theory Config
  imports GoStrings
begin

text \<open>
  The configuration (\<open>config\<close>) and the environment (\<open>core/env\<close>).  The daemon's configuration is three
  maps from keys to values, filled from the flags the binary was built with or, in development mode,
  from the environment.  The home directory and the environment variables are parameters.  A default
  value is an \<open>interface{}\<close>: \<open>confVal\<close>.
\<close>

subsection \<open>config.go\<close>

definition kSpaceServerPort :: bytes where "kSpaceServerPort = ''space/rpcPort''"
definition kSpaceProxyServerPort :: bytes where "kSpaceProxyServerPort = ''space/rpcProxyPort''"
definition kSpaceRestProxyServerPort :: bytes where "kSpaceRestProxyServerPort = ''space/restProxyPort''"
definition kSpaceStorageSiteUrl :: bytes where "kSpaceStorageSiteUrl = ''space/storageSiteUrl''"
definition kSpaceStorePath :: bytes where "kSpaceStorePath = ''space/storePath''"
definition kTextileHubTarget :: bytes where "kTextileHubTarget = ''space/textileHubTarget''"
definition kTextileHubMa :: bytes where "kTextileHubMa = ''space/textileHubMa''"
definition kTextileThreadsTarget :: bytes where "kTextileThreadsTarget = ''space/textileThreadsTarget''"
definition kTextileHubGatewayUrl :: bytes where "kTextileHubGatewayUrl = ''space/TextileHubGatewayUrl''"
definition kTextileUserKey :: bytes where "kTextileUserKey = ''space/textileUserKey''"
definition kTextileUserSecret :: bytes where "kTextileUserSecret = ''space/textileUserSecret''"
definition kMountFuseDrive :: bytes where "kMountFuseDrive = ''space/mountFuseDrive''"
definition kFuseDriveName :: bytes where "kFuseDriveName = ''space/fuseDriveName''"
definition kSpaceServicesAPIURL :: bytes where "kSpaceServicesAPIURL = ''space/servicesApiUrl''"
definition kSpaceVaultAPIURL :: bytes where "kSpaceVaultAPIURL = ''space/vaultApiUrl''"
definition kSpaceVaultSaltSecret :: bytes where "kSpaceVaultSaltSecret = ''space/vaultSaltSecret''"
definition kSpaceServicesHubAuthURL :: bytes where "kSpaceServicesHubAuthURL = ''space/servicesHubAuthUrl''"
definition kIpfsaddr :: bytes where "kIpfsaddr = ''space/ipfsAddr''"
definition kIpfsnode :: bytes where "kIpfsnode = ''space/ipfsNode''"
definition kIpfsnodeaddr :: bytes where "kIpfsnodeaddr = ''space/ipfsNodeAddr''"
definition kIpfsnodepath :: bytes where "kIpfsnodepath = ''space/ipfsNodePath''"
definition kBuckdPath :: bytes where "kBuckdPath = ''space/BuckdPath''"
definition kBuckdApiMaAddr :: bytes where "kBuckdApiMaAddr = ''space/BuckdApiMaAddr''"
definition kBuckdApiProxyMaAddr :: bytes where "kBuckdApiProxyMaAddr = ''space/BuckdApiProxyMaAddr''"
definition kBuckdThreadsHostMaAddr :: bytes where "kBuckdThreadsHostMaAddr = ''Space/BuckdThreadsHostMaAddr''"
definition kBuckdGatewayPort :: bytes where "kBuckdGatewayPort = ''Space/BuckdGatewayPort''"
definition kLogLevel :: bytes where "kLogLevel = ''Space/LogLevel''"

lemmas intKeys = kSpaceServerPort_def kSpaceProxyServerPort_def kSpaceRestProxyServerPort_def kBuckdGatewayPort_def

record flags =
  flIpfsaddr :: bytes
  flIpfsnode :: bool
  flIpfsnodeaddr :: bytes
  flIpfsnodepath :: bytes
  flDevMode :: bool
  flServicesAPIURL :: bytes
  flSpaceStorageSiteUrl :: bytes
  flVaultAPIURL :: bytes
  flVaultSaltSecret :: bytes
  flServicesHubAuthURL :: bytes
  flTextileHubTarget :: bytes
  flTextileHubMa :: bytes
  flTextileThreadsTarget :: bytes
  flTextileHubGatewayUrl :: bytes
  flTextileUserKey :: bytes
  flTextileUserSecret :: bytes
  flSpaceStorePath :: bytes
  flRpcServerPort :: int
  flRpcProxyServerPort :: int
  flRestProxyServerPort :: int
  flBuckdPath :: bytes
  flBuckdApiMaAddr :: bytes
  flBuckdApiProxyMaAddr :: bytes
  flBuckdThreadsHostMaAddr :: bytes
  flBuckdGatewayPort :: int
  flLogLevel :: bytes

subsection \<open>map_config.go\<close>

record mapConfig =
  configStr :: "bytes \<rightharpoonup> bytes"
  configInt :: "bytes \<rightharpoonup> int"
  configBool :: "bytes \<rightharpoonup> bool"

text \<open>\<open>setUnless\<close> sets a key unless the value is the zero value.\<close>

definition setUnless :: "'v \<Rightarrow> bytes \<Rightarrow> 'v \<Rightarrow> (bytes \<rightharpoonup> 'v) \<Rightarrow> bytes \<rightharpoonup> 'v" where
  "setUnless zero k v m = (if v = zero then m else m(k \<mapsto> v))"

definition defaultStr :: "flags \<Rightarrow> bytes \<Rightarrow> bytes \<rightharpoonup> bytes" where
  "defaultStr fl home =
     [kLogLevel \<mapsto> flLogLevel fl, kSpaceStorePath \<mapsto> pathJoin [home, ''.fleek-space''],
      kMountFuseDrive \<mapsto> ''false'', kFuseDriveName \<mapsto> ''Space'']"

definition defaultInt :: "bytes \<rightharpoonup> int" where
  "defaultInt = [kSpaceServerPort \<mapsto> 9999, kSpaceProxyServerPort \<mapsto> 9998, kSpaceRestProxyServerPort \<mapsto> 9997]"

definition devStr :: "(bytes \<Rightarrow> bytes) \<Rightarrow> (bytes \<rightharpoonup> bytes) \<Rightarrow> bytes \<rightharpoonup> bytes" where
  "devStr getenv m =
     m(kIpfsaddr \<mapsto> getenv ''IPFS_ADDR'', kIpfsnodeaddr \<mapsto> getenv ''IPFS_NODE_ADDR'',
       kIpfsnodepath \<mapsto> getenv ''IPFS_NODE_PATH'', kSpaceServicesAPIURL \<mapsto> getenv ''SERVICES_API_URL'',
       kSpaceVaultAPIURL \<mapsto> getenv ''VAULT_API_URL'', kSpaceVaultSaltSecret \<mapsto> getenv ''VAULT_SALT_SECRET'',
       kSpaceServicesHubAuthURL \<mapsto> getenv ''SERVICES_HUB_AUTH_URL'',
       kSpaceStorageSiteUrl \<mapsto> getenv ''SPACE_STORAGE_SITE_URL'', kTextileHubTarget \<mapsto> getenv ''TXL_HUB_TARGET'',
       kTextileHubMa \<mapsto> getenv ''TXL_HUB_MA'', kTextileThreadsTarget \<mapsto> getenv ''TXL_THREADS_TARGET'',
       kTextileHubGatewayUrl \<mapsto> getenv ''TXL_HUB_GATEWAY_URL'', kTextileUserKey \<mapsto> getenv ''TXL_USER_KEY'',
       kTextileUserSecret \<mapsto> getenv ''TXL_USER_SECRET'')"

definition flagStr :: "flags \<Rightarrow> (bytes \<rightharpoonup> bytes) \<Rightarrow> bytes \<rightharpoonup> bytes" where
  "flagStr fl m =
     setUnless [] kBuckdThreadsHostMaAddr (flBuckdThreadsHostMaAddr fl)
     (setUnless [] kBuckdApiProxyMaAddr (flBuckdApiProxyMaAddr fl)
     (setUnless [] kBuckdApiMaAddr (flBuckdApiMaAddr fl)
     (setUnless [] kBuckdPath (flBuckdPath fl)
     (setUnless [] kSpaceStorePath (flSpaceStorePath fl)
     (setUnless [] kSpaceStorageSiteUrl (flSpaceStorageSiteUrl fl)
     (m(kIpfsaddr \<mapsto> flIpfsaddr fl, kIpfsnodeaddr \<mapsto> flIpfsnodeaddr fl, kIpfsnodepath \<mapsto> flIpfsnodepath fl,
        kSpaceServicesAPIURL \<mapsto> flServicesAPIURL fl, kSpaceVaultAPIURL \<mapsto> flVaultAPIURL fl,
        kSpaceVaultSaltSecret \<mapsto> flVaultSaltSecret fl, kSpaceServicesHubAuthURL \<mapsto> flServicesHubAuthURL fl,
        kTextileHubTarget \<mapsto> flTextileHubTarget fl, kTextileHubMa \<mapsto> flTextileHubMa fl,
        kTextileThreadsTarget \<mapsto> flTextileThreadsTarget fl, kTextileHubGatewayUrl \<mapsto> flTextileHubGatewayUrl fl,
        kTextileUserKey \<mapsto> flTextileUserKey fl, kTextileUserSecret \<mapsto> flTextileUserSecret fl)))))))"

definition flagInt :: "flags \<Rightarrow> (bytes \<rightharpoonup> int) \<Rightarrow> bytes \<rightharpoonup> int" where
  "flagInt fl m =
     setUnless 0 kBuckdGatewayPort (flBuckdGatewayPort fl)
     (setUnless 0 kSpaceRestProxyServerPort (flRestProxyServerPort fl)
     (setUnless 0 kSpaceProxyServerPort (flRpcProxyServerPort fl)
     (setUnless 0 kSpaceServerPort (flRpcServerPort fl) m)))"

definition NewMap :: "flags \<Rightarrow> bytes \<Rightarrow> (bytes \<Rightarrow> bytes) \<Rightarrow> mapConfig" where
  "NewMap fl home getenv =
     (let strs = (if flDevMode fl then devStr getenv (defaultStr fl home) else flagStr fl (defaultStr fl home));
          ints = (if flDevMode fl then defaultInt else flagInt fl defaultInt);
          bools = (if flDevMode fl then (if getenv ''IPFS_NODE'' \<noteq> ''false'' then [kIpfsnode \<mapsto> True] else Map.empty)
                   else [kIpfsnode \<mapsto> flIpfsnode fl]);
          strs = (if strs kIpfsaddr = None \<or> strs kIpfsaddr = Some [] then strs(kIpfsaddr \<mapsto> ''/ip4/127.0.0.1/tcp/5001'')
                  else strs) in
      \<lparr> configStr = strs, configInt = ints, configBool = bools \<rparr>)"

datatype confVal = CNil | CStr bytes | CInt int | CBool bool

definition map_GetString :: "mapConfig \<Rightarrow> bytes \<Rightarrow> confVal \<Rightarrow> bytes" where
  "map_GetString m key defaultValue =
     (case configStr m key of Some val \<Rightarrow> val
      | None \<Rightarrow> (case defaultValue of CStr stringValue \<Rightarrow> stringValue | _ \<Rightarrow> []))"

definition map_GetInt :: "mapConfig \<Rightarrow> bytes \<Rightarrow> confVal \<Rightarrow> int" where
  "map_GetInt m key defaultValue =
     (case configInt m key of Some val \<Rightarrow> val
      | None \<Rightarrow> (case defaultValue of CInt intVal \<Rightarrow> intVal | _ \<Rightarrow> 0))"

definition map_GetBool :: "mapConfig \<Rightarrow> bytes \<Rightarrow> confVal \<Rightarrow> bool" where
  "map_GetBool m key defaultValue =
     (case configBool m key of Some val \<Rightarrow> val
      | None \<Rightarrow> (case defaultValue of CBool boolVal \<Rightarrow> boolVal | _ \<Rightarrow> False))"

subsection \<open>json_config.go\<close>

text \<open>The configuration file as gonfig reads it, or nil: a look-up with a default, which may fail.\<close>

type_synonym 'v gonfig = "(bytes \<Rightarrow> confVal \<Rightarrow> err + 'v) option"

definition json_Get :: "'v \<Rightarrow> 'v gonfig \<Rightarrow> bytes \<Rightarrow> confVal \<Rightarrow> 'v" where
  "json_Get zero cfg key defaultValue =
     (case cfg of None \<Rightarrow> zero
      | Some get \<Rightarrow> (case get key defaultValue of Inl _ \<Rightarrow> zero | Inr v \<Rightarrow> v))"

definition json_GetString :: "bytes gonfig \<Rightarrow> bytes \<Rightarrow> confVal \<Rightarrow> bytes" where
  "json_GetString cfg key defaultValue = json_Get [] cfg key defaultValue"

definition json_GetInt :: "int gonfig \<Rightarrow> bytes \<Rightarrow> confVal \<Rightarrow> int" where
  "json_GetInt cfg key defaultValue = json_Get 0 cfg key defaultValue"

definition json_GetBool :: "bool gonfig \<Rightarrow> bytes \<Rightarrow> confVal \<Rightarrow> bool" where
  "json_GetBool cfg key defaultValue = json_Get False cfg key defaultValue"

subsection \<open>core/env\<close>

text \<open>The directory of the executable; a path without a slash gives the empty string.\<close>

definition env_CurrentFolder :: "err + bytes \<Rightarrow> err + bytes" where
  "env_CurrentFolder executable =
     bindS executable (\<lambda>path. Inr (strJoin (butlast (strSplit path ''/'')) ''/''))"

definition defaultEnv_WorkingFolder :: "err + bytes \<Rightarrow> err + bytes" where
  "defaultEnv_WorkingFolder executable =
     (case env_CurrentFolder executable of Inl _ \<Rightarrow> Inl (Panic ''unable to get working folder'') | Inr cf \<Rightarrow> Inr cf)"

definition spaceEnv_WorkingFolder :: "(bytes \<Rightarrow> bytes) \<Rightarrow> err + bytes \<Rightarrow> err + bytes" where
  "spaceEnv_WorkingFolder getenv executable =
     (let wd = getenv ''SPACE_APP_DIR'' in
      if wd = [] then defaultEnv_WorkingFolder executable else Inr wd)"

definition spaceEnv_LogLevel :: "(bytes \<Rightarrow> bytes) \<Rightarrow> bytes" where
  "spaceEnv_LogLevel getenv = (let ll = getenv ''LOG_LEVEL'' in if ll = [] then ''Info'' else ll)"

definition defaultEnv_LogLevel :: bytes where
  "defaultEnv_LogLevel = ''Info''"

subsection \<open>What is configured\<close>

lemma setUnless_apply [simp]:
  "setUnless z k v m k' = (if k' = k \<and> v \<noteq> z then Some v else m k')"
  by (simp add: setUnless_def)

text \<open>A port that is 0 in the flags, or not in them, keeps its default.\<close>

lemma NewMap_ports:
  "map_GetInt (NewMap fl home getenv) kSpaceServerPort d =
     (if flDevMode fl \<or> flRpcServerPort fl = 0 then 9999 else flRpcServerPort fl)"
  "map_GetInt (NewMap fl home getenv) kSpaceProxyServerPort d =
     (if flDevMode fl \<or> flRpcProxyServerPort fl = 0 then 9998 else flRpcProxyServerPort fl)"
  "map_GetInt (NewMap fl home getenv) kSpaceRestProxyServerPort d =
     (if flDevMode fl \<or> flRestProxyServerPort fl = 0 then 9997 else flRestProxyServerPort fl)"
  by (auto simp: NewMap_def map_GetInt_def defaultInt_def flagInt_def intKeys Let_def)

lemma NewMap_ipfsaddr: "map_GetString (NewMap fl home getenv) kIpfsaddr d \<noteq> []"
  by (auto simp: NewMap_def map_GetString_def Let_def split: option.splits)

text \<open>The embedded node is asked for with the default true.\<close>

definition runsIpfsNode :: "mapConfig \<Rightarrow> bool" where
  "runsIpfsNode cfg = map_GetBool cfg kIpfsnode (CBool True)"

lemma NewMap_ipfsnode: "runsIpfsNode (NewMap fl home getenv) = (flDevMode fl \<or> flIpfsnode fl)"
  by (simp add: NewMap_def runsIpfsNode_def map_GetBool_def Let_def)

end
