(* ===== verification/ClientDial.thy ===== *)
theory ClientDial
  imports TextileClient Config
begin

text \<open>
  How the textile client reaches its services, the first half of \<open>start\<close> in \<open>core/textile/client.go\<close>,
  and how its \<open>Shutdown\<close> ends.  Addresses, connections and the closing of clients are parameters;
  \<open>cmd.Fatal\<close> ends the process, which is a panic here.
\<close>

subsection \<open>Dialling\<close>

datatype clientKind = BucketsClient | ThreadsClient | NetClient | UsersClient

text \<open>Whether the connection uses TLS, and whether the credentials ask for it.\<close>

record dialOpts =
  dgTLS :: bool
  dgSecure :: bool

definition localOpts :: dialOpts where
  "localOpts = \<lparr> dgTLS = False, dgSecure = False \<rparr>"

definition getHubTargetOpts :: "bytes \<Rightarrow> dialOpts" where
  "getHubTargetOpts host = (let tls = strContains host ''443'' in \<lparr> dgTLS = tls, dgSecure = tls \<rparr>)"

record 's dialer =
  dlDialArgs :: "bytes \<Rightarrow> err + bytes"
  dlMultiaddr :: "bytes \<Rightarrow> err + bytes"
  dlConnect :: "clientKind \<Rightarrow> bytes \<Rightarrow> dialOpts \<Rightarrow> ('s, nat) eff"
  dlHttpApi :: "bytes \<Rightarrow> ('s, nat) eff"

definition fatal :: "('s, 'a) eff \<Rightarrow> ('s, 'a) eff" where
  "fatal m = bindE (tryE m) (\<lambda>r. case r of Inl e \<Rightarrow> failE (Panic (''exit: '' @ e)) | Inr x \<Rightarrow> retE x)"

definition CreateUserClient :: "'s dialer \<Rightarrow> bytes \<Rightarrow> ('s, nat) eff" where
  "CreateUserClient D host = fatal (dlConnect D UsersClient host (getHubTargetOpts host))"

definition getHubThreadsClient :: "'s dialer \<Rightarrow> bytes \<Rightarrow> ('s, nat) eff" where
  "getHubThreadsClient D host = fatal (dlConnect D ThreadsClient host (getHubTargetOpts host))"

definition getHubNetworkClient :: "'s dialer \<Rightarrow> bytes \<Rightarrow> ('s, nat) eff" where
  "getHubNetworkClient D host = fatal (dlConnect D NetClient host (getHubTargetOpts host))"

definition getHubBucketClient :: "'s dialer \<Rightarrow> bytes \<Rightarrow> ('s, nat) eff" where
  "getHubBucketClient D host = fatal (dlConnect D BucketsClient host (getHubTargetOpts host))"

record clientConns =
  ccIpfs :: nat
  ccBuckets :: nat
  ccThreads :: nat
  ccNetc :: nat
  ccHt :: nat
  ccHb :: nat

definition kIpfsDefault :: bytes where
  "kIpfsDefault = ''/ip4/127.0.0.1/tcp/5001''"

definition dialClients :: "'s dialer \<Rightarrow> mapConfig \<Rightarrow> ('s, clientConns) eff" where
  "dialClients D cfg =
     (case dlDialArgs D (map_GetString cfg kBuckdApiMaAddr (CStr ''/ip4/127.0.0.1/tcp/3006'')) of
        Inl e \<Rightarrow> failE (Err (''invalid bucket daemon host provided: '' @ (case e of Err m \<Rightarrow> m | Panic m \<Rightarrow> m)))
      | Inr host \<Rightarrow>
          bindE (fatal (dlConnect D BucketsClient host localOpts)) (\<lambda>buckets.
          bindE (fatal (dlConnect D ThreadsClient host localOpts)) (\<lambda>threads.
          bindE (fatal (dlConnect D NetClient host localOpts)) (\<lambda>netc.
          let a = map_GetString cfg kIpfsnodeaddr (CStr kIpfsDefault);
              ipfsNodeAddr = (if a = [] then kIpfsDefault else a);
              hub = map_GetString cfg kTextileHubTarget (CStr []) in
          bindE (fatal (liftE (dlMultiaddr D ipfsNodeAddr))) (\<lambda>multiAddr.
          bindE (fatal (dlHttpApi D multiAddr)) (\<lambda>ic.
          bindE (getHubThreadsClient D hub) (\<lambda>ht.
          bindE (getHubBucketClient D hub) (\<lambda>hb.
            retE \<lparr> ccIpfs = ic, ccBuckets = buckets, ccThreads = threads, ccNetc = netc, ccHt = ht, ccHb = hb \<rparr>))))))))"

subsection \<open>\<open>Shutdown\<close>\<close>

text \<open>
  \<open>Shutdown\<close> once the loop has received its signal and the channels are closed, which is in \<open>ClientLoop\<close>; the
  synchronizer is nil before the first health check, and its own error is dropped.
\<close>

definition tc_Shutdown :: "'s tcDeps \<Rightarrow> ('s, unit) eff \<Rightarrow> ('s, unit) eff \<Rightarrow> ('s, unit) eff" where
  "tc_Shutdown T closeBuckets closeThreads =
     thenE (setE T (\<lambda>f. f\<lparr>cfRunning := False, cfInitialized := False, cfSyncInitialized := False,
              cfShouldForceRestore := False\<rparr>))
     (thenE (closeListeners T)
     (thenE closeBuckets
     (thenE closeThreads
     (bindE (tryE (syncE T (tsShutdown (tcSync T)))) (\<lambda>_. retE ())))))"

text \<open>When a client does not close, the synchronizer is not shut down, and its queue is not stored.\<close>

lemma unclosed_client_keeps_sync:
  assumes "thenE (setE T (\<lambda>f. f\<lparr>cfRunning := False, cfInitialized := False, cfSyncInitialized := False,
      cfShouldForceRestore := False\<rparr>)) (closeListeners T) s = (Inr (), s1)"
    and "closeBuckets s1 = (Inl e, s2)"
  shows "tc_Shutdown T closeBuckets closeThreads s = (Inl e, s2)"
proof -
  have "tc_Shutdown T closeBuckets closeThreads s =
      thenE (thenE (setE T (\<lambda>f. f\<lparr>cfRunning := False, cfInitialized := False, cfSyncInitialized := False,
          cfShouldForceRestore := False\<rparr>)) (closeListeners T))
        (thenE closeBuckets (thenE closeThreads (bindE (tryE (syncE T (tsShutdown (tcSync T)))) (\<lambda>_. retE ())))) s"
    by (simp add: tc_Shutdown_def thenE_assoc)
  then show ?thesis using assms by simp
qed

end
