(* ===== verification/Search.thy ===== *)
theory Search
  imports Model
begin

text \<open>
  The two engines behind the search index of the model: \<open>core/search/bleve\<close>, which the daemon uses,
  and \<open>core/search/sqlite\<close>.  Bleve, gorm and SQLite are parameters; what an index promises is the
  locale \<open>files_index\<close>, which the bleve engine satisfies when bleve keeps one document per ID.
\<close>

subsection \<open>bleve.go\<close>

definition bleveDbFileName :: bytes where "bleveDbFileName = ''filesIndex.bleve''"

datatype bleveQuery =
    MatchQuery bytes nat
  | PrefixQuery bytes
  | RegexpQuery bytes
  | DisjunctionQuery "bleveQuery list"

record searchRequest =
  srQuery :: bleveQuery
  srSize :: int
  srFields :: "bytes list"

text \<open>
  \<open>blOpened\<close> is whether \<open>b.idx\<close> is not nil; \<open>blOpenAt\<close> and \<open>blNewAt\<close> open and create an index, and leave
  nil on an error.  A hit is its stored fields.
\<close>

record 's bleveDeps =
  blOpened :: "'s \<Rightarrow> bool"
  blSetOpened :: "bool \<Rightarrow> 's \<Rightarrow> 's"
  blDirEntryExists :: "'s \<Rightarrow> bytes \<Rightarrow> bool"
  blOpenAt :: "bytes \<Rightarrow> ('s, unit) eff"
  blNewAt :: "bytes \<Rightarrow> ('s, unit) eff"
  blIndex :: "bytes \<Rightarrow> indexRecord \<Rightarrow> ('s, unit) eff"
  blDelete :: "bytes \<Rightarrow> ('s, unit) eff"
  blSearch :: "searchRequest \<Rightarrow> ('s, (bytes \<rightharpoonup> bytes) list) eff"
  blClose :: "('s, unit) eff"
  blDbPath :: bytes
  blSha256 :: "bytes \<Rightarrow> bytes"

definition bleve_NewSearchEngine :: "bytes \<Rightarrow> (bytes \<Rightarrow> bytes) list \<Rightarrow> bytes" where
  "bleve_NewSearchEngine home opts = fold (\<lambda>opt p. opt p) opts (pathJoin [home, ''.fleek-space''])"

definition bleve_WithDBPath :: "bytes \<Rightarrow> bytes \<Rightarrow> bytes" where
  "bleve_WithDBPath path p = path"

text \<open>
  In the branch that creates the index \<open>indexMapping, err :=\<close> declares an \<open>err\<close> of its own: the error
  of creating the index is assigned to that one, and what is tested afterwards is the outer one.
\<close>

definition bleve_Start :: "'s bleveDeps \<Rightarrow> ('s, unit) eff" where
  "bleve_Start B =
     bindE (getE (blOpened B)) (\<lambda>opened.
       if opened then retE ()
       else
         let path = pathJoin [blDbPath B, bleveDbFileName] in
         bindE (getE (\<lambda>s. blDirEntryExists B s path)) (\<lambda>there.
           if there then thenE (blOpenAt B path) (modE (blSetOpened B True))
           else bindE (tryE (blNewAt B path)) (\<lambda>r. modE (blSetOpened B (\<not> isl r)))))"

definition nilIndex :: err where
  "nilIndex = Panic ''nil pointer dereference''"

definition withIndex :: "'s bleveDeps \<Rightarrow> ('s, 'a) eff \<Rightarrow> ('s, 'a) eff" where
  "withIndex B m = bindE (getE (blOpened B)) (\<lambda>opened. if opened then m else failE nilIndex)"

definition generateIndexId :: "(bytes \<Rightarrow> bytes) \<Rightarrow> bytes \<Rightarrow> bytes \<Rightarrow> bytes \<Rightarrow> bytes \<Rightarrow> bytes" where
  "generateIndexId sha256 name path bucketSlug dbId = hexEncode (sha256 (name @ path @ bucketSlug @ dbId))"

definition bleve_record :: "'s bleveDeps \<Rightarrow> insertIndexRecord \<Rightarrow> indexRecord" where
  "bleve_record B data =
     \<lparr> ixId = generateIndexId (blSha256 B) (iiItemName data) (iiItemPath data) (iiBucketSlug data) (iiDbId data),
       ixItemName = iiItemName data, ixItemExtension = iiItemExtension data, ixItemPath = iiItemPath data,
       ixItemType = iiItemType data, ixBucketSlug = iiBucketSlug data, ixDbId = iiDbId data \<rparr>"

definition bleve_InsertFileData :: "'s bleveDeps \<Rightarrow> insertIndexRecord \<Rightarrow> ('s, indexRecord) eff" where
  "bleve_InsertFileData B data =
     (let record = bleve_record B data in
      thenE (withIndex B (blIndex B (ixId record) record)) (retE record))"

definition bleve_DeleteFileData :: "'s bleveDeps \<Rightarrow> deleteIndexRecord \<Rightarrow> ('s, unit) eff" where
  "bleve_DeleteFileData B data =
     withIndex B (blDelete B
       (generateIndexId (blSha256 B) (diItemName data) (diItemPath data) (diBucketSlug data) (diDbId data)))"

text \<open>The query goes into the regular expression as it is.\<close>

definition bleve_request :: "bytes \<Rightarrow> int \<Rightarrow> searchRequest" where
  "bleve_request query limit =
     \<lparr> srQuery = DisjunctionQuery [MatchQuery query 2, PrefixQuery query, RegexpQuery (''.*'' @ query @ ''.*'')],
       srSize = limit, srFields = [''*''] \<rparr>"

definition hitField :: "(bytes \<rightharpoonup> bytes) \<Rightarrow> bytes \<Rightarrow> err + bytes" where
  "hitField h f = (case h f of None \<Rightarrow> Inl (Panic ''interface conversion'') | Some v \<Rightarrow> Inr v)"

definition hitRecord :: "(bytes \<rightharpoonup> bytes) \<Rightarrow> err + indexRecord" where
  "hitRecord h =
     bindS (hitField h ''Id'') (\<lambda>i. bindS (hitField h ''ItemName'') (\<lambda>n.
     bindS (hitField h ''ItemExtension'') (\<lambda>e. bindS (hitField h ''ItemPath'') (\<lambda>p.
     bindS (hitField h ''ItemType'') (\<lambda>t. bindS (hitField h ''BucketSlug'') (\<lambda>b.
     bindS (hitField h ''DbId'') (\<lambda>d.
       Inr \<lparr> ixId = i, ixItemName = n, ixItemExtension = e, ixItemPath = p, ixItemType = t,
             ixBucketSlug = b, ixDbId = d \<rparr>)))))))"

definition bleve_QueryFileData :: "'s bleveDeps \<Rightarrow> bytes \<Rightarrow> int \<Rightarrow> ('s, indexRecord list) eff" where
  "bleve_QueryFileData B query limit =
     bindE (withIndex B (blSearch B (bleve_request query limit))) (\<lambda>hits. liftE (mapSum hitRecord hits))"

definition bleve_Shutdown :: "'s bleveDeps \<Rightarrow> ('s, unit) eff" where
  "bleve_Shutdown B =
     bindE (getE (blOpened B)) (\<lambda>opened.
       if \<not> opened then retE () else thenE (blClose B) (modE (blSetOpened B False)))"

text \<open>The engine as the model uses it.\<close>

definition bleveEngine :: "'s bleveDeps \<Rightarrow> 's searchEngine" where
  "bleveEngine B =
     \<lparr> seStart = bleve_Start B, seInsertFileData = bleve_InsertFileData B,
       seQueryFileData = bleve_QueryFileData B, seDeleteFileData = bleve_DeleteFileData B \<rparr>"

subsection \<open>sqlite.go\<close>

text \<open>
  A condition is the text of a \<open>Where\<close> and its arguments.  \<open>sqCreate\<close> returns the primary key.
\<close>

record sqliteRecord =
  slItemName :: bytes
  slItemExtension :: bytes
  slItemPath :: bytes
  slItemType :: bytes
  slBucketSlug :: bytes
  slDbId :: bytes

type_synonym sqlCond = "bytes \<times> bytes list"

record 's sqliteDeps =
  sqOpen :: "bytes \<Rightarrow> ('s, unit) eff"
  sqAutoMigrate :: "('s, unit) eff"
  sqCreate :: "sqliteRecord \<Rightarrow> ('s, nat) eff"
  sqDelete :: "sqlCond list \<Rightarrow> ('s, unit) eff"
  sqFind :: "sqlCond list \<Rightarrow> int \<Rightarrow> ('s, (nat \<times> sqliteRecord) list) eff"
  sqDB :: "('s, unit) eff"
  sqClose :: "('s, unit) eff"
  sqDbPath :: bytes

definition sqlite_Start :: "'s sqliteDeps \<Rightarrow> ('s, unit) eff" where
  "sqlite_Start Q =
     bindE (tryE (sqOpen Q (pathJoin [sqDbPath Q, ''filesIndex.db'']))) (\<lambda>r. case r of
         Inl e \<Rightarrow> failE (Err (''failed to open database: '' @ e))
       | Inr _ \<Rightarrow> sqAutoMigrate Q)"

definition modelToIndexRecord :: "nat \<times> sqliteRecord \<Rightarrow> indexRecord" where
  "modelToIndexRecord m =
     \<lparr> ixId = natStr (fst m), ixItemName = slItemName (snd m), ixItemExtension = slItemExtension (snd m),
       ixItemPath = slItemPath (snd m), ixItemType = slItemType (snd m),
       ixBucketSlug = slBucketSlug (snd m), ixDbId = slDbId (snd m) \<rparr>"

text \<open>The type of the item is set to its path.\<close>

definition sqlite_record :: "insertIndexRecord \<Rightarrow> sqliteRecord" where
  "sqlite_record data =
     \<lparr> slItemName = iiItemName data, slItemExtension = iiItemExtension data, slItemPath = iiItemPath data,
       slItemType = iiItemPath data, slBucketSlug = iiBucketSlug data, slDbId = iiDbId data \<rparr>"

definition sqlite_InsertFileData :: "'s sqliteDeps \<Rightarrow> insertIndexRecord \<Rightarrow> ('s, indexRecord) eff" where
  "sqlite_InsertFileData Q data =
     bindE (tryE (sqCreate Q (sqlite_record data))) (\<lambda>r. case r of
         Inl e \<Rightarrow>
           if strContains e ''UNIQUE constraint failed'' then
             failE (Err ''a similar file has already been inserted'')
           else failE (Err e)
       | Inr i \<Rightarrow> retE (modelToIndexRecord (i, sqlite_record data)))"

definition sqlite_conds :: "deleteIndexRecord \<Rightarrow> sqlCond list" where
  "sqlite_conds data =
     (''item_name = ? AND item_path = ? AND bucket_slug = ?'',
       [diItemName data, diItemPath data, diBucketSlug data]) #
     (if diDbId data \<noteq> [] then [(''dbId = ?'', [diDbId data])] else [])"

definition sqlite_DeleteFileData :: "'s sqliteDeps \<Rightarrow> deleteIndexRecord \<Rightarrow> ('s, unit) eff" where
  "sqlite_DeleteFileData Q data = sqDelete Q (sqlite_conds data)"

definition sqlite_QueryFileData :: "'s sqliteDeps \<Rightarrow> bytes \<Rightarrow> int \<Rightarrow> ('s, indexRecord list) eff" where
  "sqlite_QueryFileData Q query limit =
     bindE (sqFind Q
       [(''LOWER(item_name) LIKE ? OR LOWER(item_extension) = ?'',
         [''%'' @ strToLower query @ ''%'', strToLower query])] limit)
       (\<lambda>records. retE (map modelToIndexRecord records))"

definition sqlite_Shutdown :: "'s sqliteDeps \<Rightarrow> ('s, unit) eff" where
  "sqlite_Shutdown Q = thenE (sqDB Q) (sqClose Q)"

definition sqliteEngine :: "'s sqliteDeps \<Rightarrow> 's searchEngine" where
  "sqliteEngine Q =
     \<lparr> seStart = sqlite_Start Q, seInsertFileData = sqlite_InsertFileData Q,
       seQueryFileData = sqlite_QueryFileData Q, seDeleteFileData = sqlite_DeleteFileData Q \<rparr>"

subsection \<open>What an index promises\<close>

text \<open>
  An index is a map from keys to records: an insertion sets the key of its data, a deletion clears
  it, and a failure changes nothing.
\<close>

datatype indexOp = IndexInsert insertIndexRecord | IndexDelete deleteIndexRecord

fun runIndexOp :: "'s searchEngine \<Rightarrow> indexOp \<Rightarrow> ('s, unit) eff" where
  "runIndexOp E (IndexInsert d) = bindE (seInsertFileData E d) (\<lambda>_. retE ())"
| "runIndexOp E (IndexDelete d) = seDeleteFileData E d"

fun indexEntry :: "(insertIndexRecord \<Rightarrow> indexRecord) \<Rightarrow> (deleteIndexRecord \<Rightarrow> bytes) \<Rightarrow> indexOp \<Rightarrow> bytes \<times> indexRecord option" where
  "indexEntry rec key (IndexInsert d) = (ixId (rec d), Some (rec d))"
| "indexEntry rec key (IndexDelete d) = (key d, None)"

definition applyOps ::
  "(insertIndexRecord \<Rightarrow> indexRecord) \<Rightarrow> (deleteIndexRecord \<Rightarrow> bytes) \<Rightarrow> indexOp list \<Rightarrow> (bytes \<rightharpoonup> indexRecord) \<Rightarrow> bytes \<rightharpoonup> indexRecord" where
  "applyOps rec key ops m = fold (\<lambda>opr m. m(fst (indexEntry rec key opr) := snd (indexEntry rec key opr))) ops m"

lemma applyOps_simps:
  "applyOps rec key [] m = m"
  "applyOps rec key (opr # ops) m = applyOps rec key ops (m(fst (indexEntry rec key opr) := snd (indexEntry rec key opr)))"
  by (simp_all add: applyOps_def)

lemma applyOps_Cons: "applyOps rec key (opr # ops) m = applyOps rec key ops (applyOps rec key [opr] m)"
  by (simp add: applyOps_def)

locale files_index =
  fixes engine :: "'s searchEngine"
    and rec :: "insertIndexRecord \<Rightarrow> indexRecord"
    and key :: "deleteIndexRecord \<Rightarrow> bytes"
    and ok :: "'s \<Rightarrow> bool"
    and view :: "'s \<Rightarrow> bytes \<rightharpoonup> indexRecord"
  assumes inserts: "ok s \<Longrightarrow> seInsertFileData engine d s = (r, s') \<Longrightarrow>
      ok s' \<and> (case r of Inl _ \<Rightarrow> view s' = view s | Inr x \<Rightarrow> x = rec d \<and> view s' = (view s)(ixId (rec d) \<mapsto> rec d))"
    and deletes: "ok s \<Longrightarrow> seDeleteFileData engine e s = (q, s') \<Longrightarrow>
      ok s' \<and> (case q of Inl _ \<Rightarrow> view s' = view s | Inr _ \<Rightarrow> view s' = (view s)(key e := None))"
begin

lemma runs_one:
  assumes "ok s" "runIndexOp engine opr s = (r, s')"
  shows "ok s' \<and> view s' = (case r of Inl _ \<Rightarrow> view s | Inr _ \<Rightarrow> applyOps rec key [opr] (view s))"
proof (cases opr)
  case (IndexInsert d)
  then show ?thesis
    using assms(2) inserts [OF assms(1), of d]
    by (cases "seInsertFileData engine d s") (auto simp: bindE_apply applyOps_simps split: sum.splits prod.splits)
next
  case (IndexDelete e)
  then show ?thesis using assms(2) deletes [OF assms(1), of e] by (auto simp: applyOps_simps split: sum.splits)
qed

lemma runs_all:
  "ok s \<Longrightarrow> forE ops (runIndexOp engine) s = (Inr (), s') \<Longrightarrow> ok s' \<and> view s' = applyOps rec key ops (view s)"
proof (induction ops arbitrary: s)
  case (Cons opr ops)
  then obtain t where t: "runIndexOp engine opr s = (Inr (), t)" "forE ops (runIndexOp engine) t = (Inr (), s')"
    by (auto simp: thenE_eq_Inr)
  have "ok t" "view t = applyOps rec key [opr] (view s)" using runs_one [OF Cons.prems(1) t(1)] by simp_all
  with Cons.IH [OF _ t(2)] show ?case by (simp add: applyOps_Cons [of rec key opr ops])
qed (simp add: applyOps_simps)

end

subsection \<open>The bleve engine is such an index\<close>

text \<open>Bleve keeps one document per ID while the index is open.\<close>

definition bleve_ok :: "'s bleveDeps \<Rightarrow> ('s \<Rightarrow> bool) \<Rightarrow> ('s \<Rightarrow> bytes \<rightharpoonup> indexRecord) \<Rightarrow> bool" where
  "bleve_ok B ok view \<longleftrightarrow>
     (\<forall>s. ok s \<longrightarrow> blOpened B s) \<and>
     (\<forall>s i x r s'. ok s \<and> blIndex B i x s = (r, s') \<longrightarrow>
        ok s' \<and> view s' = (case r of Inl _ \<Rightarrow> view s | Inr _ \<Rightarrow> (view s)(i \<mapsto> x))) \<and>
     (\<forall>s i r s'. ok s \<and> blDelete B i s = (r, s') \<longrightarrow>
        ok s' \<and> view s' = (case r of Inl _ \<Rightarrow> view s | Inr _ \<Rightarrow> (view s)(i := None)))"

definition bleve_key :: "'s bleveDeps \<Rightarrow> deleteIndexRecord \<Rightarrow> bytes" where
  "bleve_key B d = generateIndexId (blSha256 B) (diItemName d) (diItemPath d) (diBucketSlug d) (diDbId d)"

interpretation bleve: files_index "bleveEngine B" "bleve_record B" "bleve_key B"
    "\<lambda>s. ok s \<and> bleve_ok B ok view" view for B :: "'s bleveDeps" and ok view
proof unfold_locales
  show "(ok s' \<and> bleve_ok B ok view) \<and> (case r of Inl _ \<Rightarrow> view s' = view s
      | Inr x \<Rightarrow> x = bleve_record B d \<and> view s' = (view s)(ixId (bleve_record B d) \<mapsto> bleve_record B d))"
    if a: "ok s \<and> bleve_ok B ok view" "seInsertFileData (bleveEngine B) d s = (r, s')" for s d r s'
  proof -
    obtain q t where q: "blIndex B (ixId (bleve_record B d)) (bleve_record B d) s = (q, t)" by fastforce
    have o: "blOpened B s" using a(1) by (simp add: bleve_ok_def)
    have "ok t \<and> view t = (case q of Inl _ \<Rightarrow> view s | Inr _ \<Rightarrow> (view s)(ixId (bleve_record B d) \<mapsto> bleve_record B d))"
      using a(1) q unfolding bleve_ok_def by blast
    then show ?thesis
      using a q o by (cases q)
        (auto simp: bleveEngine_def bleve_InsertFileData_def withIndex_def thenE_apply bindE_apply Let_def)
  qed
  show "(ok s' \<and> bleve_ok B ok view) \<and> (case q of Inl _ \<Rightarrow> view s' = view s
      | Inr _ \<Rightarrow> view s' = (view s)(bleve_key B e := None))"
    if "ok s \<and> bleve_ok B ok view" "seDeleteFileData (bleveEngine B) e s = (q, s')" for s e q s'
  proof -
    have o: "blOpened B s" using that(1) by (simp add: bleve_ok_def)
    then have "blDelete B (bleve_key B e) s = (q, s')"
      using that(2) by (simp add: bleveEngine_def bleve_DeleteFileData_def bleve_key_def withIndex_def bindE_apply)
    then have "ok s' \<and> view s' = (case q of Inl _ \<Rightarrow> view s | Inr _ \<Rightarrow> (view s)(bleve_key B e := None))"
      using that(1) unfolding bleve_ok_def by blast
    then show ?thesis using that(1) by (cases q) auto
  qed
qed

subsection \<open>Properties\<close>

text \<open>
  C14. The search index refines a map: after any insertions and deletions that succeed, it holds exactly
  the documents that were inserted last under their IDs and not deleted since.
\<close>

theorem index_refines_map:
  assumes "bleve_ok B ok view" "ok s" "forE ops (runIndexOp (bleveEngine B)) s = (Inr (), s')"
  shows "view s' = applyOps (bleve_record B) (bleve_key B) ops (view s)"
  using bleve.runs_all [OF conjI [OF assms(2,1)] assms(3)] by blast

text \<open>An index in memory: whether it is open, and the documents.\<close>

definition memBleve :: "(bool \<times> (bytes \<rightharpoonup> indexRecord)) bleveDeps" where
  "memBleve =
     \<lparr> blOpened = fst, blSetOpened = (\<lambda>o1 s. (o1, snd s)), blDirEntryExists = (\<lambda>_ _. False),
       blOpenAt = (\<lambda>_. retE ()), blNewAt = (\<lambda>_. failE (Err ''read-only file system'')),
       blIndex = (\<lambda>i x s. (Inr (), (fst s, (snd s)(i \<mapsto> x)))),
       blDelete = (\<lambda>i s. (Inr (), (fst s, (snd s)(i := None)))),
       blSearch = (\<lambda>_. retE []), blClose = retE (), blDbPath = ''/space'', blSha256 = (\<lambda>x. x) \<rparr>"

lemma memBleve_ok: "bleve_ok memBleve fst snd"
  by (auto simp: bleve_ok_def memBleve_def)

definition indexData :: "bytes \<Rightarrow> bytes \<Rightarrow> insertIndexRecord" where
  "indexData name path =
     \<lparr> iiItemName = name, iiItemExtension = [], iiItemPath = path, iiItemType = ''FILE'', iiBucketSlug = ''personal'',
       iiDbId = ''db'' \<rparr>"

definition indexDeletion :: "bytes \<Rightarrow> bytes \<Rightarrow> deleteIndexRecord" where
  "indexDeletion name path =
     \<lparr> diItemName = name, diItemPath = path, diBucketSlug = ''personal'', diDbId = ''db'' \<rparr>"

theorem index_refines_map_witness:
  "\<exists>s'. forE [IndexInsert (indexData ''a'' ''/a''), IndexInsert (indexData ''b'' ''/b''), IndexDelete (indexDeletion ''a'' ''/a'')]
      (runIndexOp (bleveEngine memBleve)) (True, Map.empty) = (Inr (), s') \<and>
     snd s' = [ixId (bleve_record memBleve (indexData ''b'' ''/b'')) \<mapsto> bleve_record memBleve (indexData ''b'' ''/b'')]"
proof -
  let ?ops = "[IndexInsert (indexData ''a'' ''/a''), IndexInsert (indexData ''b'' ''/b''), IndexDelete (indexDeletion ''a'' ''/a'')]"
  obtain s' where r: "forE ?ops (runIndexOp (bleveEngine memBleve)) (True, Map.empty) = (Inr (), s')"
    by (simp add: bleveEngine_def bleve_InsertFileData_def bleve_DeleteFileData_def withIndex_def memBleve_def
        thenE_apply bindE_apply Let_def)
  have "bleve_key memBleve (indexDeletion ''a'' ''/a'') = ixId (bleve_record memBleve (indexData ''a'' ''/a''))"
    by (simp add: bleve_key_def bleve_record_def indexData_def indexDeletion_def)
  moreover have "ixId (bleve_record memBleve (indexData ''b'' ''/b'')) \<noteq> ixId (bleve_record memBleve (indexData ''a'' ''/a''))"
    by code_simp
  ultimately show ?thesis
    using r index_refines_map [OF memBleve_ok _ r] by (auto simp: applyOps_def fun_eq_iff)
qed

text \<open>
  The ID of a document is a hash of the name, path, slug and database written one after the
  other: of two files for which these run together to the same string only the last is in the index,
  and deleting either removes it.
\<close>

theorem index_collision:
  assumes "bleve_ok B ok view" "ok s"
    and "iiItemName a @ iiItemPath a @ iiBucketSlug a @ iiDbId a = iiItemName b @ iiItemPath b @ iiBucketSlug b @ iiDbId b"
    and "forE [IndexInsert a, IndexInsert b] (runIndexOp (bleveEngine B)) s = (Inr (), s1)"
    and "bleve_DeleteFileData B \<lparr> diItemName = iiItemName a, diItemPath = iiItemPath a, diBucketSlug = iiBucketSlug a, diDbId = iiDbId a \<rparr> s1 = (Inr (), s2)"
  shows "view s1 = (view s)(ixId (bleve_record B b) \<mapsto> bleve_record B b) \<and>
    view s2 = (view s)(ixId (bleve_record B b) := None)"
proof -
  have i: "ixId (bleve_record B a) = ixId (bleve_record B b)"
    using assms(3) by (simp add: bleve_record_def generateIndexId_def)
  have 1: "ok s1" "view s1 = (view s)(ixId (bleve_record B b) \<mapsto> bleve_record B b)"
    using bleve.runs_all [OF conjI [OF assms(2,1)] assms(4)] by (auto simp: applyOps_simps i)
  have "runIndexOp (bleveEngine B) (IndexDelete \<lparr> diItemName = iiItemName a, diItemPath = iiItemPath a,
      diBucketSlug = iiBucketSlug a, diDbId = iiDbId a \<rparr>) s1 = (Inr (), s2)"
    using assms(5) by (simp add: bleveEngine_def)
  from bleve.runs_one [OF conjI [OF 1(1) assms(1)] this]
  have "view s2 = (view s1)(ixId (bleve_record B a) := None)"
    by (simp add: applyOps_simps bleve_key_def bleve_record_def)
  then show ?thesis using 1(2) i by auto
qed

theorem index_collision_witness:
  "\<exists>s1. forE [IndexInsert (indexData ''a'' ''b/c''), IndexInsert (indexData ''ab'' ''/c'')]
      (runIndexOp (bleveEngine memBleve)) (True, Map.empty) = (Inr (), s1) \<and>
     snd s1 = [ixId (bleve_record memBleve (indexData ''ab'' ''/c'')) \<mapsto> bleve_record memBleve (indexData ''ab'' ''/c'')]"
proof -
  let ?a = "indexData ''a'' ''b/c''" and ?b = "indexData ''ab'' ''/c''"
  obtain s1 where r: "forE [IndexInsert ?a, IndexInsert ?b] (runIndexOp (bleveEngine memBleve)) (True, Map.empty) = (Inr (), s1)"
    by (simp add: bleveEngine_def bleve_InsertFileData_def withIndex_def memBleve_def thenE_apply bindE_apply Let_def)
  then have o: "fst s1"
    by (auto simp: bleveEngine_def bleve_InsertFileData_def withIndex_def memBleve_def thenE_apply bindE_apply Let_def)
  then obtain s2 where d: "bleve_DeleteFileData memBleve
      \<lparr> diItemName = iiItemName ?a, diItemPath = iiItemPath ?a, diBucketSlug = iiBucketSlug ?a, diDbId = iiDbId ?a \<rparr> s1 = (Inr (), s2)"
    by (simp add: bleve_DeleteFileData_def withIndex_def memBleve_def bindE_apply)
  have e: "iiItemName ?a @ iiItemPath ?a @ iiBucketSlug ?a @ iiDbId ?a = iiItemName ?b @ iiItemPath ?b @ iiBucketSlug ?b @ iiDbId ?b"
    by (simp add: indexData_def)
  show ?thesis using index_collision [OF memBleve_ok _ e r d] r by auto
qed

text \<open>
  When the index cannot be created, \<open>Start\<close> still reports success, and the next use of the
  engine panics.
\<close>

theorem failed_index_panics:
  assumes "\<not> blOpened B s" "\<not> blDirEntryExists B s (pathJoin [blDbPath B, bleveDbFileName])"
    and "blNewAt B (pathJoin [blDbPath B, bleveDbFileName]) s = (Inl (Err e), s1)"
    and "\<And>o1 t. blOpened B (blSetOpened B o1 t) = o1"
  shows "\<exists>s2. seStart (bleveEngine B) s = (Inr (), s2) \<and>
    seInsertFileData (bleveEngine B) d s2 = (Inl nilIndex, s2) \<and>
    seDeleteFileData (bleveEngine B) x s2 = (Inl nilIndex, s2) \<and>
    seQueryFileData (bleveEngine B) q limit s2 = (Inl nilIndex, s2)"
  using assms
  by (simp add: bleveEngine_def bleve_Start_def bleve_InsertFileData_def bleve_DeleteFileData_def
      bleve_QueryFileData_def withIndex_def bindE_apply thenE_apply tryE_apply Let_def)

theorem failed_index_panics_witness:
  "\<exists>s2. seStart (bleveEngine memBleve) (False, Map.empty) = (Inr (), s2) \<and>
     seInsertFileData (bleveEngine memBleve) (indexData ''a'' ''/a'') s2 = (Inl nilIndex, s2)"
proof -
  have "\<not> blOpened memBleve (False, Map.empty)"
    "\<not> blDirEntryExists memBleve (False, Map.empty) (pathJoin [blDbPath memBleve, bleveDbFileName])"
    "blNewAt memBleve (pathJoin [blDbPath memBleve, bleveDbFileName]) (False, Map.empty) =
      (Inl (Err ''read-only file system''), (False, Map.empty))"
    "\<And>o1 t. blOpened memBleve (blSetOpened memBleve o1 t) = o1"
    by (simp_all add: memBleve_def)
  from failed_index_panics [OF this, of "indexData ''a'' ''/a''"] show ?thesis by blast
qed

text \<open>The SQLite engine returns every item with its path for a type.\<close>

lemma sqlite_type_is_path:
  "sqlite_InsertFileData Q d s = (Inr x, s') \<Longrightarrow> ixItemType x = iiItemPath d"
  by (auto simp: sqlite_InsertFileData_def bindE_apply tryE_apply modelToIndexRecord_def sqlite_record_def
      split: sum.splits if_splits prod.splits err.splits)

end
