(* ===== verification/App.thy ===== *)
theory App
  imports Config FuseController
begin

text \<open>
  Starting and stopping the daemon: \<open>app/app.go\<close>.  The state of the application is the stack of
  components to be shut down, whether it runs, the goroutines of its group and whether the group's
  context, which the components are started with, has been cancelled; \<open>apWorld\<close> is what the components
  work on.  What a component does when that context is cancelled is its own.

  A component that starts asynchronously either fails before it is ready, or becomes ready; the
  function that started it then goes on and returns later, with an error or without.  Its goroutine
  sends the error to a channel that nobody receives from once the component was ready.
\<close>

record 's component =
  cpName :: bytes
  cpShutdown :: "('s, unit) eff"

datatype asyncStart = StartFails string | StartsReady "string option"

datatype goEnd = GoReturns "string option" | GoBlocks

record 's appState =
  apWorld :: 's
  apComponents :: "'s component list"
  apGroupSet :: bool
  apGroup :: "goEnd list"
  apCtxDone :: bool
  apIsRunning :: bool

definition app_New :: "'s \<Rightarrow> 's appState" where
  "app_New w = \<lparr> apWorld = w, apComponents = [], apGroupSet = False, apGroup = [], apCtxDone = False, apIsRunning = False \<rparr>"

definition onWorld :: "('s, 'a) eff \<Rightarrow> ('s appState, 'a) eff" where
  "onWorld m = (\<lambda>a. case m (apWorld a) of (r, w) \<Rightarrow> (r, a\<lparr>apWorld := w\<rparr>))"

definition app_Run :: "'s component \<Rightarrow> ('s appState, unit) eff" where
  "app_Run c = modE (\<lambda>a. a\<lparr>apComponents := c # apComponents a\<rparr>)"

text \<open>The first goroutine of the group that returns an error cancels the context.\<close>

definition app_Go :: "goEnd \<Rightarrow> ('s appState, unit) eff" where
  "app_Go g = modE (\<lambda>a. a\<lparr>apGroup := g # apGroup a,
     apCtxDone := (case g of GoReturns (Some _) \<Rightarrow> True | _ \<Rightarrow> apCtxDone a)\<rparr>)"

definition app_RunAsync :: "'s component \<Rightarrow> ('s, asyncStart) eff \<Rightarrow> ('s appState, unit) eff" where
  "app_RunAsync c fn =
     bindE (getE apGroupSet) (\<lambda>set.
       if \<not> set then retE ()
       else
         bindE (onWorld fn) (\<lambda>r. case r of
             StartFails e \<Rightarrow> thenE (app_Go (GoReturns (Some e))) (failE (Err e))
           | StartsReady late \<Rightarrow>
               thenE (app_Go (case late of None \<Rightarrow> GoReturns None | Some _ \<Rightarrow> GoBlocks)) (app_Run c)))"

text \<open>What \<open>Start\<close> wires together: how each component starts and stops, by its name.\<close>

record 's appDeps =
  adCfg :: mapConfig
  adOpenStore :: "('s, unit) eff"
  adNewWatcher :: "('s, unit) eff"
  adStart :: "bytes \<Rightarrow> ('s, asyncStart) eff"
  adStop :: "bytes \<Rightarrow> ('s, unit) eff"
  adNewService :: "('s, unit) eff"
  adFuse :: "'s fuseDeps"
  adAttach :: "('s, unit) eff"

definition componentOf :: "'s appDeps \<Rightarrow> bytes \<Rightarrow> 's component" where
  "componentOf A name =
     \<lparr> cpName = name,
       cpShutdown = (if name = ''FuseController'' then fuse_Shutdown (adFuse A) else adStop A name) \<rparr>"

definition runs :: "'s appDeps \<Rightarrow> bytes \<Rightarrow> ('s appState, unit) eff" where
  "runs A name = app_Run (componentOf A name)"

definition runsAsync :: "'s appDeps \<Rightarrow> bytes \<Rightarrow> ('s appState, unit) eff" where
  "runsAsync A name = app_RunAsync (componentOf A name) (adStart A name)"

text \<open>A drive that does not mount is only logged.\<close>

definition mountDrive :: "'s fuseDeps \<Rightarrow> ('s, unit) eff" where
  "mountDrive F =
     bindE (ShouldMount F) (\<lambda>yes. if yes then bindE (tryE (fuse_Mount F)) (\<lambda>_. retE ()) else retE ())"

text \<open>\<open>Start\<close>, and what it does once the store is open.\<close>

definition startAfterStore :: "'s appDeps \<Rightarrow> ('s appState, unit) eff" where
  "startAfterStore A =
     thenE (onWorld (adNewWatcher A))
     (thenE (runs A ''FolderWatcher'')
     (thenE (if runsIpfsNode (adCfg A) then runsAsync A ''IpfsNode'' else retE ())
     (thenE (runsAsync A ''BucketDaemon'')
     (thenE (runs A ''FilesSearchEngine'')
     (thenE (runsAsync A ''TextileClient'')
     (thenE (onWorld (adNewService A))
     (thenE (onWorld (mountDrive (adFuse A)))
     (thenE (runs A ''FuseController'')
     (thenE (onWorld (adAttach A))
     (thenE (runsAsync A ''gRPCServer'')
     (thenE (runsAsync A ''BucketSync'')
     (modE (\<lambda>a. a\<lparr>apIsRunning := True\<rparr>)))))))))))))"

definition app_Start :: "'s appDeps \<Rightarrow> ('s appState, unit) eff" where
  "app_Start A =
     thenE (modE (\<lambda>a. a\<lparr>apGroupSet := True, apGroup := [], apCtxDone := False\<rparr>))
     (thenE (onWorld (adOpenStore A))
     (thenE (runs A ''Store'')
     (startAfterStore A)))"

text \<open>The errors of the components are only logged.\<close>

fun stopAll :: "'s component list \<Rightarrow> ('s appState, unit) eff" where
  "stopAll [] = retE ()"
| "stopAll (c # cs) =
     thenE (modE (\<lambda>a. a\<lparr>apComponents := cs\<rparr>))
     (bindE (tryE (onWorld (cpShutdown c))) (\<lambda>_. stopAll cs))"

text \<open>\<open>eg.Wait()\<close> returns the first error once every goroutine has returned; \<open>None\<close> when it never does.\<close>

definition egWait :: "goEnd list \<Rightarrow> string option option" where
  "egWait gs =
     (if GoBlocks \<in> set gs then None
      else case filter (\<lambda>g. g \<noteq> GoReturns None) (rev gs) of GoReturns (Some e) # _ \<Rightarrow> Some (Some e) | _ \<Rightarrow> Some None)"

text \<open>\<open>None\<close>: \<open>Shutdown\<close> never returns.  When \<open>Wait\<close> returns it cancels the context.\<close>

definition app_Shutdown :: "('s appState, unit option) eff" where
  "app_Shutdown =
     bindE (getE apIsRunning) (\<lambda>running.
       if \<not> running then failE (Err ''app is not running'')
       else
         bindE (getE apComponents) (\<lambda>cs.
         thenE (stopAll cs)
         (bindE (getE apGroup) (\<lambda>gs. case egWait gs of
             None \<Rightarrow> retE None
           | Some e \<Rightarrow>
               thenE (modE (\<lambda>a. a\<lparr>apIsRunning := False, apCtxDone := True\<rparr>))
               (case e of Some x \<Rightarrow> failE (Err x) | None \<Rightarrow> retE (Some ()))))))"

subsection \<open>How it is started\<close>

definition startedNames :: "mapConfig \<Rightarrow> bytes list" where
  "startedNames cfg =
     [''Store'', ''FolderWatcher''] @ (if runsIpfsNode cfg then [''IpfsNode''] else []) @
     [''BucketDaemon'', ''FilesSearchEngine'', ''TextileClient'', ''FuseController'', ''gRPCServer'', ''BucketSync'']"

lemma onWorld_eq:
  "onWorld m a = (r, a') \<longleftrightarrow> (\<exists>w. m (apWorld a) = (r, w) \<and> a' = a\<lparr>apWorld := w\<rparr>)"
  by (auto simp: onWorld_def split: prod.splits)

text \<open>
  An invariant of \<open>Start\<close>: the components are the first few names, each with its own \<open>Shutdown\<close>;
  the application does not run; no goroutine has returned an error unless \<open>Start\<close> did, and then it is
  the one of a component of \<open>later\<close>, and the context is cancelled.
\<close>

definition failedAsync :: "'s appDeps \<Rightarrow> bytes list \<Rightarrow> err \<Rightarrow> 's appState \<Rightarrow> bool" where
  "failedAsync A later e a \<longleftrightarrow>
     (apCtxDone a \<longleftrightarrow> (\<exists>m. GoReturns (Some m) \<in> set (apGroup a))) \<and>
     (apCtxDone a \<longrightarrow> (\<exists>n \<in> set later. \<exists>w m. adStart A n w = (Inr (StartFails m), apWorld a) \<and> e = Err m))"

definition upTo :: "'s appDeps \<Rightarrow> bytes list \<Rightarrow> 's appState \<Rightarrow> bool" where
  "upTo A names a \<longleftrightarrow> apComponents a = map (componentOf A) (rev names) \<and> apGroupSet a \<and> \<not> apIsRunning a \<and>
     \<not> apCtxDone a \<and> (\<forall>e. GoReturns (Some e) \<notin> set (apGroup a))"

definition leavesOff :: "'s appDeps \<Rightarrow> bytes list \<Rightarrow> err + 'a \<Rightarrow> 's appState \<Rightarrow> bytes list \<Rightarrow> bool" where
  "leavesOff A names r a later \<longleftrightarrow>
     (case r of Inr _ \<Rightarrow> upTo A (names @ later) a
      | Inl e \<Rightarrow> apComponents a = map (componentOf A) (rev names) \<and> \<not> apIsRunning a \<and> failedAsync A later e a)"

lemma leaves_onWorld: "upTo A names a \<Longrightarrow> onWorld m a = (r, a') \<Longrightarrow> leavesOff A names r a' []"
  by (auto simp: onWorld_eq leavesOff_def upTo_def failedAsync_def split: sum.splits)

lemma leaves_runs: "upTo A names a \<Longrightarrow> runs A n a = (r, a') \<Longrightarrow> leavesOff A names r a' [n]"
  by (auto simp: runs_def app_Run_def leavesOff_def upTo_def)

lemma leaves_runsAsync: "upTo A names a \<Longrightarrow> runsAsync A n a = (r, a') \<Longrightarrow> leavesOff A names r a' [n]"
  by (auto simp: runsAsync_def app_RunAsync_def app_Run_def app_Go_def leavesOff_def upTo_def failedAsync_def bindE_apply thenE_apply
      onWorld_def split: prod.splits sum.splits asyncStart.splits option.splits)

lemma leaves_ret: "upTo A names a \<Longrightarrow> retE x a = (r, a') \<Longrightarrow> leavesOff A names r a' []"
  by (auto simp: leavesOff_def)

text \<open>Either a step of the rest fails with a prefix of the names started, or all of them are.\<close>

definition startsAs :: "'s appDeps \<Rightarrow> bytes list \<Rightarrow> bytes list \<Rightarrow> ('s appState, unit) eff \<Rightarrow> bool" where
  "startsAs A names later m \<longleftrightarrow> (\<forall>a r a'. upTo A names a \<and> m a = (r, a') \<longrightarrow>
     (case r of
        Inr _ \<Rightarrow> apComponents a' = map (componentOf A) (rev (names @ later)) \<and> apIsRunning a' \<and>
          (\<forall>e. GoReturns (Some e) \<notin> set (apGroup a'))
      | Inl e \<Rightarrow> \<not> apIsRunning a' \<and> (\<exists>k \<le> length later. failedAsync A (drop k later) e a' \<and>
          apComponents a' = map (componentOf A) (rev (names @ take k later)))))"

lemma failedAsync_mono: "failedAsync A l e a \<Longrightarrow> set l \<subseteq> set l' \<Longrightarrow> failedAsync A l' e a"
  unfolding failedAsync_def by blast

lemma starts_step:
  assumes "\<And>a r a'. upTo A names a \<Longrightarrow> m a = (r, a') \<Longrightarrow> leavesOff A names r a' now"
    and "startsAs A (names @ now) later rest"
  shows "startsAs A names (now @ later) (thenE m rest)"
  unfolding startsAs_def
proof (intro allI impI, elim conjE)
  fix a r a' assume a: "upTo A names a" and r: "thenE m rest a = (r, a')"
  obtain q b where q: "m a = (q, b)" by fastforce
  have l: "leavesOff A names q b now" using assms(1) [OF a q] .
  show "case r of
        Inr _ \<Rightarrow> apComponents a' = map (componentOf A) (rev (names @ now @ later)) \<and> apIsRunning a' \<and>
          (\<forall>e. GoReturns (Some e) \<notin> set (apGroup a'))
      | Inl e \<Rightarrow> \<not> apIsRunning a' \<and>
          (\<exists>k \<le> length (now @ later). failedAsync A (drop k (now @ later)) e a' \<and> apComponents a' = map (componentOf A) (rev (names @ take k (now @ later))))"
  proof (cases q)
    case (Inl e)
    then show ?thesis using q r l failedAsync_mono [of A now e b "now @ later"]
      by (auto simp: thenE_apply leavesOff_def intro!: exI [of _ 0])
  next
    case (Inr u)
    then have b: "upTo A (names @ now) b" "rest b = (r, a')" using q r l by (simp_all add: thenE_apply leavesOff_def)
    show ?thesis
    proof (cases r)
      case (Inl e)
      then obtain k where "\<not> apIsRunning a'" "k \<le> length later" "failedAsync A (drop k later) e a'"
          "apComponents a' = map (componentOf A) (rev ((names @ now) @ take k later))"
        using assms(2) b unfolding startsAs_def by fastforce
      then show ?thesis using Inl by (auto intro!: exI [of _ "length now + k"])
    next
      case (Inr u)
      then show ?thesis using assms(2) b unfolding startsAs_def by fastforce
    qed
  qed
qed

lemma starts_done: "startsAs A names [] (modE (\<lambda>a. a\<lparr>apIsRunning := True\<rparr>))"
  by (auto simp: startsAs_def upTo_def)

lemma step_run: "startsAs A (names @ [n]) later rest \<Longrightarrow> startsAs A names (n # later) (thenE (runs A n) rest)"
  using starts_step [of A names "runs A n" "[n]" later rest] leaves_runs [of A names _ n] by simp

lemma step_async: "startsAs A (names @ [n]) later rest \<Longrightarrow> startsAs A names (n # later) (thenE (runsAsync A n) rest)"
  using starts_step [of A names "runsAsync A n" "[n]" later rest] leaves_runsAsync [of A names _ n] by simp

lemma step_world: "startsAs A names later rest \<Longrightarrow> startsAs A names later (thenE (onWorld m) rest)"
  using starts_step [of A names "onWorld m" "[]" later rest] leaves_onWorld [of A names _ m] by simp

lemma step_node:
  "startsAs A (names @ (if b then [n] else [])) later rest \<Longrightarrow>
   startsAs A names ((if b then [n] else []) @ later) (thenE (if b then runsAsync A n else retE ()) rest)"
  using step_async [of A names n later rest] by (cases b) simp_all

lemma start_rest: "startsAs A [''Store''] (tl (startedNames (adCfg A))) (startAfterStore A)"
  unfolding startAfterStore_def startedNames_def append_Cons append_Nil list.sel
  by (intro step_run step_async step_world step_node starts_done)

lemma app_Start_runs:
  assumes "app_Start A (app_New w) = (r, a)"
  shows "case r of
      Inr _ \<Rightarrow> apComponents a = map (componentOf A) (rev (startedNames (adCfg A))) \<and> apIsRunning a \<and>
        (\<forall>e. GoReturns (Some e) \<notin> set (apGroup a))
    | Inl e \<Rightarrow> \<not> apIsRunning a \<and> (\<exists>k \<le> length (startedNames (adCfg A)).
        failedAsync A (drop k (startedNames (adCfg A))) e a \<and> (fst (adOpenStore A w) = Inr () \<longrightarrow> 0 < k) \<and>
        apComponents a = map (componentOf A) (rev (take k (startedNames (adCfg A)))))"
proof -
  let ?a = "(app_New w)\<lparr>apGroupSet := True, apGroup := [], apCtxDone := False\<rparr>"
  have n: "startedNames (adCfg A) = ''Store'' # tl (startedNames (adCfg A))" by (simp add: startedNames_def)
  obtain q w1 where o: "adOpenStore A w = (q, w1)" by fastforce
  show ?thesis
  proof (cases q)
    case (Inl e)
    then have "r = Inl e" "a = ?a\<lparr>apWorld := w1\<rparr>"
      using assms o by (auto simp: app_Start_def thenE_apply onWorld_def app_New_def)
    then show ?thesis using o Inl by (auto simp: app_New_def failedAsync_def intro!: exI [of _ 0])
  next
    case (Inr u)
    let ?b = "?a\<lparr>apWorld := w1, apComponents := [componentOf A ''Store'']\<rparr>"
    have r: "startAfterStore A ?b = (r, a)"
      using assms o Inr by (simp add: app_Start_def thenE_apply onWorld_def app_New_def runs_def app_Run_def)
    have u: "upTo A [''Store''] ?b" by (simp add: upTo_def app_New_def)
    show ?thesis
    proof (cases r)
      case (Inr v)
      then show ?thesis using start_rest [of A] u r n unfolding startsAs_def by fastforce
    next
      case (Inl e)
      then obtain k where k: "\<not> apIsRunning a" "k \<le> length (tl (startedNames (adCfg A)))"
          "failedAsync A (drop k (tl (startedNames (adCfg A)))) e a" "apComponents a = map (componentOf A) (rev ([''Store''] @ take k (tl (startedNames (adCfg A)))))"
        using start_rest [of A] u r unfolding startsAs_def by fastforce
      have m: "[''Store''] @ take k (tl (startedNames (adCfg A))) = take (Suc k) (startedNames (adCfg A))"
        using n by (metis append_Cons append_Nil take_Suc_Cons)
      have "Suc k \<le> length (startedNames (adCfg A))" using k(2) n by (metis Suc_le_mono length_Cons)
      moreover have "drop k (tl (startedNames (adCfg A))) = drop (Suc k) (startedNames (adCfg A))"
        by (simp add: drop_Suc)
      ultimately show ?thesis using Inl k(1,3) k(4) [unfolded m] by (auto intro!: exI [of _ "Suc k"])
    qed
  qed
qed

subsection \<open>How it is stopped\<close>

text \<open>What shutting components down does to the world: one after the other, their errors dropped.\<close>

fun stopWorld :: "'s component list \<Rightarrow> ('s, unit) eff" where
  "stopWorld [] = retE ()"
| "stopWorld (c # cs) = bindE (tryE (cpShutdown c)) (\<lambda>_. stopWorld cs)"

lemma stopAll_world:
  "stopWorld cs (apWorld a) = (Inr (), w) \<Longrightarrow> stopAll cs a = (Inr (), a\<lparr>apComponents := if cs = [] then apComponents a else [], apWorld := w\<rparr>)"
  by (induction cs arbitrary: a)
     (auto simp: bindE_apply thenE_apply tryE_apply onWorld_def split: prod.splits sum.splits err.splits)

lemma egWait_returns:
  "\<forall>e. GoReturns (Some e) \<notin> set gs \<Longrightarrow> egWait gs = (if GoBlocks \<in> set gs then None else Some None)"
proof -
  assume "\<forall>e. GoReturns (Some e) \<notin> set gs"
  then have "filter (\<lambda>g. g \<noteq> GoReturns None) (rev gs) = []" if "GoBlocks \<notin> set gs"
    using that by (auto simp: filter_empty_conv) (metis goEnd.exhaust option.exhaust)
  then show ?thesis by (simp add: egWait_def)
qed

text \<open>
  C23. The daemon that started has its components on the stack in the order they started, the embedded IPFS node
  among them as configured; its shutdown stops every one of them once, the last first, whatever errors they
  return, and then returns without error unless the function that started a component returned an
  error after the component was ready: then it never returns.
\<close>

theorem app_stops_in_reverse:
  assumes "app_Start A (app_New w) = (Inr (), a)"
    and "stopWorld (map (componentOf A) (rev (startedNames (adCfg A)))) (apWorld a) = (Inr (), w')"
  shows "map cpName (apComponents a) = rev (startedNames (adCfg A)) \<and>
    (\<exists>a'. app_Shutdown a = (Inr (if GoBlocks \<in> set (apGroup a) then None else Some ()), a') \<and>
       apWorld a' = w' \<and> apComponents a' = [])"
proof -
  have s: "apComponents a = map (componentOf A) (rev (startedNames (adCfg A)))" "apIsRunning a"
      "\<forall>e. GoReturns (Some e) \<notin> set (apGroup a)"
    using app_Start_runs [OF assms(1)] by simp_all
  have n: "map cpName (apComponents a) = rev (startedNames (adCfg A))"
    by (simp add: s(1) componentOf_def comp_def)
  have ne: "apComponents a \<noteq> []" by (simp add: s(1) startedNames_def)
  have st: "stopAll (apComponents a) a = (Inr (), a\<lparr>apComponents := [], apWorld := w'\<rparr>)"
    using stopAll_world [of "apComponents a" a w'] assms(2) ne by (simp add: s(1))
  show ?thesis
    using st s(2) n by (simp add: app_Shutdown_def bindE_apply thenE_apply egWait_returns [OF s(3)])
qed

text \<open>
  C24. When \<open>Start\<close> fails, no component that was started is shut down, then or later: they are still on the
  stack, at least the store when it had been opened, and every later \<open>Shutdown\<close> refuses, because the
  application does not run, and stops nothing.  The context they were started with is cancelled exactly
  when a goroutine of the group returned an error, and then it is that of a component not on the stack
  whose start function failed, which is the error of \<open>Start\<close>; after any other failure nothing tells
  the components.
\<close>

theorem failed_start_leaves_running:
  assumes "app_Start A (app_New w) = (Inl e, a)"
  shows "app_Shutdown a = (Inl (Err ''app is not running''), a) \<and>
    (\<exists>k. map cpName (apComponents a) = rev (take k (startedNames (adCfg A))) \<and>
       (fst (adOpenStore A w) = Inr () \<longrightarrow> ''Store'' \<in> set (map cpName (apComponents a))) \<and>
       (apCtxDone a \<longleftrightarrow> (\<exists>m. GoReturns (Some m) \<in> set (apGroup a))) \<and>
       (apCtxDone a \<longrightarrow> (\<exists>n \<in> set (drop k (startedNames (adCfg A))). \<exists>w1 m.
          adStart A n w1 = (Inr (StartFails m), apWorld a) \<and> e = Err m)))"
proof -
  obtain k where s: "\<not> apIsRunning a" "k \<le> length (startedNames (adCfg A))"
      "failedAsync A (drop k (startedNames (adCfg A))) e a" "fst (adOpenStore A w) = Inr () \<longrightarrow> 0 < k"
      "apComponents a = map (componentOf A) (rev (take k (startedNames (adCfg A))))"
    using app_Start_runs [OF assms] by auto
  have n: "map cpName (apComponents a) = rev (take k (startedNames (adCfg A)))"
    by (simp add: s(5) componentOf_def comp_def)
  have "''Store'' \<in> set (rev (take k (startedNames (adCfg A))))" if "0 < k"
    using that by (cases k) (simp_all add: startedNames_def)
  then have "fst (adOpenStore A w) = Inr () \<longrightarrow> ''Store'' \<in> set (map cpName (apComponents a))"
    unfolding n using s(4) by blast
  moreover have "app_Shutdown a = (Inl (Err ''app is not running''), a)"
    using s(1) by (simp add: app_Shutdown_def bindE_apply)
  ultimately show ?thesis using n s(3) [unfolded failedAsync_def] by blast
qed

subsection \<open>An application in memory\<close>

text \<open>
  The world is that of the drive in memory, and what was stopped is written to its store; \<open>bad\<close> is the
  component that fails to start.
\<close>

definition memApp :: "bytes \<Rightarrow> fuseMem appDeps" where
  "memApp bad =
     \<lparr> adCfg = \<lparr> configStr = Map.empty, configInt = Map.empty, configBool = Map.empty \<rparr>,
       adOpenStore = retE (), adNewWatcher = retE (),
       adStart = (\<lambda>n. retE (if n = bad then StartFails ''address in use'' else StartsReady None)),
       adStop = (\<lambda>n s. (Inr (), (fst s, (snd s)(n \<mapsto> ''stopped'')))), adNewService = retE (),
       adFuse = memFuse, adAttach = retE () \<rparr>"

lemma stopWorld_returns:
  "(\<And>c t. c \<in> set cs \<Longrightarrow> \<exists>t'. cpShutdown c t = (Inr (), t')) \<Longrightarrow> \<exists>w'. stopWorld cs w = (Inr (), w')"
proof (induction cs arbitrary: w)
  case (Cons c cs)
  obtain t' where "cpShutdown c w = (Inr (), t')" using Cons.prems [of c w] by auto
  with Cons show ?case by (simp add: bindE_apply tryE_apply)
qed simp

lemma memApp_stops: "\<exists>t'. cpShutdown (componentOf (memApp bad) n) t = (Inr (), t')"
  by (cases t) (auto simp: componentOf_def memApp_def fuse_Shutdown_def fuse_Unmount_def memFuse_def bindE_apply thenE_apply)

lemmas start_evals = app_Start_def startAfterStore_def thenE_apply bindE_apply runs_def runsAsync_def app_Run_def
  app_RunAsync_def app_Go_def onWorld_def app_New_def mountDrive_def tryE_apply

lemma memApp_starts:
  "\<exists>a. app_Start (memApp []) (app_New (False, Map.empty)) = (Inr (), a) \<and> GoBlocks \<notin> set (apGroup a)"
  by (simp add: start_evals memApp_def ShouldMount_def memFuse_def lookupRes_def errKeyNotFound_def
      runsIpfsNode_def map_GetBool_def)

theorem app_stops_in_reverse_witness:
  "\<exists>a a'. app_Start (memApp []) (app_New (False, Map.empty)) = (Inr (), a) \<and> length (apComponents a) = 9 \<and>
     app_Shutdown a = (Inr (Some ()), a') \<and> apComponents a' = []"
proof -
  obtain a where a: "app_Start (memApp []) (app_New (False, Map.empty)) = (Inr (), a)" "GoBlocks \<notin> set (apGroup a)"
    using memApp_starts by blast
  have "\<exists>w'. stopWorld (map (componentOf (memApp [])) ns) w = (Inr (), w')" for ns w
    by (rule stopWorld_returns, unfold set_map, erule imageE, simp only: memApp_stops)
  then obtain w' where "stopWorld (map (componentOf (memApp [])) (rev (startedNames (adCfg (memApp []))))) (apWorld a) = (Inr (), w')"
    by blast
  note r = app_stops_in_reverse [OF a(1) this]
  moreover have "length (startedNames (adCfg (memApp []))) = 9" by code_simp
  ultimately show ?thesis using a by (metis length_map length_rev)
qed

theorem failed_start_leaves_running_witness:
  "\<exists>e a. app_Start (memApp ''gRPCServer'') (app_New (False, Map.empty)) = (Inl e, a) \<and> apCtxDone a \<and>
     app_Shutdown a = (Inl (Err ''app is not running''), a) \<and> ''Store'' \<in> set (map cpName (apComponents a))"
proof -
  obtain e a where a: "app_Start (memApp ''gRPCServer'') (app_New (False, Map.empty)) = (Inl e, a)"
      "\<exists>m. GoReturns (Some m) \<in> set (apGroup a)"
    by (simp add: start_evals memApp_def ShouldMount_def memFuse_def lookupRes_def errKeyNotFound_def
        runsIpfsNode_def map_GetBool_def)
  have "fst (adOpenStore (memApp ''gRPCServer'') (False, Map.empty)) = Inr ()" by (simp add: memApp_def)
  with a failed_start_leaves_running [OF a(1)] show ?thesis by blast
qed

text \<open>
  In development mode the daemon always starts its embedded IPFS node, whatever \<open>IPFS_NODE\<close> says:
  the configuration leaves the key out instead of setting it to false, and \<open>Start\<close> takes a missing
  key for true.
\<close>

theorem dev_node_always_starts:
  "flDevMode fl \<Longrightarrow> app_Start (A\<lparr>adCfg := NewMap fl home getenv\<rparr>) (app_New w) = (Inr (), a) \<Longrightarrow>
     ''IpfsNode'' \<in> set (map cpName (apComponents a))"
  by (drule app_Start_runs) (simp add: startedNames_def NewMap_ipfsnode componentOf_def)

definition devFlags :: flags where
  "devFlags =
     \<lparr> flIpfsaddr = [], flIpfsnode = False, flIpfsnodeaddr = [], flIpfsnodepath = [], flDevMode = True,
       flServicesAPIURL = [], flSpaceStorageSiteUrl = [], flVaultAPIURL = [], flVaultSaltSecret = [],
       flServicesHubAuthURL = [], flTextileHubTarget = [], flTextileHubMa = [], flTextileThreadsTarget = [],
       flTextileHubGatewayUrl = [], flTextileUserKey = [], flTextileUserSecret = [], flSpaceStorePath = [],
       flRpcServerPort = 0, flRpcProxyServerPort = 0, flRestProxyServerPort = 0, flBuckdPath = [],
       flBuckdApiMaAddr = [], flBuckdApiProxyMaAddr = [], flBuckdThreadsHostMaAddr = [], flBuckdGatewayPort = 0,
       flLogLevel = [] \<rparr>"

theorem dev_node_always_starts_witness:
  "\<exists>a. app_Start ((memApp [])\<lparr>adCfg := NewMap devFlags ''/home/u'' (\<lambda>v. if v = ''IPFS_NODE'' then ''false'' else [])\<rparr>)
      (app_New (False, Map.empty)) = (Inr (), a) \<and> ''IpfsNode'' \<in> set (map cpName (apComponents a))"
proof -
  let ?A = "(memApp [])\<lparr>adCfg := NewMap devFlags ''/home/u'' (\<lambda>v. if v = ''IPFS_NODE'' then ''false'' else [])\<rparr>"
  have d: "flDevMode devFlags" by (simp add: devFlags_def)
  obtain a where a: "app_Start ?A (app_New (False, Map.empty)) = (Inr (), a)"
    by (simp add: start_evals NewMap_ipfsnode d memApp_def ShouldMount_def memFuse_def lookupRes_def errKeyNotFound_def)
  show ?thesis using a dev_node_always_starts [OF d a] by blast
qed

end
