(* ===== verification/Ipfs.thy ===== *)
theory Ipfs
  imports GoStrings
begin

text \<open>
  The daemon's own part of IPFS, \<open>core/ipfs\<close>: a DAG service in memory (\<open>dag.go\<close>), the client over an
  IPFS node (\<open>ipfs.go\<close>) and downloads over HTTP (\<open>utils.go\<close>).  The node's API, HTTP, and the
  importers that cut a file into a DAG are parameters.  The embedded node (\<open>node/node.go\<close>) only
  configures and starts the IPFS core.
\<close>

subsection \<open>dag.go\<close>

text \<open>A node is what it is; \<open>cidOf\<close> is the key string of its CID.  The mutex makes every operation one step.\<close>

type_synonym 'n dagNodes = "bytes \<rightharpoonup> 'n"

definition dagNotFound :: err where
  "dagNotFound = Err ''not found''"

definition dag_Get :: "bytes \<Rightarrow> ('n dagNodes, 'n) eff" where
  "dag_Get c = (\<lambda>m. (case m c of Some n \<Rightarrow> Inr n | None \<Rightarrow> Inl dagNotFound, m))"

text \<open>The channel of \<open>GetMany\<close> has room for one option per CID and is closed: it is the list of them.\<close>

definition dag_GetMany :: "bytes list \<Rightarrow> ('n dagNodes, (err + 'n) list) eff" where
  "dag_GetMany cids = (\<lambda>m. (Inr (map (\<lambda>c. case m c of Some n \<Rightarrow> Inr n | None \<Rightarrow> Inl dagNotFound) cids), m))"

definition dag_Add :: "('n \<Rightarrow> bytes) \<Rightarrow> 'n \<Rightarrow> ('n dagNodes, unit) eff" where
  "dag_Add cidOf n = modE (\<lambda>m. m(cidOf n \<mapsto> n))"

definition dag_AddMany :: "('n \<Rightarrow> bytes) \<Rightarrow> 'n list \<Rightarrow> ('n dagNodes, unit) eff" where
  "dag_AddMany cidOf ns = modE (\<lambda>m. fold (\<lambda>n m. m(cidOf n \<mapsto> n)) ns m)"

definition dag_Remove :: "bytes \<Rightarrow> ('n dagNodes, unit) eff" where
  "dag_Remove c = modE (\<lambda>m. m(c := None))"

definition dag_RemoveMany :: "bytes list \<Rightarrow> ('n dagNodes, unit) eff" where
  "dag_RemoveMany cids = modE (\<lambda>m. fold (\<lambda>c m. m(c := None)) cids m)"

text \<open>What the importers rely on of a DAG service.\<close>

locale dag_service =
  fixes get :: "bytes \<Rightarrow> ('s, 'n) eff"
    and getMany :: "bytes list \<Rightarrow> ('s, (err + 'n) list) eff"
    and addMany :: "'n list \<Rightarrow> ('s, unit) eff"
    and removeMany :: "bytes list \<Rightarrow> ('s, unit) eff"
    and cidOf :: "'n \<Rightarrow> bytes"
    and stored :: "'s \<Rightarrow> bytes \<rightharpoonup> 'n"
  assumes gets: "get c s = (case stored s c of Some n \<Rightarrow> Inr n | None \<Rightarrow> Inl dagNotFound, s)"
    and gets_many: "getMany cids s = (Inr (map (\<lambda>c. fst (get c s)) cids), s)"
    and adds: "addMany ns s = (Inr (), s') \<Longrightarrow>
      stored s' c = (if c \<in> cidOf ` set ns then Some (last (filter (\<lambda>n. cidOf n = c) ns)) else stored s c)"
    and removes: "removeMany cids s = (Inr (), s') \<Longrightarrow> stored s' c = (if c \<in> set cids then None else stored s c)"
begin

text \<open>When equal CIDs mean equal nodes, whatever was added is got back, and nothing else is lost.\<close>

lemma got_back:
  assumes "addMany ns s = (Inr (), s')" "inj_on cidOf (set ns)"
  shows "getMany (map cidOf ns) s' = (Inr (map Inr ns), s')"
proof -
  have "stored s' (cidOf n) = Some n" if "n \<in> set ns" for n
  proof -
    have f: "set (filter (\<lambda>m. cidOf m = cidOf n) ns) = {n}" using that assms(2) by (auto simp: inj_on_def)
    then have "filter (\<lambda>m. cidOf m = cidOf n) ns \<noteq> []" by (metis empty_not_insert list.set(1))
    then have "last (filter (\<lambda>m. cidOf m = cidOf n) ns) \<in> {n}" using f last_in_set by metis
    then show ?thesis using that by (auto simp: adds [OF assms(1)])
  qed
  then show ?thesis by (simp add: gets_many gets)
qed

lemma gone: "removeMany cids s = (Inr (), s') \<Longrightarrow> c \<in> set cids \<Longrightarrow> get c s' = (Inl dagNotFound, s')"
  by (simp add: gets removes)

end

lemma fold_adds:
  "fold (\<lambda>n m. m(cidOf n \<mapsto> n)) ns m c =
     (if c \<in> cidOf ` set ns then Some (last (filter (\<lambda>n. cidOf n = c) ns)) else m c)"
proof (induction ns arbitrary: m)
  case (Cons n ns)
  then show ?case by (auto simp: filter_empty_conv)
qed simp

lemma fold_removes: "fold (\<lambda>c m. m(c := None)) cids m c = (if c \<in> set cids then None else m c)"
  by (induction cids arbitrary: m) auto

interpretation dag: dag_service dag_Get dag_GetMany "dag_AddMany cidOf" dag_RemoveMany cidOf "\<lambda>m. m"
  for cidOf :: "'n \<Rightarrow> bytes"
proof unfold_locales
  show "s' c = (if c \<in> cidOf ` set ns then Some (last (filter (\<lambda>n. cidOf n = c) ns)) else s c)"
    if "dag_AddMany cidOf ns s = (Inr (), s')" for ns s s' c
    using that fold_adds [of cidOf ns s c] by (auto simp: dag_AddMany_def)
  show "s' c = (if c \<in> set cids then None else s c)" if "dag_RemoveMany cids s = (Inr (), s')" for cids and s s' :: "'n dagNodes" and c
    using that fold_removes [of cids s c] by (auto simp: dag_RemoveMany_def)
qed (simp_all add: dag_Get_def dag_GetMany_def)

lemma dag_Add_one: "dag_Add cidOf n = dag_AddMany cidOf [n]" "dag_Remove c = dag_RemoveMany [c]"
  by (simp_all add: dag_Add_def dag_AddMany_def dag_Remove_def dag_RemoveMany_def)

subsection \<open>ipfs.go\<close>

text \<open>
  The node's API: adding content, an empty object, a link, and what is at a CID.  A path is the CID it
  resolves to.
\<close>

datatype ipfsNode = IpfsFile bytes | IpfsDirectory | IpfsOther

record 's ipfsApi =
  ipAdd :: "bytes \<Rightarrow> ('s, bytes) eff"
  ipObjectNew :: "('s, bytes) eff"
  ipAddLink :: "bytes \<Rightarrow> bytes \<Rightarrow> bytes \<Rightarrow> ('s, bytes) eff"
  ipGet :: "bytes \<Rightarrow> ('s, ipfsNode) eff"

type_synonym ipfsAddResult = "string + bytes"

text \<open>
  One goroutine per item, each writing the result of its own index; they run in any order: \<open>order\<close> is
  the order in which they add.  A result holds the error or the path.
\<close>

fun addInOrder :: "'s ipfsApi \<Rightarrow> bytes list \<Rightarrow> nat list \<Rightarrow> ipfsAddResult list \<Rightarrow> ('s, ipfsAddResult list) eff" where
  "addInOrder I items [] results = retE results"
| "addInOrder I items (i # order) results =
     bindE (tryE (ipAdd I (items ! i))) (\<lambda>r. addInOrder I items order (results[i := r]))"

definition ipfs_AddItems :: "'s ipfsApi \<Rightarrow> nat list \<Rightarrow> bytes list \<Rightarrow> ('s, ipfsAddResult list) eff" where
  "ipfs_AddItems I order items = addInOrder I items order (replicate (length items) (Inr []))"

definition ipfs_AddItem :: "'s ipfsApi \<Rightarrow> bytes \<Rightarrow> ('s, ipfsAddResult) eff" where
  "ipfs_AddItem I item = bindE (ipfs_AddItems I [0] [item]) (\<lambda>rs. retE (rs ! 0))"

fun linkAll :: "'s ipfsApi \<Rightarrow> bytes \<Rightarrow> (bytes \<times> bytes) list \<Rightarrow> ('s, bytes) eff" where
  "linkAll I parent [] = retE parent"
| "linkAll I parent ((name, path) # nodes) =
     bindE (tryE (ipAddLink I parent name path)) (\<lambda>r. case r of
         Inl e \<Rightarrow> failE (Err (''failed to link nodes: '' @ e))
       | Inr parent' \<Rightarrow> linkAll I parent' nodes)"

definition ipfs_LinkNodes :: "'s ipfsApi \<Rightarrow> (bytes \<times> bytes) list \<Rightarrow> ('s, bytes) eff" where
  "ipfs_LinkNodes I nodes =
     (if nodes = [] then failE (Err ''no nodes passed to link nodes'')
      else bindE (ipObjectNew I) (\<lambda>parent. linkAll I parent nodes))"

definition ipfs_PullItem :: "'s ipfsApi \<Rightarrow> bytes \<Rightarrow> ('s, bytes) eff" where
  "ipfs_PullItem I cid =
     bindE (ipGet I cid) (\<lambda>n. case n of
         IpfsFile x \<Rightarrow> retE x
       | _ \<Rightarrow> failE (Err ''unsupported cid provided''))"

lemma addInOrder_results:
  assumes "\<And>x s. \<exists>s'. tryE (ipAdd I x) s = (Inr (res x), s')"
  shows "length results = length items \<Longrightarrow> set order \<subseteq> {..<length items} \<Longrightarrow> distinct order \<Longrightarrow>
    \<exists>s'. addInOrder I items order results s = (Inr (map (\<lambda>i. if i \<in> set order then res (items ! i) else results ! i) [0..<length items]), s')"
proof (induction order arbitrary: results s)
  case Nil
  have "map (\<lambda>i. results ! i) [0..<length items] = results" using Nil(1) by (metis map_nth)
  then show ?case by simp
next
  case (Cons i order)
  obtain t where t: "tryE (ipAdd I (items ! i)) s = (Inr (res (items ! i)), t)" using assms by blast
  have "\<exists>s'. addInOrder I items order (results[i := res (items ! i)]) t =
      (Inr (map (\<lambda>j. if j \<in> set order then res (items ! j) else results[i := res (items ! i)] ! j) [0..<length items]), s')"
    using Cons.prems by (intro Cons.IH) auto
  then obtain s' where s': "addInOrder I items order (results[i := res (items ! i)]) t =
      (Inr (map (\<lambda>j. if j \<in> set order then res (items ! j) else results[i := res (items ! i)] ! j) [0..<length items]), s')"
    by blast
  have "map (\<lambda>j. if j \<in> set order then res (items ! j) else results[i := res (items ! i)] ! j) [0..<length items] =
      map (\<lambda>j. if j \<in> set (i # order) then res (items ! j) else results ! j) [0..<length items]"
    using Cons.prems by (auto simp: nth_list_update)
  then show ?case using t s' by (simp add: bindE_apply)
qed

text \<open>
  What is added concurrently comes back at the index it was given, whatever the order in which
  the goroutines run: when the result of adding a content does not depend on what was added before, the
  results are those of adding the items one by one, errors included.
\<close>

theorem add_order_irrelevant:
  assumes "\<And>x s. \<exists>s'. tryE (ipAdd I x) s = (Inr (res x), s')"
    and "distinct order" "set order = {..<length items}"
  shows "\<exists>s'. ipfs_AddItems I order items s = (Inr (map res items), s')"
proof -
  have m: "map (\<lambda>i. if i < length items then res (items ! i) else replicate (length items) (Inr []) ! i) [0..<length items] =
      map res items"
    by (rule nth_equalityI) auto
  show ?thesis
    using addInOrder_results [OF assms(1), of "replicate (length items) (Inr [])" items order s] assms(2,3)
    unfolding ipfs_AddItems_def by (simp only: length_replicate order_refl lessThan_iff m simp_thms)
qed

theorem add_order_irrelevant_witness:
  "\<exists>s'. ipfs_AddItems \<lparr> ipAdd = \<lambda>x n. (if x = [] then Inl (Err ''empty'') else Inr (''Qm'' @ x), Suc n), ipObjectNew = retE ''Qm'',
      ipAddLink = \<lambda>p n q. retE (p @ q), ipGet = \<lambda>_. retE IpfsOther \<rparr> [2, 0, 1] [''a'', [], ''b''] (0 :: nat) =
    (Inr [Inr ''Qma'', Inl ''empty'', Inr ''Qmb''], s')"
proof -
  have "\<exists>s'. ipfs_AddItems \<lparr> ipAdd = \<lambda>x n. (if x = [] then Inl (Err ''empty'') else Inr (''Qm'' @ x), Suc n), ipObjectNew = retE ''Qm'',
      ipAddLink = \<lambda>p n q. retE (p @ q), ipGet = \<lambda>_. retE IpfsOther \<rparr> [2, 0, 1] [''a'', [], ''b''] (0 :: nat) =
    (Inr (map (\<lambda>x. if x = [] then Inl ''empty'' else Inr (''Qm'' @ x)) [''a'', [], ''b'']), s')"
    by (rule add_order_irrelevant) (auto simp: tryE_apply)
  then show ?thesis by simp
qed

subsection \<open>utils.go\<close>

text \<open>
  Downloads: a request, \<open>Inl\<close> when it cannot be made, answers with a status and a body.  The file hash
  is that of the root the importer builds; the error of building it is not looked at, and the node is
  nil then.
\<close>

definition gatewayUrl :: "bytes \<Rightarrow> bytes \<Rightarrow> bytes" where
  "gatewayUrl gateway cid = gateway @ ''/ipfs/'' @ cid"

definition catUrl :: "bytes \<Rightarrow> bytes \<Rightarrow> bytes" where
  "catUrl nodeUrl cid = ''http://'' @ nodeUrl @ ''/api/v0/cat?arg='' @ cid"

definition downloaded :: "bytes \<Rightarrow> ('s, int \<times> bytes) eff \<Rightarrow> ('s, bytes) eff" where
  "downloaded cid response =
     bindE response (\<lambda>(status, body).
       if status \<noteq> 200 then
         failE (Err (''failed to fetch item '' @ cid @ '': status_code '' @ formatInt status))
       else retE body)"

definition DownloadIpfsItemViaGateway :: "(bytes \<Rightarrow> bytes \<Rightarrow> ('s, int \<times> bytes) eff) \<Rightarrow> bytes \<Rightarrow> bytes \<Rightarrow> ('s, bytes) eff" where
  "DownloadIpfsItemViaGateway http gateway cid = downloaded cid (http ''GET'' (gatewayUrl gateway cid))"

definition DownloadIpfsItem :: "(bytes \<Rightarrow> bytes \<Rightarrow> ('s, int \<times> bytes) eff) \<Rightarrow> bytes \<Rightarrow> bytes \<Rightarrow> ('s, bytes) eff" where
  "DownloadIpfsItem http nodeUrl cid = downloaded cid (http ''POST'' (catUrl nodeUrl cid))"

text \<open>\<open>prepare\<close> is making the prefix, the chunker and the builder, \<open>trickle\<close> the layout.\<close>

definition GetFileHash :: "('s, 'd) eff \<Rightarrow> ('d \<Rightarrow> ('s, bytes) eff) \<Rightarrow> ('s, bytes) eff" where
  "GetFileHash prepare trickle =
     bindE prepare (\<lambda>dbh. bindE (tryE (trickle dbh)) (\<lambda>n. case n of
         Inl _ \<Rightarrow> failE (Panic ''nil pointer dereference'')
       | Inr root \<Rightarrow> retE root))"

end
