(* ===== verification/Spec2Isabelle.thy ===== *)
theory Spec2Isabelle
  imports SecureBucket SyncLoop TokenAuth KeyFacts SharingFacts ClientLoop OpenFacts DriveFacts GrpcFacts ClientDial Search App Listener Ipfs
begin

text \<open>
  A model of space-daemon, the background service of the Space desktop application: an encrypted
  file store over Textile buckets, IPFS and a hub.

  Every function of the program that can fail or that touches state is a state transformer that
  returns an error or a value (\<open>Prelude\<close>).  What the program calls and does not contain (badger,
  AES and SHA-512, the textile clients, IPFS, FUSE, bleve, the operating system) is a parameter: a
  record of functions with the documented behaviour as a named predicate (\<open>badger_ok\<close>, \<open>prims_ok\<close>,
  \<open>sec_ok\<close>, \<open>bleve_ok\<close>), for each of which a concrete instance shows that it can hold.  Interfaces
  on which one part relies on another are locales (\<open>kv_store\<close>, \<open>buckets_client\<close>, \<open>queue_stable\<close>,
  \<open>token_keeper\<close>, \<open>key_importer\<close>, \<open>files_index\<close>, \<open>dag_service\<close> and \<open>key_holder\<close>), each interpreted on the
  program's own functions.  Concurrency is a step relation where its order matters (a pass of the
  synchronizer, its loops, the loop of the client with the end of its shutdown, a listener, the
  controller of the drive), and an argument that gives the order where it does not.  Where the code
  shares state without a lock its accesses are steps of their own: the count of goroutines of a pass is
  loaded and stored in separate steps, and \<open>enqueueTask\<close> tests and pushes in two; elsewhere a function
  of the synchronizer's tasks is one step.

  How the parts work together: the gRPC handlers (\<open>GrpcHandlers\<close>) call the services
  (\<open>SpaceServices\<close>, \<open>SharingServices\<close>, \<open>KeyServices\<close>), these the textile client (\<open>TextileClient\<close>,
  \<open>BucketFactory\<close>), which finds a bucket's row in the model (\<open>Model\<close>) and hands out a \<open>Bucket\<close> over
  the encrypting client (\<open>SecureBucket\<close>).  Changes of a bucket queue tasks of the synchronizer
  (\<open>TaskQueue\<close> and below), which are stored with the \<open>Store\<close>.  The drive (\<open>Fsds\<close>) and the watched open
  files (\<open>FolderSync\<close>) are further callers of the services and buckets; \<open>App\<close> starts and stops all of
  it.

  The theories, from the bottom up:

  \<^item> \<open>Prelude\<close>: errors, effects, preservation of state predicates, indexing.
  \<^item> \<open>GoStrings\<close>, \<open>Json\<close>, \<open>Base64\<close>, \<open>Base32\<close>: what the source uses of \<open>strings\<close>, \<open>path\<close>, \<open>strconv\<close>,
    \<open>encoding/hex\<close>, \<open>encoding/json\<close>, \<open>encoding/base64\<close> and base 32, with the round trips of printing
    and parsing.
  \<^item> \<open>Domain\<close>: the records of \<open>core/space/domain\<close>, \<open>core/events\<close>, \<open>core/search\<close> and the row types
    of \<open>core/textile/model\<close>.
  \<^item> \<open>Store\<close>: \<open>core/store/store.go\<close> over badger.
  \<^item> \<open>Bucket\<close>: \<open>core/textile/bucket\<close>, a bucket over any buckets client, and its directory walks.
  \<^item> \<open>BucketCrypto\<close>, \<open>SecureBucket\<close>: \<open>core/textile/bucket/crypto\<close>, the encryption of paths and contents,
    and \<open>core/textile/secure_bucket_client.go\<close>, the client that encrypts what it pushes and races
    the cache, the DHT and the textile client when it pulls.
  \<^item> \<open>TaskQueue\<close>, \<open>SyncTasks\<close>, \<open>SyncPass\<close>, \<open>SyncLoop\<close>: \<open>core/textile/sync\<close>, the synchronizer: its
    queues and how they are stored, what each task does, one pass over a queue with its goroutines,
    and the two loops with their shutdown.
  \<^item> \<open>Permissions\<close>, \<open>Keychain\<close>, \<open>TokenAuth\<close>: \<open>core/permissions\<close>, \<open>core/keychain\<close> and \<open>grpc/auth\<close>:
    app tokens, the key pair and its mnemonic, and the check every gRPC request passes.
  \<^item> \<open>Threads\<close>: the \<open>Keychain\<close> interface and \<open>core/textile/utils\<close>, the threads whose ID is derived from
    the private key.
  \<^item> \<open>Vault\<close>, \<open>HubAuth\<close>: \<open>core/vault\<close> and \<open>core/backup\<close>, the backups of the key pair;
    \<open>core/textile/hub\<close>, the challenge for the hub's tokens and their cache.
  \<^item> \<open>KeyServices\<close>, \<open>KeyFacts\<close>: the services on keys, backups and identities, and what survives a backup.
  \<^item> \<open>ModelDb\<close>, \<open>Model\<close>, \<open>ModelLaws\<close>, \<open>ModelMem\<close>, \<open>ModelFacts\<close>: \<open>core/textile/model\<close>, the rows kept in
    the metathread: collections and queries, the operations, what they promise, an instance in
    memory, and the properties.
  \<^item> \<open>BucketFactory\<close>, \<open>TextileClient\<close>, \<open>ClientLoop\<close>, \<open>ClientDial\<close>, \<open>Listener\<close>: \<open>core/textile/client.go\<close> and
    its neighbours: finding and creating buckets, initialisation and health checks, the loop of the
    client, its connections, and the listeners on mirror threads.
  \<^item> \<open>Messages\<close>, \<open>Sharing\<close>, \<open>Mailbox\<close>, \<open>SharingFacts\<close>: \<open>core/textile/sharing.go\<close> and \<open>mailbox.go\<close>:
    invitations, revocations, received and sent files, and how messages become notifications.
  \<^item> \<open>SpaceServices\<close>, \<open>SharingServices\<close>, \<open>FileFacts\<close>: \<open>core/space/services\<close>; \<open>ClientMem\<close> is a daemon in
    memory for the witnesses.
  \<^item> \<open>Watcher\<close>, \<open>FolderSync\<close>, \<open>FolderFacts\<close>, \<open>OpenFacts\<close>: \<open>core/watcher\<close> and \<open>core/sync\<close>, the files opened from a
    bucket and uploaded when they change.
  \<^item> \<open>Fsds\<close>, \<open>SpaceFs\<close>, \<open>DriveFacts\<close>, \<open>FuseController\<close>: \<open>core/fsds\<close>, \<open>core/spacefs\<close>, \<open>core/libfuse\<close> and
    \<open>core/space/fuse\<close>, the drive and its controller.
  \<^item> \<open>Search\<close>: \<open>core/search/bleve\<close> and \<open>core/search/sqlite\<close>.
  \<^item> \<open>Ipfs\<close>: \<open>core/ipfs\<close>.
  \<^item> \<open>GrpcTypes\<close>, \<open>GrpcHandlers\<close>, \<open>GrpcFacts\<close>: \<open>grpc\<close>: the messages, the handlers, the event streams.
  \<^item> \<open>Config\<close>, \<open>App\<close>: \<open>config\<close>, \<open>core/env\<close> and \<open>app\<close>.

  What the lemmas show.  Storage: the store finds what it was given; encryption round-trips and
  authenticates; a bucket over the encrypting client is a map from paths to plain contents; the
  search index is a map from document IDs.  Synchronizer: no task is queued twice unless two calls of
  \<open>enqueueTask\<close> overlap or a queue of several was restored; a pass executes everything that was queued,
  at most 16 tasks at a time unless an update of the count is lost; the queue is stored once and after both
  loops have returned.  Keys: a mnemonic or a passphrase restores them, a thread ID depends on the private key
  alone, and a handler runs for an authorised token and for nothing else.  Sharing: an invitation comes back as it was
  sent with its status, unless its files had been received before.  Services and handlers: adding a tree uploads all of it and reports its
  progress; an opened file is one local copy whose changes go back to its bucket; a client is sent well-formed notifications.  Where the code does not do what it means to,
  the theorem states what it does, and the findings of the manifest point to it.

  Bounds and fuel: a directory walk, a listing, and adding or counting a tree take one unit of fuel
  per level (\<open>Each_walks\<close> and \<open>add_items_progress\<close> show that more fuel than the tree is deep is
  enough); waiting for the hub's token takes one unit per frame (\<open>receive_token_merges\<close>).  Integers are
  kept at their width where the code can wrap them (\<open>wrap32\<close>, the conversions of \<open>strconv\<close>) and are
  \<open>int\<close> elsewhere.  Lists stand for what arrives on a channel; a stream that has not ended is a prefix.

  Of the race of the three pullers every order of finishing is covered, but not that a puller can block
  in it (\<open>SecureBucket\<close>); of \<open>DeleteAccount\<close>, what it does to the running client is not in \<open>ClientLoop\<close>.
  Removing a path is taken to remove what is below it; pushing one leaves open what it does to entries
  above and below it.

  Not modelled: generated code (\<open>grpc/pb\<close> beyond the messages the handlers build), mocks and examples,
  logging and tracing, \<open>cmd\<close>, the installers and the Windows stubs of the drive, the HTTP proxies of the
  gRPC server, and \<open>core/textile/buckd.go\<close> and \<open>core/ipfs/node\<close>, which configure third-party
  servers and start them: they have no behaviour of their own to state.
\<close>

end
